(* ===== verification/Twerk_Prelude.thy ===== *)
theory Twerk_Prelude
  imports
    Main
    "HOL-Library.Word"
    "HOL-Library.Signed_Division"
    "HOL-Library.Char_ord"
    "HOL-Library.List_Lexorder"
    "HOL-Library.Sublist"
    "HOL-Library.AList"
begin

text \<open>
  What the component theories share: names for Rust's integer types, the \<open>?\<close> operator and
  \<open>collect::<Result<..>>\<close> on values of a sum type (the error on the left), the checked
  operations of \<open>i64\<close>, the string operations the code uses, hash maps as association lists
  with distinct keys, and the theorem collections the component proofs draw on.
\<close>

named_theorems res_simps \<open>equations of the result type\<close>
named_theorems res_elims \<open>successful results, taken apart\<close>
named_theorems i64_simps \<open>checked arithmetic read on integers\<close>

section \<open>Machine integers\<close>

type_synonym u8 = "8 word"
type_synonym u16 = "16 word"
type_synonym u32 = "32 word"
type_synonym u64 = "64 word"
type_synonym i32 = "32 word"
type_synonym i64 = "64 word"

text \<open>An \<open>i64\<close> is a 64-bit word read through \<open>sint\<close>.\<close>

definition i64_min :: int where "i64_min = - (2 ^ 63)"
definition i64_max :: int where "i64_max = 2 ^ 63 - 1"

definition in_i64 :: "int \<Rightarrow> bool" where
  "in_i64 k \<longleftrightarrow> i64_min \<le> k \<and> k \<le> i64_max"

lemma in_i64_sint [simp, intro]: "in_i64 (sint (w :: i64))"
  using sint_greater_eq [of w] sint_less [of w]
  by (simp add: in_i64_def i64_min_def i64_max_def)

lemma sint_word_of_int_i64:
  assumes "in_i64 k"
  shows "sint (word_of_int k :: i64) = k"
  using assms by (simp add: signed_of_int in_i64_def i64_min_def i64_max_def
      signed_take_bit_int_eq_self)

lemma word_of_int_sint_i64 [simp]: "word_of_int (sint (w :: i64)) = w"
  by simp

lemma word_of_int_eq_i64:
  assumes "in_i64 k"
  shows "word_of_int k = (c :: i64) \<longleftrightarrow> sint c = k"
  using assms by (metis sint_word_of_int_i64 word_of_int_sint_i64)

definition i64_checked :: "int \<Rightarrow> i64 option" where
  "i64_checked k = (if in_i64 k then Some (word_of_int k) else None)"

definition checked_add :: "i64 \<Rightarrow> i64 \<Rightarrow> i64 option" where
  "checked_add a b = i64_checked (sint a + sint b)"

definition checked_sub :: "i64 \<Rightarrow> i64 \<Rightarrow> i64 option" where
  "checked_sub a b = i64_checked (sint a - sint b)"

definition checked_mul :: "i64 \<Rightarrow> i64 \<Rightarrow> i64 option" where
  "checked_mul a b = i64_checked (sint a * sint b)"

text \<open>\<open>checked_div\<close> and \<open>checked_rem\<close> are \<open>None\<close> on a zero divisor and on the one
  overflowing pair \<open>i64::MIN\<close>, \<open>-1\<close>; both truncate towards zero.\<close>

definition checked_div :: "i64 \<Rightarrow> i64 \<Rightarrow> i64 option" where
  "checked_div a b =
     (if b = 0 then None
      else if sint a = i64_min \<and> sint b = -1 then None
      else Some (word_of_int (sint a sdiv sint b)))"

definition checked_rem :: "i64 \<Rightarrow> i64 \<Rightarrow> i64 option" where
  "checked_rem a b =
     (if b = 0 then None
      else if sint a = i64_min \<and> sint b = -1 then None
      else Some (word_of_int (sint a smod sint b)))"

lemma i64_checked_Some [i64_simps]:
  "i64_checked k = Some w \<longleftrightarrow> sint w = k"
  by (auto simp: i64_checked_def sint_word_of_int_i64)

lemma i64_checked_None [i64_simps]:
  "i64_checked k = None \<longleftrightarrow> \<not> in_i64 k"
  by (simp add: i64_checked_def)

lemma checked_add_Some [i64_simps]:
  "checked_add a b = Some c \<longleftrightarrow> sint c = sint a + sint b"
  by (simp add: checked_add_def i64_simps)

lemma checked_sub_Some [i64_simps]:
  "checked_sub a b = Some c \<longleftrightarrow> sint c = sint a - sint b"
  by (simp add: checked_sub_def i64_simps)

lemma checked_mul_Some [i64_simps]:
  "checked_mul a b = Some c \<longleftrightarrow> sint c = sint a * sint b"
  by (simp add: checked_mul_def i64_simps)

lemma sint_eq_0_i64 [simp]: "sint (w :: i64) = 0 \<longleftrightarrow> w = 0"
  by (metis signed_0 word_of_int_sint_i64)

lemma sdiv_in_i64:
  assumes "in_i64 a" and "in_i64 b" and "\<not> (a = i64_min \<and> b = -1)"
  shows "in_i64 (a sdiv b)"
proof (cases "b = 0 \<or> b = 1 \<or> b = -1")
  case True
  with assms show ?thesis
    by (auto simp: signed_divide_int_def in_i64_def i64_min_def i64_max_def sgn_if)
next
  case False
  then have b: "2 \<le> \<bar>b\<bar>" by auto
  have "\<bar>a\<bar> div \<bar>b\<bar> \<le> \<bar>a\<bar> div 2"
    using b by (intro zdiv_mono2) auto
  moreover have "0 \<le> \<bar>a\<bar> div \<bar>b\<bar>"
    using b by (simp add: pos_imp_zdiv_nonneg_iff)
  ultimately show ?thesis
    using assms(1)
    by (auto simp: signed_divide_int_def in_i64_def i64_min_def i64_max_def sgn_if)
qed

lemma smod_in_i64:
  assumes "in_i64 a" and "b \<noteq> 0"
  shows "in_i64 (a smod b)"
proof -
  have "\<bar>a\<bar> mod \<bar>b\<bar> \<le> \<bar>a\<bar>" and "0 \<le> \<bar>a\<bar> mod \<bar>b\<bar>"
    using assms(2) by (auto intro: zmod_le_nonneg_dividend)
  with assms(1) show ?thesis
    by (cases "a = i64_min")
      (auto simp: signed_modulo_int_def in_i64_def i64_min_def i64_max_def sgn_if
        dest: order_trans)
qed

lemma checked_div_Some [i64_simps]:
  "checked_div a b = Some c \<longleftrightarrow>
     b \<noteq> 0 \<and> \<not> (sint a = i64_min \<and> sint b = -1) \<and> sint c = sint a sdiv sint b"
  by (auto simp: checked_div_def word_of_int_eq_i64 sdiv_in_i64)

lemma checked_rem_Some [i64_simps]:
  "checked_rem a b = Some c \<longleftrightarrow>
     b \<noteq> 0 \<and> \<not> (sint a = i64_min \<and> sint b = -1) \<and> sint c = sint a smod sint b"
  by (auto simp: checked_rem_def word_of_int_eq_i64 smod_in_i64)

section \<open>Results\<close>

text \<open>The \<open>?\<close> operator: go on with the value, or return the error.\<close>

definition res_bind :: "'e + 'a \<Rightarrow> ('a \<Rightarrow> 'e + 'b) \<Rightarrow> 'e + 'b" where
  "res_bind r f = (case r of Inl e \<Rightarrow> Inl e | Inr x \<Rightarrow> f x)"

lemma res_bind_simps [simp]:
  "res_bind (Inl e) f = Inl e"
  "res_bind (Inr x) f = f x"
  by (simp_all add: res_bind_def)

lemma res_bind_Inr [res_simps]:
  "res_bind r f = Inr y \<longleftrightarrow> (\<exists>x. r = Inr x \<and> f x = Inr y)"
  by (cases r) simp_all

lemma res_bind_Inl [res_simps]:
  "res_bind r f = Inl e \<longleftrightarrow> r = Inl e \<or> (\<exists>x. r = Inr x \<and> f x = Inl e)"
  by (cases r) simp_all

lemma res_bind_InrE [elim!, res_elims]:
  assumes "res_bind r f = Inr y"
  obtains x where "r = Inr x" and "f x = Inr y"
  using assms by (auto simp: res_simps)

lemma res_bind_cong [fundef_cong]:
  "r = r' \<Longrightarrow> (\<And>x. r' = Inr x \<Longrightarrow> f x = g x) \<Longrightarrow> res_bind r f = res_bind r' g"
  by (cases r') simp_all

definition ok_or :: "'a option \<Rightarrow> 'e \<Rightarrow> 'e + 'a" where
  "ok_or x e = (case x of None \<Rightarrow> Inl e | Some v \<Rightarrow> Inr v)"

lemma ok_or_simps [simp]:
  "ok_or None e = Inl e"
  "ok_or (Some v) e = Inr v"
  by (simp_all add: ok_or_def)

lemma ok_or_Inr [res_simps]: "ok_or x e = Inr v \<longleftrightarrow> x = Some v"
  by (cases x) simp_all

lemma ok_or_Inl [res_simps]: "ok_or x e = Inl e' \<longleftrightarrow> x = None \<and> e' = e"
  by (cases x) auto

definition map_err :: "('e \<Rightarrow> 'f) \<Rightarrow> 'e + 'a \<Rightarrow> 'f + 'a" where
  "map_err h r = (case r of Inl e \<Rightarrow> Inl (h e) | Inr x \<Rightarrow> Inr x)"

lemma map_err_simps [simp]:
  "map_err h (Inl e) = Inl (h e)"
  "map_err h (Inr x) = Inr x"
  by (simp_all add: map_err_def)

lemma map_err_Inr [res_simps]: "map_err h r = Inr x \<longleftrightarrow> r = Inr x"
  by (cases r) simp_all

text \<open>\<open>iter().map(f).collect::<Result<Vec<_>, _>>()\<close>: the first error wins.\<close>

fun res_collect :: "('a \<Rightarrow> 'e + 'b) \<Rightarrow> 'a list \<Rightarrow> 'e + 'b list" where
  "res_collect f [] = Inr []"
| "res_collect f (x # xs) =
     res_bind (f x) (\<lambda>y. res_bind (res_collect f xs) (\<lambda>ys. Inr (y # ys)))"

lemma res_collect_cong [fundef_cong]:
  assumes "xs = ys" and "\<And>x. x \<in> set ys \<Longrightarrow> f x = g x"
  shows "res_collect f xs = res_collect g ys"
  using assms(2) unfolding assms(1) by (induction ys) (auto intro!: res_bind_cong)

lemma res_collect_Inr [res_simps]:
  "res_collect f xs = Inr ys \<longleftrightarrow> list_all2 (\<lambda>x y. f x = Inr y) xs ys"
  by (induction xs arbitrary: ys) (auto simp: list_all2_Cons1 res_simps)

lemma res_collect_Inl:
  "res_collect f xs = Inl e \<Longrightarrow> \<exists>x \<in> set xs. f x = Inl e"
  by (induction xs) (auto simp: res_simps)

lemma res_collect_length: "res_collect f xs = Inr ys \<Longrightarrow> length ys = length xs"
  by (auto simp: res_simps dest: list_all2_lengthD)

lemma res_collect_id:
  assumes "\<And>x. x \<in> set xs \<Longrightarrow> f x = Inr x"
  shows "res_collect f xs = Inr xs"
  using assms by (induction xs) auto

section \<open>Strings\<close>

text \<open>
  A Rust \<open>str\<close> is its UTF-8 bytes; \<open>len\<close> counts bytes and comparison is bytewise, as
  \<open>length\<close> and the lexicographic order are here.
\<close>

fun str_contains :: "string \<Rightarrow> string \<Rightarrow> bool" where
  "str_contains [] needle = (needle = [])"
| "str_contains (c # cs) needle = (prefix needle (c # cs) \<or> str_contains cs needle)"

lemma str_contains_iff: "str_contains s needle \<longleftrightarrow> (\<exists>us vs. s = us @ needle @ vs)"
proof (induction s)
  case Nil
  then show ?case by simp
next
  case (Cons c cs)
  have "(\<exists>us vs. c # cs = us @ needle @ vs) \<longleftrightarrow>
      prefix needle (c # cs) \<or> (\<exists>us vs. cs = us @ needle @ vs)"
    unfolding prefix_def
    by (metis append_Cons append_Nil append_eq_Cons_conv)
  with Cons show ?case by simp
qed

text \<open>The ASCII classes of \<open>char\<close>, and \<open>to_ascii_lowercase\<close>.\<close>

definition is_digit :: "char \<Rightarrow> bool" where
  "is_digit c \<longleftrightarrow> CHR ''0'' \<le> c \<and> c \<le> CHR ''9''"

definition is_lower :: "char \<Rightarrow> bool" where
  "is_lower c \<longleftrightarrow> CHR ''a'' \<le> c \<and> c \<le> CHR ''z''"

definition is_upper :: "char \<Rightarrow> bool" where
  "is_upper c \<longleftrightarrow> CHR ''A'' \<le> c \<and> c \<le> CHR ''Z''"

definition is_ascii_alphabetic :: "char \<Rightarrow> bool" where
  "is_ascii_alphabetic c \<longleftrightarrow> is_lower c \<or> is_upper c"

definition is_ascii_alphanumeric :: "char \<Rightarrow> bool" where
  "is_ascii_alphanumeric c \<longleftrightarrow> is_ascii_alphabetic c \<or> is_digit c"

definition to_lower :: "char \<Rightarrow> char" where
  "to_lower c = (if is_upper c then char_of (of_char c + 32 :: nat) else c)"

definition to_ascii_lowercase :: "string \<Rightarrow> string" where
  "to_ascii_lowercase = map to_lower"

text \<open>
  Unicode white space in UTF-8: the ASCII bytes, and the encodings of the others. A substring
  that is one of them is that character, UTF-8 being self-synchronising.
\<close>

definition white_spaces :: "string list" where
  "white_spaces = map (map char_of)
     ([[9], [10], [11], [12], [13], [32], [0xC2, 0x85], [0xC2, 0xA0], [0xE1, 0x9A, 0x80],
       [0xE2, 0x80, 0xA8], [0xE2, 0x80, 0xA9], [0xE2, 0x80, 0xAF], [0xE2, 0x81, 0x9F],
       [0xE3, 0x80, 0x80]] @ map (\<lambda>b. [0xE2, 0x80, b]) [0x80..<0x8B :: nat])"

definition has_white_space :: "string \<Rightarrow> bool" where
  "has_white_space s \<longleftrightarrow> (\<exists>w \<in> set white_spaces. str_contains s w)"

text \<open>\<open>trim_start\<close>; a string is blank when nothing is left (\<open>s.trim().is_empty()\<close>).\<close>

fun strip_one :: "string list \<Rightarrow> string \<Rightarrow> string option" where
  "strip_one [] s = None"
| "strip_one (w # ws) s = (if w \<noteq> [] \<and> prefix w s then Some (drop (length w) s) else strip_one ws s)"

lemma strip_one_shorter: "strip_one ws s = Some s' \<Longrightarrow> length s' < length s"
  by (induction ws) (auto split: if_splits simp: prefix_def)

function trim_by :: "string list \<Rightarrow> string \<Rightarrow> string" where
  "trim_by ws s = (case strip_one ws s of None \<Rightarrow> s | Some s' \<Rightarrow> trim_by ws s')"
  by pat_completeness auto
termination
  by (relation "measure (length \<circ> snd)") (auto dest: strip_one_shorter)

declare trim_by.simps [simp del]

definition trim_start :: "string \<Rightarrow> string" where
  "trim_start = trim_by white_spaces"

definition is_blank :: "string \<Rightarrow> bool" where
  "is_blank s \<longleftrightarrow> trim_start s = []"

text \<open>The first character of a UTF-8 string, by the width its lead byte announces.\<close>

definition first_char :: "string \<Rightarrow> string" where
  "first_char s =
     (case s of [] \<Rightarrow> []
      | b # _ \<Rightarrow> let n = of_char b :: nat
          in take (if n < 0x80 then 1 else if n < 0xE0 then 2 else if n < 0xF0 then 3 else 4) s)"

text \<open>The characters of a UTF-8 string.\<close>

lemma first_char_nonempty: "s \<noteq> [] \<Longrightarrow> 0 < length (first_char s)"
  by (cases s) (simp_all add: first_char_def Let_def)

function utf8_chars :: "string \<Rightarrow> string list" where
  "utf8_chars [] = []"
| "utf8_chars (b # bs) = first_char (b # bs) # utf8_chars (drop (length (first_char (b # bs))) (b # bs))"
  by pat_completeness auto
termination
  by (relation "measure length") (use first_char_nonempty in \<open>auto simp: diff_less_Suc\<close>)

text \<open>
  \<open>to_uppercase\<close> and \<open>to_lowercase\<close> where the result is to be compared with ASCII names: ASCII
  letters, and the few other characters whose image is ASCII (dotless i, long s, sharp s, the
  Latin ligatures; the Kelvin sign). Every other character keeps its bytes, none of which are ASCII.
\<close>

definition upper_specials :: "(string \<times> string) list" where
  "upper_specials = map (\<lambda>(bs, t). (map char_of bs, t))
     [([0xC4, 0xB1 :: nat], ''I''), ([0xC5, 0xBF], ''S''), ([0xC3, 0x9F], ''SS''),
      ([0xEF, 0xAC, 0x80], ''FF''), ([0xEF, 0xAC, 0x81], ''FI''), ([0xEF, 0xAC, 0x82], ''FL''),
      ([0xEF, 0xAC, 0x83], ''FFI''), ([0xEF, 0xAC, 0x84], ''FFL''), ([0xEF, 0xAC, 0x85], ''ST''),
      ([0xEF, 0xAC, 0x86], ''ST'')]"

definition lower_specials :: "(string \<times> string) list" where
  "lower_specials = [(map char_of [0xE2, 0x84, 0xAA :: nat], ''k'')]"

definition to_upper :: "char \<Rightarrow> char" where
  "to_upper c = (if is_lower c then char_of (of_char c - 32 :: nat) else c)"

definition map_chars :: "(string \<times> string) list \<Rightarrow> (char \<Rightarrow> char) \<Rightarrow> string \<Rightarrow> string" where
  "map_chars specials f s = concat (map (\<lambda>c.
     case map_of specials c of Some t \<Rightarrow> t | None \<Rightarrow> map f c) (utf8_chars s))"

definition to_uppercase :: "string \<Rightarrow> string" where
  "to_uppercase = map_chars upper_specials to_upper"

definition to_lowercase :: "string \<Rightarrow> string" where
  "to_lowercase = map_chars lower_specials to_lower"

lemma map_chars_id:
  assumes "\<And>c. c \<in> set s \<Longrightarrow> (of_char c :: nat) < 0x80 \<and> f c = c \<and> map_of sp [c] = None"
  shows "map_chars sp f s = s"
  using assms by (induction s) (simp_all add: map_chars_def first_char_def Let_def)

lemma to_uppercase_upper: "list_all is_upper s \<Longrightarrow> to_uppercase s = s"
  unfolding to_uppercase_def
  by (rule map_chars_id)
     (auto simp: list_all_iff to_upper_def is_upper_def is_lower_def less_eq_char_def
        upper_specials_def)

lemma to_lowercase_lower: "list_all is_lower s \<Longrightarrow> to_lowercase s = s"
  unfolding to_lowercase_def
  by (rule map_chars_id)
     (auto simp: list_all_iff to_lower_def is_upper_def is_lower_def less_eq_char_def
        lower_specials_def)

text \<open>Decimal digits; \<open>parse::<usize>()\<close> takes an optional plus sign and rejects overflow.\<close>

definition digit_val :: "char \<Rightarrow> nat" where
  "digit_val c = of_char c - 48"

definition digits_val :: "string \<Rightarrow> nat" where
  "digits_val s = foldl (\<lambda>n c. 10 * n + digit_val c) 0 s"

definition parse_usize :: "string \<Rightarrow> nat option" where
  "parse_usize s =
     (let ds = (case s of CHR ''+'' # t \<Rightarrow> t | _ \<Rightarrow> s)
      in if ds \<noteq> [] \<and> list_all is_digit ds \<and> digits_val ds < 2 ^ 64
         then Some (digits_val ds) else None)"

text \<open>\<open>split\<close> on a character, and decimal numbers as \<open>format!\<close> prints them.\<close>

fun split_on :: "char \<Rightarrow> string \<Rightarrow> string list" where
  "split_on sep [] = [[]]"
| "split_on sep (c # cs) =
     (if c = sep then [] # split_on sep cs
      else case split_on sep cs of t # ts \<Rightarrow> (c # t) # ts | [] \<Rightarrow> [[c]])"

lemma split_on_nonempty [simp]: "split_on sep s \<noteq> []"
  by (induction s) (auto split: list.splits)

lemma split_on_no_sep: "sep \<notin> set s \<Longrightarrow> split_on sep s = [s]"
  by (induction s) auto

lemma split_on_append: "sep \<notin> set s \<Longrightarrow> split_on sep (s @ sep # t) = s # split_on sep t"
  by (induction s) auto

fun show_nat :: "nat \<Rightarrow> string" where
  "show_nat n = (if n < 10 then [char_of (48 + n)] else show_nat (n div 10) @ [char_of (48 + n mod 10)])"

declare show_nat.simps [simp del]

lemma digit_char: "d < 10 \<Longrightarrow> is_digit (char_of (48 + d)) \<and> digit_val (char_of (48 + d)) = d"
  by (simp add: is_digit_def digit_val_def less_eq_char_def)

lemma digits_val_snoc: "digits_val (s @ [c]) = 10 * digits_val s + digit_val c"
  by (simp add: digits_val_def)

lemma show_nat_digits: "show_nat n \<noteq> [] \<and> list_all is_digit (show_nat n) \<and> digits_val (show_nat n) = n"
proof (induction n rule: show_nat.induct)
  case (1 n)
  show ?case
  proof (cases "n < 10")
    case True
    then show ?thesis
      using digit_char [of n] by (simp add: show_nat.simps [of n] digits_val_def)
  next
    case False
    then show ?thesis
      using 1 digit_char [of "n mod 10"]
      by (simp add: show_nat.simps [of n] digits_val_snoc)
  qed
qed

lemma parse_usize_show: "n < 2 ^ 64 \<Longrightarrow> parse_usize (show_nat n) = Some n"
proof -
  assume n: "n < 2 ^ 64"
  have d: "list_all is_digit (show_nat n)" "show_nat n \<noteq> []" using show_nat_digits by blast+
  then have "hd (show_nat n) \<noteq> CHR ''+''"
    by (cases "show_nat n") (auto simp: is_digit_def less_eq_char_def)
  then have "(case show_nat n of CHR ''+'' # t \<Rightarrow> t | _ \<Rightarrow> show_nat n) = show_nat n"
    by (auto split: list.split char.split bool.split)
  with n d show_nat_digits [of n] show ?thesis by (simp add: parse_usize_def Let_def)
qed

section \<open>Runs of a step relation\<close>

lemma relpowp_stuck:
  assumes "\<And>c. \<not> R x c"
  shows "(R ^^ n) x y \<longleftrightarrow> n = 0 \<and> y = x"
proof (cases n)
  case (Suc m)
  with assms show ?thesis by (auto dest: relpowp_Suc_D2 simp del: relpowp.simps(2))
qed auto

end
