(* ===== verification/Stack_Interface.thy ===== *)
theory Stack_Interface
  imports Twerk_Prelude
begin

text \<open>
  The contract of an evaluation stack: a list of at most \<open>cap\<close> values with the top first.
  Both expression VMs of the code base (\<open>ir/expr_vm.rs\<close> with its array and depth counter,
  \<open>eval/vm.rs\<close> with its \<open>Vec\<close>) are proved to meet it, and what an operator does to the
  stack is proved once here.
\<close>

locale bounded_stack =
  fixes push_op :: "'v \<Rightarrow> 's \<Rightarrow> 'e + 's"
    and pop_op :: "'s \<Rightarrow> 'e + 'v \<times> 's"
    and contents :: "'s \<Rightarrow> 'v list"
    and wf :: "'s \<Rightarrow> bool"
    and cap :: nat
  assumes push_law: "wf s \<Longrightarrow> length (contents s) < cap \<Longrightarrow>
      \<exists>s'. push_op v s = Inr s' \<and> wf s' \<and> contents s' = v # contents s"
    and push_full_law: "wf s \<Longrightarrow> cap \<le> length (contents s) \<Longrightarrow> \<exists>e. push_op v s = Inl e"
    and pop_law: "wf s \<Longrightarrow> contents s = v # vs \<Longrightarrow>
      \<exists>s'. pop_op s = Inr (v, s') \<and> wf s' \<and> contents s' = vs"
    and pop_nil_law: "wf s \<Longrightarrow> contents s = [] \<Longrightarrow> \<exists>e. pop_op s = Inl e"
    and bounded_law: "wf s \<Longrightarrow> length (contents s) \<le> cap"
begin

lemma push_inv:
  assumes "wf s" and "push_op v s = Inr s'"
  shows "wf s'" and "contents s' = v # contents s" and "length (contents s) < cap"
  using assms push_law [of s v] push_full_law [of s v]
  by (cases "length (contents s) < cap"; force)+

lemma pop_inv:
  assumes "wf s" and "pop_op s = Inr (v, s')"
  shows "wf s'" and "contents s = v # contents s'"
proof -
  obtain w ws where "contents s = w # ws"
    using assms pop_nil_law [of s] by (cases "contents s") auto
  with assms pop_law [of s w ws] show "wf s'" and "contents s = v # contents s'" by auto
qed

text \<open>An operator with one operand: the stack keeps its height.\<close>

lemma unary_step:
  assumes "wf s" and "contents s = x # vs" and "f x = Inr r"
  shows "\<exists>s'. res_bind (pop_op s) (\<lambda>(a, s1). res_bind (f a) (\<lambda>r. push_op r s1)) = Inr s' \<and>
      wf s' \<and> contents s' = r # vs"
proof -
  obtain s1 where s1: "pop_op s = Inr (x, s1)" "wf s1" "contents s1 = vs"
    using pop_law [OF assms(1,2)] by blast
  moreover have "length vs < cap"
    using bounded_law [OF assms(1)] assms(2) by simp
  ultimately show ?thesis
    using push_law [of s1 r] assms(3) by auto
qed

text \<open>An operator with two operands, the right one on top: one entry less.\<close>

lemma binary_step:
  assumes "wf s" and "contents s = y # x # vs" and "f y x = Inr r"
  shows "\<exists>s'. res_bind (pop_op s) (\<lambda>(a, s1). res_bind (pop_op s1) (\<lambda>(b, s2).
        res_bind (f a b) (\<lambda>r. push_op r s2))) = Inr s' \<and> wf s' \<and> contents s' = r # vs"
proof -
  obtain s1 where s1: "pop_op s = Inr (y, s1)" "wf s1" "contents s1 = x # vs"
    using pop_law [OF assms(1,2)] by blast
  then obtain s2 where s2: "pop_op s1 = Inr (x, s2)" "wf s2" "contents s2 = vs"
    using pop_law [of s1 x vs] by blast
  moreover have "length vs < cap"
    using bounded_law [OF assms(1)] assms(2) by simp
  ultimately show ?thesis
    using s1(1) push_law [of s2 r] assms(3) by auto
qed

lemma binary_error:
  assumes "wf s" and "contents s = y # x # vs" and "f y x = Inl e"
  shows "res_bind (pop_op s) (\<lambda>(a, s1). res_bind (pop_op s1) (\<lambda>(b, s2).
        res_bind (f a b) (\<lambda>r. push_op r s2))) = Inl e"
proof -
  obtain s1 where s1: "pop_op s = Inr (y, s1)" "wf s1" "contents s1 = x # vs"
    using pop_law [OF assms(1,2)] by blast
  then obtain s2 where "pop_op s1 = Inr (x, s2)"
    using pop_law [of s1 x vs] by blast
  with s1(1) assms(3) show ?thesis by simp
qed

end

end
