(* ===== verification/Expr_Vm.thy ===== *)
theory Expr_Vm
  imports Stack_Interface
begin

text \<open>
  The bytecode VM of \<open>twerk-core/src/ir/expr_vm.rs\<close> with the types of \<open>ir/expression.rs\<close>,
  \<open>ir/slot.rs\<close> and \<open>ir/types.rs\<close>: the fixed array of 64 stack entries with its depth counter,
  the operations on slot values, one step per \<open>Op\<close>, and the fetch loop, whose termination
  rests on the jump offsets being unsigned.
\<close>

section \<open>Values, operations, errors\<close>

text \<open>The index newtypes \<open>SlotIdx\<close>, \<open>ConstIdx\<close>, \<open>AccessorIdx\<close> all wrap a \<open>u16\<close>.\<close>

type_synonym slot_idx = u16
type_synonym const_idx = u16
type_synonym accessor_idx = u16
type_synonym step_idx = u16
type_synonym action_idx = u16

datatype slot_value =
    SV_Null
  | SV_Bool bool
  | SV_Number i64
  | SV_Text string
  | SV_List "slot_value list"
  | SV_Object "(string \<times> slot_value) list"

datatype op =
    LoadSlot slot_idx
  | LoadConst const_idx
  | LoadAccessor accessor_idx
  | Op_Eq | Op_Gt | Op_Lt | Op_Gte | Op_Lte
  | Op_And | Op_Or | Op_Not
  | Op_Add | Op_Sub | Op_Mul | Op_Div | Op_Mod
  | Op_Contains | Op_StartsWith | Op_EndsWith
  | Op_Length
  | Op_Exists accessor_idx
  | JumpTrue u16
  | JumpFalse u16
  | Jump u16

record compiled_expr =
  ops :: "op list"
  max_stack :: u8

datatype step_state = Pending | Running | Completed | Failed u16 | Waiting
datatype taint = Clean | Secret | DerivedFromSecret

record run_frame =
  frame_id :: "u8 list"
  current :: step_idx
  step_states :: "step_state list"
  slots :: "slot_value list"
  taints :: "taint list"

datatype expr_error =
    StackOverflow nat nat
  | StackUnderflow nat
  | SlotNotInitialized slot_idx
  | SlotOutOfBounds slot_idx u16
  | ConstOutOfBounds u16
  | AccessorOutOfBounds u16
  | DivisionByZero
  | TypeMismatch string string
  | InvalidJump u16
  | ExpressionTooComplex u16
  | NullValue

datatype engine_error =
    EE_InvalidProgramCounter step_idx
  | EE_SlotNotInitialized slot_idx
  | EE_SlotOutOfBounds slot_idx u16
  | EE_ExpressionTooComplex u16
  | EE_DivisionByZero
  | EE_TypeMismatch string string
  | EE_ActionFailed action_idx u16
  | EE_InvalidJump step_idx

text \<open>\<open>impl From<ExprError> for EngineError\<close>: the last arm is the source's wildcard.\<close>

fun to_engine_error :: "expr_error \<Rightarrow> engine_error" where
  "to_engine_error (SlotNotInitialized slot) = EE_SlotNotInitialized slot"
| "to_engine_error (SlotOutOfBounds slot mx) = EE_SlotOutOfBounds slot mx"
| "to_engine_error DivisionByZero = EE_DivisionByZero"
| "to_engine_error (TypeMismatch expected actual) = EE_TypeMismatch expected actual"
| "to_engine_error (ExpressionTooComplex n) = EE_ExpressionTooComplex n"
| "to_engine_error _ = EE_ExpressionTooComplex (- 1)"

section \<open>The evaluation stack\<close>

definition EXPR_STACK_MAX :: nat where "EXPR_STACK_MAX = 64"

record eval_stack =
  entries :: "slot_value option list"
  depth :: nat

definition new_stack :: eval_stack where
  "new_stack = \<lparr>entries = replicate EXPR_STACK_MAX None, depth = 0\<rparr>"

definition push :: "slot_value \<Rightarrow> eval_stack \<Rightarrow> expr_error + eval_stack" where
  "push v st =
     (if depth st \<ge> EXPR_STACK_MAX then Inl (StackOverflow (depth st) EXPR_STACK_MAX)
      else Inr (st\<lparr>entries := (entries st)[depth st := Some v], depth := depth st + 1\<rparr>))"

text \<open>\<open>take\<close> empties the entry it reads.\<close>

definition pop :: "eval_stack \<Rightarrow> expr_error + slot_value \<times> eval_stack" where
  "pop st =
     (if depth st = 0 then Inl (StackUnderflow 1)
      else let d = depth st - 1 in
        res_bind (ok_or (entries st ! d) (StackUnderflow 1))
          (\<lambda>v. Inr (v, st\<lparr>entries := (entries st)[d := None], depth := d\<rparr>)))"

definition pop2 :: "eval_stack \<Rightarrow> expr_error + (slot_value \<times> slot_value) \<times> eval_stack" where
  "pop2 st =
     res_bind (pop st) (\<lambda>(a, st1). res_bind (pop st1) (\<lambda>(b, st2). Inr ((a, b), st2)))"

text \<open>The specification of the stack: a bounded list with the top first.\<close>

definition stack_wf :: "eval_stack \<Rightarrow> bool" where
  "stack_wf st \<longleftrightarrow>
     length (entries st) = EXPR_STACK_MAX \<and> depth st \<le> EXPR_STACK_MAX \<and>
     (\<forall>i < depth st. entries st ! i \<noteq> None)"

definition stack_list :: "eval_stack \<Rightarrow> slot_value list" where
  "stack_list st = rev (map the (take (depth st) (entries st)))"

lemma stack_wf_new [simp]: "stack_wf new_stack"
  by (simp add: stack_wf_def new_stack_def)

lemma stack_list_new [simp]: "stack_list new_stack = []"
  by (simp add: stack_list_def new_stack_def)

lemma depth_stack_list: "stack_wf st \<Longrightarrow> length (stack_list st) = depth st"
  by (simp add: stack_wf_def stack_list_def)

lemma push_ok:
  assumes "stack_wf st" and "depth st < EXPR_STACK_MAX"
  obtains st' where "push v st = Inr st'" and "stack_wf st'"
    and "stack_list st' = v # stack_list st"
proof
  let ?st' = "st\<lparr>entries := (entries st)[depth st := Some v], depth := depth st + 1\<rparr>"
  show "push v st = Inr ?st'" using assms by (simp add: push_def)
  show "stack_wf ?st'" using assms by (auto simp: stack_wf_def nth_list_update less_Suc_eq)
  show "stack_list ?st' = v # stack_list st"
    using assms by (simp add: stack_wf_def stack_list_def take_Suc_conv_app_nth)
qed

lemma pop_ok:
  assumes wf: "stack_wf st" and v: "stack_list st = v # vs"
  obtains st' where "pop st = Inr (v, st')" and "stack_wf st'" and "stack_list st' = vs"
proof
  from v have d: "depth st \<noteq> 0" by (cases "depth st = 0") (auto simp: stack_list_def)
  let ?d = "depth st - 1"
  let ?st' = "st\<lparr>entries := (entries st)[?d := None], depth := ?d\<rparr>"
  from wf d have lt: "?d < length (entries st)" and some: "entries st ! ?d \<noteq> None"
    by (auto simp: stack_wf_def)
  have "take (depth st) (entries st) = take ?d (entries st) @ [entries st ! ?d]"
    using d lt by (metis Suc_pred' neq0_conv take_Suc_conv_app_nth diff_Suc_1 One_nat_def)
  with v have top: "the (entries st ! ?d) = v" and rest: "rev (map the (take ?d (entries st))) = vs"
    by (simp_all add: stack_list_def)
  show "pop st = Inr (v, ?st')" using d some top by (auto simp: pop_def Let_def)
  show "stack_wf ?st'" using wf by (auto simp: stack_wf_def nth_list_update)
  show "stack_list ?st' = vs" using rest by (simp add: stack_list_def)
qed

lemma pop_empty: "stack_wf st \<Longrightarrow> stack_list st = [] \<Longrightarrow> pop st = Inl (StackUnderflow 1)"
  using depth_stack_list [of st] by (simp add: pop_def)

lemma push_full:
  "stack_wf st \<Longrightarrow> length (stack_list st) = EXPR_STACK_MAX \<Longrightarrow>
     push v st = Inl (StackOverflow EXPR_STACK_MAX EXPR_STACK_MAX)"
  using depth_stack_list [of st] by (simp add: push_def)

interpretation vm_stack: bounded_stack push pop stack_list stack_wf EXPR_STACK_MAX
proof unfold_locales
  fix s v vs
  assume wf: "stack_wf s"
  show "\<exists>s'. push v s = Inr s' \<and> stack_wf s' \<and> stack_list s' = v # stack_list s"
    if "length (stack_list s) < EXPR_STACK_MAX"
    using that wf by (auto simp: depth_stack_list intro: push_ok [of s v])
  show "\<exists>e. push v s = Inl e" if "EXPR_STACK_MAX \<le> length (stack_list s)"
    using that wf by (simp add: depth_stack_list push_def)
  show "\<exists>s'. pop s = Inr (v, s') \<and> stack_wf s' \<and> stack_list s' = vs"
    if "stack_list s = v # vs"
    using that wf by (auto intro: pop_ok [of s v vs])
  show "\<exists>e. pop s = Inl e" if "stack_list s = []"
    using that wf by (simp add: pop_empty)
  show "length (stack_list s) \<le> EXPR_STACK_MAX"
    using wf by (simp add: depth_stack_list) (simp add: stack_wf_def)
qed

section \<open>Operations on values\<close>

definition type_mismatch :: "string \<Rightarrow> expr_error" where
  "type_mismatch expected = TypeMismatch expected ''other''"

definition number_overflow :: expr_error where
  "number_overflow = TypeMismatch ''number'' ''overflow''"

definition eq_sv :: "slot_value \<Rightarrow> slot_value \<Rightarrow> expr_error + bool" where
  "eq_sv a b = Inr (a = b)"

fun gt_sv :: "slot_value \<Rightarrow> slot_value \<Rightarrow> expr_error + bool" where
  "gt_sv (SV_Number n1) (SV_Number n2) = Inr (sint n1 > sint n2)"
| "gt_sv (SV_Text t1) (SV_Text t2) = Inr (t1 > t2)"
| "gt_sv _ _ = Inl (type_mismatch ''number or text'')"

fun lt_sv :: "slot_value \<Rightarrow> slot_value \<Rightarrow> expr_error + bool" where
  "lt_sv (SV_Number n1) (SV_Number n2) = Inr (sint n1 < sint n2)"
| "lt_sv (SV_Text t1) (SV_Text t2) = Inr (t1 < t2)"
| "lt_sv _ _ = Inl (type_mismatch ''number or text'')"

fun gte_sv :: "slot_value \<Rightarrow> slot_value \<Rightarrow> expr_error + bool" where
  "gte_sv (SV_Number n1) (SV_Number n2) = Inr (sint n1 \<ge> sint n2)"
| "gte_sv (SV_Text t1) (SV_Text t2) = Inr (t1 \<ge> t2)"
| "gte_sv _ _ = Inl (type_mismatch ''number or text'')"

fun lte_sv :: "slot_value \<Rightarrow> slot_value \<Rightarrow> expr_error + bool" where
  "lte_sv (SV_Number n1) (SV_Number n2) = Inr (sint n1 \<le> sint n2)"
| "lte_sv (SV_Text t1) (SV_Text t2) = Inr (t1 \<le> t2)"
| "lte_sv _ _ = Inl (type_mismatch ''number or text'')"

fun is_truthy :: "slot_value \<Rightarrow> expr_error + bool" where
  "is_truthy SV_Null = Inr False"
| "is_truthy (SV_Bool b) = Inr b"
| "is_truthy (SV_Number n) = Inr (n \<noteq> 0)"
| "is_truthy (SV_Text s) = Inr (s \<noteq> [])"
| "is_truthy (SV_List list) = Inr (list \<noteq> [])"
| "is_truthy (SV_Object obj) = Inr (obj \<noteq> [])"

text \<open>\<open>&&\<close> and \<open>||\<close> look at the second operand only when the first does not decide.\<close>

definition and_sv :: "slot_value \<Rightarrow> slot_value \<Rightarrow> expr_error + bool" where
  "and_sv a b = res_bind (is_truthy a) (\<lambda>x. if x then is_truthy b else Inr False)"

definition or_sv :: "slot_value \<Rightarrow> slot_value \<Rightarrow> expr_error + bool" where
  "or_sv a b = res_bind (is_truthy a) (\<lambda>x. if x then Inr True else is_truthy b)"

definition not_sv :: "slot_value \<Rightarrow> expr_error + bool" where
  "not_sv a = res_bind (is_truthy a) (\<lambda>x. Inr (\<not> x))"

definition number_or_overflow :: "i64 option \<Rightarrow> expr_error + slot_value" where
  "number_or_overflow r = ok_or (map_option SV_Number r) number_overflow"

fun add_sv :: "slot_value \<Rightarrow> slot_value \<Rightarrow> expr_error + slot_value" where
  "add_sv (SV_Number n1) (SV_Number n2) = number_or_overflow (checked_add n1 n2)"
| "add_sv (SV_Text t1) (SV_Text t2) = Inr (SV_Text (t1 @ t2))"
| "add_sv _ _ = Inl (type_mismatch ''number or text'')"

fun sub_sv :: "slot_value \<Rightarrow> slot_value \<Rightarrow> expr_error + slot_value" where
  "sub_sv (SV_Number n1) (SV_Number n2) = number_or_overflow (checked_sub n1 n2)"
| "sub_sv _ _ = Inl (type_mismatch ''number'')"

fun mul_sv :: "slot_value \<Rightarrow> slot_value \<Rightarrow> expr_error + slot_value" where
  "mul_sv (SV_Number n1) (SV_Number n2) = number_or_overflow (checked_mul n1 n2)"
| "mul_sv _ _ = Inl (type_mismatch ''number'')"

fun div_sv :: "slot_value \<Rightarrow> slot_value \<Rightarrow> expr_error + slot_value" where
  "div_sv (SV_Number n1) (SV_Number n2) =
     (if n2 = 0 then Inl DivisionByZero else number_or_overflow (checked_div n1 n2))"
| "div_sv _ _ = Inl (type_mismatch ''number'')"

fun mod_sv :: "slot_value \<Rightarrow> slot_value \<Rightarrow> expr_error + slot_value" where
  "mod_sv (SV_Number n1) (SV_Number n2) =
     (if n2 = 0 then Inl DivisionByZero else number_or_overflow (checked_rem n1 n2))"
| "mod_sv _ _ = Inl (type_mismatch ''number'')"

fun contains_sv :: "slot_value \<Rightarrow> slot_value \<Rightarrow> expr_error + bool" where
  "contains_sv (SV_Text text) needle =
     (case needle of SV_Text nt \<Rightarrow> Inr (str_contains text nt)
      | _ \<Rightarrow> Inl (type_mismatch ''text''))"
| "contains_sv (SV_List list) needle = Inr (needle \<in> set list)"
| "contains_sv _ _ = Inl (type_mismatch ''text or list'')"

fun starts_with_sv :: "slot_value \<Rightarrow> slot_value \<Rightarrow> expr_error + bool" where
  "starts_with_sv (SV_Text t) (SV_Text p) = Inr (prefix p t)"
| "starts_with_sv _ _ = Inl (type_mismatch ''text'')"

fun ends_with_sv :: "slot_value \<Rightarrow> slot_value \<Rightarrow> expr_error + bool" where
  "ends_with_sv (SV_Text t) (SV_Text s) = Inr (suffix s t)"
| "ends_with_sv _ _ = Inl (type_mismatch ''text'')"

text \<open>\<open>as i64\<close> on a \<open>usize\<close>.\<close>

fun length_sv :: "slot_value \<Rightarrow> expr_error + i64" where
  "length_sv SV_Null = Inr 0"
| "length_sv (SV_Bool _) = Inr 1"
| "length_sv (SV_Number _) = Inr 1"
| "length_sv (SV_Text t) = Inr (of_nat (length t))"
| "length_sv (SV_List list) = Inr (of_nat (length list))"
| "length_sv (SV_Object obj) = Inr (of_nat (length obj))"

section \<open>One operation\<close>

definition resolve_accessor :: "accessor_idx \<Rightarrow> run_frame \<Rightarrow> expr_error + slot_value" where
  "resolve_accessor idx frame =
     (if unat idx \<ge> length (slots frame) then Inl (AccessorOutOfBounds idx)
      else Inr (slots frame ! unat idx))"

definition accessor_exists :: "accessor_idx \<Rightarrow> run_frame \<Rightarrow> expr_error + bool" where
  "accessor_exists idx frame =
     (if unat idx \<ge> length (slots frame) then Inr False
      else Inr (slots frame ! unat idx \<noteq> SV_Null))"

text \<open>\<open>pop2\<close> gives the top first, then the entry below it.\<close>

definition bool_op ::
    "(slot_value \<Rightarrow> slot_value \<Rightarrow> expr_error + bool) \<Rightarrow> eval_stack \<Rightarrow> expr_error + eval_stack" where
  "bool_op f st = res_bind (pop2 st) (\<lambda>((a, b), st').
     res_bind (f a b) (\<lambda>r. push (SV_Bool r) st'))"

definition value_op ::
    "(slot_value \<Rightarrow> slot_value \<Rightarrow> expr_error + slot_value) \<Rightarrow> eval_stack \<Rightarrow> expr_error + eval_stack"
  where
  "value_op f st = res_bind (pop2 st) (\<lambda>((a, b), st').
     res_bind (f a b) (\<lambda>r. push r st'))"

definition jump_to :: "nat \<Rightarrow> u16 \<Rightarrow> compiled_expr \<Rightarrow> expr_error + nat" where
  "jump_to pc off expr =
     (let new_pc = int pc + int (unat off)
      in if new_pc < 0 \<or> nat new_pc \<ge> length (ops expr) then Inl (InvalidJump off)
         else Inr (nat new_pc))"

text \<open>The program counter and the stack after one operation.\<close>

fun execute_op ::
    "slot_value list \<Rightarrow> op \<Rightarrow> run_frame \<Rightarrow> compiled_expr \<Rightarrow> nat \<Rightarrow> eval_stack
      \<Rightarrow> expr_error + nat \<times> eval_stack" where
  "execute_op kons (LoadSlot idx) frame expr pc st =
     (if unat idx \<ge> length (slots frame)
      then Inl (SlotOutOfBounds idx (of_nat (length (slots frame))))
      else res_bind (push (slots frame ! unat idx) st) (\<lambda>st'. Inr (pc, st')))"
| "execute_op kons (LoadConst idx) frame expr pc st =
     (if unat idx \<ge> length kons then Inl (ConstOutOfBounds idx)
      else res_bind (push (kons ! unat idx) st) (\<lambda>st'. Inr (pc, st')))"
| "execute_op kons (LoadAccessor idx) frame expr pc st =
     res_bind (resolve_accessor idx frame) (\<lambda>v.
       res_bind (push v st) (\<lambda>st'. Inr (pc, st')))"
| "execute_op kons Op_Eq frame expr pc st =
     res_bind (bool_op (\<lambda>b a. eq_sv a b) st) (\<lambda>st'. Inr (pc, st'))"
| "execute_op kons Op_Gt frame expr pc st =
     res_bind (bool_op (\<lambda>a b. gt_sv b a) st) (\<lambda>st'. Inr (pc, st'))"
| "execute_op kons Op_Lt frame expr pc st =
     res_bind (bool_op (\<lambda>a b. lt_sv b a) st) (\<lambda>st'. Inr (pc, st'))"
| "execute_op kons Op_Gte frame expr pc st =
     res_bind (bool_op (\<lambda>a b. gte_sv b a) st) (\<lambda>st'. Inr (pc, st'))"
| "execute_op kons Op_Lte frame expr pc st =
     res_bind (bool_op (\<lambda>a b. lte_sv b a) st) (\<lambda>st'. Inr (pc, st'))"
| "execute_op kons Op_And frame expr pc st =
     res_bind (bool_op and_sv st) (\<lambda>st'. Inr (pc, st'))"
| "execute_op kons Op_Or frame expr pc st =
     res_bind (bool_op or_sv st) (\<lambda>st'. Inr (pc, st'))"
| "execute_op kons Op_Not frame expr pc st =
     res_bind (pop st) (\<lambda>(a, st1). res_bind (not_sv a) (\<lambda>r.
       res_bind (push (SV_Bool r) st1) (\<lambda>st'. Inr (pc, st'))))"
| "execute_op kons Op_Add frame expr pc st =
     res_bind (value_op (\<lambda>a b. add_sv b a) st) (\<lambda>st'. Inr (pc, st'))"
| "execute_op kons Op_Sub frame expr pc st =
     res_bind (value_op (\<lambda>a b. sub_sv b a) st) (\<lambda>st'. Inr (pc, st'))"
| "execute_op kons Op_Mul frame expr pc st =
     res_bind (value_op (\<lambda>a b. mul_sv b a) st) (\<lambda>st'. Inr (pc, st'))"
| "execute_op kons Op_Div frame expr pc st =
     res_bind (value_op (\<lambda>a b. div_sv b a) st) (\<lambda>st'. Inr (pc, st'))"
| "execute_op kons Op_Mod frame expr pc st =
     res_bind (value_op (\<lambda>a b. mod_sv b a) st) (\<lambda>st'. Inr (pc, st'))"
| "execute_op kons Op_Contains frame expr pc st =
     res_bind (bool_op (\<lambda>needle haystack. contains_sv haystack needle) st) (\<lambda>st'. Inr (pc, st'))"
| "execute_op kons Op_StartsWith frame expr pc st =
     res_bind (bool_op (\<lambda>suf text. starts_with_sv text suf) st) (\<lambda>st'. Inr (pc, st'))"
| "execute_op kons Op_EndsWith frame expr pc st =
     res_bind (bool_op (\<lambda>pre text. ends_with_sv text pre) st) (\<lambda>st'. Inr (pc, st'))"
| "execute_op kons Op_Length frame expr pc st =
     res_bind (pop st) (\<lambda>(a, st1). res_bind (length_sv a) (\<lambda>n.
       res_bind (push (SV_Number n) st1) (\<lambda>st'. Inr (pc, st'))))"
| "execute_op kons (Op_Exists idx) frame expr pc st =
     res_bind (accessor_exists idx frame) (\<lambda>b.
       res_bind (push (SV_Bool b) st) (\<lambda>st'. Inr (pc, st')))"
| "execute_op kons (JumpTrue off) frame expr pc st =
     res_bind (pop st) (\<lambda>(cond, st1). res_bind (is_truthy cond) (\<lambda>c.
       if c then res_bind (jump_to pc off expr) (\<lambda>pc'. Inr (pc', st1)) else Inr (pc, st1)))"
| "execute_op kons (JumpFalse off) frame expr pc st =
     res_bind (pop st) (\<lambda>(cond, st1). res_bind (is_truthy cond) (\<lambda>c.
       if \<not> c then res_bind (jump_to pc off expr) (\<lambda>pc'. Inr (pc', st1)) else Inr (pc, st1)))"
| "execute_op kons (Jump off) frame expr pc st =
     res_bind (jump_to pc off expr) (\<lambda>pc'. Inr (pc', st))"

lemma jump_to_nat:
  "jump_to pc off expr =
     (if length (ops expr) \<le> pc + unat off then Inl (InvalidJump off) else Inr (pc + unat off))"
  by (simp add: jump_to_def Let_def nat_int_add del: of_nat_unat)

lemma jump_to_forward: "jump_to pc off expr = Inr pc' \<Longrightarrow> pc \<le> pc'"
  by (auto simp: jump_to_nat split: if_splits)

lemma execute_op_forward:
  "execute_op kons op frame expr pc st = Inr (pc', st') \<Longrightarrow> pc \<le> pc'"
  by (cases op) (auto simp: jump_to_forward split: if_splits prod.splits)

section \<open>The fetch loop\<close>

text \<open>
  \<open>execute_op\<close> sets the counter on a taken jump and returns; the loop then increments it
  all the same. Since no operation moves the counter backwards, the loop ends.
\<close>

function eval_loop ::
    "slot_value list \<Rightarrow> compiled_expr \<Rightarrow> run_frame \<Rightarrow> nat \<Rightarrow> eval_stack \<Rightarrow> expr_error + eval_stack"
  where
  "eval_loop kons expr frame pc st =
     (if pc < length (ops expr)
      then case execute_op kons (ops expr ! pc) frame expr pc st of
             Inl e \<Rightarrow> Inl e
           | Inr (pc', st') \<Rightarrow> eval_loop kons expr frame (pc' + 1) st'
      else Inr st)"
  by pat_completeness auto
termination
  by (relation "measure (\<lambda>(kons, expr, frame, pc, st). length (ops expr) - pc)")
    (auto dest!: execute_op_forward)

declare eval_loop.simps [simp del]

definition eval_expr :: "slot_value list \<Rightarrow> compiled_expr \<Rightarrow> run_frame \<Rightarrow> expr_error + slot_value"
  where
  "eval_expr kons expr frame =
     res_bind (eval_loop kons expr frame 0 new_stack)
       (\<lambda>st. res_bind (pop st) (\<lambda>(v, _). Inr v))"

section \<open>The loop as a transition system\<close>

inductive vm_step ::
    "slot_value list \<Rightarrow> compiled_expr \<Rightarrow> run_frame \<Rightarrow> nat \<times> eval_stack \<Rightarrow> nat \<times> eval_stack \<Rightarrow> bool"
  for kons expr frame where
  fetch: "pc < length (ops expr) \<Longrightarrow>
     execute_op kons (ops expr ! pc) frame expr pc st = Inr (pc', st') \<Longrightarrow>
     vm_step kons expr frame (pc, st) (Suc pc', st')"

inductive_cases vm_stepE: "vm_step kons expr frame c c'"

lemma execute_op_in_range:
  assumes "pc < length (ops expr)" and "execute_op kons op frame expr pc st = Inr (pc', st')"
  shows "pc' < length (ops expr)"
  using assms by (cases op) (auto simp: jump_to_nat split: if_splits prod.splits)

lemma vm_step_progress:
  assumes "vm_step kons expr frame (pc, st) (pc', st')"
  shows "pc < pc'" and "pc' \<le> length (ops expr)"
  using assms
  by (auto elim!: vm_stepE dest: execute_op_forward execute_op_in_range)

lemma vm_steps_bounded:
  "(vm_step kons expr frame ^^ n) (pc, st) (pc', st') \<Longrightarrow> pc \<le> length (ops expr) \<Longrightarrow>
     pc + n \<le> pc' \<and> pc' \<le> length (ops expr)"
proof (induction n arbitrary: pc' st')
  case 0
  then show ?case by simp
next
  case (Suc n)
  then obtain pc1 st1 where
    "(vm_step kons expr frame ^^ n) (pc, st) (pc1, st1)"
    and step: "vm_step kons expr frame (pc1, st1) (pc', st')"
    by (metis relpowp_Suc_E surj_pair)
  with Suc vm_step_progress [OF step] show ?case by fastforce
qed

lemma eval_loop_steps:
  "eval_loop kons expr frame pc st = Inr st' \<longleftrightarrow>
     (\<exists>n pc'. (vm_step kons expr frame ^^ n) (pc, st) (pc', st') \<and> length (ops expr) \<le> pc')"
  (is "_ \<longleftrightarrow> (\<exists>n pc'. ?run n pc st pc')")
proof (induction kons expr frame pc st rule: eval_loop.induct)
  case (1 kons expr frame pc st)
  show ?case
  proof (cases "pc < length (ops expr)")
    case False
    then have "\<not> vm_step kons expr frame (pc, st) c" for c by (auto elim: vm_stepE)
    with False show ?thesis
      by (auto simp: eval_loop.simps [of kons expr frame pc st] relpowp_stuck)
  next
    case pc: True
    show ?thesis
    proof (cases "execute_op kons (ops expr ! pc) frame expr pc st")
      case (Inl e)
      with pc have "\<not> vm_step kons expr frame (pc, st) c" for c by (auto elim: vm_stepE)
      with pc Inl show ?thesis
        by (auto simp: eval_loop.simps [of kons expr frame pc st] relpowp_stuck)
    next
      case (Inr r)
      obtain pc1 st1 where r: "r = (pc1, st1)" by (cases r)
      have "vm_step kons expr frame (pc, st) c \<longleftrightarrow> c = (pc1 + 1, st1)" for c
        using pc Inr r by (auto intro: vm_step.intros elim: vm_stepE)
      then have run: "(vm_step kons expr frame ^^ Suc n) (pc, st) c \<longleftrightarrow>
          (vm_step kons expr frame ^^ n) (pc1 + 1, st1) c" for n c
        by (metis relpowp_Suc_D2 relpowp_Suc_I2)
      have "eval_loop kons expr frame pc st = eval_loop kons expr frame (pc1 + 1) st1"
        using pc Inr r by (simp add: eval_loop.simps [of kons expr frame pc st])
      also have "\<dots> = Inr st' \<longleftrightarrow> (\<exists>n pc'. (vm_step kons expr frame ^^ n) (pc1 + 1, st1) (pc', st')
          \<and> length (ops expr) \<le> pc')"
        using "1.IH" pc Inr r by simp
      also have "\<dots> \<longleftrightarrow> (\<exists>n pc'. (vm_step kons expr frame ^^ Suc n) (pc, st) (pc', st')
          \<and> length (ops expr) \<le> pc')"
        using run by auto
      also have "\<dots> \<longleftrightarrow> (\<exists>n pc'. (vm_step kons expr frame ^^ n) (pc, st) (pc', st')
          \<and> length (ops expr) \<le> pc')"
        using pc by (metis (no_types, lifting) not0_implies_Suc not_le prod.inject relpowp_0_E)
      finally show ?thesis .
    qed
  qed
qed

section \<open>The stack stays within its array\<close>

lemma push_wf: "push v st = Inr st' \<Longrightarrow> stack_wf st \<Longrightarrow> stack_wf st'"
  by (rule vm_stack.push_inv)

lemma pop_wf: "pop st = Inr (v, st') \<Longrightarrow> stack_wf st \<Longrightarrow> stack_wf st'"
  by (rule vm_stack.pop_inv)

lemma bool_op_wf: "bool_op f st = Inr st' \<Longrightarrow> stack_wf st \<Longrightarrow> stack_wf st'"
  by (clarsimp simp: bool_op_def pop2_def) (blast intro: push_wf pop_wf)

lemma value_op_wf: "value_op f st = Inr st' \<Longrightarrow> stack_wf st \<Longrightarrow> stack_wf st'"
  by (clarsimp simp: value_op_def pop2_def) (blast intro: push_wf pop_wf)

lemma execute_op_stack_wf:
  assumes "execute_op kons op frame expr pc st = Inr (pc', st')" and "stack_wf st"
  shows "stack_wf st'"
  using assms
  by (cases op; clarsimp split: if_splits; blast intro: bool_op_wf value_op_wf push_wf pop_wf)

section \<open>Straight-line code and its meaning\<close>

text \<open>
  The reference semantics of an expression tree, operands left to right and each operator
  in its natural order, and the code of the tree in postfix. The comments of the source fix
  this reading: \<open>slot(0) - slot(1)\<close> loads slot 0, then slot 1, then subtracts.
\<close>

definition bool_sv :: "expr_error + bool \<Rightarrow> expr_error + slot_value" where
  "bool_sv r = res_bind r (\<lambda>b. Inr (SV_Bool b))"

lemma bool_sv_simps [simp]:
  "bool_sv (Inl e) = Inl e" "bool_sv (Inr b) = Inr (SV_Bool b)"
  by (simp_all add: bool_sv_def)

fun load_sem :: "slot_value list \<Rightarrow> run_frame \<Rightarrow> op \<Rightarrow> (expr_error + slot_value) option" where
  "load_sem kons frame (LoadSlot i) = Some
     (if unat i \<ge> length (slots frame)
      then Inl (SlotOutOfBounds i (of_nat (length (slots frame)))) else Inr (slots frame ! unat i))"
| "load_sem kons frame (LoadConst i) = Some
     (if unat i \<ge> length kons then Inl (ConstOutOfBounds i) else Inr (kons ! unat i))"
| "load_sem kons frame (LoadAccessor i) = Some (resolve_accessor i frame)"
| "load_sem kons frame (Op_Exists i) = Some (bool_sv (accessor_exists i frame))"
| "load_sem kons frame _ = None"

fun unary_sem :: "op \<Rightarrow> (slot_value \<Rightarrow> expr_error + slot_value) option" where
  "unary_sem Op_Not = Some (\<lambda>x. bool_sv (not_sv x))"
| "unary_sem Op_Length = Some (\<lambda>x. res_bind (length_sv x) (\<lambda>n. Inr (SV_Number n)))"
| "unary_sem _ = None"

fun binary_sem :: "op \<Rightarrow> (slot_value \<Rightarrow> slot_value \<Rightarrow> expr_error + slot_value) option" where
  "binary_sem Op_Eq = Some (\<lambda>x y. Inr (SV_Bool (x = y)))"
| "binary_sem Op_Gt = Some (\<lambda>x y. bool_sv (gt_sv x y))"
| "binary_sem Op_Lt = Some (\<lambda>x y. bool_sv (lt_sv x y))"
| "binary_sem Op_Gte = Some (\<lambda>x y. bool_sv (gte_sv x y))"
| "binary_sem Op_Lte = Some (\<lambda>x y. bool_sv (lte_sv x y))"
| "binary_sem Op_And = Some (\<lambda>x y. bool_sv (and_sv x y))"
| "binary_sem Op_Or = Some (\<lambda>x y. bool_sv (or_sv x y))"
| "binary_sem Op_Add = Some add_sv"
| "binary_sem Op_Sub = Some sub_sv"
| "binary_sem Op_Mul = Some mul_sv"
| "binary_sem Op_Div = Some div_sv"
| "binary_sem Op_Mod = Some mod_sv"
| "binary_sem Op_Contains = Some (\<lambda>x y. bool_sv (contains_sv x y))"
| "binary_sem Op_StartsWith = Some (\<lambda>x y. bool_sv (starts_with_sv x y))"
| "binary_sem Op_EndsWith = Some (\<lambda>x y. bool_sv (ends_with_sv x y))"
| "binary_sem _ = None"

fun is_load :: "op \<Rightarrow> bool" where
  "is_load (LoadSlot i) = True"
| "is_load (LoadConst i) = True"
| "is_load (LoadAccessor i) = True"
| "is_load (Op_Exists i) = True"
| "is_load _ = False"

datatype expr_tree = Leaf op | Unary op expr_tree | Binary op expr_tree expr_tree

fun tree_wf :: "expr_tree \<Rightarrow> bool" where
  "tree_wf (Leaf op) = is_load op"
| "tree_wf (Unary op t) = (unary_sem op \<noteq> None \<and> tree_wf t)"
| "tree_wf (Binary op l r) = (binary_sem op \<noteq> None \<and> tree_wf l \<and> tree_wf r)"

fun tree_code :: "expr_tree \<Rightarrow> op list" where
  "tree_code (Leaf op) = [op]"
| "tree_code (Unary op t) = tree_code t @ [op]"
| "tree_code (Binary op l r) = tree_code l @ tree_code r @ [op]"

fun tree_height :: "expr_tree \<Rightarrow> nat" where
  "tree_height (Leaf op) = 1"
| "tree_height (Unary op t) = tree_height t"
| "tree_height (Binary op l r) = max (tree_height l) (tree_height r + 1)"

fun tree_sem :: "slot_value list \<Rightarrow> run_frame \<Rightarrow> expr_tree \<Rightarrow> expr_error + slot_value" where
  "tree_sem kons frame (Leaf op) = the (load_sem kons frame op)"
| "tree_sem kons frame (Unary op t) = res_bind (tree_sem kons frame t) (the (unary_sem op))"
| "tree_sem kons frame (Binary op l r) =
     res_bind (tree_sem kons frame l) (\<lambda>x.
       res_bind (tree_sem kons frame r) (\<lambda>y. the (binary_sem op) x y))"

lemma and_sv_commute: "and_sv a b = and_sv b a"
  by (cases a; cases b) (simp_all add: and_sv_def)

lemma or_sv_commute: "or_sv a b = or_sv b a"
  by (cases a; cases b) (simp_all add: or_sv_def)

lemma execute_load:
  "load_sem kons frame op = Some r \<Longrightarrow>
     execute_op kons op frame expr pc st =
       res_bind r (\<lambda>v. res_bind (push v st) (\<lambda>st'. Inr (pc, st')))"
  by (cases op) (auto simp: bool_sv_def accessor_exists_def)

lemma execute_unary:
  "unary_sem op = Some f \<Longrightarrow>
     execute_op kons op frame expr pc st =
       res_bind (res_bind (pop st) (\<lambda>(a, s1). res_bind (f a) (\<lambda>r. push r s1))) (\<lambda>st'. Inr (pc, st'))"
  by (cases op) (auto simp: res_bind_def bool_sv_def split: sum.splits prod.splits)

lemma execute_binary:
  "binary_sem op = Some f \<Longrightarrow>
     execute_op kons op frame expr pc st =
       res_bind (res_bind (pop st) (\<lambda>(a, s1). res_bind (pop s1) (\<lambda>(b, s2).
         res_bind (f b a) (\<lambda>r. push r s2)))) (\<lambda>st'. Inr (pc, st'))"
  by (cases op)
    (auto simp: res_bind_def bool_sv_def bool_op_def value_op_def pop2_def eq_sv_def and_sv_commute
      or_sv_commute split: sum.splits prod.splits)

text \<open>Code in the middle of a program: the state after it, or the error it stops with.\<close>

lemma eval_loop_tree:
  assumes "tree_wf t" and "ops expr = pre @ tree_code t @ post" and "stack_wf st"
    and "length (stack_list st) + tree_height t \<le> EXPR_STACK_MAX"
  shows "(case tree_sem kons frame t of
      Inl e \<Rightarrow> eval_loop kons expr frame (length pre) st = Inl e
    | Inr v \<Rightarrow> \<exists>st'. stack_wf st' \<and> stack_list st' = v # stack_list st \<and>
        eval_loop kons expr frame (length pre) st =
          eval_loop kons expr frame (length pre + length (tree_code t)) st')"
  using assms
proof (induction t arbitrary: pre post st)
  case (Leaf op)
  then obtain r where r: "load_sem kons frame op = Some r"
    by (cases op) auto
  have at: "ops expr ! length pre = op" "length pre < length (ops expr)"
    using Leaf.prems(2) by simp_all
  show ?case
  proof (cases r)
    case (Inl e)
    with r at show ?thesis
      by (simp add: eval_loop.simps [of kons expr frame "length pre" st] execute_load)
  next
    case (Inr v)
    obtain st' where "push v st = Inr st'" "stack_wf st'" "stack_list st' = v # stack_list st"
      using vm_stack.push_law [of st v] Leaf.prems(3,4) by auto
    with Inr r at show ?thesis
      by (auto simp: eval_loop.simps [of kons expr frame "length pre" st] execute_load)
  qed
next
  case (Unary op t)
  then obtain f where f: "unary_sem op = Some f" by auto
  note IH = Unary.IH [of pre "op # post" st]
  let ?pc = "length pre + length (tree_code t)"
  have at: "ops expr ! ?pc = op" "?pc < length (ops expr)"
    using Unary.prems(2) by (simp_all add: nth_append)
  show ?case
  proof (cases "tree_sem kons frame t")
    case (Inl e)
    with IH Unary.prems show ?thesis by simp
  next
    case (Inr x)
    with IH Unary.prems obtain s1 where s1: "stack_wf s1" "stack_list s1 = x # stack_list st"
      "eval_loop kons expr frame (length pre) st = eval_loop kons expr frame ?pc s1"
      by auto
    show ?thesis
    proof (cases "f x")
      case e: (Inl e)
      obtain s2 where "pop s1 = Inr (x, s2)"
        using vm_stack.pop_law [OF s1(1,2)] by blast
      with e Inr f at s1(3) show ?thesis
        by (simp add: eval_loop.simps [of kons expr frame ?pc s1] execute_unary)
    next
      case v: (Inr v)
      from vm_stack.unary_step [where f = f, OF s1(1,2) v] Inr v f at s1(3) show ?thesis
        by (auto simp: eval_loop.simps [of kons expr frame ?pc s1] execute_unary)
    qed
  qed
next
  case (Binary op l r)
  then obtain f where f: "binary_sem op = Some f" by auto
  let ?pcl = "length pre + length (tree_code l)"
  let ?pc = "?pcl + length (tree_code r)"
  have at: "ops expr ! ?pc = op" "?pc < length (ops expr)"
    using Binary.prems(2) by (simp_all add: nth_append)
  have h: "length (stack_list st) + tree_height l \<le> EXPR_STACK_MAX"
      "Suc (length (stack_list st)) + tree_height r \<le> EXPR_STACK_MAX"
    using Binary.prems(4) by auto
  note IHl = Binary.IH(1) [of pre "tree_code r @ op # post" st]
  note IHr = Binary.IH(2) [of "pre @ tree_code l" "op # post"]
  show ?case
  proof (cases "tree_sem kons frame l")
    case (Inl e)
    with IHl h Binary.prems show ?thesis by simp
  next
    case x: (Inr x)
    with IHl h Binary.prems obtain s1 where s1: "stack_wf s1" "stack_list s1 = x # stack_list st"
      "eval_loop kons expr frame (length pre) st = eval_loop kons expr frame ?pcl s1"
      by auto
    show ?thesis
    proof (cases "tree_sem kons frame r")
      case (Inl e)
      with IHr [of s1] h Binary.prems s1 x show ?thesis by simp
    next
      case y: (Inr y)
      with IHr [of s1] h Binary.prems s1 obtain s2 where s2: "stack_wf s2"
        "stack_list s2 = y # x # stack_list st"
        "eval_loop kons expr frame ?pcl s1 = eval_loop kons expr frame ?pc s2"
        by (auto simp: add.assoc)
      show ?thesis
      proof (cases "f x y")
        case e: (Inl e)
        from vm_stack.binary_error [where f = "\<lambda>a b. f b a", OF s2(1,2) e] x y e f at s1(3) s2(3)
        show ?thesis
          by (simp add: eval_loop.simps [of kons expr frame ?pc s2] execute_binary)
      next
        case v: (Inr v)
        obtain s3 where s3: "res_bind (pop s2) (\<lambda>(a, s1). res_bind (pop s1) (\<lambda>(b, s2).
            res_bind (f b a) (\<lambda>r. push r s2))) = Inr s3" "stack_wf s3"
            "stack_list s3 = v # stack_list st"
          using vm_stack.binary_step [where f = "\<lambda>a b. f b a", OF s2(1,2) v]
          by (elim exE conjE) (rule that)
        then have "eval_loop kons expr frame ?pc s2 = eval_loop kons expr frame (Suc ?pc) s3"
          using at by (simp add: eval_loop.simps [of kons expr frame ?pc s2] execute_binary [OF f])
        with x y v f s1(3) s2(3) s3(2,3) show ?thesis by (auto simp: add.assoc)
      qed
    qed
  qed
qed

lemma eval_expr_tree:
  assumes "tree_wf t" and "tree_height t \<le> EXPR_STACK_MAX" and "ops expr = tree_code t"
  shows "eval_expr kons expr frame = tree_sem kons frame t"
proof -
  note run = eval_loop_tree [of t expr "[]" "[]" new_stack kons frame]
  have stop: "eval_loop kons expr frame (length (tree_code t)) st = Inr st" for st
    using assms(3) by (simp add: eval_loop.simps)
  show ?thesis
  proof (cases "tree_sem kons frame t")
    case (Inl e)
    with run assms show ?thesis by (simp add: eval_expr_def)
  next
    case (Inr v)
    with run assms stop obtain st where st: "stack_wf st" "stack_list st = [v]"
      "eval_loop kons expr frame 0 new_stack = Inr st"
      by auto
    obtain st' where "pop st = Inr (v, st')"
      using vm_stack.pop_law [OF st(1,2)] by blast
    with st(3) Inr show ?thesis by (simp add: eval_expr_def)
  qed
qed

text \<open>A taken jump: the counter is set, and the loop adds one to it.\<close>

lemma eval_loop_jump:
  assumes "pc < length (ops expr)" and "ops expr ! pc = Jump off"
    and "pc + unat off < length (ops expr)"
  shows "eval_loop kons expr frame pc st = eval_loop kons expr frame (pc + unat off + 1) st"
  using assms by (simp add: eval_loop.simps [of kons expr frame pc st] jump_to_nat)

text \<open>Arithmetic on two numbers is exact or an error.\<close>

fun int_sem :: "op \<Rightarrow> (int \<Rightarrow> int \<Rightarrow> int option) option" where
  "int_sem Op_Add = Some (\<lambda>x y. Some (x + y))"
| "int_sem Op_Sub = Some (\<lambda>x y. Some (x - y))"
| "int_sem Op_Mul = Some (\<lambda>x y. Some (x * y))"
| "int_sem Op_Div = Some (\<lambda>x y. if y = 0 then None else Some (x sdiv y))"
| "int_sem Op_Mod = Some (\<lambda>x y. if y = 0 then None else Some (x smod y))"
| "int_sem _ = None"

definition int_fits :: "op \<Rightarrow> int \<Rightarrow> int \<Rightarrow> int \<Rightarrow> bool" where
  "int_fits op x y k \<longleftrightarrow> in_i64 k \<and> (op = Op_Mod \<longrightarrow> in_i64 (x sdiv y))"

lemma sdiv_out_of_range:
  assumes "in_i64 x" and "in_i64 y" and "y \<noteq> 0"
  shows "in_i64 (x sdiv y) \<longleftrightarrow> \<not> (x = i64_min \<and> y = -1)"
proof (cases "x = i64_min \<and> y = -1")
  case True
  then show ?thesis
    by (simp add: in_i64_def i64_min_def i64_max_def signed_divide_int_def)
qed (use assms sdiv_in_i64 in auto)

lemma binary_int_sem:
  assumes "int_sem op = Some f" and "binary_sem op = Some g"
  shows "g (SV_Number a) (SV_Number b) =
    (case f (sint a) (sint b) of
       None \<Rightarrow> Inl DivisionByZero
     | Some k \<Rightarrow> if int_fits op (sint a) (sint b) k then Inr (SV_Number (word_of_int k))
                 else Inl number_overflow)"
  using assms sdiv_out_of_range [of "sint a" "sint b"]
  by (cases op)
    (auto simp: number_or_overflow_def int_fits_def i64_checked_def checked_add_def checked_sub_def
      checked_mul_def checked_div_def checked_rem_def smod_in_i64 ok_or_def)

text \<open>An arithmetic operation on two numbers gives the exact result of the integers, or \<open>DivisionByZero\<close>, or the
  overflow error when the result does not fit into an \<open>i64\<close>; it never wraps around.\<close>

theorem vm_arith_exact:
  assumes "stack_wf st" and "stack_list st = SV_Number b # SV_Number a # vs"
    and "int_sem op = Some f"
  shows "(case f (sint a) (sint b) of
      None \<Rightarrow> execute_op kons op frame expr pc st = Inl DivisionByZero
    | Some k \<Rightarrow>
        if int_fits op (sint a) (sint b) k
        then \<exists>st'. execute_op kons op frame expr pc st = Inr (pc, st') \<and> stack_wf st' \<and>
               stack_list st' = SV_Number (word_of_int k) # vs
        else execute_op kons op frame expr pc st = Inl number_overflow)"
proof -
  obtain g where g: "binary_sem op = Some g" using assms(3) by (cases op) auto
  note sem = binary_int_sem [OF assms(3) g, of a b]
  show ?thesis
  proof (cases "g (SV_Number a) (SV_Number b)")
    case (Inl e)
    from vm_stack.binary_error [where f = "\<lambda>a b. g b a", OF assms(1,2) Inl] sem Inl
    show ?thesis by (auto simp: execute_binary [OF g] split: option.splits if_splits)
  next
    case (Inr v)
    from vm_stack.binary_step [where f = "\<lambda>a b. g b a", OF assms(1,2) Inr] sem Inr
    show ?thesis by (auto simp: execute_binary [OF g] split: option.splits if_splits)
  qed
qed

definition sub_expr :: compiled_expr where
  "sub_expr = \<lparr>ops = [LoadSlot 0, LoadSlot 1, Op_Sub], max_stack = 2\<rparr>"

definition two_slots :: run_frame where
  "two_slots = \<lparr>frame_id = [], current = 0, step_states = [], slots = [SV_Number 9, SV_Number 4],
     taints = [Clean, Clean]\<rparr>"

definition two_numbers :: "i64 \<Rightarrow> i64 \<Rightarrow> eval_stack" where
  "two_numbers a b = new_stack\<lparr>entries := (entries new_stack)[0 := Some (SV_Number a), 1 := Some (SV_Number b)],
     depth := 2\<rparr>"

lemma two_numbers [simp]:
  "stack_wf (two_numbers a b)" "stack_list (two_numbers a b) = [SV_Number b, SV_Number a]"
  by (auto simp: two_numbers_def stack_wf_def stack_list_def new_stack_def EXPR_STACK_MAX_def
     less_Suc_eq numeral_eq_Suc)

lemma vm_arith_exact_witness:
  "execute_op [] Op_Sub two_slots sub_expr 0 (two_numbers (word_of_int i64_min) 1) = Inl number_overflow \<and>
   execute_op [] Op_Div two_slots sub_expr 0 (two_numbers 7 0) = Inl DivisionByZero"
  using vm_arith_exact [of "two_numbers (word_of_int i64_min) 1" 1 "word_of_int i64_min" "[]" Op_Sub "\<lambda>x y. Some (x - y)" "[]" two_slots sub_expr 0]
   vm_arith_exact [of "two_numbers 7 0" 0 7 "[]" Op_Div "\<lambda>x y. if y = 0 then None else Some (x sdiv y)" "[]" two_slots sub_expr 0]
  by (simp add: int_fits_def sint_word_of_int_i64 in_i64_def i64_min_def i64_max_def)

text \<open>In every state of every run the stack has at most 64 values and its array agrees with its depth.\<close>

theorem vm_stack_bounded:
  assumes "(vm_step kons expr frame)\<^sup>*\<^sup>* (0, new_stack) (pc, st)"
  shows "stack_wf st \<and> length (stack_list st) \<le> EXPR_STACK_MAX"
proof -
  have "stack_wf (snd c)" if "(vm_step kons expr frame)\<^sup>*\<^sup>* (0, new_stack) c" for c
    using that
    by (induction rule: rtranclp_induct) (auto elim!: vm_stepE dest: execute_op_stack_wf)
  from this [OF assms] show ?thesis using vm_stack.bounded_law by simp
qed

lemma vm_stack_bounded_witness:
  "\<exists>st. (vm_step [] sub_expr two_slots)\<^sup>*\<^sup>* (0, new_stack) (1, st) \<and> stack_wf st \<and>
     length (stack_list st) \<le> EXPR_STACK_MAX"
proof -
  obtain st where "push (SV_Number 9) new_stack = Inr st"
    using vm_stack.push_law [of new_stack "SV_Number 9"] by (auto simp: EXPR_STACK_MAX_def)
  then have "vm_step [] sub_expr two_slots (0, new_stack) (Suc 0, st)"
    by (intro vm_step.intros) (simp_all add: sub_expr_def two_slots_def)
  then have "(vm_step [] sub_expr two_slots)\<^sup>*\<^sup>* (0, new_stack) (1, st)" by simp
  with vm_stack_bounded [OF this] show ?thesis by blast
qed

text \<open>No run takes more steps than the code has operations, and \<open>eval\<close> succeeds with a stack exactly when
  a run of the steps leaves the code with that stack.\<close>

theorem vm_run_terminates:
  "(\<forall>n pc st. (vm_step kons expr frame ^^ n) (0, new_stack) (pc, st) \<longrightarrow> n \<le> length (ops expr)) \<and>
   (eval_loop kons expr frame 0 new_stack = Inr st' \<longleftrightarrow>
      (\<exists>n pc'. (vm_step kons expr frame ^^ n) (0, new_stack) (pc', st') \<and> length (ops expr) \<le> pc'))"
  using vm_steps_bounded [of _ kons expr frame 0 new_stack]
  by (auto simp: eval_loop_steps) (metis add_0 le_trans)

lemma vm_run_terminates_witness:
  "\<forall>pc st. \<not> (vm_step [] sub_expr two_slots ^^ 4) (0, new_stack) (pc, st)"
proof -
  have "length (ops sub_expr) = 3" by (simp add: sub_expr_def)
  with conjunct1 [OF vm_run_terminates [of "[]" sub_expr two_slots new_stack]] show ?thesis
    by fastforce
qed

text \<open>The code of an expression tree, compiled in postfix order, evaluates to the meaning of the tree, errors
  included and in the same order, as long as the tree needs no more than the 64 stack entries.\<close>

theorem vm_evaluates_trees:
  assumes "tree_wf t" and "tree_height t \<le> EXPR_STACK_MAX" and "ops expr = tree_code t"
  shows "eval_expr kons expr frame = tree_sem kons frame t"
  using assms by (rule eval_expr_tree)

lemma vm_evaluates_trees_witness:
  "eval_expr [] sub_expr two_slots = Inr (SV_Number 5)"
  using vm_evaluates_trees [of "Binary Op_Sub (Leaf (LoadSlot 0)) (Leaf (LoadSlot 1))" sub_expr
      "[]" two_slots]
  by (simp add: sub_expr_def two_slots_def EXPR_STACK_MAX_def number_or_overflow_def
      checked_sub_def i64_checked_def in_i64_def i64_min_def i64_max_def)

text \<open>A taken jump at \<open>pc\<close> with offset \<open>n\<close> goes on at \<open>pc + n + 1\<close>, one past the target that is checked
  against the end of the code; beyond the end it is an \<open>InvalidJump\<close> error.\<close>

theorem vm_jump_target:
  assumes "ops expr ! pc = Jump off" and "pc < length (ops expr)"
  shows "eval_loop kons expr frame pc st =
     (if pc + unat off < length (ops expr)
      then eval_loop kons expr frame (pc + unat off + 1) st
      else Inl (InvalidJump off))"
  using assms eval_loop_jump [of pc expr off kons frame st]
  by (auto simp: eval_loop.simps [of kons expr frame pc st] jump_to_nat)

lemma vm_jump_target_witness:
  "eval_loop [SV_Null] \<lparr>ops = [Jump 1, LoadConst 0, LoadConst 0], max_stack = 1\<rparr> two_slots 0 new_stack =
   eval_loop [SV_Null] \<lparr>ops = [Jump 1, LoadConst 0, LoadConst 0], max_stack = 1\<rparr> two_slots 2 new_stack"
  using vm_jump_target [of "\<lparr>ops = [Jump 1, LoadConst 0, LoadConst 0], max_stack = 1\<rparr>" 0 1 "[SV_Null]" two_slots new_stack]
  by (simp add: numeral_2_eq_2)
end
