(* ===== verification/Float64.thy ===== *)
theory Float64
  imports Twerk_Prelude
begin

text \<open>
  Rust's \<open>f64\<close>: an IEEE 754 double as its 64 bits. The value of a finite double is a whole
  multiple of \<open>2 ^ -1074\<close>; \<open>f64_scaled\<close> is that multiple, so comparisons are comparisons of
  integers and every arithmetic operation is the exact result, rounded once to nearest with ties
  to even (\<open>f64_round\<close>). Infinities fall out of the same reading, one step above the largest
  finite double. All NaNs are one: Rust leaves their payload open.
\<close>

type_synonym f64 = "64 word"

definition f64_inf_mag :: nat where "f64_inf_mag = 2047 * 2 ^ 52"

definition f64_sign :: "f64 \<Rightarrow> bool" where "f64_sign x \<longleftrightarrow> 2 ^ 63 \<le> unat x"
definition f64_mag :: "f64 \<Rightarrow> nat" where "f64_mag x = unat x mod 2 ^ 63"

definition f64_of_mag :: "bool \<Rightarrow> nat \<Rightarrow> f64" where
  "f64_of_mag neg m = (if neg then of_nat (2 ^ 63 + m) else of_nat m)"

definition f64_nan :: f64 where "f64_nan = of_nat (f64_inf_mag + 2 ^ 51)"

definition f64_is_nan :: "f64 \<Rightarrow> bool" where "f64_is_nan x \<longleftrightarrow> f64_mag x > f64_inf_mag"
definition f64_is_inf :: "f64 \<Rightarrow> bool" where "f64_is_inf x \<longleftrightarrow> f64_mag x = f64_inf_mag"
definition f64_is_finite :: "f64 \<Rightarrow> bool" where "f64_is_finite x \<longleftrightarrow> f64_mag x < f64_inf_mag"

definition f64_scaled_mag :: "nat \<Rightarrow> nat" where
  "f64_scaled_mag m =
     (if m < 2 ^ 52 then m else (2 ^ 52 + m mod 2 ^ 52) * 2 ^ (m div 2 ^ 52 - 1))"

definition f64_scaled :: "f64 \<Rightarrow> int" where
  "f64_scaled x =
     (if f64_sign x then - int (f64_scaled_mag (f64_mag x)) else int (f64_scaled_mag (f64_mag x)))"

section \<open>Comparison\<close>

definition f64_eq :: "f64 \<Rightarrow> f64 \<Rightarrow> bool" where
  "f64_eq x y \<longleftrightarrow> \<not> f64_is_nan x \<and> \<not> f64_is_nan y \<and> f64_scaled x = f64_scaled y"

definition f64_lt :: "f64 \<Rightarrow> f64 \<Rightarrow> bool" where
  "f64_lt x y \<longleftrightarrow> \<not> f64_is_nan x \<and> \<not> f64_is_nan y \<and> f64_scaled x < f64_scaled y"

definition f64_le :: "f64 \<Rightarrow> f64 \<Rightarrow> bool" where
  "f64_le x y \<longleftrightarrow> \<not> f64_is_nan x \<and> \<not> f64_is_nan y \<and> f64_scaled x \<le> f64_scaled y"

section \<open>Rounding\<close>

text \<open>\<open>n / d\<close> to the nearest whole number, ties to even.\<close>

definition round_even :: "nat \<Rightarrow> nat \<Rightarrow> nat" where
  "round_even n d =
     (let q = n div d; r = n mod d
      in if 2 * r < d \<or> (2 * r = d \<and> even q) then q else q + 1)"

fun bit_length :: "nat \<Rightarrow> nat" where
  "bit_length n = (if n = 0 then 0 else Suc (bit_length (n div 2)))"

declare bit_length.simps [simp del]

text \<open>The double nearest to \<open>n / d\<close> units; a carry out of the mantissa moves up the exponent.\<close>

definition f64_round_mag :: "nat \<Rightarrow> nat \<Rightarrow> nat" where
  "f64_round_mag n d =
     (let k = bit_length (n div d) - 53
      in min (k * 2 ^ 52 + round_even n (d * 2 ^ k)) f64_inf_mag)"

definition f64_round :: "bool \<Rightarrow> nat \<Rightarrow> nat \<Rightarrow> f64" where
  "f64_round neg n d = f64_of_mag neg (f64_round_mag n d)"

lemma bit_length_less: "n < 2 ^ k \<longleftrightarrow> bit_length n \<le> k"
proof (induction n arbitrary: k rule: bit_length.induct)
  case (1 n)
  show ?case
  proof (cases "n = 0")
    case False
    with 1 have "n div 2 < 2 ^ (k - 1) \<longleftrightarrow> bit_length (n div 2) \<le> k - 1" by simp
    moreover have "n < 2 ^ k \<longleftrightarrow> k \<noteq> 0 \<and> n div 2 < 2 ^ (k - 1)"
      using False by (cases k) auto
    ultimately show ?thesis using False by (subst bit_length.simps) auto
  qed (simp add: bit_length.simps)
qed

lemma bit_length_eq:
  assumes "2 ^ k \<le> n" and "n < 2 ^ Suc k"
  shows "bit_length n = Suc k"
  using assms bit_length_less [of n "Suc k"] bit_length_less [of n k] by simp

lemma round_even_exact: "d \<noteq> 0 \<Longrightarrow> round_even (m * d) d = m"
  by (simp add: round_even_def)

text \<open>A double is its own nearest double.\<close>

lemma f64_round_mag_scaled:
  assumes "m \<le> f64_inf_mag"
  shows "f64_round_mag (f64_scaled_mag m) 1 = m"
proof (cases "m < 2 ^ 52")
  case True
  then have "bit_length m \<le> 52" using bit_length_less [of m 52] by simp
  with True assms show ?thesis
    by (simp add: f64_round_mag_def f64_scaled_mag_def round_even_exact [of 1, simplified]
        min_def)
next
  case False
  let ?f = "m mod 2 ^ 52" and ?e = "m div 2 ^ 52"
  have e: "?e \<noteq> 0" using False by (simp add: div_eq_0_iff)
  then obtain k where k: "?e = Suc k" by (cases ?e) auto
  have sc: "f64_scaled_mag m = (2 ^ 52 + ?f) * 2 ^ k"
    using False k by (simp add: f64_scaled_mag_def)
  have f: "?f < 2 ^ 52" by simp
  have "bit_length ((2 ^ 52 + ?f) * 2 ^ k) = Suc (52 + k)"
  proof (rule bit_length_eq)
    show "2 ^ (52 + k) \<le> (2 ^ 52 + ?f) * 2 ^ k" by (simp add: power_add)
    have "(2 ^ 52 + ?f) * 2 ^ k < (2 * 2 ^ 52) * 2 ^ k"
      using f by (intro mult_strict_right_mono) auto
    then show "(2 ^ 52 + ?f) * 2 ^ k < 2 ^ Suc (52 + k)" by (simp add: power_add)
  qed
  moreover have "k * 2 ^ 52 + (2 ^ 52 + ?f) = m"
    using k div_mult_mod_eq [of m "2 ^ 52"] by simp
  ultimately show ?thesis
    using assms round_even_exact [of "2 ^ k" "2 ^ 52 + ?f"]
    by (simp add: f64_round_mag_def sc min_def)
qed

lemma f64_round_scaled:
  assumes "\<not> f64_is_nan x"
  shows "f64_round (f64_sign x) (f64_scaled_mag (f64_mag x)) 1 = x"
proof -
  have "f64_mag x \<le> f64_inf_mag" using assms by (simp add: f64_is_nan_def)
  then have "f64_round (f64_sign x) (f64_scaled_mag (f64_mag x)) 1
      = f64_of_mag (f64_sign x) (f64_mag x)"
    unfolding f64_round_def by (simp only: f64_round_mag_scaled)
  also have "\<dots> = x"
  proof (cases "2 ^ 63 \<le> unat x")
    case True
    moreover have "unat x < 2 ^ 64" by (rule order_less_le_trans [OF unsigned_less]) simp
    ultimately have "unat x mod 2 ^ 63 = unat x - 2 ^ 63"
      by (simp add: le_mod_geq)
    with True have "2 ^ 63 + unat x mod 2 ^ 63 = unat x" by linarith
    with True show ?thesis
      by (simp only: f64_of_mag_def f64_sign_def f64_mag_def if_True of_nat_unat ucast_id)
  next
    case False
    then show ?thesis by (simp add: f64_of_mag_def f64_sign_def f64_mag_def)
  qed
  finally show ?thesis .
qed

section \<open>Arithmetic\<close>

definition f64_inf :: "bool \<Rightarrow> f64" where "f64_inf neg = f64_of_mag neg f64_inf_mag"
definition f64_zero :: "bool \<Rightarrow> f64" where "f64_zero neg = f64_of_mag neg 0"

definition f64_round_int :: "bool \<Rightarrow> int \<Rightarrow> nat \<Rightarrow> f64" where
  "f64_round_int zero_neg n d =
     (if n = 0 then f64_zero zero_neg else f64_round (n < 0) (nat \<bar>n\<bar>) d)"

text \<open>\<open>i as f64\<close>\<close>

definition f64_of_int :: "int \<Rightarrow> f64" where
  "f64_of_int i = f64_round_int False (i * 2 ^ 1074) 1"

definition f64_neg :: "f64 \<Rightarrow> f64" where
  "f64_neg x = f64_of_mag (\<not> f64_sign x) (f64_mag x)"

definition f64_add :: "f64 \<Rightarrow> f64 \<Rightarrow> f64" where
  "f64_add x y =
     (if f64_is_nan x \<or> f64_is_nan y then f64_nan
      else if f64_is_inf x then
        (if f64_is_inf y \<and> f64_sign x \<noteq> f64_sign y then f64_nan else x)
      else if f64_is_inf y then y
      else f64_round_int (f64_sign x \<and> f64_sign y) (f64_scaled x + f64_scaled y) 1)"

definition f64_sub :: "f64 \<Rightarrow> f64 \<Rightarrow> f64" where
  "f64_sub x y = (if f64_is_nan y then f64_nan else f64_add x (f64_neg y))"

definition f64_mul :: "f64 \<Rightarrow> f64 \<Rightarrow> f64" where
  "f64_mul x y =
     (let neg = (f64_sign x \<noteq> f64_sign y)
      in if f64_is_nan x \<or> f64_is_nan y then f64_nan
         else if f64_is_inf x \<or> f64_is_inf y then
           (if f64_scaled x = 0 \<or> f64_scaled y = 0 then f64_nan else f64_inf neg)
         else f64_round_int neg (f64_scaled x * f64_scaled y) (2 ^ 1074))"

definition f64_div :: "f64 \<Rightarrow> f64 \<Rightarrow> f64" where
  "f64_div x y =
     (let neg = (f64_sign x \<noteq> f64_sign y)
      in if f64_is_nan x \<or> f64_is_nan y then f64_nan
         else if f64_is_inf x then (if f64_is_inf y then f64_nan else f64_inf neg)
         else if f64_is_inf y then f64_zero neg
         else if f64_scaled y = 0 then (if f64_scaled x = 0 then f64_nan else f64_inf neg)
         else if f64_scaled x = 0 then f64_zero neg
         else f64_round neg (nat \<bar>f64_scaled x\<bar> * 2 ^ 1074) (nat \<bar>f64_scaled y\<bar>))"

text \<open>\<open>%\<close> truncates and is exact; a zero result has the sign of the dividend.\<close>

definition f64_rem :: "f64 \<Rightarrow> f64 \<Rightarrow> f64" where
  "f64_rem x y =
     (if f64_is_nan x \<or> f64_is_nan y \<or> f64_is_inf x \<or> f64_scaled y = 0 then f64_nan
      else if f64_is_inf y then x
      else f64_round_int (f64_sign x) (f64_scaled x smod f64_scaled y) 1)"

section \<open>Parsing\<close>

text \<open>
  \<open>f64::from_str\<close>: an optional sign, then \<open>inf\<close>, \<open>infinity\<close>, \<open>nan\<close> in any case, or digits
  with an optional point (a digit on one side of it at least) and an optional exponent; the
  decimal value is rounded once.
\<close>

fun split_sign :: "string \<Rightarrow> bool \<times> string" where
  "split_sign (c # s) =
     (if c = CHR ''-'' then (True, s) else if c = CHR ''+'' then (False, s) else (False, c # s))"
| "split_sign [] = (False, [])"

definition parse_exponent :: "string \<Rightarrow> int option" where
  "parse_exponent s =
     (case s of [] \<Rightarrow> Some 0
      | c # t \<Rightarrow>
          if to_lower c \<noteq> CHR ''e'' then None
          else let (neg, ds) = split_sign t
            in if ds \<noteq> [] \<and> list_all is_digit ds
               then Some (if neg then - int (digits_val ds) else int (digits_val ds)) else None)"

definition decimal_f64 :: "bool \<Rightarrow> nat \<Rightarrow> int \<Rightarrow> f64" where
  "decimal_f64 neg m e =
     (if m = 0 then f64_zero neg
      else if 0 \<le> e then f64_round neg (m * 10 ^ nat e * 2 ^ 1074) 1
      else f64_round neg (m * 2 ^ 1074) (10 ^ nat (- e)))"

definition parse_number :: "bool \<Rightarrow> string \<Rightarrow> f64 option" where
  "parse_number neg s =
     (let ip = takeWhile is_digit s;
          r = dropWhile is_digit s;
          (fp, r') = (case r of
              c # t \<Rightarrow> if c = CHR ''.'' then (takeWhile is_digit t, dropWhile is_digit t) else ([], r)
            | [] \<Rightarrow> ([], []))
      in if ip = [] \<and> fp = [] then None
         else map_option (\<lambda>e. decimal_f64 neg (digits_val (ip @ fp)) (e - int (length fp)))
                (parse_exponent r'))"

definition parse_f64 :: "string \<Rightarrow> f64 option" where
  "parse_f64 s =
     (let (neg, r) = split_sign s; low = to_ascii_lowercase r
      in if low = ''inf'' \<or> low = ''infinity'' then Some (f64_inf neg)
         else if low = ''nan'' then Some f64_nan
         else parse_number neg r)"

end
