(* ===== verification/Json_Value.thy ===== *)
theory Json_Value
  imports Float64
begin

text \<open>
  \<open>serde_json::Value\<close> as the program uses it: a tree whose objects are \<open>BTreeMap\<close>s, so their
  entries are sorted by key and distinct (\<open>json_wf\<close>), with the map operations the code calls.
\<close>

datatype json_number = PosInt u64 | NegInt i64 | JFloat f64

datatype json =
    JNull
  | JBool bool
  | JNumber json_number
  | JString string
  | JArray "json list"
  | JObject "(string \<times> json) list"

fun map_insert :: "'k :: linorder \<Rightarrow> 'v \<Rightarrow> ('k \<times> 'v) list \<Rightarrow> ('k \<times> 'v) list" where
  "map_insert k v [] = [(k, v)]"
| "map_insert k v ((k', v') # kvs) =
     (if k < k' then (k, v) # (k', v') # kvs
      else if k = k' then (k, v) # kvs
      else (k', v') # map_insert k v kvs)"

definition map_wf :: "('k :: linorder \<times> 'v) list \<Rightarrow> bool" where
  "map_wf kvs \<longleftrightarrow> sorted (map fst kvs) \<and> distinct (map fst kvs)"

fun json_wf :: "json \<Rightarrow> bool" where
  "json_wf (JArray xs) = list_all json_wf xs"
| "json_wf (JObject kvs) = (map_wf kvs \<and> list_all (\<lambda>(_, v). json_wf v) kvs)"
| "json_wf _ = True"

fun as_object :: "json \<Rightarrow> (string \<times> json) list option" where
  "as_object (JObject kvs) = Some kvs"
| "as_object _ = None"

fun as_array :: "json \<Rightarrow> json list option" where
  "as_array (JArray xs) = Some xs"
| "as_array _ = None"

lemma map_wf_simps [simp]:
  "map_wf []"
  "map_wf (kv # kvs) \<longleftrightarrow> map_wf kvs \<and> (\<forall>k \<in> fst ` set kvs. fst kv < k)"
  by (auto simp: map_wf_def less_le)

lemma map_of_map_insert [simp]:
  "map_wf kvs \<Longrightarrow> map_of (map_insert k v kvs) = (map_of kvs)(k \<mapsto> v)"
proof (induction k v kvs rule: map_insert.induct)
  case (2 k v k' v' kvs)
  then show ?case by (auto simp: fun_eq_iff)
qed simp

lemma keys_map_insert: "fst ` set (map_insert k v kvs) = insert k (fst ` set kvs)"
  by (induction k v kvs rule: map_insert.induct) auto

lemma map_wf_insert [intro]: "map_wf kvs \<Longrightarrow> map_wf (map_insert k v kvs)"
proof (induction k v kvs rule: map_insert.induct)
  case (2 k v k' v' kvs)
  consider "k < k'" | "k = k'" | "k' < k" by fastforce
  then show ?case
  proof cases
    case 1
    with 2 show ?thesis by (auto dest: less_trans)
  next
    case 3
    with 2 show ?thesis by (auto simp: keys_map_insert simp del: map_insert.simps(1))
  qed (use 2 in auto)
qed simp

lemma set_map_insert: "set (map_insert k v kvs) \<subseteq> insert (k, v) (set kvs)"
  by (induction k v kvs rule: map_insert.induct) auto

lemma json_wf_insert:
  "json_wf (JObject kvs) \<Longrightarrow> json_wf v \<Longrightarrow> json_wf (JObject (map_insert k v kvs))"
  using set_map_insert [of k v kvs] by (fastforce simp: list_all_iff split_beta map_wf_insert)

lemma json_wf_lookup: "json_wf (JObject kvs) \<Longrightarrow> map_of kvs k = Some v \<Longrightarrow> json_wf v"
  by (auto simp: list_all_iff dest: map_of_SomeD)

lemma json_wf_nth: "json_wf (JArray xs) \<Longrightarrow> i < length xs \<Longrightarrow> json_wf (xs ! i)"
  by (simp add: list_all_iff)

end
