(* ===== verification/Asl_Types.thy ===== *)
theory Asl_Types
  imports Json_Value
begin

text \<open>
  The building blocks of a state machine (\<open>twerk-core/src/asl\<close>): the validated newtypes of
  \<open>types.rs\<close>, transitions, error codes, retry and catch policies, wait durations and the
  terminal states, each with its constructor and, where the source writes it by hand, its
  serialisation. A newtype is its string; its private field makes \<open>new\<close> the only way in.
\<close>

section \<open>Newtypes\<close>

type_synonym state_name = string
type_synonym expression = string
type_synonym json_path = string
type_synonym variable_name = string
type_synonym image_ref = string
type_synonym shell_script = string

datatype state_name_error = SN_Empty | SN_TooLong nat
datatype expression_error = EX_Empty
datatype json_path_error = JP_Empty | JP_MissingDollarPrefix string
datatype variable_name_error =
    VN_Empty | VN_TooLong nat | VN_InvalidStart string | VN_InvalidCharacter string
datatype image_ref_error = IR_Empty | IR_ContainsWhitespace
datatype shell_script_error = SS_Empty

definition state_name_new :: "string \<Rightarrow> state_name_error + state_name" where
  "state_name_new s =
     (if s = [] \<or> is_blank s then Inl SN_Empty
      else if length s > 256 then Inl (SN_TooLong (length s))
      else Inr s)"

definition expression_new :: "string \<Rightarrow> expression_error + expression" where
  "expression_new s = (if s = [] then Inl EX_Empty else Inr s)"

definition json_path_new :: "string \<Rightarrow> json_path_error + json_path" where
  "json_path_new s =
     (if s = [] then Inl JP_Empty
      else if \<not> prefix ''$'' s then Inl (JP_MissingDollarPrefix s)
      else Inr s)"

fun variable_chars :: "string \<Rightarrow> variable_name_error + unit" where
  "variable_chars [] = Inr ()"
| "variable_chars (c # cs) =
     (if \<not> is_ascii_alphanumeric c \<and> c \<noteq> CHR ''_''
      then Inl (VN_InvalidCharacter (first_char (c # cs)))
      else variable_chars cs)"

definition variable_name_new :: "string \<Rightarrow> variable_name_error + variable_name" where
  "variable_name_new s =
     (if s = [] then Inl VN_Empty
      else if length s > 128 then Inl (VN_TooLong (length s))
      else if \<not> is_ascii_alphabetic (hd s) \<and> hd s \<noteq> CHR ''_''
        then Inl (VN_InvalidStart (first_char s))
      else res_bind (variable_chars (tl s)) (\<lambda>_. Inr s))"

definition image_ref_new :: "string \<Rightarrow> image_ref_error + image_ref" where
  "image_ref_new s =
     (if s = [] then Inl IR_Empty
      else if has_white_space s then Inl IR_ContainsWhitespace
      else Inr s)"

definition shell_script_new :: "string \<Rightarrow> shell_script_error + shell_script" where
  "shell_script_new s = (if s = [] then Inl SS_Empty else Inr s)"

type_synonym backoff_rate = f64

datatype backoff_rate_error = BR_NotPositive f64 | BR_NotFinite f64 | BR_ParseError

definition backoff_rate_new :: "f64 \<Rightarrow> backoff_rate_error + backoff_rate" where
  "backoff_rate_new rate =
     (if \<not> f64_is_finite rate then Inl (BR_NotFinite rate)
      else if f64_le rate (f64_zero False) then Inl (BR_NotPositive rate)
      else Inr rate)"

definition backoff_rate_from_str :: "string \<Rightarrow> backoff_rate_error + backoff_rate" where
  "backoff_rate_from_str s = res_bind (ok_or (parse_f64 s) BR_ParseError) backoff_rate_new"

lemma variable_chars_Inr [res_simps]:
  "variable_chars s = Inr () \<longleftrightarrow> list_all (\<lambda>c. is_ascii_alphanumeric c \<or> c = CHR ''_'') s"
  by (induction s) auto

section \<open>Transitions\<close>

datatype transition_error =
    TE_BothNextAndEnd
  | TE_NeitherNextNorEnd
  | TE_EndMustBeTrue
  | TE_InvalidStateName state_name_error

datatype transition = Next state_name | End

fun target_state :: "transition \<Rightarrow> state_name option" where
  "target_state (Next name) = Some name"
| "target_state End = None"

fun is_next :: "transition \<Rightarrow> bool" where
  "is_next (Next _) = True"
| "is_next End = False"

text \<open>The errors of deserialisation: serde's own, and the custom ones of the program.\<close>

datatype 'e de_error =
    DE_DuplicateField string
  | DE_UnknownField string
  | DE_MissingField string
  | DE_InvalidType string
  | DE_Custom 'e

fun ser_transition :: "transition \<Rightarrow> (string \<times> json) list" where
  "ser_transition (Next name) = [(''next'', JString name)]"
| "ser_transition End = [(''end'', JBool True)]"

text \<open>The match on the two collected fields that ends \<open>visit_map\<close>.\<close>

fun make_transition :: "string option \<Rightarrow> bool option \<Rightarrow> transition_error + transition" where
  "make_transition (Some _) (Some _) = Inl TE_BothNextAndEnd"
| "make_transition None None = Inl TE_NeitherNextNorEnd"
| "make_transition (Some name) None =
     res_bind (map_err TE_InvalidStateName (state_name_new name)) (\<lambda>sn. Inr (Next sn))"
| "make_transition None (Some True) = Inr End"
| "make_transition None (Some False) = Inl TE_EndMustBeTrue"

fun json_string :: "string \<Rightarrow> json \<Rightarrow> 'e de_error + string" where
  "json_string name (JString s) = Inr s"
| "json_string name _ = Inl (DE_InvalidType name)"

fun json_bool :: "string \<Rightarrow> json \<Rightarrow> 'e de_error + bool" where
  "json_bool name (JBool b) = Inr b"
| "json_bool name _ = Inl (DE_InvalidType name)"

fun json_u64 :: "string \<Rightarrow> json \<Rightarrow> 'e de_error + u64" where
  "json_u64 name (JNumber (PosInt n)) = Inr n"
| "json_u64 name _ = Inl (DE_InvalidType name)"

fun visit_map ::
    "(string \<times> json) list \<Rightarrow> string option \<Rightarrow> bool option \<Rightarrow> transition_error de_error + transition"
  where
  "visit_map [] next_val end_val = map_err DE_Custom (make_transition next_val end_val)"
| "visit_map ((key, v) # entries) next_val end_val =
     (if key = ''next'' then
        if next_val \<noteq> None then Inl (DE_DuplicateField ''next'')
        else res_bind (json_string ''next'' v) (\<lambda>s. visit_map entries (Some s) end_val)
      else if key = ''end'' then
        if end_val \<noteq> None then Inl (DE_DuplicateField ''end'')
        else res_bind (json_bool ''end'' v) (\<lambda>b. visit_map entries next_val (Some b))
      else Inl (DE_UnknownField key))"

definition de_transition :: "(string \<times> json) list \<Rightarrow> transition_error de_error + transition" where
  "de_transition entries = visit_map entries None None"

text \<open>A transition whose name came through \<open>StateName::new\<close>.\<close>

fun transition_wf :: "transition \<Rightarrow> bool" where
  "transition_wf (Next name) = (state_name_new name = Inr name)"
| "transition_wf End = True"

lemma state_name_new_same: "state_name_new s = Inr n \<Longrightarrow> n = s"
  by (auto simp: state_name_new_def split: if_splits)

lemma state_name_new_idem: "state_name_new s = Inr n \<Longrightarrow> state_name_new n = Inr n"
  using state_name_new_same [of s n] by simp

lemma make_transition_wf: "make_transition n e = Inr t \<Longrightarrow> transition_wf t"
  by (induction n e rule: make_transition.induct)
    (auto simp: map_err_Inr intro: state_name_new_idem)

lemma visit_map_wf: "visit_map entries n e = Inr t \<Longrightarrow> transition_wf t"
  by (induction entries n e rule: visit_map.induct)
    (auto simp: res_simps make_transition_wf split: if_splits)

lemma de_ser_transition: "transition_wf t \<Longrightarrow> de_transition (ser_transition t) = Inr t"
  by (cases t) (simp_all add: de_transition_def)

section \<open>Error codes\<close>

datatype error_code =
    All | Timeout | TaskFailed | Permissions | ResultPathMatchFailure | ParameterPathFailure
  | BranchFailed | NoChoiceMatched | IntrinsicFailure | HeartbeatTimeout | Custom string

fun error_code_display :: "error_code \<Rightarrow> string" where
  "error_code_display All = ''all''"
| "error_code_display Timeout = ''timeout''"
| "error_code_display TaskFailed = ''taskfailed''"
| "error_code_display Permissions = ''permissions''"
| "error_code_display ResultPathMatchFailure = ''resultpathmatchfailure''"
| "error_code_display ParameterPathFailure = ''parameterpathfailure''"
| "error_code_display BranchFailed = ''branchfailed''"
| "error_code_display NoChoiceMatched = ''nochoicematched''"
| "error_code_display IntrinsicFailure = ''intrinsicfailure''"
| "error_code_display HeartbeatTimeout = ''heartbeattimeout''"
| "error_code_display (Custom s) = s"

definition error_code_parse :: "string \<Rightarrow> error_code" where
  "error_code_parse s =
     (let l = to_ascii_lowercase s
      in if l = ''all'' then All
         else if l = ''timeout'' then Timeout
         else if l = ''taskfailed'' then TaskFailed
         else if l = ''permissions'' then Permissions
         else if l = ''resultpathmatchfailure'' then ResultPathMatchFailure
         else if l = ''parameterpathfailure'' then ParameterPathFailure
         else if l = ''branchfailed'' then BranchFailed
         else if l = ''nochoicematched'' then NoChoiceMatched
         else if l = ''intrinsicfailure'' then IntrinsicFailure
         else if l = ''heartbeattimeout'' then HeartbeatTimeout
         else Custom s)"

definition error_code_matches :: "error_code \<Rightarrow> error_code \<Rightarrow> bool" where
  "error_code_matches self other \<longleftrightarrow> self = All \<or> self = other"

text \<open>Parsing is stable: what it yields prints to a string that parses to it again.\<close>

lemma error_code_parse_display:
  "error_code_parse (error_code_display (error_code_parse s)) = error_code_parse s"
proof (cases "error_code_parse s")
  case (Custom t)
  then have "t = s" by (auto simp: error_code_parse_def Let_def split: if_splits)
  with Custom show ?thesis by simp
qed (simp_all add: error_code_parse_def to_ascii_lowercase_def to_lower_def is_upper_def
    less_eq_char_def)

section \<open>Retry and catch policies\<close>

datatype jitter_strategy = Jitter_Full | Jitter_None

datatype retrier_error =
    RE_EmptyErrorEquals
  | RE_IntervalTooSmall u64
  | RE_MaxAttemptsTooSmall u32
  | RE_MaxDelayNotGreaterThanInterval u64 u64

record retrier =
  rt_error_equals :: "error_code list"
  rt_interval_seconds :: u64
  rt_max_attempts :: u32
  rt_backoff_rate :: backoff_rate
  rt_max_delay_seconds :: "u64 option"
  rt_jitter_strategy :: jitter_strategy

definition retrier_new ::
    "error_code list \<Rightarrow> u64 \<Rightarrow> u32 \<Rightarrow> backoff_rate \<Rightarrow> u64 option \<Rightarrow> jitter_strategy
      \<Rightarrow> retrier_error + retrier" where
  "retrier_new error_equals interval max_attempts rate max_delay jitter =
     (if error_equals = [] then Inl RE_EmptyErrorEquals
      else if interval < 1 then Inl (RE_IntervalTooSmall interval)
      else if max_attempts < 1 then Inl (RE_MaxAttemptsTooSmall max_attempts)
      else case max_delay of
          Some d \<Rightarrow> if d \<le> interval then Inl (RE_MaxDelayNotGreaterThanInterval d interval)
            else Inr \<lparr>rt_error_equals = error_equals, rt_interval_seconds = interval,
              rt_max_attempts = max_attempts, rt_backoff_rate = rate,
              rt_max_delay_seconds = max_delay, rt_jitter_strategy = jitter\<rparr>
        | None \<Rightarrow> Inr \<lparr>rt_error_equals = error_equals, rt_interval_seconds = interval,
              rt_max_attempts = max_attempts, rt_backoff_rate = rate,
              rt_max_delay_seconds = max_delay, rt_jitter_strategy = jitter\<rparr>)"

text \<open>The raw form that \<open>serde(into)\<close> writes and \<open>try_from\<close> reads has the same fields.\<close>

datatype raw_retrier =
  RawRetrier "error_code list" u64 u32 backoff_rate "u64 option" jitter_strategy

definition retrier_into_raw :: "retrier \<Rightarrow> raw_retrier" where
  "retrier_into_raw r = RawRetrier (rt_error_equals r) (rt_interval_seconds r) (rt_max_attempts r)
     (rt_backoff_rate r) (rt_max_delay_seconds r) (rt_jitter_strategy r)"

fun retrier_try_from :: "raw_retrier \<Rightarrow> retrier_error + retrier" where
  "retrier_try_from (RawRetrier ee i a b d j) = retrier_new ee i a b d j"

definition retrier_wf :: "retrier \<Rightarrow> bool" where
  "retrier_wf r \<longleftrightarrow>
     rt_error_equals r \<noteq> [] \<and> rt_interval_seconds r \<noteq> 0 \<and> rt_max_attempts r \<noteq> 0 \<and>
     (\<forall>d \<in> set_option (rt_max_delay_seconds r). rt_interval_seconds r < d)"

lemma retrier_new_Inr:
  "retrier_new ee i a b d j = Inr r \<longleftrightarrow>
     retrier_wf r \<and> retrier_into_raw r = RawRetrier ee i a b d j"
  by (cases r) (auto simp: retrier_new_def retrier_wf_def retrier_into_raw_def not_less
      split: if_splits option.splits)

record catcher =
  ct_error_equals :: "error_code list"
  ct_next :: state_name
  ct_result_path :: "json_path option"
  ct_assign :: "(variable_name \<times> expression) list option"

datatype catcher_error = CE_EmptyErrorEquals

definition catcher_new ::
    "error_code list \<Rightarrow> state_name \<Rightarrow> json_path option \<Rightarrow> (variable_name \<times> expression) list option
      \<Rightarrow> catcher_error + catcher" where
  "catcher_new error_equals next result_path assign =
     (if error_equals = [] then Inl CE_EmptyErrorEquals
      else Inr \<lparr>ct_error_equals = error_equals, ct_next = next, ct_result_path = result_path,
        ct_assign = assign\<rparr>)"

datatype raw_catcher =
  RawCatcher "error_code list" state_name "json_path option"
    "(variable_name \<times> expression) list option"

definition catcher_into_raw :: "catcher \<Rightarrow> raw_catcher" where
  "catcher_into_raw c = RawCatcher (ct_error_equals c) (ct_next c) (ct_result_path c) (ct_assign c)"

fun catcher_try_from :: "raw_catcher \<Rightarrow> catcher_error + catcher" where
  "catcher_try_from (RawCatcher ee n r a) = catcher_new ee n r a"

definition catcher_wf :: "catcher \<Rightarrow> bool" where
  "catcher_wf c \<longleftrightarrow> ct_error_equals c \<noteq> []"

lemma catcher_new_Inr:
  "catcher_new ee n r a = Inr c \<longleftrightarrow> catcher_wf c \<and> catcher_into_raw c = RawCatcher ee n r a"
  by (cases c) (auto simp: catcher_new_def catcher_wf_def catcher_into_raw_def)

section \<open>Wait states\<close>

datatype wait_duration =
    Seconds u64 | Timestamp string | SecondsPath json_path | TimestampPath json_path

datatype wait_duration_error =
    WE_NoFieldSpecified
  | WE_MultipleFieldsSpecified "string list"
  | WE_EmptyTimestamp
  | WE_InvalidJsonPath json_path_error

record wait_helper =
  wh_seconds :: "u64 option"
  wh_timestamp :: "string option"
  wh_seconds_path :: "string option"
  wh_timestamp_path :: "string option"
  wh_next :: "string option"
  wh_end :: "bool option"

definition set_fields :: "wait_helper \<Rightarrow> string list" where
  "set_fields h =
     (if wh_seconds h \<noteq> None then [''seconds''] else []) @
     (if wh_timestamp h \<noteq> None then [''timestamp''] else []) @
     (if wh_seconds_path h \<noteq> None then [''seconds_path''] else []) @
     (if wh_timestamp_path h \<noteq> None then [''timestamp_path''] else [])"

definition into_wait_duration :: "wait_helper \<Rightarrow> wait_duration_error + wait_duration" where
  "into_wait_duration h =
     (if length (set_fields h) > 1 then Inl (WE_MultipleFieldsSpecified (set_fields h))
      else case wh_seconds h of
        Some n \<Rightarrow> Inr (Seconds n)
      | None \<Rightarrow> (case wh_timestamp h of
          Some t \<Rightarrow> if t = [] then Inl WE_EmptyTimestamp else Inr (Timestamp t)
        | None \<Rightarrow> (case wh_seconds_path h of
            Some p \<Rightarrow> res_bind (map_err WE_InvalidJsonPath (json_path_new p)) (\<lambda>jp. Inr (SecondsPath jp))
          | None \<Rightarrow> (case wh_timestamp_path h of
              Some p \<Rightarrow> res_bind (map_err WE_InvalidJsonPath (json_path_new p)) (\<lambda>jp. Inr (TimestampPath jp))
            | None \<Rightarrow> Inl WE_NoFieldSpecified))))"

record wait_state =
  ws_duration :: wait_duration
  ws_transition :: transition

fun ser_duration :: "wait_duration \<Rightarrow> (string \<times> json) list" where
  "ser_duration (Seconds n) = [(''seconds'', JNumber (PosInt n))]"
| "ser_duration (Timestamp t) = [(''timestamp'', JString t)]"
| "ser_duration (SecondsPath p) = [(''seconds_path'', JString p)]"
| "ser_duration (TimestampPath p) = [(''timestamp_path'', JString p)]"

definition ser_wait_state :: "wait_state \<Rightarrow> (string \<times> json) list" where
  "ser_wait_state w = ser_duration (ws_duration w) @
     (if is_next (ws_transition w)
      then (case target_state (ws_transition w) of
              Some name \<Rightarrow> [(''next'', JString name)] | None \<Rightarrow> [])
      else [(''end'', JBool True)])"

text \<open>
  The derived \<open>Deserialize\<close> of the helper: entries in turn, unknown keys skipped, a key that
  comes twice rejected, \<open>null\<close> read as \<open>None\<close>.
\<close>

datatype wait_error = WT_Duration wait_duration_error | WT_Transition transition_error

definition opt_value :: "('a \<Rightarrow> 'e de_error + 'b) \<Rightarrow> ('a \<Rightarrow> bool) \<Rightarrow> 'a \<Rightarrow> 'e de_error + 'b option" where
  "opt_value conv is_null v = (if is_null v then Inr None else res_bind (conv v) (\<lambda>x. Inr (Some x)))"

fun de_wait_helper ::
    "(string \<times> json) list \<Rightarrow> string list \<Rightarrow> wait_helper \<Rightarrow> wait_error de_error + wait_helper" where
  "de_wait_helper [] seen h = Inr h"
| "de_wait_helper ((key, v) # entries) seen h =
     (let go = (\<lambda>upd. de_wait_helper entries (key # seen) (upd h));
          str = opt_value (json_string key) (\<lambda>v. v = JNull) v
      in if key \<notin> {''seconds'', ''timestamp'', ''seconds_path'', ''timestamp_path'', ''next'', ''end''}
         then de_wait_helper entries seen h
         else if key \<in> set seen then Inl (DE_DuplicateField key)
         else if key = ''seconds'' then
           res_bind (opt_value (json_u64 key) (\<lambda>v. v = JNull) v) (\<lambda>x. go (wh_seconds_update (\<lambda>_. x)))
         else if key = ''end'' then
           res_bind (opt_value (json_bool key) (\<lambda>v. v = JNull) v) (\<lambda>x. go (wh_end_update (\<lambda>_. x)))
         else res_bind str (\<lambda>x. go
           (if key = ''timestamp'' then wh_timestamp_update (\<lambda>_. x)
            else if key = ''seconds_path'' then wh_seconds_path_update (\<lambda>_. x)
            else if key = ''timestamp_path'' then wh_timestamp_path_update (\<lambda>_. x)
            else wh_next_update (\<lambda>_. x))))"

definition empty_helper :: wait_helper where
  "empty_helper = \<lparr>wh_seconds = None, wh_timestamp = None, wh_seconds_path = None,
     wh_timestamp_path = None, wh_next = None, wh_end = None\<rparr>"

definition de_wait_state :: "(string \<times> json) list \<Rightarrow> wait_error de_error + wait_state" where
  "de_wait_state entries =
     res_bind (de_wait_helper entries [] empty_helper) (\<lambda>h.
       res_bind (map_err (\<lambda>e. DE_Custom (WT_Duration e)) (into_wait_duration h)) (\<lambda>d.
         res_bind (map_err (\<lambda>e. DE_Custom (WT_Transition e)) (make_transition (wh_next h) (wh_end h)))
           (\<lambda>t. Inr \<lparr>ws_duration = d, ws_transition = t\<rparr>)))"

fun wait_duration_wf :: "wait_duration \<Rightarrow> bool" where
  "wait_duration_wf (Seconds _) = True"
| "wait_duration_wf (Timestamp t) = (t \<noteq> [])"
| "wait_duration_wf (SecondsPath p) = (json_path_new p = Inr p)"
| "wait_duration_wf (TimestampPath p) = (json_path_new p = Inr p)"

lemma de_ser_wait_state:
  assumes "wait_duration_wf (ws_duration w)" and "transition_wf (ws_transition w)"
  shows "de_wait_state (ser_wait_state w) = Inr w"
  using assms
  by (cases w; cases "ws_duration w"; cases "ws_transition w")
    (auto simp: de_wait_state_def ser_wait_state_def opt_value_def empty_helper_def
      into_wait_duration_def set_fields_def)

lemma json_path_new_idem: "json_path_new s = Inr p \<Longrightarrow> json_path_new p = Inr p"
  by (auto simp: json_path_new_def split: if_splits)

lemma into_wait_duration_wf: "into_wait_duration h = Inr d \<Longrightarrow> wait_duration_wf d"
  by (auto simp: into_wait_duration_def map_err_Inr split: if_splits option.splits
      intro: json_path_new_idem)

lemma de_wait_state_wf:
  "de_wait_state entries = Inr w \<Longrightarrow>
     wait_duration_wf (ws_duration w) \<and> transition_wf (ws_transition w)"
  by (auto simp: de_wait_state_def map_err_Inr intro: into_wait_duration_wf make_transition_wf)

section \<open>Terminal states\<close>

record fail_state =
  fs_error :: "string option"
  fs_cause :: "string option"

fun fail_display :: "string option \<Rightarrow> string option \<Rightarrow> string" where
  "fail_display (Some e) (Some c) = ''FAIL: '' @ e @ '' ('' @ c @ '')''"
| "fail_display (Some e) None = ''FAIL: '' @ e"
| "fail_display None (Some c) = ''FAIL: ('' @ c @ '')''"
| "fail_display None None = ''FAIL''"

section \<open>Properties\<close>

text \<open>A Wait state survives serialisation: a duration and a transition that their validators
  accept are read back from the entries they are written to, and what is read is always such.\<close>

theorem wait_state_roundtrip:
  "(wait_duration_wf (ws_duration w) \<and> transition_wf (ws_transition w) \<longleftrightarrow>
      de_wait_state (ser_wait_state w) = Inr w)"
  using de_ser_wait_state [of w] de_wait_state_wf [of "ser_wait_state w" w] by blast

text \<open>Which retry policies can be built: some error code, an interval and a number of attempts of at least one, a
  maximal delay, if there is one, above the interval; the policy holds the parts as given. What was built is rebuilt from
  its raw form.\<close>

theorem retrier_accepted:
  "retrier_new ee i a b d j = Inr r \<longleftrightarrow>
     ee \<noteq> [] \<and> 1 \<le> i \<and> 1 \<le> a \<and> (d = None \<or> i < the d) \<and> retrier_into_raw r = RawRetrier ee i a b d j"
  by (cases d) (auto simp: retrier_new_Inr retrier_wf_def retrier_into_raw_def word_le_nat_alt word_neq_0_conv word_less_nat_alt Suc_le_eq)

lemma retrier_rebuilt: "retrier_new ee i a b d j = Inr r \<Longrightarrow> retrier_try_from (retrier_into_raw r) = Inr r"
  by (simp add: retrier_new_Inr)

end
