(* ===== verification/Eval_Vm.thy ===== *)
theory Eval_Vm
  imports Stack_Interface Float64
begin

text \<open>
  The second expression VM, \<open>twerk-core/src/eval/vm.rs\<close>, which the cases of a Switch state
  run: its values with doubles, its operations, the \<open>Vec\<close> used as a stack of at most 64
  entries, and execution, which runs every operation once. The \<open>/\<close> and \<open>%\<close> of the source
  panic on the one overflowing pair of integers, so a panic is an outcome of the model.
\<close>

definition EVAL_STACK_SIZE :: nat where "EVAL_STACK_SIZE = 64"

datatype eval_value =
    EV_Null
  | EV_Bool bool
  | EV_Int i64
  | EV_Float f64
  | EV_String string

datatype eval_op =
    EO_LoadSlot nat
  | EO_LoadConst eval_value
  | EO_Add | EO_Sub | EO_Mul | EO_Div | EO_Mod
  | EO_Eq | EO_Ne | EO_Lt | EO_Le | EO_Gt | EO_Ge
  | EO_And | EO_Or | EO_Not

datatype vm_error =
    VE_StackOverflow
  | VE_StackUnderflow nat nat
  | VE_DivisionByZero
  | VE_InvalidBinaryOp string eval_value eval_value
  | VE_InvalidUnaryOp string eval_value
  | VE_SlotOutOfBounds nat nat
  | VE_TypeError string string

datatype vm_failure = VmErr vm_error | VmPanic

section \<open>Values\<close>

fun as_int :: "eval_value \<Rightarrow> i64 option" where
  "as_int (EV_Int i) = Some i"
| "as_int _ = None"

fun as_float :: "eval_value \<Rightarrow> f64 option" where
  "as_float (EV_Float f) = Some f"
| "as_float (EV_Int i) = Some (f64_of_int (sint i))"
| "as_float (EV_Bool b) = Some (if b then f64_of_int 1 else f64_of_int 0)"
| "as_float (EV_String s) = parse_f64 s"
| "as_float EV_Null = None"

fun as_bool :: "eval_value \<Rightarrow> bool option" where
  "as_bool (EV_Bool b) = Some b"
| "as_bool (EV_Int i) = Some (i \<noteq> 0)"
| "as_bool (EV_Float f) = Some (\<not> f64_eq f (f64_zero False))"
| "as_bool (EV_String s) = Some (s \<noteq> [])"
| "as_bool EV_Null = Some False"

text \<open>The derived \<open>PartialEq\<close> compares doubles by value: NaN differs from itself.\<close>

fun ev_eq :: "eval_value \<Rightarrow> eval_value \<Rightarrow> bool" where
  "ev_eq EV_Null EV_Null = True"
| "ev_eq (EV_Bool a) (EV_Bool b) = (a = b)"
| "ev_eq (EV_Int a) (EV_Int b) = (a = b)"
| "ev_eq (EV_Float a) (EV_Float b) = f64_eq a b"
| "ev_eq (EV_String a) (EV_String b) = (a = b)"
| "ev_eq _ _ = False"

definition i64_saturate :: "int \<Rightarrow> i64" where
  "i64_saturate k = word_of_int (max i64_min (min i64_max k))"

lemma sint_i64_saturate: "sint (i64_saturate k) = max i64_min (min i64_max k)"
  unfolding i64_saturate_def
  by (rule sint_word_of_int_i64) (simp add: in_i64_def i64_min_def i64_max_def)

section \<open>The stack\<close>

definition ev_push :: "eval_value \<Rightarrow> eval_value list \<Rightarrow> vm_failure + eval_value list" where
  "ev_push v stack =
     (if length stack \<ge> EVAL_STACK_SIZE then Inl (VmErr VE_StackOverflow) else Inr (stack @ [v]))"

definition ev_pop :: "eval_value list \<Rightarrow> vm_failure + eval_value \<times> eval_value list" where
  "ev_pop stack =
     (if stack = [] then Inl (VmErr (VE_StackUnderflow 1 0))
      else Inr (last stack, butlast stack))"

definition ev_wf :: "eval_value list \<Rightarrow> bool" where
  "ev_wf stack \<longleftrightarrow> length stack \<le> EVAL_STACK_SIZE"

interpretation ev_stack: bounded_stack ev_push ev_pop rev ev_wf EVAL_STACK_SIZE
proof unfold_locales
  fix s v vs
  assume wf: "ev_wf s"
  show "\<exists>s'. ev_push v s = Inr s' \<and> ev_wf s' \<and> rev s' = v # rev s"
    if "length (rev s) < EVAL_STACK_SIZE"
    using that by (simp add: ev_push_def ev_wf_def)
  show "\<exists>e. ev_push v s = Inl e" if "EVAL_STACK_SIZE \<le> length (rev s)"
    using that by (simp add: ev_push_def)
  show "\<exists>s'. ev_pop s = Inr (v, s') \<and> ev_wf s' \<and> rev s' = vs" if "rev s = v # vs"
  proof -
    from that have "s = rev vs @ [v]" by (metis rev.simps(2) rev_rev_ident)
    with wf show ?thesis by (simp add: ev_pop_def ev_wf_def)
  qed
  show "\<exists>e. ev_pop s = Inl e" if "rev s = []"
    using that by (simp add: ev_pop_def)
  show "length (rev s) \<le> EVAL_STACK_SIZE"
    using wf by (simp add: ev_wf_def)
qed

section \<open>One operation\<close>

text \<open>
  The binary operations all pop \<open>b\<close>, then \<open>a\<close>. The numeric ones use the integers when both
  are integers and otherwise the doubles, \<open>a\<close> converted first.
\<close>

definition float_args :: "string \<Rightarrow> eval_value \<Rightarrow> eval_value \<Rightarrow> vm_failure + f64 \<times> f64" where
  "float_args name a b =
     res_bind (ok_or (as_float a) (VmErr (VE_InvalidBinaryOp name a b))) (\<lambda>x.
       res_bind (ok_or (as_float b) (VmErr (VE_InvalidBinaryOp name a b))) (\<lambda>y. Inr (x, y)))"

definition num_op ::
    "string \<Rightarrow> (i64 \<Rightarrow> i64 \<Rightarrow> vm_failure + eval_value) \<Rightarrow> (f64 \<Rightarrow> f64 \<Rightarrow> vm_failure + eval_value)
      \<Rightarrow> eval_value \<Rightarrow> eval_value \<Rightarrow> vm_failure + eval_value" where
  "num_op name fi ff a b =
     (case (as_int a, as_int b) of
        (Some i, Some j) \<Rightarrow> fi i j
      | _ \<Rightarrow> res_bind (float_args name a b) (\<lambda>(x, y). ff x y))"

definition bool_of :: "eval_value \<Rightarrow> eval_value \<Rightarrow> (bool \<Rightarrow> bool \<Rightarrow> bool) \<Rightarrow> eval_value" where
  "bool_of a b f =
     (case (as_bool a, as_bool b) of
        (Some x, Some y) \<Rightarrow> EV_Bool (f x y)
      | _ \<Rightarrow> EV_Bool False)"

text \<open>\<open>i / j\<close> and \<open>i % j\<close> on \<open>i64\<close> after the zero check: a panic on overflow.\<close>

definition i64_div :: "i64 \<Rightarrow> i64 \<Rightarrow> vm_failure + eval_value" where
  "i64_div i j =
     (if j = 0 then Inl (VmErr VE_DivisionByZero)
      else case checked_div i j of None \<Rightarrow> Inl VmPanic | Some k \<Rightarrow> Inr (EV_Int k))"

definition i64_rem :: "i64 \<Rightarrow> i64 \<Rightarrow> vm_failure + eval_value" where
  "i64_rem i j =
     (if j = 0 then Inl (VmErr VE_DivisionByZero)
      else case checked_rem i j of None \<Rightarrow> Inl VmPanic | Some k \<Rightarrow> Inr (EV_Int k))"

fun binary_fn :: "eval_op \<Rightarrow> (eval_value \<Rightarrow> eval_value \<Rightarrow> vm_failure + eval_value) option" where
  "binary_fn EO_Add = Some (num_op ''Add''
     (\<lambda>i j. Inr (EV_Int (i64_saturate (sint i + sint j)))) (\<lambda>x y. Inr (EV_Float (f64_add x y))))"
| "binary_fn EO_Sub = Some (num_op ''Sub''
     (\<lambda>i j. Inr (EV_Int (i64_saturate (sint i - sint j)))) (\<lambda>x y. Inr (EV_Float (f64_sub x y))))"
| "binary_fn EO_Mul = Some (num_op ''Mul''
     (\<lambda>i j. Inr (EV_Int (i64_saturate (sint i * sint j)))) (\<lambda>x y. Inr (EV_Float (f64_mul x y))))"
| "binary_fn EO_Div = Some (num_op ''Div'' i64_div
     (\<lambda>x y. if f64_eq y (f64_zero False) then Inl (VmErr VE_DivisionByZero)
            else Inr (EV_Float (f64_div x y))))"
| "binary_fn EO_Mod = Some (num_op ''Mod'' i64_rem
     (\<lambda>x y. if f64_eq y (f64_zero False) then Inl (VmErr VE_DivisionByZero)
            else Inr (EV_Float (f64_rem x y))))"
| "binary_fn EO_Eq = Some (\<lambda>a b. Inr (EV_Bool (ev_eq a b)))"
| "binary_fn EO_Ne = Some (\<lambda>a b. Inr (EV_Bool (\<not> ev_eq a b)))"
| "binary_fn EO_Lt = Some (num_op ''Lt''
     (\<lambda>i j. Inr (EV_Bool (sint i < sint j))) (\<lambda>x y. Inr (EV_Bool (f64_lt x y))))"
| "binary_fn EO_Le = Some (num_op ''Le''
     (\<lambda>i j. Inr (EV_Bool (sint i \<le> sint j))) (\<lambda>x y. Inr (EV_Bool (f64_le x y))))"
| "binary_fn EO_Gt = Some (num_op ''Gt''
     (\<lambda>i j. Inr (EV_Bool (sint i > sint j))) (\<lambda>x y. Inr (EV_Bool (f64_lt y x))))"
| "binary_fn EO_Ge = Some (num_op ''Ge''
     (\<lambda>i j. Inr (EV_Bool (sint i \<ge> sint j))) (\<lambda>x y. Inr (EV_Bool (f64_le y x))))"
| "binary_fn EO_And = Some (\<lambda>a b. Inr (bool_of a b (\<and>)))"
| "binary_fn EO_Or = Some (\<lambda>a b. Inr (bool_of a b (\<or>)))"
| "binary_fn _ = None"

fun not_fn :: "eval_value \<Rightarrow> vm_failure + eval_value" where
  "not_fn a = Inr (case as_bool a of Some b \<Rightarrow> EV_Bool (\<not> b) | None \<Rightarrow> EV_Bool True)"

definition ev_binary ::
    "(eval_value \<Rightarrow> eval_value \<Rightarrow> vm_failure + eval_value) \<Rightarrow> eval_value list
      \<Rightarrow> vm_failure + eval_value list" where
  "ev_binary f stack =
     res_bind (ev_pop stack) (\<lambda>(b, s1). res_bind (ev_pop s1) (\<lambda>(a, s2).
       res_bind (f a b) (\<lambda>r. ev_push r s2)))"

fun ev_execute_op ::
    "eval_value list \<Rightarrow> eval_op \<Rightarrow> eval_value list \<Rightarrow> vm_failure + eval_value list" where
  "ev_execute_op slots (EO_LoadSlot index) stack =
     res_bind (ok_or (if index < length slots then Some (slots ! index) else None)
         (VmErr (VE_SlotOutOfBounds index (length slots))))
       (\<lambda>v. ev_push v stack)"
| "ev_execute_op slots (EO_LoadConst v) stack = ev_push v stack"
| "ev_execute_op slots EO_Not stack =
     res_bind (ev_pop stack) (\<lambda>(a, s1). res_bind (not_fn a) (\<lambda>r. ev_push r s1))"
| "ev_execute_op slots op stack = ev_binary (the (binary_fn op)) stack"

section \<open>Execution\<close>

fun ev_run ::
    "eval_value list \<Rightarrow> eval_op list \<Rightarrow> eval_value list \<Rightarrow> vm_failure + eval_value list" where
  "ev_run slots [] stack = Inr stack"
| "ev_run slots (op # ops) stack = res_bind (ev_execute_op slots op stack) (ev_run slots ops)"

definition ev_execute :: "eval_op list \<Rightarrow> eval_value list \<Rightarrow> vm_failure + eval_value" where
  "ev_execute ops slots =
     res_bind (ev_run slots ops []) (\<lambda>stack. res_bind (ev_pop stack) (\<lambda>(v, _). Inr v))"

lemma ev_run_append:
  "ev_run slots (xs @ ys) stack = res_bind (ev_run slots xs stack) (ev_run slots ys)"
proof (induction xs arbitrary: stack)
  case (Cons x xs)
  then show ?case by (cases "ev_execute_op slots x stack") auto
qed simp

section \<open>The stack stays bounded\<close>

lemma ev_push_snoc: "length stack < EVAL_STACK_SIZE \<Longrightarrow> ev_push v stack = Inr (stack @ [v])"
  by (simp add: ev_push_def)

lemma ev_pop_snoc [simp]: "ev_pop (stack @ [v]) = Inr (v, stack)"
  by (simp add: ev_pop_def)

lemma ev_binary_snoc:
  "length stack < EVAL_STACK_SIZE \<Longrightarrow>
     ev_binary f (stack @ [a, b]) = res_bind (f a b) (\<lambda>r. Inr (stack @ [r]))"
  using ev_pop_snoc [of "stack @ [a]" b]
  by (simp add: ev_binary_def) (cases "f a b"; simp add: ev_push_snoc)

lemma ev_binary_wf: "ev_binary f stack = Inr stack' \<Longrightarrow> ev_wf stack \<Longrightarrow> ev_wf stack'"
  by (clarsimp simp: ev_binary_def)
    (blast intro: ev_stack.push_inv(1) ev_stack.pop_inv(1))

lemma ev_execute_op_wf:
  "ev_execute_op slots op stack = Inr stack' \<Longrightarrow> ev_wf stack \<Longrightarrow> ev_wf stack'"
  by (cases op; clarsimp;
      blast intro: ev_binary_wf ev_stack.push_inv(1) ev_stack.pop_inv(1))

lemma ev_run_wf: "ev_run slots ops stack = Inr stack' \<Longrightarrow> ev_wf stack \<Longrightarrow> ev_wf stack'"
  by (induction ops arbitrary: stack) (auto dest: ev_execute_op_wf)

section \<open>Compiled expressions\<close>

text \<open>An expression, its postfix code, the stack it needs, and its value.\<close>

datatype ev_tree = ET_Slot nat | ET_Const eval_value | ET_Not ev_tree | ET_Bin eval_op ev_tree ev_tree

fun ev_tree_wf :: "ev_tree \<Rightarrow> bool" where
  "ev_tree_wf (ET_Not t) = ev_tree_wf t"
| "ev_tree_wf (ET_Bin op l r) = (binary_fn op \<noteq> None \<and> ev_tree_wf l \<and> ev_tree_wf r)"
| "ev_tree_wf _ = True"

fun ev_code :: "ev_tree \<Rightarrow> eval_op list" where
  "ev_code (ET_Slot i) = [EO_LoadSlot i]"
| "ev_code (ET_Const v) = [EO_LoadConst v]"
| "ev_code (ET_Not t) = ev_code t @ [EO_Not]"
| "ev_code (ET_Bin op l r) = ev_code l @ ev_code r @ [op]"

fun ev_height :: "ev_tree \<Rightarrow> nat" where
  "ev_height (ET_Not t) = ev_height t"
| "ev_height (ET_Bin op l r) = max (ev_height l) (ev_height r + 1)"
| "ev_height _ = 1"

fun ev_value :: "eval_value list \<Rightarrow> ev_tree \<Rightarrow> vm_failure + eval_value" where
  "ev_value slots (ET_Slot i) =
     (if i < length slots then Inr (slots ! i) else Inl (VmErr (VE_SlotOutOfBounds i (length slots))))"
| "ev_value slots (ET_Const v) = Inr v"
| "ev_value slots (ET_Not t) = res_bind (ev_value slots t) not_fn"
| "ev_value slots (ET_Bin op l r) =
     res_bind (ev_value slots l) (\<lambda>a. res_bind (ev_value slots r) (\<lambda>b. the (binary_fn op) a b))"

lemma ev_execute_binary:
  "binary_fn op \<noteq> None \<Longrightarrow> ev_execute_op slots op stack = ev_binary (the (binary_fn op)) stack"
  by (cases op) auto

lemma ev_height_pos: "0 < ev_height t"
  by (induction t) auto

lemma ev_run_tree:
  assumes "ev_tree_wf t" and "length stack + ev_height t \<le> EVAL_STACK_SIZE"
  shows "ev_run slots (ev_code t) stack = res_bind (ev_value slots t) (\<lambda>v. Inr (stack @ [v]))"
  using assms
proof (induction t arbitrary: stack)
  case (ET_Not t)
  then show ?case
    using ev_height_pos [of t]
    by (cases "ev_value slots t") (simp_all add: ev_run_append ev_push_snoc split: option.split)
next
  case (ET_Bin op l r)
  from ET_Bin.prems have fits: "length stack + ev_height l \<le> EVAL_STACK_SIZE"
    "length (stack @ [a]) + ev_height r \<le> EVAL_STACK_SIZE" for a
    by auto
  have room: "length stack < EVAL_STACK_SIZE" using fits(1) ev_height_pos [of l] by simp
  show ?case
  proof (cases "ev_value slots l")
    case (Inl e)
    with ET_Bin fits show ?thesis by (simp add: ev_run_append)
  next
    case l: (Inr a)
    with ET_Bin fits(1) have left: "ev_run slots (ev_code l) stack = Inr (stack @ [a])" by simp
    have right: "ev_run slots (ev_code r) (stack @ [a]) =
        res_bind (ev_value slots r) (\<lambda>b. Inr (stack @ [a, b]))"
      using ET_Bin.IH(2) [OF _ fits(2)] ET_Bin.prems(1) by simp
    show ?thesis
    proof (cases "ev_value slots r")
      case (Inl e)
      with l left right show ?thesis by (simp add: ev_run_append)
    next
      case (Inr b)
      then have "ev_run slots (ev_code (ET_Bin op l r)) stack =
          ev_execute_op slots op (stack @ [a, b])"
        using left right
        by (cases "ev_execute_op slots op (stack @ [a, b])") (simp_all add: ev_run_append)
      also have "\<dots> = res_bind (the (binary_fn op) a b) (\<lambda>v. Inr (stack @ [v]))"
        using ET_Bin.prems(1) room by (simp add: ev_execute_binary ev_binary_snoc)
      finally show ?thesis using l Inr by simp
    qed
  qed
qed (simp_all add: ev_push_snoc)

section \<open>Panics\<close>

lemma checked_div_None:
  "j \<noteq> 0 \<Longrightarrow> checked_div i j = None \<longleftrightarrow> sint i = i64_min \<and> sint j = -1"
  by (simp add: checked_div_def)

lemma checked_rem_None:
  "j \<noteq> 0 \<Longrightarrow> checked_rem i j = None \<longleftrightarrow> sint i = i64_min \<and> sint j = -1"
  by (simp add: checked_rem_def)

lemma sint_consts:
  "sint i = i64_min \<longleftrightarrow> i = (word_of_int i64_min :: i64)" "sint j = -1 \<longleftrightarrow> j = (-1 :: i64)"
  using word_of_int_eq_i64 [of i64_min i] word_of_int_eq_i64 [of "-1" j]
  by (auto simp: in_i64_def i64_min_def i64_max_def)

lemma num_op_panic:
  "num_op name fi ff a b = Inl VmPanic \<longleftrightarrow>
     (\<exists>i j. a = EV_Int i \<and> b = EV_Int j \<and> fi i j = Inl VmPanic) \<or>
     (\<exists>x y. (as_int a = None \<or> as_int b = None) \<and> float_args name a b = Inr (x, y) \<and> ff x y = Inl VmPanic)"
  by (cases a; cases b) (auto simp: num_op_def float_args_def res_simps)

lemma binary_fn_panic:
  assumes "binary_fn op = Some f"
  shows "f a b = Inl VmPanic \<longleftrightarrow>
    op \<in> {EO_Div, EO_Mod} \<and> a = EV_Int (word_of_int i64_min) \<and> b = EV_Int (- 1)"
proof -
  have "i64_div i j = Inl VmPanic \<longleftrightarrow> i = word_of_int i64_min \<and> j = - 1"
    "i64_rem i j = Inl VmPanic \<longleftrightarrow> i = word_of_int i64_min \<and> j = - 1" for i j
    by (cases "checked_div i j"; cases "checked_rem i j";
        use checked_div_None [of j i] checked_rem_None [of j i] in
          \<open>auto simp: i64_div_def i64_rem_def sint_consts\<close>)+
  with assms show ?thesis
    by (cases op) (auto simp: num_op_panic split: if_splits)
qed

lemma ev_binary_panic:
  "ev_binary f stack = Inl VmPanic \<longleftrightarrow> (\<exists>s a b. stack = s @ [a, b] \<and> f a b = Inl VmPanic)"
proof (cases stack rule: rev_cases)
  case Nil
  then show ?thesis by (simp add: ev_binary_def ev_pop_def)
next
  case (snoc s1 b)
  show ?thesis
  proof (cases s1 rule: rev_cases)
    case Nil
    with snoc show ?thesis by (simp add: ev_binary_def ev_pop_def)
  next
    case (snoc s a)
    with \<open>stack = s1 @ [b]\<close> show ?thesis
      using ev_pop_snoc [of "s @ [a]" b]
      by (cases "f a b") (auto simp: ev_binary_def ev_push_def)
  qed
qed

section \<open>Properties\<close>

text \<open>C23. An expression whose code needs at most 64 stack entries evaluates to its value: running
  the postfix code gives exactly the value or the first error of the expression tree.\<close>

theorem ev_execute_tree:
  assumes "ev_tree_wf t" and "ev_height t \<le> EVAL_STACK_SIZE"
  shows "ev_execute (ev_code t) slots = ev_value slots t"
  using ev_run_tree [of t "[]" slots] ev_pop_snoc [of "[]"] assms
  by (cases "ev_value slots t") (simp_all add: ev_execute_def)

lemma ev_execute_tree_witness:
  "ev_execute [EO_LoadSlot 0, EO_LoadConst (EV_Int 2), EO_Gt] [EV_Int 5] = Inr (EV_Bool True)"
  using ev_execute_tree [of "ET_Bin EO_Gt (ET_Slot 0) (ET_Const (EV_Int 2))" "[EV_Int 5]"]
  by (simp add: EVAL_STACK_SIZE_def num_op_def)

text \<open>The VM panics exactly when \<open>/\<close> or \<open>%\<close> meets \<open>i64::MIN\<close> and \<open>-1\<close> on top of the stack;
  every other operation returns a value or an error.\<close>

theorem ev_panic_iff:
  "ev_execute_op slots op stack = Inl VmPanic \<longleftrightarrow>
     op \<in> {EO_Div, EO_Mod} \<and>
     (\<exists>s. stack = s @ [EV_Int (word_of_int i64_min), EV_Int (- 1)])"
proof (cases "binary_fn op")
  case None
  then show ?thesis
    by (cases op) (auto simp: ev_push_def ev_pop_def res_simps split: if_splits)
next
  case (Some f)
  then show ?thesis
    by (auto simp: ev_execute_binary ev_binary_panic binary_fn_panic)
qed

end
