(* ===== verification/Asl_Machine.thy ===== *)
theory Asl_Machine
  imports Asl_Types Eval_Vm
begin

text \<open>
  States and state machines (\<open>asl/task_state.rs\<close>, \<open>pass.rs\<close>, \<open>choice.rs\<close>, \<open>switch.rs\<close>,
  \<open>map.rs\<close>, \<open>parallel.rs\<close>, \<open>state.rs\<close>, \<open>machine.rs\<close>): the validated constructors, the nine
  kinds of state, the machine as an ordered map of named states, its \<open>validate\<close>, and the
  choice a Switch state makes. An \<open>IndexMap\<close> is the list of its entries, in order, with
  distinct keys.
\<close>

section \<open>The kinds of state\<close>

record task_state =
  tk_image :: image_ref
  tk_run :: shell_script
  tk_env :: "(string \<times> expression) list"
  tk_var :: "variable_name option"
  tk_timeout :: "u64 option"
  tk_heartbeat :: "u64 option"
  tk_retry :: "retrier list"
  tk_catch :: "catcher list"
  tk_transition :: transition

datatype task_state_error =
    TS_TimeoutTooSmall u64
  | TS_HeartbeatTooSmall u64
  | TS_HeartbeatExceedsTimeout u64 u64
  | TS_EmptyEnvKey

text \<open>The checks of \<open>TaskState::new\<close>, in the order the source makes them.\<close>

definition too_small :: "u64 option \<Rightarrow> (u64 \<Rightarrow> 'e) \<Rightarrow> 'e + unit" where
  "too_small t e = (case t of Some n \<Rightarrow> if n < 1 then Inl (e n) else Inr () | None \<Rightarrow> Inr ())"

definition task_state_new :: "task_state \<Rightarrow> task_state_error + task_state" where
  "task_state_new t =
     (if [] \<in> fst ` set (tk_env t) then Inl TS_EmptyEnvKey
      else res_bind (too_small (tk_timeout t) TS_TimeoutTooSmall) (\<lambda>_.
           res_bind (too_small (tk_heartbeat t) TS_HeartbeatTooSmall) (\<lambda>_.
           case (tk_timeout t, tk_heartbeat t) of
             (Some tm, Some h) \<Rightarrow> if h \<ge> tm then Inl (TS_HeartbeatExceedsTimeout h tm) else Inr t
           | _ \<Rightarrow> Inr t)))"

record pass_state =
  ps_result :: "json option"
  ps_transition :: transition

record choice_rule =
  cr_condition :: expression
  cr_next :: state_name
  cr_assign :: "(variable_name \<times> expression) list option"

record choice_state =
  cs_choices :: "choice_rule list"
  cs_default :: "state_name option"

datatype choice_state_error = EmptyChoices

definition choice_state_new ::
    "choice_rule list \<Rightarrow> state_name option \<Rightarrow> choice_state_error + choice_state" where
  "choice_state_new choices dflt =
     (if choices = [] then Inl EmptyChoices
      else Inr \<lparr>cs_choices = choices, cs_default = dflt\<rparr>)"

record switch_case =
  sc_ops :: "eval_op list"
  sc_target :: state_name

record switch_state =
  sw_cases :: "switch_case list"
  sw_default :: "state_name option"

datatype switch_state_error = EmptyCases

definition switch_state_new ::
    "switch_case list \<Rightarrow> state_name option \<Rightarrow> switch_state_error + switch_state" where
  "switch_state_new cases dflt =
     (if cases = [] then Inl EmptyCases else Inr \<lparr>sw_cases = cases, sw_default = dflt\<rparr>)"

text \<open>
  A case is taken when its code runs to \<open>true\<close>; a VM error counts as false, a panic unwinds
  through the evaluation (\<open>Inl ()\<close>).
\<close>

definition switch_case_evaluate :: "switch_case \<Rightarrow> eval_value list \<Rightarrow> unit + bool" where
  "switch_case_evaluate c slots =
     (case ev_execute (sc_ops c) slots of
        Inl VmPanic \<Rightarrow> Inl ()
      | Inr (EV_Bool True) \<Rightarrow> Inr True
      | _ \<Rightarrow> Inr False)"

fun first_case :: "switch_case list \<Rightarrow> eval_value list \<Rightarrow> state_name option \<Rightarrow> unit + state_name option" where
  "first_case [] slots dflt = Inr dflt"
| "first_case (c # cs) slots dflt =
     res_bind (switch_case_evaluate c slots) (\<lambda>b.
       if b then Inr (Some (sc_target c)) else first_case cs slots dflt)"

definition switch_evaluate :: "switch_state \<Rightarrow> eval_value list \<Rightarrow> unit + state_name option" where
  "switch_evaluate s slots = first_case (sw_cases s) slots (sw_default s)"

datatype map_state_error =
    MS_InvalidToleratedFailurePercentage f64
  | MS_NonFiniteToleratedFailurePercentage

definition validate_tolerance :: "f64 option \<Rightarrow> map_state_error + unit" where
  "validate_tolerance pct =
     (case pct of
        Some p \<Rightarrow>
          if \<not> f64_is_finite p then Inl MS_NonFiniteToleratedFailurePercentage
          else if \<not> (f64_le (f64_of_int 0) p \<and> f64_le p (f64_of_int 100))
          then Inl (MS_InvalidToleratedFailurePercentage p)
          else Inr ()
      | None \<Rightarrow> Inr ())"

datatype parallel_state_error = EmptyBranches

text \<open>Machines contain states and Map and Parallel states contain machines.\<close>

datatype machine =
  StateMachine
    (sm_comment: "string option")
    (sm_start_at: state_name)
    (sm_states: "(state_name \<times> state) list")
    (sm_timeout: "u64 option")
and state =
  State
    (st_comment: "string option")
    (st_input_path: "json_path option")
    (st_output_path: "json_path option")
    (st_assign: "(variable_name \<times> expression) list option")
    (st_kind: state_kind)
and state_kind =
    Task task_state
  | Pass pass_state
  | Choice choice_state
  | Switch switch_state
  | Wait wait_state
  | Succeed
  | Fail fail_state
  | Parallel "machine list" transition "bool option"
  | Map expression machine "u32 option" transition "retrier list" "catcher list" "f64 option"

definition state_new :: "state_kind \<Rightarrow> state" where
  "state_new kind = State None None None None kind"

definition machine_new :: "state_name \<Rightarrow> (state_name \<times> state) list \<Rightarrow> machine" where
  "machine_new start_at states = StateMachine None start_at states None"

fun with_comment :: "string \<Rightarrow> machine \<Rightarrow> machine" where
  "with_comment c (StateMachine _ s m t) = StateMachine (Some c) s m t"

fun with_timeout :: "u64 \<Rightarrow> machine \<Rightarrow> machine" where
  "with_timeout n (StateMachine c s m _) = StateMachine c s m (Some n)"

definition parallel_new ::
    "machine list \<Rightarrow> transition \<Rightarrow> bool option \<Rightarrow> parallel_state_error + state_kind" where
  "parallel_new branches t fail_fast =
     (if branches = [] then Inl EmptyBranches else Inr (Parallel branches t fail_fast))"

definition map_new ::
    "expression \<Rightarrow> machine \<Rightarrow> u32 option \<Rightarrow> transition \<Rightarrow> retrier list \<Rightarrow> catcher list \<Rightarrow> f64 option
      \<Rightarrow> map_state_error + state_kind" where
  "map_new items_path processor max_concurrency t retry catch pct =
     res_bind (validate_tolerance pct) (\<lambda>_.
       Inr (Map items_path processor max_concurrency t retry catch pct))"

fun is_terminal :: "state_kind \<Rightarrow> bool" where
  "is_terminal Succeed = True"
| "is_terminal (Fail _) = True"
| "is_terminal _ = False"

fun transition_of :: "state_kind \<Rightarrow> transition option" where
  "transition_of (Task s) = Some (tk_transition s)"
| "transition_of (Pass s) = Some (ps_transition s)"
| "transition_of (Wait s) = Some (ws_transition s)"
| "transition_of (Parallel _ t _) = Some t"
| "transition_of (Map _ _ _ t _ _ _) = Some t"
| "transition_of _ = None"

section \<open>Validation\<close>

datatype machine_error =
    EmptyStates
  | StartAtNotFound state_name
  | TransitionTargetNotFound state_name state_name
  | ChoiceTargetNotFound state_name state_name
  | DefaultTargetNotFound state_name state_name
  | NoTerminalState

definition get_state :: "machine \<Rightarrow> state_name \<Rightarrow> state option" where
  "get_state m name = map_of (sm_states m) name"

definition contains_key :: "machine \<Rightarrow> state_name \<Rightarrow> bool" where
  "contains_key m name \<longleftrightarrow> get_state m name \<noteq> None"

text \<open>Each check pushes its errors behind those already found.\<close>

definition check_start_at :: "machine \<Rightarrow> machine_error list \<Rightarrow> machine_error list" where
  "check_start_at m errors =
     (if \<not> contains_key m (sm_start_at m) then errors @ [StartAtNotFound (sm_start_at m)]
      else errors)"

definition check_transitions :: "machine \<Rightarrow> machine_error list \<Rightarrow> machine_error list" where
  "check_transitions m errors = errors @
     concat (map (\<lambda>(name, state).
       case transition_of (st_kind state) of
         Some (Next target) \<Rightarrow>
           if \<not> contains_key m target then [TransitionTargetNotFound name target] else []
       | _ \<Rightarrow> []) (sm_states m))"

definition check_choice_targets :: "machine \<Rightarrow> machine_error list \<Rightarrow> machine_error list" where
  "check_choice_targets m errors = errors @
     concat (map (\<lambda>(name, state).
       case st_kind state of
         Choice cs \<Rightarrow>
           concat (map (\<lambda>rule.
             if \<not> contains_key m (cr_next rule) then [ChoiceTargetNotFound name (cr_next rule)] else [])
             (cs_choices cs)) @
           (case cs_default cs of
              Some dflt \<Rightarrow>
                if \<not> contains_key m dflt then [DefaultTargetNotFound name dflt] else []
            | None \<Rightarrow> [])
       | _ \<Rightarrow> []) (sm_states m))"

definition has_terminal :: "machine \<Rightarrow> bool" where
  "has_terminal m \<longleftrightarrow>
     list_ex (\<lambda>(_, state). is_terminal (st_kind state) \<or> transition_of (st_kind state) = Some End)
       (sm_states m)"

definition validate :: "machine \<Rightarrow> machine_error list + unit" where
  "validate m =
     (if sm_states m = [] then Inl [EmptyStates]
      else let errors = check_choice_targets m (check_transitions m (check_start_at m []));
               errors = (if \<not> has_terminal m then errors @ [NoTerminalState] else errors)
        in if errors = [] then Inr () else Inl errors)"

section \<open>Switch takes the first case that holds\<close>

lemma first_case_Inr:
  "first_case cs slots dflt = Inr r \<longleftrightarrow>
     (\<exists>pre c post. cs = pre @ c # post \<and> (\<forall>p \<in> set pre. switch_case_evaluate p slots = Inr False) \<and>
        switch_case_evaluate c slots = Inr True \<and> r = Some (sc_target c)) \<or>
     ((\<forall>c \<in> set cs. switch_case_evaluate c slots = Inr False) \<and> r = dflt)"
proof (induction cs)
  case (Cons c cs)
  consider "switch_case_evaluate c slots = Inl ()" | "switch_case_evaluate c slots = Inr True"
    | "switch_case_evaluate c slots = Inr False"
    by (metis (full_types) sum.exhaust unit.exhaust)
  then show ?case
  proof cases
    case 3
    have "(\<exists>pre x post. c # cs = pre @ x # post \<and> (\<forall>p \<in> set pre. switch_case_evaluate p slots = Inr False) \<and>
        switch_case_evaluate x slots = Inr True \<and> r = Some (sc_target x)) \<longleftrightarrow>
      (\<exists>pre x post. cs = pre @ x # post \<and> (\<forall>p \<in> set pre. switch_case_evaluate p slots = Inr False) \<and>
        switch_case_evaluate x slots = Inr True \<and> r = Some (sc_target x))" (is "?l \<longleftrightarrow> ?r")
    proof
      assume ?l
      then obtain pre x post where "c # cs = pre @ x # post"
        "\<forall>p \<in> set pre. switch_case_evaluate p slots = Inr False"
        "switch_case_evaluate x slots = Inr True" "r = Some (sc_target x)" by blast
      with 3 show ?r by (cases pre) auto
    next
      assume ?r
      with 3 show ?l by (metis append_Cons set_ConsD)
    qed
    with 3 Cons show ?thesis by simp
  next
    case 2
    then show ?thesis
      by (auto simp: Cons_eq_append_conv intro: exI [of _ "[]"])
  qed (auto simp: Cons_eq_append_conv)
qed auto

section \<open>Properties\<close>

text \<open>A Switch goes to the target of its first case whose code yields \<open>true\<close>, every case before
  it having yielded something else or an error, and to its default when no case holds.\<close>

theorem switch_first_match:
  "switch_evaluate s slots = Inr r \<longleftrightarrow>
     (\<exists>pre c post. sw_cases s = pre @ c # post \<and>
        list_all (\<lambda>p. switch_case_evaluate p slots = Inr False) pre \<and>
        switch_case_evaluate c slots = Inr True \<and> r = Some (sc_target c)) \<or>
     (list_all (\<lambda>c. switch_case_evaluate c slots = Inr False) (sw_cases s) \<and> r = sw_default s)"
  unfolding switch_evaluate_def first_case_Inr list_all_iff by (rule refl)

end
