(* ===== verification/Asl_Analysis.thy ===== *)
theory Asl_Analysis
  imports Asl_Machine
begin

text \<open>
  The deep analysis of \<open>asl/validation.rs\<close>: the graph of a machine, breadth-first search for
  the reachable states, depth-first search with colours for cycles, dead ends, and the report.
  The reference is the edge relation \<open>edges\<close> and its closures.
\<close>

section \<open>The graph\<close>

definition outgoing_targets :: "state_kind \<Rightarrow> state_name list" where
  "outgoing_targets kind =
     (case transition_of kind of Some (Next target) \<Rightarrow> [target] | _ \<Rightarrow> []) @
     (case kind of
        Choice cs \<Rightarrow> map cr_next (cs_choices cs) @
          (case cs_default cs of Some dflt \<Rightarrow> [dflt] | None \<Rightarrow> [])
      | _ \<Rightarrow> [])"

definition targets_of :: "machine \<Rightarrow> state_name \<Rightarrow> state_name list" where
  "targets_of m name =
     (case get_state m name of Some state \<Rightarrow> outgoing_targets (st_kind state) | None \<Rightarrow> [])"

definition edges :: "machine \<Rightarrow> (state_name \<times> state_name) set" where
  "edges m = {(a, b). b \<in> set (targets_of m a)}"

definition state_names :: "machine \<Rightarrow> state_name set" where
  "state_names m = fst ` set (sm_states m)"

lemma contains_key_iff: "contains_key m n \<longleftrightarrow> n \<in> state_names m"
  by (auto simp: contains_key_def get_state_def state_names_def map_of_eq_None_iff)

lemma edges_iff [simp]: "(a, b) \<in> edges m \<longleftrightarrow> b \<in> set (targets_of m a)"
  by (simp add: edges_def)

lemma edge_from_state: "b \<in> set (targets_of m a) \<Longrightarrow> a \<in> state_names m"
  by (rule ccontr) (simp add: targets_of_def flip: contains_key_iff add: contains_key_def)

section \<open>Breadth-first search\<close>

fun visit_targets ::
    "state_name list \<Rightarrow> state_name set \<Rightarrow> state_name list \<Rightarrow> state_name set \<times> state_name list" where
  "visit_targets [] visited queue = (visited, queue)"
| "visit_targets (t # ts) visited queue =
     (if t \<in> visited then visit_targets ts visited queue
      else visit_targets ts (insert t visited) (queue @ [t]))"

definition all_targets :: "machine \<Rightarrow> state_name set" where
  "all_targets m = (\<Union>n \<in> state_names m. set (targets_of m n))"

lemma finite_all_targets [simp]: "finite (all_targets m)"
  by (simp add: all_targets_def state_names_def)

lemma targets_of_subset: "set (targets_of m n) \<subseteq> all_targets m"
  by (auto simp: all_targets_def dest: edge_from_state)

lemma visit_targets_visited: "fst (visit_targets ts visited queue) = visited \<union> set ts"
  by (induction ts visited queue rule: visit_targets.induct) auto

lemma visit_targets_queue:
  "set (snd (visit_targets ts visited queue)) = set queue \<union> (set ts - visited)"
  by (induction ts visited queue rule: visit_targets.induct) auto

lemma visit_targets_known: "set ts \<subseteq> visited \<Longrightarrow> visit_targets ts visited queue = (visited, queue)"
  by (induction ts visited queue rule: visit_targets.induct) auto

function bfs :: "machine \<Rightarrow> state_name set \<Rightarrow> state_name list \<Rightarrow> state_name set" where
  "bfs m visited [] = visited"
| "bfs m visited (current # queue) =
     (let (visited', queue') = visit_targets (targets_of m current) visited queue
      in bfs m visited' queue')"
  by pat_completeness auto
termination
proof (relation "measures [\<lambda>(m, visited, queue). card (all_targets m - visited),
    \<lambda>(m, visited, queue). length queue]", goal_cases)
  case (2 m visited current queue x visited' queue')
  let ?ts = "targets_of m current"
  from 2 have eq: "visit_targets ?ts visited queue = (visited', queue')" by simp
  then have v: "visited' = visited \<union> set ?ts" using visit_targets_visited [of ?ts visited queue] by simp
  show ?case
  proof (cases "set ?ts \<subseteq> visited")
    case True
    with eq show ?thesis by (simp add: visit_targets_known)
  next
    case False
    then have "all_targets m - visited' \<subset> all_targets m - visited"
      using targets_of_subset [of m current] v by blast
    then have "card (all_targets m - visited') < card (all_targets m - visited)"
      by (intro psubset_card_mono) auto
    then show ?thesis by simp
  qed
qed simp

definition reachable_set :: "machine \<Rightarrow> state_name set" where
  "reachable_set m = bfs m {sm_start_at m} [sm_start_at m]"

text \<open>The queue holds the visited states whose targets are still to be looked at.\<close>

lemma bfs_grows: "visited \<subseteq> bfs m visited queue"
proof (induction m visited queue rule: bfs.induct)
  case (2 m visited current queue)
  obtain visited' queue' where eq: "visit_targets (targets_of m current) visited queue = (visited', queue')"
    by (cases "visit_targets (targets_of m current) visited queue")
  then have "visited \<subseteq> visited'"
    using visit_targets_visited [of "targets_of m current" visited queue] by auto
  also have "\<dots> \<subseteq> bfs m visited' queue'" using "2.IH" [OF refl, of visited' queue'] eq by simp
  finally show ?case using eq by simp
qed simp

lemma bfs_closed:
  assumes "set queue \<subseteq> visited"
    and "\<And>a b. a \<in> visited - set queue \<Longrightarrow> (a, b) \<in> edges m \<Longrightarrow> b \<in> visited"
    and "a \<in> bfs m visited queue" and "(a, b) \<in> edges m"
  shows "b \<in> bfs m visited queue"
  using assms
proof (induction m visited queue rule: bfs.induct)
  case (2 m visited current queue)
  let ?ts = "targets_of m current"
  obtain visited' queue' where eq: "visit_targets ?ts visited queue = (visited', queue')"
    by (cases "visit_targets ?ts visited queue")
  then have v: "visited' = visited \<union> set ?ts" and q: "set queue' = set queue \<union> (set ?ts - visited)"
    using visit_targets_visited [of ?ts visited queue] visit_targets_queue [of ?ts visited queue]
    by simp_all
  have "b \<in> bfs m visited' queue'"
  proof (rule "2.IH" [OF refl])
    show "(visited', queue') = visit_targets ?ts visited queue" using eq by simp
    show "set queue' \<subseteq> visited'" using "2.prems"(1) v q by auto
    show "b' \<in> visited'" if "a' \<in> visited' - set queue'" "(a', b') \<in> edges m" for a' b'
    proof (cases "a' = current")
      case True
      with that v show ?thesis by simp
    next
      case False
      with that v q have "a' \<in> visited - set (current # queue)" by auto
      with that "2.prems"(2) v show ?thesis by blast
    qed
    show "a \<in> bfs m visited' queue'" using "2.prems"(3) eq by simp
    show "(a, b) \<in> edges m" by (fact "2.prems"(4))
  qed
  with eq show ?case by simp
next
  case (1 m visited)
  then show ?case by (metis Diff_empty bfs.simps(1) list.set(1))
qed

lemma bfs_reached:
  "bfs m visited queue \<subseteq> visited \<union> (edges m)\<^sup>* `` set queue"
proof (induction m visited queue rule: bfs.induct)
  case (2 m visited current queue)
  let ?ts = "targets_of m current"
  obtain visited' queue' where eq: "visit_targets ?ts visited queue = (visited', queue')"
    by (cases "visit_targets ?ts visited queue")
  then have v: "visited' = visited \<union> set ?ts" and q: "set queue' = set queue \<union> (set ?ts - visited)"
    using visit_targets_visited [of ?ts visited queue] visit_targets_queue [of ?ts visited queue]
    by simp_all
  have "bfs m visited' queue' \<subseteq> visited' \<union> (edges m)\<^sup>* `` set queue'"
    using "2.IH" [OF refl, of visited' queue'] eq by simp
  also have "\<dots> \<subseteq> visited \<union> (edges m)\<^sup>* `` set (current # queue)"
  proof -
    have "set ?ts \<subseteq> (edges m)\<^sup>* `` {current}" by (auto simp: r_into_rtrancl)
    moreover from this have "(edges m)\<^sup>* `` set ?ts \<subseteq> (edges m)\<^sup>* `` {current}"
      by (auto intro: rtrancl_trans)
    ultimately show ?thesis unfolding v q by auto
  qed
  finally show ?case using eq by simp
qed simp

lemma reachable_set_eq: "reachable_set m = (edges m)\<^sup>* `` {sm_start_at m}"
proof
  show "reachable_set m \<subseteq> (edges m)\<^sup>* `` {sm_start_at m}"
    using bfs_reached [of m "{sm_start_at m}" "[sm_start_at m]"] by (auto simp: reachable_set_def)
  have "n \<in> reachable_set m" if "(sm_start_at m, n) \<in> (edges m)\<^sup>*" for n
    using that
  proof induction
    case base
    then show ?case using bfs_grows unfolding reachable_set_def by blast
  next
    case (step a b)
    then show ?case
      using bfs_closed [of "[sm_start_at m]" "{sm_start_at m}" m a b]
      by (auto simp: reachable_set_def)
  qed
  then show "(edges m)\<^sup>* `` {sm_start_at m} \<subseteq> reachable_set m" by auto
qed

section \<open>Depth-first search\<close>

datatype color = White | Gray | Black

record dfs_state =
  df_color :: "(state_name \<times> color) list"
  df_path :: "state_name list"
  df_cycles :: "state_name list list"

definition color_of :: "dfs_state \<Rightarrow> state_name \<Rightarrow> color option" where
  "color_of st = map_of (df_color st)"

definition white :: "dfs_state \<Rightarrow> state_name set" where
  "white st = {n. color_of st n = Some White}"

text \<open>What \<open>dfs_visit\<close> does before and after its loop over the targets.\<close>

definition enter :: "state_name \<Rightarrow> dfs_state \<Rightarrow> dfs_state" where
  "enter node st = st\<lparr>df_color := AList.update node Gray (df_color st), df_path := df_path st @ [node]\<rparr>"

definition leave :: "state_name \<Rightarrow> dfs_state \<Rightarrow> dfs_state" where
  "leave node st = st\<lparr>df_path := butlast (df_path st), df_color := AList.update node Black (df_color st)\<rparr>"

text \<open>A back edge: the path from the target's position on is a cycle.\<close>

definition report_cycle :: "state_name \<Rightarrow> dfs_state \<Rightarrow> dfs_state" where
  "report_cycle target st =
     (if target \<in> set (df_path st)
      then st\<lparr>df_cycles := df_cycles st @ [dropWhile (\<lambda>n. n \<noteq> target) (df_path st)]\<rparr>
      else st)"

lemma color_of_simps [simp]:
  "color_of (enter node st) = (color_of st)(node \<mapsto> Gray)"
  "color_of (leave node st) = (color_of st)(node \<mapsto> Black)"
  "color_of (report_cycle t st) = color_of st"
  by (auto simp: color_of_def enter_def leave_def report_cycle_def update_conv')

lemma path_simps [simp]:
  "df_path (enter node st) = df_path st @ [node]"
  "df_path (leave node st) = butlast (df_path st)"
  "df_path (report_cycle t st) = df_path st"
  by (simp_all add: enter_def leave_def report_cycle_def)

lemma cycles_simps [simp]:
  "df_cycles (enter node st) = df_cycles st"
  "df_cycles (leave node st) = df_cycles st"
  by (simp_all add: enter_def leave_def)

lemma finite_white [simp]: "finite (white st)"
  by (rule finite_subset [OF _ finite_dom_map_of [of "df_color st"]])
    (auto simp: white_def color_of_def)

lemma white_simps [simp]:
  "white (enter node st) = white st - {node}"
  "white (leave node st) = white st - {node}"
  "white (report_cycle t st) = white st"
  by (auto simp: white_def)

text \<open>The loop of \<open>dfs_visit\<close> over the targets, with the recursive call in place.\<close>

function dfs_targets :: "machine \<Rightarrow> state_name list \<Rightarrow> dfs_state \<Rightarrow> dfs_state" where
  "dfs_targets m [] st = st"
| "dfs_targets m (target # ts) st =
     (if \<not> contains_key m target then dfs_targets m ts st
      else case color_of st target of
        Some Gray \<Rightarrow> dfs_targets m ts (report_cycle target st)
      | Some White \<Rightarrow>
          dfs_targets m ts
            (leave target (dfs_targets m (targets_of m target) (enter target st)))
      | _ \<Rightarrow> dfs_targets m ts st)"
  by pat_completeness auto

lemma dfs_targets_white_dom:
  "dfs_targets_dom (m, ts, st) \<Longrightarrow> white (dfs_targets m ts st) \<subseteq> white st"
proof (induction m ts st rule: dfs_targets.pinduct)
  case (2 m target ts st)
  show ?case
  proof (cases "contains_key m target \<and> color_of st target = Some White")
    case True
    with 2 show ?thesis by (fastforce simp: dfs_targets.psimps)
  next
    case False
    with 2 show ?thesis
      by (cases "contains_key m target"; cases "color_of st target" rule: option.exhaust;
          auto simp: dfs_targets.psimps split: color.splits)
  qed
qed (simp add: dfs_targets.psimps)

termination dfs_targets
proof (relation "measures [\<lambda>(m, ts, st). card (white st), \<lambda>(m, ts, st). length ts]", goal_cases)
  case (4 m target ts st x)
  then have "target \<in> white st" by (simp add: white_def)
  then have "card (white st - {target}) < card (white st)" by (intro card_Diff1_less) auto
  then show ?case by simp
next
  case (5 m target ts st x)
  let ?inner = "dfs_targets m (targets_of m target) (enter target st)"
  have "white (leave target ?inner) \<subseteq> white st"
    using dfs_targets_white_dom [of m "targets_of m target" "enter target st"] 5 by auto
  then have "card (white (leave target ?inner)) \<le> card (white st)" by (intro card_mono) auto
  then show ?case by (simp add: le_less)
qed auto

declare dfs_targets.simps [simp del]

definition dfs_visit :: "machine \<Rightarrow> state_name \<Rightarrow> dfs_state \<Rightarrow> dfs_state" where
  "dfs_visit m node st = leave node (dfs_targets m (targets_of m node) (enter node st))"

text \<open>The loop, written as the source writes it.\<close>

lemma dfs_targets_Nil [simp]: "dfs_targets m [] st = st"
  by (simp add: dfs_targets.simps)

lemma dfs_targets_Cons:
  "dfs_targets m (target # ts) st = dfs_targets m ts
     (if \<not> contains_key m target then st
      else if color_of st target = Some Gray then report_cycle target st
      else if color_of st target = Some White then dfs_visit m target st
      else st)"
  by (auto simp: dfs_targets.simps dfs_visit_def split: option.splits color.splits)

fun dfs_roots :: "machine \<Rightarrow> state_name list \<Rightarrow> dfs_state \<Rightarrow> dfs_state" where
  "dfs_roots m [] st = st"
| "dfs_roots m (start # rest) st =
     dfs_roots m rest (if color_of st start = Some White then dfs_visit m start st else st)"

definition reachable_keys :: "machine \<Rightarrow> state_name set \<Rightarrow> state_name list" where
  "reachable_keys m reachable = filter (\<lambda>k. k \<in> reachable) (map fst (sm_states m))"

definition initial_dfs :: "machine \<Rightarrow> state_name set \<Rightarrow> dfs_state" where
  "initial_dfs m reachable =
     \<lparr>df_color = map (\<lambda>k. (k, White)) (reachable_keys m reachable), df_path = [], df_cycles = []\<rparr>"

definition detect_cycles :: "machine \<Rightarrow> state_name set \<Rightarrow> state_name list list" where
  "detect_cycles m reachable =
     df_cycles (dfs_roots m (reachable_keys m reachable) (initial_dfs m reachable))"

text \<open>The cases of the loop: nothing to do, a back edge, a tree edge.\<close>

lemma dfs_targets_rule [case_names Nil Skip Back Tree]:
  assumes "\<And>st. P [] st"
    and "\<And>t ts st. \<not> contains_key m t \<or> color_of st t \<notin> {Some Gray, Some White} \<Longrightarrow>
      dfs_targets m (t # ts) st = dfs_targets m ts st \<Longrightarrow> P ts st \<Longrightarrow> P (t # ts) st"
    and "\<And>t ts st. contains_key m t \<Longrightarrow> color_of st t = Some Gray \<Longrightarrow>
      dfs_targets m (t # ts) st = dfs_targets m ts (report_cycle t st) \<Longrightarrow>
      P ts (report_cycle t st) \<Longrightarrow> P (t # ts) st"
    and "\<And>t ts st. contains_key m t \<Longrightarrow> color_of st t = Some White \<Longrightarrow>
      dfs_targets m (t # ts) st = dfs_targets m ts (dfs_visit m t st) \<Longrightarrow>
      P (targets_of m t) (enter t st) \<Longrightarrow> P ts (dfs_visit m t st) \<Longrightarrow> P (t # ts) st"
  shows "P ts st"
  using assms
proof (induction m ts st rule: dfs_targets.induct)
  case (2 m t ts st)
  note IH = "2.IH" and steps = "2.prems"
  consider "\<not> contains_key m t" | "contains_key m t" "color_of st t = Some Gray"
    | "contains_key m t" "color_of st t = Some White"
    | "contains_key m t" "color_of st t = None" | "contains_key m t" "color_of st t = Some Black"
    by (metis color.exhaust option.exhaust)
  then show ?case
  proof cases
    case 1
    with IH(1) steps show ?thesis by (intro steps(2)) (auto simp: dfs_targets_Cons)
  next
    case 2
    with IH(5) steps show ?thesis by (intro steps(3)) (auto simp: dfs_targets_Cons)
  next
    case 3
    with IH(3,4) steps show ?thesis
      by (intro steps(4)) (auto simp: dfs_targets_Cons dfs_visit_def)
  next
    case 4
    with IH(2) steps show ?thesis by (intro steps(2)) (auto simp: dfs_targets_Cons)
  next
    case 5
    with IH(6) steps show ?thesis by (intro steps(2)) (auto simp: dfs_targets_Cons)
  qed
qed simp

section \<open>Every reported cycle is one\<close>

definition is_cycle :: "machine \<Rightarrow> state_name list \<Rightarrow> bool" where
  "is_cycle m c \<longleftrightarrow> c \<noteq> [] \<and> successively (\<lambda>a b. (a, b) \<in> edges m) c \<and> (last c, hd c) \<in> edges m"

definition gray :: "dfs_state \<Rightarrow> state_name set" where
  "gray st = {n. color_of st n = Some Gray}"

definition black :: "dfs_state \<Rightarrow> state_name set" where
  "black st = {n. color_of st n = Some Black}"

definition dfs_inv :: "machine \<Rightarrow> state_name set \<Rightarrow> dfs_state \<Rightarrow> bool" where
  "dfs_inv m R st \<longleftrightarrow>
     (\<forall>n. color_of st n \<noteq> None \<longleftrightarrow> n \<in> R \<inter> state_names m) \<and>
     set (df_path st) = gray st \<and> distinct (df_path st) \<and>
     successively (\<lambda>a b. (a, b) \<in> edges m) (df_path st) \<and>
     (\<forall>c \<in> set (df_cycles st). is_cycle m c \<and> set c \<subseteq> R)"

lemma color_sets [simp]:
  "gray (enter n st) = insert n (gray st)" "black (enter n st) = black st - {n}"
  "gray (leave n st) = gray st - {n}" "black (leave n st) = insert n (black st)"
  "gray (report_cycle n st) = gray st" "black (report_cycle n st) = black st"
  by (auto simp: gray_def black_def)

lemma enter_inv:
  assumes "dfs_inv m R st" and "color_of st t = Some White"
    and "df_path st = [] \<or> t \<in> set (targets_of m (last (df_path st)))"
  shows "dfs_inv m R (enter t st)"
proof -
  have "t \<notin> set (df_path st)" using assms(1,2) by (simp add: dfs_inv_def gray_def)
  moreover have "t \<in> R \<inter> state_names m" using assms(1,2) unfolding dfs_inv_def by blast
  ultimately show ?thesis
    using assms by (auto simp: dfs_inv_def successively_append_iff)
qed

lemma leave_inv:
  assumes "dfs_inv m R st" and "df_path st = p @ [t]"
  shows "dfs_inv m R (leave t st)"
proof -
  have "t \<in> gray st" using assms unfolding dfs_inv_def by auto
  then have "t \<in> R \<inter> state_names m" using assms(1) unfolding dfs_inv_def gray_def by blast
  then show ?thesis
    using assms by (auto simp: dfs_inv_def successively_append_iff)
qed

lemma report_cycle_inv:
  assumes "dfs_inv m R st" and "df_path st \<noteq> []" and "t \<in> set (targets_of m (last (df_path st)))"
  shows "dfs_inv m R (report_cycle t st)"
proof (cases "t \<in> set (df_path st)")
  case True
  define c where "c = dropWhile (\<lambda>n. n \<noteq> t) (df_path st)"
  obtain p where p: "df_path st = p @ c"
    unfolding c_def by (metis takeWhile_dropWhile_id)
  have c: "c \<noteq> []" using True by (auto simp: c_def)
  then have hd: "hd c = t" using hd_dropWhile [of "\<lambda>n. n \<noteq> t"] unfolding c_def by blast
  have "successively (\<lambda>a b. (a, b) \<in> edges m) (p @ c)"
    using assms(1) by (simp add: dfs_inv_def p)
  then have suc: "successively (\<lambda>a b. (a, b) \<in> edges m) c"
    by (simp add: successively_append_iff)
  have "last c = last (df_path st)" using p c by simp
  with c hd suc assms(3) have "is_cycle m c" by (simp add: is_cycle_def)
  moreover have "set (df_path st) \<subseteq> R"
  proof
    fix n assume "n \<in> set (df_path st)"
    then have "color_of st n \<noteq> None" using assms(1) by (simp add: dfs_inv_def gray_def)
    then show "n \<in> R" using assms(1) unfolding dfs_inv_def by blast
  qed
  then have "set c \<subseteq> R" using p by simp
  moreover have "df_cycles (report_cycle t st) = df_cycles st @ [c]"
    using True by (simp add: report_cycle_def c_def)
  moreover have "dfs_inv m R st" by (fact assms(1))
  ultimately show ?thesis
    unfolding dfs_inv_def color_sets color_of_simps path_simps by (simp only: set_append) auto
qed (use assms in \<open>simp add: report_cycle_def\<close>)

lemma dfs_targets_inv:
  assumes "dfs_inv m R st" and "df_path st \<noteq> []"
    and "set ts \<subseteq> set (targets_of m (last (df_path st)))"
  shows "dfs_inv m R (dfs_targets m ts st) \<and> df_path (dfs_targets m ts st) = df_path st"
  using assms
proof (induction ts st rule: dfs_targets_rule [where m = m])
  case (Back t ts st)
  then show ?case by (simp add: report_cycle_inv)
next
  case (Tree t ts st)
  let ?in = "dfs_targets m (targets_of m t) (enter t st)"
  have "dfs_inv m R (enter t st)" using enter_inv Tree by simp
  with Tree have inner: "dfs_inv m R ?in" "df_path ?in = df_path st @ [t]" by simp_all
  then have "dfs_inv m R (dfs_visit m t st)" "df_path (dfs_visit m t st) = df_path st"
    using leave_inv by (simp_all add: dfs_visit_def)
  with Tree show ?case by simp
qed auto

lemma dfs_visit_inv:
  assumes "dfs_inv m R st" and "color_of st t = Some White"
    and "df_path st = [] \<or> t \<in> set (targets_of m (last (df_path st)))"
  shows "dfs_inv m R (dfs_visit m t st) \<and> df_path (dfs_visit m t st) = df_path st"
proof -
  have "dfs_inv m R (enter t st)" by (rule enter_inv [OF assms])
  from dfs_targets_inv [OF this, of "targets_of m t"] show ?thesis
    by (simp add: dfs_visit_def leave_inv)
qed

section \<open>Every cycle is noticed\<close>

definition done_inv :: "machine \<Rightarrow> dfs_state \<Rightarrow> bool" where
  "done_inv m st \<longleftrightarrow>
     (\<forall>a \<in> black st. \<forall>b \<in> state_names m. (a, b) \<in> edges m \<longrightarrow> b \<in> black st) \<and>
     (\<forall>a \<in> black st. (a, a) \<notin> (edges m)\<^sup>+)"

lemma done_closed:
  assumes "done_inv m st" and "(a, b) \<in> (edges m)\<^sup>*" and "a \<in> black st" and "b \<in> state_names m"
  shows "b \<in> black st"
  using assms(2,4,3)
proof induction
  case (step b c)
  then have "b \<in> black st" using edge_from_state by simp
  with step assms(1) show ?case unfolding done_inv_def by blast
qed

lemma leave_done:
  assumes "done_inv m st" and "t \<notin> black st" and "t \<in> state_names m"
    and "set (targets_of m t) \<inter> state_names m \<subseteq> black st"
  shows "done_inv m (leave t st)"
proof -
  have "(t, t) \<notin> (edges m)\<^sup>+"
  proof
    assume "(t, t) \<in> (edges m)\<^sup>+"
    then obtain b where b: "(t, b) \<in> edges m" "(b, t) \<in> (edges m)\<^sup>*" by (meson tranclD)
    then have "b \<in> state_names m"
      using assms(3) edge_from_state by (metis converse_rtranclE edges_iff)
    with b assms(4) have "b \<in> black st" by auto
    with b done_closed [OF assms(1) b(2)] assms(2,3) show False by simp
  qed
  with assms show ?thesis by (auto simp: done_inv_def)
qed

lemma enter_done: "done_inv m st \<Longrightarrow> color_of st t = Some White \<Longrightarrow> done_inv m (enter t st)"
  unfolding done_inv_def by (auto simp: black_def)

lemma dfs_targets_cycles_grow: "prefix (df_cycles st) (df_cycles (dfs_targets m ts st))"
proof (induction ts st rule: dfs_targets_rule [where m = m])
  case (Back t ts st)
  moreover have "prefix (df_cycles st) (df_cycles (report_cycle t st))"
    by (simp add: report_cycle_def)
  ultimately show ?case by (auto intro: prefix_order.trans)
next
  case (Tree t ts st)
  then show ?case by (auto simp: dfs_visit_def intro: prefix_order.trans)
qed simp_all

lemma dfs_targets_done:
  assumes "dfs_inv m R st" and "df_path st \<noteq> []"
    and "set ts \<subseteq> set (targets_of m (last (df_path st)))" and "set ts \<subseteq> R"
    and "\<And>a b. a \<in> R \<Longrightarrow> (a, b) \<in> edges m \<Longrightarrow> b \<in> R"
    and "done_inv m st" and "df_cycles (dfs_targets m ts st) = df_cycles st"
  shows "done_inv m (dfs_targets m ts st) \<and> black st \<subseteq> black (dfs_targets m ts st) \<and>
    set ts \<inter> state_names m \<subseteq> black (dfs_targets m ts st)"
  using assms
proof (induction ts st rule: dfs_targets_rule [where m = m])
  case (Skip t ts st)
  have dom: "color_of st n \<noteq> None \<longleftrightarrow> n \<in> R \<inter> state_names m" for n
    using Skip.prems(1) by (simp add: dfs_inv_def)
  have "t \<in> state_names m \<Longrightarrow> t \<in> black st"
    using Skip.hyps(1) Skip.prems(4) dom [of t]
    by (cases "color_of st t") (auto simp: contains_key_iff black_def intro: color.exhaust)
  moreover have "done_inv m (dfs_targets m ts st) \<and> black st \<subseteq> black (dfs_targets m ts st) \<and>
      set ts \<inter> state_names m \<subseteq> black (dfs_targets m ts st)"
    using Skip by simp
  ultimately show ?case using Skip.hyps(2) by auto
next
  case (Back t ts st)
  then have "t \<in> set (df_path st)" by (simp add: dfs_inv_def gray_def)
  then have "length (df_cycles st) < length (df_cycles (report_cycle t st))"
    by (simp add: report_cycle_def)
  also have "\<dots> \<le> length (df_cycles (dfs_targets m ts (report_cycle t st)))"
    by (intro prefix_length_le dfs_targets_cycles_grow)
  finally show ?case using Back by simp
next
  case (Tree t ts st)
  let ?in = "dfs_targets m (targets_of m t) (enter t st)"
  let ?st = "dfs_visit m t st"
  have st: "?st = leave t ?in" by (simp add: dfs_visit_def)
  have "prefix (df_cycles st) (df_cycles ?in)"
    "prefix (df_cycles ?in) (df_cycles (dfs_targets m ts ?st))"
    using dfs_targets_cycles_grow [of "enter t st"] dfs_targets_cycles_grow [of ?st] st by simp_all
  with Tree.prems(7) Tree.hyps have same: "df_cycles ?in = df_cycles st"
    by (metis prefix_order.antisym)
  have t: "t \<in> R \<inter> state_names m" "set (targets_of m t) \<subseteq> R"
    using Tree.hyps(1) Tree.prems(4,5) by (auto simp: contains_key_iff)
  have ent: "dfs_inv m R (enter t st)" using enter_inv Tree by simp
  then have inner: "dfs_inv m R ?in" "df_path ?in = df_path st @ [t]"
    using dfs_targets_inv [of m R "enter t st" "targets_of m t"] by simp_all
  have rin: "done_inv m ?in" "black (enter t st) \<subseteq> black ?in"
    "set (targets_of m t) \<inter> state_names m \<subseteq> black ?in"
    using Tree.IH(1) [OF ent] t(2) same Tree.prems(5,6) Tree.hyps(2) by (auto simp: enter_done)
  have "t \<in> gray ?in" using inner unfolding dfs_inv_def by auto
  then have "t \<notin> black ?in" by (simp add: gray_def black_def)
  then have d: "done_inv m ?st" using leave_done [OF rin(1) _ _ rin(3)] t st by simp
  have i: "dfs_inv m R ?st" "df_path ?st = df_path st" using inner leave_inv st by simp_all
  have "done_inv m (dfs_targets m ts ?st) \<and> black ?st \<subseteq> black (dfs_targets m ts ?st) \<and>
      set ts \<inter> state_names m \<subseteq> black (dfs_targets m ts ?st)"
    using Tree.IH(2) [OF i(1)] i(2) d st same Tree.hyps(3) Tree.prems(2-5,7) by auto
  moreover have "black st \<subseteq> black ?st" "t \<in> black ?st"
    using rin(2) Tree.hyps(2) st by (auto simp: black_def)
  ultimately show ?case using Tree.hyps(3) by auto
qed simp

lemma dfs_visit_cycles_grow: "prefix (df_cycles st) (df_cycles (dfs_visit m t st))"
  using dfs_targets_cycles_grow [of "enter t st" m "targets_of m t"] by (simp add: dfs_visit_def)

lemma dfs_roots_inv:
  assumes "dfs_inv m R st" and "df_path st = []"
  shows "dfs_inv m R (dfs_roots m ks st) \<and> df_path (dfs_roots m ks st) = []"
  using assms
  by (induction m ks st rule: dfs_roots.induct) (use dfs_visit_inv in \<open>fastforce split: if_splits\<close>)+

lemma dfs_roots_cycles_grow: "prefix (df_cycles st) (df_cycles (dfs_roots m ks st))"
  by (induction m ks st rule: dfs_roots.induct)
    (auto intro: prefix_order.trans dfs_visit_cycles_grow)

lemma dfs_visit_done:
  assumes "dfs_inv m R st" and "df_path st = []" and "color_of st t = Some White"
    and "\<And>a b. a \<in> R \<Longrightarrow> (a, b) \<in> edges m \<Longrightarrow> b \<in> R"
    and "done_inv m st" and "df_cycles (dfs_visit m t st) = df_cycles st"
  shows "done_inv m (dfs_visit m t st) \<and> black st \<subseteq> black (dfs_visit m t st) \<and>
    t \<in> black (dfs_visit m t st)"
proof -
  let ?in = "dfs_targets m (targets_of m t) (enter t st)"
  have t: "t \<in> R \<inter> state_names m" using assms(1,3) unfolding dfs_inv_def by blast
  then have R: "set (targets_of m t) \<subseteq> R" using assms(4) by auto
  have ent: "dfs_inv m R (enter t st)" using enter_inv assms(1-3) by simp
  then have inner: "dfs_inv m R ?in" "df_path ?in = [t]"
    using dfs_targets_inv [of m R "enter t st" "targets_of m t"] assms(2) by simp_all
  have rin: "done_inv m ?in" "black (enter t st) \<subseteq> black ?in"
    "set (targets_of m t) \<inter> state_names m \<subseteq> black ?in"
    using dfs_targets_done [OF ent _ _ R assms(4)] assms(2,3,5,6) R
    by (auto simp: enter_done dfs_visit_def)
  have "t \<in> gray ?in" using inner unfolding dfs_inv_def by auto
  then have "t \<notin> black ?in" by (simp add: gray_def black_def)
  then have "done_inv m (leave t ?in)" using leave_done [OF rin(1) _ _ rin(3)] t by simp
  with rin(2) assms(3) show ?thesis by (auto simp: dfs_visit_def black_def)
qed

lemma dfs_roots_done:
  assumes "dfs_inv m R st" and "df_path st = []"
    and "\<And>a b. a \<in> R \<Longrightarrow> (a, b) \<in> edges m \<Longrightarrow> b \<in> R"
    and "done_inv m st" and "df_cycles (dfs_roots m ks st) = df_cycles st"
    and "set ks \<subseteq> R \<inter> state_names m"
  shows "done_inv m (dfs_roots m ks st) \<and> black st \<subseteq> black (dfs_roots m ks st) \<and>
    set ks \<subseteq> black (dfs_roots m ks st)"
  using assms
proof (induction m ks st rule: dfs_roots.induct)
  case (2 m k ks st)
  let ?st = "if color_of st k = Some White then dfs_visit m k st else st"
  have "prefix (df_cycles st) (df_cycles ?st)"
    "prefix (df_cycles ?st) (df_cycles (dfs_roots m ks ?st))"
    using dfs_visit_cycles_grow dfs_roots_cycles_grow by auto
  with "2.prems"(5) have same: "df_cycles ?st = df_cycles st"
    by (metis dfs_roots.simps(2) prefix_order.antisym)
  have inv: "dfs_inv m R ?st" "df_path ?st = []"
    using dfs_visit_inv [of m R st k] "2.prems"(1,2) by auto
  have k: "done_inv m ?st \<and> black st \<subseteq> black ?st \<and> k \<in> black ?st"
  proof (cases "color_of st k = Some White")
    case True
    then show ?thesis
      using dfs_visit_done [OF "2.prems"(1,2) True "2.prems"(3,4)] same by simp
  next
    case False
    have "color_of st k \<noteq> None" using "2.prems"(1,6) unfolding dfs_inv_def by auto
    moreover have "k \<notin> gray st" using "2.prems"(1,2) by (simp add: dfs_inv_def)
    ultimately have "k \<in> black st"
      using False by (auto simp: gray_def black_def intro: color.exhaust)
    with False "2.prems"(4) show ?thesis by simp
  qed
  have "done_inv m (dfs_roots m ks ?st) \<and> black ?st \<subseteq> black (dfs_roots m ks ?st) \<and>
      set ks \<subseteq> black (dfs_roots m ks ?st)"
    using "2.IH" [OF inv "2.prems"(3)] k "2.prems"(5,6) same by auto
  with k show ?case by (auto simp del: if_split)
qed simp

lemma initial_inv: "dfs_inv m R (initial_dfs m R)"
proof -
  have "color_of (initial_dfs m R) n = (if n \<in> R \<inter> state_names m then Some White else None)" for n
    by (auto simp: initial_dfs_def color_of_def reachable_keys_def state_names_def
        map_of_map_restrict restrict_map_def map_of_eq_None_iff)
  then show ?thesis by (auto simp: dfs_inv_def gray_def) (simp_all add: initial_dfs_def)
qed

lemma initial_done: "done_inv m (initial_dfs m R)"
proof -
  have "black (initial_dfs m R) = {}"
    by (auto simp: black_def initial_dfs_def color_of_def dest!: map_of_SomeD)
  then show ?thesis by (simp add: done_inv_def)
qed

lemma is_cycle_trancl:
  assumes "is_cycle m c"
  shows "(hd c, hd c) \<in> (edges m)\<^sup>+"
proof -
  have "(hd c, last c) \<in> (edges m)\<^sup>*" if "c \<noteq> []" "successively (\<lambda>a b. (a, b) \<in> edges m) c" for c
    using that
    by (induction c rule: induct_list012) (auto intro: converse_rtrancl_into_rtrancl simp del: edges_iff)
  with assms show ?thesis by (auto simp: is_cycle_def simp del: edges_iff intro: rtrancl_into_trancl1)
qed

lemma detect_cycles_sound: "c \<in> set (detect_cycles m R) \<Longrightarrow> is_cycle m c \<and> set c \<subseteq> R"
  using dfs_roots_inv [OF initial_inv, of m R] 
  by (auto simp: detect_cycles_def dfs_inv_def initial_dfs_def)

lemma detect_cycles_complete:
  assumes "detect_cycles m R = []" and "\<And>a b. a \<in> R \<Longrightarrow> (a, b) \<in> edges m \<Longrightarrow> b \<in> R" and "n \<in> R"
  shows "(n, n) \<notin> (edges m)\<^sup>+"
proof (cases "n \<in> state_names m")
  case True
  have "set (reachable_keys m R) = R \<inter> state_names m"
    by (auto simp: reachable_keys_def state_names_def)
  with True assms dfs_roots_done [OF initial_inv, of m R "reachable_keys m R"] initial_done
  show ?thesis
    by (auto simp: detect_cycles_def done_inv_def initial_dfs_def)
next
  case False
  then show ?thesis using edge_from_state by (auto dest!: tranclD)
qed

lemma reachable_closed:
  "a \<in> reachable_set m \<Longrightarrow> (a, b) \<in> edges m \<Longrightarrow> b \<in> reachable_set m"
  by (auto simp: reachable_set_eq simp del: edges_iff intro: rtrancl_into_rtrancl)

lemma detect_cycles_iff:
  "detect_cycles m (reachable_set m) = [] \<longleftrightarrow>
     (\<forall>n \<in> reachable_set m. (n, n) \<notin> (edges m)\<^sup>+)"
proof
  assume "detect_cycles m (reachable_set m) = []"
  then show "\<forall>n \<in> reachable_set m. (n, n) \<notin> (edges m)\<^sup>+"
    using detect_cycles_complete [where R = "reachable_set m" and m = m] reachable_closed by blast
next
  assume acyc: "\<forall>n \<in> reachable_set m. (n, n) \<notin> (edges m)\<^sup>+"
  show "detect_cycles m (reachable_set m) = []"
  proof (rule ccontr)
    assume "detect_cycles m (reachable_set m) \<noteq> []"
    then obtain c where "c \<in> set (detect_cycles m (reachable_set m))" by (meson list.set_sel(1))
    then have "is_cycle m c" "set c \<subseteq> reachable_set m" using detect_cycles_sound by blast+
    moreover from this have "hd c \<in> reachable_set m" by (auto simp: is_cycle_def)
    ultimately show False using acyc is_cycle_trancl by blast
  qed
qed


section \<open>Dead ends and the report\<close>

definition find_dead_ends :: "machine \<Rightarrow> state_name set \<Rightarrow> state_name list" where
  "find_dead_ends m reachable =
     map fst (filter (\<lambda>(name, state).
       name \<in> reachable \<and> \<not> is_terminal (st_kind state) \<and> transition_of (st_kind state) = None \<and>
       \<not> (case st_kind state of Choice _ \<Rightarrow> True | _ \<Rightarrow> False)) (sm_states m))"

record validation_report =
  unreachable_states :: "state_name list"
  cycles :: "state_name list list"
  dead_end_states :: "state_name list"

definition is_clean :: "validation_report \<Rightarrow> bool" where
  "is_clean r \<longleftrightarrow> unreachable_states r = [] \<and> cycles r = [] \<and> dead_end_states r = []"

definition analyze :: "machine \<Rightarrow> validation_report" where
  "analyze m =
     (let reachable = reachable_set m
      in \<lparr>unreachable_states = filter (\<lambda>n. n \<notin> reachable) (map fst (sm_states m)),
          cycles = detect_cycles m reachable,
          dead_end_states = find_dead_ends m reachable\<rparr>)"

fun is_switch :: "state_kind \<Rightarrow> bool" where
  "is_switch (Switch _) = True"
| "is_switch _ = False"

lemma dead_ends_are_switches:
  "find_dead_ends m reachable =
     map fst (filter (\<lambda>(name, state). name \<in> reachable \<and> is_switch (st_kind state)) (sm_states m))"
proof -
  have "\<not> is_terminal k \<and> transition_of k = None \<and> \<not> (case k of Choice _ \<Rightarrow> True | _ \<Rightarrow> False)
      \<longleftrightarrow> is_switch k" for k
    by (cases k) auto
  then show ?thesis
    unfolding find_dead_ends_def by (intro arg_cong [where f = "map fst"] filter_cong) auto
qed

section \<open>What validation establishes\<close>

lemma transition_check_nil:
  "(case tr of Some (Next t) \<Rightarrow> if \<not> c t then [e t] else [] | _ \<Rightarrow> []) = [] \<longleftrightarrow>
     (\<forall>t. tr = Some (Next t) \<longrightarrow> c t)"
  by (cases tr rule: option.exhaust; cases "the tr") auto

lemma choice_check_nil:
  "(case k of
      Choice cs \<Rightarrow>
        concat (map (\<lambda>rule. if \<not> c (cr_next rule) then [e (cr_next rule)] else []) (cs_choices cs)) @
        (case cs_default cs of Some d \<Rightarrow> if \<not> c d then [f d] else [] | None \<Rightarrow> [])
    | _ \<Rightarrow> []) = [] \<longleftrightarrow>
     (\<forall>cs. k = Choice cs \<longrightarrow>
        (\<forall>t \<in> cr_next ` set (cs_choices cs) \<union> set_option (cs_default cs). c t))"
proof (cases k)
  case (Choice cs)
  then show ?thesis by (cases "cs_default cs") auto
qed simp_all

text \<open>An error of the target checks is a target of some state that is not a state.\<close>

lemma check_transitions_nil:
  "check_transitions m errors = [] \<longleftrightarrow> errors = [] \<and>
     (\<forall>(name, state) \<in> set (sm_states m). \<forall>t.
        transition_of (st_kind state) = Some (Next t) \<longrightarrow> t \<in> state_names m)"
  by (simp add: check_transitions_def transition_check_nil contains_key_iff split_beta)

lemma check_choice_targets_nil:
  "check_choice_targets m errors = [] \<longleftrightarrow> errors = [] \<and>
     (\<forall>(name, state) \<in> set (sm_states m). \<forall>cs. st_kind state = Choice cs \<longrightarrow>
        cr_next ` set (cs_choices cs) \<union> set_option (cs_default cs) \<subseteq> state_names m)"
  by (simp add: check_choice_targets_def choice_check_nil contains_key_iff split_beta subset_eq)

lemma outgoing_targets_iff:
  "t \<in> set (outgoing_targets k) \<longleftrightarrow> transition_of k = Some (Next t) \<or>
     (\<exists>cs. k = Choice cs \<and> t \<in> cr_next ` set (cs_choices cs) \<union> set_option (cs_default cs))"
  by (cases k) (auto simp: outgoing_targets_def split: transition.splits option.splits)

lemma validate_ok:
  "validate m = Inr () \<longleftrightarrow>
     sm_states m \<noteq> [] \<and> sm_start_at m \<in> state_names m \<and> has_terminal m \<and>
     (\<forall>(name, state) \<in> set (sm_states m). set (outgoing_targets (st_kind state)) \<subseteq> state_names m)"
  by (auto simp: validate_def Let_def check_transitions_nil check_choice_targets_nil
      check_start_at_def contains_key_iff outgoing_targets_iff subset_iff split_beta)

lemma validate_edges:
  assumes "validate m = Inr ()" and "(a, b) \<in> edges m"
  shows "b \<in> state_names m"
proof -
  from assms(2) obtain state where "(a, state) \<in> set (sm_states m)"
    "b \<in> set (outgoing_targets (st_kind state))"
    by (cases "get_state m a") (auto simp: targets_of_def get_state_def dest: map_of_SomeD)
  with assms(1) show ?thesis by (auto simp: validate_ok)
qed

lemma validate_reachable:
  assumes "validate m = Inr ()"
  shows "reachable_set m \<subseteq> state_names m"
proof
  fix n assume "n \<in> reachable_set m"
  then have "(sm_start_at m, n) \<in> (edges m)\<^sup>*" by (simp add: reachable_set_eq)
  then show "n \<in> state_names m"
    by cases (use assms validate_edges in \<open>auto simp: validate_ok\<close>)
qed


section \<open>Validated clean machines\<close>

definition final_state :: "machine \<Rightarrow> state_name \<Rightarrow> bool" where
  "final_state m n \<longleftrightarrow> (\<exists>state. get_state m n = Some state \<and>
     (is_terminal (st_kind state) \<or> transition_of (st_kind state) = Some End))"

text \<open>What \<open>ChoiceState::new\<close> ensures of the Choice states of a machine.\<close>

definition choices_wf :: "machine \<Rightarrow> bool" where
  "choices_wf m \<longleftrightarrow> (\<forall>(_, state) \<in> set (sm_states m). \<forall>cs. st_kind state = Choice cs \<longrightarrow> cs_choices cs \<noteq> [])"

text \<open>A path longer than the states it may visit repeats one, which is a cycle.\<close>

lemma acyclic_path_short:
  assumes "finite S" and "\<And>x y. x \<in> S \<Longrightarrow> (x, y) \<in> r \<Longrightarrow> y \<in> S"
    and "\<And>x. x \<in> S \<Longrightarrow> (x, x) \<notin> r\<^sup>+" and "a \<in> S" and "(a, b) \<in> r ^^ n"
  shows "n < card S"
  using assms
proof (induction n arbitrary: a S)
  case 0
  then show ?case by (auto simp: card_gt_0_iff)
next
  case (Suc n)
  then obtain c where c: "(a, c) \<in> r" "(c, b) \<in> r ^^ n" by (meson relpow_Suc_D2)
  let ?S = "S \<inter> r\<^sup>+ `` {a}"
  have "n < card ?S"
  proof (rule Suc.IH)
    show "y \<in> ?S" if "x \<in> ?S" "(x, y) \<in> r" for x y
      using that Suc.prems(2) by (auto intro: trancl_into_trancl)
  qed (use Suc.prems c in auto)
  moreover have "card ?S < card S"
    using Suc.prems(1,3,4) by (intro psubset_card_mono) auto
  ultimately show ?case by linarith
qed

lemma stuck_final:
  assumes "validate m = Inr ()" and "is_clean (analyze m)" and "choices_wf m"
    and "n \<in> reachable_set m" and "targets_of m n = []"
  shows "final_state m n"
proof -
  have "n \<in> state_names m" using assms(4) validate_reachable [OF assms(1)] by blast
  then obtain state where state: "get_state m n = Some state"
    by (metis contains_key_def contains_key_iff not_None_eq)
  then have mem: "(n, state) \<in> set (sm_states m)" by (simp add: get_state_def map_of_SomeD)
  have none: "set (outgoing_targets (st_kind state)) = {}" using assms(5) state by (simp add: targets_of_def)
  have "\<not> is_switch (st_kind state)"
    using assms(2,4) mem
    by (auto simp: is_clean_def analyze_def Let_def dead_ends_are_switches filter_empty_conv)
  moreover have "st_kind state \<noteq> Choice cs" for cs
  proof
    assume choice: "st_kind state = Choice cs"
    then have "cs_choices cs \<noteq> []" using assms(3) mem by (auto simp: choices_wf_def)
    then have "cr_next (hd (cs_choices cs)) \<in> set (outgoing_targets (st_kind state))"
      using choice by (simp add: outgoing_targets_iff)
    with none show False by simp
  qed
  moreover have "transition_of (st_kind state) \<noteq> Some (Next t)" for t
    using none by (auto simp: outgoing_targets_iff set_eq_iff)
  ultimately have "is_terminal (st_kind state) \<or> transition_of (st_kind state) = Some End"
    by (cases "st_kind state"; cases "the (transition_of (st_kind state))") auto
  with state show ?thesis by (auto simp: final_state_def)
qed

lemma clean_paths:
  assumes "validate m = Inr ()" and "is_clean (analyze m)" and "choices_wf m"
    and "(sm_start_at m, a) \<in> edges m ^^ n"
  shows "n < length (sm_states m) \<and> (final_state m a \<or> targets_of m a \<noteq> [])"
proof -
  have start: "sm_start_at m \<in> reachable_set m" by (simp add: reachable_set_eq)
  have a: "a \<in> reachable_set m" using relpow_imp_rtrancl [OF assms(4)] by (simp add: reachable_set_eq)
  have sub: "reachable_set m \<subseteq> state_names m" using validate_reachable [OF assms(1)] .
  have fin: "finite (state_names m)" by (simp add: state_names_def)
  have "\<forall>x \<in> reachable_set m. (x, x) \<notin> (edges m)\<^sup>+"
    using assms(2) by (simp add: is_clean_def analyze_def Let_def detect_cycles_iff)
  then have "n < card (reachable_set m)"
    using acyclic_path_short [of "reachable_set m" "edges m"] reachable_closed start assms(4)
      finite_subset [OF sub fin] by blast
  also have "\<dots> \<le> card (state_names m)" by (rule card_mono [OF fin sub])
  also have "\<dots> \<le> length (sm_states m)"
    unfolding state_names_def by (metis card_length length_map list.set_map)
  finally show ?thesis using stuck_final [OF assms(1-3) a] by blast
qed

section \<open>What the analysis does not look at\<close>

text \<open>A machine with the catchers of its Task and Map states replaced, \<open>f\<close> giving those of a state.\<close>

fun kind_with_catchers :: "catcher list \<Rightarrow> state_kind \<Rightarrow> state_kind" where
  "kind_with_catchers cs (Task t) = Task (t\<lparr>tk_catch := cs\<rparr>)"
| "kind_with_catchers cs (Map ipath processor mc t retry catch pct) = Map ipath processor mc t retry cs pct"
| "kind_with_catchers cs k = k"

fun state_with_catchers :: "catcher list \<Rightarrow> state \<Rightarrow> state" where
  "state_with_catchers cs (State c ip op asg kind) = State c ip op asg (kind_with_catchers cs kind)"

fun with_catchers :: "(state_name \<Rightarrow> catcher list) \<Rightarrow> machine \<Rightarrow> machine" where
  "with_catchers f (StateMachine c start_at states t) =
     StateMachine c start_at (map (\<lambda>(n, s). (n, state_with_catchers (f n) s)) states) t"

lemma kind_with_catchers_same [simp]:
  "transition_of (kind_with_catchers cs k) = transition_of k"
  "is_terminal (kind_with_catchers cs k) = is_terminal k"
  "is_switch (kind_with_catchers cs k) = is_switch k"
  "outgoing_targets (kind_with_catchers cs k) = outgoing_targets k"
  by (cases k; simp add: outgoing_targets_def)+

lemma st_kind_with_catchers [simp]: "st_kind (state_with_catchers cs s) = kind_with_catchers cs (st_kind s)"
  by (cases s) simp

lemma with_catchers_sel [simp]:
  "sm_start_at (with_catchers f m) = sm_start_at m"
  "sm_states (with_catchers f m) = map (\<lambda>(n, s). (n, state_with_catchers (f n) s)) (sm_states m)"
  by (cases m; simp)+

lemma map_of_map_key: "map_of (map (\<lambda>(n, s). (n, g n s)) xs) n = map_option (g n) (map_of xs n)"
  by (induction xs) auto

lemma with_catchers_targets [simp]: "targets_of (with_catchers f m) = targets_of m"
  by (rule ext) (simp add: targets_of_def get_state_def map_of_map_key split: option.split)

lemma with_catchers_names [simp]: "state_names (with_catchers f m) = state_names m"
  by (force simp: state_names_def)

lemma with_catchers_edges [simp]: "edges (with_catchers f m) = edges m"
  by (simp add: edges_def)

lemma with_catchers_reachable [simp]: "reachable_set (with_catchers f m) = reachable_set m"
  by (simp add: reachable_set_eq)

lemma with_catchers_validate: "validate (with_catchers f m) = Inr () \<longleftrightarrow> validate m = Inr ()"
proof -
  have "has_terminal (with_catchers f m) = has_terminal m"
    by (simp add: has_terminal_def list_ex_iff split_beta)
  then show ?thesis by (simp add: validate_ok split_beta)
qed

lemma with_catchers_clean: "is_clean (analyze (with_catchers f m)) \<longleftrightarrow> is_clean (analyze m)"
proof -
  have "detect_cycles (with_catchers f m) (reachable_set m) = [] \<longleftrightarrow> detect_cycles m (reachable_set m) = []"
    using detect_cycles_iff [of "with_catchers f m"] detect_cycles_iff [of m] by simp
  then show ?thesis
    by (simp add: is_clean_def analyze_def Let_def dead_ends_are_switches filter_empty_conv split_beta)
qed

section \<open>Properties\<close>

text \<open>C24. Breadth-first search computes the states reachable from the start along the targets, and
  the states it leaves out are those \<open>analyze\<close> reports as unreachable.\<close>

theorem analyze_reachability:
  "reachable_set m = (edges m)\<^sup>* `` {sm_start_at m} \<and>
   set (unreachable_states (analyze m)) = state_names m - (edges m)\<^sup>* `` {sm_start_at m}"
  by (auto simp: reachable_set_eq analyze_def Let_def state_names_def)

text \<open>Every cycle the depth-first search reports is a cycle of reachable states, and when it
  reports none the reachable part of the graph has none.\<close>

theorem analyze_cycles:
  "list_all (\<lambda>c. is_cycle m c \<and> set c \<subseteq> reachable_set m) (cycles (analyze m)) \<and>
   (cycles (analyze m) = [] \<longleftrightarrow> reachable_set m \<inter> {n. (n, n) \<in> (edges m)\<^sup>+} = {})"
  using detect_cycles_sound [of _ m "reachable_set m"]
  by (auto simp: analyze_def Let_def detect_cycles_iff list_all_iff)

text \<open>The dead ends of the report are exactly the reachable Switch states, although a Switch
  has cases and a default to go on with: \<open>outgoing_targets\<close> does not look at them.\<close>

theorem analyze_dead_ends:
  "dead_end_states (analyze m) =
     map fst (filter (\<lambda>(name, state). name \<in> reachable_set m \<and> is_switch (st_kind state)) (sm_states m))"
  by (simp add: analyze_def Let_def dead_ends_are_switches)

text \<open>\<open>validate\<close> accepts a machine exactly when it has states, its start is one of them, every
  target of a transition or a Choice is one of them, and some state ends the execution.\<close>

theorem validate_accepts_iff:
  "validate m = Inr () \<longleftrightarrow>
     sm_states m \<noteq> [] \<and> sm_start_at m \<in> state_names m \<and> has_terminal m \<and>
     list_all (\<lambda>(name, state). set (outgoing_targets (st_kind state)) \<subseteq> state_names m) (sm_states m)"
  by (simp add: validate_ok list_all_iff split_beta)

text \<open>C25. In a machine that \<open>validate\<close> accepts, whose report is clean and whose Choice states have a rule (as their
  constructor ensures), a path from the start along the targets the analysis follows has fewer steps than there are
  states, and it can only end in a terminal state or one whose transition is the end. This does not hold of a run that
  takes a catcher: whatever catchers the Task and Map states have, even with routes back or to states that do not exist,
  the machine is accepted and the report is as clean.\<close>

theorem validated_clean_paths:
  assumes "validate m = Inr ()" and "is_clean (analyze m)" and "choices_wf m"
    and "(sm_start_at m, a) \<in> edges m ^^ n"
  shows "n < length (sm_states m) \<and> (final_state m a \<or> targets_of m a \<noteq> []) \<and>
    validate (with_catchers f m) = Inr () \<and> is_clean (analyze (with_catchers f m))"
  using clean_paths [OF assms] assms(1,2) by (simp add: with_catchers_validate with_catchers_clean)

definition two_step_machine :: machine where
  "two_step_machine = machine_new ''A''
     [(''A'', state_new (Map [] (machine_new ''S'' [(''S'', state_new Succeed)]) None (Next ''B'') [] [] None)),
      (''B'', state_new Succeed)]"

definition lost_catcher :: catcher where
  "lost_catcher = \<lparr>ct_error_equals = [All], ct_next = ''gone'', ct_result_path = None, ct_assign = None\<rparr>"

lemma two_step_targets [simp]:
  "targets_of two_step_machine n = (if n = ''A'' then [''B''] else [])"
  by (simp add: targets_of_def get_state_def two_step_machine_def machine_new_def state_new_def
      outgoing_targets_def)

lemma two_step_ok:
  "validate two_step_machine = Inr ()" "is_clean (analyze two_step_machine)"
  "choices_wf two_step_machine"
proof -
  note defs = two_step_machine_def machine_new_def state_new_def
  show "validate two_step_machine = Inr ()"
    by (simp add: validate_ok state_names_def has_terminal_def outgoing_targets_def defs)
  have reach: "reachable_set two_step_machine = {''A'', ''B''}"
    by (auto simp: reachable_set_def) (simp_all add: defs)
  have "edges two_step_machine = {(''A'', ''B'')}" by (auto simp: edges_def)
  then have "(edges two_step_machine)\<^sup>+ = {(''A'', ''B'')}" by (simp add: trancl_id trans_def)
  then have "detect_cycles two_step_machine {''A'', ''B''} = []"
    using detect_cycles_iff [of two_step_machine] reach by auto
  then show "is_clean (analyze two_step_machine)"
    by (simp add: is_clean_def analyze_def Let_def reach dead_ends_are_switches) (simp add: defs)
  show "choices_wf two_step_machine" by (simp add: choices_wf_def defs)
qed

lemma validated_clean_paths_witness:
  "1 < length (sm_states two_step_machine) \<and>
   validate (with_catchers (\<lambda>_. [lost_catcher]) two_step_machine) = Inr () \<and>
   is_clean (analyze (with_catchers (\<lambda>_. [lost_catcher]) two_step_machine)) \<and>
   ct_next lost_catcher \<notin> state_names (with_catchers (\<lambda>_. [lost_catcher]) two_step_machine)"
proof -
  have "sm_start_at two_step_machine = ''A''" by (simp add: two_step_machine_def machine_new_def)
  then have "(sm_start_at two_step_machine, ''B'') \<in> edges two_step_machine ^^ 1" by simp
  from validated_clean_paths [OF two_step_ok this, of "\<lambda>_. [lost_catcher]"]
  have "1 < length (sm_states two_step_machine) \<and>
     validate (with_catchers (\<lambda>_. [lost_catcher]) two_step_machine) = Inr () \<and>
     is_clean (analyze (with_catchers (\<lambda>_. [lost_catcher]) two_step_machine))" by blast
  moreover have "ct_next lost_catcher \<notin> state_names two_step_machine"
    by (simp add: lost_catcher_def state_names_def two_step_machine_def machine_new_def)
  ultimately show ?thesis by simp
qed

end
