(* ===== verification/Asl_Dispatch.thy ===== *)
theory Asl_Dispatch
  imports Asl_Machine
begin

text \<open>
  State dispatch (\<open>eval/state_dispatch.rs\<close> with \<open>arms.rs\<close> and \<open>metadata.rs\<close>): a machine is
  rebuilt state by state through the validated constructors, nested machines first, the
  metadata is attached again and the result is validated. The evaluation context is passed
  down but no arm reads it.
\<close>

datatype state_eval_error =
    SE_TaskState task_state_error
  | SE_ChoiceState choice_state_error
  | SE_ParallelState parallel_state_error
  | SE_MapState map_state_error
  | SE_SwitchState switch_state_error
  | SE_StateMachine "machine_error list"

section \<open>Metadata\<close>

fun attach_state_metadata :: "state \<Rightarrow> state \<Rightarrow> state" where
  "attach_state_metadata (State c ip op asg kind) original =
     State (case st_comment original of Some v \<Rightarrow> Some v | None \<Rightarrow> c)
       (case st_input_path original of Some v \<Rightarrow> Some v | None \<Rightarrow> ip)
       (case st_output_path original of Some v \<Rightarrow> Some v | None \<Rightarrow> op)
       (case st_assign original of Some v \<Rightarrow> Some v | None \<Rightarrow> asg)
       kind"

definition attach_machine_metadata :: "machine \<Rightarrow> machine \<Rightarrow> machine" where
  "attach_machine_metadata m original =
     (let m = (case sm_comment original of Some v \<Rightarrow> with_comment v m | None \<Rightarrow> m)
      in case sm_timeout original of Some v \<Rightarrow> with_timeout v m | None \<Rightarrow> m)"

definition validate_machine :: "machine \<Rightarrow> state_eval_error + machine" where
  "validate_machine m = map_err SE_StateMachine (res_bind (validate m) (\<lambda>_. Inr m))"

section \<open>The arms\<close>

definition dispatch_task_from_state :: "task_state \<Rightarrow> state_eval_error + state_kind" where
  "dispatch_task_from_state task =
     map_err SE_TaskState (res_bind (task_state_new task) (\<lambda>t. Inr (Task t)))"

definition build_choice_arm :: "choice_rule list \<Rightarrow> state_name option \<Rightarrow> state_eval_error + state_kind" where
  "build_choice_arm choices dflt =
     map_err SE_ChoiceState (res_bind (choice_state_new choices dflt) (\<lambda>c. Inr (Choice c)))"

definition build_switch_arm :: "switch_state \<Rightarrow> state_eval_error + state_kind" where
  "build_switch_arm sw =
     map_err SE_SwitchState (res_bind (switch_state_new (sw_cases sw) (sw_default sw)) (\<lambda>s. Inr (Switch s)))"

datatype parallel_fail_fast = RuntimeDefault | StopOnFirstFailure | WaitForAllBranches

fun into_option :: "parallel_fail_fast \<Rightarrow> bool option" where
  "into_option RuntimeDefault = None"
| "into_option StopOnFirstFailure = Some True"
| "into_option WaitForAllBranches = Some False"

fun fail_fast_from :: "bool option \<Rightarrow> parallel_fail_fast" where
  "fail_fast_from (Some True) = StopOnFirstFailure"
| "fail_fast_from (Some False) = WaitForAllBranches"
| "fail_fast_from None = RuntimeDefault"

lemma fail_fast_roundtrip [simp]: "into_option (fail_fast_from b) = b"
  by (cases b rule: fail_fast_from.cases) auto

definition build_parallel_arm ::
    "machine list \<Rightarrow> transition \<Rightarrow> parallel_fail_fast \<Rightarrow> state_eval_error + state_kind" where
  "build_parallel_arm branches t ff = map_err SE_ParallelState (parallel_new branches t (into_option ff))"

definition build_map_arm ::
    "expression \<Rightarrow> machine \<Rightarrow> u32 option \<Rightarrow> transition \<Rightarrow> retrier list \<Rightarrow> catcher list \<Rightarrow> f64 option
      \<Rightarrow> state_eval_error + state_kind" where
  "build_map_arm items_path processor mc t retry catch pct =
     map_err SE_MapState (map_new items_path processor mc t retry catch pct)"

section \<open>The recursion\<close>

text \<open>Collecting into an \<open>IndexMap\<close>: a repeated key keeps its place and takes the new value.\<close>

definition index_map_collect :: "('k \<times> 'v) list \<Rightarrow> ('k \<times> 'v) list" where
  "index_map_collect kvs = fold (\<lambda>(k, v). AList.update k v) kvs []"

lemma index_map_collect_distinct:
  assumes "distinct (map fst kvs)"
  shows "index_map_collect kvs = kvs"
proof -
  have "fold (\<lambda>(k, v). AList.update k v) kvs acc = acc @ kvs"
    if "distinct (map fst (acc @ kvs))" for acc
    using that
  proof (induction kvs arbitrary: acc)
    case (Cons kv kvs)
    obtain k v where kv: "kv = (k, v)" by (cases kv)
    have "AList.update k v acc = acc @ [(k, v)]" if "k \<notin> fst ` set acc" for acc
      using that by (induction acc) auto
    with Cons kv show ?case by auto
  qed simp
  from this [of "[]"] assms show ?thesis by (simp add: index_map_collect_def)
qed

fun evaluate_state_machine :: "(string \<times> json) list \<Rightarrow> machine \<Rightarrow> state_eval_error + machine"
and evaluate_state :: "(string \<times> json) list \<Rightarrow> state \<Rightarrow> state_eval_error + state"
and evaluate_state_kind :: "(string \<times> json) list \<Rightarrow> state_kind \<Rightarrow> state_eval_error + state_kind"
where
  "evaluate_state_machine ctx (StateMachine c start_at states t) =
     res_bind (res_collect (\<lambda>(name, state). res_bind (evaluate_state ctx state) (\<lambda>s. Inr (name, s))) states)
       (\<lambda>states'. validate_machine (attach_machine_metadata
          (machine_new start_at (index_map_collect states')) (StateMachine c start_at states t)))"
| "evaluate_state ctx (State c ip op asg kind) =
     res_bind (evaluate_state_kind ctx kind) (\<lambda>k.
       Inr (attach_state_metadata (state_new k) (State c ip op asg kind)))"
| "evaluate_state_kind ctx (Task task) = dispatch_task_from_state task"
| "evaluate_state_kind ctx (Pass p) = Inr (Pass p)"
| "evaluate_state_kind ctx (Choice cs) = build_choice_arm (cs_choices cs) (cs_default cs)"
| "evaluate_state_kind ctx (Switch sw) = build_switch_arm sw"
| "evaluate_state_kind ctx (Wait w) = Inr (Wait w)"
| "evaluate_state_kind ctx Succeed = Inr Succeed"
| "evaluate_state_kind ctx (Fail f) = Inr (Fail f)"
| "evaluate_state_kind ctx (Parallel branches t ff) =
     res_bind (res_collect (evaluate_state_machine ctx) branches) (\<lambda>bs.
       build_parallel_arm bs t (fail_fast_from ff))"
| "evaluate_state_kind ctx (Map ipath processor mc t retry catch pct) =
     res_bind (evaluate_state_machine ctx processor) (\<lambda>p.
       build_map_arm ipath p mc t retry catch pct)"

section \<open>Dispatch changes nothing\<close>

text \<open>A predicate of machines and one of kinds, at every level of nesting.\<close>

fun deep_machine :: "(machine \<Rightarrow> bool) \<Rightarrow> (state_kind \<Rightarrow> bool) \<Rightarrow> machine \<Rightarrow> bool"
and deep_kind :: "(machine \<Rightarrow> bool) \<Rightarrow> (state_kind \<Rightarrow> bool) \<Rightarrow> state_kind \<Rightarrow> bool"
where
  "deep_machine P Q (StateMachine c start_at states t) =
     (P (StateMachine c start_at states t) \<and>
      list_all (\<lambda>(name, state). case state of State _ _ _ _ kind \<Rightarrow> deep_kind P Q kind) states)"
| "deep_kind P Q (Parallel branches t ff) =
     (Q (Parallel branches t ff) \<and> list_all (deep_machine P Q) branches)"
| "deep_kind P Q (Map ipath processor mc t retry catch pct) =
     (Q (Map ipath processor mc t retry catch pct) \<and> deep_machine P Q processor)"
| "deep_kind P Q k = Q k"

definition task_wf :: "task_state \<Rightarrow> bool" where
  "task_wf t \<longleftrightarrow>
     [] \<notin> fst ` set (tk_env t) \<and>
     tk_timeout t \<noteq> Some 0 \<and> tk_heartbeat t \<noteq> Some 0 \<and>
     (\<forall>n \<in> set_option (tk_timeout t). \<forall>h \<in> set_option (tk_heartbeat t). h < n)"

fun kind_wf :: "state_kind \<Rightarrow> bool" where
  "kind_wf (Task t) = task_wf t"
| "kind_wf (Choice cs) = (cs_choices cs \<noteq> [])"
| "kind_wf (Switch sw) = (sw_cases sw \<noteq> [])"
| "kind_wf (Parallel branches _ _) = (branches \<noteq> [])"
| "kind_wf (Map _ _ _ _ _ _ pct) = (validate_tolerance pct = Inr ())"
| "kind_wf _ = True"

abbreviation keys_distinct :: "machine \<Rightarrow> bool" where
  "keys_distinct \<equiv> deep_machine (\<lambda>m. distinct (map fst (sm_states m))) (\<lambda>_. True)"

abbreviation machine_valid :: "machine \<Rightarrow> bool" where
  "machine_valid \<equiv> deep_machine (\<lambda>m. validate m = Inr ()) kind_wf"

lemma task_state_new_Inr: "task_state_new t = Inr t' \<longleftrightarrow> t' = t \<and> task_wf t"
  by (cases "tk_timeout t"; cases "tk_heartbeat t")
    (auto simp: task_state_new_def task_wf_def too_small_def not_le)

lemma attach_same [simp]:
  "attach_state_metadata (state_new kind) (State c ip op asg kind) = State c ip op asg kind"
  "attach_machine_metadata (machine_new s states) (StateMachine c s states t) = StateMachine c s states t"
  by (auto simp: state_new_def machine_new_def attach_machine_metadata_def Let_def
      split: option.splits)

lemma validate_machine_Inr: "validate_machine m = Inr m' \<longleftrightarrow> m' = m \<and> validate m = Inr ()"
  by (cases "validate m") (auto simp: validate_machine_def)

lemma res_collect_same:
  assumes "\<And>x y. x \<in> set xs \<Longrightarrow> f x = Inr y \<longleftrightarrow> y = x \<and> P x"
  shows "res_collect f xs = Inr ys \<longleftrightarrow> ys = xs \<and> list_all P xs"
  using assms by (induction xs arbitrary: ys) (auto simp: res_simps)

lemma res_bind_Inr_iff:
  assumes "\<And>y. r = Inr y \<longleftrightarrow> y = a \<and> P"
  shows "res_bind r f = Inr z \<longleftrightarrow> P \<and> f a = Inr z"
  using assms [of a] assms [of "projr r"] by (cases r) auto

lemma evaluate_same:
  "keys_distinct m \<Longrightarrow> evaluate_state_machine ctx m = Inr m' \<longleftrightarrow> m' = m \<and> machine_valid m"
  "deep_kind (\<lambda>m. distinct (map fst (sm_states m))) (\<lambda>_. True) (st_kind s) \<Longrightarrow>
     evaluate_state ctx s = Inr s' \<longleftrightarrow>
       s' = s \<and> deep_kind (\<lambda>m. validate m = Inr ()) kind_wf (st_kind s)"
  "deep_kind (\<lambda>m. distinct (map fst (sm_states m))) (\<lambda>_. True) k \<Longrightarrow>
     evaluate_state_kind ctx k = Inr k' \<longleftrightarrow>
       k' = k \<and> deep_kind (\<lambda>m. validate m = Inr ()) kind_wf k"
proof (induction ctx m and ctx s and ctx k arbitrary: m' and s' and k'
    rule: evaluate_state_machine_evaluate_state_evaluate_state_kind.induct)
  case (1 ctx c start_at states t)
  let ?m = "StateMachine c start_at states t"
  let ?valid = "\<lambda>(name, state). case state of State _ _ _ _ kind \<Rightarrow>
      deep_kind (\<lambda>m. validate m = Inr ()) kind_wf kind"
  have one: "res_bind (evaluate_state ctx s) (\<lambda>s'. Inr (n, s')) = Inr y \<longleftrightarrow> y = (n, s) \<and> ?valid (n, s)"
    if "(n, s) \<in> set states" for n s y
  proof -
    have "deep_kind (\<lambda>m. distinct (map fst (sm_states m))) (\<lambda>_. True) (st_kind s)"
      using 1(2) that by (cases s) (auto simp: list_all_iff)
    then show ?thesis
      using 1(1) [OF that refl] by (cases s) (auto simp: res_bind_Inr)
  qed
  have "res_collect (\<lambda>(n, s). res_bind (evaluate_state ctx s) (\<lambda>s'. Inr (n, s'))) states = Inr ys
      \<longleftrightarrow> ys = states \<and> list_all ?valid states" for ys
  proof (rule res_collect_same)
    fix x y assume "x \<in> set states"
    then show "(case x of (n, s) \<Rightarrow> res_bind (evaluate_state ctx s) (\<lambda>s'. Inr (n, s'))) = Inr y
        \<longleftrightarrow> y = x \<and> ?valid x"
      using one [of "fst x" "snd x" y] by (simp add: split_beta)
  qed
  moreover have "index_map_collect states = states"
    using 1(2) by (intro index_map_collect_distinct) simp
  ultimately show ?case by (auto simp: res_bind_Inr_iff validate_machine_Inr)
next
  case (2 ctx c ip op asg kind)
  then show ?case by (auto simp: res_bind_Inr)
next
  case (10 ctx branches t ff)
  have "res_collect (evaluate_state_machine ctx) branches = Inr ys \<longleftrightarrow>
      ys = branches \<and> list_all machine_valid branches" for ys
    by (rule res_collect_same) (use 10 in \<open>auto simp: list_all_iff\<close>)
  then show ?case
    by (auto simp: res_bind_Inr_iff build_parallel_arm_def parallel_new_def)
next
  case (11 ctx ipath processor mc t retry catch pct)
  then show ?case
    by (auto simp: res_bind_Inr_iff build_map_arm_def map_new_def map_err_Inr)
qed (auto simp: dispatch_task_from_state_def build_choice_arm_def build_switch_arm_def map_err_Inr
    res_bind_Inr choice_state_new_def switch_state_new_def task_state_new_Inr split: if_splits)

section \<open>Properties\<close>

text \<open>C38. Dispatching a machine whose state names are distinct (they are the keys of an \<open>IndexMap\<close>, at every level)
  succeeds exactly when it, and every machine nested in it, passes \<open>validate\<close> and every state satisfies its
  constructor's invariants; the result is the machine itself, metadata and the parts of nested machines included.\<close>

theorem dispatch_identity:
  assumes "keys_distinct m"
  shows "evaluate_state_machine ctx m = Inr m' \<longleftrightarrow> m' = m \<and> machine_valid m"
  using assms by (rule evaluate_same)

definition one_branch :: machine where
  "one_branch = StateMachine (Some ''outer'') ''P''
     [(''P'', State None (Some ''$'') None None
        (Parallel [machine_new ''S'' [(''S'', state_new Succeed)]] End (Some True)))] (Some 30)"

theorem dispatch_identity_witness:
  "evaluate_state_machine [] one_branch = Inr one_branch"
proof -
  have "keys_distinct one_branch" "machine_valid one_branch"
    by (simp_all add: one_branch_def machine_new_def state_new_def validate_def contains_key_def
        get_state_def check_start_at_def check_transitions_def check_choice_targets_def has_terminal_def)
  then show ?thesis using dispatch_identity [of one_branch "[]" one_branch] by blast
qed

end
