(* ===== verification/Data_Flow.thy ===== *)
theory Data_Flow
  imports Asl_Types
begin

text \<open>
  The data flow of a state (\<open>eval/data_flow.rs\<close>): the subset of JSONPath it parses, reading
  along a path, writing a result at a path, and the pipeline of input, result and output path.
\<close>

datatype data_flow_error =
    PathNotFound string "string list"
  | InvalidPath string string
  | NotAnObject string

datatype segment = Field string | Index nat

section \<open>Parsing a path\<close>

text \<open>One token between dots: a field, an index in brackets, or a field with an index.\<close>

definition parse_token :: "string \<Rightarrow> string \<Rightarrow> data_flow_error + segment list" where
  "parse_token raw token =
     (if CHR ''['' \<notin> set token then Inr [Field token]
      else let field = takeWhile (\<lambda>c. c \<noteq> CHR ''['') token;
               rest = tl (dropWhile (\<lambda>c. c \<noteq> CHR ''['') token)
        in if rest = [] \<or> last rest \<noteq> CHR '']'' then Inl (InvalidPath raw ''unclosed bracket'')
           else res_bind (ok_or (parse_usize (butlast rest))
               (InvalidPath raw (''invalid array index: '' @ butlast rest)))
             (\<lambda>idx. Inr ((if field \<noteq> [] then [Field field] else []) @ [Index idx])))"

definition parse_segments :: "json_path \<Rightarrow> data_flow_error + segment list" where
  "parse_segments raw =
     (let rest = tl raw
      in if rest = [] then Inr []
         else let rest = (if hd rest = CHR ''.'' then tl rest else rest)
           in if rest = [] then Inr []
              else res_bind (res_collect (parse_token raw) (split_on (CHR ''.'') rest))
                (\<lambda>tokens. Inr (concat tokens)))"

section \<open>Reading and writing\<close>

fun resolve_path :: "json \<Rightarrow> segment list \<Rightarrow> string \<Rightarrow> data_flow_error + json" where
  "resolve_path v [] full_path = Inr v"
| "resolve_path v (Field name # segs) full_path =
     res_bind (ok_or (as_object v) (NotAnObject full_path)) (\<lambda>obj.
       res_bind (ok_or (map_of obj name) (PathNotFound full_path (map fst obj))) (\<lambda>v'.
         resolve_path v' segs full_path))"
| "resolve_path v (Index idx # segs) full_path =
     res_bind (ok_or (as_array v) (NotAnObject full_path)) (\<lambda>arr.
       res_bind (ok_or (if idx < length arr then Some (arr ! idx) else None)
           (PathNotFound full_path [''0..'' @ show_nat (length arr)])) (\<lambda>v'.
         resolve_path v' segs full_path))"

text \<open>
  The cursor of the source walks down a copy of the root, making an empty object where a field
  is missing; the recursion puts each changed child back.
\<close>

fun set_at_path :: "json \<Rightarrow> segment list \<Rightarrow> json \<Rightarrow> string \<Rightarrow> data_flow_error + json" where
  "set_at_path root [] val full_path = Inr val"
| "set_at_path root [Field name] val full_path =
     res_bind (ok_or (as_object root) (NotAnObject full_path)) (\<lambda>obj.
       Inr (JObject (map_insert name val obj)))"
| "set_at_path root (Field name # segs) val full_path =
     res_bind (ok_or (as_object root) (NotAnObject full_path)) (\<lambda>obj.
       let obj = (if map_of obj name = None then map_insert name (JObject []) obj else obj)
       in res_bind (ok_or (map_of obj name) (NotAnObject full_path)) (\<lambda>child.
            res_bind (set_at_path child segs val full_path) (\<lambda>child'.
              Inr (JObject (map_insert name child' obj)))))"
| "set_at_path root (Index idx # segs) val full_path =
     Inl (InvalidPath full_path ''array index not supported in result_path'')"

section \<open>The pipeline\<close>

definition apply_input_path :: "json \<Rightarrow> json_path option \<Rightarrow> data_flow_error + json" where
  "apply_input_path input path =
     (case path of None \<Rightarrow> Inr input
      | Some p \<Rightarrow> res_bind (parse_segments p) (\<lambda>segs. resolve_path input segs p))"

definition apply_result_path :: "json \<Rightarrow> json \<Rightarrow> json_path option \<Rightarrow> data_flow_error + json" where
  "apply_result_path input result path =
     (case path of None \<Rightarrow> Inr result
      | Some p \<Rightarrow> res_bind (parse_segments p) (\<lambda>segs.
          if segs = [] then Inr result else set_at_path input segs result p))"

definition apply_output_path :: "json \<Rightarrow> json_path option \<Rightarrow> data_flow_error + json" where
  "apply_output_path output path =
     (case path of None \<Rightarrow> Inr output
      | Some p \<Rightarrow> res_bind (parse_segments p) (\<lambda>segs. resolve_path output segs p))"

definition apply_data_flow ::
    "json \<Rightarrow> json \<Rightarrow> json_path option \<Rightarrow> json_path option \<Rightarrow> json_path option
      \<Rightarrow> data_flow_error + json" where
  "apply_data_flow input result input_path result_path output_path =
     res_bind (apply_input_path input input_path) (\<lambda>filtered.
       res_bind (apply_result_path filtered result result_path) (\<lambda>merged.
         apply_output_path merged output_path))"

section \<open>Writing, then reading\<close>

lemma map_of_map_insert_same [simp]: "map_of (map_insert k v kvs) k = Some v"
  by (induction k v kvs rule: map_insert.induct) auto

lemma map_of_map_insert_other [simp]: "k' \<noteq> k \<Longrightarrow> map_of (map_insert k v kvs) k' = map_of kvs k'"
  by (induction k v kvs rule: map_insert.induct) auto

lemma set_at_path_Cons:
  "segs \<noteq> [] \<Longrightarrow> set_at_path root (Field name # segs) val fp =
     res_bind (ok_or (as_object root) (NotAnObject fp)) (\<lambda>obj.
       res_bind (set_at_path (case map_of obj name of None \<Rightarrow> JObject [] | Some c \<Rightarrow> c) segs val fp)
         (\<lambda>child. Inr (JObject (map_insert name child
            (if map_of obj name = None then map_insert name (JObject []) obj else obj)))))"
  by (cases segs; cases "as_object root"; cases "map_of (the (as_object root)) name") simp_all

lemma set_then_resolve:
  "set_at_path root segs val fp = Inr root' \<Longrightarrow> resolve_path root' segs fp' = Inr val"
proof (induction root segs val fp arbitrary: root' rule: set_at_path.induct)
  case (3 root name s segs val fp)
  then show ?case by (auto simp: Let_def ok_or_Inr split: if_splits)
qed auto

text \<open>Paths that part at some field: neither is a prefix of the other.\<close>

lemma set_frame:
  assumes "set_at_path root segs val fp = Inr root'" and "\<not> prefix segs other" and "\<not> prefix other segs"
  shows "resolve_path root' other fp' = Inr w \<longleftrightarrow> resolve_path root other fp' = Inr w"
  using assms
proof (induction segs arbitrary: root root' other)
  case (Cons s segs)
  then obtain name where s: "s = Field name" by (cases s) auto
  from Cons.prems(3) obtain o1 os where other: "other = o1 # os" by (cases other) auto
  have "\<exists>obj. root = JObject obj"
    using Cons.prems(1) s by (cases segs; cases root) (auto simp: ok_or_Inl)
  then obtain obj where root: "root = JObject obj" by blast
  define obj1 where "obj1 = (if map_of obj name = None \<and> segs \<noteq> [] then map_insert name (JObject []) obj else obj)"
  obtain child where child: "set_at_path (case map_of obj name of None \<Rightarrow> JObject [] | Some c \<Rightarrow> c) segs val fp = Inr child"
    and root': "root' = JObject (map_insert name child obj1)"
    using Cons.prems(1) s root
    by (cases "segs = []") (auto simp: set_at_path_Cons obj1_def)
  show ?case
  proof (cases "o1 = Field name")
    case True
    then have pre: "\<not> prefix segs os" "\<not> prefix os segs"
      using Cons.prems(2,3) other s by simp_all
    then have "os \<noteq> []" by auto
    then obtain o2 os' where os: "os = o2 # os'" by (cases os) auto
    have "resolve_path (JObject []) os fp' \<noteq> Inr w"
      using os by (cases o2) auto
    with Cons.IH [OF child pre] True other root root' show ?thesis
      by (cases "map_of obj name") auto
  next
    case False
    then show ?thesis
      using other root root' by (cases o1) (auto simp: obj1_def res_bind_Inr ok_or_Inr)
  qed
qed simp

lemma set_wf:
  "set_at_path root segs val fp = Inr root' \<Longrightarrow> json_wf root \<Longrightarrow> json_wf val \<Longrightarrow> json_wf root'"
proof (induction root segs val fp arbitrary: root' rule: set_at_path.induct)
  case (2 root name val fp)
  then obtain obj where "root = JObject obj" "root' = JObject (map_insert name val obj)"
    by (cases root) auto
  with 2 json_wf_insert show ?case by blast
next
  case (3 root name s segs val fp)
  then obtain obj where root: "root = JObject obj" by (cases root) auto
  let ?obj = "if map_of obj name = None then map_insert name (JObject []) obj else obj"
  obtain c c' where c: "map_of ?obj name = Some c" "set_at_path c (s # segs) val fp = Inr c'"
    "root' = JObject (map_insert name c' ?obj)"
    using 3(2) root by (auto simp: Let_def ok_or_Inr)
  have wf: "json_wf (JObject ?obj)"
    using 3(3) root json_wf_insert [of obj "JObject []" name] by auto
  then have "json_wf c" using c(1) json_wf_lookup by blast
  with 3(1) root c 3(4) have "json_wf c'" by (auto simp: Let_def)
  with wf c(3) json_wf_insert show ?case by blast
qed auto

lemma resolve_wf: "resolve_path v segs fp = Inr w \<Longrightarrow> json_wf v \<Longrightarrow> json_wf w"
proof (induction v segs fp rule: resolve_path.induct)
  case (2 v name segs fp)
  then obtain obj v' where "v = JObject obj" "map_of obj name = Some v'" "resolve_path v' segs fp = Inr w"
    by (cases v) (auto simp: ok_or_Inr)
  with 2 json_wf_lookup show ?case by auto
next
  case (3 v idx segs fp)
  then obtain arr where "v = JArray arr" "idx < length arr" "resolve_path (arr ! idx) segs fp = Inr w"
    by (cases v) (auto simp: ok_or_Inr split: if_splits)
  with 3 json_wf_nth show ?case by auto
qed auto

section \<open>Printing a path\<close>

fun show_segment :: "segment \<Rightarrow> string" where
  "show_segment (Field name) = name"
| "show_segment (Index idx) = ''['' @ show_nat idx @ '']''"

fun show_segments :: "segment list \<Rightarrow> string" where
  "show_segments [] = []"
| "show_segments (s # segs) = CHR ''.'' # show_segment s @ show_segments segs"

fun segment_wf :: "segment \<Rightarrow> bool" where
  "segment_wf (Field name) = (name \<noteq> [] \<and> CHR ''.'' \<notin> set name \<and> CHR ''['' \<notin> set name)"
| "segment_wf (Index idx) = (idx < 2 ^ 64)"

lemma show_nat_no: "c \<notin> set (show_nat n)" if "\<not> is_digit c"
  using that show_nat_digits [of n] by (auto simp: list_all_iff)

lemma parse_show_token:
  assumes "segment_wf s"
  shows "parse_token raw (show_segment s) = Inr [s]" and "CHR ''.'' \<notin> set (show_segment s)"
    and "show_segment s \<noteq> []"
proof -
  have no: "CHR ''['' \<notin> set (show_nat n)" "CHR ''.'' \<notin> set (show_nat n)" for n
    by (rule show_nat_no; simp add: is_digit_def less_eq_char_def)+
  show "parse_token raw (show_segment s) = Inr [s]"
    using assms by (cases s) (auto simp: parse_token_def parse_usize_show Let_def butlast_append)
  show "CHR ''.'' \<notin> set (show_segment s)" "show_segment s \<noteq> []"
    using assms no by (cases s; simp)+
qed

lemma split_show_segments:
  assumes "list_all segment_wf (s # segs)"
  shows "split_on (CHR ''.'') (tl (show_segments (s # segs))) = map show_segment (s # segs)"
  using assms
proof (induction segs arbitrary: s)
  case Nil
  then show ?case by (simp add: split_on_no_sep parse_show_token)
next
  case (Cons s' segs)
  have "CHR ''.'' \<notin> set (show_segment s)" using Cons.prems parse_show_token by simp
  with Cons show ?case by (simp add: split_on_append)
qed

lemma parse_show_segments:
  assumes "list_all segment_wf segs"
  shows "parse_segments (CHR ''$'' # show_segments segs) = Inr segs"
proof (cases segs)
  case (Cons s segs')
  let ?raw = "CHR ''$'' # show_segments segs"
  have "res_collect (parse_token ?raw) (map show_segment ts) = Inr (map (\<lambda>s. [s]) ts)"
    if "list_all segment_wf ts" for ts
    using that by (induction ts) (auto simp: parse_show_token)
  with Cons assms split_show_segments [of s segs'] parse_show_token [of s] show ?thesis
    by (auto simp: parse_segments_def Let_def)
qed (simp add: parse_segments_def)

section \<open>Properties\<close>

text \<open>What ResultPath writes, OutputPath reads back at the same path, and every path that parts
  from it at some field reads what it read before.\<close>

theorem result_path_get_put:
  assumes "apply_result_path input result (Some p) = Inr merged"
    and "parse_segments p = Inr segs" and "parse_segments q = Inr other"
    and "\<not> prefix segs other" and "\<not> prefix other segs"
  shows "apply_output_path merged (Some p) = Inr result \<and>
    (apply_output_path merged (Some q) = Inr w \<longleftrightarrow> apply_output_path input (Some q) = Inr w)"
proof -
  have "segs \<noteq> []" using assms(4) by auto
  with assms(1,2) have set: "set_at_path input segs result p = Inr merged"
    by (simp add: apply_result_path_def)
  with assms(2,3) set_then_resolve [OF set] set_frame [OF set assms(4,5)] show ?thesis
    by (simp add: apply_output_path_def)
qed

lemma result_path_get_put_witness:
  "apply_output_path (JObject [(''a'', JNull), (''b'', JObject [(''c'', JBool True)])]) (Some ''$.b.c'')
     = Inr (JBool True) \<and>
   apply_output_path (JObject [(''a'', JNull), (''b'', JObject [(''c'', JBool True)])]) (Some ''$.a'')
     = Inr JNull"
proof -
  let ?in = "JObject [(''a'', JNull)]"
  let ?out = "JObject [(''a'', JNull), (''b'', JObject [(''c'', JBool True)])]"
  have p: "parse_segments ''$.b.c'' = Inr [Field ''b'', Field ''c'']"
    "parse_segments ''$.a'' = Inr [Field ''a'']"
    by (simp_all add: parse_segments_def parse_token_def)
  have r: "apply_result_path ?in (JBool True) (Some ''$.b.c'') = Inr ?out"
    by (simp add: apply_result_path_def p less_list_code less_char_def)
  from result_path_get_put [OF r p, of JNull] show ?thesis
    by (simp add: apply_output_path_def p)
qed

text \<open>With the same path for the result and the output the pipeline returns the state's result,
  whatever the input held, and it never leaves the well-formed JSON values.\<close>

theorem data_flow_same_path:
  assumes "apply_data_flow input result ip (Some p) (Some p) = Inr v" and "json_wf result"
  shows "v = result \<and> json_wf v"
proof -
  from assms(1) obtain filtered merged segs where
    m: "apply_result_path filtered result (Some p) = Inr merged"
      "apply_output_path merged (Some p) = Inr v" "parse_segments p = Inr segs"
    by (auto simp: apply_data_flow_def apply_output_path_def)
  have "v = result"
  proof (cases "segs = []")
    case False
    with m(1,3) have "set_at_path filtered segs result p = Inr merged"
      by (simp add: apply_result_path_def)
    from set_then_resolve [OF this, of p] m(2,3) show ?thesis by (simp add: apply_output_path_def)
  qed (use m in \<open>simp add: apply_result_path_def apply_output_path_def\<close>)
  with assms(2) show ?thesis by simp
qed

lemma data_flow_same_path_witness:
  "apply_data_flow (JObject []) (JBool True) None (Some ''$.r'') (Some ''$.r'') = Inr (JBool True)"
proof -
  have p: "parse_segments ''$.r'' = Inr [Field ''r'']"
    by (simp add: parse_segments_def parse_token_def)
  then have "apply_data_flow (JObject []) (JBool True) None (Some ''$.r'') (Some ''$.r'') \<noteq> Inl e" for e
    by (simp add: apply_data_flow_def apply_input_path_def apply_result_path_def apply_output_path_def)
  then obtain v where "apply_data_flow (JObject []) (JBool True) None (Some ''$.r'') (Some ''$.r'') = Inr v"
    by (cases "apply_data_flow (JObject []) (JBool True) None (Some ''$.r'') (Some ''$.r'')") auto
  with data_flow_same_path [OF this] show ?thesis by simp
qed

text \<open>A path printed from its segments, fields without dots and brackets and indices of machine
  size, is parsed back to them.\<close>

theorem path_print_parse:
  assumes "list_all segment_wf segs"
  shows "parse_segments (CHR ''$'' # show_segments segs) = Inr segs"
  using assms by (rule parse_show_segments)

lemma path_print_parse_witness:
  "parse_segments ''$.items.[12].name'' = Inr [Field ''items'', Index 12, Field ''name'']"
proof -
  have "show_nat 12 = ''12''" by code_simp
  then show ?thesis
    using path_print_parse [of "[Field ''items'', Index 12, Field ''name'']"] by simp
qed

end
