(* ===== verification/Job_Model.thy ===== *)
theory Job_Model
  imports Json_Value
begin

text \<open>
  Jobs and tasks (\<open>twerk-core/src/job.rs\<close>, \<open>task.rs\<close>, \<open>id/\<close>, and the small records of
  \<open>user.rs\<close>, \<open>role.rs\<close>, \<open>node.rs\<close>, \<open>webhook.rs\<close>, \<open>mount.rs\<close>, \<open>stats.rs\<close>): the states with
  their transition tables and names, the records, summaries, events and the context of a job.
  A task holds tasks, so it is a datatype: a record of its own fields (\<open>task_hdr\<close>) and the
  fields that hold tasks. Times are instants; \<open>i64\<close> counters are integers, none of the code
  modelled here bringing them near their bounds.
\<close>

type_synonym time = int
type_synonym task_id = string
type_synonym job_id = string
type_synonym node_id = string
type_synonym scheduled_job_id = string
type_synonym smap = "(string \<times> string) list"

section \<open>Identifiers\<close>

definition MAX_ID_LENGTH :: nat where "MAX_ID_LENGTH = 1000"
definition RFC4122_UUID_LENGTH :: nat where "RFC4122_UUID_LENGTH = 36"
definition SHORT_JOB_ID_LENGTH :: nat where "SHORT_JOB_ID_LENGTH = 22"

definition SHORT_JOB_ID_ALPHABET :: string where
  "SHORT_JOB_ID_ALPHABET = ''23456789ABCDEFGHJKLMNPQRSTUVWXYZabcdefghijkmnopqrstuvwxyz''"

datatype id_error =
    ID_Empty | ID_TooShort nat | ID_TooLong nat | ID_InvalidCharacters | ID_InvalidJobIdFormat

text \<open>
  \<open>char::is_alphanumeric\<close>: the ASCII letters and digits, and the characters beyond ASCII that
  the Unicode tables of the standard library (\<open>uni\<close>) count as such.
\<close>

definition is_alphanumeric :: "(string \<Rightarrow> bool) \<Rightarrow> string \<Rightarrow> bool" where
  "is_alphanumeric uni c = (if length c = 1 then is_ascii_alphanumeric (hd c) else uni c)"

definition validate_id :: "(string \<Rightarrow> bool) \<Rightarrow> string \<Rightarrow> id_error + unit" where
  "validate_id uni value =
     (if value = [] then Inl ID_Empty
      else if length value > MAX_ID_LENGTH then Inl (ID_TooLong (length value))
      else if list_all (\<lambda>c. is_alphanumeric uni c \<or> c = ''-'' \<or> c = ''_'') (utf8_chars value)
      then Inr () else Inl ID_InvalidCharacters)"

text \<open>\<open>TaskId::new\<close>, \<open>NodeId::new\<close>, \<open>ScheduledJobId::new\<close>, \<open>UserId::new\<close>, \<open>RoleId::new\<close>.\<close>

definition id_new :: "(string \<Rightarrow> bool) \<Rightarrow> string \<Rightarrow> id_error + string" where
  "id_new uni value = res_bind (validate_id uni value) (\<lambda>_. Inr value)"

text \<open>\<open>parse_uuid\<close> stands for \<open>uuid::Uuid::parse_str(id).is_ok()\<close>.\<close>

definition is_valid_rfc4122_uuid :: "(string \<Rightarrow> bool) \<Rightarrow> string \<Rightarrow> bool" where
  "is_valid_rfc4122_uuid parse_uuid s \<longleftrightarrow> length s = RFC4122_UUID_LENGTH \<and> parse_uuid s"

definition is_valid_short_job_id :: "string \<Rightarrow> bool" where
  "is_valid_short_job_id s \<longleftrightarrow>
     length s = SHORT_JOB_ID_LENGTH \<and> list_all (\<lambda>b. b \<in> set SHORT_JOB_ID_ALPHABET) s"

definition validate_job_id :: "(string \<Rightarrow> bool) \<Rightarrow> string \<Rightarrow> id_error + unit" where
  "validate_job_id parse_uuid s =
     (if s = [] then Inl ID_Empty
      else if length s > MAX_ID_LENGTH then Inl (ID_TooLong (length s))
      else if is_valid_rfc4122_uuid parse_uuid s \<or> is_valid_short_job_id s then Inr ()
      else Inl ID_InvalidJobIdFormat)"

definition job_id_new :: "(string \<Rightarrow> bool) \<Rightarrow> string \<Rightarrow> id_error + job_id" where
  "job_id_new parse_uuid s = res_bind (validate_job_id parse_uuid s) (\<lambda>_. Inr s)"

section \<open>States\<close>

datatype jstate =
    JS_Pending | JS_Scheduled | JS_Running | JS_Cancelled | JS_Completed | JS_Failed | JS_Restart

fun job_state_display :: "jstate \<Rightarrow> string" where
  "job_state_display JS_Pending = ''PENDING''"
| "job_state_display JS_Scheduled = ''SCHEDULED''"
| "job_state_display JS_Running = ''RUNNING''"
| "job_state_display JS_Cancelled = ''CANCELLED''"
| "job_state_display JS_Completed = ''COMPLETED''"
| "job_state_display JS_Failed = ''FAILED''"
| "job_state_display JS_Restart = ''RESTART''"

definition job_state_from_str :: "string \<Rightarrow> string + jstate" where
  "job_state_from_str s =
     (let u = to_uppercase s
      in if u = ''PENDING'' then Inr JS_Pending
         else if u = ''SCHEDULED'' then Inr JS_Scheduled
         else if u = ''RUNNING'' then Inr JS_Running
         else if u = ''CANCELLED'' then Inr JS_Cancelled
         else if u = ''COMPLETED'' then Inr JS_Completed
         else if u = ''FAILED'' then Inr JS_Failed
         else if u = ''RESTART'' then Inr JS_Restart
         else Inl u)"

fun job_can_transition_to :: "jstate \<Rightarrow> jstate \<Rightarrow> bool" where
  "job_can_transition_to JS_Pending t = (t = JS_Scheduled)"
| "job_can_transition_to JS_Scheduled t = (t = JS_Running)"
| "job_can_transition_to JS_Running t = (t \<in> {JS_Completed, JS_Failed, JS_Cancelled})"
| "job_can_transition_to JS_Failed t = (t = JS_Restart)"
| "job_can_transition_to JS_Cancelled t = (t = JS_Restart)"
| "job_can_transition_to JS_Restart t = (t = JS_Pending)"
| "job_can_transition_to JS_Completed t = False"

fun can_cancel :: "jstate \<Rightarrow> bool" where
  "can_cancel s = (s \<in> {JS_Pending, JS_Scheduled, JS_Running})"

fun can_restart :: "jstate \<Rightarrow> bool" where
  "can_restart s = (s \<in> {JS_Failed, JS_Cancelled})"

datatype scheduled_job_state = SJ_Active | SJ_Paused

fun scheduled_job_state_display :: "scheduled_job_state \<Rightarrow> string" where
  "scheduled_job_state_display SJ_Active = ''ACTIVE''"
| "scheduled_job_state_display SJ_Paused = ''PAUSED''"

definition scheduled_job_state_from_str :: "string \<Rightarrow> string + scheduled_job_state" where
  "scheduled_job_state_from_str s =
     (let u = to_uppercase s
      in if u = ''ACTIVE'' then Inr SJ_Active else if u = ''PAUSED'' then Inr SJ_Paused else Inl u)"

datatype runtime = RT_Docker | RT_Shell | RT_Podman

fun runtime_display :: "runtime \<Rightarrow> string" where
  "runtime_display RT_Docker = ''docker''"
| "runtime_display RT_Shell = ''shell''"
| "runtime_display RT_Podman = ''podman''"

definition runtime_from_str :: "string \<Rightarrow> string + runtime" where
  "runtime_from_str s =
     (let l = to_lowercase s
      in if l = ''docker'' then Inr RT_Docker else if l = ''shell'' then Inr RT_Shell
         else if l = ''podman'' then Inr RT_Podman else Inl l)"

datatype tstate =
    TS_Created | TS_Pending | TS_Scheduled | TS_Running | TS_Cancelled | TS_Stopped
  | TS_Completed | TS_Failed | TS_Skipped

fun is_active :: "tstate \<Rightarrow> bool" where
  "is_active s = (s \<in> {TS_Created, TS_Pending, TS_Scheduled, TS_Running})"

fun is_valid_linear_transition :: "tstate \<Rightarrow> tstate \<Rightarrow> bool" where
  "is_valid_linear_transition src dst =
     ((src, dst) \<in> {(TS_Created, TS_Pending), (TS_Pending, TS_Scheduled),
        (TS_Scheduled, TS_Running), (TS_Failed, TS_Pending)})"

fun task_can_transition_to :: "tstate \<Rightarrow> tstate \<Rightarrow> bool" where
  "task_can_transition_to s t =
     (if s \<in> {TS_Completed, TS_Cancelled, TS_Stopped, TS_Skipped} then False
      else if is_valid_linear_transition s t then True
      else if s = TS_Running \<and> t \<in> {TS_Completed, TS_Failed, TS_Cancelled, TS_Stopped} then True
      else if t = TS_Skipped \<and> is_active s then True
      else False)"

fun task_state_display :: "tstate \<Rightarrow> string" where
  "task_state_display TS_Created = ''CREATED''"
| "task_state_display TS_Pending = ''PENDING''"
| "task_state_display TS_Scheduled = ''SCHEDULED''"
| "task_state_display TS_Running = ''RUNNING''"
| "task_state_display TS_Cancelled = ''CANCELLED''"
| "task_state_display TS_Stopped = ''STOPPED''"
| "task_state_display TS_Completed = ''COMPLETED''"
| "task_state_display TS_Failed = ''FAILED''"
| "task_state_display TS_Skipped = ''SKIPPED''"

definition task_state_from_str :: "string \<Rightarrow> string + tstate" where
  "task_state_from_str s =
     (let u = to_uppercase s
      in if u = ''CREATED'' then Inr TS_Created
         else if u = ''PENDING'' then Inr TS_Pending
         else if u = ''SCHEDULED'' then Inr TS_Scheduled
         else if u = ''RUNNING'' then Inr TS_Running
         else if u = ''CANCELLED'' then Inr TS_Cancelled
         else if u = ''STOPPED'' then Inr TS_Stopped
         else if u = ''COMPLETED'' then Inr TS_Completed
         else if u = ''FAILED'' then Inr TS_Failed
         else if u = ''SKIPPED'' then Inr TS_Skipped
         else Inl (''unknown task state: '' @ s))"

section \<open>Small records\<close>

record user =
  us_id :: "string option"
  us_name :: "string option"
  us_username :: "string option"
  us_password_hash :: "string option"
  us_password :: "string option"
  us_created_at :: "time option"
  us_disabled :: bool

definition user_deep_clone :: "user \<Rightarrow> user" where
  "user_deep_clone u = u\<lparr>us_password := None\<rparr>"

definition is_guest :: "user \<Rightarrow> bool" where "is_guest u \<longleftrightarrow> us_username u = Some ''guest''"
definition is_enabled :: "user \<Rightarrow> bool" where "is_enabled u \<longleftrightarrow> \<not> us_disabled u"

record role =
  rl_id :: "string option"
  rl_slug :: "string option"
  rl_name :: "string option"
  rl_created_at :: "time option"

definition is_public :: "role \<Rightarrow> bool" where "is_public r \<longleftrightarrow> rl_slug r = Some ''public''"

record permission =
  pm_role :: "role option"
  pm_user :: "user option"

record webhook =
  wb_url :: "string option"
  wb_headers :: "smap option"
  wb_event :: "string option"
  wb_if :: "string option"

record mount =
  mt_id :: "string option"
  mt_type :: "string option"
  mt_source :: "string option"
  mt_target :: "string option"
  mt_opts :: "smap option"

datatype node_status = NS_UP | NS_DOWN | NS_OFFLINE

definition node_status_from :: "string \<Rightarrow> node_status" where
  "node_status_from s =
     (let u = to_uppercase s
      in if u = ''UP'' then NS_UP else if u = ''DOWN'' then NS_DOWN else NS_OFFLINE)"

fun node_status_str :: "node_status \<Rightarrow> string" where
  "node_status_str NS_UP = ''UP''"
| "node_status_str NS_DOWN = ''DOWN''"
| "node_status_str NS_OFFLINE = ''OFFLINE''"

record node =
  nd_id :: "node_id option"
  nd_name :: "string option"
  nd_started_at :: "time option"
  nd_cpu_percent :: "f64 option"
  nd_last_heartbeat_at :: "time option"
  nd_queue :: "string option"
  nd_status :: "node_status option"
  nd_hostname :: "string option"
  nd_port :: "int option"
  nd_task_count :: "int option"
  nd_version :: "string option"

record auto_delete =
  ad_after :: "string option"

record task_retry =
  tr_limit :: int
  tr_attempts :: int

record task_limits =
  tl_cpus :: "string option"
  tl_memory :: "string option"

record registry =
  rg_username :: "string option"
  rg_password :: "string option"

record probe =
  pb_path :: "string option"
  pb_port :: int
  pb_timeout :: "string option"

record task_log_part =
  lp_id :: "string option"
  lp_number :: int
  lp_task_id :: "task_id option"
  lp_contents :: "string option"
  lp_created_at :: "time option"


section \<open>Tasks\<close>

text \<open>The fields of a task that hold no tasks.\<close>

record task_hdr =
  th_id :: "task_id option"
  th_job_id :: "job_id option"
  th_parent_id :: "task_id option"
  th_position :: int
  th_name :: "string option"
  th_description :: "string option"
  th_state :: tstate
  th_created_at :: "time option"
  th_scheduled_at :: "time option"
  th_started_at :: "time option"
  th_completed_at :: "time option"
  th_failed_at :: "time option"
  th_cmd :: "string list option"
  th_entrypoint :: "string list option"
  th_run :: "string option"
  th_image :: "string option"
  th_registry :: "registry option"
  th_env :: "smap option"
  th_files :: "smap option"
  th_queue :: "string option"
  th_redelivered :: int
  th_error :: "string option"
  th_exit_code :: "int option"
  th_mounts :: "mount list option"
  th_networks :: "string list option"
  th_node_id :: "node_id option"
  th_retry :: "task_retry option"
  th_limits :: "task_limits option"
  th_timeout :: "string option"
  th_result :: "string option"
  th_var :: "string option"
  th_if :: "string option"
  th_gpus :: "string option"
  th_tags :: "string list option"
  th_workdir :: "string option"
  th_runtime :: "runtime option"
  th_priority :: int
  th_progress :: f64
  th_probe :: "probe option"

record subjob_hdr =
  sj_id :: "job_id option"
  sj_name :: "string option"
  sj_description :: "string option"
  sj_inputs :: "smap option"
  sj_secrets :: "smap option"
  sj_auto_delete :: "auto_delete option"
  sj_output :: "string option"
  sj_detached :: bool
  sj_webhooks :: "webhook list option"

datatype task =
  Task
    (hdr: task_hdr)
    (pre_tasks: "task list option")
    (post_tasks: "task list option")
    (sidecars: "task list option")
    (parallel: "parallel_task option")
    (each: "each_task option")
    (subjob: "subjob_task option")
and parallel_task =
  ParallelTask (par_tasks: "task list option") (par_completions: int)
and each_task =
  EachTask (each_var: "string option") (each_list: "string option") (each_template: "task option")
    (each_size: int) (each_completions: int) (each_concurrency: int) (each_index: int)
and subjob_task =
  SubJobTask (sj_hdr: subjob_hdr) (sj_tasks: "task list option")

text \<open>\<open>Task::default()\<close>.\<close>

definition default_hdr :: task_hdr where
  "default_hdr = \<lparr>th_id = None, th_job_id = None, th_parent_id = None, th_position = 0,
     th_name = None, th_description = None, th_state = TS_Created, th_created_at = None,
     th_scheduled_at = None, th_started_at = None, th_completed_at = None, th_failed_at = None,
     th_cmd = None, th_entrypoint = None, th_run = None, th_image = None, th_registry = None,
     th_env = None, th_files = None, th_queue = None, th_redelivered = 0, th_error = None,
     th_exit_code = None, th_mounts = None, th_networks = None, th_node_id = None,
     th_retry = None, th_limits = None, th_timeout = None, th_result = None, th_var = None,
     th_if = None, th_gpus = None, th_tags = None, th_workdir = None, th_runtime = None,
     th_priority = 0, th_progress = 0, th_probe = None\<rparr>"

abbreviation "tk_id t \<equiv> th_id (hdr t)"
abbreviation "tk_job_id t \<equiv> th_job_id (hdr t)"
abbreviation "tk_parent_id t \<equiv> th_parent_id (hdr t)"
abbreviation "tk_state t \<equiv> th_state (hdr t)"

text \<open>Assignments to fields: of the record, and of the fields that hold tasks.\<close>

fun upd_hdr :: "(task_hdr \<Rightarrow> task_hdr) \<Rightarrow> task \<Rightarrow> task" where
  "upd_hdr f (Task h p q s par e sj) = Task (f h) p q s par e sj"

fun upd_parallel :: "(parallel_task \<Rightarrow> parallel_task) \<Rightarrow> task \<Rightarrow> task" where
  "upd_parallel f (Task h p q s par e sj) = Task h p q s (map_option f par) e sj"

fun upd_each :: "(each_task \<Rightarrow> each_task) \<Rightarrow> task \<Rightarrow> task" where
  "upd_each f (Task h p q s par e sj) = Task h p q s par (map_option f e) sj"

fun upd_subjob :: "(subjob_hdr \<Rightarrow> subjob_hdr) \<Rightarrow> task \<Rightarrow> task" where
  "upd_subjob f (Task h p q s par e sj) =
     Task h p q s par e (map_option (\<lambda>x. SubJobTask (f (sj_hdr x)) (sj_tasks x)) sj)"

lemma upd_sel [simp]:
  "hdr (upd_hdr f t) = f (hdr t)" "pre_tasks (upd_hdr f t) = pre_tasks t" "post_tasks (upd_hdr f t) = post_tasks t"
  "sidecars (upd_hdr f t) = sidecars t" "parallel (upd_hdr f t) = parallel t"
  "each (upd_hdr f t) = each t" "subjob (upd_hdr f t) = subjob t"
  "hdr (upd_parallel g t) = hdr t" "parallel (upd_parallel g t) = map_option g (parallel t)"
  "each (upd_parallel g t) = each t" "subjob (upd_parallel g t) = subjob t"
  "hdr (upd_each k t) = hdr t" "parallel (upd_each k t) = parallel t"
  "each (upd_each k t) = map_option k (each t)" "subjob (upd_each k t) = subjob t"
  "hdr (upd_subjob l t) = hdr t" "parallel (upd_subjob l t) = parallel t"
  "each (upd_subjob l t) = each t"
  by (cases t; simp)+

definition task_is_active :: "task \<Rightarrow> bool" where "task_is_active t = is_active (tk_state t)"

definition task_deep_clone :: "task \<Rightarrow> task" where
  "task_deep_clone t = upd_hdr (th_redelivered_update (\<lambda>_. 0)) t"

record task_summary =
  ts_id :: "task_id option"
  ts_job_id :: "job_id option"
  ts_position :: int
  ts_progress :: f64
  ts_name :: "string option"
  ts_description :: "string option"
  ts_state :: tstate
  ts_created_at :: "time option"
  ts_scheduled_at :: "time option"
  ts_started_at :: "time option"
  ts_completed_at :: "time option"
  ts_error :: "string option"
  ts_exit_code :: "int option"
  ts_result :: "string option"
  ts_var :: "string option"
  ts_tags :: "string list option"

definition new_task_summary :: "task \<Rightarrow> task_summary" where
  "new_task_summary t = (let h = hdr t in
     \<lparr>ts_id = th_id h, ts_job_id = th_job_id h, ts_position = th_position h,
      ts_progress = th_progress h, ts_name = th_name h, ts_description = th_description h,
      ts_state = th_state h, ts_created_at = th_created_at h, ts_scheduled_at = th_scheduled_at h,
      ts_started_at = th_started_at h, ts_completed_at = th_completed_at h, ts_error = th_error h,
      ts_exit_code = th_exit_code h, ts_result = th_result h, ts_var = th_var h,
      ts_tags = th_tags h\<rparr>)"

section \<open>Jobs\<close>

record job_defaults =
  jd_retry :: "task_retry option"
  jd_limits :: "task_limits option"
  jd_timeout :: "string option"
  jd_queue :: "string option"
  jd_priority :: int

record job_context =
  jc_job :: "smap option"
  jc_inputs :: "smap option"
  jc_secrets :: "smap option"
  jc_tasks :: "smap option"

record job_schedule =
  jsc_id :: "scheduled_job_id option"
  jsc_cron :: "string option"

record job =
  jb_id :: "job_id option"
  jb_parent_id :: "job_id option"
  jb_name :: "string option"
  jb_description :: "string option"
  jb_tags :: "string list option"
  jb_state :: jstate
  jb_created_at :: "time option"
  jb_created_by :: "user option"
  jb_started_at :: "time option"
  jb_completed_at :: "time option"
  jb_failed_at :: "time option"
  jb_tasks :: "task list option"
  jb_execution :: "task list option"
  jb_position :: int
  jb_inputs :: "smap option"
  jb_context :: "job_context option"
  jb_task_count :: int
  jb_output :: "string option"
  jb_result :: "string option"
  jb_error :: "string option"
  jb_defaults :: "job_defaults option"
  jb_webhooks :: "webhook list option"
  jb_permissions :: "permission list option"
  jb_auto_delete :: "auto_delete option"
  jb_delete_at :: "time option"
  jb_secrets :: "smap option"
  jb_progress :: f64
  jb_schedule :: "job_schedule option"

definition default_job :: job where
  "default_job = \<lparr>jb_id = None, jb_parent_id = None, jb_name = None, jb_description = None,
     jb_tags = None, jb_state = JS_Pending, jb_created_at = None, jb_created_by = None,
     jb_started_at = None, jb_completed_at = None, jb_failed_at = None, jb_tasks = None,
     jb_execution = None, jb_position = 0, jb_inputs = None, jb_context = None, jb_task_count = 0,
     jb_output = None, jb_result = None, jb_error = None, jb_defaults = None, jb_webhooks = None,
     jb_permissions = None, jb_auto_delete = None, jb_delete_at = None, jb_secrets = None,
     jb_progress = 0, jb_schedule = None\<rparr>"

record scheduled_job =
  sc_id :: "scheduled_job_id option"
  sc_name :: "string option"
  sc_description :: "string option"
  sc_cron :: "string option"
  sc_state :: scheduled_job_state
  sc_inputs :: "smap option"
  sc_tasks :: "task list option"
  sc_created_by :: "user option"
  sc_defaults :: "job_defaults option"
  sc_auto_delete :: "auto_delete option"
  sc_webhooks :: "webhook list option"
  sc_permissions :: "permission list option"
  sc_created_at :: "time option"
  sc_tags :: "string list option"
  sc_secrets :: "smap option"
  sc_output :: "string option"

record job_summary =
  jm_id :: "job_id option"
  jm_created_by :: "user option"
  jm_parent_id :: "job_id option"
  jm_inputs :: "smap option"
  jm_name :: "string option"
  jm_description :: "string option"
  jm_tags :: "string list option"
  jm_state :: jstate
  jm_created_at :: "time option"
  jm_started_at :: "time option"
  jm_completed_at :: "time option"
  jm_failed_at :: "time option"
  jm_position :: int
  jm_task_count :: int
  jm_result :: "string option"
  jm_error :: "string option"
  jm_progress :: f64
  jm_schedule :: "job_schedule option"

definition new_job_summary :: "job \<Rightarrow> job_summary" where
  "new_job_summary j =
     \<lparr>jm_id = jb_id j, jm_created_by = jb_created_by j, jm_parent_id = jb_parent_id j,
      jm_inputs = jb_inputs j, jm_name = jb_name j, jm_description = jb_description j,
      jm_tags = jb_tags j, jm_state = jb_state j, jm_created_at = jb_created_at j,
      jm_started_at = jb_started_at j, jm_completed_at = jb_completed_at j,
      jm_failed_at = jb_failed_at j, jm_position = jb_position j, jm_task_count = jb_task_count j,
      jm_result = jb_result j, jm_error = jb_error j, jm_progress = jb_progress j,
      jm_schedule = jb_schedule j\<rparr>"

record scheduled_job_summary =
  sm_id :: "scheduled_job_id option"
  sm_created_by :: "user option"
  sm_inputs :: "smap option"
  sm_state :: scheduled_job_state
  sm_name :: "string option"
  sm_description :: "string option"
  sm_tags :: "string list option"
  sm_created_at :: "time option"
  sm_cron :: "string option"

definition new_scheduled_job_summary :: "scheduled_job \<Rightarrow> scheduled_job_summary" where
  "new_scheduled_job_summary sj =
     \<lparr>sm_id = sc_id sj, sm_created_by = sc_created_by sj, sm_inputs = sc_inputs sj,
      sm_state = sc_state sj, sm_name = sc_name sj, sm_description = sc_description sj,
      sm_tags = sc_tags sj, sm_created_at = sc_created_at sj, sm_cron = sc_cron sj\<rparr>"

datatype job_event =
    JE_StateChanged job_id jstate jstate
  | JE_Completed job
  | JE_Failed job
  | JE_Cancelled job

fun event_job_id :: "job_event \<Rightarrow> job_id option" where
  "event_job_id (JE_StateChanged i _ _) = Some i"
| "event_job_id (JE_Completed j) = jb_id j"
| "event_job_id (JE_Failed j) = jb_id j"
| "event_job_id (JE_Cancelled j) = jb_id j"

fun into_job :: "job_event \<Rightarrow> job option" where
  "into_job (JE_StateChanged _ _ _) = None"
| "into_job (JE_Completed j) = Some j"
| "into_job (JE_Failed j) = Some j"
| "into_job (JE_Cancelled j) = Some j"

definition job_event_from_state :: "job \<Rightarrow> job_event option" where
  "job_event_from_state j =
     (case jb_state j of
        JS_Completed \<Rightarrow> Some (JE_Completed j)
      | JS_Failed \<Rightarrow> Some (JE_Failed j)
      | JS_Cancelled \<Rightarrow> Some (JE_Cancelled j)
      | _ \<Rightarrow> None)"

text \<open>\<open>serde_json::to_value\<close> of a string map is an object.\<close>

definition json_of_smap :: "smap \<Rightarrow> json" where
  "json_of_smap m = JObject (fold (\<lambda>(k, v) acc. map_insert k (JString v) acc) m [])"

definition as_map :: "job_context \<Rightarrow> (string \<times> json) list" where
  "as_map c =
     (let ins = (\<lambda>k field m. case field of Some v \<Rightarrow> AList.update k (json_of_smap v) m | None \<Rightarrow> m)
      in ins ''job'' (jc_job c) (ins ''tasks'' (jc_tasks c)
           (ins ''secrets'' (jc_secrets c) (ins ''inputs'' (jc_inputs c) []))))"

section \<open>Names and transitions\<close>

text \<open>Parsing the name of a state (of a job, a scheduled job, a task or a runtime) succeeds
  exactly on the spellings of its displayed name in any letter case, and returns that state;
  in particular every displayed name parses back.\<close>

theorem state_names_parse:
  "(job_state_from_str s = Inr js \<longleftrightarrow> to_uppercase s = job_state_display js) \<and>
   (scheduled_job_state_from_str s = Inr ss \<longleftrightarrow> to_uppercase s = scheduled_job_state_display ss) \<and>
   (task_state_from_str s = Inr ts \<longleftrightarrow> to_uppercase s = task_state_display ts) \<and>
   (runtime_from_str s = Inr rt \<longleftrightarrow> to_lowercase s = runtime_display rt) \<and>
   job_state_from_str (job_state_display js) = Inr js \<and>
   scheduled_job_state_from_str (scheduled_job_state_display ss) = Inr ss \<and>
   task_state_from_str (task_state_display ts) = Inr ts \<and>
   runtime_from_str (runtime_display rt) = Inr rt"
proof -
  have 1: "job_state_from_str s = Inr js \<longleftrightarrow> to_uppercase s = job_state_display js" for s js
    by (cases js) (simp_all add: job_state_from_str_def Let_def)
  have 2: "scheduled_job_state_from_str s = Inr ss \<longleftrightarrow>
      to_uppercase s = scheduled_job_state_display ss" for s ss
    by (cases ss) (simp_all add: scheduled_job_state_from_str_def Let_def)
  have 3: "task_state_from_str s = Inr ts \<longleftrightarrow> to_uppercase s = task_state_display ts" for s ts
    by (cases ts) (simp_all add: task_state_from_str_def Let_def)
  have 4: "runtime_from_str s = Inr rt \<longleftrightarrow> to_lowercase s = runtime_display rt" for s rt
    by (cases rt) (simp_all add: runtime_from_str_def Let_def)
  have 5: "job_state_from_str (job_state_display js) = Inr js"
    unfolding 1 by (intro to_uppercase_upper; cases js; simp add: is_upper_def less_eq_char_def)
  have 6: "scheduled_job_state_from_str (scheduled_job_state_display ss) = Inr ss"
    unfolding 2 by (intro to_uppercase_upper; cases ss; simp add: is_upper_def less_eq_char_def)
  have 7: "task_state_from_str (task_state_display ts) = Inr ts"
    unfolding 3 by (intro to_uppercase_upper; cases ts; simp add: is_upper_def less_eq_char_def)
  have 8: "runtime_from_str (runtime_display rt) = Inr rt"
    unfolding 4 by (intro to_lowercase_lower; cases rt; simp add: is_lower_def less_eq_char_def)
  show ?thesis using 1 2 3 4 5 6 7 8 by blast
qed

text \<open>
  A life of a job is a path of the transition table.
\<close>

fun job_path :: "jstate list \<Rightarrow> bool" where
  "job_path (s # t # p) \<longleftrightarrow> job_can_transition_to s t \<and> job_path (t # p)"
| "job_path p \<longleftrightarrow> True"

text \<open>The stages of a job between two restarts.\<close>

fun job_stage :: "jstate \<Rightarrow> nat" where
  "job_stage JS_Restart = 0" | "job_stage JS_Pending = 1" | "job_stage JS_Scheduled = 2"
| "job_stage JS_Running = 3" | "job_stage JS_Failed = 4" | "job_stage JS_Cancelled = 4"
| "job_stage JS_Completed = 4"

lemma job_step_stage:
  "job_can_transition_to s t \<Longrightarrow> t = JS_Restart \<and> can_restart s \<or> job_stage t = Suc (job_stage s)"
  by (cases s; cases t) auto

lemma job_path_stage:
  "job_path p \<Longrightarrow> p \<noteq> [] \<Longrightarrow> JS_Restart \<notin> set (tl p) \<Longrightarrow>
   job_stage (last p) = job_stage (hd p) + (length p - 1)"
proof (induction p rule: job_path.induct)
  case (1 s t p)
  then have "job_stage t = Suc (job_stage s)" using job_step_stage [of s t] by auto
  then show ?case using 1 by (cases p) auto
qed auto

lemma job_path_Completed: "job_path (JS_Completed # p) \<Longrightarrow> p = []"
  by (cases p) auto

text \<open>Along the transition table a job that does not pass through Restart makes at most four
  transitions, one stage at a time; Completed is final; and only a failed or cancelled job
  is restarted. The test \<open>can_cancel\<close> also accepts Pending and Scheduled jobs, from which the
  table has no transition to Cancelled.\<close>

theorem job_lifecycle:
  "job_path p \<Longrightarrow> p \<noteq> [] \<Longrightarrow> JS_Restart \<notin> set (tl p) \<Longrightarrow>
     length p \<le> 5 \<and> (JS_Completed \<in> set p \<longrightarrow> last p = JS_Completed) \<and>
     (\<forall>s. job_can_transition_to s JS_Restart \<longleftrightarrow> can_restart s) \<and>
     (\<forall>s. can_cancel s \<and> \<not> job_can_transition_to s JS_Cancelled \<longleftrightarrow> s \<in> {JS_Pending, JS_Scheduled})"
proof (intro conjI impI allI)
  assume p: "job_path p" "p \<noteq> []" "JS_Restart \<notin> set (tl p)"
  have "job_stage (last p) \<le> 4" by (cases "last p") auto
  then show "length p \<le> 5" using job_path_stage [OF p] by auto
  show "last p = JS_Completed" if "JS_Completed \<in> set p"
  proof -
    have "job_path q \<Longrightarrow> JS_Completed \<in> set q \<Longrightarrow> last q = JS_Completed" for q
      by (induction q rule: job_path.induct) (auto dest: job_path_Completed)
    then show ?thesis using that p by blast
  qed
  fix s show "job_can_transition_to s JS_Restart \<longleftrightarrow> can_restart s" by (cases s) auto
  show "(can_cancel s \<and> \<not> job_can_transition_to s JS_Cancelled) \<longleftrightarrow> s \<in> {JS_Pending, JS_Scheduled}"
    by (cases s) auto
qed

theorem job_lifecycle_witness:
  "length [JS_Restart, JS_Pending, JS_Scheduled, JS_Running, JS_Failed] \<le> 5"
  using job_lifecycle [of "[JS_Restart, JS_Pending, JS_Scheduled, JS_Running, JS_Failed]"] by simp

end
