(* ===== verification/Task_Eval.thy ===== *)
theory Task_Eval
  imports Job_Model
begin

text \<open>
  Task evaluation (\<open>eval/task.rs\<close>): the templates of a task and of every task nested in it are
  evaluated in one context. Evaluating one template (\<open>eval/template.rs\<close>, over the
  \<open>evalexpr\<close> crate) is the parameter \<open>ev\<close>, already applied to the context.
\<close>

section \<open>Fields, maps, lists\<close>

definition eval_field :: "(string \<Rightarrow> 'e + string) \<Rightarrow> string option \<Rightarrow> 'e + string option" where
  "eval_field ev field =
     (case field of None \<Rightarrow> Inr None | Some s \<Rightarrow> res_bind (ev s) (\<lambda>r. Inr (Some r)))"

definition eval_map :: "(string \<Rightarrow> 'e + string) \<Rightarrow> smap option \<Rightarrow> 'e + smap" where
  "eval_map ev m =
     (case m of
        Some kvs \<Rightarrow> res_collect (\<lambda>(k, v). res_bind (ev v) (\<lambda>r. Inr (k, r))) kvs
      | None \<Rightarrow> Inr [])"

definition eval_strings :: "(string \<Rightarrow> 'e + string) \<Rightarrow> string list option \<Rightarrow> 'e + string list option" where
  "eval_strings ev ss =
     (case ss of None \<Rightarrow> Inr None | Some l \<Rightarrow> res_bind (res_collect ev l) (\<lambda>r. Inr (Some r)))"

definition some_unless_empty :: "'a list \<Rightarrow> 'a list option" where
  "some_unless_empty xs = (if xs = [] then None else Some xs)"

definition eval_webhook :: "(string \<Rightarrow> 'e + string) \<Rightarrow> webhook \<Rightarrow> 'e + webhook" where
  "eval_webhook ev wh =
     res_bind (eval_field ev (wb_url wh)) (\<lambda>url.
     res_bind (eval_map ev (wb_headers wh)) (\<lambda>headers.
     res_bind (eval_field ev (wb_if wh)) (\<lambda>wif.
       Inr \<lparr>wb_url = url, wb_headers = some_unless_empty headers, wb_event = wb_event wh,
         wb_if = wif\<rparr>)))"

definition eval_webhooks ::
    "(string \<Rightarrow> 'e + string) \<Rightarrow> webhook list option \<Rightarrow> 'e + webhook list option" where
  "eval_webhooks ev whs =
     (case whs of None \<Rightarrow> Inr None | Some l \<Rightarrow> res_bind (res_collect (eval_webhook ev) l) (\<lambda>r. Inr (Some r)))"

text \<open>The fields of the task itself, before and after those that hold tasks, as the source orders them.\<close>

definition eval_hdr_first :: "(string \<Rightarrow> 'e + string) \<Rightarrow> task_hdr \<Rightarrow> 'e + task_hdr" where
  "eval_hdr_first ev h =
     res_bind (eval_field ev (th_name h)) (\<lambda>name.
     res_bind (eval_field ev (th_var h)) (\<lambda>var.
     res_bind (eval_field ev (th_image h)) (\<lambda>image.
     res_bind (eval_field ev (th_queue h)) (\<lambda>queue.
     res_bind (eval_field ev (th_if h)) (\<lambda>tif.
     res_bind (eval_map ev (th_env h)) (\<lambda>env.
     res_bind (eval_map ev (th_files h)) (\<lambda>files.
       Inr (h\<lparr>th_name := name, th_var := var, th_image := image, th_queue := queue, th_if := tif,
         th_env := some_unless_empty env, th_files := some_unless_empty files\<rparr>))))))))"

definition eval_hdr_last :: "(string \<Rightarrow> 'e + string) \<Rightarrow> task_hdr \<Rightarrow> 'e + task_hdr" where
  "eval_hdr_last ev h =
     res_bind (eval_strings ev (th_cmd h)) (\<lambda>cmd.
     res_bind (eval_strings ev (th_entrypoint h)) (\<lambda>entrypoint.
       Inr (h\<lparr>th_cmd := cmd, th_entrypoint := entrypoint\<rparr>)))"

section \<open>The recursion\<close>

fun evaluate_task :: "(string \<Rightarrow> 'e + string) \<Rightarrow> task \<Rightarrow> 'e + task"
and eval_parallel :: "(string \<Rightarrow> 'e + string) \<Rightarrow> parallel_task \<Rightarrow> 'e + parallel_task"
and eval_each :: "(string \<Rightarrow> 'e + string) \<Rightarrow> each_task \<Rightarrow> 'e + each_task"
and eval_subjob :: "(string \<Rightarrow> 'e + string) \<Rightarrow> subjob_task \<Rightarrow> 'e + subjob_task"
where
  "evaluate_task ev (Task h p q s par e sj) =
     res_bind (eval_hdr_first ev h) (\<lambda>h1.
     res_bind (case p of None \<Rightarrow> Inr None
       | Some ts \<Rightarrow> res_bind (res_collect (evaluate_task ev) ts) (\<lambda>r. Inr (Some r))) (\<lambda>p'.
     res_bind (case q of None \<Rightarrow> Inr None
       | Some ts \<Rightarrow> res_bind (res_collect (evaluate_task ev) ts) (\<lambda>r. Inr (Some r))) (\<lambda>q'.
     res_bind (case s of None \<Rightarrow> Inr None
       | Some ts \<Rightarrow> res_bind (res_collect (evaluate_task ev) ts) (\<lambda>r. Inr (Some r))) (\<lambda>s'.
     res_bind (case par of None \<Rightarrow> Inr None
       | Some x \<Rightarrow> res_bind (eval_parallel ev x) (\<lambda>r. Inr (Some r))) (\<lambda>par'.
     res_bind (case e of None \<Rightarrow> Inr None
       | Some x \<Rightarrow> res_bind (eval_each ev x) (\<lambda>r. Inr (Some r))) (\<lambda>e'.
     res_bind (eval_hdr_last ev h1) (\<lambda>h2.
     res_bind (case sj of None \<Rightarrow> Inr None
       | Some x \<Rightarrow> res_bind (eval_subjob ev x) (\<lambda>r. Inr (Some r))) (\<lambda>sj'.
       Inr (Task h2 p' q' s' par' e' sj')))))))))"
| "eval_parallel ev (ParallelTask ts n) =
     res_bind (case ts of None \<Rightarrow> Inr None
       | Some l \<Rightarrow> res_bind (res_collect (evaluate_task ev) l) (\<lambda>r. Inr (Some r))) (\<lambda>ts'.
       Inr (ParallelTask ts' n))"
| "eval_each ev (EachTask var lst tpl sz completions concurrency index) =
     res_bind (eval_field ev var) (\<lambda>var'.
     res_bind (eval_field ev lst) (\<lambda>lst'.
     res_bind (case tpl of None \<Rightarrow> Inr None
       | Some t \<Rightarrow> res_bind (evaluate_task ev t) (\<lambda>r. Inr (Some r))) (\<lambda>tpl'.
       Inr (EachTask var' lst' tpl' sz completions concurrency index))))"
| "eval_subjob ev (SubJobTask h ts) =
     res_bind (eval_field ev (sj_name h)) (\<lambda>name.
     res_bind (eval_map ev (sj_inputs h)) (\<lambda>inputs.
     res_bind (eval_map ev (sj_secrets h)) (\<lambda>secrets.
     res_bind (case ts of None \<Rightarrow> Inr None
       | Some l \<Rightarrow> res_bind (res_collect (evaluate_task ev) l) (\<lambda>r. Inr (Some r))) (\<lambda>ts'.
     res_bind (eval_webhooks ev (sj_webhooks h)) (\<lambda>whs.
       Inr (SubJobTask (h\<lparr>sj_name := name, sj_inputs := some_unless_empty inputs,
         sj_secrets := some_unless_empty secrets,
         sj_webhooks := (case whs of Some l \<Rightarrow> some_unless_empty l | None \<Rightarrow> None)\<rparr>) ts'))))))"

section \<open>What evaluation means\<close>

text \<open>
  The reference: the templates of a task in the order the code evaluates them, and the
  substitution of a function for every template. Evaluation finds the first template that
  fails, or substitutes the values.
\<close>

definition opt_list :: "'a option \<Rightarrow> 'a list" where
  "opt_list x = (case x of None \<Rightarrow> [] | Some a \<Rightarrow> [a])"

definition map_strings :: "smap option \<Rightarrow> string list" where
  "map_strings m = map snd (case m of None \<Rightarrow> [] | Some kvs \<Rightarrow> kvs)"

definition subst_map :: "(string \<Rightarrow> string) \<Rightarrow> smap option \<Rightarrow> smap option" where
  "subst_map f m =
     some_unless_empty (map (\<lambda>(k, v). (k, f v)) (case m of None \<Rightarrow> [] | Some kvs \<Rightarrow> kvs))"

definition hdr_strings_first :: "task_hdr \<Rightarrow> string list" where
  "hdr_strings_first h =
     opt_list (th_name h) @ opt_list (th_var h) @ opt_list (th_image h) @ opt_list (th_queue h) @
     opt_list (th_if h) @ map_strings (th_env h) @ map_strings (th_files h)"

definition hdr_strings_last :: "task_hdr \<Rightarrow> string list" where
  "hdr_strings_last h = concat (opt_list (th_cmd h)) @ concat (opt_list (th_entrypoint h))"

definition subst_hdr :: "(string \<Rightarrow> string) \<Rightarrow> task_hdr \<Rightarrow> task_hdr" where
  "subst_hdr f h = h\<lparr>th_name := map_option f (th_name h), th_var := map_option f (th_var h),
     th_image := map_option f (th_image h), th_queue := map_option f (th_queue h),
     th_if := map_option f (th_if h), th_env := subst_map f (th_env h),
     th_files := subst_map f (th_files h), th_cmd := map_option (map f) (th_cmd h),
     th_entrypoint := map_option (map f) (th_entrypoint h)\<rparr>"

definition webhook_strings :: "webhook \<Rightarrow> string list" where
  "webhook_strings w = opt_list (wb_url w) @ map_strings (wb_headers w) @ opt_list (wb_if w)"

definition subst_webhook :: "(string \<Rightarrow> string) \<Rightarrow> webhook \<Rightarrow> webhook" where
  "subst_webhook f w = w\<lparr>wb_url := map_option f (wb_url w), wb_headers := subst_map f (wb_headers w),
     wb_if := map_option f (wb_if w)\<rparr>"

definition opt_tasks :: "task list option \<Rightarrow> task list" where
  "opt_tasks ts = (case ts of None \<Rightarrow> [] | Some l \<Rightarrow> l)"

fun task_strings :: "task \<Rightarrow> string list"
and parallel_strings :: "parallel_task \<Rightarrow> string list"
and each_strings :: "each_task \<Rightarrow> string list"
and subjob_strings :: "subjob_task \<Rightarrow> string list"
where
  "task_strings (Task h p q s par e sj) =
     hdr_strings_first h @
     (case p of None \<Rightarrow> [] | Some ts \<Rightarrow> concat (map task_strings ts)) @
     (case q of None \<Rightarrow> [] | Some ts \<Rightarrow> concat (map task_strings ts)) @
     (case s of None \<Rightarrow> [] | Some ts \<Rightarrow> concat (map task_strings ts)) @
     (case par of None \<Rightarrow> [] | Some x \<Rightarrow> parallel_strings x) @
     (case e of None \<Rightarrow> [] | Some x \<Rightarrow> each_strings x) @
     hdr_strings_last h @
     (case sj of None \<Rightarrow> [] | Some x \<Rightarrow> subjob_strings x)"
| "parallel_strings (ParallelTask ts n) =
     (case ts of None \<Rightarrow> [] | Some l \<Rightarrow> concat (map task_strings l))"
| "each_strings (EachTask var lst tpl sz completions concurrency index) =
     opt_list var @ opt_list lst @ (case tpl of None \<Rightarrow> [] | Some t \<Rightarrow> task_strings t)"
| "subjob_strings (SubJobTask h ts) =
     opt_list (sj_name h) @ map_strings (sj_inputs h) @ map_strings (sj_secrets h) @
     (case ts of None \<Rightarrow> [] | Some l \<Rightarrow> concat (map task_strings l)) @
     concat (map webhook_strings (concat (opt_list (sj_webhooks h))))"

fun subst_task :: "(string \<Rightarrow> string) \<Rightarrow> task \<Rightarrow> task"
and subst_parallel :: "(string \<Rightarrow> string) \<Rightarrow> parallel_task \<Rightarrow> parallel_task"
and subst_each :: "(string \<Rightarrow> string) \<Rightarrow> each_task \<Rightarrow> each_task"
and subst_subjob :: "(string \<Rightarrow> string) \<Rightarrow> subjob_task \<Rightarrow> subjob_task"
where
  "subst_task f (Task h p q s par e sj) =
     Task (subst_hdr f h) (map_option (map (subst_task f)) p) (map_option (map (subst_task f)) q)
       (map_option (map (subst_task f)) s) (map_option (subst_parallel f) par)
       (map_option (subst_each f) e) (map_option (subst_subjob f) sj)"
| "subst_parallel f (ParallelTask ts n) = ParallelTask (map_option (map (subst_task f)) ts) n"
| "subst_each f (EachTask var lst tpl sz completions concurrency index) =
     EachTask (map_option f var) (map_option f lst) (map_option (subst_task f) tpl) sz completions
       concurrency index"
| "subst_subjob f (SubJobTask h ts) =
     SubJobTask (h\<lparr>sj_name := map_option f (sj_name h), sj_inputs := subst_map f (sj_inputs h),
       sj_secrets := subst_map f (sj_secrets h),
       sj_webhooks := (case sj_webhooks h of None \<Rightarrow> None
          | Some l \<Rightarrow> some_unless_empty (map (subst_webhook f) l))\<rparr>)
       (map_option (map (subst_task f)) ts)"

text \<open>\<open>first_fail ev ss v\<close>: the error of the first of \<open>ss\<close> that fails, else \<open>v\<close>.\<close>

fun first_fail :: "(string \<Rightarrow> 'e + string) \<Rightarrow> string list \<Rightarrow> 'a \<Rightarrow> 'e + 'a" where
  "first_fail ev [] v = Inr v"
| "first_fail ev (s # ss) v = (case ev s of Inl e \<Rightarrow> Inl e | Inr _ \<Rightarrow> first_fail ev ss v)"

definition val_of :: "(string \<Rightarrow> 'e + string) \<Rightarrow> string \<Rightarrow> string" where
  "val_of ev s = projr (ev s)"

named_theorems ff_simps

lemma bind_first_fail [ff_simps]:
  "res_bind (first_fail ev ss v) (\<lambda>x. first_fail ev (tt x) (w x)) = first_fail ev (ss @ tt v) (w v)"
  by (induction ss) (auto split: sum.splits)

lemma bind_first_fail_Inr [ff_simps]:
  "res_bind (first_fail ev ss v) (\<lambda>x. Inr (w x)) = first_fail ev ss (w v)"
  by (induction ss) (auto split: sum.splits)

lemma ev_first_fail: "ev s = first_fail ev [s] (val_of ev s)"
  by (cases "ev s") (auto simp: val_of_def)

lemma collect_first_fail:
  assumes "\<And>x. x \<in> set xs \<Longrightarrow> f x = first_fail ev (tt x) (w x)"
  shows "res_collect f xs = first_fail ev (concat (map tt xs)) (map w xs)"
  using assms by (induction xs) (simp_all add: ff_simps)

lemma eval_field_ff [ff_simps]:
  "eval_field ev x = first_fail ev (opt_list x) (map_option (val_of ev) x)"
  by (cases x) (auto simp: eval_field_def opt_list_def val_of_def split: sum.splits)

lemma eval_strings_ff [ff_simps]:
  "eval_strings ev x = first_fail ev (concat (opt_list x)) (map_option (map (val_of ev)) x)"
proof (cases x)
  case (Some l)
  have "res_collect ev l = first_fail ev (concat (map (\<lambda>s. [s]) l)) (map (val_of ev) l)"
    by (rule collect_first_fail) (simp add: val_of_def split: sum.splits)
  then show ?thesis using Some by (simp add: eval_strings_def opt_list_def ff_simps)
qed (simp add: eval_strings_def opt_list_def)

lemma eval_map_ff [ff_simps]:
  "eval_map ev m = first_fail ev (map_strings m)
     (map (\<lambda>(k, v). (k, (val_of ev) v)) (case m of None \<Rightarrow> [] | Some kvs \<Rightarrow> kvs))"
proof (cases m)
  case (Some kvs)
  have "res_collect (\<lambda>(k, v). res_bind (ev v) (\<lambda>r. Inr (k, r))) kvs =
      first_fail ev (concat (map (\<lambda>kv. [snd kv]) kvs)) (map (\<lambda>(k, v). (k, (val_of ev) v)) kvs)"
    by (rule collect_first_fail) (auto simp: val_of_def split: sum.splits prod.splits)
  moreover have "concat (map (\<lambda>kv. [snd kv]) kvs) = map snd kvs" by (induction kvs) auto
  ultimately show ?thesis using Some by (simp add: eval_map_def map_strings_def)
qed (simp add: eval_map_def map_strings_def)

lemma eval_webhook_ff:
  "eval_webhook ev w = first_fail ev (webhook_strings w) (subst_webhook (val_of ev) w)"
  by (cases w) (simp add: eval_webhook_def ff_simps webhook_strings_def subst_webhook_def subst_map_def)

lemma eval_webhooks_ff [ff_simps]:
  "eval_webhooks ev x = first_fail ev (concat (map webhook_strings (concat (opt_list x))))
     (map_option (map (subst_webhook (val_of ev))) x)"
proof (cases x)
  case (Some l)
  then show ?thesis
    using collect_first_fail [of l "eval_webhook ev" ev webhook_strings, OF eval_webhook_ff]
    by (simp add: eval_webhooks_def opt_list_def ff_simps)
qed (simp add: eval_webhooks_def opt_list_def)

lemma eval_hdr_ff [ff_simps]:
  "eval_hdr_first ev h = first_fail ev (hdr_strings_first h)
     (h\<lparr>th_name := map_option (val_of ev) (th_name h), th_var := map_option (val_of ev) (th_var h),
       th_image := map_option (val_of ev) (th_image h),
       th_queue := map_option (val_of ev) (th_queue h), th_if := map_option (val_of ev) (th_if h),
       th_env := subst_map (val_of ev) (th_env h), th_files := subst_map (val_of ev) (th_files h)\<rparr>)"
  "eval_hdr_last ev h = first_fail ev (hdr_strings_last h)
     (h\<lparr>th_cmd := map_option (map (val_of ev)) (th_cmd h),
       th_entrypoint := map_option (map (val_of ev)) (th_entrypoint h)\<rparr>)"
  by (simp_all add: eval_hdr_first_def eval_hdr_last_def ff_simps hdr_strings_first_def
        hdr_strings_last_def subst_map_def)

lemma opt_tasks_ff:
  assumes "\<And>l t. x = Some l \<Longrightarrow> t \<in> set l \<Longrightarrow> f t = first_fail ev (task_strings t) (w t)"
  shows "(case x of None \<Rightarrow> Inr None | Some ts \<Rightarrow> res_bind (res_collect f ts) (\<lambda>r. Inr (Some r))) =
    first_fail ev (case x of None \<Rightarrow> [] | Some ts \<Rightarrow> concat (map task_strings ts)) (map_option (map w) x)"
  using assms by (auto split: option.splits simp: collect_first_fail [of _ f ev task_strings w] ff_simps)

lemma opt_ff:
  assumes "\<And>y. x = Some y \<Longrightarrow> f y = first_fail ev (tt y) (w y)"
  shows "(case x of None \<Rightarrow> Inr None | Some y \<Rightarrow> res_bind (f y) (\<lambda>r. Inr (Some r))) =
    first_fail ev (case x of None \<Rightarrow> [] | Some y \<Rightarrow> tt y) (map_option w x)"
  using assms by (auto split: option.splits simp: ff_simps)

lemma eval_all_ff:
  "evaluate_task ev t = first_fail ev (task_strings t) (subst_task (val_of ev) t)"
  "eval_parallel ev p = first_fail ev (parallel_strings p) (subst_parallel (val_of ev) p)"
  "eval_each ev e = first_fail ev (each_strings e) (subst_each (val_of ev) e)"
  "eval_subjob ev j = first_fail ev (subjob_strings j) (subst_subjob (val_of ev) j)"
proof (induction t and p and e and j rule: task.induct parallel_task.induct each_task.induct subjob_task.induct)
  case (Task h p q s par e sj)
  have 1: "(case p of None \<Rightarrow> Inr None
       | Some ts \<Rightarrow> res_bind (res_collect (evaluate_task ev) ts) (\<lambda>r. Inr (Some r))) =
     first_fail ev (case p of None \<Rightarrow> [] | Some ts \<Rightarrow> concat (map task_strings ts))
       (map_option (map (subst_task (val_of ev))) p)"
    by (intro opt_tasks_ff Task) simp_all
  have 2: "(case q of None \<Rightarrow> Inr None
       | Some ts \<Rightarrow> res_bind (res_collect (evaluate_task ev) ts) (\<lambda>r. Inr (Some r))) =
     first_fail ev (case q of None \<Rightarrow> [] | Some ts \<Rightarrow> concat (map task_strings ts))
       (map_option (map (subst_task (val_of ev))) q)"
    by (intro opt_tasks_ff Task) simp_all
  have 3: "(case s of None \<Rightarrow> Inr None
       | Some ts \<Rightarrow> res_bind (res_collect (evaluate_task ev) ts) (\<lambda>r. Inr (Some r))) =
     first_fail ev (case s of None \<Rightarrow> [] | Some ts \<Rightarrow> concat (map task_strings ts))
       (map_option (map (subst_task (val_of ev))) s)"
    by (intro opt_tasks_ff Task) simp_all
  have 4: "(case par of None \<Rightarrow> Inr None | Some x \<Rightarrow> res_bind (eval_parallel ev x) (\<lambda>r. Inr (Some r))) =
     first_fail ev (case par of None \<Rightarrow> [] | Some x \<Rightarrow> parallel_strings x)
       (map_option (subst_parallel (val_of ev)) par)"
    by (intro opt_ff Task) simp_all
  have 5: "(case e of None \<Rightarrow> Inr None | Some x \<Rightarrow> res_bind (eval_each ev x) (\<lambda>r. Inr (Some r))) =
     first_fail ev (case e of None \<Rightarrow> [] | Some x \<Rightarrow> each_strings x)
       (map_option (subst_each (val_of ev)) e)"
    by (intro opt_ff Task) simp_all
  have 6: "(case sj of None \<Rightarrow> Inr None | Some x \<Rightarrow> res_bind (eval_subjob ev x) (\<lambda>r. Inr (Some r))) =
     first_fail ev (case sj of None \<Rightarrow> [] | Some x \<Rightarrow> subjob_strings x)
       (map_option (subst_subjob (val_of ev)) sj)"
    by (intro opt_ff Task) simp_all
  show ?case by (simp add: ff_simps subst_hdr_def hdr_strings_last_def 1 2 3 4 5 6)
next
  case (ParallelTask ts n)
  have 1: "(case ts of None \<Rightarrow> Inr None
       | Some ts \<Rightarrow> res_bind (res_collect (evaluate_task ev) ts) (\<lambda>r. Inr (Some r))) =
     first_fail ev (case ts of None \<Rightarrow> [] | Some ts \<Rightarrow> concat (map task_strings ts))
       (map_option (map (subst_task (val_of ev))) ts)"
    by (intro opt_tasks_ff ParallelTask) simp_all
  show ?case by (simp add: ff_simps 1)
next
  case (EachTask var lst tpl sz completions concurrency index)
  have 1: "(case tpl of None \<Rightarrow> Inr None | Some x \<Rightarrow> res_bind (evaluate_task ev x) (\<lambda>r. Inr (Some r))) =
     first_fail ev (case tpl of None \<Rightarrow> [] | Some x \<Rightarrow> task_strings x)
       (map_option (subst_task (val_of ev)) tpl)"
    by (intro opt_ff EachTask) simp_all
  show ?case by (simp add: ff_simps 1)
next
  case (SubJobTask h ts)
  have 1: "(case ts of None \<Rightarrow> Inr None
       | Some ts \<Rightarrow> res_bind (res_collect (evaluate_task ev) ts) (\<lambda>r. Inr (Some r))) =
     first_fail ev (case ts of None \<Rightarrow> [] | Some ts \<Rightarrow> concat (map task_strings ts))
       (map_option (map (subst_task (val_of ev))) ts)"
    by (intro opt_tasks_ff SubJobTask) simp_all
  show ?case by (simp add: ff_simps subst_map_def 1 split: option.splits)
qed

text \<open>Evaluating a task evaluates the templates of its fields and of every task nested in it,
  in the order of the source, and returns the error of the first that fails; else it returns
  the task with every template replaced by its value and every other field (\<open>run\<close>, ids, state,
  position, retry, counters) as it was, a map or webhook list that is empty becoming None.\<close>

theorem evaluate_task_spec:
  "evaluate_task ev t = first_fail ev (task_strings t) (subst_task (val_of ev) t)"
  by (rule eval_all_ff)

end
