(* ===== verification/Effects.thy ===== *)
theory Effects
  imports Twerk_Prelude
begin

text \<open>
  Stateful code: a function of the state that returns a result or an error and the state it
  leaves, errors keeping the effects made before them (\<open>?\<close> does not roll anything back).
  The combinators are those the async code is made of; \<open>keeps I m\<close> says that \<open>m\<close>
  preserves \<open>I\<close> on every path, errors included, and is proved combinator by combinator.
\<close>

type_synonym ('s, 'e, 'a) eff = "'s \<Rightarrow> ('e + 'a) \<times> 's"

section \<open>Combinators\<close>

definition ret :: "'a \<Rightarrow> ('s, 'e, 'a) eff" where "ret x s = (Inr x, s)"

definition throw :: "'e \<Rightarrow> ('s, 'e, 'a) eff" where "throw e s = (Inl e, s)"

definition lift_res :: "'e + 'a \<Rightarrow> ('s, 'e, 'a) eff" where "lift_res r s = (r, s)"

definition and_then :: "('s, 'e, 'a) eff \<Rightarrow> ('a \<Rightarrow> ('s, 'e, 'b) eff) \<Rightarrow> ('s, 'e, 'b) eff" where
  "and_then m f s = (case m s of (Inl e, s') \<Rightarrow> (Inl e, s') | (Inr x, s') \<Rightarrow> f x s')"

text \<open>\<open>asks f\<close> reads the state, \<open>modifies f\<close> changes it.\<close>

definition asks :: "('s \<Rightarrow> 'a) \<Rightarrow> ('s, 'e, 'a) eff" where "asks f s = (Inr (f s), s)"

definition modifies :: "('s \<Rightarrow> 's) \<Rightarrow> ('s, 'e, unit) eff" where "modifies f s = (Inr (), f s)"

text \<open>\<open>let _ = m\<close>, \<open>m.ok()\<close> and \<open>m.map_err(h)\<close>.\<close>

definition ignore :: "('s, 'e, 'a) eff \<Rightarrow> ('s, 'e2, unit) eff" where
  "ignore m s = (Inr (), snd (m s))"

definition to_ok :: "('s, 'e, 'a) eff \<Rightarrow> ('s, 'e2, 'a option) eff" where
  "to_ok m s = (case m s of (Inl _, s') \<Rightarrow> (Inr None, s') | (Inr x, s') \<Rightarrow> (Inr (Some x), s'))"

definition eff_map_err :: "('e \<Rightarrow> 'e2) \<Rightarrow> ('s, 'e, 'a) eff \<Rightarrow> ('s, 'e2, 'a) eff" where
  "eff_map_err h m s = (case m s of (r, s') \<Rightarrow> (map_err h r, s'))"

text \<open>\<open>if let Err(e) = m { h(e) }\<close>, with the error handed on by \<open>h\<close>.\<close>

definition on_error :: "('s, 'e, 'a) eff \<Rightarrow> ('e \<Rightarrow> ('s, 'e2, 'a) eff) \<Rightarrow> ('s, 'e2, 'a) eff" where
  "on_error m h s = (case m s of (Inl e, s') \<Rightarrow> h e s' | (Inr x, s') \<Rightarrow> (Inr x, s'))"

fun for_each :: "('a \<Rightarrow> ('s, 'e, unit) eff) \<Rightarrow> 'a list \<Rightarrow> ('s, 'e, unit) eff" where
  "for_each f [] = ret ()"
| "for_each f (x # xs) = and_then (f x) (\<lambda>_. for_each f xs)"

text \<open>An operation on a part of the state.\<close>

definition zoom :: "('w \<Rightarrow> 's) \<Rightarrow> ('s \<Rightarrow> 'w \<Rightarrow> 'w) \<Rightarrow> ('s, 'e, 'a) eff \<Rightarrow> ('w, 'e, 'a) eff" where
  "zoom part put m w = (case m (part w) of (r, s') \<Rightarrow> (r, put s' w))"

named_theorems eff_simps

lemmas eff_run [eff_simps] =
  ret_def throw_def lift_res_def and_then_def asks_def modifies_def ignore_def to_ok_def
  eff_map_err_def zoom_def on_error_def

lemma and_then_ret [simp]: "and_then (ret x) f = f x"
  by (rule ext) (simp add: eff_simps)

lemma and_then_throw [simp]: "and_then (throw e) f = throw e"
  by (rule ext) (simp add: eff_simps)

lemma and_then_assoc: "and_then (and_then m f) g = and_then m (\<lambda>x. and_then (f x) g)"
  by (rule ext) (auto simp: eff_simps split: prod.splits sum.splits)

lemma and_then_Inr:
  "and_then m f s = (Inr y, s') \<longleftrightarrow> (\<exists>x s1. m s = (Inr x, s1) \<and> f x s1 = (Inr y, s'))"
  by (auto simp: eff_simps split: prod.splits sum.splits)

section \<open>Preserved invariants\<close>

definition keeps :: "('s \<Rightarrow> bool) \<Rightarrow> ('s, 'e, 'a) eff \<Rightarrow> bool" where
  "keeps I m \<longleftrightarrow> (\<forall>s. I s \<longrightarrow> I (snd (m s)))"

named_theorems keeps_intros

lemma keepsD: "keeps I m \<Longrightarrow> I s \<Longrightarrow> m s = (r, s') \<Longrightarrow> I s'"
  unfolding keeps_def by (metis snd_conv)

lemma keeps_basic [keeps_intros]:
  "keeps I (ret x)" "keeps I (throw e)" "keeps I (lift_res r)" "keeps I (asks f)"
  by (simp_all add: keeps_def eff_simps)

lemma keeps_modifies: "(\<And>s. I s \<Longrightarrow> I (f s)) \<Longrightarrow> keeps I (modifies f)"
  by (simp add: keeps_def eff_simps)

lemma keeps_and_then [keeps_intros]:
  "keeps I m \<Longrightarrow> (\<And>x. keeps I (f x)) \<Longrightarrow> keeps I (and_then m f)"
  unfolding keeps_def and_then_def by (fastforce split: prod.splits sum.splits)

lemma keeps_wrap [keeps_intros]:
  "keeps I m \<Longrightarrow> keeps I (ignore m)"
  "keeps I m \<Longrightarrow> keeps I (to_ok m)"
  "keeps I m \<Longrightarrow> keeps I (eff_map_err h m)"
  unfolding keeps_def by (fastforce simp: eff_simps split: prod.splits sum.splits)+

lemma keeps_on_error [keeps_intros]:
  "keeps I m \<Longrightarrow> (\<And>e. keeps I (h e)) \<Longrightarrow> keeps I (on_error m h)"
  unfolding keeps_def on_error_def by (fastforce split: prod.splits sum.splits)

lemma keeps_for_each [keeps_intros]:
  "(\<And>x. keeps I (f x)) \<Longrightarrow> keeps I (for_each f xs)"
  by (induction xs) (auto intro: keeps_intros)

lemma keeps_for_each_set:
  "(\<And>x. x \<in> set xs \<Longrightarrow> keeps I (f x)) \<Longrightarrow> keeps I (for_each f xs)"
  by (induction xs) (auto intro: keeps_intros)

lemma keeps_cases [keeps_intros]:
  "(b \<Longrightarrow> keeps I m) \<Longrightarrow> (\<not> b \<Longrightarrow> keeps I m') \<Longrightarrow> keeps I (if b then m else m')"
  "keeps I m \<Longrightarrow> (\<And>x. keeps I (f x)) \<Longrightarrow> keeps I (case z of None \<Rightarrow> m | Some x \<Rightarrow> f x)"
  by (auto split: option.splits)

lemma keeps_zoom:
  "(\<And>w. I w \<Longrightarrow> J (part w)) \<Longrightarrow> (\<And>s w. I w \<Longrightarrow> J s \<Longrightarrow> I (put s w)) \<Longrightarrow> keeps J m
    \<Longrightarrow> keeps I (zoom part put m)"
  unfolding keeps_def zoom_def by (fastforce split: prod.splits)

end
