(* ===== verification/Store_Interface.thy ===== *)
theory Store_Interface
  imports Effects
begin

text \<open>
  The contract of a keyed store (one of the maps of the datastore): what a lookup returns
  after an insert and after a delete. The datastore changes an entry by reading it, applying
  a closure and inserting the result under a parsed key (\<open>update_in\<close>); what that does is
  proved once here for every store that meets the contract.
\<close>

definition update_in ::
    "('s \<Rightarrow> 'k \<Rightarrow> 'a option) \<Rightarrow> ('k \<Rightarrow> 'a \<Rightarrow> 's \<Rightarrow> 's) \<Rightarrow> 'e \<Rightarrow> ('k \<Rightarrow> 'e + unit) \<Rightarrow> 'k
      \<Rightarrow> ('a \<Rightarrow> 'e + 'a) \<Rightarrow> ('s, 'e, unit) eff" where
  "update_in look ins not_found check k modify =
     and_then (asks (\<lambda>s. look s k)) (\<lambda>found.
     and_then (lift_res (ok_or found not_found)) (\<lambda>x.
     and_then (lift_res (modify x)) (\<lambda>y.
     and_then (lift_res (check k)) (\<lambda>_. modifies (ins k y)))))"

locale keyed_store =
  fixes look :: "'s \<Rightarrow> 'k \<Rightarrow> 'a option"
    and ins :: "'k \<Rightarrow> 'a \<Rightarrow> 's \<Rightarrow> 's"
  assumes look_ins: "look (ins k x s) k' = (if k' = k then Some x else look s k')"
begin

lemma update_result:
  "update_in look ins nf check k modify s =
     (case look s k of
        None \<Rightarrow> (Inl nf, s)
      | Some x \<Rightarrow> (case modify x of
          Inl e \<Rightarrow> (Inl e, s)
        | Inr y \<Rightarrow> (case check k of Inl e \<Rightarrow> (Inl e, s) | Inr _ \<Rightarrow> (Inr (), ins k y s))))"
  by (auto simp: update_in_def eff_simps split: option.splits sum.splits)

lemma update_frame:
  "k' \<noteq> k \<Longrightarrow> look (snd (update_in look ins nf check k modify s)) k' = look s k'"
  by (auto simp: update_result look_ins split: option.splits sum.splits)

lemma update_Inl: "update_in look ins nf check k modify s = (Inl e, s') \<Longrightarrow> s' = s"
  by (auto simp: update_result split: option.splits sum.splits)

lemma update_Inr_iff:
  "fst (update_in look ins nf check k modify s) = Inr () \<longleftrightarrow>
     (\<exists>x y. look s k = Some x \<and> modify x = Inr y \<and> check k = Inr ())"
  by (auto simp: update_result split: option.splits sum.splits)

lemma update_look:
  assumes "look s k = Some x" and "modify x = Inr y" and "check k = Inr ()"
  shows "update_in look ins nf check k modify s = (Inr (), ins k y s)"
    and "look (snd (update_in look ins nf check k modify s)) k = Some y"
  using assms by (auto simp: update_result look_ins)

text \<open>Two updates in sequence apply both closures.\<close>

lemma update_twice:
  assumes "look s k = Some x" and "check k = Inr ()"
  shows "look (snd (update_in look ins nf check k (\<lambda>x. Inr (g x))
      (snd (update_in look ins nf check k (\<lambda>x. Inr (f x)) s)))) k = Some (g (f x))"
  using assms by (simp add: update_result look_ins)

end

locale keyed_store_del = keyed_store look ins
  for look :: "'s \<Rightarrow> 'k \<Rightarrow> 'a option" and ins :: "'k \<Rightarrow> 'a \<Rightarrow> 's \<Rightarrow> 's" +
  fixes del :: "'k \<Rightarrow> 's \<Rightarrow> 's"
  assumes look_del: "look (del k s) k' = (if k' = k then None else look s k')"
begin

lemma update_deleted: "update_in look ins nf check k modify (del k s) = (Inl nf, del k s)"
  by (simp add: update_result look_del)

lemma del_frame: "k' \<noteq> k \<Longrightarrow> look (del k s) k' = look s k'"
  by (simp add: look_del)

end

end
