(* ===== verification/Datastore_Inmemory.thy ===== *)
theory Datastore_Inmemory
  imports Job_Model Store_Interface Float64
begin

text \<open>
  The in-memory datastore (\<open>twerk-infrastructure/src/datastore/inmemory.rs\<close>, errors of
  \<open>twerk-core/src/repository.rs\<close>). A \<open>DashMap\<close> is an association list whose order stands for
  the map's unspecified iteration order; every operation here runs alone. The Unicode tables
  and the UUID parser behind the id types are the two functions of an \<open>id_env\<close>.
\<close>

record id_env =
  ie_alphanumeric :: "string \<Rightarrow> bool"
  ie_uuid :: "string \<Rightarrow> bool"

datatype ds_error =
    TaskNotFound | NodeNotFound | JobNotFound | ScheduledJobNotFound | UserNotFound | RoleNotFound
  | ContextNotFound | Database string | Serialization string | Encryption string
  | InvalidInput string | Transaction string | InvalidId string

fun id_error_display :: "id_error \<Rightarrow> string" where
  "id_error_display ID_Empty = ''ID cannot be empty''"
| "id_error_display (ID_TooShort n) = ''ID is too short: '' @ show_nat n @ '' characters (minimum 3)''"
| "id_error_display (ID_TooLong n) =
     ''ID is too long: '' @ show_nat n @ '' characters (maximum '' @ show_nat MAX_ID_LENGTH @ '')''"
| "id_error_display ID_InvalidCharacters =
     ''ID contains invalid characters: only alphanumeric, dash, and underscore allowed''"
| "id_error_display ID_InvalidJobIdFormat =
     ''invalid job ID format: expected RFC 4122 UUID or 22-character base57 short ID''"

record datastore =
  ds_tasks :: "(task_id \<times> task) list"
  ds_tasks_by_job :: "(job_id \<times> task_id list) list"
  ds_tasks_by_parent :: "(string \<times> task_id list) list"
  ds_nodes :: "(node_id \<times> node) list"
  ds_jobs :: "(job_id \<times> job) list"
  ds_users :: "(string \<times> user) list"
  ds_roles :: "(string \<times> role) list"
  ds_scheduled_jobs :: "(scheduled_job_id \<times> scheduled_job) list"
  ds_task_log_parts :: "(task_id \<times> task_log_part list) list"
  ds_user_roles :: "(string \<times> string list) list"

type_synonym 'a ds = "(datastore, ds_error, 'a) eff"

definition new_datastore :: datastore where
  "new_datastore = \<lparr>ds_tasks = [], ds_tasks_by_job = [], ds_tasks_by_parent = [], ds_nodes = [],
     ds_jobs = [], ds_users = [], ds_roles = [], ds_scheduled_jobs = [], ds_task_log_parts = [],
     ds_user_roles = []\<rparr>"

text \<open>\<open>map.entry(k).or_default().push(v)\<close>.\<close>

definition entry_push :: "'k \<Rightarrow> 'v \<Rightarrow> ('k \<times> 'v list) list \<Rightarrow> ('k \<times> 'v list) list" where
  "entry_push k v m = AList.update k ((case map_of m k of None \<Rightarrow> [] | Some vs \<Rightarrow> vs) @ [v]) m"

lemma entry_push_of [simp]:
  "map_of (entry_push k v m) k' =
     (if k' = k then Some ((case map_of m k of None \<Rightarrow> [] | Some vs \<Rightarrow> vs) @ [v]) else map_of m k')"
  by (simp add: entry_push_def update_conv')

text \<open>
  Pages. The arithmetic is that of \<open>i64\<close>, and \<open>as usize\<close> reads a negative number as a huge one;
  the number of pages is a quotient of doubles, rounded up and cast.
\<close>

record 'a page =
  pg_items :: "'a list"
  pg_number :: i64
  pg_size :: i64
  pg_total_pages :: i64
  pg_total_items :: i64

definition f64_ceil_i64 :: "f64 \<Rightarrow> i64" where
  "f64_ceil_i64 x =
     (if f64_is_nan x then 0
      else if f64_is_inf x then (if f64_sign x then word_of_int i64_min else word_of_int i64_max)
      else let c = - ((- f64_scaled x) div 2 ^ 1074)
        in word_of_int (max i64_min (min i64_max c)))"

definition paginate :: "'a list \<Rightarrow> i64 \<Rightarrow> i64 \<Rightarrow> 'a page" where
  "paginate items page sz =
     (let total = word_of_nat (length items) :: i64;
          skip = unat ((if 0 <s page - 1 then page - 1 else 0) * sz)
      in \<lparr>pg_items = take (unat sz) (drop skip items), pg_number = page, pg_size = sz,
          pg_total_pages = f64_ceil_i64 (f64_div (f64_of_int (sint total)) (f64_of_int (sint sz))),
          pg_total_items = total\<rparr>)"

section \<open>Tasks\<close>

definition id_required :: "'a option \<Rightarrow> ds_error + 'a" where
  "id_required x = ok_or x (InvalidInput ''id required'')"

definition create_task :: "task \<Rightarrow> unit ds" where
  "create_task t =
     and_then (lift_res (id_required (tk_id t))) (\<lambda>i.
     and_then (case tk_job_id t of Some j \<Rightarrow> modifies (ds_tasks_by_job_update (entry_push j i))
               | None \<Rightarrow> ret ()) (\<lambda>_.
     and_then (case tk_parent_id t of Some p \<Rightarrow> modifies (ds_tasks_by_parent_update (entry_push p i))
               | None \<Rightarrow> ret ()) (\<lambda>_.
     modifies (ds_tasks_update (AList.update i t)))))"

text \<open>The loop of \<open>create_tasks\<close> repeats the body of \<open>create_task\<close>.\<close>

definition create_tasks :: "task list \<Rightarrow> unit ds" where
  "create_tasks = for_each create_task"

definition check_id :: "(string \<Rightarrow> id_error + 'a) \<Rightarrow> string \<Rightarrow> ds_error + unit" where
  "check_id parse i = map_err (\<lambda>e. InvalidId (id_error_display e)) (res_bind (parse i) (\<lambda>_. Inr ()))"

definition look_task :: "datastore \<Rightarrow> task_id \<Rightarrow> task option" where
  "look_task s i = map_of (ds_tasks s) i"

definition put_task :: "task_id \<Rightarrow> task \<Rightarrow> datastore \<Rightarrow> datastore" where
  "put_task i t = ds_tasks_update (AList.update i t)"

definition update_task :: "id_env \<Rightarrow> string \<Rightarrow> (task \<Rightarrow> ds_error + task) \<Rightarrow> unit ds" where
  "update_task env = update_in look_task put_task TaskNotFound (check_id (id_new (ie_alphanumeric env)))"

definition get_task_by_id :: "string \<Rightarrow> task ds" where
  "get_task_by_id i = and_then (asks (\<lambda>s. look_task s i)) (\<lambda>t. lift_res (ok_or t TaskNotFound))"

definition tasks_of_ids :: "datastore \<Rightarrow> task_id list \<Rightarrow> task list" where
  "tasks_of_ids s ids = map the (filter (\<lambda>t. t \<noteq> None) (map (look_task s) ids))"

definition tasks_for_job :: "id_env \<Rightarrow> string \<Rightarrow> (task \<Rightarrow> bool) \<Rightarrow> datastore \<Rightarrow> task list" where
  "tasks_for_job env job_id keep s =
     (case job_id_new (ie_uuid env) job_id of
        Inr j \<Rightarrow> (case map_of (ds_tasks_by_job s) j of
            Some ids \<Rightarrow> filter keep (tasks_of_ids s ids)
          | None \<Rightarrow> filter (\<lambda>t. tk_job_id t = Some job_id \<and> keep t) (map snd (ds_tasks s)))
      | Inl _ \<Rightarrow> filter (\<lambda>t. tk_job_id t = Some job_id \<and> keep t) (map snd (ds_tasks s)))"

definition get_active_tasks :: "id_env \<Rightarrow> string \<Rightarrow> task list ds" where
  "get_active_tasks env job_id = asks (tasks_for_job env job_id task_is_active)"

definition get_all_tasks_for_job :: "id_env \<Rightarrow> string \<Rightarrow> task list ds" where
  "get_all_tasks_for_job env job_id = asks (tasks_for_job env job_id (\<lambda>_. True))"

definition find_next_task :: "datastore \<Rightarrow> string \<Rightarrow> task option" where
  "find_next_task s parent =
     (case (case map_of (ds_tasks_by_parent s) parent of
              Some ids \<Rightarrow> find (\<lambda>t. tk_state t = TS_Created) (tasks_of_ids s ids)
            | None \<Rightarrow> None) of
        Some t \<Rightarrow> Some t
      | None \<Rightarrow> find (\<lambda>t. tk_parent_id t = Some parent \<and> tk_state t = TS_Created) (map snd (ds_tasks s)))"

definition get_next_task :: "string \<Rightarrow> task ds" where
  "get_next_task parent = and_then (asks (\<lambda>s. find_next_task s parent)) (\<lambda>t. lift_res (ok_or t TaskNotFound))"

definition create_task_log_part :: "task_log_part \<Rightarrow> unit ds" where
  "create_task_log_part part =
     and_then (lift_res (ok_or (lp_task_id part) (InvalidInput ''task_id required''))) (\<lambda>i.
       modifies (ds_task_log_parts_update (entry_push i part)))"

definition or_empty :: "'a list option \<Rightarrow> 'a list" where
  "or_empty x = (case x of None \<Rightarrow> [] | Some xs \<Rightarrow> xs)"

definition get_task_log_parts :: "string \<Rightarrow> string \<Rightarrow> i64 \<Rightarrow> i64 \<Rightarrow> task_log_part page ds" where
  "get_task_log_parts i q page sz =
     asks (\<lambda>s. paginate (or_empty (map_of (ds_task_log_parts s) i)) page sz)"

section \<open>Nodes, jobs, scheduled jobs\<close>

definition create_node :: "node \<Rightarrow> unit ds" where
  "create_node n = and_then (lift_res (id_required (nd_id n))) (\<lambda>i.
     modifies (ds_nodes_update (AList.update i n)))"

definition look_node :: "datastore \<Rightarrow> node_id \<Rightarrow> node option" where
  "look_node s i = map_of (ds_nodes s) i"

definition put_node :: "node_id \<Rightarrow> node \<Rightarrow> datastore \<Rightarrow> datastore" where
  "put_node i n = ds_nodes_update (AList.update i n)"

definition update_node :: "id_env \<Rightarrow> string \<Rightarrow> (node \<Rightarrow> ds_error + node) \<Rightarrow> unit ds" where
  "update_node env = update_in look_node put_node NodeNotFound (check_id (id_new (ie_alphanumeric env)))"

definition get_node_by_id :: "string \<Rightarrow> node ds" where
  "get_node_by_id i = and_then (asks (\<lambda>s. look_node s i)) (\<lambda>n. lift_res (ok_or n NodeNotFound))"

definition get_active_nodes :: "node list ds" where
  "get_active_nodes = asks (\<lambda>s. map snd (ds_nodes s))"

definition create_job :: "job \<Rightarrow> unit ds" where
  "create_job j = and_then (lift_res (id_required (jb_id j))) (\<lambda>i.
     modifies (ds_jobs_update (AList.update i j)))"

definition look_job :: "datastore \<Rightarrow> job_id \<Rightarrow> job option" where
  "look_job s i = map_of (ds_jobs s) i"

definition put_job :: "job_id \<Rightarrow> job \<Rightarrow> datastore \<Rightarrow> datastore" where
  "put_job i j = ds_jobs_update (AList.update i j)"

definition update_job :: "id_env \<Rightarrow> string \<Rightarrow> (job \<Rightarrow> ds_error + job) \<Rightarrow> unit ds" where
  "update_job env = update_in look_job put_job JobNotFound (check_id (job_id_new (ie_uuid env)))"

definition get_job_by_id :: "string \<Rightarrow> job ds" where
  "get_job_by_id i = and_then (asks (\<lambda>s. look_job s i)) (\<lambda>j. lift_res (ok_or j JobNotFound))"

definition get_job_log_parts :: "string \<Rightarrow> string \<Rightarrow> i64 \<Rightarrow> i64 \<Rightarrow> task_log_part page ds" where
  "get_job_log_parts job_id q page sz = asks (\<lambda>s.
     let ids = map (\<lambda>t. the (tk_id t))
           (filter (\<lambda>t. tk_job_id t = Some job_id \<and> tk_id t \<noteq> None) (map snd (ds_tasks s)))
     in paginate (concat (map (\<lambda>i. or_empty (map_of (ds_task_log_parts s) i)) ids)) page sz)"

definition get_jobs :: "string \<Rightarrow> string \<Rightarrow> i64 \<Rightarrow> i64 \<Rightarrow> job_summary page ds" where
  "get_jobs user q page sz = asks (\<lambda>s. paginate (map (new_job_summary \<circ> snd) (ds_jobs s)) page sz)"

definition del_job :: "job_id \<Rightarrow> datastore \<Rightarrow> datastore" where
  "del_job i = ds_jobs_update (AList.delete i)"

definition delete_job :: "string \<Rightarrow> unit ds" where
  "delete_job i = modifies (del_job i)"

definition create_scheduled_job :: "scheduled_job \<Rightarrow> unit ds" where
  "create_scheduled_job sj = and_then (lift_res (id_required (sc_id sj))) (\<lambda>i.
     modifies (ds_scheduled_jobs_update (AList.update i sj)))"

definition get_active_scheduled_jobs :: "scheduled_job list ds" where
  "get_active_scheduled_jobs =
     asks (\<lambda>s. filter (\<lambda>sj. sc_state sj = SJ_Active) (map snd (ds_scheduled_jobs s)))"

definition get_scheduled_jobs :: "string \<Rightarrow> i64 \<Rightarrow> i64 \<Rightarrow> scheduled_job_summary page ds" where
  "get_scheduled_jobs user page sz =
     asks (\<lambda>s. paginate (map (new_scheduled_job_summary \<circ> snd) (ds_scheduled_jobs s)) page sz)"

definition look_scheduled :: "datastore \<Rightarrow> scheduled_job_id \<Rightarrow> scheduled_job option" where
  "look_scheduled s i = map_of (ds_scheduled_jobs s) i"

definition put_scheduled :: "scheduled_job_id \<Rightarrow> scheduled_job \<Rightarrow> datastore \<Rightarrow> datastore" where
  "put_scheduled i sj = ds_scheduled_jobs_update (AList.update i sj)"

definition get_scheduled_job_by_id :: "string \<Rightarrow> scheduled_job ds" where
  "get_scheduled_job_by_id i =
     and_then (asks (\<lambda>s. look_scheduled s i)) (\<lambda>j. lift_res (ok_or j ScheduledJobNotFound))"

definition update_scheduled_job ::
    "id_env \<Rightarrow> string \<Rightarrow> (scheduled_job \<Rightarrow> ds_error + scheduled_job) \<Rightarrow> unit ds" where
  "update_scheduled_job env = update_in look_scheduled put_scheduled ScheduledJobNotFound
     (check_id (id_new (ie_alphanumeric env)))"

definition del_scheduled :: "scheduled_job_id \<Rightarrow> datastore \<Rightarrow> datastore" where
  "del_scheduled i = ds_scheduled_jobs_update (AList.delete i)"

definition delete_scheduled_job :: "string \<Rightarrow> unit ds" where
  "delete_scheduled_job i = modifies (del_scheduled i)"

section \<open>Users, roles, metrics\<close>

definition create_user :: "user \<Rightarrow> unit ds" where
  "create_user u = and_then (lift_res (id_required (us_id u))) (\<lambda>i.
     and_then (case us_username u of Some n \<Rightarrow> modifies (ds_users_update (AList.update n u))
               | None \<Rightarrow> ret ()) (\<lambda>_.
     modifies (ds_users_update (AList.update i u))))"

definition get_user :: "string \<Rightarrow> user ds" where
  "get_user n = and_then (asks (\<lambda>s. map_of (ds_users s) n)) (\<lambda>u. lift_res (ok_or u UserNotFound))"

definition create_role :: "role \<Rightarrow> unit ds" where
  "create_role r = and_then (lift_res (id_required (rl_id r))) (\<lambda>i.
     modifies (ds_roles_update (AList.update i r)))"

definition get_role :: "string \<Rightarrow> role ds" where
  "get_role i = and_then (asks (\<lambda>s. map_of (ds_roles s) i)) (\<lambda>r. lift_res (ok_or r RoleNotFound))"

definition get_roles :: "role list ds" where
  "get_roles = asks (\<lambda>s. map snd (ds_roles s))"

definition get_user_roles :: "string \<Rightarrow> role list ds" where
  "get_user_roles u = asks (\<lambda>s.
     map the (filter (\<lambda>r. r \<noteq> None)
       (map (map_of (ds_roles s)) (or_empty (map_of (ds_user_roles s) u)))))"

definition assign_role :: "string \<Rightarrow> string \<Rightarrow> unit ds" where
  "assign_role u r = modifies (ds_user_roles_update (entry_push u r))"

definition unassign_role :: "string \<Rightarrow> string \<Rightarrow> unit ds" where
  "unassign_role u r = modifies (ds_user_roles_update (\<lambda>m.
     case map_of m u of None \<Rightarrow> m | Some rs \<Rightarrow> AList.update u (filter (\<lambda>x. x \<noteq> r) rs) m))"

record metrics =
  mx_jobs_running :: i32
  mx_tasks_running :: i32
  mx_nodes_running :: i32
  mx_cpu_percent :: f64

definition get_metrics :: "metrics ds" where
  "get_metrics = asks (\<lambda>s.
     \<lparr>mx_jobs_running = word_of_nat (length (filter (\<lambda>j. jb_state j = JS_Running) (map snd (ds_jobs s)))),
      mx_tasks_running = word_of_nat (length (filter (\<lambda>t. tk_state t = TS_Running) (map snd (ds_tasks s)))),
      mx_nodes_running = word_of_nat (length (ds_nodes s)), mx_cpu_percent = f64_zero False\<rparr>)"

text \<open>\<open>with_tx\<close> runs the closure on the store itself, so an error rolls nothing back.\<close>

definition with_tx :: "unit ds \<Rightarrow> unit ds" where
  "with_tx f = f"

definition health_check :: "unit ds" where
  "health_check = ret ()"

section \<open>The stores meet the contract\<close>

interpretation task_store: keyed_store look_task put_task
  by unfold_locales (simp add: look_task_def put_task_def update_conv')

interpretation node_store: keyed_store look_node put_node
  by unfold_locales (simp add: look_node_def put_node_def update_conv')

interpretation job_store: keyed_store_del look_job put_job del_job
  by unfold_locales (auto simp: look_job_def put_job_def del_job_def update_conv' delete_conv')

interpretation scheduled_store: keyed_store_del look_scheduled put_scheduled del_scheduled
  by unfold_locales
     (auto simp: look_scheduled_def put_scheduled_def del_scheduled_def update_conv' delete_conv')

end
