(* ===== verification/Datastore_Props.thy ===== *)
theory Datastore_Props
  imports Datastore_Inmemory
begin

text \<open>
  Correctness of the in-memory datastore: the two secondary indexes agree with the task map in
  every state reached by creating tasks under fresh ids and updating them without changing
  their key fields; hence the indexed queries return exactly the tasks a scan would.
\<close>

section \<open>The indexes\<close>

text \<open>An index of the tasks by \<open>f\<close>: each task is listed once under its key, and nothing else is.\<close>

definition index_ok :: "(task \<Rightarrow> string option) \<Rightarrow> (string \<times> task_id list) list \<Rightarrow> datastore \<Rightarrow> bool" where
  "index_ok f ix s \<longleftrightarrow>
     (\<forall>i t k. look_task s i = Some t \<and> f t = Some k \<longrightarrow>
        (\<exists>ids. map_of ix k = Some ids \<and> i \<in> set ids)) \<and>
     (\<forall>k ids. map_of ix k = Some ids \<longrightarrow> distinct ids \<and>
        (\<forall>i \<in> set ids. \<exists>t. look_task s i = Some t \<and> f t = Some k))"

definition ds_inv :: "datastore \<Rightarrow> bool" where
  "ds_inv s \<longleftrightarrow>
     distinct (map fst (ds_tasks s)) \<and>
     (\<forall>i t. look_task s i = Some t \<longrightarrow> tk_id t = Some i) \<and>
     index_ok tk_job_id (ds_tasks_by_job s) s \<and>
     index_ok tk_parent_id (ds_tasks_by_parent s) s"

lemma look_put_task [simp]: "look_task (put_task i t s) i' = (if i' = i then Some t else look_task s i')"
  by (rule task_store.look_ins)

lemma put_task_sel [simp]:
  "ds_tasks_by_job (put_task i t s) = ds_tasks_by_job s"
  "ds_tasks_by_parent (put_task i t s) = ds_tasks_by_parent s"
  "ds_tasks (put_task i t s) = AList.update i t (ds_tasks s)"
  "ds_jobs (put_task i t s) = ds_jobs s"
  by (simp_all add: put_task_def)

definition index_add :: "string option \<Rightarrow> task_id \<Rightarrow> (string \<times> task_id list) list \<Rightarrow> (string \<times> task_id list) list" where
  "index_add k i ix = (case k of Some k \<Rightarrow> entry_push k i ix | None \<Rightarrow> ix)"

lemma create_task_run:
  "create_task t s = (case tk_id t of
     None \<Rightarrow> (Inl (InvalidInput ''id required''), s)
   | Some i \<Rightarrow> (Inr (), put_task i t (s\<lparr>ds_tasks_by_job := index_add (tk_job_id t) i (ds_tasks_by_job s),
       ds_tasks_by_parent := index_add (tk_parent_id t) i (ds_tasks_by_parent s)\<rparr>)))"
  by (auto simp: create_task_def eff_simps id_required_def ok_or_def index_add_def put_task_def
      split: option.splits)

lemma look_task_frame [simp]:
  "look_task (s\<lparr>ds_tasks_by_job := a, ds_tasks_by_parent := b\<rparr>) = look_task s"
  by (simp add: look_task_def fun_eq_iff)

lemma index_okI:
  assumes "\<And>i t k. look_task s i = Some t \<Longrightarrow> f t = Some k \<Longrightarrow> \<exists>ids. map_of ix k = Some ids \<and> i \<in> set ids"
    and "\<And>k ids. map_of ix k = Some ids \<Longrightarrow> distinct ids"
    and "\<And>k ids i. map_of ix k = Some ids \<Longrightarrow> i \<in> set ids \<Longrightarrow> \<exists>t. look_task s i = Some t \<and> f t = Some k"
  shows "index_ok f ix s"
  using assms unfolding index_ok_def by blast

lemma index_okD:
  assumes "index_ok f ix s"
  shows "look_task s i = Some t \<Longrightarrow> f t = Some k \<Longrightarrow> \<exists>ids. map_of ix k = Some ids \<and> i \<in> set ids"
    and "map_of ix k = Some ids \<Longrightarrow> distinct ids"
    and "map_of ix k = Some ids \<Longrightarrow> i \<in> set ids \<Longrightarrow> \<exists>t. look_task s i = Some t \<and> f t = Some k"
  using assms unfolding index_ok_def by blast+

lemma index_ok_add:
  assumes ok: "index_ok f ix s" and fresh: "look_task s i = None"
    and look: "\<And>i'. look_task s' i' = (if i' = i then Some t else look_task s i')"
  shows "index_ok f (index_add (f t) i ix) s'"
proof -
  let ?ix = "index_add (f t) i ix"
  have old: "map_of ?ix k = (if f t = Some k
      then Some ((case map_of ix k of None \<Rightarrow> [] | Some ids \<Rightarrow> ids) @ [i]) else map_of ix k)" for k
    by (auto simp: index_add_def split: option.splits)
  have nin: "i \<notin> set ids" if "map_of ix k = Some ids" for k ids
    using index_okD(3) [OF ok that, of i] fresh by auto
  show ?thesis
  proof (rule index_okI)
    fix i' t' k assume a: "look_task s' i' = Some t'" "f t' = Some k"
    show "\<exists>ids. map_of ?ix k = Some ids \<and> i' \<in> set ids"
    proof (cases "i' = i")
      case True
      then show ?thesis using a look old by auto
    next
      case False
      then obtain ids where "map_of ix k = Some ids" "i' \<in> set ids"
        using index_okD(1) [OF ok] a look by metis
      then show ?thesis using old by auto
    qed
  next
    fix k ids assume "map_of ?ix k = Some ids"
    then show "distinct ids"
    proof (cases "f t = Some k")
      case True
      then have e: "ids = (case map_of ix k of None \<Rightarrow> [] | Some ids \<Rightarrow> ids) @ [i]"
        using \<open>map_of ?ix k = Some ids\<close> unfolding old by simp
      show ?thesis
      proof (cases "map_of ix k")
        case None
        then show ?thesis using e by simp
      next
        case (Some ids0)
        show ?thesis using e nin [OF Some] index_okD(2) [OF ok Some] by (simp add: Some)
      qed
    next
      case False
      then have "map_of ix k = Some ids" using \<open>map_of ?ix k = Some ids\<close> old [of k] by simp
      then show ?thesis by (rule index_okD(2) [OF ok])
    qed
  next
    fix k ids i' assume a: "map_of ?ix k = Some ids" "i' \<in> set ids"
    show "\<exists>t'. look_task s' i' = Some t' \<and> f t' = Some k"
    proof (cases "i' = i")
      case True
      have "f t = Some k" using a True old [of k] nin by (auto split: if_splits)
      then show ?thesis using True look by simp
    next
      case False
      obtain ids' where "map_of ix k = Some ids'" "i' \<in> set ids'"
        using a False old [of k] by (auto split: if_splits option.splits)
      then show ?thesis using index_okD(3) [OF ok] False look by simp
    qed
  qed
qed

lemma create_task_inv:
  assumes inv: "ds_inv s" and i: "tk_id t = Some i" and fresh: "look_task s i = None"
  shows "ds_inv (snd (create_task t s))"
proof -
  let ?s = "s\<lparr>ds_tasks_by_job := index_add (tk_job_id t) i (ds_tasks_by_job s),
       ds_tasks_by_parent := index_add (tk_parent_id t) i (ds_tasks_by_parent s)\<rparr>"
  have "snd (create_task t s) = put_task i t ?s" using i by (simp add: create_task_run)
  moreover have "index_ok f (index_add (f t) i ix) (put_task i t ?s)" if "index_ok f ix s" for f ix
    using index_ok_add [OF that fresh, of "put_task i t ?s" t] by simp
  ultimately show ?thesis
    using inv i unfolding ds_inv_def by (auto simp: distinct_update)
qed

definition key_preserving :: "(task \<Rightarrow> ds_error + task) \<Rightarrow> bool" where
  "key_preserving f \<longleftrightarrow> (\<forall>t t'. f t = Inr t' \<longrightarrow>
     tk_id t' = tk_id t \<and> tk_job_id t' = tk_job_id t \<and> tk_parent_id t' = tk_parent_id t)"

lemma index_ok_put:
  assumes "index_ok f ix s" and "look_task s i = Some t" and "f t' = f t"
  shows "index_ok f ix (put_task i t' s)"
proof (rule index_okI)
  fix i' t1 k assume "look_task (put_task i t' s) i' = Some t1" "f t1 = Some k"
  then show "\<exists>ids. map_of ix k = Some ids \<and> i' \<in> set ids"
    using index_okD(1) [OF assms(1)] assms(2,3) by (cases "i' = i") auto
next
  fix k ids i' assume "map_of ix k = Some ids" "i' \<in> set ids"
  then show "\<exists>t1. look_task (put_task i t' s) i' = Some t1 \<and> f t1 = Some k"
    using index_okD(3) [OF assms(1)] assms(2,3) by (cases "i' = i") fastforce+
qed (use index_okD(2) [OF assms(1)] in blast)

lemma put_task_inv:
  assumes "ds_inv s" and "look_task s i = Some t" and "tk_id t' = tk_id t"
    and "tk_job_id t' = tk_job_id t" and "tk_parent_id t' = tk_parent_id t"
  shows "ds_inv (put_task i t' s)"
  using assms index_ok_put [of _ _ s i t t'] unfolding ds_inv_def
  by (auto simp: distinct_update)

lemma update_task_inv:
  "key_preserving f \<Longrightarrow> keeps ds_inv (update_task env i f)"
  unfolding keeps_def update_task_def key_preserving_def
  by (auto simp: task_store.update_result split: option.splits sum.splits intro: put_task_inv)

lemma new_datastore_inv [simp]: "ds_inv new_datastore"
  by (simp add: ds_inv_def index_ok_def new_datastore_def look_task_def)

text \<open>
  The operations that change the state, one transition each. A task is created under a fresh
  id, as the callers do, which draw it from \<open>new_short_uuid\<close>.
\<close>

inductive ds_reach :: "id_env \<Rightarrow> datastore \<Rightarrow> bool" for env where
  init: "ds_reach env new_datastore"
| create_task: "ds_reach env s \<Longrightarrow> tk_id t = Some i \<Longrightarrow> look_task s i = None
    \<Longrightarrow> ds_reach env (snd (create_task t s))"
| update_task: "ds_reach env s \<Longrightarrow> key_preserving f \<Longrightarrow> ds_reach env (snd (update_task env i f s))"
| create_job: "ds_reach env s \<Longrightarrow> ds_reach env (snd (create_job j s))"
| update_job: "ds_reach env s \<Longrightarrow> ds_reach env (snd (update_job env i g s))"
| delete_job: "ds_reach env s \<Longrightarrow> ds_reach env (snd (delete_job i s))"
| create_node: "ds_reach env s \<Longrightarrow> ds_reach env (snd (create_node n s))"
| update_node: "ds_reach env s \<Longrightarrow> ds_reach env (snd (update_node env i h s))"
| log_part: "ds_reach env s \<Longrightarrow> ds_reach env (snd (create_task_log_part p s))"
| create_scheduled: "ds_reach env s \<Longrightarrow> ds_reach env (snd (create_scheduled_job sj s))"
| update_scheduled: "ds_reach env s \<Longrightarrow> ds_reach env (snd (update_scheduled_job env i k s))"
| delete_scheduled: "ds_reach env s \<Longrightarrow> ds_reach env (snd (delete_scheduled_job i s))"
| create_user: "ds_reach env s \<Longrightarrow> ds_reach env (snd (create_user u s))"
| create_role: "ds_reach env s \<Longrightarrow> ds_reach env (snd (create_role r s))"
| assign_role: "ds_reach env s \<Longrightarrow> ds_reach env (snd (assign_role a b s))"
| unassign_role: "ds_reach env s \<Longrightarrow> ds_reach env (snd (unassign_role a b s))"

definition task_part :: "datastore \<Rightarrow> (task_id \<times> task) list \<times> (job_id \<times> task_id list) list \<times>
    (string \<times> task_id list) list" where
  "task_part s = (ds_tasks s, ds_tasks_by_job s, ds_tasks_by_parent s)"

lemma ds_inv_frame: "task_part s' = task_part s \<Longrightarrow> ds_inv s' = ds_inv s"
  unfolding ds_inv_def index_ok_def look_task_def task_part_def by simp

lemma task_part_upd [simp]:
  "task_part (put_job i j s) = task_part s" "task_part (put_node i n s) = task_part s"
  "task_part (put_scheduled i sj s) = task_part s" "task_part (del_job i s) = task_part s"
  "task_part (del_scheduled i s) = task_part s"
  "task_part (ds_task_log_parts_update h1 s) = task_part s"
  "task_part (ds_users_update h2 s) = task_part s" "task_part (ds_roles_update h3 s) = task_part s"
  "task_part (ds_user_roles_update h4 s) = task_part s"
  "task_part (ds_jobs_update h5 s) = task_part s" "task_part (ds_nodes_update h6 s) = task_part s"
  "task_part (ds_scheduled_jobs_update h7 s) = task_part s"
  by (simp_all add: task_part_def put_job_def put_node_def put_scheduled_def del_job_def
      del_scheduled_def)

lemma task_part_ops:
  "task_part (snd (create_job j s)) = task_part s"
  "task_part (snd (update_job env i g s)) = task_part s"
  "task_part (snd (delete_job i s)) = task_part s"
  "task_part (snd (create_node n s)) = task_part s"
  "task_part (snd (update_node env i h s)) = task_part s"
  "task_part (snd (create_task_log_part p s)) = task_part s"
  "task_part (snd (create_scheduled_job sj s)) = task_part s"
  "task_part (snd (update_scheduled_job env i k s)) = task_part s"
  "task_part (snd (delete_scheduled_job i s)) = task_part s"
  "task_part (snd (create_user u s)) = task_part s"
  "task_part (snd (create_role r s)) = task_part s"
  "task_part (snd (assign_role a b s)) = task_part s"
  "task_part (snd (unassign_role a b s)) = task_part s"
  unfolding create_job_def update_job_def delete_job_def create_node_def update_node_def
    create_task_log_part_def create_scheduled_job_def update_scheduled_job_def
    delete_scheduled_job_def create_user_def create_role_def assign_role_def unassign_role_def
    job_store.update_result node_store.update_result scheduled_store.update_result id_required_def
    ok_or_def
  by (simp_all add: eff_simps split: option.splits sum.splits)

lemmas task_part_inv = task_part_ops [THEN ds_inv_frame]

lemma ds_reach_inv: "ds_reach env s \<Longrightarrow> ds_inv s"
proof (induction rule: ds_reach.induct)
  case (create_task s t i)
  then show ?case by (intro create_task_inv)
next
  case (update_task s f i)
  then show ?case using update_task_inv unfolding keeps_def by blast
qed (simp_all add: task_part_inv)

section \<open>Queries\<close>

lemma look_in_tasks: "ds_inv s \<Longrightarrow> (i, t) \<in> set (ds_tasks s) \<longleftrightarrow> look_task s i = Some t"
  unfolding ds_inv_def look_task_def by (auto intro: map_of_SomeD)

lemma set_tasks_of_ids: "set (tasks_of_ids s ids) = {t. \<exists>i \<in> set ids. look_task s i = Some t}"
  unfolding tasks_of_ids_def by (auto simp: image_iff) force

lemma distinct_tasks_of_ids:
  "ds_inv s \<Longrightarrow> distinct ids \<Longrightarrow> distinct (map tk_id (tasks_of_ids s ids))"
proof (induction ids)
  case (Cons i ids)
  have "tk_id t = Some i" if "look_task s i = Some t" for i t
    using Cons.prems(1) that unfolding ds_inv_def by blast
  then show ?case
    using Cons set_tasks_of_ids [of s ids]
    by (auto simp: tasks_of_ids_def)
qed (simp add: tasks_of_ids_def)

lemma distinct_all_tasks: "ds_inv s \<Longrightarrow> distinct (map tk_id (map snd (ds_tasks s)))"
proof -
  assume inv: "ds_inv s"
  have "tk_id (snd x) = Some (fst x)" if "x \<in> set (ds_tasks s)" for x
    using inv look_in_tasks [OF inv, of "fst x" "snd x"] that unfolding ds_inv_def by simp
  then have "map tk_id (map snd (ds_tasks s)) = map Some (map fst (ds_tasks s))" by simp
  moreover have "distinct (map Some (map fst (ds_tasks s)))"
    using inv unfolding ds_inv_def by (intro distinct_map [THEN iffD2]) simp_all
  ultimately show ?thesis by metis
qed

lemma scan_set:
  "ds_inv s \<Longrightarrow> set (filter q (map snd (ds_tasks s))) = {t. (\<exists>i. look_task s i = Some t) \<and> q t}"
  using look_in_tasks by (force simp: image_iff)

lemma tasks_for_job_exact:
  assumes inv: "ds_inv s"
  shows "set (tasks_for_job env j keep s) =
      {t. (\<exists>i. look_task s i = Some t) \<and> tk_job_id t = Some j \<and> keep t}"
    and "distinct (map tk_id (tasks_for_job env j keep s))"
proof -
  have ix: "index_ok tk_job_id (ds_tasks_by_job s) s" using inv by (simp add: ds_inv_def)
  have idj: "k = j" if "job_id_new u j = Inr k" for u k
    using that by (auto simp: job_id_new_def res_simps)
  show "set (tasks_for_job env j keep s) =
      {t. (\<exists>i. look_task s i = Some t) \<and> tk_job_id t = Some j \<and> keep t}"
  proof (cases "job_id_new (ie_uuid env) j")
    case (Inl e)
    then show ?thesis using scan_set [OF inv] by (simp add: tasks_for_job_def)
  next
    case (Inr k)
    then have k: "k = j" by (rule idj)
    show ?thesis
    proof (cases "map_of (ds_tasks_by_job s) j")
      case None
      then show ?thesis using scan_set [OF inv] Inr k by (simp add: tasks_for_job_def)
    next
      case (Some ids)
      then have "{t. \<exists>i \<in> set ids. look_task s i = Some t} =
          {t. (\<exists>i. look_task s i = Some t) \<and> tk_job_id t = Some j}"
        using index_okD(1) [OF ix, of _ _ j] index_okD(3) [OF ix Some] by fastforce
      then show ?thesis using Some Inr k set_tasks_of_ids [of s ids] by (auto simp: tasks_for_job_def)
    qed
  qed
  have "distinct ids" if "map_of (ds_tasks_by_job s) k = Some ids" for k ids
    using ix that unfolding index_ok_def by blast
  then have ids: "distinct (map tk_id (tasks_of_ids s ids))"
    if "map_of (ds_tasks_by_job s) k = Some ids" for k ids
    using distinct_tasks_of_ids [OF inv] that by blast
  have scan: "distinct (map tk_id (filter q (map snd (ds_tasks s))))" for q
    using distinct_all_tasks [OF inv] by (rule distinct_map_filter)
  show "distinct (map tk_id (tasks_for_job env j keep s))"
    unfolding tasks_for_job_def
    by (intro conjI allI impI scan distinct_map_filter ids | simp only: split: sum.split option.split)+
qed

lemma find_next_task_exact:
  assumes inv: "ds_inv s"
  shows "find_next_task s p = Some t \<Longrightarrow>
      (\<exists>i. look_task s i = Some t) \<and> tk_parent_id t = Some p \<and> tk_state t = TS_Created"
    and "find_next_task s p = None \<longleftrightarrow>
      \<not> (\<exists>i t. look_task s i = Some t \<and> tk_parent_id t = Some p \<and> tk_state t = TS_Created)"
proof -
  have ix: "index_ok tk_parent_id (ds_tasks_by_parent s) s" using inv by (simp add: ds_inv_def)
  have child: "(\<exists>i. look_task s i = Some t) \<and> tk_parent_id t = Some p \<and> tk_state t = TS_Created"
    if "map_of (ds_tasks_by_parent s) p = Some ids"
      "find (\<lambda>t. tk_state t = TS_Created) (tasks_of_ids s ids) = Some t" for ids t
  proof -
    have "t \<in> set (tasks_of_ids s ids)" "tk_state t = TS_Created"
      using that(2) by (auto simp: find_Some_iff)
    then show ?thesis using set_tasks_of_ids [of s ids] index_okD(3) [OF ix that(1)] by fastforce
  qed
  have scan: "(\<exists>i. look_task s i = Some t) \<and> tk_parent_id t = Some p \<and> tk_state t = TS_Created"
    if "find (\<lambda>t. tk_parent_id t = Some p \<and> tk_state t = TS_Created) (map snd (ds_tasks s)) = Some t" for t
  proof -
    have "t \<in> set (map snd (ds_tasks s))" "tk_parent_id t = Some p" "tk_state t = TS_Created"
      using that by (auto simp: find_Some_iff)
    then show ?thesis using look_in_tasks [OF inv] by fastforce
  qed
  show some: "find_next_task s p = Some t \<Longrightarrow>
      (\<exists>i. look_task s i = Some t) \<and> tk_parent_id t = Some p \<and> tk_state t = TS_Created" for t
  proof -
    assume f: "find_next_task s p = Some t"
    let ?scan = "find (\<lambda>t. tk_parent_id t = Some p \<and> tk_state t = TS_Created) (map snd (ds_tasks s))"
    show ?thesis
    proof (cases "?scan = Some t")
      case True
      then show ?thesis by (rule scan)
    next
      case False
      then obtain ids where "map_of (ds_tasks_by_parent s) p = Some ids"
          "find (\<lambda>t. tk_state t = TS_Created) (tasks_of_ids s ids) = Some t"
        using f unfolding find_next_task_def
        by (cases "map_of (ds_tasks_by_parent s) p")
           (simp_all del: find_Some_iff split: option.split_asm)
      then show ?thesis by (rule child)
    qed
  qed
  have none: "\<not> (look_task s i = Some t \<and> tk_parent_id t = Some p \<and> tk_state t = TS_Created)"
    if "find_next_task s p = None" for i t
  proof -
    have "find (\<lambda>t. tk_parent_id t = Some p \<and> tk_state t = TS_Created) (map snd (ds_tasks s)) = None"
      using that by (auto simp: find_next_task_def split: option.splits)
    then show ?thesis using look_in_tasks [OF inv, of i t] by (force simp: find_None_iff)
  qed
  show "find_next_task s p = None \<longleftrightarrow>
      \<not> (\<exists>i t. look_task s i = Some t \<and> tk_parent_id t = Some p \<and> tk_state t = TS_Created)"
    using some none by (cases "find_next_task s p") blast+
qed

section \<open>Pages\<close>

lemma paginate_items:
  assumes "0 < n" and "n < 2 ^ 63" and "p * n < 2 ^ 63"
  shows "pg_items (paginate xs (word_of_nat (Suc p)) (word_of_nat n)) = take n (drop (p * n) xs)"
proof -
  have p: "p < 2 ^ 63"
    using assms le_less_trans [of p "p * n" "2 ^ 63"] by simp
  have u: "unat (word_of_nat m :: i64) = m" if "m < 2 ^ 63" for m
    using that by (simp add: unat_of_nat)
  have s: "sint (word_of_nat p :: i64) = int p"
    using sint_word_of_int_i64 [of "int p"] p by (simp add: in_i64_def i64_min_def i64_max_def)
  have z: "0 <s (word_of_nat p :: i64) \<longleftrightarrow> p \<noteq> 0"
    by (simp add: word_sless_alt s)
  have m: "unat (word_of_nat p * word_of_nat n :: i64) = p * n"
    using u [OF assms(3)] by (simp flip: of_nat_mult)
  show ?thesis
    by (cases "p = 0") (simp_all add: paginate_def Let_def z m u [OF assms(2)])
qed

section \<open>Properties\<close>

text \<open>In every state the datastore reaches from empty, the tasks listed for a job are exactly
  the stored tasks with that job id, each once, and the active ones exactly the active among
  them, whether or not the query finds the secondary index.\<close>

theorem job_queries_exact:
  "ds_reach env s \<Longrightarrow>
    (\<exists>ts. get_all_tasks_for_job env j s = (Inr ts, s) \<and> distinct (map tk_id ts) \<and>
      set ts = {t. (\<exists>i. look_task s i = Some t) \<and> tk_job_id t = Some j}) \<and>
    (\<exists>ts. get_active_tasks env j s = (Inr ts, s) \<and> distinct (map tk_id ts) \<and>
      set ts = {t. (\<exists>i. look_task s i = Some t) \<and> tk_job_id t = Some j \<and> is_active (tk_state t)})"
  using tasks_for_job_exact [OF ds_reach_inv, of env s env j "\<lambda>_. True"]
    tasks_for_job_exact [OF ds_reach_inv, of env s env j task_is_active]
  by (simp add: get_all_tasks_for_job_def get_active_tasks_def asks_def task_is_active_def)

definition one_task :: datastore where
  "one_task = snd (create_task (Task (default_hdr\<lparr>th_id := Some ''t1'', th_job_id := Some ''j1'',
     th_parent_id := Some ''p1''\<rparr>) None None None None None None) new_datastore)"

lemma one_task_reach: "ds_reach env one_task"
  unfolding one_task_def
  by (rule ds_reach.create_task [OF ds_reach.init, of _ "''t1''"])
     (simp_all add: default_hdr_def look_task_def new_datastore_def)

theorem job_queries_exact_witness:
  "\<exists>ts. get_active_tasks \<lparr>ie_alphanumeric = \<lambda>_. False, ie_uuid = \<lambda>_. False\<rparr> ''j1'' one_task =
     (Inr ts, one_task) \<and> length ts = 1"
proof -
  let ?e = "\<lparr>ie_alphanumeric = \<lambda>_. False, ie_uuid = \<lambda>_. False\<rparr>"
  obtain ts where ts: "get_active_tasks ?e ''j1'' one_task = (Inr ts, one_task)"
    "distinct (map tk_id ts)" "set ts = {t. (\<exists>i. look_task one_task i = Some t) \<and>
       tk_job_id t = Some ''j1'' \<and> is_active (tk_state t)}"
    using job_queries_exact [OF one_task_reach, of ?e "''j1''"] by blast
  have "{t. (\<exists>i. look_task one_task i = Some t) \<and> tk_job_id t = Some ''j1'' \<and> is_active (tk_state t)} =
      {the (look_task one_task ''t1'')}"
    by (auto simp: one_task_def create_task_run default_hdr_def new_datastore_def look_task_def
        index_add_def put_task_def split: if_splits)
  then have "length ts = 1"
    using ts(2,3) distinct_card [of ts] by (simp add: distinct_map)
  then show ?thesis using ts(1) by blast
qed

text \<open>\<open>get_next_task\<close> returns a stored child of the parent that is still Created, and fails with
  TaskNotFound exactly when there is none.\<close>

theorem next_task_exact:
  "ds_reach env s \<Longrightarrow> case get_next_task p s of
      (Inr t, s') \<Rightarrow> s' = s \<and> (\<exists>i. look_task s i = Some t) \<and> tk_parent_id t = Some p \<and>
        tk_state t = TS_Created
    | (Inl e, s') \<Rightarrow> s' = s \<and> e = TaskNotFound \<and>
        \<not> (\<exists>i t. look_task s i = Some t \<and> tk_parent_id t = Some p \<and> tk_state t = TS_Created)"
  using find_next_task_exact [OF ds_reach_inv, of env s p]
  by (cases "find_next_task s p") (simp_all add: get_next_task_def eff_simps)

theorem next_task_exact_witness:
  "case get_next_task ''p1'' one_task of (Inr t, s') \<Rightarrow> tk_parent_id t = Some ''p1'' | (Inl e, s') \<Rightarrow> e = TaskNotFound"
  using next_task_exact [OF one_task_reach, of "''p1''"]
  by (auto split: prod.splits sum.splits)

text \<open>Updating a task or a job succeeds exactly when the entry exists,
  the closure accepts it and the id parses; then the entry is what the closure returned. An
  update that fails changes nothing, and no update touches another entry.\<close>

theorem updates_exact:
  "(update_task env i f s = (case look_task s i of
     None \<Rightarrow> (Inl TaskNotFound, s)
   | Some x \<Rightarrow> (case f x of Inl e \<Rightarrow> (Inl e, s)
     | Inr y \<Rightarrow> (case id_new (ie_alphanumeric env) i of
         Inl e \<Rightarrow> (Inl (InvalidId (id_error_display e)), s)
       | Inr _ \<Rightarrow> (Inr (), put_task i y s))))) \<and>
   (update_job env i g s = (case look_job s i of
     None \<Rightarrow> (Inl JobNotFound, s)
   | Some x \<Rightarrow> (case g x of Inl e \<Rightarrow> (Inl e, s)
     | Inr y \<Rightarrow> (case job_id_new (ie_uuid env) i of
         Inl e \<Rightarrow> (Inl (InvalidId (id_error_display e)), s)
       | Inr _ \<Rightarrow> (Inr (), put_job i y s))))) \<and>
   look_task (put_task i t s) i' = (if i' = i then Some t else look_task s i') \<and>
   look_job (put_job i j s) i' = (if i' = i then Some j else look_job s i')"
  by (auto simp: update_task_def update_job_def task_store.update_result job_store.update_result
      job_store.look_ins check_id_def split: option.splits sum.splits)

text \<open>The pages of a list in sequence are the list, as long as the offsets fit in 63 bits.\<close>

theorem pages_concat:
  "0 < n \<Longrightarrow> n < 2 ^ 63 \<Longrightarrow> k * n < 2 ^ 63 \<Longrightarrow>
    concat (map (\<lambda>p. pg_items (paginate xs (word_of_nat (Suc p)) (word_of_nat n))) [0..<k]) =
    take (k * n) xs"
proof (induction k)
  case (Suc k)
  have "k * n < 2 ^ 63" using Suc.prems by simp
  moreover have "take (Suc k * n) xs = take (k * n) xs @ take n (drop (k * n) xs)"
    by (simp only: mult_Suc add.commute [of n] take_add)
  ultimately show ?case
    using Suc paginate_items [of n k xs] by (simp del: of_nat_Suc mult_Suc)
qed simp

theorem pages_concat_witness:
  "concat (map (\<lambda>p. pg_items (paginate [1, 2, 3, 4, 5 :: nat] (word_of_nat (Suc p)) (word_of_nat 2))) [0..<2]) =
    [1, 2, 3, 4]"
  using pages_concat [of 2 2 "[1, 2, 3, 4, 5 :: nat]"] by simp


section \<open>The abstract store\<close>

text \<open>
  What the datastore promises of tasks and jobs: two finite maps. The association lists, the secondary
  indexes and the order of checks are the implementation's.
\<close>

record store =
  st_tasks :: "string \<Rightarrow> task option"
  st_jobs :: "string \<Rightarrow> job option"

definition abs_store :: "datastore \<Rightarrow> store" where
  "abs_store s = \<lparr>st_tasks = look_task s, st_jobs = look_job s\<rparr>"

definition spec_put :: "('e \<Rightarrow> ds_error) \<Rightarrow> ('a option) \<Rightarrow> ds_error \<Rightarrow> ('a \<Rightarrow> ds_error + 'a) \<Rightarrow> ('e + 'k) \<Rightarrow> ('a \<Rightarrow> 'st) \<Rightarrow> 'st
    \<Rightarrow> (ds_error + unit) \<times> 'st" where
  "spec_put bad found missing f key put st =
     (case res_bind (ok_or found missing) (\<lambda>x. res_bind (f x) (\<lambda>y. res_bind (map_err bad key) (\<lambda>_. Inr y))) of
        Inl e \<Rightarrow> (Inl e, st)
      | Inr y \<Rightarrow> (Inr (), put y))"

definition bad_id :: "id_error \<Rightarrow> ds_error" where "bad_id e = InvalidId (id_error_display e)"

datatype ds_op =
    Op_CreateTask task | Op_UpdateTask string "task \<Rightarrow> ds_error + task"
  | Op_CreateJob job | Op_UpdateJob string "job \<Rightarrow> ds_error + job" | Op_DeleteJob string

fun ds_exec :: "id_env \<Rightarrow> ds_op \<Rightarrow> unit ds" where
  "ds_exec env (Op_CreateTask t) = create_task t"
| "ds_exec env (Op_UpdateTask i f) = update_task env i f"
| "ds_exec env (Op_CreateJob j) = create_job j"
| "ds_exec env (Op_UpdateJob i g) = update_job env i g"
| "ds_exec env (Op_DeleteJob i) = delete_job i"

fun spec_exec :: "id_env \<Rightarrow> ds_op \<Rightarrow> store \<Rightarrow> (ds_error + unit) \<times> store" where
  "spec_exec env (Op_CreateTask t) st = (case tk_id t of
     None \<Rightarrow> (Inl (InvalidInput ''id required''), st)
   | Some i \<Rightarrow> (Inr (), st\<lparr>st_tasks := (st_tasks st)(i \<mapsto> t)\<rparr>))"
| "spec_exec env (Op_UpdateTask i f) st = spec_put bad_id (st_tasks st i) TaskNotFound f
     (id_new (ie_alphanumeric env) i) (\<lambda>t. st\<lparr>st_tasks := (st_tasks st)(i \<mapsto> t)\<rparr>) st"
| "spec_exec env (Op_CreateJob j) st = (case jb_id j of
     None \<Rightarrow> (Inl (InvalidInput ''id required''), st)
   | Some i \<Rightarrow> (Inr (), st\<lparr>st_jobs := (st_jobs st)(i \<mapsto> j)\<rparr>))"
| "spec_exec env (Op_UpdateJob i g) st = spec_put bad_id (st_jobs st i) JobNotFound g
     (job_id_new (ie_uuid env) i) (\<lambda>j. st\<lparr>st_jobs := (st_jobs st)(i \<mapsto> j)\<rparr>) st"
| "spec_exec env (Op_DeleteJob i) st = (Inr (), st\<lparr>st_jobs := (st_jobs st)(i := None)\<rparr>)"

lemma abs_put:
  "abs_store (put_task i t s) = (abs_store s)\<lparr>st_tasks := (st_tasks (abs_store s))(i \<mapsto> t)\<rparr>"
  "abs_store (put_job i j s) = (abs_store s)\<lparr>st_jobs := (st_jobs (abs_store s))(i \<mapsto> j)\<rparr>"
  "abs_store (del_job i s) = (abs_store s)\<lparr>st_jobs := (st_jobs (abs_store s))(i := None)\<rparr>"
proof -
  have frame: "look_job (put_task i t s) = look_job s" "look_task (put_job i j s) = look_task s"
    "look_task (del_job i s) = look_task s"
    by (simp_all add: look_job_def look_task_def put_task_def put_job_def del_job_def fun_eq_iff)
  show "abs_store (put_task i t s) = (abs_store s)\<lparr>st_tasks := (st_tasks (abs_store s))(i \<mapsto> t)\<rparr>"
    "abs_store (put_job i j s) = (abs_store s)\<lparr>st_jobs := (st_jobs (abs_store s))(i \<mapsto> j)\<rparr>"
    "abs_store (del_job i s) = (abs_store s)\<lparr>st_jobs := (st_jobs (abs_store s))(i := None)\<rparr>"
    using frame by (auto simp: abs_store_def fun_eq_iff job_store.look_ins job_store.look_del)
qed

fun ds_exec_all :: "id_env \<Rightarrow> ds_op list \<Rightarrow> datastore \<Rightarrow> (ds_error + unit) list \<times> datastore" where
  "ds_exec_all env [] s = ([], s)"
| "ds_exec_all env (c # cs) s =
     (case ds_exec env c s of (r, s1) \<Rightarrow> (case ds_exec_all env cs s1 of (rs, s2) \<Rightarrow> (r # rs, s2)))"

fun spec_exec_all :: "id_env \<Rightarrow> ds_op list \<Rightarrow> store \<Rightarrow> (ds_error + unit) list \<times> store" where
  "spec_exec_all env [] st = ([], st)"
| "spec_exec_all env (c # cs) st =
     (case spec_exec env c st of (r, st1) \<Rightarrow> (case spec_exec_all env cs st1 of (rs, st2) \<Rightarrow> (r # rs, st2)))"

lemma exec_refines: "map_prod id abs_store (ds_exec env c s) = spec_exec env c (abs_store s)"
proof (cases c)
  case (Op_CreateTask t)
  have "abs_store (s\<lparr>ds_tasks_by_job := a, ds_tasks_by_parent := b\<rparr>) = abs_store s" for a b
    by (simp add: abs_store_def look_job_def fun_eq_iff)
  then show ?thesis using Op_CreateTask by (simp add: create_task_run abs_put split: option.split)
next
  case (Op_CreateJob j)
  then show ?thesis
    using abs_put(2) by (simp add: create_job_def id_required_def eff_simps put_job_def ok_or_def split: option.split)
next
  case (Op_UpdateTask i f)
  then show ?thesis
    by (auto simp: update_task_def task_store.update_result check_id_def spec_put_def bad_id_def abs_put
        ok_or_def map_err_def split: option.split sum.split)
       (auto simp: abs_store_def)
next
  case (Op_UpdateJob i g)
  then show ?thesis
    by (auto simp: update_job_def job_store.update_result check_id_def spec_put_def bad_id_def abs_put
        ok_or_def map_err_def split: option.split sum.split)
       (auto simp: abs_store_def)
next
  case (Op_DeleteJob i)
  then show ?thesis by (simp add: delete_job_def modifies_def abs_put)
qed

text \<open>C17. The datastore refines two maps, one of tasks and one of jobs: every sequence of creations,
  updates and deletions gives the same results, errors included, and leaves a state that looks
  the same.\<close>

theorem datastore_refines:
  "map_prod id abs_store (ds_exec_all env cs s) = spec_exec_all env cs (abs_store s)"
proof (induction cs arbitrary: s)
  case (Cons c cs)
  obtain r s1 where 1: "ds_exec env c s = (r, s1)" by (cases "ds_exec env c s")
  then have "spec_exec env c (abs_store s) = (r, abs_store s1)" using exec_refines [of env c s] by simp
  then show ?case using 1 Cons [of s1] by (auto split: prod.splits)
qed simp

end
