(* ===== verification/Wildcard.thy ===== *)
theory Wildcard
  imports Twerk_Prelude
begin

text \<open>
  Topic patterns (\<open>twerk-common/src/wildcard.rs\<close>): the dynamic program of \<open>wildcard_match\<close>
  over one flat array of \<open>(lp + 1) * (ls + 1)\<close> cells, and what it decides: whether the
  string splits into one piece per pattern character, any piece for a star and the character
  itself otherwise.
\<close>

abbreviation star :: string where "star \<equiv> ''*''"

definition is_wild_pattern :: "string \<Rightarrow> bool" where
  "is_wild_pattern pat \<longleftrightarrow> star \<in> set (utf8_chars pat)"

definition init_cell :: "string list \<Rightarrow> nat \<Rightarrow> bool list \<Rightarrow> nat \<Rightarrow> bool list" where
  "init_cell pc ls dp i =
     dp[(i + 1) * (ls + 1) := (if pc ! i = star then dp ! (i * (ls + 1)) else False)]"

definition step_cell :: "string \<Rightarrow> string list \<Rightarrow> nat \<Rightarrow> bool list \<Rightarrow> nat \<Rightarrow> bool list" where
  "step_cell p sc i dp j =
     (let w = length sc + 1 in
      dp[(i + 1) * w + (j + 1) :=
        (if p = star then dp ! (i * w + j) \<or> dp ! (i * w + (j + 1)) \<or> dp ! ((i + 1) * w + j)
         else if p = sc ! j then dp ! (i * w + j)
         else False)])"

definition step_row :: "string list \<Rightarrow> string list \<Rightarrow> bool list \<Rightarrow> nat \<Rightarrow> bool list" where
  "step_row pc sc dp i = foldl (step_cell (pc ! i) sc i) dp [0..<length sc]"

definition wildcard_match :: "string \<Rightarrow> string \<Rightarrow> bool" where
  "wildcard_match pat s =
     (if pat = [] then s = []
      else if pat = star then True
      else if \<not> is_wild_pattern pat then pat = s
      else let pc = utf8_chars pat; sc = utf8_chars s; lp = length pc; ls = length sc;
             dp = (replicate ((lp + 1) * (ls + 1)) False)[0 := True];
             dp = foldl (init_cell pc ls) dp [0..<lp];
             dp = foldl (step_row pc sc) dp [0..<lp]
           in dp ! (lp * (ls + 1) + ls))"

section \<open>What a pattern matches\<close>

definition piece :: "string \<Rightarrow> string list \<Rightarrow> bool" where
  "piece c seg \<longleftrightarrow> c = star \<or> seg = [c]"

definition wild :: "string list \<Rightarrow> string list \<Rightarrow> bool" where
  "wild pc sc \<longleftrightarrow> (\<exists>segs. list_all2 piece pc segs \<and> concat segs = sc)"

lemma wild_Nil [simp]: "wild [] sc \<longleftrightarrow> sc = []"
  by (auto simp: wild_def)

lemma wild_snoc:
  "wild (pc @ [c]) sc \<longleftrightarrow> (\<exists>u v. sc = u @ v \<and> wild pc u \<and> piece c v)"
proof
  assume "wild (pc @ [c]) sc"
  then obtain segs where "list_all2 piece (pc @ [c]) segs" "concat segs = sc"
    by (auto simp: wild_def)
  then obtain s1 v where "segs = s1 @ [v]" "list_all2 piece pc s1" "piece c v"
    by (auto simp: list_all2_append1 list_all2_Cons1)
  then show "\<exists>u v. sc = u @ v \<and> wild pc u \<and> piece c v"
    using \<open>concat segs = sc\<close> by (auto simp: wild_def)
next
  assume "\<exists>u v. sc = u @ v \<and> wild pc u \<and> piece c v"
  then obtain u v segs where "sc = u @ v" "list_all2 piece pc segs" "concat segs = u" "piece c v"
    by (auto simp: wild_def)
  then have "list_all2 piece (pc @ [c]) (segs @ [v]) \<and> concat (segs @ [v]) = sc"
    by (simp add: list_all2_appendI)
  then show "wild (pc @ [c]) sc" unfolding wild_def by blast
qed

text \<open>The recurrence of the array.\<close>

lemma wild_star_Nil: "wild (pc @ [star]) [] \<longleftrightarrow> wild pc []"
  by (auto simp: wild_snoc piece_def)

lemma wild_char_Nil: "c \<noteq> star \<Longrightarrow> \<not> wild (pc @ [c]) []"
  by (auto simp: wild_snoc piece_def)

lemma wild_char: "c \<noteq> star \<Longrightarrow> wild (pc @ [c]) (sc @ [d]) \<longleftrightarrow> c = d \<and> wild pc sc"
  by (auto simp: wild_snoc piece_def)

lemma wild_star:
  "wild (pc @ [star]) (sc @ [d]) \<longleftrightarrow> wild pc (sc @ [d]) \<or> wild (pc @ [star]) sc"
proof
  assume "wild (pc @ [star]) (sc @ [d])"
  then obtain u v where uv: "sc @ [d] = u @ v" "wild pc u" by (auto simp: wild_snoc)
  show "wild pc (sc @ [d]) \<or> wild (pc @ [star]) sc"
  proof (cases v rule: rev_cases)
    case Nil
    then show ?thesis using uv by simp
  next
    case (snoc v' e)
    then have "sc = u @ v'" using uv(1) by (simp add: append_assoc [symmetric] del: append_assoc)
    then show ?thesis using uv(2) by (auto simp: wild_snoc piece_def)
  qed
next
  assume "wild pc (sc @ [d]) \<or> wild (pc @ [star]) sc"
  then show "wild (pc @ [star]) (sc @ [d])"
  proof
    assume "wild pc (sc @ [d])"
    then have "sc @ [d] = (sc @ [d]) @ [] \<and> wild pc (sc @ [d]) \<and> piece star []"
      by (simp add: piece_def)
    then show ?thesis unfolding wild_snoc by blast
  next
    assume "wild (pc @ [star]) sc"
    then obtain u v where "sc = u @ v" "wild pc u" by (auto simp: wild_snoc)
    then have "sc @ [d] = u @ (v @ [d]) \<and> wild pc u \<and> piece star (v @ [d])"
      by (simp add: piece_def)
    then show ?thesis unfolding wild_snoc by blast
  qed
qed

section \<open>The array\<close>

text \<open>Cell \<open>(i, j)\<close> is the answer for the first \<open>i\<close> pattern and \<open>j\<close> string characters.\<close>

definition cell_ok :: "string list \<Rightarrow> string list \<Rightarrow> bool list \<Rightarrow> nat \<Rightarrow> nat \<Rightarrow> bool" where
  "cell_ok pc sc dp i j \<longleftrightarrow>
     dp ! (i * (length sc + 1) + j) = wild (take i pc) (take j sc)"

lemma cell_index_inj:
  assumes "j < w" and "j' < w"
  shows "i * w + j = i' * w + j' \<longleftrightarrow> i = i' \<and> j = (j' :: nat)"
proof
  assume e: "i * w + j = i' * w + j'"
  have "(i * w + j) div w = i" "(i' * w + j') div w = i'" using assms by simp_all
  then have "i = i'" using e by metis
  then show "i = i' \<and> j = j'" using e by simp
qed simp

lemma cell_index_bound:
  assumes "i \<le> n" and "j < w"
  shows "i * w + j < (n + 1) * (w :: nat)"
  using mult_le_mono1 [OF assms(1), of w] assms(2) unfolding add_mult_distrib by linarith

text \<open>Writing one cell leaves the others.\<close>

lemma cell_ok_update:
  assumes "length dp = (length pc + 1) * (length sc + 1)" and "i \<le> length pc" and "j \<le> length sc"
    and "i' \<le> length pc" and "j' \<le> length sc"
    and "v = wild (take i pc) (take j sc)"
    and "(i', j') \<noteq> (i, j) \<Longrightarrow> cell_ok pc sc dp i' j'"
  shows "cell_ok pc sc (dp[i * (length sc + 1) + j := v]) i' j'"
  using assms cell_index_inj [of j "length sc + 1" j' i i']
    cell_index_bound [of i "length pc" j "length sc + 1"]
  unfolding cell_ok_def by (cases "(i', j') = (i, j)") (auto simp: nth_list_update)

lemma take_Suc_snoc: "i < length xs \<Longrightarrow> take (Suc i) xs = take i xs @ [xs ! i]"
  by (rule take_Suc_conv_app_nth)

lemma init_ok:
  assumes "n \<le> length pc" and "length dp = (length pc + 1) * (length sc + 1)"
    and "\<forall>j \<le> length sc. cell_ok pc sc dp 0 j"
  defines "dp' \<equiv> foldl (init_cell pc (length sc)) dp [0..<n]"
  shows "length dp' = length dp \<and> (\<forall>j \<le> length sc. cell_ok pc sc dp' 0 j) \<and>
    (\<forall>i \<le> n. cell_ok pc sc dp' i 0)"
  using assms(1) unfolding dp'_def
proof (induction n)
  case 0
  then show ?case using assms(3) by simp
next
  case (Suc n)
  let ?dp = "foldl (init_cell pc (length sc)) dp [0..<n]"
  have IH: "length ?dp = length dp" "\<forall>j \<le> length sc. cell_ok pc sc ?dp 0 j"
    "\<forall>i \<le> n. cell_ok pc sc ?dp i 0" using Suc by simp_all
  have v: "(if pc ! n = star then ?dp ! (n * (length sc + 1)) else False) =
      wild (take (n + 1) pc) (take 0 sc)"
    using IH(3) Suc.prems unfolding Suc_eq_plus1 [symmetric]
    by (auto simp: cell_ok_def take_Suc_snoc wild_star_Nil wild_char_Nil)
  have cell: "cell_ok pc sc (init_cell pc (length sc) ?dp n) i j"
    if "i \<le> length pc" "j \<le> length sc" "(i, j) \<noteq> (Suc n, 0) \<Longrightarrow> cell_ok pc sc ?dp i j" for i j
    using cell_ok_update [of ?dp pc sc "n + 1" 0, OF _ _ _ that(1,2) v]
      IH(1) Suc.prems assms(2) that(3)
    unfolding init_cell_def by simp
  have "cell_ok pc sc (init_cell pc (length sc) ?dp n) 0 j" if "j \<le> length sc" for j
    using IH(2) that cell [of 0 j] by simp
  moreover have "cell_ok pc sc (init_cell pc (length sc) ?dp n) i 0" if "i \<le> Suc n" for i
    using IH(3) that Suc.prems
      cell [of i 0]
    by (cases "i = Suc n") simp_all
  moreover have "length (init_cell pc (length sc) ?dp n) = length dp"
    using IH(1) by (simp add: init_cell_def)
  ultimately show ?case by simp
qed

lemma row_ok:
  assumes "m \<le> length sc" and "i < length pc" and "length dp = (length pc + 1) * (length sc + 1)"
    and "\<forall>i' \<le> length pc. cell_ok pc sc dp i' 0"
    and "\<forall>i' \<le> i. \<forall>j \<le> length sc. cell_ok pc sc dp i' j"
  defines "dp' \<equiv> foldl (step_cell (pc ! i) sc i) dp [0..<m]"
  shows "length dp' = length dp \<and> (\<forall>i' \<le> length pc. cell_ok pc sc dp' i' 0) \<and>
    (\<forall>i' \<le> i. \<forall>j \<le> length sc. cell_ok pc sc dp' i' j) \<and> (\<forall>j \<le> m. cell_ok pc sc dp' (Suc i) j)"
  using assms(1) unfolding dp'_def
proof (induction m)
  case 0
  then show ?case using assms(2,4,5) by simp
next
  case (Suc m)
  let ?dp = "foldl (step_cell (pc ! i) sc i) dp [0..<m]"
  have IH: "length ?dp = length dp" "\<forall>i' \<le> length pc. cell_ok pc sc ?dp i' 0"
    "\<forall>i' \<le> i. \<forall>j \<le> length sc. cell_ok pc sc ?dp i' j" "\<forall>j \<le> m. cell_ok pc sc ?dp (Suc i) j"
    using Suc by simp_all
  have c: "cell_ok pc sc ?dp i m" "cell_ok pc sc ?dp i (Suc m)" "cell_ok pc sc ?dp (Suc i) m"
    using IH Suc.prems by simp_all
  have t: "take (Suc i) pc = take i pc @ [pc ! i]" "take (Suc m) sc = take m sc @ [sc ! m]"
    using assms(2) Suc.prems by (simp_all add: take_Suc_snoc)
  let ?w = "length sc + 1"
  have v: "(if pc ! i = star then ?dp ! (i * ?w + m) \<or> ?dp ! (i * ?w + (m + 1)) \<or> ?dp ! ((i + 1) * ?w + m)
      else if pc ! i = sc ! m then ?dp ! (i * ?w + m) else False) =
      wild (take (i + 1) pc) (take (m + 1) sc)"
  proof (cases "pc ! i = star")
    case True
    have "wild (take i pc) (take m sc) \<Longrightarrow> wild (take i pc @ [star]) (take m sc)"
      unfolding wild_snoc piece_def by (metis append.right_neutral)
    then show ?thesis
      using c True unfolding cell_ok_def Suc_eq_plus1 [symmetric] t by (auto simp: wild_star)
  next
    case False
    then show ?thesis
      using c unfolding cell_ok_def Suc_eq_plus1 [symmetric] t by (auto simp: wild_char)
  qed
  have cell: "cell_ok pc sc (step_cell (pc ! i) sc i ?dp m) i' j"
    if "i' \<le> length pc" "j \<le> length sc" "(i', j) \<noteq> (Suc i, Suc m) \<Longrightarrow> cell_ok pc sc ?dp i' j" for i' j
    unfolding step_cell_def [of "pc ! i" sc i ?dp m] Let_def
    by (rule cell_ok_update [OF _ _ _ that(1,2) v]) (use IH(1) Suc.prems assms(2,3) that(3) in simp_all)
  let ?dp' = "step_cell (pc ! i) sc i ?dp m"
  have "cell_ok pc sc ?dp' i' 0" if "i' \<le> length pc" for i'
    using IH(2) that cell [of i' 0] by simp
  moreover have "cell_ok pc sc ?dp' i' j" if "i' \<le> i" "j \<le> length sc" for i' j
    using IH(3) that assms(2) cell [of i' j] by simp
  moreover have "cell_ok pc sc ?dp' (Suc i) j" if "j \<le> Suc m" for j
    using IH(4) that assms(2) Suc.prems cell [of "Suc i" j] by (cases "j = Suc m") simp_all
  moreover have "length ?dp' = length dp" using IH(1) by (simp add: step_cell_def Let_def)
  ultimately show ?case by simp
qed

lemma rows_ok:
  assumes "n \<le> length pc" and "length dp = (length pc + 1) * (length sc + 1)"
    and "\<forall>j \<le> length sc. cell_ok pc sc dp 0 j" and "\<forall>i \<le> length pc. cell_ok pc sc dp i 0"
  defines "dp' \<equiv> foldl (step_row pc sc) dp [0..<n]"
  shows "length dp' = length dp \<and> (\<forall>i \<le> length pc. cell_ok pc sc dp' i 0) \<and>
    (\<forall>i \<le> n. \<forall>j \<le> length sc. cell_ok pc sc dp' i j)"
  using assms(1) unfolding dp'_def
proof (induction n)
  case 0
  then show ?case using assms(3,4) by simp
next
  case (Suc n)
  let ?dp = "foldl (step_row pc sc) dp [0..<n]" and ?dp' = "step_row pc sc (foldl (step_row pc sc) dp [0..<n]) n"
  have IH: "length ?dp = length dp" "\<forall>i \<le> length pc. cell_ok pc sc ?dp i 0"
    "\<forall>i \<le> n. \<forall>j \<le> length sc. cell_ok pc sc ?dp i j" using Suc by simp_all
  have row: "length ?dp' = length ?dp" "\<forall>i \<le> length pc. cell_ok pc sc ?dp' i 0"
    "\<forall>i \<le> n. \<forall>j \<le> length sc. cell_ok pc sc ?dp' i j" "\<forall>j \<le> length sc. cell_ok pc sc ?dp' (Suc n) j"
    using row_ok [of "length sc" sc n pc ?dp] IH Suc.prems assms(2)
    unfolding step_row_def [of pc sc ?dp n] by simp_all
  have "cell_ok pc sc ?dp' i j" if "i \<le> Suc n" "j \<le> length sc" for i j
    using row(3,4) that by (cases "i = Suc n") simp_all
  then show ?case using row(1,2) IH(1) by simp
qed

section \<open>Early exits\<close>

lemma first_char_split: "first_char s @ drop (length (first_char s)) s = s"
proof -
  have "take k s @ drop (length (take k s)) s = s" for k
    by (cases "k \<le> length s") (simp_all add: min_def)
  then show ?thesis by (cases s) (simp_all only: first_char_def Let_def list.case, simp)
qed

lemma concat_utf8_chars [simp]: "concat (utf8_chars s) = s"
proof (induction s rule: utf8_chars.induct)
  case (2 b bs)
  then show ?case using first_char_split [of "b # bs"] by simp
qed simp

lemma utf8_chars_eq: "utf8_chars s = utf8_chars t \<longleftrightarrow> s = t"
  by (metis concat_utf8_chars)

lemma utf8_chars_Nil [simp]: "utf8_chars s = [] \<longleftrightarrow> s = []"
  using utf8_chars_eq [of s "[]"] by simp

lemma wild_no_star: "star \<notin> set pc \<Longrightarrow> wild pc sc \<longleftrightarrow> pc = sc"
proof (induction pc arbitrary: sc rule: rev_induct)
  case (snoc c pc)
  then have c: "c \<noteq> star" "star \<notin> set pc" by auto
  show ?case
    by (cases sc rule: rev_cases) (auto simp: c wild_char_Nil wild_char snoc.IH)
qed auto

lemma wildcard_match_wild: "wildcard_match pat s \<longleftrightarrow> wild (utf8_chars pat) (utf8_chars s)"
proof -
  let ?pc = "utf8_chars pat" and ?sc = "utf8_chars s"
  let ?dp0 = "(replicate ((length ?pc + 1) * (length ?sc + 1)) False)[0 := True]"
  let ?dp1 = "foldl (init_cell ?pc (length ?sc)) ?dp0 [0..<length ?pc]"
  have z: "\<forall>j \<le> length ?sc. cell_ok ?pc ?sc ?dp0 0 j"
    by (auto simp: cell_ok_def nth_list_update nth_Cons' less_Suc_eq_le)
  have 1: "length ?dp1 = length ?dp0" "\<forall>j \<le> length ?sc. cell_ok ?pc ?sc ?dp1 0 j"
    "\<forall>i \<le> length ?pc. cell_ok ?pc ?sc ?dp1 i 0"
    using init_ok [of "length ?pc" ?pc ?dp0 ?sc] z by simp_all
  have "cell_ok ?pc ?sc (foldl (step_row ?pc ?sc) ?dp1 [0..<length ?pc]) (length ?pc) (length ?sc)"
    using rows_ok [of "length ?pc" ?pc ?dp1 ?sc] 1 by simp
  then have dp: "foldl (step_row ?pc ?sc) ?dp1 [0..<length ?pc] !
      (length ?pc * (length ?sc + 1) + length ?sc) = wild ?pc ?sc"
    by (simp add: cell_ok_def)
  have st: "utf8_chars star = [star]" by (simp add: first_char_def)
  have "wild [star] sc" for sc :: "string list"
    using wild_snoc [of "[]" star sc] by (simp add: piece_def)
  then show ?thesis
    using dp wild_no_star [of ?pc ?sc] st
    by (auto simp: wildcard_match_def is_wild_pattern_def Let_def utf8_chars_eq)
qed

text \<open>\<open>wildcard_match\<close> accepts a string exactly when it splits into one piece for every character
  of the pattern, in order, any piece for a star and the character itself otherwise; the
  dynamic program and its early exits agree on this.\<close>

theorem wildcard_match_iff:
  "wildcard_match pat s \<longleftrightarrow>
     (\<exists>segs. list_all2 (\<lambda>c seg. if c = star then True else seg = [c]) (utf8_chars pat) segs \<and>
        concat segs = utf8_chars s)"
proof -
  have "piece = (\<lambda>c seg. if c = star then True else seg = [c])"
    by (auto simp: piece_def fun_eq_iff)
  then show ?thesis using wildcard_match_wild [of pat s] by (simp add: wild_def)
qed

end
