(* ===== verification/Queue_Names.thy ===== *)
theory Queue_Names
  imports Twerk_Prelude
begin

text \<open>
  Names of queues (\<open>broker/queue.rs\<close>, \<open>broker/utils.rs\<close>): the constants, the suffix that ties a
  coordinator queue to one engine, and the split of queues into coordinator and worker queues.
\<close>

definition QUEUE_PENDING :: string where "QUEUE_PENDING = ''x-pending''"
definition QUEUE_COMPLETED :: string where "QUEUE_COMPLETED = ''x-completed''"
definition QUEUE_FAILED :: string where "QUEUE_FAILED = ''x-failed''"
definition QUEUE_STARTED :: string where "QUEUE_STARTED = ''x-started''"
definition QUEUE_HEARTBEAT :: string where "QUEUE_HEARTBEAT = ''x-heartbeat''"
definition QUEUE_JOBS :: string where "QUEUE_JOBS = ''x-jobs''"
definition QUEUE_PROGRESS :: string where "QUEUE_PROGRESS = ''x-progress''"
definition QUEUE_TASK_LOG_PART :: string where "QUEUE_TASK_LOG_PART = ''x-task_log_part''"
definition QUEUE_EXCLUSIVE_PREFIX :: string where "QUEUE_EXCLUSIVE_PREFIX = ''x-exclusive.''"
definition QUEUE_REDELIVERIES :: string where "QUEUE_REDELIVERIES = ''x-redeliveries''"

lemmas queue_defs = QUEUE_PENDING_def QUEUE_COMPLETED_def QUEUE_FAILED_def QUEUE_STARTED_def
  QUEUE_HEARTBEAT_def QUEUE_JOBS_def QUEUE_PROGRESS_def QUEUE_TASK_LOG_PART_def
  QUEUE_EXCLUSIVE_PREFIX_def QUEUE_REDELIVERIES_def

text \<open>\<open>str::trim\<close>: the white space at the end is that at the start of the reversed string.\<close>

definition trim_end :: "string \<Rightarrow> string" where
  "trim_end s = rev (trim_by (map rev white_spaces) (rev s))"

definition trim :: "string \<Rightarrow> string" where
  "trim s = trim_end (trim_start s)"

definition prefixed_queue :: "string \<Rightarrow> string \<Rightarrow> string" where
  "prefixed_queue queue engine_id =
     (let trimmed = trim engine_id
      in if trimmed = [] \<or> suffix (''.'' @ trimmed) queue then queue else queue @ ''.'' @ trimmed)"

definition coordinator_queue_names :: "string list" where
  "coordinator_queue_names = [QUEUE_COMPLETED, QUEUE_FAILED, QUEUE_STARTED, QUEUE_HEARTBEAT, QUEUE_JOBS,
     QUEUE_PROGRESS, QUEUE_TASK_LOG_PART, QUEUE_REDELIVERIES]"

definition base_queue_name :: "string \<Rightarrow> string" where
  "base_queue_name qname =
     (case find (\<lambda>q. prefix (q @ ''.'') qname) coordinator_queue_names of Some q \<Rightarrow> q | None \<Rightarrow> qname)"

fun find_map :: "('a \<Rightarrow> 'b option) \<Rightarrow> 'a list \<Rightarrow> 'b option" where
  "find_map f [] = None"
| "find_map f (x # xs) = (case f x of Some y \<Rightarrow> Some y | None \<Rightarrow> find_map f xs)"

definition extract_engine_id :: "string \<Rightarrow> string option" where
  "extract_engine_id queue_name =
     find_map (\<lambda>q.
       if prefix (q @ ''.'') queue_name
       then let trimmed = trim (drop (length (q @ ''.'')) queue_name)
         in if trimmed = [] then None else Some trimmed
       else None) coordinator_queue_names"

definition is_coordinator_queue :: "string \<Rightarrow> bool" where
  "is_coordinator_queue qname \<longleftrightarrow> base_queue_name qname \<in> set coordinator_queue_names"

definition is_worker_queue :: "string \<Rightarrow> bool" where
  "is_worker_queue qname \<longleftrightarrow> \<not> is_coordinator_queue qname \<and> \<not> prefix QUEUE_EXCLUSIVE_PREFIX qname"

definition is_task_queue :: "string \<Rightarrow> bool" where
  "is_task_queue qname \<longleftrightarrow> is_worker_queue qname"

section \<open>Trimming\<close>

lemma strip_one_None: "strip_one ws s = None \<longleftrightarrow> (\<forall>w \<in> set ws. w = [] \<or> \<not> prefix w s)"
  by (induction ws) auto

lemma strip_one_trim_by [simp]: "strip_one ws (trim_by ws s) = None"
  by (induction ws s rule: trim_by.induct) (subst trim_by.simps, simp split: option.split)

lemma trim_by_fix: "strip_one ws s = None \<Longrightarrow> trim_by ws s = s"
  by (subst trim_by.simps) simp

lemma trim_by_suffix: "suffix (trim_by ws s) s"
proof (induction ws s rule: trim_by.induct)
  case (1 ws s)
  have "suffix s' s" if "strip_one ws s = Some s'" for s'
    using that by (induction ws) (auto split: if_splits simp: suffix_drop)
  then show ?case
    using 1 by (subst trim_by.simps) (auto split: option.split intro: suffix_order.trans)
qed

lemma trim_trim [simp]: "trim (trim s) = trim s"
proof -
  let ?u = "trim_start s"
  have "prefix (trim_end ?u) ?u"
    using trim_by_suffix [of "map rev white_spaces" "rev ?u"]
    by (simp add: trim_end_def suffix_to_prefix)
  then have "strip_one white_spaces (trim_end ?u) = None"
    using strip_one_trim_by [of white_spaces s] prefix_order.trans
    unfolding strip_one_None trim_start_def by blast
  then have "trim_start (trim s) = trim s"
    by (simp add: trim_def trim_start_def trim_by_fix)
  moreover have "trim_end (trim s) = trim s"
    by (simp add: trim_def trim_end_def trim_by_fix)
  ultimately show ?thesis by (simp add: trim_def)
qed

definition visible :: "char \<Rightarrow> bool" where
  "visible c \<longleftrightarrow> 33 \<le> (of_char c :: nat) \<and> (of_char c :: nat) < 128"

lemma white_space_ends: "w \<in> set white_spaces \<Longrightarrow> w \<noteq> [] \<and> \<not> visible (hd w) \<and> \<not> visible (last w)"
  by (auto simp: white_spaces_def visible_def upt_rec)

lemma trim_visible:
  assumes "s \<noteq> []" "visible (hd s)" "visible (last s)"
  shows "trim s = s"
proof -
  have "\<not> prefix w s" if "w \<in> set white_spaces" for w
    using white_space_ends [OF that] assms(1,2) by (cases w; cases s) auto
  then have 1: "trim_start s = s" by (simp add: trim_start_def trim_by_fix strip_one_None)
  have "\<not> prefix (rev w) (rev s)" if "w \<in> set white_spaces" for w
    using white_space_ends [OF that] assms(1,3) by (cases w rule: rev_cases; cases s rule: rev_cases) auto
  then have "trim_end s = s" by (simp add: trim_end_def trim_by_fix strip_one_None)
  with 1 show ?thesis by (simp add: trim_def)
qed

section \<open>Round trip\<close>

lemma names_no_dot: "q \<in> set coordinator_queue_names \<Longrightarrow> CHR ''.'' \<notin> set q"
  by (auto simp: coordinator_queue_names_def queue_defs)

lemma prefix_dot:
  assumes "CHR ''.'' \<notin> set p" and "CHR ''.'' \<notin> set q"
  shows "prefix (p @ ''.'') (q @ ''.'' @ t) \<longleftrightarrow> p = q"
proof
  assume "prefix (p @ ''.'') (q @ ''.'' @ t)"
  then obtain u where "p @ CHR ''.'' # u = q @ CHR ''.'' # t" by (auto simp: prefix_def)
  then have "takeWhile (\<lambda>c. c \<noteq> CHR ''.'') (p @ CHR ''.'' # u) =
      takeWhile (\<lambda>c. c \<noteq> CHR ''.'') (q @ CHR ''.'' # t)" by simp
  moreover have "takeWhile (\<lambda>c. c \<noteq> CHR ''.'') (p @ CHR ''.'' # u) = p"
    using assms(1) by (subst takeWhile_append2) auto
  moreover have "takeWhile (\<lambda>c. c \<noteq> CHR ''.'') (q @ CHR ''.'' # t) = q"
    using assms(2) by (subst takeWhile_append2) auto
  ultimately show "p = q" by simp
qed (simp add: prefix_def)

lemma find_map_unique:
  "q \<in> set qs \<Longrightarrow> f q = Some y \<Longrightarrow> (\<And>q'. q' \<in> set qs \<Longrightarrow> q' \<noteq> q \<Longrightarrow> f q' = None)
    \<Longrightarrow> find_map f qs = Some y"
proof (induction qs)
  case (Cons a qs)
  then show ?case by (cases "a = q") auto
qed simp

lemma prefixed_coordinator:
  assumes "q \<in> set coordinator_queue_names" and "trim e \<noteq> []"
  shows "prefixed_queue q e = q @ ''.'' @ trim e"
  using names_no_dot [OF assms(1)] assms(2)
  by (auto simp: prefixed_queue_def Let_def suffix_def)

text \<open>A coordinator queue tied to an engine is read back: the id extracted from the name is
  the engine's id without surrounding white space, the name is still a coordinator queue and no
  worker queue, and tying it again changes nothing.\<close>

theorem engine_id_roundtrip:
  "q \<in> set coordinator_queue_names \<Longrightarrow> trim e \<noteq> [] \<Longrightarrow>
     extract_engine_id (prefixed_queue q e) = Some (trim e) \<and>
     base_queue_name (prefixed_queue q e) = q \<and>
     \<not> is_worker_queue (prefixed_queue q e) \<and>
     prefixed_queue (prefixed_queue q e) e = prefixed_queue q e"
proof -
  assume q: "q \<in> set coordinator_queue_names" and e: "trim e \<noteq> []"
  let ?n = "q @ ''.'' @ trim e"
  have p: "prefix (q' @ ''.'') ?n \<longleftrightarrow> q' = q" if "q' \<in> set coordinator_queue_names" for q'
    using that names_no_dot q by (intro prefix_dot) blast+
  have "extract_engine_id ?n = Some (trim e)"
    unfolding extract_engine_id_def
    by (rule find_map_unique [of q]) (use q e p in \<open>simp_all add: Let_def\<close>)
  moreover have b: "base_queue_name ?n = q"
  proof -
    have "find (\<lambda>q'. prefix (q' @ ''.'') ?n) coordinator_queue_names = Some q"
    proof (cases "find (\<lambda>q'. prefix (q' @ ''.'') ?n) coordinator_queue_names")
      case None
      then show ?thesis using q p by (auto simp: find_None_iff)
    next
      case (Some q')
      then have "q' \<in> set coordinator_queue_names \<and> prefix (q' @ ''.'') ?n"
        by (auto simp: find_Some_iff)
      then show ?thesis using Some p [of q'] by blast
    qed
    then show ?thesis by (simp add: base_queue_name_def)
  qed
  moreover have "prefixed_queue ?n e = ?n"
    by (simp add: prefixed_queue_def Let_def suffix_def)
  ultimately show ?thesis
    using q prefixed_coordinator [OF q e] by (simp add: is_worker_queue_def is_coordinator_queue_def)
qed

theorem engine_id_roundtrip_witness:
  "extract_engine_id (prefixed_queue ''x-jobs'' '' e1 '') = Some ''e1''"
proof -
  have "trim '' e1 '' = ''e1''" by code_simp
  then show ?thesis
    using engine_id_roundtrip [of "''x-jobs''" "'' e1 ''"]
    by (simp add: coordinator_queue_names_def queue_defs)
qed

end
