(* ===== verification/Broker_Inmemory.thy ===== *)
theory Broker_Inmemory
  imports Datastore_Inmemory Wildcard Queue_Names
begin

text \<open>
  The in-memory broker (\<open>twerk-infrastructure/src/broker/inmemory\<close>). A handler is a closure; here
  it is a name of type \<open>'h\<close>. Publishing stores the message and starts one invocation per
  handler of the queue: the invocations started so far are the list \<open>bk_spawned\<close>, which a
  scheduler runs in any order (tokio). The maps are association lists. The threshold that
  chooses between two ways of spawning does not change which invocations are started; typed
  channels are the list of events sent to each.
\<close>

datatype message =
    M_Task task
  | M_Job job
  | M_Node node
  | M_Event json
  | M_LogPart task_log_part

record 'h broker =
  bk_tasks :: "(string \<times> task list) list"
  bk_handlers :: "(string \<times> 'h list) list"
  bk_job_handlers :: "'h list"
  bk_progress_handlers :: "'h list"
  bk_event_handlers :: "(string \<times> 'h list) list"
  bk_channels :: "(string \<times> job_event list) list"
  bk_heartbeat_handlers :: "'h list"
  bk_heartbeats :: "(string \<times> node) list"
  bk_log_handlers :: "'h list"
  bk_log_parts :: "(string \<times> task_log_part list) list"
  bk_spawned :: "('h \<times> message) list"

definition new_broker :: "'h broker" where
  "new_broker = \<lparr>bk_tasks = [], bk_handlers = [], bk_job_handlers = [], bk_progress_handlers = [],
     bk_event_handlers = [], bk_channels = [], bk_heartbeat_handlers = [], bk_heartbeats = [],
     bk_log_handlers = [], bk_log_parts = [], bk_spawned = []\<rparr>"

section \<open>Publishing\<close>

definition spawn :: "'h list \<Rightarrow> message \<Rightarrow> 'h broker \<Rightarrow> 'h broker" where
  "spawn hs msg b = b\<lparr>bk_spawned := bk_spawned b @ map (\<lambda>h. (h, msg)) hs\<rparr>"

definition queue_handlers :: "'h broker \<Rightarrow> string \<Rightarrow> 'h list" where
  "queue_handlers b q = or_empty (map_of (bk_handlers b) q)"

text \<open>\<open>map.entry(k).or_default().extend(vs)\<close>.\<close>

definition entry_extend :: "'k \<Rightarrow> 'v list \<Rightarrow> ('k \<times> 'v list) list \<Rightarrow> ('k \<times> 'v list) list" where
  "entry_extend k vs m = AList.update k (or_empty (map_of m k) @ vs) m"

definition publish_task :: "string \<Rightarrow> task \<Rightarrow> 'h broker \<Rightarrow> 'h broker" where
  "publish_task q t b =
     (let handlers = queue_handlers b q;
          b = b\<lparr>bk_tasks := entry_push q t (bk_tasks b)\<rparr>
      in if length handlers > 0 then spawn handlers (M_Task t) b else b)"

definition publish_tasks :: "string \<Rightarrow> task list \<Rightarrow> 'h broker \<Rightarrow> 'h broker" where
  "publish_tasks q ts b =
     (let handlers = queue_handlers b q
      in if handlers = [] then b\<lparr>bk_tasks := entry_extend q ts (bk_tasks b)\<rparr>
         else fold (\<lambda>t. spawn handlers (M_Task t)) ts (b\<lparr>bk_tasks := entry_extend q ts (bk_tasks b)\<rparr>))"

definition publish_task_progress :: "task \<Rightarrow> 'h broker \<Rightarrow> 'h broker" where
  "publish_task_progress t b = spawn (bk_progress_handlers b) (M_Task t) b"

definition publish_heartbeat :: "node \<Rightarrow> 'h broker \<Rightarrow> 'h broker" where
  "publish_heartbeat n b =
     (let b = (case nd_id n of Some i \<Rightarrow> b\<lparr>bk_heartbeats := AList.update i n (bk_heartbeats b)\<rparr> | None \<Rightarrow> b)
      in spawn (bk_heartbeat_handlers b) (M_Node n) b)"

definition publish_job :: "job \<Rightarrow> 'h broker \<Rightarrow> 'h broker" where
  "publish_job j b = spawn (bk_job_handlers b) (M_Job j) b"

text \<open>\<open>from_json\<close> is \<open>serde_json::from_value::<Job>\<close>, the derived deserializer.\<close>

definition publish_event :: "(json \<Rightarrow> job option) \<Rightarrow> string \<Rightarrow> json \<Rightarrow> 'h broker \<Rightarrow> 'h broker" where
  "publish_event from_json topic ev b =
     (let b = fold (\<lambda>(pat, hs) b. if wildcard_match pat topic then spawn hs (M_Event ev) b else b)
           (bk_event_handlers b) b
      in case from_json ev of
           Some j \<Rightarrow> (case job_event_from_state j of
               Some e \<Rightarrow> b\<lparr>bk_channels :=
                 map (\<lambda>(pat, es). (pat, if wildcard_match pat topic then es @ [e] else es)) (bk_channels b)\<rparr>
             | None \<Rightarrow> b)
         | None \<Rightarrow> b)"

definition publish_task_log_part :: "task_log_part \<Rightarrow> 'h broker \<Rightarrow> 'h broker" where
  "publish_task_log_part p b =
     (let b = (case lp_task_id p of Some i \<Rightarrow> b\<lparr>bk_log_parts := entry_push i p (bk_log_parts b)\<rparr> | None \<Rightarrow> b)
      in spawn (bk_log_handlers b) (M_LogPart p) b)"

section \<open>Subscribing\<close>

definition subscribe_for_tasks :: "string \<Rightarrow> 'h \<Rightarrow> 'h broker \<Rightarrow> 'h broker" where
  "subscribe_for_tasks q h b = b\<lparr>bk_handlers := entry_push q h (bk_handlers b)\<rparr>"

definition subscribe_for_task_progress :: "'h \<Rightarrow> 'h broker \<Rightarrow> 'h broker" where
  "subscribe_for_task_progress h b = b\<lparr>bk_progress_handlers := bk_progress_handlers b @ [h]\<rparr>"

definition subscribe_for_heartbeats :: "'h \<Rightarrow> 'h broker \<Rightarrow> 'h broker" where
  "subscribe_for_heartbeats h b =
     (let b = fold (\<lambda>n. spawn [h] (M_Node n)) (map snd (bk_heartbeats b)) b
      in b\<lparr>bk_heartbeat_handlers := bk_heartbeat_handlers b @ [h]\<rparr>)"

definition subscribe_for_jobs :: "'h \<Rightarrow> 'h broker \<Rightarrow> 'h broker" where
  "subscribe_for_jobs h b = b\<lparr>bk_job_handlers := bk_job_handlers b @ [h]\<rparr>"

definition subscribe_for_events :: "string \<Rightarrow> 'h \<Rightarrow> 'h broker \<Rightarrow> 'h broker" where
  "subscribe_for_events pat h b = b\<lparr>bk_event_handlers := entry_push pat h (bk_event_handlers b)\<rparr>"

definition subscribe_for_task_log_part :: "'h \<Rightarrow> 'h broker \<Rightarrow> 'h broker" where
  "subscribe_for_task_log_part h b =
     (let b = fold (\<lambda>p. spawn [h] (M_LogPart p)) (concat (map snd (bk_log_parts b))) b
      in b\<lparr>bk_log_handlers := bk_log_handlers b @ [h]\<rparr>)"

definition subscribe_typed :: "string \<Rightarrow> 'h broker \<Rightarrow> 'h broker" where
  "subscribe_typed pat b =
     (if map_of (bk_channels b) pat = None then b\<lparr>bk_channels := bk_channels b @ [(pat, [])]\<rparr> else b)"

section \<open>Queues\<close>

record queue_info =
  qi_name :: string
  qi_size :: int
  qi_subscribers :: int
  qi_unacked :: int

text \<open>\<open>i32::try_from(n).unwrap_or(0)\<close>.\<close>

definition i32_or_zero :: "nat \<Rightarrow> int" where
  "i32_or_zero n = (if n < 2 ^ 31 then int n else 0)"

definition queues :: "'h broker \<Rightarrow> queue_info list" where
  "queues b = map (\<lambda>(q, ts). \<lparr>qi_name = q, qi_size = i32_or_zero (length ts),
     qi_subscribers = (case map_of (bk_handlers b) q of Some hs \<Rightarrow> i32_or_zero (length hs) | None \<Rightarrow> 0),
     qi_unacked = 0\<rparr>) (bk_tasks b)"

datatype broker_error = QueueNotFound string

definition get_queue_info :: "string \<Rightarrow> 'h broker \<Rightarrow> broker_error + queue_info" where
  "get_queue_info q b =
     (if map_of (bk_tasks b) q = None \<and> map_of (bk_handlers b) q = None then Inl (QueueNotFound q)
      else Inr \<lparr>qi_name = q,
        qi_size = (case map_of (bk_tasks b) q of Some ts \<Rightarrow> i32_or_zero (length ts) | None \<Rightarrow> 0),
        qi_subscribers = (case map_of (bk_handlers b) q of Some hs \<Rightarrow> i32_or_zero (length hs) | None \<Rightarrow> 0),
        qi_unacked = 0\<rparr>)"

definition delete_queue :: "string \<Rightarrow> 'h broker \<Rightarrow> (broker_error + unit) \<times> 'h broker" where
  "delete_queue q b =
     (if map_of (bk_tasks b) q = None \<and> map_of (bk_handlers b) q = None then (Inl (QueueNotFound q), b)
      else (Inr (), b\<lparr>bk_tasks := AList.delete q (bk_tasks b),
        bk_handlers := AList.delete q (bk_handlers b)\<rparr>))"

section \<open>What publishing delivers\<close>

lemma spawn_sel [simp]:
  "bk_spawned (spawn hs msg b) = bk_spawned b @ map (\<lambda>h. (h, msg)) hs"
  "bk_tasks (spawn hs msg b) = bk_tasks b" "bk_handlers (spawn hs msg b) = bk_handlers b"
  "bk_heartbeats (spawn hs msg b) = bk_heartbeats b"
  "bk_heartbeat_handlers (spawn hs msg b) = bk_heartbeat_handlers b"
  "bk_log_handlers (spawn hs msg b) = bk_log_handlers b"
  "bk_log_parts (spawn hs msg b) = bk_log_parts b"
  "bk_event_handlers (spawn hs msg b) = bk_event_handlers b"
  "bk_channels (spawn hs msg b) = bk_channels b"
  by (simp_all add: spawn_def)

lemma spawn_Nil [simp]: "spawn [] msg b = b"
  by (simp add: spawn_def)

lemma fold_spawn_Nil [simp]: "fold (\<lambda>x. spawn [] (f x)) xs b = b"
  by (induction xs arbitrary: b) simp_all

lemma queue_handlers_frame [simp]:
  "queue_handlers (spawn hs msg b) = queue_handlers b"
  "queue_handlers (b\<lparr>bk_tasks := ts\<rparr>) = queue_handlers b"
  by (simp_all add: queue_handlers_def fun_eq_iff)

lemma publish_task_run:
  "publish_task q t b = spawn (queue_handlers b q) (M_Task t) (b\<lparr>bk_tasks := entry_push q t (bk_tasks b)\<rparr>)"
  by (simp add: publish_task_def Let_def)

lemma publish_tasks_run:
  "publish_tasks q ts b = fold (\<lambda>t. spawn (queue_handlers b q) (M_Task t)) ts
     (b\<lparr>bk_tasks := entry_extend q ts (bk_tasks b)\<rparr>)"
  by (simp add: publish_tasks_def Let_def)

lemma spawn_tasks_commute: "spawn hs msg (b\<lparr>bk_tasks := x\<rparr>) = (spawn hs msg b)\<lparr>bk_tasks := x\<rparr>"
  by (simp add: spawn_def)

lemma fold_spawn_tasks_commute:
  "fold (\<lambda>t. spawn hs (f t)) ts (b\<lparr>bk_tasks := x\<rparr>) = (fold (\<lambda>t. spawn hs (f t)) ts b)\<lparr>bk_tasks := x\<rparr>"
  by (induction ts arbitrary: b) (simp_all add: spawn_tasks_commute)

lemma entry_extend_Cons:
  "entry_extend q ts (entry_push q t m) = entry_extend q (t # ts) m"
  by (simp add: entry_extend_def entry_push_def or_empty_def update_conv' split: option.split)

lemma publish_tasks_fold:
  "ts \<noteq> [] \<Longrightarrow> publish_tasks q ts b = fold (publish_task q) ts b"
proof (induction ts arbitrary: b)
  case (Cons t ts)
  show ?case
  proof (cases "ts = []")
    case True
    then show ?thesis
      by (simp add: publish_tasks_run publish_task_run entry_extend_def entry_push_def or_empty_def)
  next
    case False
    then have "fold (publish_task q) (t # ts) b = publish_tasks q ts (publish_task q t b)"
      using Cons.IH by simp
    also have "\<dots> = publish_tasks q (t # ts) b"
      by (simp add: publish_tasks_run publish_task_run entry_extend_Cons fold_spawn_tasks_commute
          spawn_tasks_commute)
    finally show ?thesis by (rule sym)
  qed
qed simp

text \<open>Publishing a non-empty batch is publishing its tasks one by one: the queue grows by the
  batch in order, and every handler of the queue, and no other, gets one invocation per task,
  in the order of the batch. An empty batch only creates the queue.\<close>

theorem publish_tasks_sequence:
  "(if ts = [] then publish_tasks q ts b = b\<lparr>bk_tasks := entry_extend q [] (bk_tasks b)\<rparr>
    else publish_tasks q ts b = fold (publish_task q) ts b) \<and>
   bk_spawned (publish_tasks q ts b) =
     bk_spawned b @ concat (map (\<lambda>t. map (\<lambda>h. (h, M_Task t)) (queue_handlers b q)) ts) \<and>
   map_of (bk_tasks (publish_tasks q ts b)) q = Some (or_empty (map_of (bk_tasks b) q) @ ts)"
proof (intro conjI)
  show "if ts = [] then publish_tasks q ts b = b\<lparr>bk_tasks := entry_extend q [] (bk_tasks b)\<rparr>
    else publish_tasks q ts b = fold (publish_task q) ts b"
    by (simp add: publish_tasks_fold) (simp add: publish_tasks_run)
  have "bk_spawned (fold (\<lambda>t. spawn hs (M_Task t)) ts b) =
      bk_spawned b @ concat (map (\<lambda>t. map (\<lambda>h. (h, M_Task t)) hs) ts)" for hs and b :: "'a broker"
    by (induction ts arbitrary: b) simp_all
  then show "bk_spawned (publish_tasks q ts b) =
     bk_spawned b @ concat (map (\<lambda>t. map (\<lambda>h. (h, M_Task t)) (queue_handlers b q)) ts)"
    by (simp add: publish_tasks_run)
  show "map_of (bk_tasks (publish_tasks q ts b)) q = Some (or_empty (map_of (bk_tasks b) q) @ ts)"
    by (simp add: publish_tasks_run fold_spawn_tasks_commute entry_extend_def update_conv')
qed

section \<open>No heartbeat and no log part is missed\<close>

text \<open>The operations of the broker as steps; the handlers' own work is elsewhere.\<close>

inductive broker_step :: "(json \<Rightarrow> job option) \<Rightarrow> 'h broker \<Rightarrow> 'h broker \<Rightarrow> bool" for from_json where
  "broker_step from_json b (publish_task q t b)"
| "broker_step from_json b (publish_tasks q ts b)"
| "broker_step from_json b (publish_task_progress t b)"
| "broker_step from_json b (publish_heartbeat n b)"
| "broker_step from_json b (publish_job j b)"
| "broker_step from_json b (publish_event from_json topic ev b)"
| "broker_step from_json b (publish_task_log_part p b)"
| "broker_step from_json b (subscribe_for_tasks q h b)"
| "broker_step from_json b (subscribe_for_task_progress h b)"
| "broker_step from_json b (subscribe_for_heartbeats h b)"
| "broker_step from_json b (subscribe_for_jobs h b)"
| "broker_step from_json b (subscribe_for_events pat h b)"
| "broker_step from_json b (subscribe_for_task_log_part h b)"
| "broker_step from_json b (subscribe_typed pat b)"
| "broker_step from_json b (snd (delete_queue q b))"

definition caught_up :: "'h broker \<Rightarrow> bool" where
  "caught_up b \<longleftrightarrow>
     (\<forall>h \<in> set (bk_heartbeat_handlers b). \<forall>n \<in> snd ` set (bk_heartbeats b).
        (h, M_Node n) \<in> set (bk_spawned b)) \<and>
     (\<forall>h \<in> set (bk_log_handlers b). \<forall>p \<in> set (concat (map snd (bk_log_parts b))).
        (h, M_LogPart p) \<in> set (bk_spawned b))"

text \<open>What the invariant reads; a step that only adds invocations keeps it.\<close>

lemma caught_up_mono:
  assumes "caught_up b" and "set (bk_spawned b) \<subseteq> set (bk_spawned b')"
    and "bk_heartbeat_handlers b' = bk_heartbeat_handlers b" and "bk_heartbeats b' = bk_heartbeats b"
    and "bk_log_handlers b' = bk_log_handlers b" and "bk_log_parts b' = bk_log_parts b"
  shows "caught_up b'"
  using assms unfolding caught_up_def by auto

lemma fold_spawn_sel [simp]:
  "bk_spawned (fold (\<lambda>x. spawn hs (f x)) xs b) =
     bk_spawned b @ concat (map (\<lambda>x. map (\<lambda>h. (h, f x)) hs) xs)"
  "bk_heartbeat_handlers (fold (\<lambda>x. spawn hs (f x)) xs b) = bk_heartbeat_handlers b"
  "bk_heartbeats (fold (\<lambda>x. spawn hs (f x)) xs b) = bk_heartbeats b"
  "bk_log_handlers (fold (\<lambda>x. spawn hs (f x)) xs b) = bk_log_handlers b"
  "bk_log_parts (fold (\<lambda>x. spawn hs (f x)) xs b) = bk_log_parts b"
  by (induction xs arbitrary: b) simp_all

definition event_fold :: "string \<Rightarrow> json \<Rightarrow> (string \<times> 'h list) list \<Rightarrow> 'h broker \<Rightarrow> 'h broker" where
  "event_fold topic ev = fold (\<lambda>(pat, hs) b. if wildcard_match pat topic then spawn hs (M_Event ev) b else b)"

lemma event_fold_sel [simp]:
  "bk_spawned (event_fold topic ev xs b) = bk_spawned b @
     concat (map (\<lambda>(pat, hs). if wildcard_match pat topic then map (\<lambda>h. (h, M_Event ev)) hs else []) xs)"
  "bk_heartbeat_handlers (event_fold topic ev xs b) = bk_heartbeat_handlers b"
  "bk_heartbeats (event_fold topic ev xs b) = bk_heartbeats b"
  "bk_log_handlers (event_fold topic ev xs b) = bk_log_handlers b"
  "bk_log_parts (event_fold topic ev xs b) = bk_log_parts b"
  "bk_channels (event_fold topic ev xs b) = bk_channels b"
  unfolding event_fold_def by (induction xs arbitrary: b) auto

lemma caught_up_event: "caught_up b \<Longrightarrow> caught_up (publish_event from_json topic ev b)"
  by (rule caught_up_mono [of b])
     (auto simp: publish_event_def Let_def event_fold_def [symmetric] split: option.splits)

lemma set_update_subset: "set (AList.update k v m) \<subseteq> insert (k, v) (set m)"
  by (induction m) auto

lemma caught_up_heartbeat: "caught_up b \<Longrightarrow> caught_up (publish_heartbeat n b)"
proof (cases "nd_id n")
  case (Some i)
  assume "caught_up b"
  then show ?thesis
    using Some set_update_subset [of i n "bk_heartbeats b"]
    unfolding caught_up_def publish_heartbeat_def Let_def by fastforce
qed (auto simp: caught_up_def publish_heartbeat_def)

lemma caught_up_log_part: "caught_up b \<Longrightarrow> caught_up (publish_task_log_part p b)"
proof (cases "lp_task_id p")
  case (Some i)
  assume c: "caught_up b"
  let ?old = "case map_of (bk_log_parts b) i of None \<Rightarrow> [] | Some vs \<Rightarrow> vs"
  have old: "set ?old \<subseteq> set (concat (map snd (bk_log_parts b)))"
    by (cases "map_of (bk_log_parts b) i") (simp, frule map_of_SomeD, force)
  have "set (concat (map snd (entry_push i p (bk_log_parts b)))) \<subseteq>
      insert p (set (concat (map snd (bk_log_parts b))))"
    using set_update_subset [of i "?old @ [p]" "bk_log_parts b"] old
    unfolding entry_push_def by fastforce
  then show ?thesis
    using c Some unfolding caught_up_def publish_task_log_part_def Let_def by fastforce
qed (auto simp: caught_up_def publish_task_log_part_def)

lemma caught_up_others:
  assumes "caught_up b"
  shows "caught_up (publish_task q t b)" "caught_up (publish_tasks q ts b)"
    "caught_up (publish_task_progress t b)" "caught_up (publish_job j b)"
    "caught_up (subscribe_for_tasks q h b)" "caught_up (subscribe_for_task_progress h b)"
    "caught_up (subscribe_for_jobs h b)" "caught_up (subscribe_for_events pat h b)"
    "caught_up (subscribe_typed pat b)" "caught_up (snd (delete_queue q b))"
  by (rule caught_up_mono [OF assms]; auto simp: publish_task_run publish_tasks_run
      publish_task_progress_def publish_job_def subscribe_for_tasks_def
      subscribe_for_task_progress_def subscribe_for_jobs_def subscribe_for_events_def
      subscribe_typed_def delete_queue_def)+

lemma caught_up_subscribe:
  assumes "caught_up b"
  shows "caught_up (subscribe_for_heartbeats h b)" "caught_up (subscribe_for_task_log_part h b)"
  using assms
  unfolding caught_up_def subscribe_for_heartbeats_def subscribe_for_task_log_part_def Let_def
  by auto

lemma caught_up_step: "broker_step from_json b b' \<Longrightarrow> caught_up b \<Longrightarrow> caught_up b'"
  by (induction rule: broker_step.induct)
     (simp_all add: caught_up_event caught_up_heartbeat caught_up_log_part caught_up_others
       caught_up_subscribe)

text \<open>Whatever the order of publishing and subscribing, every heartbeat handler has been invoked
  with the last heartbeat of every node and every log handler with every stored log part:
  late subscribers get what came before them.\<close>

theorem nothing_missed:
  "(broker_step from_json)\<^sup>*\<^sup>* new_broker b \<Longrightarrow>
     (\<forall>h \<in> set (bk_heartbeat_handlers b). \<forall>(i, n) \<in> set (bk_heartbeats b).
        (h, M_Node n) \<in> set (bk_spawned b)) \<and>
     (\<forall>h \<in> set (bk_log_handlers b). \<forall>(i, ps) \<in> set (bk_log_parts b). \<forall>p \<in> set ps.
        (h, M_LogPart p) \<in> set (bk_spawned b))"
proof -
  assume "(broker_step from_json)\<^sup>*\<^sup>* new_broker b"
  then have "caught_up b"
    by (induction rule: rtranclp_induct)
       (simp add: caught_up_def new_broker_def, rule caught_up_step)
  then show ?thesis unfolding caught_up_def by fastforce
qed

definition sample_part :: task_log_part where
  "sample_part = \<lparr>lp_id = None, lp_number = 1, lp_task_id = Some ''t1'', lp_contents = None,
     lp_created_at = None\<rparr>"

theorem nothing_missed_witness:
  "((0 :: nat), M_LogPart sample_part) \<in>
     set (bk_spawned (subscribe_for_task_log_part 0 (publish_task_log_part sample_part new_broker)))"
proof -
  let ?b1 = "publish_task_log_part sample_part (new_broker :: nat broker)"
  let ?b = "subscribe_for_task_log_part 0 ?b1"
  have "broker_step (\<lambda>_. None) new_broker ?b1" "broker_step (\<lambda>_. None) ?b1 ?b"
    by (rule broker_step.intros)+
  then have "(broker_step (\<lambda>_. None))\<^sup>*\<^sup>* new_broker ?b" by (meson converse_rtranclp_into_rtranclp rtranclp.rtrancl_refl)
  moreover have "0 \<in> set (bk_log_handlers ?b)" "(''t1'', [sample_part]) \<in> set (bk_log_parts ?b)"
    by (simp_all add: subscribe_for_task_log_part_def publish_task_log_part_def Let_def
        sample_part_def new_broker_def entry_push_def)
  ultimately show ?thesis using nothing_missed by fastforce
qed

text \<open>An event reaches exactly the handlers and the typed channels whose pattern matches its topic:
  one invocation per handler, and one typed event per channel when the payload is a job in a
  final state.\<close>

theorem publish_event_exact:
  "bk_spawned (publish_event from_json topic ev b) = bk_spawned b @
     [(h, M_Event ev). (pat, hs) \<leftarrow> bk_event_handlers b, wildcard_match pat topic, h \<leftarrow> hs] \<and>
   bk_channels (publish_event from_json topic ev b) =
     map (\<lambda>(pat, es). (pat, if wildcard_match pat topic
        then es @ (case from_json ev of None \<Rightarrow> []
           | Some j \<Rightarrow> (case job_event_from_state j of None \<Rightarrow> [] | Some e \<Rightarrow> [e])) else es)) (bk_channels b)"
proof
  have "concat (map (\<lambda>(pat, hs). if wildcard_match pat topic then map (\<lambda>h. (h, M_Event ev)) hs else []) xs) =
      [(h, M_Event ev). (pat, hs) \<leftarrow> xs, wildcard_match pat topic, h \<leftarrow> hs]" for xs :: "(string \<times> 'a list) list"
    by (induction xs) auto
  then show "bk_spawned (publish_event from_json topic ev b) = bk_spawned b @
     [(h, M_Event ev). (pat, hs) \<leftarrow> bk_event_handlers b, wildcard_match pat topic, h \<leftarrow> hs]"
    by (auto simp: publish_event_def Let_def event_fold_def [symmetric] split: option.splits)
qed (auto simp: publish_event_def Let_def event_fold_def [symmetric] map_idI split: option.splits prod.splits)

end
