(* ===== verification/Uuid.thy ===== *)
theory Uuid
  imports Job_Model
begin

text \<open>
  Short ids (\<open>twerk-common/src/uuid.rs\<close>): the 16 bytes of a UUID as a big-endian number,
  written in base 57 and padded to 22 characters. The random bytes of \<open>Uuid::new_v4\<close> are the
  argument.
\<close>

unbundle bit_operations_syntax

type_synonym u128 = "128 word"

definition BASE57_ALPHABET :: string where
  "BASE57_ALPHABET = ''23456789ABCDEFGHJKLMNPQRSTUVWXYZabcdefghijkmnopqrstuvwxyz''"

definition u128_from_be_bytes :: "u8 list \<Rightarrow> u128" where
  "u128_from_be_bytes bytes = foldl (\<lambda>v b. push_bit 8 v OR ucast b) 0 bytes"

function base57_digits :: "u128 \<Rightarrow> string" where
  "base57_digits v =
     (if v > 0 then BASE57_ALPHABET ! unat (v mod 57) # base57_digits (v div 57) else [])"
  by pat_completeness auto
termination
proof (relation "measure unat")
  fix v :: u128 assume "0 < v"
  then have "unat v div 57 < unat v" by (intro div_less_dividend) (simp_all add: word_less_nat_alt)
  then show "(v div 57, v) \<in> measure unat" by (simp add: unat_div)
qed simp

declare base57_digits.simps [simp del]

definition encode_base57 :: "u8 list \<Rightarrow> string" where
  "encode_base57 bytes =
     (let digits = base57_digits (u128_from_be_bytes bytes)
      in replicate (22 - length digits) (BASE57_ALPHABET ! 0) @ rev digits)"

section \<open>The number behind a short id\<close>

definition base57_value :: "string \<Rightarrow> nat" where
  "base57_value s = foldl (\<lambda>v c. 57 * v + length (takeWhile (\<lambda>d. d \<noteq> c) BASE57_ALPHABET)) 0 s"

lemma same_alphabet: "SHORT_JOB_ID_ALPHABET = BASE57_ALPHABET"
  by (simp only: SHORT_JOB_ID_ALPHABET_def BASE57_ALPHABET_def)

lemma alphabet_length: "length BASE57_ALPHABET = 57"
  by (simp add: BASE57_ALPHABET_def)

lemma alphabet_index:
  "i < 57 \<Longrightarrow> length (takeWhile (\<lambda>d. d \<noteq> BASE57_ALPHABET ! i) BASE57_ALPHABET) = i"
proof -
  have "distinct BASE57_ALPHABET" by (simp add: BASE57_ALPHABET_def)
  then have "length (takeWhile (\<lambda>d. d \<noteq> xs ! i) xs) = i" if "i < length xs" "distinct xs" for xs :: string
    using that by (induction xs arbitrary: i) (auto simp: nth_Cons split: nat.split)
  then show "i < 57 \<Longrightarrow> ?thesis" using \<open>distinct BASE57_ALPHABET\<close> alphabet_length by simp
qed

lemma digits_value: "base57_value (rev (base57_digits v)) = unat v"
proof (induction v rule: base57_digits.induct)
  case (1 v)
  show ?case
  proof (cases "v > 0")
    case True
    have "unat (v mod 57) < 57" by (simp add: unat_mod)
    then have "base57_value (rev (base57_digits v)) = 57 * unat (v div 57) + unat (v mod 57)"
      using 1 True by (subst base57_digits.simps) (simp add: base57_value_def alphabet_index)
    then show ?thesis by (simp add: unat_div unat_mod)
  next
    case False
    then show ?thesis by (subst base57_digits.simps) (simp add: base57_value_def word_gt_0)
  qed
qed

lemma digits_length: "unat v < 57 ^ n \<Longrightarrow> length (base57_digits v) \<le> n"
proof (induction v arbitrary: n rule: base57_digits.induct)
  case (1 v)
  show ?case
  proof (cases "v > 0")
    case True
    then obtain k where "n = Suc k" using 1(2) by (cases n) (auto simp: word_less_nat_alt)
    moreover from this have "unat (v div 57) < 57 ^ k"
      using 1(2) by (simp add: unat_div less_mult_imp_div_less mult.commute)
    ultimately show ?thesis using 1(1) True by (subst base57_digits.simps) simp
  next
    case False
    then show ?thesis by (subst base57_digits.simps) simp
  qed
qed

lemma digits_alphabet: "set (base57_digits v) \<subseteq> set BASE57_ALPHABET"
proof (induction v rule: base57_digits.induct)
  case (1 v)
  have "unat (v mod 57) < length BASE57_ALPHABET" by (simp add: unat_mod alphabet_length)
  then show ?case using 1 by (subst base57_digits.simps) auto
qed

lemma value_padding: "base57_value (replicate k (BASE57_ALPHABET ! 0) @ s) = base57_value s"
proof (induction k)
  case (Suc k)
  have "length (takeWhile (\<lambda>d. d \<noteq> BASE57_ALPHABET ! 0) BASE57_ALPHABET) = 0"
    using alphabet_index [of 0] by simp
  then show ?case using Suc by (simp add: base57_value_def)
qed simp

text \<open>The short id of any 16 bytes has 22 characters of the alphabet and is accepted as a job id;
  read in base 57 it is the number of the bytes, so that different numbers have different ids.\<close>

theorem short_uuid_spec:
  "length (encode_base57 bytes) = 22 \<and>
   job_id_new parse_uuid (encode_base57 bytes) = Inr (encode_base57 bytes) \<and>
   base57_value (encode_base57 bytes) = unat (u128_from_be_bytes bytes)"
proof -
  let ?d = "base57_digits (u128_from_be_bytes bytes)"
  have "unat (u128_from_be_bytes bytes) < 2 ^ 128" using unsigned_less [of "u128_from_be_bytes bytes", where 'a = nat] by simp
  also have "\<dots> < (57 :: nat) ^ 22" by simp
  finally have len: "length ?d \<le> 22" by (rule digits_length)
  then have l: "length (encode_base57 bytes) = 22" by (simp add: encode_base57_def Let_def)
  have "BASE57_ALPHABET ! 0 \<in> set BASE57_ALPHABET" by (simp add: alphabet_length)
  then have "set (encode_base57 bytes) \<subseteq> set BASE57_ALPHABET"
    using digits_alphabet [of "u128_from_be_bytes bytes"] by (auto simp: encode_base57_def Let_def)
  then have "is_valid_short_job_id (encode_base57 bytes)"
    using l unfolding is_valid_short_job_id_def SHORT_JOB_ID_LENGTH_def list_all_iff
      same_alphabet by blast
  then have "job_id_new parse_uuid (encode_base57 bytes) = Inr (encode_base57 bytes)"
    using l by (auto simp: job_id_new_def validate_job_id_def MAX_ID_LENGTH_def)
  moreover have "base57_value (encode_base57 bytes) = unat (u128_from_be_bytes bytes)"
    by (simp add: encode_base57_def Let_def value_padding digits_value)
  ultimately show ?thesis using l by blast
qed

end
