(* ===== verification/Locker.thy ===== *)
theory Locker
  imports Twerk_Prelude
begin

text \<open>
  The in-memory locker (\<open>twerk-infrastructure/src/locker/inmemory.rs\<close>). A lock owns the sender of
  a channel whose receiver sits in a spawned task: once the sender is gone the task removes the
  key from the table, at some later moment. The state holds the keys of the table, the locks
  alive, and the watchers whose sender is gone and that have not run.
\<close>

datatype lock_error =
    AlreadyLocked string | NotLocked string | LockInvalidated string | LockDatabase string
  | LockConnection string | LockTransaction string string

fun lock_error_display :: "lock_error \<Rightarrow> string" where
  "lock_error_display (AlreadyLocked k) = ''lock already held for key '' @ [CHR 0x27] @ k @ [CHR 0x27]"
| "lock_error_display (NotLocked k) = ''lock not held for key '' @ [CHR 0x27] @ k @ [CHR 0x27]"
| "lock_error_display (LockInvalidated k) = ''lock invalidated for key '' @ [CHR 0x27] @ k @ [CHR 0x27]"
| "lock_error_display (LockDatabase e) = ''database error: '' @ e"
| "lock_error_display (LockConnection e) = ''failed to connect to database: '' @ e"
| "lock_error_display (LockTransaction k e) =
     ''transaction error for key '' @ [CHR 0x27] @ k @ [CHR 0x27] @ '': '' @ e"

record locker =
  lk_locks :: "string list"
  lk_live :: "string list"
  lk_watchers :: "string list"

definition new_locker :: locker where
  "new_locker = \<lparr>lk_locks = [], lk_live = [], lk_watchers = []\<rparr>"

definition acquire_lock :: "string \<Rightarrow> locker \<Rightarrow> (lock_error + string) \<times> locker" where
  "acquire_lock key s =
     (if key \<in> set (lk_locks s) then (Inl (AlreadyLocked key), s)
      else (Inr key, s\<lparr>lk_locks := key # lk_locks s, lk_live := key # lk_live s\<rparr>))"

text \<open>Dropping a lock drops its sender; \<open>release_lock\<close> also removes the key itself.\<close>

definition drop_lock :: "string \<Rightarrow> locker \<Rightarrow> locker" where
  "drop_lock key s = s\<lparr>lk_live := remove1 key (lk_live s), lk_watchers := key # lk_watchers s\<rparr>"

definition release_lock :: "string \<Rightarrow> locker \<Rightarrow> (lock_error + unit) \<times> locker" where
  "release_lock key s = (Inr (), (drop_lock key s)\<lparr>lk_locks := removeAll key (lk_locks s)\<rparr>)"

definition run_watcher :: "string \<Rightarrow> locker \<Rightarrow> locker" where
  "run_watcher key s = s\<lparr>lk_locks := removeAll key (lk_locks s), lk_watchers := remove1 key (lk_watchers s)\<rparr>"

section \<open>Interleavings\<close>

datatype locker_step = Acquire string | Release string | DropLock string | RunWatcher string

fun step_enabled :: "locker \<Rightarrow> locker_step \<Rightarrow> bool" where
  "step_enabled s (Acquire k) = True"
| "step_enabled s (Release k) = (k \<in> set (lk_live s))"
| "step_enabled s (DropLock k) = (k \<in> set (lk_live s))"
| "step_enabled s (RunWatcher k) = (k \<in> set (lk_watchers s))"

fun locker_after :: "locker_step \<Rightarrow> locker \<Rightarrow> locker" where
  "locker_after (Acquire k) s = snd (acquire_lock k s)"
| "locker_after (Release k) s = snd (release_lock k s)"
| "locker_after (DropLock k) s = drop_lock k s"
| "locker_after (RunWatcher k) s = run_watcher k s"

inductive locker_run :: "locker_step list \<Rightarrow> locker \<Rightarrow> bool" where
  run_start: "locker_run [] new_locker"
| run_step: "locker_run as s \<Longrightarrow> step_enabled s a \<Longrightarrow> locker_run (as @ [a]) (locker_after a s)"

inductive_cases run_snocE: "locker_run (as @ [a]) s"

lemma run_snoc: "locker_run (as @ [a]) t \<longleftrightarrow> (\<exists>s. locker_run as s \<and> step_enabled s a \<and> t = locker_after a s)"
  by (auto elim: run_snocE intro: run_step)

lemma run_Nil: "locker_run [] t \<longleftrightarrow> t = new_locker"
  by (subst locker_run.simps) auto

text \<open>A key with a lock alive or a watcher to run is in the table, and has only one of them.\<close>

definition one_owner :: "locker \<Rightarrow> bool" where
  "one_owner s \<longleftrightarrow> distinct (lk_live s @ lk_watchers s) \<and> set (lk_live s @ lk_watchers s) \<subseteq> set (lk_locks s)"

lemma one_owner_step:
  "one_owner s \<Longrightarrow> step_enabled s a \<Longrightarrow> (\<forall>k. a \<noteq> Release k) \<Longrightarrow> one_owner (locker_after a s)"
  by (cases a) (auto simp: one_owner_def acquire_lock_def drop_lock_def run_watcher_def)

text \<open>C28. As long as locks are given up by dropping them, no two locks of a key are alive at once, in
  any interleaving with the watchers, and a key without lock and watcher can be acquired. After
  \<open>release_lock\<close> this fails: the watcher of the released lock removes the entry of the next one.\<close>

theorem locker_exclusion:
  "(locker_run as s \<and> (\<forall>k. Release k \<notin> set as) \<longrightarrow> distinct (lk_live s)) \<and>
   (\<exists>as s. locker_run as s \<and> Release ''k'' \<in> set as \<and> lk_live s = [''k'', ''k''])"
proof
  have "locker_run as s \<Longrightarrow> (\<forall>k. Release k \<notin> set as) \<Longrightarrow> one_owner s"
  proof (induction rule: locker_run.induct)
    case run_start
    show ?case by (simp add: one_owner_def new_locker_def)
  next
    case (run_step as s a)
    then show ?case by (intro one_owner_step) auto
  qed
  then show "locker_run as s \<and> (\<forall>k. Release k \<notin> set as) \<longrightarrow> distinct (lk_live s)"
    by (auto simp: one_owner_def)
  let ?as = "[] @ [Acquire ''k''] @ [Release ''k''] @ [Acquire ''k''] @ [RunWatcher ''k''] @ [Acquire ''k'']"
  have "locker_run ?as \<lparr>lk_locks = [''k''], lk_live = [''k'', ''k''], lk_watchers = []\<rparr>"
    unfolding append_assoc [symmetric] run_snoc run_Nil
    by (simp add: new_locker_def acquire_lock_def release_lock_def drop_lock_def run_watcher_def)
  then show "\<exists>as s. locker_run as s \<and> Release ''k'' \<in> set as \<and> lk_live s = [''k'', ''k'']"
    by (intro exI [of _ ?as] exI [of _ "\<lparr>lk_locks = [''k''], lk_live = [''k'', ''k''], lk_watchers = []\<rparr>"]) simp
qed

theorem locker_exclusion_witness:
  "distinct (lk_live \<lparr>lk_locks = [''k''], lk_live = [''k''], lk_watchers = []\<rparr>)"
proof -
  have "locker_run ([] @ [Acquire ''k'']) \<lparr>lk_locks = [''k''], lk_live = [''k''], lk_watchers = []\<rparr>"
    unfolding run_snoc run_Nil by (simp add: new_locker_def acquire_lock_def)
  then show ?thesis using locker_exclusion by fastforce
qed

end
