(* ===== verification/Coordinator_World.thy ===== *)
theory Coordinator_World
  imports Datastore_Props Broker_Inmemory Task_Eval Uuid Locker
begin

text \<open>
  What the coordinator's handlers work on: the in-memory datastore and broker, the clock, the
  random ids and the webhooks fired so far, as one state threaded through every handler
  (\<open>engine/coordinator\<close>). What is outside the sources is a parameter (\<open>cenv\<close>): the
  \<open>n\<close>-th reading of the clock, the bytes of the \<open>n\<close>-th UUID, whether the \<open>n\<close>-th publication
  fails (a broker other than the in-memory one may), template and expression evaluation
  over \<open>evalexpr\<close>, the JSON parser and the derived JSON form of jobs, the order in which
  rayon's \<open>par_bridge\<close> returns its results, the hyphenated text of a UUID, and the answers of the
  cron scheduler (the error of a cron expression, of an addition, of a removal).
\<close>

section \<open>Errors\<close>

datatype handler_error =
    HE_MissingTaskId | HE_MissingJobId | HE_MissingParentTaskId | HE_JobHasNoTasks
  | HE_TaskOutOfBounds | HE_MissingRetryConfig | HE_RedeliveredMissingTaskId

fun handler_error_display :: "handler_error \<Rightarrow> string" where
  "handler_error_display HE_MissingTaskId = ''task has no id''"
| "handler_error_display HE_MissingJobId = ''task has no job_id''"
| "handler_error_display HE_MissingParentTaskId = ''parent task has no id''"
| "handler_error_display HE_JobHasNoTasks = ''job has no tasks''"
| "handler_error_display HE_TaskOutOfBounds = ''task out of bounds''"
| "handler_error_display HE_MissingRetryConfig = ''task has no retry config''"
| "handler_error_display HE_RedeliveredMissingTaskId = ''redelivered task has no id''"

datatype scheduler_error =
    SC_TaskIdRequired string | SC_JobIdRequired string | SC_MissingConfig string
  | SC_MissingParallelTasks | SC_EachListMustBeArray | SC_MissingEachTemplate
  | SC_Evaluation string string

fun scheduler_error_display :: "scheduler_error \<Rightarrow> string" where
  "scheduler_error_display (SC_TaskIdRequired s) = ''task ID required for '' @ s @ '' scheduling''"
| "scheduler_error_display (SC_JobIdRequired s) = ''job ID required for '' @ s @ '' scheduling''"
| "scheduler_error_display (SC_MissingConfig s) = ''missing '' @ s @ '' config''"
| "scheduler_error_display SC_MissingParallelTasks = ''missing parallel tasks''"
| "scheduler_error_display SC_EachListMustBeArray = ''each list must be an array''"
| "scheduler_error_display SC_MissingEachTemplate = ''missing each task template''"
| "scheduler_error_display (SC_Evaluation c e) = ''failed to evaluate '' @ c @ '': '' @ e"

datatype job_handler_error = JH_Handler string | JH_Datastore string

fun job_handler_error_display :: "job_handler_error \<Rightarrow> string" where
  "job_handler_error_display (JH_Handler e) = ''job handler error: '' @ e"
| "job_handler_error_display (JH_Datastore e) = ''job datastore error: '' @ e"

fun ds_error_display :: "ds_error \<Rightarrow> string" where
  "ds_error_display TaskNotFound = ''task not found''"
| "ds_error_display NodeNotFound = ''node not found''"
| "ds_error_display JobNotFound = ''job not found''"
| "ds_error_display ScheduledJobNotFound = ''scheduled job not found''"
| "ds_error_display UserNotFound = ''user not found''"
| "ds_error_display RoleNotFound = ''role not found''"
| "ds_error_display ContextNotFound = ''context not found''"
| "ds_error_display (Database e) = ''database error: '' @ e"
| "ds_error_display (Serialization e) = ''serialization error: '' @ e"
| "ds_error_display (Encryption e) = ''encryption error: '' @ e"
| "ds_error_display (InvalidInput e) = ''invalid input: '' @ e"
| "ds_error_display (Transaction e) = ''transaction error: '' @ e"
| "ds_error_display (InvalidId e) = ''invalid ID: '' @ e"

text \<open>
  \<open>anyhow::Error\<close>: any of these, or a message. \<open>E_Diverges\<close> is not an error of the code: it
  marks a run that does not return (a cycle of parent tasks).
\<close>

datatype engine_error =
    E_Handler handler_error
  | E_Scheduler scheduler_error
  | E_Datastore ds_error
  | E_Id id_error
  | E_Msg string
  | E_Diverges

fun engine_error_display :: "engine_error \<Rightarrow> string" where
  "engine_error_display (E_Handler e) = handler_error_display e"
| "engine_error_display (E_Scheduler e) = scheduler_error_display e"
| "engine_error_display (E_Datastore e) = ds_error_display e"
| "engine_error_display (E_Id e) = id_error_display e"
| "engine_error_display (E_Msg e) = e"
| "engine_error_display E_Diverges = []"

section \<open>The state\<close>

type_synonym ctx = "(string \<times> json) list"

text \<open>The subscriptions of the coordinator (\<open>DefaultCoordinator::start\<close>) and those of others.\<close>

datatype hname =
    H_Pending | H_Completed | H_Error | H_Started | H_Redelivered | H_Progress | H_Job
  | H_Heartbeat | H_LogPart | H_ScheduledJob | H_Other nat

datatype hook = JobHook webhook job | TaskHook webhook task_summary

text \<open>The calls of the cron scheduler (\<open>tokio_cron_scheduler\<close>) that succeeded: the cron job added
  under a UUID for a scheduled job, and the removal of one.\<close>

datatype cron_call = CronAdd string string string | CronRemove string

record cenv =
  ce_ids :: id_env
  ce_uuid :: "nat \<Rightarrow> u8 list"
  ce_now :: "nat \<Rightarrow> time"
  ce_publish_fails :: "nat \<Rightarrow> string option"
  ce_template :: "ctx \<Rightarrow> string \<Rightarrow> string + string"
  ce_expr :: "string \<Rightarrow> ctx \<Rightarrow> string + json"
  ce_from_str :: "string \<Rightarrow> json option"
  ce_job_value :: "job \<Rightarrow> json"
  ce_job_of :: "json \<Rightarrow> job option"
  ce_par_bridge :: "task list \<Rightarrow> task list"
  ce_uuid_text :: "u8 list \<Rightarrow> string"
  ce_cron_job :: "string \<Rightarrow> string option"
  ce_cron_add :: "nat \<Rightarrow> string + string"
  ce_cron_remove :: "string \<Rightarrow> string option"

record world =
  w_ds :: datastore
  w_bk :: "hname broker"
  w_clock :: nat
  w_uuids :: nat
  w_pubs :: nat
  w_hooks :: "hook list"
  w_stopped :: bool
  w_locker :: locker
  w_cron_jobs :: "(string \<times> string) list"
  w_cron_calls :: "cron_call list"

type_synonym 'a act = "(world, engine_error, 'a) eff"

text \<open>Calls of the datastore; \<open>?\<close> turns its errors into the handler's.\<close>

definition ds_call :: "'a ds \<Rightarrow> (world, ds_error, 'a) eff" where
  "ds_call = zoom w_ds (\<lambda>s. w_ds_update (\<lambda>_. s))"

definition ds_do :: "'a ds \<Rightarrow> 'a act" where
  "ds_do m = eff_map_err E_Datastore (ds_call m)"

definition now_utc :: "cenv \<Rightarrow> (world, 'e, time) eff" where
  "now_utc env w = (Inr (ce_now env (w_clock w)), w\<lparr>w_clock := Suc (w_clock w)\<rparr>)"

definition short_id :: "cenv \<Rightarrow> nat \<Rightarrow> string" where
  "short_id env n = encode_base57 (ce_uuid env n)"

definition new_short_uuid :: "cenv \<Rightarrow> (world, 'e, string) eff" where
  "new_short_uuid env w = (Inr (short_id env (w_uuids w)), w\<lparr>w_uuids := Suc (w_uuids w)\<rparr>)"

definition broker_do :: "cenv \<Rightarrow> (hname broker \<Rightarrow> hname broker) \<Rightarrow> unit act" where
  "broker_do env f w =
     (let w' = w\<lparr>w_pubs := Suc (w_pubs w)\<rparr>
      in case ce_publish_fails env (w_pubs w) of
           Some e \<Rightarrow> (Inl (E_Msg e), w')
         | None \<Rightarrow> (Inr (), w'\<lparr>w_bk := f (w_bk w)\<rparr>))"

definition broker_publish_task :: "cenv \<Rightarrow> string \<Rightarrow> task \<Rightarrow> unit act" where
  "broker_publish_task env q t = broker_do env (publish_task q t)"

definition broker_publish_tasks :: "cenv \<Rightarrow> string \<Rightarrow> task list \<Rightarrow> unit act" where
  "broker_publish_tasks env q ts = broker_do env (publish_tasks q ts)"

definition broker_publish_job :: "cenv \<Rightarrow> job \<Rightarrow> unit act" where
  "broker_publish_job env j = broker_do env (publish_job j)"

definition broker_publish_event :: "cenv \<Rightarrow> string \<Rightarrow> json \<Rightarrow> unit act" where
  "broker_publish_event env topic ev = broker_do env (publish_event (ce_job_of env) topic ev)"

section \<open>Webhooks\<close>

text \<open>
  \<open>coordinator/webhook.rs\<close>: the webhooks whose event matches are called in the background; the calls
  themselves are in \<open>Webhooks\<close>.
\<close>

definition matching_webhooks :: "job \<Rightarrow> string \<Rightarrow> webhook list" where
  "matching_webhooks j event =
     (case jb_webhooks j of None \<Rightarrow> [] | Some whs \<Rightarrow> filter (\<lambda>wh. wb_event wh = Some event) whs)"

definition fire_job_webhooks :: "job \<Rightarrow> string \<Rightarrow> unit act" where
  "fire_job_webhooks j event =
     modifies (w_hooks_update (\<lambda>hs. hs @ map (\<lambda>wh. JobHook wh j) (matching_webhooks j event)))"

definition fire_task_webhooks :: "task \<Rightarrow> string \<Rightarrow> unit act" where
  "fire_task_webhooks t event =
     and_then (lift_res (ok_or (tk_job_id t) (E_Msg ''task has no job_id''))) (\<lambda>job_id.
     and_then (ds_do (get_job_by_id job_id)) (\<lambda>j.
       let whs = matching_webhooks j event
       in if whs = [] then ret ()
          else modifies (w_hooks_update (\<lambda>hs. hs @ map (\<lambda>wh. TaskHook wh (new_task_summary t)) whs))))"

section \<open>What the primitives keep\<close>

lemma keeps_ds_do:
  assumes "\<And>w. I w \<Longrightarrow> J (w_ds w)" and "\<And>s w. I w \<Longrightarrow> J s \<Longrightarrow> I (w_ds_update (\<lambda>_. s) w)"
    and "keeps J m"
  shows "keeps I (ds_do m)" "keeps I (ds_call m)"
proof -
  show "keeps I (ds_call m)"
    unfolding ds_call_def by (rule keeps_zoom [of I J]) (use assms in auto)
  then show "keeps I (ds_do m)" unfolding ds_do_def by (rule keeps_wrap)
qed

end
