(* ===== verification/Scheduler.thy ===== *)
theory Scheduler
  imports Coordinator_World
begin

text \<open>
  The task scheduler (\<open>coordinator/scheduler\<close>): a pending task is published to a worker queue,
  or fanned out into the subtasks of a parallel or each task, or turned into a job of its own.
\<close>

section \<open>Shared\<close>

definition scheduler_ids :: "task \<Rightarrow> string \<Rightarrow> engine_error + (string \<times> string)" where
  "scheduler_ids t scheduler =
     res_bind (ok_or (tk_id t) (E_Scheduler (SC_TaskIdRequired scheduler))) (\<lambda>task_id.
     res_bind (ok_or (tk_job_id t) (E_Scheduler (SC_JobIdRequired scheduler))) (\<lambda>job_id.
       Inr (task_id, job_id)))"

definition job_context_map :: "job \<Rightarrow> ctx" where
  "job_context_map j = (case jb_context j of Some c \<Rightarrow> as_map c | None \<Rightarrow> [])"

definition set_running :: "time \<Rightarrow> task \<Rightarrow> ds_error + task" where
  "set_running now t = Inr (upd_hdr (\<lambda>h. h\<lparr>th_state := TS_Running, th_started_at := Some now\<rparr>) t)"

definition mark_task_running :: "cenv \<Rightarrow> string \<Rightarrow> time \<Rightarrow> unit act" where
  "mark_task_running env task_id now = ds_do (update_task (ce_ids env) task_id (set_running now))"

definition mark_publish_failed :: "string \<Rightarrow> task \<Rightarrow> ds_error + task" where
  "mark_publish_failed message t =
     Inr (upd_hdr (\<lambda>h. h\<lparr>th_state := TS_Failed, th_error := Some message\<rparr>) t)"

definition rollback_failed_publish :: "cenv \<Rightarrow> task list \<Rightarrow> engine_error \<Rightarrow> unit act" where
  "rollback_failed_publish env subtasks err =
     for_each (\<lambda>t. case tk_id t of
         None \<Rightarrow> ret ()
       | Some i \<Rightarrow> ignore (ds_do (update_task (ce_ids env) i
           (mark_publish_failed (''broker publish failed: '' @ engine_error_display err))))) subtasks"

definition create_and_publish_subtasks :: "cenv \<Rightarrow> task list \<Rightarrow> unit act" where
  "create_and_publish_subtasks env subtasks =
     (if subtasks = [] then ret ()
      else and_then (ds_do (create_tasks subtasks)) (\<lambda>_.
        on_error (broker_publish_tasks env QUEUE_PENDING subtasks) (\<lambda>err.
          and_then (rollback_failed_publish env subtasks err) (\<lambda>_. throw err))))"

section \<open>Regular tasks\<close>

definition or_else :: "'a option \<Rightarrow> 'a option \<Rightarrow> 'a option" where
  "or_else x y = (case x of None \<Rightarrow> y | Some _ \<Rightarrow> x)"

definition apply_defaults :: "job_defaults \<Rightarrow> task_hdr \<Rightarrow> task_hdr" where
  "apply_defaults d h = h\<lparr>th_queue := or_else (th_queue h) (jd_queue d),
     th_limits := or_else (th_limits h) (jd_limits d),
     th_timeout := or_else (th_timeout h) (jd_timeout d),
     th_retry := or_else (th_retry h) (jd_retry d),
     th_priority := (if th_priority h = 0 then jd_priority d else th_priority h)\<rparr>"

definition set_scheduled :: "time \<Rightarrow> task_hdr \<Rightarrow> task \<Rightarrow> ds_error + task" where
  "set_scheduled now src t =
     Inr (upd_hdr (\<lambda>h. h\<lparr>th_state := TS_Scheduled, th_scheduled_at := Some now,
       th_queue := th_queue src, th_limits := th_limits src, th_timeout := th_timeout src,
       th_retry := th_retry src, th_priority := th_priority src\<rparr>) t)"

definition schedule_regular_task :: "cenv \<Rightarrow> task \<Rightarrow> unit act" where
  "schedule_regular_task env t =
     (let task_id = (case tk_id t of Some i \<Rightarrow> i | None \<Rightarrow> [])
      in and_then (now_utc env) (\<lambda>now.
         and_then (lift_res (ok_or (tk_job_id t) (E_Scheduler (SC_JobIdRequired ''regular'')))) (\<lambda>job_id.
         and_then (ds_do (get_job_by_id job_id)) (\<lambda>j.
           let t = (case jb_defaults j of Some d \<Rightarrow> upd_hdr (apply_defaults d) t | None \<Rightarrow> t);
               t = upd_hdr (\<lambda>h. h\<lparr>th_state := TS_Scheduled, th_scheduled_at := Some now,
                 th_queue := or_else (th_queue h) (Some ''default'')\<rparr>) t;
               q = (case th_queue (hdr t) of Some q \<Rightarrow> q | None \<Rightarrow> [])
           in and_then (ds_do (update_task (ce_ids env) task_id (set_scheduled now (hdr t)))) (\<lambda>_.
              broker_publish_task env q t)))))"

section \<open>Parallel tasks\<close>

text \<open>A subtask: the evaluated task under a fresh id, pending, with its parent.\<close>

definition as_subtask :: "string \<Rightarrow> string \<Rightarrow> string \<Rightarrow> time \<Rightarrow> task \<Rightarrow> task" where
  "as_subtask new_id job_id parent now t =
     upd_hdr (\<lambda>h. h\<lparr>th_id := Some new_id, th_job_id := Some job_id, th_parent_id := Some parent,
       th_state := TS_Pending, th_created_at := Some now\<rparr>) t"

definition build_subtask ::
    "cenv \<Rightarrow> string \<Rightarrow> task \<Rightarrow> ctx \<Rightarrow> string \<Rightarrow> string \<Rightarrow> time \<Rightarrow> task act" where
  "build_subtask env context t job_ctx job_id parent now =
     and_then (lift_res (map_err (\<lambda>e. E_Scheduler (SC_Evaluation context e))
       (evaluate_task (ce_template env job_ctx) t))) (\<lambda>evaluated.
     and_then (new_short_uuid env) (\<lambda>new_id.
     and_then (lift_res (map_err E_Id (job_id_new (ie_uuid (ce_ids env)) job_id))) (\<lambda>j.
       ret (as_subtask new_id j parent now evaluated))))"

definition build_parallel_subtask :: "cenv \<Rightarrow> task \<Rightarrow> ctx \<Rightarrow> string \<Rightarrow> string \<Rightarrow> time \<Rightarrow> task act" where
  "build_parallel_subtask env t job_ctx job_id parent now =
     build_subtask env ''parallel task'' t job_ctx job_id parent now"

fun eff_collect :: "('a \<Rightarrow> ('s, 'e, 'b) eff) \<Rightarrow> 'a list \<Rightarrow> ('s, 'e, 'b list) eff" where
  "eff_collect f [] = ret []"
| "eff_collect f (x # xs) = and_then (f x) (\<lambda>y. and_then (eff_collect f xs) (\<lambda>ys. ret (y # ys)))"

definition PARALLEL_THRESHOLD :: nat where "PARALLEL_THRESHOLD = 8"

text \<open>
  From eight items on the work goes through \<open>par_bridge\<close>, which does not keep the order of
  the results (and returns some error, not always the first).
\<close>

definition bridged :: "cenv \<Rightarrow> nat \<Rightarrow> task list \<Rightarrow> task list" where
  "bridged env n ts = (if n < PARALLEL_THRESHOLD then ts else ce_par_bridge env ts)"

definition build_parallel_subtasks :: "cenv \<Rightarrow> task list \<Rightarrow> ctx \<Rightarrow> string \<Rightarrow> string \<Rightarrow> time \<Rightarrow> task list act" where
  "build_parallel_subtasks env tasks job_ctx job_id parent now =
     and_then (eff_collect (\<lambda>t. build_parallel_subtask env t job_ctx job_id parent now) tasks) (\<lambda>ts.
       ret (bridged env (length tasks) ts))"

definition schedule_parallel_task :: "cenv \<Rightarrow> task \<Rightarrow> unit act" where
  "schedule_parallel_task env t =
     and_then (lift_res (scheduler_ids t ''parallel'')) (\<lambda>(task_id, job_id).
     and_then (now_utc env) (\<lambda>now.
     and_then (ds_do (get_job_by_id job_id)) (\<lambda>j.
       let job_ctx = job_context_map j
       in and_then (mark_task_running env task_id now) (\<lambda>_.
          and_then (lift_res (ok_or (parallel t) (E_Scheduler (SC_MissingConfig ''parallel'')))) (\<lambda>p.
          and_then (lift_res (ok_or (par_tasks p) (E_Scheduler SC_MissingParallelTasks))) (\<lambda>tasks.
          and_then (build_parallel_subtasks env tasks job_ctx job_id task_id now) (\<lambda>subtasks.
            create_and_publish_subtasks env subtasks)))))))"

section \<open>Each tasks\<close>

definition eval_each_list :: "cenv \<Rightarrow> string \<Rightarrow> ctx \<Rightarrow> engine_error + json" where
  "eval_each_list env list_expr job_ctx =
     res_bind
       (if prefix ''['' (trim list_expr)
        then Inr (case ce_from_str env list_expr of
            Some (JArray xs) \<Rightarrow> JArray xs
          | _ \<Rightarrow> JString list_expr)
        else map_err (\<lambda>e. E_Scheduler (SC_Evaluation ''each list'' e)) (ce_expr env list_expr job_ctx))
       (\<lambda>list_val. Inr (case list_val of
            JString s \<Rightarrow> (case ce_from_str env s of Some json_list \<Rightarrow> json_list | None \<Rightarrow> list_val)
          | _ \<Rightarrow> list_val))"

fun set_each_size :: "int \<Rightarrow> each_task \<Rightarrow> each_task" where
  "set_each_size n (EachTask v l t sz completions concurrency index) =
     EachTask v l t n completions concurrency index"

definition set_each_running :: "int \<Rightarrow> time \<Rightarrow> task \<Rightarrow> ds_error + task" where
  "set_each_running sz now t = Inr (upd_each (set_each_size sz)
     (upd_hdr (\<lambda>h. h\<lparr>th_state := TS_Running, th_started_at := Some now\<rparr>) t))"

definition mark_each_task_running :: "cenv \<Rightarrow> string \<Rightarrow> int \<Rightarrow> time \<Rightarrow> unit act" where
  "mark_each_task_running env task_id sz now =
     ds_do (update_task (ce_ids env) task_id (set_each_running sz now))"

definition insert_item_context_entries :: "ctx \<Rightarrow> json \<Rightarrow> string \<Rightarrow> ctx" where
  "insert_item_context_entries cx item var =
     (case item of
        JObject obj \<Rightarrow> fold (\<lambda>(k, v). AList.update (var @ ''_value_'' @ k) v) obj (AList.update var item cx)
      | _ \<Rightarrow> AList.update (var @ ''_value'') item (AList.update var item cx))"

definition extend_context_with_item :: "ctx \<Rightarrow> json \<Rightarrow> string \<Rightarrow> nat \<Rightarrow> ctx" where
  "extend_context_with_item base item var ix =
     insert_item_context_entries (AList.update (var @ ''_index'') (JString (show_nat ix)) base) item var"

definition build_subtask_with_base ::
    "cenv \<Rightarrow> nat \<Rightarrow> json \<Rightarrow> task \<Rightarrow> ctx \<Rightarrow> string \<Rightarrow> string \<Rightarrow> string \<Rightarrow> time \<Rightarrow> task act" where
  "build_subtask_with_base env ix item tpl base var job_id task_id now =
     build_subtask env ''each item task'' tpl (extend_context_with_item base item var ix) job_id task_id now"

definition spawn_each_tasks ::
    "cenv \<Rightarrow> json list \<Rightarrow> task \<Rightarrow> ctx \<Rightarrow> string \<Rightarrow> string \<Rightarrow> string \<Rightarrow> time \<Rightarrow> unit act" where
  "spawn_each_tasks env items tpl base var job_id task_id now =
     and_then (eff_collect (\<lambda>(ix, item). build_subtask_with_base env ix item tpl base var job_id task_id now)
       (enumerate 0 items)) (\<lambda>subtasks.
     create_and_publish_subtasks env (bridged env (length items) subtasks))"

definition schedule_each_task :: "cenv \<Rightarrow> task \<Rightarrow> unit act" where
  "schedule_each_task env t =
     and_then (lift_res (scheduler_ids t ''each'')) (\<lambda>(task_id, job_id).
     and_then (now_utc env) (\<lambda>now.
     and_then (ds_do (get_job_by_id job_id)) (\<lambda>j.
       let job_ctx = job_context_map j
       in and_then (lift_res (ok_or (each t) (E_Scheduler (SC_MissingConfig ''each'')))) (\<lambda>e.
          and_then (lift_res (eval_each_list env (case each_list e of Some l \<Rightarrow> l | None \<Rightarrow> []) job_ctx)) (\<lambda>v.
          and_then (lift_res (ok_or (as_array v) (E_Scheduler SC_EachListMustBeArray))) (\<lambda>items.
          and_then (mark_each_task_running env task_id (int (length items)) now) (\<lambda>_.
          and_then (lift_res (ok_or (each_template e) (E_Scheduler SC_MissingEachTemplate))) (\<lambda>tpl.
            spawn_each_tasks env items tpl job_ctx ''item'' job_id task_id now))))))))"

section \<open>Subjobs\<close>

definition subjob_of :: "subjob_task \<Rightarrow> job \<Rightarrow> string \<Rightarrow> string \<Rightarrow> time \<Rightarrow> job" where
  "subjob_of s j new_id parent now =
     (let h = sj_hdr s in
      default_job\<lparr>jb_id := Some new_id, jb_parent_id := Some parent, jb_name := sj_name h,
        jb_description := sj_description h, jb_state := JS_Pending, jb_tasks := sj_tasks s,
        jb_inputs := sj_inputs h, jb_secrets := sj_secrets h,
        jb_task_count := (case sj_tasks s of None \<Rightarrow> 0 | Some ts \<Rightarrow> int (length ts)),
        jb_output := sj_output h, jb_webhooks := sj_webhooks h,
        jb_auto_delete := sj_auto_delete h, jb_created_at := Some now,
        jb_created_by := jb_created_by j\<rparr>)"

definition set_subjob_running :: "string \<Rightarrow> time \<Rightarrow> task \<Rightarrow> ds_error + task" where
  "set_subjob_running sid now t = Inr (upd_subjob (\<lambda>h. h\<lparr>sj_id := Some sid\<rparr>)
     (upd_hdr (\<lambda>h. h\<lparr>th_state := TS_Running, th_started_at := Some now\<rparr>) t))"

definition schedule_subjob_task :: "cenv \<Rightarrow> task \<Rightarrow> unit act" where
  "schedule_subjob_task env t =
     (let task_id = (case tk_id t of Some i \<Rightarrow> i | None \<Rightarrow> []);
          job_id = (case tk_job_id t of Some i \<Rightarrow> i | None \<Rightarrow> [])
      in and_then (now_utc env) (\<lambda>now.
         and_then (ds_do (get_job_by_id job_id)) (\<lambda>j.
         and_then (lift_res (ok_or (subjob t) (E_Scheduler (SC_MissingConfig ''subjob'')))) (\<lambda>s.
         and_then (new_short_uuid env) (\<lambda>u.
         and_then (lift_res (map_err E_Id (job_id_new (ie_uuid (ce_ids env)) u))) (\<lambda>new_id.
         and_then (lift_res (map_err E_Id (job_id_new (ie_uuid (ce_ids env)) task_id))) (\<lambda>parent.
           let sub = subjob_of s j new_id parent now
           in and_then (ds_do (update_task (ce_ids env) task_id (set_subjob_running new_id now))) (\<lambda>_.
              and_then (ds_do (create_job sub)) (\<lambda>_.
              broker_publish_job env sub)))))))))"

definition schedule_task :: "cenv \<Rightarrow> task \<Rightarrow> unit act" where
  "schedule_task env t =
     (if parallel t \<noteq> None then schedule_parallel_task env t
      else if each t \<noteq> None then schedule_each_task env t
      else if subjob t \<noteq> None then schedule_subjob_task env t
      else schedule_regular_task env t)"

end
