(* ===== verification/Handlers.thy ===== *)
theory Handlers
  imports Scheduler
begin

text \<open>
  The coordinator's handlers (\<open>engine/coordinator/handlers\<close>): what happens to the datastore and the
  broker when a task or job event arrives. Counters are integers (\<open>i64\<close> in the code, far from its
  bounds). Log output is left out; a webhook error that the code only logs is ignored.
\<close>

section \<open>Utilities\<close>

definition build_job_context :: "job \<Rightarrow> ctx" where
  "build_job_context j =
     (case jb_context j of
        None \<Rightarrow> []
      | Some c \<Rightarrow> fold (\<lambda>(k, v). AList.update k (JString v))
          (case jc_inputs c of None \<Rightarrow> [] | Some m \<Rightarrow> m) (as_map c))"

definition is_job_active :: "jstate \<Rightarrow> bool" where
  "is_job_active s \<longleftrightarrow> s \<in> {JS_Running, JS_Scheduled, JS_Pending}"

definition can_retry :: "task_retry \<Rightarrow> bool" where
  "can_retry r \<longleftrightarrow> tr_attempts r < tr_limit r"

definition should_skip_task :: "task \<Rightarrow> bool" where
  "should_skip_task t \<longleftrightarrow> (case th_if (hdr t) of None \<Rightarrow> False | Some s \<Rightarrow> trim s = ''false'')"

definition as_skipped :: "time \<Rightarrow> task \<Rightarrow> task" where
  "as_skipped now = upd_hdr (\<lambda>h. h\<lparr>th_state := TS_Skipped, th_scheduled_at := Some now,
     th_started_at := Some now, th_completed_at := Some now\<rparr>)"

definition task_id_of :: "task \<Rightarrow> handler_error \<Rightarrow> string act" where
  "task_id_of t e = lift_res (ok_or (tk_id t) (E_Handler e))"

definition skip_task :: "cenv \<Rightarrow> task \<Rightarrow> unit act" where
  "skip_task env t =
     and_then (now_utc env) (\<lambda>now.
     and_then (task_id_of t HE_MissingTaskId) (\<lambda>task_id.
     and_then (ds_do (update_task (ce_ids env) task_id (\<lambda>u. Inr (as_skipped now u)))) (\<lambda>_.
       broker_publish_task env QUEUE_COMPLETED (as_skipped now t))))"

text \<open>\<open>xs.get(i as usize)\<close>: a negative index reads as a huge one.\<close>

definition list_get :: "'a list \<Rightarrow> int \<Rightarrow> 'a option" where
  "list_get xs i = (if 0 \<le> i \<and> i < int (length xs) then Some (xs ! nat i) else None)"

section \<open>Retries\<close>

definition as_retry :: "string \<Rightarrow> time \<Rightarrow> task_retry \<Rightarrow> task \<Rightarrow> task" where
  "as_retry new_id now r = upd_hdr (\<lambda>h. h\<lparr>th_id := Some new_id, th_created_at := Some now,
     th_state := TS_Pending, th_error := None, th_failed_at := None,
     th_retry := Some \<lparr>tr_limit = tr_limit r, tr_attempts = tr_attempts r + 1\<rparr>\<rparr>)"

definition create_retry_task :: "cenv \<Rightarrow> task \<Rightarrow> job \<Rightarrow> time \<Rightarrow> unit act" where
  "create_retry_task env t j now =
     and_then (lift_res (ok_or (th_retry (hdr t)) (E_Handler HE_MissingRetryConfig))) (\<lambda>retry_config.
     and_then (new_short_uuid env) (\<lambda>new_id.
     and_then (lift_res (map_err E_Msg
       (evaluate_task (ce_template env (build_job_context j)) (as_retry new_id now retry_config t)))) (\<lambda>final_task.
     and_then (ds_do (create_task final_task)) (\<lambda>_.
       broker_publish_task env QUEUE_PENDING final_task))))"

section \<open>Top-level tasks\<close>

definition next_job_task :: "string \<Rightarrow> string \<Rightarrow> int \<Rightarrow> time \<Rightarrow> task \<Rightarrow> task" where
  "next_job_task new_id job_id position now = upd_hdr (\<lambda>h. h\<lparr>th_id := Some new_id,
     th_job_id := Some job_id, th_state := TS_Pending, th_position := position,
     th_created_at := Some now\<rparr>)"

text \<open>The position counts the tasks a job has been through; the sum is taken in \<open>int\<close>, and differs from that of the \<open>i64\<close>
  only at the largest one, which no list of tasks reaches.\<close>

definition handle_top_level_task_completed :: "cenv \<Rightarrow> string \<Rightarrow> unit act" where
  "handle_top_level_task_completed env job_id =
     and_then (ds_do (get_job_by_id job_id)) (\<lambda>j.
       let next_position = jb_position j + 1
       in and_then (now_utc env) (\<lambda>now.
          and_then (lift_res (ok_or (jb_tasks j) (E_Handler HE_JobHasNoTasks))) (\<lambda>tasks.
            if next_position \<le> int (length tasks)
            then and_then (lift_res (ok_or (list_get tasks (next_position - 1)) (E_Handler HE_TaskOutOfBounds))) (\<lambda>base_task.
                 and_then (new_short_uuid env) (\<lambda>new_id.
                 and_then (lift_res (map_err E_Id (job_id_new (ie_uuid (ce_ids env)) job_id))) (\<lambda>jid.
                   let t = next_job_task new_id jid next_position now base_task
                   in and_then (ds_do (create_task t)) (\<lambda>_.
                      and_then (ds_do (update_job (ce_ids env) job_id (\<lambda>u. Inr (u\<lparr>jb_position := next_position\<rparr>)))) (\<lambda>_.
                        broker_publish_task env QUEUE_PENDING t)))))
            else broker_publish_job env (j\<lparr>jb_state := JS_Completed\<rparr>))))"

definition handle_top_level_task_failed :: "cenv \<Rightarrow> string \<Rightarrow> string option \<Rightarrow> unit act" where
  "handle_top_level_task_failed env job_id task_error =
     and_then (ds_do (get_job_by_id job_id)) (\<lambda>j.
     and_then (now_utc env) (\<lambda>now.
       broker_publish_job env (j\<lparr>jb_state := JS_Failed, jb_failed_at := Some now, jb_error := task_error\<rparr>)))"

section \<open>Subtasks\<close>

text \<open>
  The closures that count a completion also report whether it was the last one: \<open>last_parallel\<close> and
  \<open>last_each\<close> are what they store, of the entry they are applied to.
\<close>

definition count_parallel :: "task \<Rightarrow> task" where
  "count_parallel = upd_parallel (\<lambda>p. ParallelTask (par_tasks p) (par_completions p + 1))"

definition last_parallel :: "task \<Rightarrow> bool" where
  "last_parallel u \<longleftrightarrow> (case parallel u of None \<Rightarrow> False
     | Some p \<Rightarrow> (case par_tasks p of None \<Rightarrow> False
       | Some ts \<Rightarrow> int (length ts) \<le> par_completions p + 1))"

fun each_counted :: "each_task \<Rightarrow> each_task" where
  "each_counted (EachTask v l t sz completions concurrency index) =
     EachTask v l t sz (completions + 1) concurrency index"

definition count_each :: "task \<Rightarrow> task" where "count_each = upd_each each_counted"

definition last_each :: "task \<Rightarrow> bool" where
  "last_each u \<longleftrightarrow> (case each u of None \<Rightarrow> False | Some e \<Rightarrow> each_size e \<le> each_completions e + 1)"

definition as_completed :: "time \<Rightarrow> task \<Rightarrow> task" where
  "as_completed now = upd_hdr (\<lambda>h. h\<lparr>th_state := TS_Completed, th_completed_at := Some now\<rparr>)"

definition count_subtask :: "cenv \<Rightarrow> (task \<Rightarrow> task) \<Rightarrow> (task \<Rightarrow> bool) \<Rightarrow> task \<Rightarrow> unit act" where
  "count_subtask env count is_last_of parent =
     and_then (task_id_of parent HE_MissingParentTaskId) (\<lambda>parent_id.
     and_then (asks (\<lambda>w. case look_task (w_ds w) parent_id of None \<Rightarrow> False | Some u \<Rightarrow> is_last_of u)) (\<lambda>is_last.
     and_then (ds_do (update_task (ce_ids env) parent_id (\<lambda>u. Inr (count u)))) (\<lambda>_.
       if is_last
       then and_then (now_utc env) (\<lambda>now. broker_publish_task env QUEUE_COMPLETED (as_completed now parent))
       else ret ())))"

definition handle_parallel_subtask_completed :: "cenv \<Rightarrow> task \<Rightarrow> unit act" where
  "handle_parallel_subtask_completed env parent = count_subtask env count_parallel last_parallel parent"

definition handle_each_subtask_completed :: "cenv \<Rightarrow> task \<Rightarrow> unit act" where
  "handle_each_subtask_completed env parent = count_subtask env count_each last_each parent"

definition handle_subtask_completed :: "cenv \<Rightarrow> task \<Rightarrow> string \<Rightarrow> unit act" where
  "handle_subtask_completed env t parent_id =
     and_then (ds_do (get_task_by_id parent_id)) (\<lambda>parent.
       if parallel parent \<noteq> None then handle_parallel_subtask_completed env parent
       else if each parent \<noteq> None then handle_each_subtask_completed env parent
       else ret ())"

text \<open>\<open>fail\<close> is \<open>handle_task_failed\<close>, which calls this again for the parent of the parent.\<close>

definition as_failed :: "time \<Rightarrow> string option \<Rightarrow> task \<Rightarrow> task" where
  "as_failed now err = upd_hdr (\<lambda>h. h\<lparr>th_state := TS_Failed, th_failed_at := Some now, th_error := err\<rparr>)"

definition handle_subtask_failed :: "(task \<Rightarrow> unit act) \<Rightarrow> cenv \<Rightarrow> task \<Rightarrow> string \<Rightarrow> unit act" where
  "handle_subtask_failed fail env t parent_id =
     and_then (ds_do (get_task_by_id parent_id)) (\<lambda>parent.
       if parallel parent \<noteq> None \<or> each parent \<noteq> None
       then and_then (now_utc env) (\<lambda>now. fail (as_failed now (th_error (hdr t)) parent))
       else ret ())"

section \<open>Tasks\<close>

definition handle_pending_task :: "cenv \<Rightarrow> task \<Rightarrow> unit act" where
  "handle_pending_task env t =
     (if should_skip_task t then skip_task env t else schedule_task env t)"

definition handle_redelivered :: "cenv \<Rightarrow> task \<Rightarrow> unit act" where
  "handle_redelivered env t =
     and_then (task_id_of t HE_RedeliveredMissingTaskId) (\<lambda>task_id.
     and_then (ds_do (get_task_by_id task_id)) (\<lambda>persisted.
       if tk_state persisted \<in> {TS_Completed, TS_Failed, TS_Cancelled} then ret ()
       else let t = upd_hdr (\<lambda>h. h\<lparr>th_redelivered := th_redelivered h + 1\<rparr>) t;
                q = (case th_queue (hdr persisted) of Some q \<Rightarrow> q | None \<Rightarrow> ''default'')
            in and_then (ds_do (update_task (ce_ids env) task_id
                 (\<lambda>u. Inr (upd_hdr (\<lambda>h. h\<lparr>th_redelivered := th_redelivered (hdr t)\<rparr>) u)))) (\<lambda>_.
                 broker_publish_task env q t)))"

definition handle_started :: "cenv \<Rightarrow> task \<Rightarrow> unit act" where
  "handle_started env t =
     and_then (task_id_of t HE_MissingTaskId) (\<lambda>task_id.
     and_then (now_utc env) (\<lambda>now.
     and_then (ds_do (update_task (ce_ids env) task_id (set_running now))) (\<lambda>_.
       ignore (fire_task_webhooks t ''task.Started''))))"

definition handle_log_part :: "task_log_part \<Rightarrow> unit act" where
  "handle_log_part part = ds_do (create_task_log_part part)"

definition persist_task_progress :: "cenv \<Rightarrow> task \<Rightarrow> unit act" where
  "persist_task_progress env t =
     and_then (task_id_of t HE_MissingTaskId) (\<lambda>task_id.
       ds_do (update_task (ce_ids env) task_id (\<lambda>u. Inr (upd_hdr (\<lambda>h. h\<lparr>th_state := tk_state t,
         th_started_at := th_started_at (hdr t), th_completed_at := th_completed_at (hdr t),
         th_failed_at := th_failed_at (hdr t), th_result := th_result (hdr t),
         th_error := th_error (hdr t), th_exit_code := th_exit_code (hdr t)\<rparr>) u))))"

definition persist_completed_task :: "cenv \<Rightarrow> task \<Rightarrow> unit act" where
  "persist_completed_task env t =
     and_then (task_id_of t HE_MissingTaskId) (\<lambda>task_id.
       ds_do (update_task (ce_ids env) task_id (\<lambda>u. Inr (upd_hdr (\<lambda>h. h\<lparr>th_state := TS_Completed,
         th_completed_at := th_completed_at (hdr t), th_result := th_result (hdr t),
         th_exit_code := th_exit_code (hdr t)\<rparr>) u))))"

definition route_completed_task :: "cenv \<Rightarrow> task \<Rightarrow> unit act" where
  "route_completed_task env t =
     (case tk_parent_id t of
        Some parent_id \<Rightarrow> handle_subtask_completed env t parent_id
      | None \<Rightarrow> and_then (lift_res (ok_or (tk_job_id t) (E_Handler HE_MissingJobId))) (\<lambda>job_id.
          handle_top_level_task_completed env job_id))"

definition handle_task_completed :: "cenv \<Rightarrow> task \<Rightarrow> unit act" where
  "handle_task_completed env t =
     and_then (persist_completed_task env t) (\<lambda>_.
     and_then (ignore (fire_task_webhooks t ''task.Completed'')) (\<lambda>_.
       route_completed_task env t))"

definition persist_failed_task :: "cenv \<Rightarrow> task \<Rightarrow> unit act" where
  "persist_failed_task env t =
     and_then (task_id_of t HE_MissingTaskId) (\<lambda>task_id.
       ds_do (update_task (ce_ids env) task_id (\<lambda>u. Inr (upd_hdr (\<lambda>h. h\<lparr>th_state := TS_Failed,
         th_failed_at := th_failed_at (hdr t), th_error := th_error (hdr t),
         th_exit_code := th_exit_code (hdr t)\<rparr>) u))))"

definition route_failed_task :: "(task \<Rightarrow> unit act) \<Rightarrow> cenv \<Rightarrow> task \<Rightarrow> unit act" where
  "route_failed_task fail env t =
     (case tk_parent_id t of
        Some parent_id \<Rightarrow> handle_subtask_failed fail env t parent_id
      | None \<Rightarrow> and_then (lift_res (ok_or (tk_job_id t) (E_Handler HE_MissingJobId))) (\<lambda>job_id.
          handle_top_level_task_failed env job_id (th_error (hdr t))))"

text \<open>
  The recursion climbs the chain of parents. Each level finds its parent in the datastore, so a
  chain without a cycle has at most as many levels as there are tasks.
\<close>

fun fail_up :: "nat \<Rightarrow> cenv \<Rightarrow> task \<Rightarrow> unit act" where
  "fail_up 0 env t = throw E_Diverges"
| "fail_up (Suc n) env t =
     and_then (persist_failed_task env t) (\<lambda>_.
     and_then (ignore (fire_task_webhooks t ''task.Failed'')) (\<lambda>_.
       route_failed_task (fail_up n env) env t))"

definition handle_task_failed :: "cenv \<Rightarrow> task \<Rightarrow> unit act" where
  "handle_task_failed env t w = fail_up (Suc (length (ds_tasks (w_ds w)))) env t w"

definition persist_task_error :: "cenv \<Rightarrow> string \<Rightarrow> task \<Rightarrow> time \<Rightarrow> unit act" where
  "persist_task_error env task_id t now =
     ds_do (update_task (ce_ids env) task_id (\<lambda>u. Inr (upd_hdr (\<lambda>h. h\<lparr>th_state := TS_Failed,
       th_failed_at := Some now, th_error := th_error (hdr t), th_result := th_result (hdr t),
       th_exit_code := th_exit_code (hdr t)\<rparr>) u)))"

definition handle_error :: "cenv \<Rightarrow> task \<Rightarrow> unit act" where
  "handle_error env t =
     and_then (task_id_of t HE_MissingTaskId) (\<lambda>task_id.
     and_then (lift_res (ok_or (tk_job_id t) (E_Handler HE_MissingJobId))) (\<lambda>job_id.
     and_then (now_utc env) (\<lambda>now.
     and_then (persist_task_error env task_id t now) (\<lambda>_.
     and_then (ds_do (get_job_by_id job_id)) (\<lambda>j.
       if \<not> is_job_active (jb_state j) then ignore (fire_task_webhooks t ''task.Error'')
       else if (case th_retry (hdr t) of Some r \<Rightarrow> can_retry r | None \<Rightarrow> False)
         then create_retry_task env t j now
       else let failed_task = upd_hdr (\<lambda>h. h\<lparr>th_state := TS_Failed, th_failed_at := Some now\<rparr>) t
            in and_then (broker_publish_task env QUEUE_FAILED failed_task) (\<lambda>_.
                 handle_task_failed env failed_task))))))"

definition handle_task_progress :: "cenv \<Rightarrow> task \<Rightarrow> unit act" where
  "handle_task_progress env t =
     (case tk_state t of
        TS_Pending \<Rightarrow> handle_pending_task env t
      | TS_Completed \<Rightarrow> handle_task_completed env t
      | TS_Failed \<Rightarrow> handle_error env t
      | _ \<Rightarrow> persist_task_progress env t)"

end
