(* ===== verification/Job_Handlers.thy ===== *)
theory Job_Handlers
  imports Handlers
begin

text \<open>
  Job events, cancellation and heartbeats (\<open>handlers/job_handlers.rs\<close>, \<open>cancellation.rs\<close>,
  \<open>health.rs\<close>).
\<close>

definition TOPIC_JOB :: string where "TOPIC_JOB = ''job.*''"
definition TOPIC_JOB_COMPLETED :: string where "TOPIC_JOB_COMPLETED = ''job.completed''"
definition TOPIC_JOB_FAILED :: string where "TOPIC_JOB_FAILED = ''job.failed''"
definition TOPIC_JOB_PROGRESS :: string where "TOPIC_JOB_PROGRESS = ''job.progress''"

section \<open>Cancellation\<close>

type_synonym 'a job_act = "(world, job_handler_error, 'a) eff"

definition jh_ds :: "'a ds \<Rightarrow> 'a job_act" where
  "jh_ds m = eff_map_err (\<lambda>e. JH_Datastore (ds_error_display e)) (ds_call m)"

definition jh_broker :: "'a act \<Rightarrow> 'a job_act" where
  "jh_broker m = eff_map_err (\<lambda>e. JH_Handler (engine_error_display e)) m"

definition jh_some :: "'a option \<Rightarrow> string \<Rightarrow> 'a job_act" where
  "jh_some x message = lift_res (ok_or x (JH_Handler message))"

definition cancel_parent_job :: "cenv \<Rightarrow> string \<Rightarrow> unit job_act" where
  "cancel_parent_job env parent_id =
     and_then (jh_ds (get_task_by_id parent_id)) (\<lambda>parent_task.
     and_then (jh_some (tk_job_id parent_task) ''parent task has no job_id'') (\<lambda>parent_job_id.
     and_then (jh_ds (get_job_by_id parent_job_id)) (\<lambda>parent_job.
       jh_broker (broker_publish_job env (parent_job\<lparr>jb_state := JS_Cancelled\<rparr>)))))"

definition cancel_task_affinity :: "cenv \<Rightarrow> task \<Rightarrow> unit job_act" where
  "cancel_task_affinity env t =
     (case subjob t of
        Some s \<Rightarrow> and_then (jh_some (sj_id (sj_hdr s)) ''subjob has no id'') (\<lambda>subjob_id.
          and_then (jh_ds (get_job_by_id subjob_id)) (\<lambda>job_to_cancel.
            jh_broker (broker_publish_job env (job_to_cancel\<lparr>jb_state := JS_Cancelled\<rparr>))))
      | None \<Rightarrow> (case th_node_id (hdr t) of
          Some node_id \<Rightarrow> and_then (jh_ds (get_node_by_id node_id)) (\<lambda>n.
            let q = (case nd_queue n of Some q \<Rightarrow> q | None \<Rightarrow> QUEUE_PENDING)
            in jh_broker (broker_publish_task env q t))
        | None \<Rightarrow> ret ()))"

definition as_cancelled :: "task \<Rightarrow> task" where
  "as_cancelled = upd_hdr (th_state_update (\<lambda>_. TS_Cancelled))"

definition cancel_task :: "cenv \<Rightarrow> task \<Rightarrow> unit job_act" where
  "cancel_task env t =
     and_then (jh_some (tk_id t) ''task has no id'') (\<lambda>task_id.
     and_then (jh_ds (update_task (ce_ids env) task_id (\<lambda>u. Inr (as_cancelled u)))) (\<lambda>_.
       cancel_task_affinity env t))"

definition cancel_active_tasks :: "cenv \<Rightarrow> string \<Rightarrow> unit job_act" where
  "cancel_active_tasks env job_id =
     and_then (jh_ds (get_active_tasks (ce_ids env) job_id)) (for_each (cancel_task env))"

definition handle_cancel :: "cenv \<Rightarrow> job \<Rightarrow> unit job_act" where
  "handle_cancel env j =
     and_then (jh_some (jb_id j) ''job has no id'') (\<lambda>job_id.
     and_then (if is_job_active (jb_state j)
       then jh_ds (update_job (ce_ids env) job_id (\<lambda>u. Inr (u\<lparr>jb_state := JS_Cancelled\<rparr>)))
       else ret ()) (\<lambda>_.
     and_then (case jb_parent_id j of Some parent_id \<Rightarrow> cancel_parent_job env parent_id | None \<Rightarrow> ret ()) (\<lambda>_.
       cancel_active_tasks env job_id)))"

section \<open>Starting and restarting\<close>

definition job_id_of :: "job \<Rightarrow> string act" where
  "job_id_of j = lift_res (ok_or (jb_id j) (E_Handler HE_MissingJobId))"

definition set_job_scheduled :: "time \<Rightarrow> job \<Rightarrow> job" where
  "set_job_scheduled now u = u\<lparr>jb_state := JS_Scheduled, jb_started_at := Some now, jb_position := 1,
     jb_progress := f64_of_int 0\<rparr>"

definition transition_job_to_scheduled :: "cenv \<Rightarrow> string \<Rightarrow> time \<Rightarrow> unit act" where
  "transition_job_to_scheduled env job_id now =
     ds_do (update_job (ce_ids env) job_id (\<lambda>u. Inr (set_job_scheduled now u)))"

definition build_pending_job_task :: "cenv \<Rightarrow> task \<Rightarrow> ctx \<Rightarrow> string \<Rightarrow> int \<Rightarrow> time \<Rightarrow> task act" where
  "build_pending_job_task env base_task job_ctx job_id position now =
     and_then (lift_res (map_err E_Msg (evaluate_task (ce_template env job_ctx) base_task))) (\<lambda>evaluated.
     and_then (new_short_uuid env) (\<lambda>new_id.
       ret (upd_hdr (\<lambda>h. h\<lparr>th_id := Some new_id, th_job_id := Some job_id, th_state := TS_Pending,
         th_position := position, th_created_at := Some now\<rparr>) evaluated)))"

definition start_job :: "cenv \<Rightarrow> job \<Rightarrow> unit act" where
  "start_job env j =
     and_then (lift_res (ok_or (jb_tasks j) (E_Handler HE_JobHasNoTasks))) (\<lambda>tasks.
     and_then (lift_res (ok_or (list_get tasks 0) (E_Handler HE_JobHasNoTasks))) (\<lambda>base_task.
     and_then (now_utc env) (\<lambda>now.
       let job_ctx = build_job_context j
       in and_then (job_id_of j) (\<lambda>job_id.
          and_then (transition_job_to_scheduled env job_id now) (\<lambda>_.
          and_then (build_pending_job_task env base_task job_ctx job_id 1 now) (\<lambda>t.
          and_then (ds_do (create_task t)) (\<lambda>_.
          and_then (fire_job_webhooks j ''job.Scheduled'') (\<lambda>_.
            handle_pending_task env t))))))))"

definition restart_job :: "cenv \<Rightarrow> job \<Rightarrow> unit act" where
  "restart_job env j =
     and_then (job_id_of j) (\<lambda>job_id.
     and_then (now_utc env) (\<lambda>now.
     and_then (ds_do (update_job (ce_ids env) job_id
       (\<lambda>u. Inr (u\<lparr>jb_state := JS_Running, jb_failed_at := None\<rparr>)))) (\<lambda>_.
     and_then (lift_res (ok_or (jb_tasks j) (E_Handler HE_JobHasNoTasks))) (\<lambda>tasks.
     and_then (lift_res (ok_or (list_get tasks (jb_position j - 1)) (E_Handler HE_TaskOutOfBounds))) (\<lambda>base_task.
     and_then (build_pending_job_task env base_task (build_job_context j) job_id (jb_position j) now) (\<lambda>t.
     and_then (ds_do (create_task t)) (\<lambda>_.
       broker_publish_task env QUEUE_PENDING t)))))))"

section \<open>Completion\<close>

definition publish_completed_parent_task :: "cenv \<Rightarrow> string \<Rightarrow> time \<Rightarrow> unit act" where
  "publish_completed_parent_task env parent_id now =
     and_then (ds_do (get_task_by_id parent_id)) (\<lambda>parent.
       broker_publish_task env QUEUE_COMPLETED (as_completed now parent))"

definition publish_job_completed_event :: "cenv \<Rightarrow> job \<Rightarrow> unit act" where
  "publish_job_completed_event env j = broker_publish_event env TOPIC_JOB_COMPLETED (ce_job_value env j)"

definition complete_job :: "cenv \<Rightarrow> job \<Rightarrow> unit act" where
  "complete_job env j =
     and_then (now_utc env) (\<lambda>now.
     and_then (job_id_of j) (\<lambda>job_id.
     and_then (ds_do (update_job (ce_ids env) job_id (\<lambda>u. Inr (u\<lparr>jb_state := JS_Completed,
       jb_completed_at := Some now, jb_progress := f64_of_int 100\<rparr>)))) (\<lambda>_.
     and_then (ds_do (get_job_by_id job_id)) (\<lambda>updated_job.
     and_then (fire_job_webhooks updated_job ''job.Completed'') (\<lambda>_.
       case jb_parent_id j of
         Some parent_id \<Rightarrow> publish_completed_parent_task env parent_id now
       | None \<Rightarrow> publish_job_completed_event env j)))))"

definition percentage :: "int \<Rightarrow> int \<Rightarrow> f64" where
  "percentage n of_n = f64_mul (f64_div (f64_of_int n) (f64_of_int of_n)) (f64_of_int 100)"

definition set_job_running :: "f64 \<Rightarrow> job \<Rightarrow> job" where
  "set_job_running progress u =
     (let u = (if jb_state u = JS_Scheduled then u\<lparr>jb_state := JS_Running, jb_failed_at := None\<rparr> else u)
      in u\<lparr>jb_progress := progress\<rparr>)"

definition mark_job_as_running :: "cenv \<Rightarrow> job \<Rightarrow> unit job_act" where
  "mark_job_as_running env j =
     and_then (jh_some (jb_id j) ''job has no id'') (\<lambda>job_id.
     and_then (jh_ds (get_all_tasks_for_job (ce_ids env) job_id)) (\<lambda>tasks.
       let total = max (length tasks) 1;
           completed = length (filter (\<lambda>t. \<not> is_active (tk_state t)) tasks);
           progress = percentage (int completed) (int total)
       in jh_ds (update_job (ce_ids env) job_id (\<lambda>u. Inr (set_job_running progress u)))))"

section \<open>Failure\<close>

definition publish_failed_parent_task_if_present :: "cenv \<Rightarrow> job \<Rightarrow> time option \<Rightarrow> unit job_act" where
  "publish_failed_parent_task_if_present env j failed_at =
     (case jb_parent_id j of
        Some parent_id \<Rightarrow> and_then (jh_ds (get_task_by_id parent_id)) (\<lambda>parent.
          jh_broker (broker_publish_task env QUEUE_FAILED
            (upd_hdr (\<lambda>h. h\<lparr>th_state := TS_Failed, th_failed_at := failed_at, th_error := jb_error j\<rparr>) parent)))
      | None \<Rightarrow> ret ())"

definition set_job_failed :: "time option \<Rightarrow> job \<Rightarrow> job" where
  "set_job_failed failed_at u =
     (let u = (if is_job_active (jb_state u) then u\<lparr>jb_state := JS_Failed, jb_failed_at := failed_at\<rparr> else u);
          total = max (case jb_tasks u of Some ts \<Rightarrow> length ts | None \<Rightarrow> 1) 1;
          completed = max (jb_position u - 1) 0
      in u\<lparr>jb_progress := percentage completed (int total)\<rparr>)"

definition fail_job :: "cenv \<Rightarrow> job \<Rightarrow> unit job_act" where
  "fail_job env j =
     and_then (jh_some (jb_id j) ''job has no id'') (\<lambda>job_id.
     and_then (jh_ds (update_job (ce_ids env) job_id (\<lambda>u. Inr (set_job_failed (jb_failed_at j) u)))) (\<lambda>_.
     and_then (publish_failed_parent_task_if_present env j (jb_failed_at j)) (\<lambda>_.
     and_then (cancel_active_tasks env job_id) (\<lambda>_.
     and_then (jh_ds (get_job_by_id job_id)) (\<lambda>updated_job.
       if jb_state updated_job = JS_Failed
       then jh_broker (broker_publish_event env TOPIC_JOB_FAILED (ce_job_value env updated_job))
       else ret ())))))"

definition as_message :: "'a job_act \<Rightarrow> 'a act" where
  "as_message m = eff_map_err (\<lambda>e. E_Msg (job_handler_error_display e)) m"

definition handle_job_event :: "cenv \<Rightarrow> job \<Rightarrow> unit act" where
  "handle_job_event env j =
     (case jb_state j of
        JS_Pending \<Rightarrow> start_job env j
      | JS_Completed \<Rightarrow> complete_job env j
      | JS_Restart \<Rightarrow> restart_job env j
      | JS_Cancelled \<Rightarrow> as_message (handle_cancel env j)
      | JS_Failed \<Rightarrow> as_message (fail_job env j)
      | JS_Running \<Rightarrow> as_message (mark_job_as_running env j)
      | JS_Scheduled \<Rightarrow> ret ())"

section \<open>Heartbeats\<close>

definition beat :: "node \<Rightarrow> node \<Rightarrow> node" where
  "beat n u = u\<lparr>nd_last_heartbeat_at := nd_last_heartbeat_at n, nd_cpu_percent := nd_cpu_percent n,
     nd_task_count := nd_task_count n, nd_status := Some NS_UP\<rparr>"

definition handle_heartbeat :: "cenv \<Rightarrow> node \<Rightarrow> unit act" where
  "handle_heartbeat env n =
     and_then (if nd_last_heartbeat_at n = None
       then and_then (now_utc env) (\<lambda>now. ret (n\<lparr>nd_status := Some NS_UP, nd_last_heartbeat_at := Some now\<rparr>))
       else ret (n\<lparr>nd_status := Some NS_UP\<rparr>)) (\<lambda>new_node.
       case nd_id new_node of
         Some node_id \<Rightarrow> on_error (ds_call (update_node (ce_ids env) node_id (\<lambda>u. Inr (beat new_node u)))) (\<lambda>e.
           if str_contains (ds_error_display e) ''not found'' then ds_do (create_node new_node)
           else throw (E_Datastore e))
       | None \<Rightarrow> ds_do (create_node new_node))"

end
