(* ===== verification/Coordinator.thy ===== *)
theory Coordinator
  imports Job_Handlers
begin

text \<open>
  The coordinator (\<open>engine/coordinator/mod.rs\<close>, \<open>schedule.rs\<close>): its subscriptions, job submission,
  scheduled jobs, and the delivery of started invocations to the handlers in any order.
  An invocation runs to its end before the next one; an error of a handler is only logged.
\<close>

section \<open>Scheduled jobs\<close>

datatype schedule_error =
    SE_SchedulerCreate string | SE_SchedulerStart string | SE_MissingCronExpression string
  | SE_CronJobCreate string | SE_CronJobAdd string | SE_UnknownScheduledJob string
  | SE_CronJobRemove string | SE_JobInstanceCreate string | SE_JobInstancePublish string

fun schedule_error_display :: "schedule_error \<Rightarrow> string" where
  "schedule_error_display (SE_SchedulerCreate e) = ''error creating scheduler: '' @ e"
| "schedule_error_display (SE_SchedulerStart e) = ''error starting scheduler: '' @ e"
| "schedule_error_display (SE_MissingCronExpression i) = ''scheduled job '' @ i @ '' has no cron expression''"
| "schedule_error_display (SE_CronJobCreate e) = ''error creating cron job: '' @ e"
| "schedule_error_display (SE_CronJobAdd e) = ''error adding cron job: '' @ e"
| "schedule_error_display (SE_UnknownScheduledJob i) = ''unknown scheduled job: '' @ i"
| "schedule_error_display (SE_CronJobRemove e) = ''error removing cron job: '' @ e"
| "schedule_error_display (SE_JobInstanceCreate e) = ''error creating scheduled job instance: '' @ e"
| "schedule_error_display (SE_JobInstancePublish e) = ''error publishing scheduled job instance: '' @ e"

definition schedule_err :: "schedule_error \<Rightarrow> engine_error" where
  "schedule_err e = E_Msg (schedule_error_display e)"

definition sj_id_str :: "scheduled_job \<Rightarrow> string" where
  "sj_id_str sj = (case sc_id sj of Some i \<Rightarrow> i | None \<Rightarrow> ''unknown'')"

definition handle_active :: "cenv \<Rightarrow> scheduled_job \<Rightarrow> unit act" where
  "handle_active env sj =
     (let sid = sj_id_str sj
      in and_then (lift_res (ok_or (sc_cron sj) (schedule_err (SE_MissingCronExpression sid)))) (\<lambda>cron_expr.
         and_then (case ce_cron_job env cron_expr of
             Some e \<Rightarrow> throw (schedule_err (SE_CronJobCreate e))
           | None \<Rightarrow> ret ()) (\<lambda>_.
         and_then (asks (\<lambda>w. ce_cron_add env (length (w_cron_calls w)))) (\<lambda>added.
         and_then (lift_res (map_err (\<lambda>e. schedule_err (SE_CronJobAdd e)) added)) (\<lambda>job_id.
         and_then (modifies (w_cron_calls_update (\<lambda>cs. cs @ [CronAdd job_id cron_expr sid]))) (\<lambda>_.
           modifies (w_cron_jobs_update (AList.update sid job_id))))))))"

definition handle_paused :: "cenv \<Rightarrow> scheduled_job \<Rightarrow> unit act" where
  "handle_paused env sj =
     (let sid = sj_id_str sj
      in and_then (asks (\<lambda>w. map_of (w_cron_jobs w) sid)) (\<lambda>removed.
         and_then (modifies (w_cron_jobs_update (AList.delete sid))) (\<lambda>_.
         and_then (lift_res (ok_or removed (schedule_err (SE_UnknownScheduledJob sid)))) (\<lambda>job_id.
           case ce_cron_remove env job_id of
             Some e \<Rightarrow> throw (schedule_err (SE_CronJobRemove e))
           | None \<Rightarrow> modifies (w_cron_calls_update (\<lambda>cs. cs @ [CronRemove job_id]))))))"

definition handle_scheduled_job :: "cenv \<Rightarrow> scheduled_job \<Rightarrow> unit act" where
  "handle_scheduled_job env sj =
     (case sc_state sj of SJ_Active \<Rightarrow> handle_active env sj | SJ_Paused \<Rightarrow> handle_paused env sj)"

text \<open>\<open>JobSchedulerHandler::new\<close> schedules the active ones it finds.\<close>

definition new_job_scheduler :: "cenv \<Rightarrow> unit act" where
  "new_job_scheduler env = and_then (ds_do get_active_scheduled_jobs) (for_each (handle_active env))"

definition job_context_of_scheduled :: "scheduled_job \<Rightarrow> job_context" where
  "job_context_of_scheduled sj =
     \<lparr>jc_job = None, jc_inputs = sc_inputs sj, jc_secrets = sc_secrets sj, jc_tasks = None\<rparr>"

definition instance_of :: "scheduled_job \<Rightarrow> string \<Rightarrow> time \<Rightarrow> job" where
  "instance_of sj job_id now = default_job\<lparr>jb_id := Some job_id, jb_created_by := sc_created_by sj,
     jb_created_at := Some now, jb_permissions := sc_permissions sj, jb_tags := sc_tags sj,
     jb_name := sc_name sj, jb_description := sc_description sj, jb_state := JS_Pending,
     jb_tasks := sc_tasks sj, jb_inputs := sc_inputs sj, jb_secrets := sc_secrets sj,
     jb_context := Some (job_context_of_scheduled sj),
     jb_task_count := (case sc_tasks sj of None \<Rightarrow> 0 | Some ts \<Rightarrow> int (length ts)),
     jb_output := sc_output sj, jb_webhooks := sc_webhooks sj, jb_auto_delete := sc_auto_delete sj,
     jb_schedule := Some \<lparr>jsc_id = sc_id sj, jsc_cron = sc_cron sj\<rparr>\<rparr>"

text \<open>The lock is dropped on every path that has acquired it; its watcher runs later.\<close>

definition with_lock :: "string \<Rightarrow> 'a act \<Rightarrow> 'a act" where
  "with_lock key m w =
     (case acquire_lock key (w_locker w) of
        (Inl e, l) \<Rightarrow> (Inl (E_Msg (lock_error_display e)), w\<lparr>w_locker := l\<rparr>)
      | (Inr _, l) \<Rightarrow> (case m (w\<lparr>w_locker := l\<rparr>) of (r, w') \<Rightarrow> (r, w_locker_update (drop_lock key) w')))"

definition trigger_scheduled_job :: "cenv \<Rightarrow> string \<Rightarrow> unit act" where
  "trigger_scheduled_job env sid =
     and_then (ds_do (get_scheduled_job_by_id sid)) (\<lambda>sj.
     with_lock (''scheduled_job:'' @ sid) (
       and_then (now_utc env) (\<lambda>now.
       and_then (asks (\<lambda>w. ce_uuid_text env (ce_uuid env (w_uuids w)))) (\<lambda>u.
       and_then (modifies (w_uuids_update Suc)) (\<lambda>_.
       and_then (lift_res (map_err E_Id (job_id_new (ie_uuid (ce_ids env)) u))) (\<lambda>job_id.
         let j = instance_of sj job_id now
         in and_then (eff_map_err (\<lambda>e. schedule_err (SE_JobInstanceCreate (ds_error_display e))) (ds_call (create_job j))) (\<lambda>_.
            eff_map_err (\<lambda>e. schedule_err (SE_JobInstancePublish (engine_error_display e))) (broker_publish_job env j))))))))"

section \<open>Subscriptions and submission\<close>

definition subscribe_task_handler :: "string \<Rightarrow> hname \<Rightarrow> unit act" where
  "subscribe_task_handler q h = modifies (w_bk_update (subscribe_for_tasks q h))"

definition coordinator_start :: "unit act" where
  "coordinator_start =
     and_then (subscribe_task_handler QUEUE_PENDING H_Pending) (\<lambda>_.
     and_then (subscribe_task_handler QUEUE_COMPLETED H_Completed) (\<lambda>_.
     and_then (subscribe_task_handler QUEUE_FAILED H_Error) (\<lambda>_.
     and_then (subscribe_task_handler QUEUE_STARTED H_Started) (\<lambda>_.
     and_then (subscribe_task_handler QUEUE_REDELIVERIES H_Redelivered) (\<lambda>_.
     and_then (modifies (w_bk_update (subscribe_for_task_progress H_Progress))) (\<lambda>_.
     and_then (modifies (w_bk_update (subscribe_for_jobs H_Job))) (\<lambda>_.
     and_then (modifies (w_bk_update (subscribe_for_heartbeats H_Heartbeat))) (\<lambda>_.
     and_then (modifies (w_bk_update (subscribe_for_task_log_part H_LogPart))) (\<lambda>_.
       modifies (w_bk_update (subscribe_for_events ''scheduled.job'' H_ScheduledJob)))))))))))"

definition coordinator_stop :: "unit act" where
  "coordinator_stop = modifies (w_stopped_update (\<lambda>_. True))"

datatype coordinator_error = CO_JobCreate string | CO_JobPublish string

fun coordinator_error_display :: "coordinator_error \<Rightarrow> string" where
  "coordinator_error_display (CO_JobCreate e) = ''failed to create job: '' @ e"
| "coordinator_error_display (CO_JobPublish e) = ''failed to publish job: '' @ e"

definition submit_job :: "cenv \<Rightarrow> job \<Rightarrow> job act" where
  "submit_job env j =
     and_then (case jb_id j of
         Some i \<Rightarrow> ret i
       | None \<Rightarrow> and_then (new_short_uuid env) (\<lambda>u.
           lift_res (map_err E_Id (job_id_new (ie_uuid (ce_ids env)) u)))) (\<lambda>job_id.
     and_then (case jb_created_at j of
         None \<Rightarrow> and_then (now_utc env) (\<lambda>now. ret (Some now))
       | Some c \<Rightarrow> ret (Some c)) (\<lambda>created_at.
       let j = j\<lparr>jb_id := Some job_id,
             jb_task_count := (case jb_tasks j of
               Some ts \<Rightarrow> (if int (length ts) \<le> i64_max then int (length ts) else i64_max)
             | None \<Rightarrow> jb_task_count j),
             jb_created_at := created_at\<rparr>
       in and_then (eff_map_err (\<lambda>e. E_Msg (coordinator_error_display (CO_JobCreate (ds_error_display e)))) (ds_call (create_job j))) (\<lambda>_.
          and_then (eff_map_err (\<lambda>e. E_Msg (coordinator_error_display (CO_JobPublish (engine_error_display e)))) (broker_publish_job env j)) (\<lambda>_.
            ret j))))"

section \<open>Delivery\<close>

text \<open>\<open>scheduled_of\<close> is the derived deserializer of scheduled jobs.\<close>

definition run_handler :: "cenv \<Rightarrow> (json \<Rightarrow> string + scheduled_job) \<Rightarrow> hname \<Rightarrow> message \<Rightarrow> unit act" where
  "run_handler env scheduled_of h msg w =
     (if w_stopped w then ret () w
      else (case (h, msg) of
          (H_Pending, M_Task t) \<Rightarrow> handle_pending_task env t
        | (H_Completed, M_Task t) \<Rightarrow> handle_task_completed env t
        | (H_Error, M_Task t) \<Rightarrow> handle_error env t
        | (H_Started, M_Task t) \<Rightarrow> handle_started env t
        | (H_Redelivered, M_Task t) \<Rightarrow> handle_redelivered env t
        | (H_Progress, M_Task t) \<Rightarrow> handle_task_progress env t
        | (H_Job, M_Job j) \<Rightarrow> handle_job_event env j
        | (H_Heartbeat, M_Node n) \<Rightarrow> handle_heartbeat env n
        | (H_LogPart, M_LogPart p) \<Rightarrow> handle_log_part p
        | (H_ScheduledJob, M_Event v) \<Rightarrow>
            and_then (lift_res (map_err E_Msg (scheduled_of v))) (handle_scheduled_job env)
        | _ \<Rightarrow> ret ()) w)"

text \<open>
  The system: any invocation started so far may run (each may also run again, which covers a broker
  that redelivers), workers may publish what they report, jobs are submitted, scheduled jobs
  trigger, and the watchers of dropped locks run.
\<close>

inductive coord_step :: "cenv \<Rightarrow> (json \<Rightarrow> string + scheduled_job) \<Rightarrow> world \<Rightarrow> world \<Rightarrow> bool"
  for env scheduled_of where
  deliver: "(h, msg) \<in> set (bk_spawned (w_bk w)) \<Longrightarrow>
    coord_step env scheduled_of w (snd (run_handler env scheduled_of h msg w))"
| report: "coord_step env scheduled_of w (snd (broker_publish_task env q t w))"
| progress: "coord_step env scheduled_of w (w\<lparr>w_bk := publish_task_progress t (w_bk w)\<rparr>)"
| heartbeat: "coord_step env scheduled_of w (w\<lparr>w_bk := publish_heartbeat n (w_bk w)\<rparr>)"
| log_part: "coord_step env scheduled_of w (w\<lparr>w_bk := publish_task_log_part p (w_bk w)\<rparr>)"
| job_event: "coord_step env scheduled_of w (snd (broker_publish_job env j w))"
| event: "coord_step env scheduled_of w (snd (broker_publish_event env topic v w))"
| submit: "coord_step env scheduled_of w (snd (submit_job env j w))"
| trigger: "coord_step env scheduled_of w (snd (trigger_scheduled_job env sid w))"
| watcher: "k \<in> set (lk_watchers (w_locker w)) \<Longrightarrow> coord_step env scheduled_of w (w_locker_update (run_watcher k) w)"
| stop: "coord_step env scheduled_of w (snd (coordinator_stop w))"

definition new_world :: world where
  "new_world = \<lparr>w_ds = new_datastore, w_bk = new_broker, w_clock = 0, w_uuids = 0, w_pubs = 0, w_hooks = [],
     w_stopped = False, w_locker = new_locker, w_cron_jobs = [], w_cron_calls = []\<rparr>"

inductive coord_reach :: "cenv \<Rightarrow> (json \<Rightarrow> string + scheduled_job) \<Rightarrow> world \<Rightarrow> bool"
  for env scheduled_of where
  start: "coord_reach env scheduled_of (snd (coordinator_start new_world))"
| step: "coord_reach env scheduled_of w \<Longrightarrow> coord_step env scheduled_of w w' \<Longrightarrow> coord_reach env scheduled_of w'"

end
