(* ===== verification/Handler_Props.thy ===== *)
theory Handler_Props
  imports Coordinator
begin

text \<open>
  What the handlers do, on every path that matters: failures climb to the job, completions are
  counted, jobs advance through their tasks, failed publications are rolled back, cancelled jobs
  keep no active task, retries stay within their limit.
\<close>

section \<open>Running the primitives\<close>

named_theorems run_simps

lemma ds_call_run: "ds_call m w = (case m (w_ds w) of (r, s) \<Rightarrow> (r, w\<lparr>w_ds := s\<rparr>))"
  by (simp add: ds_call_def zoom_def split: prod.splits)

lemma ds_do_run: "ds_do m w = (case m (w_ds w) of (r, s) \<Rightarrow> (map_err E_Datastore r, w\<lparr>w_ds := s\<rparr>))"
  by (simp add: ds_do_def eff_map_err_def ds_call_run split: prod.splits)

lemma get_task_run: "get_task_by_id i s = (ok_or (look_task s i) TaskNotFound, s)"
  by (simp add: get_task_by_id_def eff_simps)

lemma get_job_run: "get_job_by_id i s = (ok_or (look_job s i) JobNotFound, s)"
  by (simp add: get_job_by_id_def eff_simps)

definition valid_id :: "cenv \<Rightarrow> string \<Rightarrow> bool" where
  "valid_id env i \<longleftrightarrow> id_new (ie_alphanumeric (ce_ids env)) i = Inr i"

definition valid_job_id :: "cenv \<Rightarrow> string \<Rightarrow> bool" where
  "valid_job_id env i \<longleftrightarrow> job_id_new (ie_uuid (ce_ids env)) i = Inr i"

lemma update_task_ok:
  "look_task s i = Some u \<Longrightarrow> valid_id env i \<Longrightarrow>
    update_task (ce_ids env) i (\<lambda>u. Inr (g u)) s = (Inr (), put_task i (g u) s)"
  by (simp add: update_task_def task_store.update_result check_id_def valid_id_def)

lemma update_job_ok:
  "look_job s i = Some u \<Longrightarrow> valid_job_id env i \<Longrightarrow>
    update_job (ce_ids env) i (\<lambda>u. Inr (g u)) s = (Inr (), put_job i (g u) s)"
  by (simp add: update_job_def job_store.update_result check_id_def valid_job_id_def)

lemma look_job_put_task [simp]: "look_job (put_task i t s) = look_job s"
  by (simp add: look_job_def put_task_def fun_eq_iff)

lemma look_task_put_job [simp]: "look_task (put_job i t s) = look_task s"
  by (simp add: look_task_def put_job_def fun_eq_iff)

lemma look_job_put_job [simp]: "look_job (put_job i t s) i' = (if i' = i then Some t else look_job s i')"
  by (rule job_store.look_ins)

lemma broker_ok:
  "ce_publish_fails env (w_pubs w) = None \<Longrightarrow>
    broker_do env f w = (Inr (), w\<lparr>w_pubs := Suc (w_pubs w), w_bk := f (w_bk w)\<rparr>)"
  by (simp add: broker_do_def Let_def)

lemma now_run: "now_utc env w = (Inr (ce_now env (w_clock w)), w\<lparr>w_clock := Suc (w_clock w)\<rparr>)"
  by (simp add: now_utc_def)

lemma task_id_of_run: "task_id_of t e w = (ok_or (tk_id t) (E_Handler e), w)"
  by (simp add: task_id_of_def lift_res_def)

lemma ok_or_sel [simp]: "ok_or (Some x) e = Inr x" "ok_or None e = Inl e"
  by (simp_all add: ok_or_def)

lemma map_err_sel [simp]: "map_err h (Inr x) = Inr x" "map_err h (Inl e) = Inl (h e)"
  by (simp_all add: map_err_def)

lemma ds_gets:
  "ds_do (get_task_by_id i) w = (map_err E_Datastore (ok_or (look_task (w_ds w) i) TaskNotFound), w)"
  "ds_do (get_job_by_id i) w = (map_err E_Datastore (ok_or (look_job (w_ds w) i) JobNotFound), w)"
  "ds_call (get_task_by_id i) w = (ok_or (look_task (w_ds w) i) TaskNotFound, w)"
  "ds_call (get_job_by_id i) w = (ok_or (look_job (w_ds w) i) JobNotFound, w)"
  "ds_call (asks f) w = (Inr (f (w_ds w)), w)"
  by (simp_all add: ds_call_run ds_do_run get_task_run get_job_run asks_def)

lemma ds_updates:
  "look_task (w_ds w) i = Some u \<Longrightarrow> valid_id env i \<Longrightarrow>
    ds_do (update_task (ce_ids env) i (\<lambda>u. Inr (g u))) w = (Inr (), w\<lparr>w_ds := put_task i (g u) (w_ds w)\<rparr>)"
  "look_task (w_ds w) i = Some u \<Longrightarrow> valid_id env i \<Longrightarrow>
    ds_call (update_task (ce_ids env) i (\<lambda>u. Inr (g u))) w = (Inr (), w\<lparr>w_ds := put_task i (g u) (w_ds w)\<rparr>)"
  "look_job (w_ds w) j = Some v \<Longrightarrow> valid_job_id env j \<Longrightarrow>
    ds_do (update_job (ce_ids env) j (\<lambda>v. Inr (h v))) w = (Inr (), w\<lparr>w_ds := put_job j (h v) (w_ds w)\<rparr>)"
  "look_job (w_ds w) j = Some v \<Longrightarrow> valid_job_id env j \<Longrightarrow>
    ds_call (update_job (ce_ids env) j (\<lambda>v. Inr (h v))) w = (Inr (), w\<lparr>w_ds := put_job j (h v) (w_ds w)\<rparr>)"
  by (simp_all add: ds_call_run ds_do_run update_task_ok update_job_ok)

lemmas [run_simps] = ds_gets ds_updates now_run task_id_of_run
  broker_publish_task_def broker_publish_job_def broker_publish_tasks_def broker_ok
  and_then_def ret_def throw_def lift_res_def asks_def modifies_def

text \<open>Webhooks only add to the list of those fired.\<close>

lemma webhooks_frame: "\<exists>hs. snd (fire_task_webhooks t ev w) = w\<lparr>w_hooks := hs\<rparr>"
proof -
  have upd: "\<exists>hs. w_hooks_update f w = w\<lparr>w_hooks := hs\<rparr>" for f
    by (rule exI [of _ "f (w_hooks w)"]) simp
  have "w = w\<lparr>w_hooks := w_hooks w\<rparr>" by simp
  then have same: "\<exists>hs. w = w\<lparr>w_hooks := hs\<rparr>" by (rule exI)
  show ?thesis
    by (cases "tk_job_id t")
       (auto simp: fire_task_webhooks_def run_simps Let_def same upd split: option.split sum.split)
qed

section \<open>Failures climb to the job\<close>

text \<open>
  The chain of parents above a task: stored parallel or each tasks, up to one without a parent,
  which belongs to job \<open>j\<close>.
\<close>

definition is_fanout :: "task \<Rightarrow> bool" where
  "is_fanout u \<longleftrightarrow> parallel u \<noteq> None \<or> each u \<noteq> None"

inductive ancestors :: "datastore \<Rightarrow> task \<Rightarrow> string list \<Rightarrow> string \<Rightarrow> bool" for s where
  top: "tk_parent_id t = None \<Longrightarrow> tk_job_id t = Some j \<Longrightarrow> ancestors s t [] j"
| up: "tk_parent_id t = Some p \<Longrightarrow> look_task s p = Some u \<Longrightarrow> tk_id u = Some p \<Longrightarrow> is_fanout u
    \<Longrightarrow> ancestors s u ids j \<Longrightarrow> ancestors s t (p # ids) j"

inductive_cases ancestors_NilE: "ancestors s t [] j"
inductive_cases ancestors_ConsE: "ancestors s t (p # ids) j"

lemma ancestors_det: "ancestors s t ids j \<Longrightarrow> ancestors s t ids' j' \<Longrightarrow> ids' = ids"
proof (induction arbitrary: ids' rule: ancestors.induct)
  case (top t j)
  from top(3) show ?case by cases (use top in auto)
next
  case (up t p u ids j)
  from up(7) show ?case by cases (use up in auto)
qed

lemma ancestors_stored:
  "ancestors s t ids j \<Longrightarrow> i \<in> set ids \<Longrightarrow>
    \<exists>u ids'. look_task s i = Some u \<and> ancestors s u ids' j \<and> length ids' < length ids"
proof (induction rule: ancestors.induct)
  case (up t p u ids j)
  then show ?case by (cases "i = p") force+
qed simp

lemma ancestors_distinct: "ancestors s t ids j \<Longrightarrow> distinct ids"
proof (induction rule: ancestors.induct)
  case (up t p u ids j)
  have "p \<notin> set ids"
  proof
    assume "p \<in> set ids"
    then obtain ids' where "ancestors s u ids' j" "length ids' < length ids"
      using ancestors_stored [OF up(5)] up(2) by fastforce
    then show False using ancestors_det [OF up(5)] by blast
  qed
  then show ?case using up by simp
qed simp

lemma ancestors_length:
  assumes "ancestors s t ids j" shows "length ids \<le> length (ds_tasks s)"
proof -
  have "set ids \<subseteq> fst ` set (ds_tasks s)"
    using ancestors_stored [OF assms] unfolding look_task_def by (force dest: map_of_SomeD)
  then have "card (set ids) \<le> card (fst ` set (ds_tasks s))" by (simp add: card_mono)
  also have "\<dots> \<le> length (ds_tasks s)" using card_image_le [of "set (ds_tasks s)" fst] card_length [of "ds_tasks s"] by simp
  finally show ?thesis using ancestors_distinct [OF assms] by (simp add: distinct_card)
qed

lemma ancestors_keys:
  "ancestors s t ids j \<Longrightarrow> tk_parent_id t' = tk_parent_id t \<Longrightarrow> tk_job_id t' = tk_job_id t \<Longrightarrow> ancestors s t' ids j"
  by (erule ancestors.cases) (auto intro: ancestors.intros)

lemma ancestors_put:
  assumes "ancestors s t ids j" and "look_task s i = Some u" and "tk_id u' = tk_id u"
    and "tk_parent_id u' = tk_parent_id u" and "tk_job_id u' = tk_job_id u"
    and "parallel u' = parallel u" and "each u' = each u"
  shows "ancestors (put_task i u' s) t ids j"
  using assms(1)
proof (induction rule: ancestors.induct)
  case (up t p v ids j)
  show ?case
  proof (cases "p = i")
    case True
    then have "v = u" using up(2) assms(2) by simp
    then show ?thesis
      using up assms True ancestors_keys [of "put_task i u' s" u ids j u']
      by (intro ancestors.up [of _ _ _ u']) (simp_all add: is_fanout_def)
  next
    case False
    then show ?thesis using up by (intro ancestors.up [of _ _ _ v]) simp_all
  qed
qed (rule ancestors.top)


definition fail_mark :: "time option \<Rightarrow> string option \<Rightarrow> int option \<Rightarrow> task \<Rightarrow> task" where
  "fail_mark failed_at err code = upd_hdr (\<lambda>h. h\<lparr>th_state := TS_Failed, th_failed_at := failed_at,
     th_error := err, th_exit_code := code\<rparr>)"

lemma persist_failed_run:
  "tk_id t = Some i \<Longrightarrow> look_task (w_ds w) i = Some u \<Longrightarrow> valid_id env i \<Longrightarrow>
    persist_failed_task env t w = (Inr (), w\<lparr>w_ds := put_task i
      (fail_mark (th_failed_at (hdr t)) (th_error (hdr t)) (th_exit_code (hdr t)) u) (w_ds w)\<rparr>)"
  by (simp add: persist_failed_task_def run_simps fail_mark_def)

lemma fail_mark_sel [simp]:
  "tk_id (fail_mark f e c u) = tk_id u" "tk_parent_id (fail_mark f e c u) = tk_parent_id u"
  "tk_job_id (fail_mark f e c u) = tk_job_id u" "parallel (fail_mark f e c u) = parallel u"
  "each (fail_mark f e c u) = each u" "tk_state (fail_mark f e c u) = TS_Failed"
  "th_error (hdr (fail_mark f e c u)) = e"
  by (simp_all add: fail_mark_def)

lemma as_failed_sel [simp]:
  "tk_id (as_failed n e u) = tk_id u" "tk_parent_id (as_failed n e u) = tk_parent_id u"
  "tk_job_id (as_failed n e u) = tk_job_id u" "th_error (hdr (as_failed n e u)) = e"
  by (simp_all add: as_failed_def)

text \<open>One level: the task is stored as failed and the webhooks fire, then the parent is next.\<close>

lemma fail_up_level:
  assumes "tk_id t = Some i" and "look_task (w_ds w) i = Some u" and "valid_id env i"
  shows "\<exists>hs. fail_up (Suc n) env t w = route_failed_task (fail_up n env) env t
    (w\<lparr>w_ds := put_task i (fail_mark (th_failed_at (hdr t)) (th_error (hdr t)) (th_exit_code (hdr t)) u)
      (w_ds w), w_hooks := hs\<rparr>)"
proof -
  let ?w = "w\<lparr>w_ds := put_task i (fail_mark (th_failed_at (hdr t)) (th_error (hdr t))
    (th_exit_code (hdr t)) u) (w_ds w)\<rparr>"
  obtain hs where "snd (fire_task_webhooks t ''task.Failed'' ?w) = ?w\<lparr>w_hooks := hs\<rparr>"
    using webhooks_frame by blast
  then have "fail_up (Suc n) env t w = route_failed_task (fail_up n env) env t (?w\<lparr>w_hooks := hs\<rparr>)"
    using persist_failed_run [OF assms] by (simp add: and_then_def ignore_def)
  then show ?thesis by blast
qed

definition failed_in :: "datastore \<Rightarrow> string option \<Rightarrow> string \<Rightarrow> bool" where
  "failed_in s err i \<longleftrightarrow> (\<exists>u. look_task s i = Some u \<and> tk_state u = TS_Failed \<and> th_error (hdr u) = err)"

definition as_failed_job :: "time \<Rightarrow> string option \<Rightarrow> job \<Rightarrow> job" where
  "as_failed_job now err j = j\<lparr>jb_state := JS_Failed, jb_failed_at := Some now, jb_error := err\<rparr>"

lemma fail_up_run:
  assumes "ancestors (w_ds w) t ids j" and "tk_id t = Some i" and "look_task (w_ds w) i = Some u"
    and "\<forall>k \<in> set (i # ids). valid_id env k" and "look_job (w_ds w) j = Some jb"
    and "\<And>n. ce_publish_fails env n = None" and "length ids < n"
  shows "\<exists>w' now. fail_up n env t w = (Inr (), w') \<and>
    (\<forall>k \<in> set (i # ids). failed_in (w_ds w') (th_error (hdr t)) k) \<and>
    (\<forall>k. k \<notin> set (i # ids) \<longrightarrow> look_task (w_ds w') k = look_task (w_ds w) k) \<and>
    w_bk w' = publish_job (as_failed_job now (th_error (hdr t)) jb) (w_bk w)"
  using assms
proof (induction ids arbitrary: t i u n w)
  case Nil
  from Nil(7) obtain m where n: "n = Suc m" by (cases n) auto
  obtain hs where hs: "fail_up n env t w = route_failed_task (fail_up m env) env t
    (w\<lparr>w_ds := put_task i (fail_mark (th_failed_at (hdr t)) (th_error (hdr t)) (th_exit_code (hdr t)) u)
      (w_ds w), w_hooks := hs\<rparr>)"
    using fail_up_level [OF Nil(2,3)] Nil(4) n by force
  let ?w = "w\<lparr>w_ds := put_task i (fail_mark (th_failed_at (hdr t)) (th_error (hdr t))
    (th_exit_code (hdr t)) u) (w_ds w), w_hooks := hs\<rparr>"
  have "route_failed_task (fail_up m env) env t ?w = (Inr (), ?w\<lparr>w_clock := Suc (w_clock ?w),
      w_pubs := Suc (w_pubs ?w), w_bk := publish_job (as_failed_job (ce_now env (w_clock ?w)) (th_error (hdr t)) jb) (w_bk ?w)\<rparr>)"
    using Nil(1,5,6) by (auto elim!: ancestors_NilE
      simp: route_failed_task_def handle_top_level_task_failed_def run_simps as_failed_job_def)
  with hs show ?case by (auto simp: failed_in_def)
next
  case (Cons p ids)
  from Cons.prems(7) obtain m where n: "n = Suc m" "length ids < m" by (cases n) auto
  from Cons.prems(1) obtain v where v: "tk_parent_id t = Some p" "look_task (w_ds w) p = Some v"
    "tk_id v = Some p" "is_fanout v" "ancestors (w_ds w) v ids j" by (auto elim: ancestors_ConsE)
  let ?u = "fail_mark (th_failed_at (hdr t)) (th_error (hdr t)) (th_exit_code (hdr t)) u"
  obtain hs where hs: "fail_up n env t w = route_failed_task (fail_up m env) env t
    (w\<lparr>w_ds := put_task i ?u (w_ds w), w_hooks := hs\<rparr>)"
    using fail_up_level [OF Cons.prems(2,3)] Cons.prems(4) n by force
  let ?w = "w\<lparr>w_ds := put_task i ?u (w_ds w), w_hooks := hs\<rparr>"
  have pv: "\<exists>v'. look_task (w_ds ?w) p = Some v' \<and> tk_id v' = Some p \<and> is_fanout v' \<and>
      tk_parent_id v' = tk_parent_id v \<and> tk_job_id v' = tk_job_id v"
    using v(2-4) Cons.prems(3) by (cases "p = i") (auto simp: is_fanout_def)
  then obtain v' where v': "look_task (w_ds ?w) p = Some v'" "tk_id v' = Some p" "is_fanout v'"
      "tk_parent_id v' = tk_parent_id v" "tk_job_id v' = tk_job_id v" by blast
  let ?now = "ce_now env (w_clock w)"
  let ?t = "as_failed ?now (th_error (hdr t)) v'"
  let ?w1 = "?w\<lparr>w_clock := Suc (w_clock w)\<rparr>"
  have step: "fail_up n env t w = fail_up m env ?t ?w1"
    using hs v(1) v' by (simp add: route_failed_task_def handle_subtask_failed_def run_simps is_fanout_def)
  have anc: "ancestors (w_ds ?w1) ?t ids j"
    using ancestors_keys [OF ancestors_put [OF v(5) Cons.prems(3), of ?u], of ?t] v'(4,5) by simp
  have "\<exists>w' now. fail_up m env ?t ?w1 = (Inr (), w') \<and>
    (\<forall>k \<in> set (p # ids). failed_in (w_ds w') (th_error (hdr ?t)) k) \<and>
    (\<forall>k. k \<notin> set (p # ids) \<longrightarrow> look_task (w_ds w') k = look_task (w_ds ?w1) k) \<and>
    w_bk w' = publish_job (as_failed_job now (th_error (hdr ?t)) jb) (w_bk ?w1)"
    by (rule Cons.IH [OF anc _ _ _ _ Cons.prems(6) n(2)]) (use v' Cons.prems(4,5) in simp_all)
  then obtain w' now where w': "fail_up m env ?t ?w1 = (Inr (), w')"
    "\<forall>k \<in> set (p # ids). failed_in (w_ds w') (th_error (hdr t)) k"
    "\<forall>k. k \<notin> set (p # ids) \<longrightarrow> look_task (w_ds w') k = look_task (w_ds ?w1) k"
    "w_bk w' = publish_job (as_failed_job now (th_error (hdr t)) jb) (w_bk w)" by auto
  have "failed_in (w_ds w') (th_error (hdr t)) i"
    using w'(2,3) by (cases "i \<in> set (p # ids)") (auto simp: failed_in_def)
  then show ?case using step w' by (intro exI [of _ w'] exI [of _ now]) auto
qed

text \<open>C11. When a task fails, \<open>handle_task_failed\<close> returns: it and all parallel and each tasks above
  it are stored as failed with its error, no other task changes, and the job is published once,
  as failed with that error. The fuel of the model always suffices.\<close>

theorem failure_climbs:
  "ancestors (w_ds w) t ids j \<Longrightarrow> tk_id t = Some i \<Longrightarrow> look_task (w_ds w) i = Some u \<Longrightarrow>
    \<forall>k \<in> set (i # ids). valid_id env k \<Longrightarrow> look_job (w_ds w) j = Some jb \<Longrightarrow>
    \<forall>n. ce_publish_fails env n = None \<Longrightarrow>
    \<exists>w' now. handle_task_failed env t w = (Inr (), w') \<and>
      (\<forall>k \<in> set (i # ids). failed_in (w_ds w') (th_error (hdr t)) k) \<and>
      (\<forall>k. k \<notin> set (i # ids) \<longrightarrow> look_task (w_ds w') k = look_task (w_ds w) k) \<and>
      w_bk w' = publish_job (as_failed_job now (th_error (hdr t)) jb) (w_bk w)"
  unfolding handle_task_failed_def
  by (rule fail_up_run) (auto simp: less_Suc_eq_le ancestors_length)


text \<open>A small system: a child of a parallel task with two subtasks, in a running job.\<close>

definition demo_env :: cenv where
  "demo_env = \<lparr>ce_ids = \<lparr>ie_alphanumeric = \<lambda>_. False, ie_uuid = \<lambda>_. False\<rparr>,
     ce_uuid = \<lambda>n. [word_of_nat n], ce_now = int, ce_publish_fails = \<lambda>_. None,
     ce_template = \<lambda>_ s. Inr s, ce_expr = \<lambda>_ _. Inr JNull, ce_from_str = \<lambda>_. None,
     ce_job_value = \<lambda>_. JNull, ce_job_of = \<lambda>_. None, ce_par_bridge = id, ce_uuid_text = \<lambda>_. [],
     ce_cron_job = \<lambda>_. None, ce_cron_add = \<lambda>_. Inl [], ce_cron_remove = \<lambda>_. None\<rparr>"

definition demo_job_id :: string where "demo_job_id = replicate 22 (CHR ''2'')"

definition demo_child :: task where
  "demo_child = Task (default_hdr\<lparr>th_id := Some ''child'', th_job_id := Some demo_job_id,
     th_parent_id := Some ''parent'', th_state := TS_Running, th_error := Some ''boom''\<rparr>)
     None None None None None None"

definition demo_parent :: task where
  "demo_parent = Task (default_hdr\<lparr>th_id := Some ''parent'', th_job_id := Some demo_job_id,
     th_state := TS_Running\<rparr>) None None None (Some (ParallelTask (Some [demo_child, demo_child]) 0)) None None"

definition demo_job :: job where
  "demo_job = default_job\<lparr>jb_id := Some demo_job_id, jb_state := JS_Running, jb_position := 1,
     jb_tasks := Some [demo_parent]\<rparr>"

definition demo_world :: world where
  "demo_world = new_world\<lparr>w_ds := new_datastore\<lparr>ds_tasks := [(''child'', demo_child), (''parent'', demo_parent)],
     ds_tasks_by_job := [(demo_job_id, [''parent'', ''child''])], ds_tasks_by_parent := [(''parent'', [''child''])],
     ds_jobs := [(demo_job_id, demo_job)]\<rparr>\<rparr>"

lemma demo_sel [simp]:
  "look_task (w_ds demo_world) ''child'' = Some demo_child"
  "look_task (w_ds demo_world) ''parent'' = Some demo_parent"
  "look_job (w_ds demo_world) demo_job_id = Some demo_job"
  "tk_id demo_child = Some ''child''" "tk_parent_id demo_child = Some ''parent''"
  "tk_job_id demo_child = Some demo_job_id" "th_error (hdr demo_child) = Some ''boom''"
  "tk_id demo_parent = Some ''parent''" "tk_parent_id demo_parent = None"
  "tk_job_id demo_parent = Some demo_job_id" "each demo_parent = None"
  "parallel demo_parent = Some (ParallelTask (Some [demo_child, demo_child]) 0)"
  "ce_publish_fails demo_env n = None"
  by (simp_all add: demo_world_def new_world_def demo_child_def demo_parent_def look_task_def look_job_def
      demo_env_def default_hdr_def)

lemma demo_inv: "ds_inv (w_ds demo_world)"
  by (simp add: demo_world_def new_world_def ds_inv_def index_ok_def look_task_def demo_child_def demo_parent_def
      default_hdr_def)

lemma demo_ids [simp]:
  "valid_id demo_env ''child''" "valid_id demo_env ''parent''" "valid_job_id demo_env demo_job_id"
  by code_simp+

lemma demo_ancestors: "ancestors (w_ds demo_world) demo_child [''parent''] demo_job_id"
  by (rule ancestors.up [of _ _ _ demo_parent])
     (simp_all add: is_fanout_def ancestors.top)

theorem failure_climbs_witness:
  "\<exists>w' now. handle_task_failed demo_env demo_child demo_world = (Inr (), w') \<and>
    failed_in (w_ds w') (Some ''boom'') ''parent'' \<and>
    w_bk w' = publish_job (as_failed_job now (Some ''boom'') demo_job) (w_bk demo_world)"
  using failure_climbs [OF demo_ancestors, of "''child''" demo_child demo_env demo_job] by auto

section \<open>Completions are counted\<close>

text \<open>The completions counted so far and the number of subtasks, of a parallel or each task.\<close>

definition fan_counts :: "task \<Rightarrow> (int \<times> int) option" where
  "fan_counts u = (case parallel u of
     Some p \<Rightarrow> map_option (\<lambda>ts. (par_completions p, int (length ts))) (par_tasks p)
   | None \<Rightarrow> map_option (\<lambda>e. (each_completions e, each_size e)) (each u))"

definition published :: "string \<Rightarrow> 'h broker \<Rightarrow> task list" where
  "published q b = or_empty (map_of (bk_tasks b) q)"

lemma published_task [simp]:
  "published q (publish_task q' t b) = published q b @ (if q' = q then [t] else [])"
  by (simp add: published_def publish_task_def Let_def or_empty_def split: option.split)

lemma count_subtask_run:
  assumes "look_task (w_ds w) p = Some u" "tk_id u = Some p" "valid_id env p" "\<And>n. ce_publish_fails env n = None"
  shows "count_subtask env count fin u w = (Inr (), if fin u
    then w\<lparr>w_ds := put_task p (count u) (w_ds w), w_clock := Suc (w_clock w), w_pubs := Suc (w_pubs w),
      w_bk := publish_task QUEUE_COMPLETED (as_completed (ce_now env (w_clock w)) u) (w_bk w)\<rparr>
    else w\<lparr>w_ds := put_task p (count u) (w_ds w)\<rparr>)"
  using assms by (simp add: count_subtask_def run_simps)

lemma each_counted_sel [simp]:
  "each_completions (each_counted e) = each_completions e + 1" "each_size (each_counted e) = each_size e"
  by (cases e; simp)+

lemma counted_sel [simp]:
  "tk_id (count_parallel u) = tk_id u" "tk_id (count_each u) = tk_id u"
  "parallel (count_each u) = parallel u" "each (count_parallel u) = each u"
  "parallel (count_parallel u) = map_option (\<lambda>p. ParallelTask (par_tasks p) (par_completions p + 1)) (parallel u)"
  "each (count_each u) = map_option each_counted (each u)"
  "tk_id (as_completed n u) = tk_id u" "tk_state (as_completed n u) = TS_Completed"
  by (simp_all add: count_parallel_def count_each_def as_completed_def)

lemma subtask_completed_run:
  assumes "look_task (w_ds w) p = Some u" "tk_id u = Some p" "valid_id env p" "\<And>n. ce_publish_fails env n = None"
    and "fan_counts u = Some (c, n)"
  shows "\<exists>w' u'. handle_subtask_completed env t p w = (Inr (), w') \<and> look_task (w_ds w') p = Some u' \<and>
    tk_id u' = Some p \<and> fan_counts u' = Some (c + 1, n) \<and>
    published QUEUE_COMPLETED (w_bk w') = published QUEUE_COMPLETED (w_bk w) @
      (if n \<le> c + 1 then [as_completed (ce_now env (w_clock w)) u] else [])"
proof (cases "parallel u")
  case (Some p')
  with assms(5) obtain ts where ts: "par_tasks p' = Some ts" "c = par_completions p'" "n = int (length ts)"
    by (auto simp: fan_counts_def)
  have "handle_subtask_completed env t p w = count_subtask env count_parallel last_parallel u w"
    using assms(1) Some by (simp add: handle_subtask_completed_def run_simps handle_parallel_subtask_completed_def)
  then show ?thesis
    using Some ts assms(1,2) by (simp add: count_subtask_run [OF assms(1-4)] last_parallel_def fan_counts_def)
next
  case None
  with assms(5) obtain e where e: "each u = Some e" "c = each_completions e" "n = each_size e"
    by (auto simp: fan_counts_def)
  have "handle_subtask_completed env t p w = count_subtask env count_each last_each u w"
    using assms(1) None e by (simp add: handle_subtask_completed_def run_simps handle_each_subtask_completed_def)
  then show ?thesis
    using None e assms(1,2) by (simp add: count_subtask_run [OF assms(1-4)] last_each_def fan_counts_def)
qed

lemma completions_run:
  assumes "look_task (w_ds w) p = Some u" "tk_id u = Some p" "valid_id env p" "\<And>n. ce_publish_fails env n = None"
    and "fan_counts u = Some (c, n)"
  shows "\<exists>w' u' ps. for_each (\<lambda>t. handle_subtask_completed env t p) ts w = (Inr (), w') \<and>
    look_task (w_ds w') p = Some u' \<and> fan_counts u' = Some (c + int (length ts), n) \<and>
    published QUEUE_COMPLETED (w_bk w') = published QUEUE_COMPLETED (w_bk w) @ ps \<and>
    (\<forall>x \<in> set ps. tk_id x = Some p \<and> tk_state x = TS_Completed) \<and>
    length ps = (if c < n then nat (c + int (length ts) + 1 - n) else length ts)"
  using assms
proof (induction ts arbitrary: w u c)
  case Nil
  then show ?case by (simp add: ret_def)
next
  case (Cons t ts)
  obtain w1 u1 where 1: "handle_subtask_completed env t p w = (Inr (), w1)" "look_task (w_ds w1) p = Some u1"
    "tk_id u1 = Some p" "fan_counts u1 = Some (c + 1, n)"
    "published QUEUE_COMPLETED (w_bk w1) = published QUEUE_COMPLETED (w_bk w) @
      (if n \<le> c + 1 then [as_completed (ce_now env (w_clock w)) u] else [])"
    using subtask_completed_run [OF Cons.prems, of t] by blast
  obtain w' u' ps where 2: "for_each (\<lambda>t. handle_subtask_completed env t p) ts w1 = (Inr (), w')"
    "look_task (w_ds w') p = Some u'" "fan_counts u' = Some (c + 1 + int (length ts), n)"
    "published QUEUE_COMPLETED (w_bk w') = published QUEUE_COMPLETED (w_bk w1) @ ps"
    "\<forall>x \<in> set ps. tk_id x = Some p \<and> tk_state x = TS_Completed"
    "length ps = (if c + 1 < n then nat (c + 1 + int (length ts) + 1 - n) else length ts)"
    using Cons.IH [OF 1(2,3) Cons.prems(3,4) 1(4)] by blast
  show ?case
    using 1 2 Cons.prems(2)
    by (intro exI [of _ w'] exI [of _ u'] exI [of _ "(if n \<le> c + 1 then [as_completed (ce_now env (w_clock w)) u] else []) @ ps"])
       (auto simp: and_then_def)
qed

text \<open>C12. Each completed subtask of a parallel or each task with \<open>n\<close> subtasks adds one to its
  completions; handled one after the other, the \<open>n\<close>-th of them publishes the task as completed, none
  before it does, and each one after it (a redelivery) publishes it again.\<close>

theorem completions_counted:
  "look_task (w_ds w) p = Some u \<Longrightarrow> tk_id u = Some p \<Longrightarrow> valid_id env p \<Longrightarrow>
    \<forall>n. ce_publish_fails env n = None \<Longrightarrow> fan_counts u = Some (c, n) \<Longrightarrow> c < n \<Longrightarrow>
    \<exists>w' u' ps. for_each (\<lambda>t. handle_subtask_completed env t p) ts w = (Inr (), w') \<and>
      look_task (w_ds w') p = Some u' \<and> fan_counts u' = Some (c + int (length ts), n) \<and>
      published QUEUE_COMPLETED (w_bk w') = published QUEUE_COMPLETED (w_bk w) @ ps \<and>
      (\<forall>x \<in> set ps. tk_id x = Some p \<and> tk_state x = TS_Completed) \<and>
      length ps = nat (c + int (length ts) + 1 - n)"
  using completions_run [of w p u env c n ts] by simp

theorem completions_counted_witness:
  "\<exists>w' ps. for_each (\<lambda>t. handle_subtask_completed demo_env t ''parent'') [demo_child, demo_child] demo_world = (Inr (), w') \<and>
    published QUEUE_COMPLETED (w_bk w') = published QUEUE_COMPLETED (w_bk demo_world) @ ps \<and> length ps = 1"
  using completions_counted [of demo_world "''parent''" demo_parent demo_env 0 2 "[demo_child, demo_child]"]
  by (auto simp: fan_counts_def)

end
