(* ===== verification/Job_Props.thy ===== *)
theory Job_Props
  imports Handler_Props
begin

text \<open>
  Jobs: how they advance, what cancelling and failing them does to their tasks, how a failed
  publication is rolled back, what a task error leads to, and what two updates of one task that
  overlap lose.
\<close>

section \<open>Advancing\<close>

lemma look_job_frame [simp]:
  "look_job (s\<lparr>ds_tasks_by_job := a, ds_tasks_by_parent := b\<rparr>) = look_job s"
  by (simp add: look_job_def fun_eq_iff)

lemma create_task_ok:
  "tk_id t = Some i \<Longrightarrow> \<exists>a b. create_task t s = (Inr (), put_task i t (s\<lparr>ds_tasks_by_job := a, ds_tasks_by_parent := b\<rparr>))"
  by (auto simp: create_task_run)

lemma ds_create_task:
  assumes "tk_id t = Some i"
  obtains s where "ds_do (create_task t) w = (Inr (), w\<lparr>w_ds := s\<rparr>)"
    and "\<And>k. look_task s k = (if k = i then Some t else look_task (w_ds w) k)" and "look_job s = look_job (w_ds w)"
    and "ds_jobs s = ds_jobs (w_ds w)"
proof -
  obtain a b where "create_task t (w_ds w) =
      (Inr (), put_task i t ((w_ds w)\<lparr>ds_tasks_by_job := a, ds_tasks_by_parent := b\<rparr>))"
    using create_task_ok [OF assms] by blast
  then show thesis
    by (intro that [of "put_task i t ((w_ds w)\<lparr>ds_tasks_by_job := a, ds_tasks_by_parent := b\<rparr>)"])
       (simp_all add: ds_do_run)
qed

lemma new_id_run: "new_short_uuid env w = (Inr (short_id env (w_uuids w)), w\<lparr>w_uuids := Suc (w_uuids w)\<rparr>)"
  by (simp add: new_short_uuid_def)

lemma next_job_task_id [simp]: "tk_id (next_job_task i j p n t) = Some i"
  by (simp add: next_job_task_def)

text \<open>C7. When a top-level task completes, the job goes to its next task: that task, as the job
  defines it, is stored as pending under a fresh id with its position and published, and the job's
  position is one higher and within the list. After the last task the job is published as completed, and
  nothing is stored.\<close>

theorem job_advances:
  "look_job (w_ds w) i = Some j \<Longrightarrow> jb_tasks j = Some ts \<Longrightarrow> 0 \<le> jb_position j \<Longrightarrow> valid_job_id env i \<Longrightarrow>
    \<forall>n. ce_publish_fails env n = None \<Longrightarrow>
    \<exists>w'. handle_top_level_task_completed env i w = (Inr (), w') \<and>
      (if jb_position j < int (length ts)
       then let t = next_job_task (short_id env (w_uuids w)) i (jb_position j + 1) (ce_now env (w_clock w))
              (ts ! nat (jb_position j))
         in look_task (w_ds w') (short_id env (w_uuids w)) = Some t \<and>
            (\<forall>k. k \<noteq> short_id env (w_uuids w) \<longrightarrow> look_task (w_ds w') k = look_task (w_ds w) k) \<and>
            look_job (w_ds w') i = Some (j\<lparr>jb_position := jb_position j + 1\<rparr>) \<and>
            jb_position j + 1 \<le> int (length ts) \<and>
            w_bk w' = publish_task QUEUE_PENDING t (w_bk w)
       else w_ds w' = w_ds w \<and> w_bk w' = publish_job (j\<lparr>jb_state := JS_Completed\<rparr>) (w_bk w))"
proof -
  assume a: "look_job (w_ds w) i = Some j" "jb_tasks j = Some ts" "0 \<le> jb_position j" "valid_job_id env i"
    "\<forall>n. ce_publish_fails env n = None"
  have jid: "job_id_new (ie_uuid (ce_ids env)) i = Inr i" using a(4) by (simp add: valid_job_id_def)
  let ?id = "short_id env (w_uuids w)"
  let ?t = "next_job_task ?id i (jb_position j + 1) (ce_now env (w_clock w)) (ts ! nat (jb_position j))"
  let ?w = "w\<lparr>w_clock := Suc (w_clock w), w_uuids := Suc (w_uuids w)\<rparr>"
  obtain s where s: "ds_do (create_task ?t) ?w = (Inr (), ?w\<lparr>w_ds := s\<rparr>)"
    "\<And>k. look_task s k = (if k = ?id then Some ?t else look_task (w_ds ?w) k)" "look_job s = look_job (w_ds ?w)"
    by (rule ds_create_task [of ?t ?id ?w]) auto
  show ?thesis
  proof (cases "jb_position j < int (length ts)")
    case True
    then have "list_get ts (jb_position j) = Some (ts ! nat (jb_position j))"
      using a(3) by (simp add: list_get_def)
    then show ?thesis
      using a jid True s
      by (simp add: handle_top_level_task_completed_def run_simps new_id_run Let_def)
  next
    case False
    then show ?thesis
      using a by (simp add: handle_top_level_task_completed_def run_simps Let_def)
  qed
qed

theorem job_advances_witness:
  "\<exists>w'. handle_top_level_task_completed demo_env demo_job_id demo_world = (Inr (), w') \<and> w_ds w' = w_ds demo_world \<and>
    w_bk w' = publish_job (demo_job\<lparr>jb_state := JS_Completed\<rparr>) (w_bk demo_world)"
  using job_advances [of demo_world demo_job_id demo_job "[demo_parent]" demo_env]
  by (simp add: demo_job_def)

section \<open>Overlapping updates\<close>

text \<open>
  \<open>update_task\<close> reads the entry, applies the closure and then inserts, holding no lock between:
  these are its two steps.
\<close>

definition update_task_read :: "id_env \<Rightarrow> string \<Rightarrow> (task \<Rightarrow> ds_error + task) \<Rightarrow> task ds" where
  "update_task_read env i f =
     and_then (get_task_by_id i) (\<lambda>x.
     and_then (lift_res (f x)) (\<lambda>y.
     and_then (lift_res (check_id (id_new (ie_alphanumeric env)) i)) (\<lambda>_. ret y)))"

definition update_task_write :: "string \<Rightarrow> task \<Rightarrow> unit ds" where
  "update_task_write i y = modifies (put_task i y)"

lemma update_task_split: "update_task env i f = and_then (update_task_read env i f) (update_task_write i)"
  by (rule ext) (auto simp: update_task_def task_store.update_result update_task_read_def update_task_write_def
      get_task_run eff_simps ok_or_def split: option.splits sum.splits)

text \<open>C15. When the last two subtasks of a parallel task complete at the same time and both updates
  read the task before either writes it, one completion is lost: the task is stored with one
  completion missing, and neither handler finds itself the last one, so that the task is never published as
  completed. One after the other the two updates count both and the second is the last one.\<close>

theorem lost_completion:
  "look_task s p = Some u \<Longrightarrow> parallel u = Some (ParallelTask (Some ts) c) \<Longrightarrow> int (length ts) = c + 2 \<Longrightarrow>
    id_new (ie_alphanumeric env) p = Inr p \<Longrightarrow>
    (\<exists>y. update_task_read env p (\<lambda>u. Inr (count_parallel u)) s = (Inr y, s) \<and>
       look_task (snd (update_task_write p y (snd (update_task_write p y s)))) p = Some y \<and>
       fan_counts y = Some (c + 1, c + 2) \<and> \<not> last_parallel u) \<and>
    (\<exists>y s'. and_then (update_task env p (\<lambda>u. Inr (count_parallel u))) (\<lambda>_. update_task env p (\<lambda>u. Inr (count_parallel u))) s =
       (Inr (), s') \<and> look_task s' p = Some y \<and> fan_counts y = Some (c + 2, c + 2) \<and>
       last_parallel (count_parallel u))"
  by (simp add: update_task_read_def update_task_write_def get_task_run eff_simps check_id_def fan_counts_def
      last_parallel_def update_task_def task_store.update_result)

theorem lost_completion_witness:
  "\<exists>y. update_task_read (ce_ids demo_env) ''parent'' (\<lambda>u. Inr (count_parallel u)) (w_ds demo_world) = (Inr y, w_ds demo_world) \<and>
     fan_counts y = Some (1, 2) \<and> \<not> last_parallel demo_parent"
  using lost_completion [of "w_ds demo_world" "''parent''" demo_parent "[demo_child, demo_child]" 0 "ce_ids demo_env"]
    demo_ids(2) by (auto simp: valid_id_def)

section \<open>Cancellation\<close>

lemma broker_frame: "w_ds (snd (broker_do env f w)) = w_ds w"
  by (simp add: broker_do_def Let_def split: option.split)

definition same_ds :: "(world, 'e, 'a) eff \<Rightarrow> bool" where
  "same_ds m \<longleftrightarrow> (\<forall>w. w_ds (snd (m w)) = w_ds w)"

lemma same_ds_intros:
  "same_ds (ret x)" "same_ds (throw e)" "same_ds (lift_res r)" "same_ds (asks g)"
  "same_ds (broker_do env f)" "same_ds m1 \<Longrightarrow> same_ds (eff_map_err h m1)"
  "same_ds m2 \<Longrightarrow> (\<And>x. same_ds (k x)) \<Longrightarrow> same_ds (and_then m2 k)"
  "same_ds (ds_call (get_task_by_id i))" "same_ds (ds_call (get_job_by_id i))" "same_ds (ds_call (get_node_by_id i))"
  by (auto simp: same_ds_def eff_simps broker_frame ds_call_run get_task_by_id_def get_job_by_id_def
      get_node_by_id_def split: prod.splits sum.splits) (metis snd_conv)+

lemma same_dsD: "same_ds m \<Longrightarrow> m w = (r, w') \<Longrightarrow> w_ds w' = w_ds w"
  unfolding same_ds_def by (metis snd_conv)

lemma same_ds_jh [intro]:
  "same_ds (jh_some x m)" "same_ds m1 \<Longrightarrow> same_ds (jh_broker m1)"
  "same_ds (jh_ds (get_task_by_id i))" "same_ds (jh_ds (get_job_by_id i))" "same_ds (jh_ds (get_node_by_id i))"
  by (auto simp: jh_some_def jh_broker_def jh_ds_def intro: same_ds_intros)

lemma affinity_same_ds: "same_ds (cancel_task_affinity env t)"
  unfolding cancel_task_affinity_def broker_publish_job_def broker_publish_task_def Let_def
  by (auto intro!: same_ds_intros split: option.split)

lemma cancel_parent_same_ds: "same_ds (cancel_parent_job env p)"
  unfolding cancel_parent_job_def broker_publish_job_def by (auto intro!: same_ds_intros)


lemma as_cancelled_sel [simp]:
  "as_cancelled (as_cancelled u) = as_cancelled u" "tk_id (as_cancelled u) = tk_id u"
  "tk_job_id (as_cancelled u) = tk_job_id u" "\<not> task_is_active (as_cancelled u)"
  by (cases u; simp add: as_cancelled_def task_is_active_def)+

lemma eff_bindE:
  assumes "and_then m f w = (Inr y, w')"
  obtains x w1 where "m w = (Inr x, w1)" and "f x w1 = (Inr y, w')"
  using assms by (auto simp: and_then_Inr)

lemma jh_update_task_Inr:
  assumes "jh_ds (update_task env i (\<lambda>u. Inr (g u))) w = (Inr (), w')"
  obtains u where "look_task (w_ds w) i = Some u" and "w_ds w' = put_task i (g u) (w_ds w)"
  using assms by (auto simp: jh_ds_def eff_map_err_def ds_call_run update_task_def task_store.update_result
      map_err_def split: option.splits sum.splits prod.splits)

lemma cancel_task_run:
  assumes "cancel_task env t w = (Inr (), w')" and "tk_id t = Some i"
  obtains u where "look_task (w_ds w) i = Some u" and "w_ds w' = put_task i (as_cancelled u) (w_ds w)"
proof -
  from assms obtain w1 where 1: "jh_ds (update_task (ce_ids env) i (\<lambda>u. Inr (as_cancelled u))) w = (Inr (), w1)"
    and 2: "cancel_task_affinity env t w1 = (Inr (), w')"
    by (auto simp: cancel_task_def jh_some_def lift_res_def ok_or_def elim!: eff_bindE)
  from 1 obtain u where "look_task (w_ds w) i = Some u" "w_ds w1 = put_task i (as_cancelled u) (w_ds w)"
    by (rule jh_update_task_Inr)
  then show thesis using that same_dsD [OF affinity_same_ds 2] by simp
qed

lemma cancel_tasks_run:
  assumes "for_each (cancel_task env) ts w = (Inr (), w')" and "\<forall>t \<in> set ts. tk_id t \<noteq> None"
  shows "look_task (w_ds w') k = (if Some k \<in> tk_id ` set ts then map_option as_cancelled (look_task (w_ds w) k)
      else look_task (w_ds w) k) \<and> ds_jobs (w_ds w') = ds_jobs (w_ds w)"
  using assms
proof (induction ts arbitrary: w)
  case Nil
  then show ?case by (simp add: ret_def)
next
  case (Cons t ts)
  then obtain i where i: "tk_id t = Some i" by auto
  from Cons.prems(1) obtain w1 where 1: "cancel_task env t w = (Inr (), w1)"
    "for_each (cancel_task env) ts w1 = (Inr (), w')" by (auto elim: eff_bindE)
  obtain u where u: "look_task (w_ds w) i = Some u" "w_ds w1 = put_task i (as_cancelled u) (w_ds w)"
    using cancel_task_run [OF 1(1) i] .
  show ?case using Cons.IH [OF 1(2)] Cons.prems(2) u i by (auto simp: image_iff)
qed

lemma cancel_active_run:
  assumes inv: "ds_inv (w_ds w)" and ok: "cancel_active_tasks env i w = (Inr (), w')"
  shows "look_task (w_ds w') k = map_option (\<lambda>t. if tk_job_id t = Some i \<and> task_is_active t
      then as_cancelled t else t) (look_task (w_ds w) k) \<and> ds_jobs (w_ds w') = ds_jobs (w_ds w)"
proof -
  let ?ts = "tasks_for_job (ce_ids env) i task_is_active (w_ds w)"
  have run: "for_each (cancel_task env) ?ts w = (Inr (), w')"
    using ok by (simp add: cancel_active_tasks_def and_then_def jh_ds_def eff_map_err_def ds_call_run
        get_active_tasks_def asks_def)
  have ts: "set ?ts = {t. (\<exists>k. look_task (w_ds w) k = Some t) \<and> tk_job_id t = Some i \<and> task_is_active t}"
    by (rule tasks_for_job_exact(1) [OF inv])
  have id: "tk_id t = Some k" if "look_task (w_ds w) k = Some t" for k t
    using inv that by (simp add: ds_inv_def)
  have "\<forall>t \<in> set ?ts. tk_id t \<noteq> None" using ts id by fastforce
  note cancel_tasks_run [OF run this, of k]
  moreover have "Some k \<in> tk_id ` set ?ts \<longleftrightarrow> (\<exists>t. look_task (w_ds w) k = Some t \<and> tk_job_id t = Some i \<and> task_is_active t)"
    using ts id by (force simp: image_iff)
  ultimately show ?thesis by (cases "look_task (w_ds w) k") auto
qed

lemma jh_update_job_Inr:
  assumes "jh_ds (update_job env i (\<lambda>u. Inr (g u))) w = (Inr (), w')"
  shows "\<exists>u. look_job (w_ds w) i = Some u \<and> w_ds w' = put_job i (g u) (w_ds w)"
  using assms by (auto simp: jh_ds_def eff_map_err_def ds_call_run update_job_def job_store.update_result
      map_err_def split: option.splits sum.splits prod.splits)

lemma put_job_inv [simp]: "ds_inv (put_job i j s) = ds_inv s"
  by (rule ds_inv_frame) simp

lemma handle_cancel_effect:
  assumes inv: "ds_inv (w_ds w)" and i: "jb_id j = Some i" and h: "handle_cancel env j w = (Inr (), w')"
  shows "look_task (w_ds w') k = map_option (\<lambda>t. if tk_job_id t = Some i \<and> task_is_active t
      then as_cancelled t else t) (look_task (w_ds w) k) \<and>
    (jb_state j = JS_Cancelled \<longrightarrow> ds_jobs (w_ds w') = ds_jobs (w_ds w))"
proof -
  from h i obtain w1 w2 where 1: "(if is_job_active (jb_state j)
      then jh_ds (update_job (ce_ids env) i (\<lambda>u. Inr (u\<lparr>jb_state := JS_Cancelled\<rparr>))) else ret ()) w = (Inr (), w1)"
    and 2: "(case jb_parent_id j of Some p \<Rightarrow> cancel_parent_job env p | None \<Rightarrow> ret ()) w1 = (Inr (), w2)"
    and 3: "cancel_active_tasks env i w2 = (Inr (), w')"
    by (auto simp: handle_cancel_def jh_some_def lift_res_def elim!: eff_bindE)
  have "w_ds w2 = w_ds w1"
    using 2 same_dsD [OF cancel_parent_same_ds] by (auto simp: ret_def split: option.splits)
  moreover have "ds_inv (w_ds w1) \<and> look_task (w_ds w1) = look_task (w_ds w)"
    using 1 inv by (auto simp: ret_def dest!: jh_update_job_Inr split: if_splits)
  moreover have "jb_state j = JS_Cancelled \<Longrightarrow> w1 = w" using 1 by (simp add: is_job_active_def ret_def)
  ultimately show ?thesis using cancel_active_run [of w2 env i w' k] 3 by auto
qed

lemma fail_job_effect:
  assumes inv: "ds_inv (w_ds w)" and i: "jb_id j = Some i" and h: "fail_job env j w = (Inr (), w')"
  shows "look_task (w_ds w') k = map_option (\<lambda>t. if tk_job_id t = Some i \<and> task_is_active t
      then as_cancelled t else t) (look_task (w_ds w) k) \<and>
    (\<exists>u. look_job (w_ds w) i = Some u \<and>
      ds_jobs (w_ds w') = ds_jobs (put_job i (set_job_failed (jb_failed_at j) u) (w_ds w)))"
proof -
  from h i obtain w1 w2 w3 u w4 where 1: "jh_ds (update_job (ce_ids env) i (\<lambda>u. Inr (set_job_failed (jb_failed_at j) u))) w = (Inr (), w1)"
    and 2: "publish_failed_parent_task_if_present env j (jb_failed_at j) w1 = (Inr (), w2)"
    and 3: "cancel_active_tasks env i w2 = (Inr (), w3)" and 4: "jh_ds (get_job_by_id i) w3 = (Inr u, w4)"
    and 5: "(if jb_state u = JS_Failed then jh_broker (broker_publish_event env TOPIC_JOB_FAILED (ce_job_value env u)) else ret ()) w4 = (Inr (), w')"
    by (auto simp: fail_job_def jh_some_def lift_res_def elim!: eff_bindE)
  have "same_ds (publish_failed_parent_task_if_present env j (jb_failed_at j))"
    unfolding publish_failed_parent_task_if_present_def broker_publish_task_def
    by (auto intro!: same_ds_intros split: option.split)
  then have "w_ds w2 = w_ds w1" using 2 by (rule same_dsD)
  moreover have "w_ds w4 = w_ds w3" using 4 by (rule same_dsD [rotated]) auto
  moreover have "w_ds w' = w_ds w4"
    using 5 by (rule same_dsD [rotated]) (auto simp: broker_publish_event_def intro!: same_ds_intros)
  ultimately show ?thesis
    using cancel_active_run [of w2 env i w3 k] 3 inv jh_update_job_Inr [OF 1] by auto
qed

text \<open>C14. When cancelling or failing a job succeeds, every active task of the job is stored as
  cancelled and no other task changes. A cancellation message that already has the state Cancelled (as for the
  parent job and for subjobs) leaves the stored jobs as they were.\<close>

theorem cancel_stops_tasks:
  "ds_inv (w_ds w) \<Longrightarrow> jb_id j = Some i \<Longrightarrow>
    handle_cancel env j w = (Inr (), w') \<or> fail_job env j w = (Inr (), w') \<Longrightarrow>
    look_task (w_ds w') k = map_option (\<lambda>t. if tk_job_id t = Some i \<and> task_is_active t
      then as_cancelled t else t) (look_task (w_ds w) k) \<and>
    (handle_cancel env j w = (Inr (), w') \<and> jb_state j = JS_Cancelled \<longrightarrow> ds_jobs (w_ds w') = ds_jobs (w_ds w))"
  using handle_cancel_effect [of w j i env w' k] fail_job_effect [of w j i env w' k] by blast

theorem cancel_stops_tasks_witness:
  "\<exists>w'. handle_cancel demo_env (demo_job\<lparr>jb_state := JS_Cancelled\<rparr>) demo_world = (Inr (), w') \<and>
    look_task (w_ds w') ''child'' = Some (as_cancelled demo_child) \<and> ds_jobs (w_ds w') = ds_jobs (w_ds demo_world)"
proof -
  let ?j = "demo_job\<lparr>jb_state := JS_Cancelled\<rparr>"
  have j: "jb_id ?j = Some demo_job_id" "jb_parent_id ?j = None" "jb_state ?j = JS_Cancelled"
    by (simp_all add: demo_job_def default_job_def)
  have act: "task_is_active demo_child" by (simp add: task_is_active_def demo_child_def)
  have "subjob demo_child = None" "th_node_id (hdr demo_child) = None"
    "subjob demo_parent = None" "th_node_id (hdr demo_parent) = None"
    by (simp_all add: demo_child_def demo_parent_def default_hdr_def)
  moreover have "tasks_for_job (ce_ids demo_env) demo_job_id task_is_active (w_ds demo_world) = [demo_parent, demo_child]"
  proof -
    have "job_id_new (ie_uuid (ce_ids demo_env)) demo_job_id = Inr demo_job_id"
      using demo_ids(3) by (simp add: valid_job_id_def)
    then show ?thesis using act
      by (simp add: tasks_for_job_def tasks_of_ids_def task_is_active_def demo_world_def new_world_def
          look_task_def demo_parent_def)
  qed
  ultimately obtain w' where w': "handle_cancel demo_env ?j demo_world = (Inr (), w')"
    using j by (simp add: handle_cancel_def run_simps jh_some_def jh_ds_def jh_broker_def eff_map_err_def
        is_job_active_def cancel_active_tasks_def get_active_tasks_def cancel_task_def cancel_task_affinity_def)
  show ?thesis
    using cancel_stops_tasks [OF demo_inv j(1), of demo_env w' "''child''"] w' j(3) act by auto
qed

section \<open>Failed publications\<close>

lemma mark_of: "mark_publish_failed m u = Inr (upd_hdr (\<lambda>h. h\<lparr>th_state := TS_Failed, th_error := Some m\<rparr>) u)"
  by (simp add: mark_publish_failed_def)

lemma create_all_run:
  assumes "\<forall>t \<in> set ts. tk_id t \<noteq> None"
  shows "\<exists>s'. create_tasks ts s = (Inr (), s') \<and>
    (\<forall>k. if Some k \<in> tk_id ` set ts then \<exists>t \<in> set ts. look_task s' k = Some t else look_task s' k = look_task s k)"
  using assms unfolding create_tasks_def
proof (induction ts arbitrary: s)
  case (Cons t ts)
  then obtain i where i: "tk_id t = Some i" by auto
  obtain a b where c: "create_task t s = (Inr (), put_task i t (s\<lparr>ds_tasks_by_job := a, ds_tasks_by_parent := b\<rparr>))" (is "_ = (_, ?s)")
    using create_task_ok [OF i] by blast
  obtain s' where s': "for_each create_task ts ?s = (Inr (), s')"
    "\<forall>k. if Some k \<in> tk_id ` set ts then \<exists>t \<in> set ts. look_task s' k = Some t else look_task s' k = look_task ?s k"
    using Cons by fastforce
  have "if Some k \<in> tk_id ` set (t # ts) then \<exists>t \<in> set (t # ts). look_task s' k = Some t
      else look_task s' k = look_task s k" for k
    using s'(2) [rule_format, of k] i by (cases "k = i"; cases "Some k \<in> tk_id ` set ts") auto
  moreover have "for_each create_task (t # ts) s = (Inr (), s')" using c s'(1) by (simp add: and_then_def)
  ultimately show ?case by blast
qed (simp add: ret_def)

lemma rollback_run:
  assumes "\<forall>t \<in> set ts. \<exists>i. tk_id t = Some i \<and> valid_id env i \<and> look_task (w_ds w) i \<noteq> None"
    and m: "m = ''broker publish failed: '' @ engine_error_display err"
  shows "\<exists>s'. rollback_failed_publish env ts err w = (Inr (), w\<lparr>w_ds := s'\<rparr>) \<and>
    (\<forall>k. if Some k \<in> tk_id ` set ts
      then failed_in s' (Some m) k
      else look_task s' k = look_task (w_ds w) k)"
  using assms(1) unfolding rollback_failed_publish_def m [symmetric]
proof (induction ts arbitrary: w)
  case Nil
  then show ?case by (intro exI [of _ "w_ds w"]) (simp add: ret_def)
next
  case (Cons t ts)
  let ?f = "upd_hdr (\<lambda>h. h\<lparr>th_state := TS_Failed, th_error := Some m\<rparr>)"
  let ?step = "(\<lambda>t. case tk_id t of None \<Rightarrow> ret ()
    | Some i \<Rightarrow> ignore (ds_do (update_task (ce_ids env) i (mark_publish_failed m)))) :: task \<Rightarrow> unit act"
  from Cons.prems obtain i u where i: "tk_id t = Some i" "valid_id env i" "look_task (w_ds w) i = Some u" by auto
  let ?w1 = "w\<lparr>w_ds := put_task i (?f u) (w_ds w)\<rparr>"
  have step: "?step t w = (Inr (), w\<lparr>w_ds := put_task i (?f u) (w_ds w)\<rparr>)"
    using i ds_updates(1) [of w i u env ?f] unfolding mark_publish_failed_def by (simp add: ignore_def)
  have "\<forall>t \<in> set ts. \<exists>k. tk_id t = Some k \<and> valid_id env k \<and> look_task (put_task i (?f u) (w_ds w)) k \<noteq> None"
  proof
    fix t' assume "t' \<in> set ts"
    then obtain k where "tk_id t' = Some k" "valid_id env k" "look_task (w_ds w) k \<noteq> None" using Cons.prems by auto
    then show "\<exists>k. tk_id t' = Some k \<and> valid_id env k \<and> look_task (put_task i (?f u) (w_ds w)) k \<noteq> None"
      by (intro exI [of _ k]) simp
  qed
  then have "\<exists>s'. for_each ?step ts (?w1) = (Inr (), ?w1\<lparr>w_ds := s'\<rparr>) \<and>
    (\<forall>k. if Some k \<in> tk_id ` set ts then failed_in s' (Some m) k else look_task s' k = look_task (w_ds ?w1) k)"
    by (intro Cons.IH) simp
  then obtain s' where s': "for_each ?step ts ?w1 = (Inr (), ?w1\<lparr>w_ds := s'\<rparr>)"
    "\<forall>k. if Some k \<in> tk_id ` set ts then failed_in s' (Some m) k else look_task s' k = look_task (w_ds ?w1) k"
    by (elim exE conjE)
  have "failed_in s' (Some m) i"
    using s'(2) [rule_format, of i] by (auto simp: failed_in_def split: if_splits)
  then show ?case using step s' i
    by (intro exI [of _ s']) (auto simp: and_then_def image_iff split: if_splits)
qed

text \<open>C16. When the subtasks of a parallel or each task cannot be published, the error is returned, every
  subtask is stored as failed with that error, no other task changes and nothing is published.\<close>

theorem failed_publish_rolls_back:
  "ts \<noteq> [] \<Longrightarrow> \<forall>t \<in> set ts. \<exists>i. tk_id t = Some i \<and> valid_id env i \<Longrightarrow> ce_publish_fails env (w_pubs w) = Some e \<Longrightarrow>
    \<exists>w'. create_and_publish_subtasks env ts w = (Inl (E_Msg e), w') \<and> w_bk w' = w_bk w \<and>
      (\<forall>k. if Some k \<in> tk_id ` set ts then failed_in (w_ds w') (Some (''broker publish failed: '' @ e)) k
        else look_task (w_ds w') k = look_task (w_ds w) k)"
proof -
  assume ts: "ts \<noteq> []" "\<forall>t \<in> set ts. \<exists>i. tk_id t = Some i \<and> valid_id env i"
    and e: "ce_publish_fails env (w_pubs w) = Some e"
  from ts obtain s where s: "create_tasks ts (w_ds w) = (Inr (), s)"
    "\<forall>k. if Some k \<in> tk_id ` set ts then \<exists>t \<in> set ts. look_task s k = Some t else look_task s k = look_task (w_ds w) k"
    using create_all_run [of ts "w_ds w"] by fastforce
  let ?w = "w\<lparr>w_ds := s, w_pubs := Suc (w_pubs w)\<rparr>"
  have "\<exists>i. tk_id t = Some i \<and> valid_id env i \<and> look_task (w_ds ?w) i \<noteq> None" if t: "t \<in> set ts" for t
  proof -
    obtain i where i: "tk_id t = Some i" "valid_id env i" using ts(2) t by blast
    then have "Some i \<in> tk_id ` set ts" using t by force
    then have "look_task s i \<noteq> None" using s(2) [rule_format, of i] by auto
    then show ?thesis using i by simp
  qed
  then obtain s' where s': "rollback_failed_publish env ts (E_Msg e) ?w = (Inr (), ?w\<lparr>w_ds := s'\<rparr>)"
    "\<forall>k. if Some k \<in> tk_id ` set ts then failed_in s' (Some (''broker publish failed: '' @ e)) k else look_task s' k = look_task s k"
    using rollback_run [of ts env ?w "''broker publish failed: '' @ e" "E_Msg e"] by (simp cong: if_cong) blast
  have "create_and_publish_subtasks env ts w = (Inl (E_Msg e), ?w\<lparr>w_ds := s'\<rparr>)"
    using ts(1) s(1) s'(1) e
    by (simp add: create_and_publish_subtasks_def and_then_def ds_do_run on_error_def broker_publish_tasks_def
        broker_do_def throw_def Let_def)
  moreover have "if Some k \<in> tk_id ` set ts then failed_in s' (Some (''broker publish failed: '' @ e)) k
      else look_task s' k = look_task (w_ds w) k" for k
    using s(2) [rule_format, of k] s'(2) [rule_format, of k] by (auto split: if_splits)
  ultimately show ?thesis by (simp cong: if_cong)
qed

theorem failed_publish_rolls_back_witness:
  "\<exists>w'. create_and_publish_subtasks (demo_env\<lparr>ce_publish_fails := \<lambda>_. Some ''down''\<rparr>) [demo_child] demo_world =
      (Inl (E_Msg ''down''), w') \<and> failed_in (w_ds w') (Some ''broker publish failed: down'') ''child''"
proof -
  let ?e = "demo_env\<lparr>ce_publish_fails := \<lambda>_. Some ''down''\<rparr>"
  have "valid_id ?e ''child''" using demo_ids(1) by (simp add: valid_id_def)
  then obtain w' where "create_and_publish_subtasks ?e [demo_child] demo_world = (Inl (E_Msg ''down''), w')"
    "\<forall>k. if Some k \<in> tk_id ` set [demo_child] then failed_in (w_ds w') (Some (''broker publish failed: '' @ ''down'')) k
        else look_task (w_ds w') k = look_task (w_ds demo_world) k"
    using failed_publish_rolls_back [of "[demo_child]" ?e demo_world "''down''"] by auto
  then show ?thesis by (auto dest: spec [of _ "''child''"])
qed

end
