(* ===== verification/Error_Props.thy ===== *)
theory Error_Props
  imports Job_Props
begin

text \<open>What a task error leads to: a retry within the limit, or failure.\<close>

lemma evaluate_keeps:
  assumes "evaluate_task ev t = Inr t'"
  shows "tk_id t' = tk_id t" "tk_job_id t' = tk_job_id t" "tk_parent_id t' = tk_parent_id t"
    "tk_state t' = tk_state t" "th_retry (hdr t') = th_retry (hdr t)"
  using assms by (cases t; auto simp: eval_hdr_first_def eval_hdr_last_def res_bind_Inr)+

lemma as_retry_sel [simp]:
  "tk_id (as_retry i n r t) = Some i" "tk_state (as_retry i n r t) = TS_Pending"
  "th_retry (hdr (as_retry i n r t)) = Some \<lparr>tr_limit = tr_limit r, tr_attempts = tr_attempts r + 1\<rparr>"
  by (simp_all add: as_retry_def)

definition error_mark :: "task \<Rightarrow> time \<Rightarrow> task \<Rightarrow> task" where
  "error_mark t now = upd_hdr (\<lambda>h. h\<lparr>th_state := TS_Failed, th_failed_at := Some now,
     th_error := th_error (hdr t), th_result := th_result (hdr t), th_exit_code := th_exit_code (hdr t)\<rparr>)"

lemma error_mark_sel [simp]:
  "tk_state (error_mark t n u) = TS_Failed" "th_error (hdr (error_mark t n u)) = th_error (hdr t)"
  by (simp_all add: error_mark_def)

lemma persist_error_run:
  "look_task (w_ds w) i = Some u \<Longrightarrow> valid_id env i \<Longrightarrow>
    persist_task_error env i t now w = (Inr (), w\<lparr>w_ds := put_task i (error_mark t now u) (w_ds w)\<rparr>)"
  by (simp add: persist_task_error_def run_simps error_mark_def)

text \<open>C13. When a task of an active job errors, it is stored as failed; if it has attempts left, exactly
  one new task is stored and published as pending under a fresh id, with one attempt more and
  within the same limit; if not, the task is published as failed and its failure climbs.\<close>

theorem error_retries_or_fails:
  "tk_id t = Some i \<Longrightarrow> tk_job_id t = Some j \<Longrightarrow> look_task (w_ds w) i = Some u \<Longrightarrow> valid_id env i \<Longrightarrow>
    look_job (w_ds w) j = Some jb \<Longrightarrow> is_job_active (jb_state jb) \<Longrightarrow> \<forall>n. ce_publish_fails env n = None \<Longrightarrow>
    (\<forall>r ft. th_retry (hdr t) = Some r \<and> tr_attempts r < tr_limit r \<and>
      evaluate_task (ce_template env (build_job_context jb))
        (as_retry (short_id env (w_uuids w)) (ce_now env (w_clock w)) r t) = Inr ft \<longrightarrow>
      (\<exists>w'. handle_error env t w = (Inr (), w') \<and> w_bk w' = publish_task QUEUE_PENDING ft (w_bk w) \<and>
        (\<forall>k. k \<noteq> i \<and> k \<noteq> short_id env (w_uuids w) \<longrightarrow> look_task (w_ds w') k = look_task (w_ds w) k) \<and>
        look_task (w_ds w') (short_id env (w_uuids w)) = Some ft \<and> tk_state ft = TS_Pending \<and>
        th_retry (hdr ft) = Some \<lparr>tr_limit = tr_limit r, tr_attempts = tr_attempts r + 1\<rparr> \<and>
        tr_attempts r + 1 \<le> tr_limit r \<and>
        (i \<noteq> short_id env (w_uuids w) \<longrightarrow> failed_in (w_ds w') (th_error (hdr t)) i))) \<and>
    ((\<forall>r. th_retry (hdr t) = Some r \<longrightarrow> tr_limit r \<le> tr_attempts r) \<longrightarrow>
      (\<exists>w1 t'. handle_error env t w = handle_task_failed env t' w1 \<and>
        w_bk w1 = publish_task QUEUE_FAILED t' (w_bk w) \<and> failed_in (w_ds w1) (th_error (hdr t)) i \<and>
        t' = upd_hdr (\<lambda>h. h\<lparr>th_state := TS_Failed, th_failed_at := Some (ce_now env (w_clock w))\<rparr>) t))"
proof (intro conjI allI impI)
  assume a: "tk_id t = Some i" "tk_job_id t = Some j" "look_task (w_ds w) i = Some u" "valid_id env i"
    "look_job (w_ds w) j = Some jb" "is_job_active (jb_state jb)" "\<forall>n. ce_publish_fails env n = None"
  let ?now = "ce_now env (w_clock w)" and ?id = "short_id env (w_uuids w)"
  let ?w = "w\<lparr>w_clock := Suc (w_clock w), w_ds := put_task i (error_mark t ?now u) (w_ds w)\<rparr>"
  have start: "handle_error env t w = (if (case th_retry (hdr t) of Some r \<Rightarrow> can_retry r | None \<Rightarrow> False)
      then create_retry_task env t jb ?now ?w
      else let failed_task = upd_hdr (\<lambda>h. h\<lparr>th_state := TS_Failed, th_failed_at := Some ?now\<rparr>) t
        in and_then (broker_publish_task env QUEUE_FAILED failed_task) (\<lambda>_. handle_task_failed env failed_task) ?w)"
    using a by (simp add: handle_error_def run_simps persist_error_run Let_def)
  {
    fix r ft assume r: "th_retry (hdr t) = Some r \<and> tr_attempts r < tr_limit r \<and>
      evaluate_task (ce_template env (build_job_context jb)) (as_retry ?id ?now r t) = Inr ft"
    then have ft: "tk_id ft = Some ?id" "tk_state ft = TS_Pending"
        "th_retry (hdr ft) = Some \<lparr>tr_limit = tr_limit r, tr_attempts = tr_attempts r + 1\<rparr>"
      using evaluate_keeps [of "ce_template env (build_job_context jb)" "as_retry ?id ?now r t" ft] by simp_all
    let ?w1 = "?w\<lparr>w_uuids := Suc (w_uuids w)\<rparr>"
    obtain s where s: "ds_do (create_task ft) ?w1 = (Inr (), ?w1\<lparr>w_ds := s\<rparr>)"
      "\<And>k. look_task s k = (if k = ?id then Some ft else look_task (w_ds ?w1) k)"
      by (rule ds_create_task [OF ft(1), of ?w1]) auto
    have "handle_error env t w = (Inr (), ?w1\<lparr>w_ds := s, w_pubs := Suc (w_pubs w), w_bk := publish_task QUEUE_PENDING ft (w_bk w)\<rparr>)"
      using start r s(1) a(7) by (simp add: can_retry_def create_retry_task_def and_then_def lift_res_def
          new_id_run broker_publish_task_def broker_ok)
    then show "\<exists>w'. handle_error env t w = (Inr (), w') \<and> w_bk w' = publish_task QUEUE_PENDING ft (w_bk w) \<and>
        (\<forall>k. k \<noteq> i \<and> k \<noteq> ?id \<longrightarrow> look_task (w_ds w') k = look_task (w_ds w) k) \<and>
        look_task (w_ds w') ?id = Some ft \<and> tk_state ft = TS_Pending \<and>
        th_retry (hdr ft) = Some \<lparr>tr_limit = tr_limit r, tr_attempts = tr_attempts r + 1\<rparr> \<and>
        tr_attempts r + 1 \<le> tr_limit r \<and> (i \<noteq> ?id \<longrightarrow> failed_in (w_ds w') (th_error (hdr t)) i)"
      using s(2) ft r by (simp add: failed_in_def)
  }
  assume no: "\<forall>r. th_retry (hdr t) = Some r \<longrightarrow> tr_limit r \<le> tr_attempts r"
  let ?t = "upd_hdr (\<lambda>h. h\<lparr>th_state := TS_Failed, th_failed_at := Some ?now\<rparr>) t"
  have "handle_error env t w = handle_task_failed env ?t (?w\<lparr>w_pubs := Suc (w_pubs w), w_bk := publish_task QUEUE_FAILED ?t (w_bk w)\<rparr>)"
    using start no a(7) by (cases "th_retry (hdr t)")
      (simp_all add: can_retry_def and_then_def broker_publish_task_def broker_ok Let_def not_less)
  then show "\<exists>w1 t'. handle_error env t w = handle_task_failed env t' w1 \<and>
        w_bk w1 = publish_task QUEUE_FAILED t' (w_bk w) \<and> failed_in (w_ds w1) (th_error (hdr t)) i \<and> t' = ?t"
    by (intro exI conjI, assumption) (simp_all add: failed_in_def)
qed

theorem error_retries_or_fails_witness:
  "\<exists>w1 t'. handle_error demo_env demo_child demo_world = handle_task_failed demo_env t' w1 \<and>
    w_bk w1 = publish_task QUEUE_FAILED t' (w_bk demo_world)"
proof -
  have "is_job_active (jb_state demo_job)" by (simp add: demo_job_def is_job_active_def)
  moreover have "th_retry (hdr demo_child) = None" by (simp add: demo_child_def default_hdr_def)
  ultimately show ?thesis
    using error_retries_or_fails [of demo_child "''child''" demo_job_id demo_world demo_child demo_env demo_job] by auto
qed

end
