(* ===== verification/Coordinator_Inv.thy ===== *)
theory Coordinator_Inv
  imports Error_Props "HOL-Library.Multiset"
begin

text \<open>
  The datastore stays consistent under every interleaving of the coordinator's handlers: the
  tasks they create have ids drawn from \<open>new_short_uuid\<close>, and as long as the ids drawn so far differ,
  no task is ever created twice. \<open>fresh_inv env R\<close> says so, \<open>R\<close> being the ids drawn for tasks that are yet
  to be created.
\<close>

definition drawn :: "cenv \<Rightarrow> world \<Rightarrow> string set" where
  "drawn env w = short_id env ` {..<w_uuids w}"

definition fresh_inv :: "cenv \<Rightarrow> string list \<Rightarrow> world \<Rightarrow> bool" where
  "fresh_inv env R w \<longleftrightarrow> (inj_on (short_id env) {..<w_uuids w} \<longrightarrow>
     ds_inv (w_ds w) \<and> (\<forall>i. look_task (w_ds w) i \<noteq> None \<longrightarrow> i \<in> drawn env w) \<and>
     distinct R \<and> (\<forall>i \<in> set R. look_task (w_ds w) i = None \<and> i \<in> drawn env w))"

lemma fresh_inv_sub:
  "fresh_inv env R w \<Longrightarrow> set R' \<subseteq> set R \<Longrightarrow> (distinct R \<Longrightarrow> distinct R') \<Longrightarrow> fresh_inv env R' w"
  unfolding fresh_inv_def by blast

lemma fresh_inv_Nil: "fresh_inv env R w \<Longrightarrow> fresh_inv env [] w"
  by (erule fresh_inv_sub) simp_all

lemma fresh_frame:
  assumes "fresh_inv env R w" and "task_part (w_ds w') = task_part (w_ds w)" and "w_uuids w \<le> w_uuids w'"
  shows "fresh_inv env R w'"
proof -
  have sub: "{..<w_uuids w} \<subseteq> {..<w_uuids w'}" using assms(3) by simp
  then have "drawn env w \<subseteq> drawn env w'" by (auto simp: drawn_def)
  moreover have "inj_on (short_id env) {..<w_uuids w'} \<Longrightarrow> inj_on (short_id env) {..<w_uuids w}"
    using sub by (rule inj_on_subset [rotated])
  moreover have "look_task (w_ds w') = look_task (w_ds w)"
    using assms(2) by (simp add: look_task_def task_part_def fun_eq_iff)
  ultimately show ?thesis using assms(1) ds_inv_frame [OF assms(2)] unfolding fresh_inv_def by auto
qed

section \<open>Steps that leave the tasks alone\<close>

named_theorems inv_intros

lemma keeps_fresh:
  "(\<And>w. task_part (w_ds (snd (m w))) = task_part (w_ds w)) \<Longrightarrow> (\<And>w. w_uuids w \<le> w_uuids (snd (m w))) \<Longrightarrow>
    keeps (fresh_inv env R) m"
  unfolding keeps_def using fresh_frame by blast

lemma keeps_plain [inv_intros]:
  "keeps (fresh_inv env R) (now_utc env')"
  "keeps (fresh_inv env R) (broker_do env' f)"
  "keeps (fresh_inv env R) (modifies (w_hooks_update g1))"
  "keeps (fresh_inv env R) (modifies (w_bk_update g2))"
  "keeps (fresh_inv env R) (modifies (w_uuids_update Suc))"
  "keeps (fresh_inv env R) (modifies (w_cron_jobs_update g3))"
  "keeps (fresh_inv env R) (modifies (w_cron_calls_update g4))"
  "keeps (fresh_inv env R) (modifies (w_stopped_update g5))"
  "keeps (fresh_inv env R) (new_short_uuid env')"
  by (rule keeps_fresh; simp add: now_utc_def broker_do_def modifies_def new_short_uuid_def Let_def
      split: option.split)+

lemma keeps_ds_plain:
  assumes "\<And>s. task_part (snd (m s)) = task_part s"
  shows "keeps (fresh_inv env R) (ds_do m)" "keeps (fresh_inv env R) (ds_call m)" "keeps (fresh_inv env R) (jh_ds m)"
  by (rule keeps_fresh; use assms in \<open>simp add: ds_do_run ds_call_run jh_ds_def eff_map_err_def split: prod.splits\<close>;
      metis snd_conv)+

lemma task_part_reads:
  "task_part (snd (get_task_by_id i s)) = task_part s" "task_part (snd (get_job_by_id i s)) = task_part s"
  "task_part (snd (get_node_by_id i s)) = task_part s" "task_part (snd (get_scheduled_job_by_id i s)) = task_part s"
  "task_part (snd (get_active_tasks e i s)) = task_part s" "task_part (snd (get_all_tasks_for_job e i s)) = task_part s"
  "task_part (snd (get_active_scheduled_jobs s)) = task_part s"
  by (simp_all add: get_task_by_id_def get_job_by_id_def get_node_by_id_def get_scheduled_job_by_id_def
      get_active_tasks_def get_all_tasks_for_job_def get_active_scheduled_jobs_def eff_simps)

lemmas keeps_ds_ops [inv_intros] = task_part_ops [THEN keeps_ds_plain(1)] task_part_ops [THEN keeps_ds_plain(2)]
  task_part_ops [THEN keeps_ds_plain(3)] task_part_reads [THEN keeps_ds_plain(1)]
  task_part_reads [THEN keeps_ds_plain(2)] task_part_reads [THEN keeps_ds_plain(3)]

section \<open>Updates of tasks\<close>

lemma fresh_update:
  assumes inv: "fresh_inv env R w" and key: "key_preserving f"
    and run: "w' = w\<lparr>w_ds := snd (update_task e i f (w_ds w))\<rparr>"
  shows "fresh_inv env R w'"
proof -
  have keys: "look_task (w_ds w') k = None \<longleftrightarrow> look_task (w_ds w) k = None" for k
    using run by (simp add: update_task_def task_store.update_result split: option.split sum.split)
  have "ds_inv (w_ds w) \<Longrightarrow> ds_inv (w_ds w')"
    using update_task_inv [OF key, of e i] run by (simp add: keeps_def)
  then show ?thesis using inv keys run unfolding fresh_inv_def drawn_def by simp
qed

lemma keeps_update [inv_intros]:
  assumes "key_preserving f"
  shows "keeps (fresh_inv env R) (ds_do (update_task e i f))"
    "keeps (fresh_inv env R) (ds_call (update_task e i f))"
    "keeps (fresh_inv env R) (jh_ds (update_task e i f))"
  unfolding keeps_def
  by (intro allI impI, erule fresh_update [OF _ assms, of _ _ _ _ e i],
      simp add: ds_do_run ds_call_run jh_ds_def eff_map_err_def split: prod.splits)+

lemma key_hdr [inv_intros]:
  assumes "\<And>h. th_id (f h) = th_id h \<and> th_job_id (f h) = th_job_id h \<and> th_parent_id (f h) = th_parent_id h"
  shows "key_preserving (\<lambda>u. Inr (upd_hdr f u))"
  using assms by (simp add: key_preserving_def)

lemma keys_kept [inv_intros]:
  "key_preserving (\<lambda>u. Inr (as_skipped now u))" "key_preserving (\<lambda>u. Inr (as_cancelled u))"
  "key_preserving (\<lambda>u. Inr (count_parallel u))" "key_preserving (\<lambda>u. Inr (count_each u))"
  "key_preserving (set_running now)" "key_preserving (mark_publish_failed m)"
  "key_preserving (set_scheduled now h)" "key_preserving (set_each_running n now)"
  "key_preserving (set_subjob_running sid now)"
  by (auto simp: key_preserving_def as_skipped_def as_cancelled_def count_parallel_def count_each_def
      set_running_def mark_publish_failed_def set_scheduled_def set_each_running_def set_subjob_running_def)

section \<open>Fresh ids\<close>

definition hoare :: "('s \<Rightarrow> bool) \<Rightarrow> ('s, 'e, 'a) eff \<Rightarrow> ('a \<Rightarrow> 's \<Rightarrow> bool) \<Rightarrow> ('s \<Rightarrow> bool) \<Rightarrow> bool" where
  "hoare P m Q E \<longleftrightarrow> (\<forall>s. P s \<longrightarrow> (case m s of (Inl e, s') \<Rightarrow> E s' | (Inr x, s') \<Rightarrow> Q x s'))"

lemma hoare_bind:
  "hoare P m Q E \<Longrightarrow> (\<And>x. hoare (Q x) (f x) Q' E) \<Longrightarrow> hoare P (and_then m f) Q' E"
  unfolding hoare_def and_then_def by (fastforce split: prod.splits sum.splits)

lemma hoare_ret: "(\<And>s. P s \<Longrightarrow> Q x s) \<Longrightarrow> hoare P (ret x) Q E"
  by (simp add: hoare_def ret_def)

lemma hoare_pre: "hoare P m Q E \<Longrightarrow> (\<And>s. P' s \<Longrightarrow> P s) \<Longrightarrow> hoare P' m Q E"
  by (simp add: hoare_def)

lemma hoare_keeps: "keeps (fresh_inv env R) m \<Longrightarrow> hoare (fresh_inv env R) m (\<lambda>_. fresh_inv env R) (fresh_inv env [])"
  unfolding hoare_def keeps_def using fresh_inv_Nil by (fastforce split: prod.splits sum.splits)

lemma hoare_lift: "(\<And>x w. r = Inr x \<Longrightarrow> P w \<Longrightarrow> Q x w) \<Longrightarrow> (\<And>w. P w \<Longrightarrow> E w) \<Longrightarrow> hoare P (lift_res r) Q E"
  by (auto simp: hoare_def lift_res_def split: sum.split)

lemma keeps_hoare: "hoare (fresh_inv env R) m (\<lambda>_. fresh_inv env []) (fresh_inv env []) \<Longrightarrow> R = [] \<Longrightarrow> keeps (fresh_inv env []) m"
  unfolding hoare_def keeps_def by (fastforce split: prod.splits sum.splits)

lemma hoare_draw:
  "hoare (fresh_inv env R) (new_short_uuid env) (\<lambda>i. fresh_inv env (i # R)) (fresh_inv env [])"
proof -
  have "fresh_inv env (short_id env (w_uuids w) # R) (w\<lparr>w_uuids := Suc (w_uuids w)\<rparr>)" if inv: "fresh_inv env R w" for w
    unfolding fresh_inv_def
  proof
    let ?w = "w\<lparr>w_uuids := Suc (w_uuids w)\<rparr>" and ?i = "short_id env (w_uuids w)"
    assume "inj_on (short_id env) {..<w_uuids ?w}"
    then have inj: "inj_on (short_id env) (insert (w_uuids w) {..<w_uuids w})"
      by (simp add: lessThan_Suc)
    then have new: "?i \<notin> drawn env w" and old: "inj_on (short_id env) {..<w_uuids w}"
      unfolding drawn_def by (auto simp: inj_on_insert)
    have "drawn env ?w = insert ?i (drawn env w)" by (simp add: drawn_def lessThan_Suc)
    then show "ds_inv (w_ds ?w) \<and> (\<forall>i. look_task (w_ds ?w) i \<noteq> None \<longrightarrow> i \<in> drawn env ?w) \<and>
      distinct (?i # R) \<and> (\<forall>i \<in> set (?i # R). look_task (w_ds ?w) i = None \<and> i \<in> drawn env ?w)"
      using inv old new unfolding fresh_inv_def by auto
  qed
  then show ?thesis by (simp add: hoare_def new_short_uuid_def)
qed

lemma hoare_create:
  assumes "tk_id t = Some i"
  shows "hoare (fresh_inv env (i # R)) (ds_do (create_task t)) (\<lambda>_. fresh_inv env R) (fresh_inv env [])"
proof -
  have "fresh_inv env R (w\<lparr>w_ds := snd (create_task t (w_ds w))\<rparr>)" if inv: "fresh_inv env (i # R) w" for w
  proof -
    have look: "look_task (snd (create_task t (w_ds w))) k = (if k = i then Some t else look_task (w_ds w) k)" for k
      using create_task_ok [OF assms, of "w_ds w"] by auto
    show ?thesis using inv look create_task_inv [OF _ assms, of "w_ds w"]
      unfolding fresh_inv_def drawn_def by auto
  qed
  note step = this
  show ?thesis
    unfolding hoare_def
  proof (intro allI impI)
    fix w assume "fresh_inv env (i # R) w"
    then have "fresh_inv env R (w\<lparr>w_ds := snd (create_task t (w_ds w))\<rparr>)" by (rule step)
    moreover obtain s where "create_task t (w_ds w) = (Inr (), s)" using create_task_ok [OF assms] by blast
    ultimately show "case ds_do (create_task t) w of (Inl e, s') \<Rightarrow> fresh_inv env [] s' | (Inr x, s') \<Rightarrow> fresh_inv env R s'"
      by (simp add: ds_do_run)
  qed
qed

lemma hoare_create_tasks:
  "hoare (\<lambda>w. fresh_inv env (map (\<lambda>t. the (tk_id t)) ts @ R) w \<and> (\<forall>t \<in> set ts. tk_id t \<noteq> None))
    (ds_do (create_tasks ts)) (\<lambda>_. fresh_inv env R) (fresh_inv env [])"
proof (induction ts)
  case Nil
  then show ?case by (simp add: create_tasks_def hoare_def ds_do_run ret_def)
next
  case (Cons t ts)
  show ?case
    unfolding hoare_def
  proof (intro allI impI)
    fix w assume a: "fresh_inv env (map (\<lambda>t. the (tk_id t)) (t # ts) @ R) w \<and> (\<forall>t \<in> set (t # ts). tk_id t \<noteq> None)"
    then obtain i where i: "tk_id t = Some i" by auto
    obtain s where s: "create_task t (w_ds w) = (Inr (), s)" using create_task_ok [OF i] by blast
    then have d: "ds_do (create_task t) w = (Inr (), w\<lparr>w_ds := s\<rparr>)" by (simp add: ds_do_run)
    have p: "fresh_inv env (i # map (\<lambda>t. the (tk_id t)) ts @ R) w" using a i by simp
    have "fresh_inv env (map (\<lambda>t. the (tk_id t)) ts @ R) (w\<lparr>w_ds := s\<rparr>)"
      using hoare_create [OF i, unfolded hoare_def, rule_format, OF p] d by simp
    then have "case ds_do (create_tasks ts) (w\<lparr>w_ds := s\<rparr>) of (Inl e, s') \<Rightarrow> fresh_inv env [] s' | (Inr x, s') \<Rightarrow> fresh_inv env R s'"
      using Cons a unfolding hoare_def by auto
    moreover have "ds_do (create_tasks (t # ts)) w = ds_do (create_tasks ts) (w\<lparr>w_ds := s\<rparr>)"
      using s by (simp add: create_tasks_def ds_do_run and_then_def)
    ultimately show "case ds_do (create_tasks (t # ts)) w of (Inl e, s') \<Rightarrow> fresh_inv env [] s' | (Inr x, s') \<Rightarrow> fresh_inv env R s'"
      by simp
  qed
qed


lemma hoare_weaken: "hoare P m Q E \<Longrightarrow> (\<And>x s. Q x s \<Longrightarrow> Q' x s) \<Longrightarrow> hoare P m Q' E"
  unfolding hoare_def by (fastforce split: prod.splits sum.splits)

lemma hoare_plain:
  "keeps (fresh_inv env R) m \<Longrightarrow> (\<And>x. hoare (fresh_inv env R) (f x) Q (fresh_inv env [])) \<Longrightarrow>
    hoare (fresh_inv env R) (and_then m f) Q (fresh_inv env [])"
  by (rule hoare_bind [OF hoare_keeps])

lemma hoare_pure:
  "(\<And>x. r = Inr x \<Longrightarrow> hoare (fresh_inv env R) (f x) Q (fresh_inv env [])) \<Longrightarrow>
    hoare (fresh_inv env R) (and_then (lift_res r) f) Q (fresh_inv env [])"
  unfolding hoare_def and_then_def lift_res_def using fresh_inv_Nil by (auto split: sum.split)

lemma hoare_new_id:
  "(\<And>i. hoare (fresh_inv env (i # R)) (f i) Q (fresh_inv env [])) \<Longrightarrow>
    hoare (fresh_inv env R) (and_then (new_short_uuid env) f) Q (fresh_inv env [])"
  by (rule hoare_bind [OF hoare_draw])

lemma hoare_created:
  "tk_id t = Some i \<Longrightarrow> hoare (fresh_inv env R) (f ()) Q (fresh_inv env []) \<Longrightarrow>
    hoare (fresh_inv env (i # R)) (and_then (ds_do (create_task t)) f) Q (fresh_inv env [])"
  by (rule hoare_bind [OF hoare_create]) (simp_all add: old.unit.exhaust)

lemma keeps_of_hoare:
  "hoare (fresh_inv env []) m (\<lambda>_. fresh_inv env []) (fresh_inv env []) \<Longrightarrow> keeps (fresh_inv env []) m"
  unfolding hoare_def keeps_def by (fastforce split: prod.splits sum.splits)

lemma hoare_of_keeps:
  "keeps (fresh_inv env []) m \<Longrightarrow> hoare (fresh_inv env []) m (\<lambda>_. fresh_inv env []) (fresh_inv env [])"
  by (rule hoare_keeps)

lemma keeps_pair [inv_intros]: "(\<And>a b. keeps I (f a b)) \<Longrightarrow> keeps I (case p of (a, b) \<Rightarrow> f a b)"
  by (cases p) simp

lemma keeps_publish [inv_intros]:
  "keeps (fresh_inv env R) (broker_publish_task env' q t)" "keeps (fresh_inv env R) (broker_publish_tasks env' q ts)"
  "keeps (fresh_inv env R) (broker_publish_job env' j)" "keeps (fresh_inv env R) (broker_publish_event env' topic v)"
  by (simp_all add: broker_publish_task_def broker_publish_tasks_def broker_publish_job_def
      broker_publish_event_def inv_intros)

lemma keeps_webhooks [inv_intros]:
  "keeps (fresh_inv env R) (fire_job_webhooks j ev)" "keeps (fresh_inv env R) (fire_task_webhooks t ev)"
  unfolding fire_job_webhooks_def fire_task_webhooks_def Let_def
  by (intro keeps_intros inv_intros)+

section \<open>Scheduling\<close>

lemma hoare_subtask:
  "hoare (fresh_inv env R) (build_subtask env c t cx j p now)
    (\<lambda>t' w. fresh_inv env (the (tk_id t') # R) w \<and> tk_id t' \<noteq> None) (fresh_inv env [])"
  unfolding build_subtask_def
  by (intro hoare_pure hoare_new_id hoare_ret) (simp add: as_subtask_def)

lemma hoare_collect:
  assumes "\<And>x R. hoare (fresh_inv env R) (f x) (\<lambda>t' w. fresh_inv env (the (tk_id t') # R) w \<and> tk_id t' \<noteq> None) (fresh_inv env [])"
  shows "hoare (fresh_inv env R) (eff_collect f xs)
    (\<lambda>ts w. fresh_inv env (map (\<lambda>t. the (tk_id t)) ts @ R) w \<and> (\<forall>t \<in> set ts. tk_id t \<noteq> None)) (fresh_inv env [])"
proof (induction xs arbitrary: R)
  case Nil
  then show ?case by (simp add: hoare_ret)
next
  case (Cons x xs)
  have "hoare (\<lambda>w. fresh_inv env (the (tk_id y) # R) w \<and> tk_id y \<noteq> None) (and_then (eff_collect f xs) (\<lambda>ys. ret (y # ys)))
    (\<lambda>ts w. fresh_inv env (map (\<lambda>t. the (tk_id t)) ts @ R) w \<and> (\<forall>t \<in> set ts. tk_id t \<noteq> None)) (fresh_inv env [])" for y
  proof (cases "tk_id y")
    case (Some i)
    show ?thesis
      by (rule hoare_pre [OF hoare_bind [OF Cons.IH [of "i # R"] hoare_ret]])
        (auto simp: Some elim: fresh_inv_sub)
  qed (simp add: hoare_def)
  then show ?case by (simp add: hoare_bind [OF assms])
qed

lemma keeps_rollback [inv_intros]: "keeps (fresh_inv env R) (rollback_failed_publish env ts e)"
  unfolding rollback_failed_publish_def by (intro keeps_intros inv_intros)

lemma hoare_publish_subtasks:
  "hoare (\<lambda>w. fresh_inv env (map (\<lambda>t. the (tk_id t)) ts @ R) w \<and> (\<forall>t \<in> set ts. tk_id t \<noteq> None))
    (create_and_publish_subtasks env ts) (\<lambda>_. fresh_inv env []) (fresh_inv env [])"
proof (cases "ts = []")
  case True
  then show ?thesis by (auto simp: create_and_publish_subtasks_def intro: hoare_ret fresh_inv_Nil)
next
  case False
  have "hoare (fresh_inv env []) (on_error (broker_publish_tasks env QUEUE_PENDING ts)
      (\<lambda>e. and_then (rollback_failed_publish env ts e) (\<lambda>_. throw e))) (\<lambda>_. fresh_inv env []) (fresh_inv env [])"
    by (intro hoare_keeps keeps_intros inv_intros)
  moreover have "hoare (\<lambda>w. fresh_inv env (map (\<lambda>t. the (tk_id t)) ts @ R) w \<and> (\<forall>t \<in> set ts. tk_id t \<noteq> None))
      (ds_do (create_tasks ts)) (\<lambda>_. fresh_inv env []) (fresh_inv env [])"
    using hoare_weaken [OF hoare_create_tasks [of env ts R] fresh_inv_Nil] .
  ultimately show ?thesis using False by (simp add: create_and_publish_subtasks_def hoare_bind)
qed

definition permuting :: "cenv \<Rightarrow> bool" where
  "permuting env \<longleftrightarrow> (\<forall>ts. mset (ce_par_bridge env ts) = mset ts)"

lemma bridged_fresh:
  assumes "permuting env" and "fresh_inv env (map (\<lambda>t. the (tk_id t)) ts @ R) w \<and> (\<forall>t \<in> set ts. tk_id t \<noteq> None)"
  shows "fresh_inv env (map (\<lambda>t. the (tk_id t)) (bridged env n ts) @ R) w \<and> (\<forall>t \<in> set (bridged env n ts). tk_id t \<noteq> None)"
proof -
  have m: "mset (bridged env n ts) = mset ts" using assms(1) by (simp add: bridged_def permuting_def)
  then have "mset (map (\<lambda>t. the (tk_id t)) (bridged env n ts) @ R) = mset (map (\<lambda>t. the (tk_id t)) ts @ R)" by simp
  then have "set (map (\<lambda>t. the (tk_id t)) (bridged env n ts) @ R) = set (map (\<lambda>t. the (tk_id t)) ts @ R)"
    "distinct (map (\<lambda>t. the (tk_id t)) (bridged env n ts) @ R) = distinct (map (\<lambda>t. the (tk_id t)) ts @ R)"
    using mset_eq_setD mset_eq_imp_distinct_iff by blast+
  note same = this
  have "fresh_inv env (map (\<lambda>t. the (tk_id t)) (bridged env n ts) @ R) w"
    by (rule fresh_inv_sub [OF conjunct1 [OF assms(2)]]) (simp_all only: same order_refl)
  moreover have "set (bridged env n ts) = set ts" using m by (rule mset_eq_setD)
  ultimately show ?thesis using assms(2) by simp
qed


abbreviation "safe env m \<equiv> keeps (fresh_inv env []) m"

lemma hoare_pair:
  "(\<And>a b. hoare P (f a b) Q E) \<Longrightarrow> hoare P (case x of (a, b) \<Rightarrow> f a b) Q E"
  by (cases x) simp

lemma keeps_running [inv_intros]: "keeps (fresh_inv env R) (mark_task_running env' i n)"
  "keeps (fresh_inv env R) (mark_each_task_running env' i k n)"
  unfolding mark_task_running_def mark_each_task_running_def by (intro inv_intros)+

lemma safe_parallel:
  assumes "permuting env" shows "safe env (schedule_parallel_task env t)"
proof -
  have publish: "hoare (fresh_inv env []) (and_then (eff_collect (\<lambda>t. build_subtask env ''parallel task'' t cx j p now) ts)
      (\<lambda>x. create_and_publish_subtasks env (bridged env n x))) (\<lambda>_. fresh_inv env []) (fresh_inv env [])"
    for ts cx j p now n
    by (rule hoare_bind [OF hoare_collect [OF hoare_subtask]])
       (rule hoare_pre [OF hoare_publish_subtasks [where R = "[]"] bridged_fresh [OF assms]])
  show ?thesis
    unfolding schedule_parallel_task_def build_parallel_subtasks_def and_then_assoc and_then_ret
      build_parallel_subtask_def Let_def
    by (rule keeps_of_hoare) (rule publish | rule hoare_pure | rule hoare_pair | rule hoare_plain | intro inv_intros)+
qed

lemma safe_each:
  assumes "permuting env" shows "safe env (schedule_each_task env t)"
proof -
  have "hoare (fresh_inv env []) (spawn_each_tasks env items tpl base var j i now) (\<lambda>_. fresh_inv env []) (fresh_inv env [])"
    for items tpl base var j i now
    unfolding spawn_each_tasks_def
  proof (rule hoare_bind [OF hoare_collect])
    fix x R
    show "hoare (fresh_inv env R) (case x of (ix, item) \<Rightarrow> build_subtask_with_base env ix item tpl base var j i now)
        (\<lambda>t' w. fresh_inv env (the (tk_id t') # R) w \<and> tk_id t' \<noteq> None) (fresh_inv env [])"
      unfolding build_subtask_with_base_def by (rule hoare_pair) (rule hoare_subtask)
  next
    fix x
    show "hoare (\<lambda>w. fresh_inv env (map (\<lambda>t. the (tk_id t)) x @ []) w \<and> (\<forall>t \<in> set x. tk_id t \<noteq> None))
        (create_and_publish_subtasks env (bridged env (length items) x)) (\<lambda>_. fresh_inv env []) (fresh_inv env [])"
      by (rule hoare_pre [OF hoare_publish_subtasks [where R = "[]"] bridged_fresh [OF assms]])
  qed
  note spawn = this
  show ?thesis
    unfolding schedule_each_task_def Let_def
    by (rule keeps_of_hoare) (intro hoare_pure hoare_pair hoare_plain inv_intros spawn)
qed

lemma safe_subjob: "safe env (schedule_subjob_task env t)"
  unfolding schedule_subjob_task_def Let_def by (intro keeps_intros inv_intros)

lemma safe_regular: "safe env (schedule_regular_task env t)"
  unfolding schedule_regular_task_def Let_def by (intro keeps_intros inv_intros)

lemma safe_schedule: "permuting env \<Longrightarrow> safe env (schedule_task env t)"
  unfolding schedule_task_def by (intro keeps_intros safe_parallel safe_each safe_subjob safe_regular)

section \<open>Handlers\<close>

lemma keeps_task_id_of [inv_intros]: "keeps I (task_id_of t e)"
  unfolding task_id_of_def by (intro keeps_intros)

lemma safe_pending: "permuting env \<Longrightarrow> safe env (handle_pending_task env t)"
  unfolding handle_pending_task_def skip_task_def
  by (intro keeps_intros inv_intros safe_schedule)

lemma safe_retry: "safe env (create_retry_task env t j now)"
  unfolding create_retry_task_def
  by (rule keeps_of_hoare, intro hoare_pure hoare_new_id hoare_created)
     (auto dest: evaluate_keeps simp: map_err_Inr intro: hoare_of_keeps inv_intros)

lemma hoare_if:
  "(b \<Longrightarrow> hoare P m Q E) \<Longrightarrow> (\<not> b \<Longrightarrow> hoare P m' Q E) \<Longrightarrow> hoare P (if b then m else m') Q E"
  by simp

lemma safe_top_level: "safe env (handle_top_level_task_completed env i)"
  unfolding handle_top_level_task_completed_def Let_def
  by (rule keeps_of_hoare, intro hoare_pure hoare_plain hoare_if hoare_new_id hoare_created inv_intros)
     (auto intro!: hoare_of_keeps hoare_plain inv_intros)


lemma safe_top_failed: "safe env (handle_top_level_task_failed env i e)"
  unfolding handle_top_level_task_failed_def by (intro keeps_intros inv_intros)

lemma keeps_count [inv_intros]:
  "key_preserving (\<lambda>u. Inr (cnt u)) \<Longrightarrow> keeps (fresh_inv env R) (count_subtask env' cnt fin u)"
  unfolding count_subtask_def by (intro keeps_intros inv_intros)

lemma safe_subtask_completed: "safe env (handle_subtask_completed env t p)"
  unfolding handle_subtask_completed_def handle_parallel_subtask_completed_def handle_each_subtask_completed_def
  by (intro keeps_intros inv_intros)

lemma safe_completed: "safe env (handle_task_completed env t)"
  unfolding handle_task_completed_def persist_completed_task_def route_completed_task_def
  by (intro keeps_intros inv_intros safe_subtask_completed safe_top_level) simp_all

lemma safe_fail_up: "safe env (fail_up n env t)"
proof (induction n arbitrary: t)
  case 0
  then show ?case by (simp add: keeps_intros)
next
  case (Suc n)
  then show ?case
    unfolding fail_up.simps persist_failed_task_def route_failed_task_def handle_subtask_failed_def
    by (intro keeps_intros inv_intros safe_top_failed) simp_all
qed

lemma safe_failed: "safe env (handle_task_failed env t)"
  using safe_fail_up unfolding handle_task_failed_def keeps_def by blast

lemma safe_error: "safe env (handle_error env t)"
  unfolding handle_error_def persist_task_error_def Let_def
  by (intro keeps_intros inv_intros safe_retry safe_failed) simp_all

lemma safe_started: "safe env (handle_started env t)"
  unfolding handle_started_def by (intro keeps_intros inv_intros)

lemma safe_redelivered: "safe env (handle_redelivered env t)"
  unfolding handle_redelivered_def Let_def by (intro keeps_intros inv_intros) simp_all

lemma safe_progress:
  "permuting env \<Longrightarrow> safe env (handle_task_progress env t)"
  unfolding handle_task_progress_def persist_task_progress_def
  by (cases "tk_state t"; simp; intro keeps_intros inv_intros safe_pending safe_completed safe_error) simp_all

lemma keeps_jh [inv_intros]:
  "keeps I (jh_some x m)" "keeps I m1 \<Longrightarrow> keeps I (jh_broker m1)" "keeps I m2 \<Longrightarrow> keeps I (as_message m2)"
  unfolding jh_some_def jh_broker_def as_message_def by (intro keeps_intros; assumption)+

lemma safe_cancel_tasks: "safe env (cancel_active_tasks env i)"
  unfolding cancel_active_tasks_def cancel_task_def cancel_task_affinity_def Let_def
  by (intro keeps_intros inv_intros)

lemma safe_cancel: "safe env (handle_cancel env j)"
  unfolding handle_cancel_def cancel_parent_job_def
  by (intro keeps_intros inv_intros safe_cancel_tasks)

lemma safe_fail_job: "safe env (fail_job env j)"
  unfolding fail_job_def publish_failed_parent_task_if_present_def
  by (intro keeps_intros inv_intros safe_cancel_tasks)

lemma safe_running: "safe env (mark_job_as_running env j)"
  unfolding mark_job_as_running_def Let_def by (intro keeps_intros inv_intros)

lemma safe_complete: "safe env (complete_job env j)"
  unfolding complete_job_def job_id_of_def publish_completed_parent_task_def publish_job_completed_event_def
  by (intro keeps_intros inv_intros)

lemma hoare_pending_task:
  assumes "\<And>t i. tk_id t = Some i \<Longrightarrow> hoare (fresh_inv env [i]) (f t) Q (fresh_inv env [])"
  shows "hoare (fresh_inv env []) (and_then (build_pending_job_task env b cx i p now) f) Q (fresh_inv env [])"
  unfolding build_pending_job_task_def and_then_assoc and_then_ret
  by (intro hoare_pure hoare_new_id) (simp add: assms)

lemma safe_start: "permuting env \<Longrightarrow> safe env (start_job env j)"
  unfolding start_job_def Let_def job_id_of_def transition_job_to_scheduled_def
  by (rule keeps_of_hoare, (rule hoare_pending_task | rule hoare_pure | rule hoare_created, assumption
        | rule hoare_plain | rule hoare_of_keeps | rule safe_pending, assumption | intro inv_intros)+)

lemma safe_restart: "safe env (restart_job env j)"
  unfolding restart_job_def job_id_of_def
  by (rule keeps_of_hoare, (rule hoare_pending_task | rule hoare_pure | rule hoare_created, assumption
        | rule hoare_plain | rule hoare_of_keeps | intro inv_intros)+)

lemma safe_job_event: "permuting env \<Longrightarrow> safe env (handle_job_event env j)"
  unfolding handle_job_event_def
  by (cases "jb_state j"; simp; intro keeps_intros inv_intros safe_start safe_restart safe_complete safe_cancel
      safe_fail_job safe_running)

lemma safe_heartbeat: "safe env (handle_heartbeat env n)"
  unfolding handle_heartbeat_def by (intro keeps_intros inv_intros)

lemma safe_log_part: "safe env (handle_log_part p)"
  unfolding handle_log_part_def by (intro inv_intros)

lemma safe_scheduled: "safe env (handle_scheduled_job env' sj)"
  unfolding handle_scheduled_job_def handle_active_def handle_paused_def Let_def
  by (cases "sc_state sj"; simp; intro keeps_intros inv_intros)

lemma safe_handlers:
  assumes "permuting env" shows "safe env (run_handler env scheduled_of h msg)"
proof -
  have "safe env (case (h, msg) of
          (H_Pending, M_Task t) \<Rightarrow> handle_pending_task env t
        | (H_Completed, M_Task t) \<Rightarrow> handle_task_completed env t
        | (H_Error, M_Task t) \<Rightarrow> handle_error env t
        | (H_Started, M_Task t) \<Rightarrow> handle_started env t
        | (H_Redelivered, M_Task t) \<Rightarrow> handle_redelivered env t
        | (H_Progress, M_Task t) \<Rightarrow> handle_task_progress env t
        | (H_Job, M_Job j) \<Rightarrow> handle_job_event env j
        | (H_Heartbeat, M_Node n) \<Rightarrow> handle_heartbeat env n
        | (H_LogPart, M_LogPart p) \<Rightarrow> handle_log_part p
        | (H_ScheduledJob, M_Event v) \<Rightarrow>
            and_then (lift_res (map_err E_Msg (scheduled_of v))) (handle_scheduled_job env)
        | _ \<Rightarrow> ret ())"
    using assms by (cases h; cases msg; simp; intro keeps_intros safe_pending safe_completed safe_error safe_started
        safe_redelivered safe_progress safe_job_event safe_heartbeat safe_log_part safe_scheduled)
  then show ?thesis unfolding run_handler_def keeps_def by (auto simp: ret_def)
qed

lemma safe_submit: "safe env (submit_job env' j)"
  unfolding submit_job_def Let_def by (intro keeps_intros inv_intros)

lemma safe_trigger: "safe env (trigger_scheduled_job env' sid)"
proof -
  have "safe env (with_lock k m)" if m: "safe env m" for k and m :: "unit act"
    unfolding keeps_def
  proof (intro allI impI)
    fix w assume w: "fresh_inv env [] w"
    have frame: "fresh_inv env [] w2 \<Longrightarrow> fresh_inv env [] (w2\<lparr>w_locker := l\<rparr>)"
      "fresh_inv env [] w2 \<Longrightarrow> fresh_inv env [] (w_locker_update g w2)" for w2 l g
      by (erule fresh_frame; simp)+
    obtain r l where al: "acquire_lock k (w_locker w) = (r, l)" by (cases "acquire_lock k (w_locker w)")
    obtain r' w2 where run: "m (w\<lparr>w_locker := l\<rparr>) = (r', w2)" by (cases "m (w\<lparr>w_locker := l\<rparr>)")
    have "fresh_inv env [] w2" by (rule keepsD [OF m frame(1) [OF w] run])
    then show "fresh_inv env [] (snd (with_lock k m w))"
      using al run frame w by (cases r) (simp_all add: with_lock_def)
  qed
  then show ?thesis
    unfolding trigger_scheduled_job_def Let_def
    by (intro keeps_intros inv_intros) (simp add: keeps_intros inv_intros)
qed


section \<open>Every reachable state\<close>

lemma start_inv: "fresh_inv env [] (snd (coordinator_start new_world))"
proof -
  have "safe env coordinator_start"
    unfolding coordinator_start_def subscribe_task_handler_def by (intro keeps_intros inv_intros)
  moreover have "look_task new_datastore i = None" for i by (simp add: look_task_def new_datastore_def)
  then have "fresh_inv env [] new_world" by (simp add: fresh_inv_def new_world_def)
  ultimately show ?thesis by (simp add: keeps_def)
qed

lemma step_inv:
  assumes "permuting env" and "fresh_inv env [] w" and "coord_step env scheduled_of w w'"
  shows "fresh_inv env [] w'"
proof -
  have safe: "fresh_inv env [] (snd (m w))" if "safe env m" for m :: "(world, 'e, 'b) eff"
    using that assms(2) by (simp add: keeps_def)
  have pub: "safe env (broker_publish_task env q t)" "safe env (broker_publish_job env j)"
    "safe env (broker_publish_event env topic v)" for q t j topic v by (intro inv_intros)+
  have frame: "fresh_inv env [] (w_bk_update f w)" "fresh_inv env [] (w_locker_update g w)"
    "fresh_inv env [] (snd (coordinator_stop w))" for f g
    using assms(2) by (auto simp: coordinator_stop_def modifies_def elim!: fresh_frame)
  from assms(3) show ?thesis
  proof cases
    case (deliver h msg)
    then show ?thesis using assms(2) safe_handlers [OF assms(1)] by (simp add: keeps_def)
  next
    case (report q t)
    then show ?thesis using assms(2) pub by (simp add: keeps_def)
  next
    case (job_event j)
    then show ?thesis using assms(2) pub by (simp add: keeps_def)
  next
    case (event topic v)
    then show ?thesis using assms(2) pub by (simp add: keeps_def)
  next
    case (submit j)
    then show ?thesis using assms(2) safe_submit by (simp add: keeps_def)
  next
    case (trigger sid)
    then show ?thesis using assms(2) safe_trigger by (simp add: keeps_def)
  qed (use frame in simp_all)
qed

text \<open>Whatever the order in which the coordinator's handlers run, and whatever workers and clients
  publish, as long as the ids drawn so far differ: every stored task is stored under its own id, which was drawn from
  \<open>new_short_uuid\<close>, and the tasks and the active tasks the datastore lists for a job are exactly
  the stored ones with that job id, each once.\<close>

theorem coordinator_consistent:
  "coord_reach env scheduled_of w \<Longrightarrow> permuting env \<Longrightarrow> inj_on (short_id env) {..<w_uuids w} \<Longrightarrow>
    (\<forall>i t. look_task (w_ds w) i = Some t \<longrightarrow> tk_id t = Some i \<and> i \<in> short_id env ` {..<w_uuids w}) \<and>
    (\<forall>j. \<exists>ts. get_all_tasks_for_job (ce_ids env) j (w_ds w) = (Inr ts, w_ds w) \<and> distinct (map tk_id ts) \<and>
      set ts = {t. (\<exists>i. look_task (w_ds w) i = Some t) \<and> tk_job_id t = Some j}) \<and>
    (\<forall>j. \<exists>ts. get_active_tasks (ce_ids env) j (w_ds w) = (Inr ts, w_ds w) \<and> distinct (map tk_id ts) \<and>
      set ts = {t. (\<exists>i. look_task (w_ds w) i = Some t) \<and> tk_job_id t = Some j \<and> is_active (tk_state t)})"
proof -
  assume reach: "coord_reach env scheduled_of w" and perm: "permuting env"
    and inj: "inj_on (short_id env) {..<w_uuids w}"
  from reach have "fresh_inv env [] w"
  proof (induction rule: coord_reach.induct)
    case start
    show ?case by (rule start_inv)
  next
    case (step w w')
    then show ?case using step_inv [OF perm] by blast
  qed
  then have inv: "ds_inv (w_ds w)" and ids: "\<forall>i. look_task (w_ds w) i \<noteq> None \<longrightarrow> i \<in> drawn env w"
    using inj by (auto simp: fresh_inv_def)
  have "look_task (w_ds w) i = Some t \<longrightarrow> tk_id t = Some i" for i t using inv by (simp add: ds_inv_def)
  then show ?thesis
    using ids tasks_for_job_exact [OF inv, of "ce_ids env" _ "\<lambda>_. True"]
      tasks_for_job_exact [OF inv, of "ce_ids env" _ task_is_active]
    by (auto simp: drawn_def get_all_tasks_for_job_def get_active_tasks_def asks_def task_is_active_def)
qed

text \<open>A job is submitted and its event delivered.\<close>

definition demo_task :: task where
  "demo_task = Task default_hdr None None None None None None"

definition demo_pending :: job where
  "demo_pending = default_job\<lparr>jb_id := Some demo_job_id, jb_task_count := 1, jb_created_at := Some 0,
     jb_tasks := Some [demo_task]\<rparr>"

definition demo_submitted :: world where
  "demo_submitted = snd (submit_job demo_env demo_pending (snd (coordinator_start new_world)))"

definition demo_started :: world where
  "demo_started = snd (run_handler demo_env (\<lambda>_. Inl []) H_Job (M_Job demo_pending) demo_submitted)"

lemma demo_submitted_facts:
  "look_job (w_ds demo_submitted) demo_job_id = Some demo_pending"
  "w_uuids demo_submitted = 0" "\<not> w_stopped demo_submitted" "look_task (w_ds demo_submitted) i = None"
  "(H_Job, M_Job demo_pending) \<in> set (bk_spawned (w_bk demo_submitted))"
proof -
  show "look_job (w_ds demo_submitted) demo_job_id = Some demo_pending" "w_uuids demo_submitted = 0"
    "\<not> w_stopped demo_submitted" by code_simp+
  have "ds_tasks (w_ds demo_submitted) = []" by code_simp
  then show "look_task (w_ds demo_submitted) i = None" by (simp add: look_task_def)
  have "bk_spawned (w_bk demo_submitted) = [(H_Job, M_Job demo_pending)]" by code_simp
  then show "(H_Job, M_Job demo_pending) \<in> set (bk_spawned (w_bk demo_submitted))" by simp
qed

lemma demo_started_reach: "coord_reach demo_env (\<lambda>_. Inl []) demo_started"
  unfolding demo_started_def
  by (rule coord_reach.step [OF coord_reach.step [OF coord_reach.start submit [where j = demo_pending]]])
     (use demo_submitted_facts(5) in \<open>auto simp: demo_submitted_def intro: deliver\<close>)

lemma demo_evaluated: "evaluate_task (ce_template demo_env cx) demo_task = Inr demo_task"
  by (simp add: demo_task_def eval_hdr_first_def eval_hdr_last_def eval_field_def eval_map_def eval_strings_def
      some_unless_empty_def default_hdr_def)

lemma regular_uuids:
  "parallel t = None \<Longrightarrow> each t = None \<Longrightarrow> subjob t = None \<Longrightarrow> \<not> should_skip_task t \<Longrightarrow>
    w_uuids (snd (handle_pending_task env t w)) = w_uuids w"
proof -
  have "keeps (\<lambda>w. w_uuids w = n) (schedule_regular_task env t)" for n
    unfolding schedule_regular_task_def Let_def
    by (intro keeps_intros)
       (simp_all add: keeps_def now_utc_def ds_do_run broker_publish_task_def broker_do_def Let_def
         split: prod.split option.split)
  then show "parallel t = None \<Longrightarrow> each t = None \<Longrightarrow> subjob t = None \<Longrightarrow> \<not> should_skip_task t \<Longrightarrow> ?thesis"
    by (simp add: handle_pending_task_def schedule_task_def keeps_def)
qed

lemma demo_started_uuids: "w_uuids demo_started = 1"
proof -
  let ?t = "upd_hdr (\<lambda>h. h\<lparr>th_id := Some (short_id demo_env 0), th_job_id := Some demo_job_id, th_state := TS_Pending,
         th_position := 1, th_created_at := Some (ce_now demo_env (w_clock demo_submitted))\<rparr>) demo_task"
  have j: "jb_tasks demo_pending = Some [demo_task]" "jb_id demo_pending = Some demo_job_id"
    "jb_state demo_pending = JS_Pending" "matching_webhooks demo_pending ev = []" for ev
    by (simp_all add: demo_pending_def default_job_def matching_webhooks_def)
  have t: "parallel ?t = None" "each ?t = None" "subjob ?t = None" "\<not> should_skip_task ?t" "tk_id ?t = Some (short_id demo_env 0)"
    by (simp_all add: demo_task_def should_skip_task_def default_hdr_def)
  let ?w = "demo_submitted\<lparr>w_clock := Suc (w_clock demo_submitted), w_ds := put_job demo_job_id
    (set_job_scheduled (ce_now demo_env (w_clock demo_submitted)) demo_pending) (w_ds demo_submitted), w_uuids := 1\<rparr>"
  obtain s where s: "ds_do (create_task ?t) ?w = (Inr (), ?w\<lparr>w_ds := s\<rparr>)"
    by (rule ds_create_task [OF t(5), of ?w])
  have same: "w_hooks_update (\<lambda>hs. hs) w = w" for w by simp
  have "start_job demo_env demo_pending demo_submitted = handle_pending_task demo_env ?t (?w\<lparr>w_ds := s\<rparr>)"
    using j s demo_submitted_facts(1,2)
    by (simp add: start_job_def list_get_def run_simps Let_def job_id_of_def transition_job_to_scheduled_def
        build_pending_job_task_def demo_evaluated new_id_run fire_job_webhooks_def same)
  then show ?thesis
    using j(3) demo_submitted_facts(3) regular_uuids [OF t(1-4), of demo_env "?w\<lparr>w_ds := s\<rparr>"]
    by (simp add: demo_started_def run_handler_def handle_job_event_def)
qed

theorem coordinator_consistent_witness:
  "\<exists>ts. get_all_tasks_for_job (ce_ids demo_env) demo_job_id (w_ds demo_started) = (Inr ts, w_ds demo_started) \<and>
     distinct (map tk_id ts)"
proof -
  have "permuting demo_env" by (simp add: permuting_def demo_env_def)
  moreover have "inj_on (short_id demo_env) {..<w_uuids demo_started}"
    unfolding demo_started_uuids by (simp add: lessThan_Suc)
  ultimately show ?thesis using coordinator_consistent [OF demo_started_reach] by blast
qed

end
