(* ===== verification/Timer_Wheel.thy ===== *)
theory Timer_Wheel
  imports Job_Model
begin

text \<open>
  The timer wheel (\<open>twerk-infrastructure/src/runtime/timer\<close>) over the in-memory persistence and signal
  registry. Durations are nanoseconds. What \<open>tokio\<close> runs in the background is part of the state: the
  spawned sleep tasks, each where it has got to, and the bounded channel to the fire handler. The
  random ids and the detour of a duration through a double are the argument \<open>timer_env\<close>.
\<close>

section \<open>Entries\<close>

datatype timer_state = TM_Pending | TM_Active | TM_Firing | TM_Cancelled | TM_Completed

datatype timer_entry_error =
    TE_MissingTimerId | TE_InvalidDuration string | TE_InvalidCronExpression string
  | TE_MissingExpirationTime | TE_MissingSignalId

fun timer_entry_error_display :: "timer_entry_error \<Rightarrow> string" where
  "timer_entry_error_display TE_MissingTimerId = ''timer ID is required''"
| "timer_entry_error_display (TE_InvalidDuration e) = ''invalid duration: '' @ e"
| "timer_entry_error_display (TE_InvalidCronExpression e) = ''invalid cron expression: '' @ e"
| "timer_entry_error_display TE_MissingExpirationTime = ''expiration time is required''"
| "timer_entry_error_display TE_MissingSignalId = ''signal ID is required for wait-for timer''"

record delay_timer =
  dt_timer_id :: string
  dt_duration :: nat
  dt_job_id :: string
  dt_task_id :: string
  dt_created_at :: time

record scheduled_timer =
  st_timer_id :: string
  st_cron_expression :: string
  st_job_id :: string
  st_task_id :: string
  st_created_at :: time

record wait_for_timer =
  wt_timer_id :: string
  wt_timeout :: nat
  wt_signal_id :: string
  wt_job_id :: string
  wt_task_id :: string
  wt_created_at :: time

datatype timer_variant = TV_Delay delay_timer | TV_Scheduled scheduled_timer | TV_WaitFor wait_for_timer

fun variant_timer_id :: "timer_variant \<Rightarrow> string" where
  "variant_timer_id (TV_Delay t) = dt_timer_id t"
| "variant_timer_id (TV_Scheduled t) = st_timer_id t"
| "variant_timer_id (TV_WaitFor t) = wt_timer_id t"

fun variant_job_id :: "timer_variant \<Rightarrow> string" where
  "variant_job_id (TV_Delay t) = dt_job_id t"
| "variant_job_id (TV_Scheduled t) = st_job_id t"
| "variant_job_id (TV_WaitFor t) = wt_job_id t"

fun variant_task_id :: "timer_variant \<Rightarrow> string" where
  "variant_task_id (TV_Delay t) = dt_task_id t"
| "variant_task_id (TV_Scheduled t) = st_task_id t"
| "variant_task_id (TV_WaitFor t) = wt_task_id t"

record timer_env =
  te_id :: "nat \<Rightarrow> string"
  te_seconds_f64 :: "nat \<Rightarrow> int"

fun expiration_time :: "timer_env \<Rightarrow> timer_variant \<Rightarrow> time option" where
  "expiration_time env (TV_Delay t) = Some (dt_created_at t + te_seconds_f64 env (dt_duration t))"
| "expiration_time env (TV_Scheduled _) = None"
| "expiration_time env (TV_WaitFor t) = Some (wt_created_at t + te_seconds_f64 env (wt_timeout t))"

definition variant_is_expired :: "timer_env \<Rightarrow> time \<Rightarrow> timer_variant \<Rightarrow> bool" where
  "variant_is_expired env now v = (case expiration_time env v of Some e \<Rightarrow> e \<le> now | None \<Rightarrow> False)"

record timer_entry =
  en_variant :: timer_variant
  en_state :: timer_state
  en_last_fired_at :: "time option"
  en_fire_count :: nat

definition pending_entry :: "timer_variant \<Rightarrow> timer_entry" where
  "pending_entry v = \<lparr>en_variant = v, en_state = TM_Pending, en_last_fired_at = None, en_fire_count = 0\<rparr>"

definition new_delay :: "string \<Rightarrow> time \<Rightarrow> nat \<Rightarrow> string \<Rightarrow> string \<Rightarrow> timer_entry_error + timer_entry" where
  "new_delay i now duration job_id task_id =
     (if duration = 0 then Inl (TE_InvalidDuration ''delay duration must be non-zero'')
      else Inr (pending_entry (TV_Delay \<lparr>dt_timer_id = i, dt_duration = duration, dt_job_id = job_id,
        dt_task_id = task_id, dt_created_at = now\<rparr>)))"

definition new_scheduled :: "string \<Rightarrow> time \<Rightarrow> string \<Rightarrow> string \<Rightarrow> string \<Rightarrow> timer_entry_error + timer_entry" where
  "new_scheduled i now cron job_id task_id =
     (if cron = [] then Inl (TE_InvalidCronExpression ''cron expression cannot be empty'')
      else Inr (pending_entry (TV_Scheduled \<lparr>st_timer_id = i, st_cron_expression = cron, st_job_id = job_id,
        st_task_id = task_id, st_created_at = now\<rparr>)))"

definition new_wait_for :: "string \<Rightarrow> time \<Rightarrow> nat \<Rightarrow> string \<Rightarrow> string \<Rightarrow> string \<Rightarrow> timer_entry_error + timer_entry" where
  "new_wait_for i now timeout signal job_id task_id =
     (if timeout = 0 then Inl (TE_InvalidDuration ''wait-for timeout must be non-zero'')
      else if signal = [] then Inl TE_MissingSignalId
      else Inr (pending_entry (TV_WaitFor \<lparr>wt_timer_id = i, wt_timeout = timeout, wt_signal_id = signal,
        wt_job_id = job_id, wt_task_id = task_id, wt_created_at = now\<rparr>)))"

abbreviation "en_id e \<equiv> variant_timer_id (en_variant e)"

section \<open>The wheel\<close>

record timer_signal =
  sg_signal_id :: string
  sg_timer_id :: string
  sg_job_id :: string
  sg_task_id :: string
  sg_fired_at :: time
  sg_is_timeout :: bool

record signal_data =
  sd_job_id :: string
  sd_task_id :: string
  sd_registered_at :: time

text \<open>
  A sleep task: asleep until its time, about to send its entry to the fire handler, or about to delete
  the persisted timer.
\<close>

datatype sleeper = Sleeping string time | Sending string timer_entry | Deleting string

record wheel =
  tw_now :: time
  tw_ids :: nat
  tw_timers :: "(string \<times> timer_entry) list"
  tw_saved :: "(string \<times> timer_entry) list"
  tw_sleepers :: "sleeper list"
  tw_channel :: "timer_entry list"
  tw_handler :: bool
  tw_waiters :: "(string \<times> signal_data) list"
  tw_sent :: "(timer_entry \<times> timer_signal \<times> bool) list"

definition channel_capacity :: nat where "channel_capacity = 100"

definition new_wheel :: "time \<Rightarrow> (string \<times> timer_entry) list \<Rightarrow> wheel" where
  "new_wheel now saved = \<lparr>tw_now = now, tw_ids = 0, tw_timers = [], tw_saved = saved, tw_sleepers = [],
     tw_channel = [], tw_handler = False, tw_waiters = [], tw_sent = []\<rparr>"

datatype wheel_error =
    WE_TimerNotFound string | WE_TimerAlreadyExists string | WE_InvalidTimerState string
  | WE_PersistenceError string | WE_SignalError string | WE_ShutdownError string

section \<open>Persistence and registry in memory\<close>

definition save_timer :: "timer_entry \<Rightarrow> wheel \<Rightarrow> wheel" where
  "save_timer e w = w\<lparr>tw_saved := AList.update (en_id e) e (tw_saved w)\<rparr>"

definition delete_timer :: "string \<Rightarrow> wheel \<Rightarrow> wheel" where
  "delete_timer i w = w\<lparr>tw_saved := AList.delete i (tw_saved w)\<rparr>"

definition update_timer_state :: "string \<Rightarrow> timer_state \<Rightarrow> wheel \<Rightarrow> wheel" where
  "update_timer_state i st w = (case map_of (tw_saved w) i of
     Some e \<Rightarrow> w\<lparr>tw_saved := AList.update i (e\<lparr>en_state := st\<rparr>) (tw_saved w)\<rparr> | None \<Rightarrow> w)"

definition list_timers :: "wheel \<Rightarrow> timer_entry list" where
  "list_timers w = map snd (tw_saved w)"

definition get_expired_timers :: "timer_env \<Rightarrow> wheel \<Rightarrow> timer_entry list" where
  "get_expired_timers env w =
     filter (\<lambda>e. case expiration_time env (en_variant e) of Some exp \<Rightarrow> exp \<le> tw_now w | None \<Rightarrow> False)
       (filter (\<lambda>e. en_state e = TM_Pending \<or> en_state e = TM_Active \<or> en_state e = TM_Firing) (list_timers w))"

definition register_waiter :: "string \<Rightarrow> string \<Rightarrow> string \<Rightarrow> wheel \<Rightarrow> wheel" where
  "register_waiter s j t w = w\<lparr>tw_waiters := AList.update s
     \<lparr>sd_job_id = j, sd_task_id = t, sd_registered_at = tw_now w\<rparr> (tw_waiters w)\<rparr>"

definition unregister_waiter :: "string \<Rightarrow> wheel \<Rightarrow> wheel" where
  "unregister_waiter s w = w\<lparr>tw_waiters := AList.delete s (tw_waiters w)\<rparr>"

definition is_registered :: "string \<Rightarrow> wheel \<Rightarrow> bool" where
  "is_registered s w \<longleftrightarrow> map_of (tw_waiters w) s \<noteq> None"

definition get_job_signals :: "string \<Rightarrow> wheel \<Rightarrow> string list" where
  "get_job_signals j w = map fst (filter (\<lambda>(_, d). sd_job_id d = j) (tw_waiters w))"

section \<open>Firing\<close>

definition fire_signal :: "time \<Rightarrow> timer_entry \<Rightarrow> timer_signal" where
  "fire_signal now e =
     \<lparr>sg_signal_id = (case en_variant e of TV_WaitFor t \<Rightarrow> wt_signal_id t | _ \<Rightarrow> en_id e),
      sg_timer_id = en_id e, sg_job_id = variant_job_id (en_variant e),
      sg_task_id = variant_task_id (en_variant e), sg_fired_at = now,
      sg_is_timeout = (case en_variant e of TV_WaitFor _ \<Rightarrow> True | _ \<Rightarrow> False)\<rparr>"

text \<open>The signal reaches a registered waiter or is an error that is only logged.\<close>

definition process_fire :: "timer_entry \<Rightarrow> wheel \<Rightarrow> wheel" where
  "process_fire e w =
     (let sg = fire_signal (tw_now w) e
      in w\<lparr>tw_sent := tw_sent w @ [(e, sg, is_registered (sg_signal_id sg) w)]\<rparr>)"

definition fire_handler_step :: "wheel \<Rightarrow> wheel" where
  "fire_handler_step w =
     (case tw_channel w of
        [] \<Rightarrow> w
      | e # es \<Rightarrow> if tw_handler w then process_fire e (w\<lparr>tw_channel := es\<rparr>) else w)"

section \<open>Starting\<close>

datatype start_outcome = Started | Start_Failed string | Start_Blocked

text \<open>
  \<open>recover_timers\<close> sends every expired timer into the channel. Nobody reads it yet, so that a
  send beyond its capacity waits forever.
\<close>

fun fire_timers :: "timer_entry list \<Rightarrow> wheel \<Rightarrow> bool \<times> wheel" where
  "fire_timers [] w = (True, w)"
| "fire_timers (e # es) w =
     (if length (tw_channel w) < channel_capacity \<or> tw_handler w
      then fire_timers es (w\<lparr>tw_channel := tw_channel w @ [e]\<rparr>) else (False, w))"

definition load_timers :: "wheel \<Rightarrow> wheel" where
  "load_timers w = w\<lparr>tw_timers := fold (\<lambda>e m. AList.update (en_id e) e m)
     (filter (\<lambda>e. en_state e = TM_Pending \<or> en_state e = TM_Active) (list_timers w)) (tw_timers w)\<rparr>"

definition start_wheel :: "timer_env \<Rightarrow> wheel \<Rightarrow> start_outcome \<times> wheel" where
  "start_wheel env w =
     (case fire_timers (get_expired_timers env w) w of
        (False, w1) \<Rightarrow> (Start_Blocked, w1)
      | (True, w1) \<Rightarrow>
          let w2 = load_timers w1
          in if tw_handler w2 then (Start_Failed ''fire receiver already taken'', w2)
             else (Started, w2\<lparr>tw_handler := True\<rparr>))"

section \<open>Scheduling and cancelling\<close>

definition add_timer :: "timer_entry \<Rightarrow> wheel \<Rightarrow> (wheel_error + unit) \<times> wheel" where
  "add_timer e w =
     (if map_of (tw_timers w) (en_id e) \<noteq> None then (Inl (WE_TimerAlreadyExists (en_id e)), w)
      else (Inr (), (save_timer e w)\<lparr>tw_timers := AList.update (en_id e) e (tw_timers w)\<rparr>))"

definition schedule_timer_entry :: "string \<Rightarrow> nat \<Rightarrow> wheel \<Rightarrow> (wheel_error + unit) \<times> wheel" where
  "schedule_timer_entry i duration w =
     (if map_of (tw_timers w) i = None then (Inl (WE_TimerNotFound i), w)
      else (Inr (), w\<lparr>tw_sleepers := tw_sleepers w @ [Sleeping i (tw_now w + int duration)]\<rparr>))"

definition schedule_entry ::
    "(timer_entry_error + timer_entry) \<Rightarrow> nat option \<Rightarrow> wheel \<Rightarrow> (wheel_error + string) \<times> wheel" where
  "schedule_entry r sleep w =
     (case r of
        Inl e \<Rightarrow> (Inl (WE_PersistenceError (timer_entry_error_display e)), w)
      | Inr e \<Rightarrow> (case add_timer e w of
          (Inl er, w1) \<Rightarrow> (Inl er, w1)
        | (Inr _, w1) \<Rightarrow> (case sleep of
            None \<Rightarrow> (Inr (en_id e), w1)
          | Some d \<Rightarrow> (case schedule_timer_entry (en_id e) d w1 of
              (Inl er, w2) \<Rightarrow> (Inl er, w2) | (Inr _, w2) \<Rightarrow> (Inr (en_id e), w2)))))"

definition draw_id :: "timer_env \<Rightarrow> wheel \<Rightarrow> string \<times> wheel" where
  "draw_id env w = (te_id env (tw_ids w), w\<lparr>tw_ids := Suc (tw_ids w)\<rparr>)"

definition schedule_delay :: "timer_env \<Rightarrow> nat \<Rightarrow> string \<Rightarrow> string \<Rightarrow> wheel \<Rightarrow> (wheel_error + string) \<times> wheel" where
  "schedule_delay env d j t w =
     (case draw_id env w of (i, w1) \<Rightarrow> schedule_entry (new_delay i (tw_now w) d j t) (Some d) w1)"

definition schedule_wait_for :: "timer_env \<Rightarrow> nat \<Rightarrow> string \<Rightarrow> string \<Rightarrow> string \<Rightarrow> wheel \<Rightarrow> (wheel_error + string) \<times> wheel" where
  "schedule_wait_for env d s j t w =
     (case draw_id env w of (i, w1) \<Rightarrow> schedule_entry (new_wait_for i (tw_now w) d s j t) (Some d) w1)"

definition schedule_cron :: "timer_env \<Rightarrow> string \<Rightarrow> string \<Rightarrow> string \<Rightarrow> wheel \<Rightarrow> (wheel_error + string) \<times> wheel" where
  "schedule_cron env c j t w =
     (case draw_id env w of (i, w1) \<Rightarrow> schedule_entry (new_scheduled i (tw_now w) c j t) None w1)"

definition cancel_timer :: "string \<Rightarrow> wheel \<Rightarrow> (wheel_error + unit) \<times> wheel" where
  "cancel_timer i w =
     (case map_of (tw_timers w) i of
        None \<Rightarrow> (Inl (WE_TimerNotFound i), w)
      | Some e \<Rightarrow>
          if en_state e \<noteq> TM_Pending \<and> en_state e \<noteq> TM_Active then (Inl (WE_InvalidTimerState i), w)
          else (Inr (), (update_timer_state i TM_Cancelled w)\<lparr>tw_timers := AList.delete i (tw_timers w)\<rparr>))"

text \<open>\<open>shutdown_tx\<close> is never set, so that no signal is sent.\<close>

definition shutdown_wheel :: "wheel \<Rightarrow> wheel" where
  "shutdown_wheel w = w\<lparr>tw_timers := []\<rparr>"

section \<open>The sleep tasks\<close>

text \<open>
  A task removes its timer and sends it while it holds the write lock of the timers (the guard lives
  until the end of the \<open>if let\<close>), so that whoever needs the lock waits while a task is sending.
\<close>

fun is_sending :: "sleeper \<Rightarrow> bool" where
  "is_sending (Sending i e) = True"
| "is_sending (Sleeping i d) = False"
| "is_sending (Deleting i) = False"

definition timers_locked :: "wheel \<Rightarrow> bool" where
  "timers_locked w = list_ex is_sending (tw_sleepers w)"

text \<open>One step of the \<open>n\<close>-th task; a send waits while the channel is full.\<close>

definition sleeper_next :: "sleeper \<Rightarrow> wheel \<Rightarrow> sleeper list \<times> wheel" where
  "sleeper_next s w =
     (case s of
        Sleeping i due \<Rightarrow>
          if due \<le> tw_now w \<and> \<not> timers_locked w then
            (case map_of (tw_timers w) i of
               Some e \<Rightarrow> ([Sending i e], w\<lparr>tw_timers := AList.delete i (tw_timers w)\<rparr>)
             | None \<Rightarrow> ([Deleting i], w))
          else ([s], w)
      | Sending i e \<Rightarrow>
          if length (tw_channel w) < channel_capacity
          then ([Deleting i], w\<lparr>tw_channel := tw_channel w @ [e]\<rparr>) else ([s], w)
      | Deleting i \<Rightarrow> ([], delete_timer i w))"

definition sleeper_step :: "nat \<Rightarrow> wheel \<Rightarrow> wheel" where
  "sleeper_step n w =
     (if n < length (tw_sleepers w) then
        (case sleeper_next (tw_sleepers w ! n) w of
           (new, w1) \<Rightarrow> w1\<lparr>tw_sleepers := take n (tw_sleepers w) @ new @ drop (Suc n) (tw_sleepers w)\<rparr>)
      else w)"

definition with_lock :: "(wheel \<Rightarrow> wheel) \<Rightarrow> wheel \<Rightarrow> wheel" where
  "with_lock f w = (if timers_locked w then w else f w)"

datatype wheel_step =
    WS_Delay nat string string | WS_WaitFor nat string string string | WS_Cron string string string
  | WS_Cancel string | WS_Sleeper nat | WS_Handler | WS_Wait nat
  | WS_Register string string string | WS_Unregister string | WS_Shutdown

fun wheel_after :: "timer_env \<Rightarrow> wheel_step \<Rightarrow> wheel \<Rightarrow> wheel" where
  "wheel_after env (WS_Delay d j t) w = with_lock (snd \<circ> schedule_delay env d j t) w"
| "wheel_after env (WS_WaitFor d s j t) w = with_lock (snd \<circ> schedule_wait_for env d s j t) w"
| "wheel_after env (WS_Cron c j t) w = with_lock (snd \<circ> schedule_cron env c j t) w"
| "wheel_after env (WS_Cancel i) w = with_lock (snd \<circ> cancel_timer i) w"
| "wheel_after env (WS_Sleeper n) w = sleeper_step n w"
| "wheel_after env WS_Handler w = fire_handler_step w"
| "wheel_after env (WS_Wait d) w = w\<lparr>tw_now := tw_now w + int d\<rparr>"
| "wheel_after env (WS_Register s j t) w = register_waiter s j t w"
| "wheel_after env (WS_Unregister s) w = unregister_waiter s w"
| "wheel_after env WS_Shutdown w = with_lock shutdown_wheel w"

definition wheel_run :: "timer_env \<Rightarrow> wheel_step list \<Rightarrow> wheel \<Rightarrow> wheel" where
  "wheel_run env = fold (wheel_after env)"


section \<open>What a run keeps\<close>

text \<open>When the code means a timer to fire, without the detour through a double.\<close>

fun due_time :: "timer_variant \<Rightarrow> time option" where
  "due_time (TV_Delay t) = Some (dt_created_at t + int (dt_duration t))"
| "due_time (TV_Scheduled _) = None"
| "due_time (TV_WaitFor t) = Some (wt_created_at t + int (wt_timeout t))"

definition due_by :: "timer_entry \<Rightarrow> time \<Rightarrow> bool" where
  "due_by e now = (case due_time (en_variant e) of None \<Rightarrow> False | Some d \<Rightarrow> d \<le> now)"

fun sending :: "sleeper \<Rightarrow> timer_entry list" where
  "sending (Sending i e) = [e]"
| "sending (Sleeping i d) = []"
| "sending (Deleting i) = []"

fun asleep :: "sleeper \<Rightarrow> (string \<times> time) list" where
  "asleep (Sleeping i d) = [(i, d)]"
| "asleep (Sending i e) = []"
| "asleep (Deleting i) = []"

text \<open>In the order in which the timers were taken out of the table.\<close>

definition fired :: "wheel \<Rightarrow> timer_entry list" where
  "fired w = map fst (tw_sent w) @ tw_channel w @ concat (map sending (tw_sleepers w))"

definition asleep_at :: "wheel \<Rightarrow> (string \<times> time) list" where
  "asleep_at w = concat (map asleep (tw_sleepers w))"

definition drawn :: "timer_env \<Rightarrow> wheel \<Rightarrow> string set" where
  "drawn env w = te_id env ` {..<tw_ids w}"

text \<open>
  No id is twice among the timers and those that fired, every timer with a due time has its sleep
  task and no other timer has one, and nothing fires early.
\<close>

definition table_ok :: "(string \<times> timer_entry) list \<Rightarrow> (string \<times> time) list \<Rightarrow> bool" where
  "table_ok T A \<longleftrightarrow>
     (\<forall>(i, e) \<in> set T. en_id e = i \<and> en_state e = TM_Pending \<and>
        (case due_time (en_variant e) of None \<Rightarrow> i \<notin> fst ` set A | Some d \<Rightarrow> (i, d) \<in> set A))"

definition ids_ok ::
    "string set \<Rightarrow> string set \<Rightarrow> (string \<times> timer_entry) list \<Rightarrow> timer_entry list \<Rightarrow> (string \<times> time) list \<Rightarrow> bool" where
  "ids_ok G D T F A \<longleftrightarrow>
     G \<subseteq> D \<and> G \<inter> (fst ` set T \<union> en_id ` set F) = {} \<and>
     distinct (map fst T @ map en_id F) \<and> distinct (map fst A) \<and>
     set (map fst T) \<subseteq> D \<and> set (map en_id F) \<subseteq> D \<and> set (map fst A) \<subseteq> D"

definition sent_ok :: "(timer_entry \<times> timer_signal \<times> bool) list \<Rightarrow> bool" where
  "sent_ok S \<longleftrightarrow> (\<forall>(e, sg, _) \<in> set S. due_by e (sg_fired_at sg))"

definition wheel_inv :: "timer_env \<Rightarrow> string set \<Rightarrow> wheel \<Rightarrow> bool" where
  "wheel_inv env G w \<longleftrightarrow>
     ids_ok G (drawn env w) (tw_timers w) (fired w) (asleep_at w) \<and>
     table_ok (tw_timers w) (asleep_at w) \<and>
     (\<forall>e \<in> set (fired w). due_by e (tw_now w)) \<and> sent_ok (tw_sent w) \<and>
     length (concat (map sending (tw_sleepers w))) \<le> 1 \<and> tw_handler w"

lemma due_by_mono: "due_by e t \<Longrightarrow> t \<le> t' \<Longrightarrow> due_by e t'"
  by (auto simp: due_by_def split: option.splits)

lemma keys_delete [simp]: "map fst (AList.delete k xs) = removeAll k (map fst xs)"
  by (induction xs) (auto simp: AList.delete_eq)

lemma set_delete: "x \<in> set (AList.delete k xs) \<longleftrightarrow> x \<in> set xs \<and> fst x \<noteq> k"
  by (auto simp: AList.delete_eq)

lemma update_fresh: "k \<notin> set (map fst xs) \<Longrightarrow> AList.update k v xs = xs @ [(k, v)]"
  by (induction xs) auto

lemma in_update: "x \<in> set (AList.update k v xs) \<Longrightarrow> x = (k, v) \<or> x \<in> set xs"
  by (induction xs) (auto split: if_splits)

lemma table_ok_delete: "table_ok T A \<Longrightarrow> table_ok (AList.delete i T) A"
  by (auto simp: table_ok_def set_delete)

lemma ids_ok_delete: "ids_ok G D T F A \<Longrightarrow> ids_ok G D (AList.delete i T) F A"
  by (force simp: ids_ok_def distinct_removeAll set_delete)

lemma ids_ok_mono: "ids_ok G D T F A \<Longrightarrow> D \<subseteq> D' \<Longrightarrow> ids_ok G D' T F A"
  by (auto simp: ids_ok_def)

lemma drawn_Suc: "drawn env (w\<lparr>tw_ids := Suc (tw_ids w)\<rparr>) = insert (te_id env (tw_ids w)) (drawn env w)"
  by (simp add: drawn_def lessThan_Suc)

lemma fresh_id: "inj_on (te_id env) {..<Suc (tw_ids w)} \<Longrightarrow> te_id env (tw_ids w) \<notin> drawn env w"
  by (force simp: inj_on_def drawn_def)

lemma inv_skip_id: "wheel_inv env G w \<Longrightarrow> wheel_inv env G (w\<lparr>tw_ids := Suc (tw_ids w)\<rparr>)"
  unfolding wheel_inv_def drawn_Suc fired_def asleep_at_def
  by (auto intro: ids_ok_mono)

lemma ids_ok_new: "ids_ok G D T F A \<Longrightarrow> i \<notin> D \<Longrightarrow> ids_ok G (insert i D) (T @ [(i, e)]) F A"
  by (auto simp: ids_ok_def)

lemma ids_ok_sleep: "ids_ok G (insert i D) T F A \<Longrightarrow> i \<notin> set (map fst A) \<Longrightarrow> ids_ok G (insert i D) T F (A @ [(i, d)])"
  by (auto simp: ids_ok_def)

lemma table_ok_new:
  assumes "table_ok T A" and "i \<notin> set (map fst T)" and "i \<notin> set (map fst A)"
    and "en_id e = i" and "en_state e = TM_Pending"
  shows "due_time (en_variant e) = None \<Longrightarrow> table_ok (T @ [(i, e)]) A"
    and "due_time (en_variant e) = Some d \<Longrightarrow> table_ok (T @ [(i, e)]) (A @ [(i, d)])"
  using assms by (force simp: table_ok_def split: option.splits)+

text \<open>A new entry with a fresh id; a sleep task of the same duration comes with a due time.\<close>

lemma inv_new_entry:
  assumes inv: "wheel_inv env G w" and inj: "inj_on (te_id env) {..<Suc (tw_ids w)}"
    and e: "variant_timer_id v = te_id env (tw_ids w)"
    and due: "due_time v = map_option (\<lambda>d. tw_now w + int d) sleep"
  shows "wheel_inv env G (snd (schedule_entry (Inr (pending_entry v)) sleep (w\<lparr>tw_ids := Suc (tw_ids w)\<rparr>)))"
proof -
  let ?i = "te_id env (tw_ids w)" and ?e = "pending_entry v"
  let ?w = "w\<lparr>tw_ids := Suc (tw_ids w)\<rparr>"
  have ids: "ids_ok G (drawn env w) (tw_timers w) (fired w) (asleep_at w)"
    and tab: "table_ok (tw_timers w) (asleep_at w)"
    using inv by (simp_all add: wheel_inv_def)
  have fresh: "?i \<notin> drawn env w" by (rule fresh_id [OF inj])
  then have new: "?i \<notin> set (map fst (tw_timers w))" "?i \<notin> set (map fst (asleep_at w))"
    using ids by (auto simp only: ids_ok_def)
  have ei: "en_id ?e = ?i" "en_state ?e = TM_Pending" "en_variant ?e = v" using e by (simp_all add: pending_entry_def)
  have none: "map_of (tw_timers w) ?i = None" using new(1) by (simp add: map_of_eq_None_iff)
  have ids': "ids_ok G (drawn env ?w) (tw_timers w @ [(?i, ?e)]) (fired w) (asleep_at w)"
    unfolding drawn_Suc by (rule ids_ok_new [OF ids fresh])
  show ?thesis
  proof (cases sleep)
    case None
    let ?w' = "snd (schedule_entry (Inr ?e) sleep ?w)"
    have "tw_timers ?w' = tw_timers w @ [(?i, ?e)]" "fired ?w' = fired w" "asleep_at ?w' = asleep_at w"
        "drawn env ?w' = drawn env ?w" "tw_now ?w' = tw_now w" "tw_sent ?w' = tw_sent w"
        "tw_sleepers ?w' = tw_sleepers w" "tw_handler ?w' = tw_handler w"
      using None none ei update_fresh [OF new(1)]
      by (simp_all add: schedule_entry_def add_timer_def save_timer_def fired_def asleep_at_def drawn_def)
    then show ?thesis
      using inv ids' table_ok_new(1) [OF tab new ei(1,2)] due None ei(3) by (simp add: wheel_inv_def)
  next
    case (Some d)
    let ?w' = "snd (schedule_entry (Inr ?e) sleep ?w)"
    have "tw_timers ?w' = tw_timers w @ [(?i, ?e)]" "fired ?w' = fired w"
        "asleep_at ?w' = asleep_at w @ [(?i, tw_now w + int d)]"
        "drawn env ?w' = drawn env ?w" "tw_now ?w' = tw_now w" "tw_sent ?w' = tw_sent w"
        "concat (map sending (tw_sleepers ?w')) = concat (map sending (tw_sleepers w))" "tw_handler ?w' = tw_handler w"
      using Some none ei update_fresh [OF new(1)]
      by (simp_all add: schedule_entry_def add_timer_def save_timer_def schedule_timer_entry_def fired_def
          asleep_at_def drawn_def map_of_append)
    then show ?thesis
      using inv ids_ok_sleep [OF ids' [unfolded drawn_Suc] new(2)] table_ok_new(2) [OF tab new ei(1,2)] due Some ei(3)
      by (simp add: wheel_inv_def drawn_Suc)
  qed
qed

lemma view_simps [simp]:
  "fired (tw_now_update f w) = fired w" "asleep_at (tw_now_update f w) = asleep_at w" "drawn env (tw_now_update f w) = drawn env w"
  "fired (tw_saved_update g w) = fired w" "asleep_at (tw_saved_update g w) = asleep_at w" "drawn env (tw_saved_update g w) = drawn env w"
  "fired (tw_waiters_update h w) = fired w" "asleep_at (tw_waiters_update h w) = asleep_at w"
  "drawn env (tw_waiters_update h w) = drawn env w"
  "fired (tw_timers_update k w) = fired w" "asleep_at (tw_timers_update k w) = asleep_at w" "drawn env (tw_timers_update k w) = drawn env w"
  "fired (tw_handler_update l w) = fired w" "asleep_at (tw_handler_update l w) = asleep_at w" "drawn env (tw_handler_update l w) = drawn env w"
  by (simp_all add: fired_def asleep_at_def drawn_def)

lemma inv_saved: "wheel_inv env G w \<Longrightarrow> wheel_inv env G (tw_saved_update f w)"
  by (simp add: wheel_inv_def)

lemma inv_remove: "wheel_inv env G w \<Longrightarrow> wheel_inv env G (w\<lparr>tw_timers := AList.delete i (tw_timers w)\<rparr>)"
  by (simp add: wheel_inv_def ids_ok_delete table_ok_delete)

lemma inv_cancel: assumes "wheel_inv env G w" shows "wheel_inv env G (snd (cancel_timer i w))"
proof -
  have "wheel_inv env G (update_timer_state i TM_Cancelled w)" "tw_timers (update_timer_state i TM_Cancelled w) = tw_timers w"
    using assms by (simp_all add: update_timer_state_def inv_saved split: option.split)
  from inv_remove [OF this(1), of i] this(2) show ?thesis
    using assms by (cases "map_of (tw_timers w) i") (simp_all add: cancel_timer_def)
qed

lemma ids_ok_nil: "ids_ok G D T F A \<Longrightarrow> ids_ok G D [] F A"
  by (auto simp: ids_ok_def)

lemma table_ok_nil: "table_ok [] A"
  by (simp add: table_ok_def)

lemma inv_shutdown: "wheel_inv env G w \<Longrightarrow> wheel_inv env G (shutdown_wheel w)"
  by (auto simp: wheel_inv_def shutdown_wheel_def table_ok_nil intro: ids_ok_nil)

lemma inv_handler: "wheel_inv env G w \<Longrightarrow> wheel_inv env G (fire_handler_step w)"
  by (cases "tw_channel w")
    (auto simp: wheel_inv_def fire_handler_step_def process_fire_def fired_def asleep_at_def drawn_def
      sent_ok_def fire_signal_def Let_def)

lemma inv_wait: "wheel_inv env G w \<Longrightarrow> wheel_inv env G (w\<lparr>tw_now := tw_now w + int d\<rparr>)"
  unfolding wheel_inv_def by (auto intro: due_by_mono)

lemma inv_waiters: "wheel_inv env G w \<Longrightarrow> wheel_inv env G (tw_waiters_update f w)"
  by (simp add: wheel_inv_def)

lemma cancelled_gone:
  assumes "wheel_inv env G w" and "cancel_timer i w = (Inr (), w')"
  shows "wheel_inv env (insert i G) w'"
proof -
  have "i \<in> fst ` set (tw_timers w)" using assms(2)
    by (auto simp: cancel_timer_def map_of_eq_None_iff split: option.splits if_splits
        dest!: map_of_SomeD intro: rev_image_eqI)
  moreover have "wheel_inv env G w'" using inv_cancel [OF assms(1), of i] assms(2) by simp
  moreover have "tw_timers w' = AList.delete i (tw_timers w)" "fired w' = fired w" "drawn env w' = drawn env w"
    using assms(2) by (auto simp: cancel_timer_def update_timer_state_def split: option.splits if_splits)
  ultimately show ?thesis
    using assms(1) by (auto simp: wheel_inv_def ids_ok_def set_delete)
qed

section \<open>The steps of the sleep tasks\<close>

lemma unlocked: "\<not> timers_locked w \<longleftrightarrow> concat (map sending (tw_sleepers w)) = []"
proof -
  have "is_sending s \<longleftrightarrow> sending s \<noteq> []" for s by (cases s) auto
  then show ?thesis by (auto simp: timers_locked_def list_ex_iff)
qed

lemma sleeper_split:
  assumes "n < length (tw_sleepers w)"
  obtains xs s ys where "tw_sleepers w = xs @ s # ys" "length xs = n" "tw_sleepers w ! n = s"
  using assms id_take_nth_drop [OF assms] by (metis length_take min.absorb4 nth_append_length)

lemma table_ok_take:
  assumes "table_ok T (A1 @ (i, d) # A2)" and "distinct (map fst (A1 @ (i, d) # A2))"
  shows "table_ok (AList.delete i T) (A1 @ A2)"
unfolding table_ok_def
proof (clarify, intro conjI)
  fix j e assume je: "(j, e) \<in> set (AList.delete i T)"
  then have j: "j \<noteq> i" and old: "en_id e = j \<and> en_state e = TM_Pending \<and>
      (case due_time (en_variant e) of None \<Rightarrow> j \<notin> fst ` set (A1 @ (i, d) # A2) | Some d' \<Rightarrow> (j, d') \<in> set (A1 @ (i, d) # A2))"
    using assms(1) unfolding table_ok_def set_delete by auto
  show "en_id e = j" "en_state e = TM_Pending" using old by simp_all
  show "case due_time (en_variant e) of None \<Rightarrow> j \<notin> fst ` set (A1 @ A2) | Some d' \<Rightarrow> (j, d') \<in> set (A1 @ A2)"
    using old j by (cases "due_time (en_variant e)") auto
qed

lemma delete_absent: "map_of T i = None \<Longrightarrow> AList.delete i T = T"
  by (force simp: AList.delete_eq map_of_eq_None_iff filter_id_conv)

text \<open>The entry the task of \<open>i\<close> takes out is due.\<close>

lemma taken_due:
  assumes "table_ok T (A1 @ (i, d) # A2)" and "distinct (map fst (A1 @ (i, d) # A2))"
    and "map_of T i = Some e" and "d \<le> now"
  shows "due_by e now" and "en_id e = i"
proof -
  have "(i, e) \<in> set T" using assms(3) by (rule map_of_SomeD)
  then have *: "en_id e = i" "case due_time (en_variant e) of None \<Rightarrow> i \<notin> fst ` set (A1 @ (i, d) # A2)
      | Some d' \<Rightarrow> (i, d') \<in> set (A1 @ (i, d) # A2)"
    using assms(1) by (auto simp: table_ok_def)
  show "en_id e = i" by (fact *(1))
  have "due_time (en_variant e) = Some d"
  proof (cases "due_time (en_variant e)")
    case None
    then show ?thesis using *(2) by simp
  next
    case (Some d')
    then have "(i, d') \<in> set (A1 @ (i, d) # A2)" using *(2) by simp
    then have "d' = d" using eq_key_imp_eq_value [OF assms(2), of i d' d] by simp
    then show ?thesis using Some by simp
  qed
  then show "due_by e now" using assms(4) by (simp add: due_by_def)
qed

lemma ids_ok_take:
  assumes "ids_ok G D T F (A1 @ (i, d) # A2)" and "map_of T i = Some e" and "en_id e = i"
  shows "ids_ok G D (AList.delete i T) (F @ [e]) (A1 @ A2)"
proof -
  have i: "i \<in> fst ` set T" using assms(2) by (force dest: map_of_SomeD)
  have keys: "fst ` set (AList.delete i T) = fst ` set T - {i}" by (auto simp: set_delete)
  have "i \<in> D" "i \<notin> G" "i \<notin> en_id ` set F" using assms(1) i by (auto simp: ids_ok_def)
  then show ?thesis
    using assms(1,3) by (auto simp: ids_ok_def keys distinct_removeAll)
qed

lemma inv_sleeper: assumes inv: "wheel_inv env G w" shows "wheel_inv env G (sleeper_step n w)"
proof (cases "n < length (tw_sleepers w)")
  case False
  then show ?thesis using inv by (simp add: sleeper_step_def)
next
  case True
  then obtain xs s ys where w: "tw_sleepers w = xs @ s # ys" "length xs = n" "tw_sleepers w ! n = s"
    by (rule sleeper_split)
  have step: "sleeper_step n w = (case sleeper_next s w of (new, w1) \<Rightarrow> w1\<lparr>tw_sleepers := xs @ new @ ys\<rparr>)"
    using w by (auto simp: sleeper_step_def)
  show ?thesis
  proof (cases s)
    case (Sleeping i d)
    have A: "asleep_at w = concat (map asleep xs) @ (i, d) # concat (map asleep ys)"
      using w(1) Sleeping by (simp add: asleep_at_def)
    have tab: "table_ok (tw_timers w) (concat (map asleep xs) @ (i, d) # concat (map asleep ys))"
      and dis: "distinct (map fst (concat (map asleep xs) @ (i, d) # concat (map asleep ys)))"
      using inv A by (simp_all add: wheel_inv_def ids_ok_def)
    show ?thesis
    proof (cases "d \<le> tw_now w \<and> \<not> timers_locked w")
      case False
      then have "sleeper_next s w = ([s], w)" using Sleeping by (simp only: sleeper_next_def sleeper.case if_False)
      then have "sleeper_step n w = w" using step w(1) by simp
      then show ?thesis using inv by simp
    next
      case True
      then have "concat (map sending (tw_sleepers w)) = []" by (simp add: unlocked)
      then have none: "concat (map sending xs) = []" "concat (map sending ys) = []" "sending s = []"
        unfolding w(1) by simp_all
      show ?thesis
      proof (cases "map_of (tw_timers w) i")
        case None
        then have "sleeper_step n w = w\<lparr>tw_sleepers := xs @ Deleting i # ys\<rparr>"
          using Sleeping step True by (simp add: sleeper_next_def)
        moreover have "table_ok (tw_timers w) (concat (map asleep xs) @ concat (map asleep ys))"
          using table_ok_take [OF tab dis] delete_absent [OF None] by simp
        ultimately show ?thesis
          using inv w(1) Sleeping A by (auto simp: wheel_inv_def ids_ok_def fired_def drawn_def asleep_at_def)
      next
        case (Some e)
        then have "sleeper_step n w = w\<lparr>tw_timers := AList.delete i (tw_timers w), tw_sleepers := xs @ Sending i e # ys\<rparr>"
          using Sleeping step True by (simp add: sleeper_next_def)
        moreover from this have "fired (sleeper_step n w) = fired w @ [e]" "drawn env (sleeper_step n w) = drawn env w"
            "asleep_at (sleeper_step n w) = concat (map asleep xs) @ concat (map asleep ys)"
            "length (concat (map sending (tw_sleepers (sleeper_step n w)))) = 1"
          using w(1) Sleeping by (simp_all add: fired_def drawn_def asleep_at_def none del: concat_eq_Nil_conv)
        moreover have "ids_ok G (drawn env w) (AList.delete i (tw_timers w)) (fired w @ [e])
            (concat (map asleep xs) @ concat (map asleep ys))"
          using inv unfolding wheel_inv_def A
          by (elim conjE, intro ids_ok_take [OF _ Some taken_due(2) [OF tab dis Some conjunct1 [OF True]]])
        moreover note table_ok_take [OF tab dis] taken_due(1) [OF tab dis Some conjunct1 [OF True]]
        ultimately show ?thesis
          using inv by (simp add: wheel_inv_def)
      qed
    qed
  next
    case (Sending i e)
    then have none: "concat (map sending xs) = []" "concat (map sending ys) = []"
      using inv w(1) by (simp_all add: wheel_inv_def)
    show ?thesis
    proof (cases "length (tw_channel w) < channel_capacity")
      case True
      then have "sleeper_step n w = w\<lparr>tw_channel := tw_channel w @ [e], tw_sleepers := xs @ Deleting i # ys\<rparr>"
        using Sending step by (simp add: sleeper_next_def)
      then have "fired (sleeper_step n w) = fired w" "asleep_at (sleeper_step n w) = asleep_at w"
          "drawn env (sleeper_step n w) = drawn env w" "concat (map sending (tw_sleepers (sleeper_step n w))) = []"
          "tw_timers (sleeper_step n w) = tw_timers w" "tw_now (sleeper_step n w) = tw_now w"
          "tw_sent (sleeper_step n w) = tw_sent w" "tw_handler (sleeper_step n w) = tw_handler w"
        using w(1) Sending by (simp_all add: fired_def drawn_def asleep_at_def none del: concat_eq_Nil_conv)
      then show ?thesis using inv by (simp add: wheel_inv_def del: concat_eq_Nil_conv)
    next
      case False
      then have "sleeper_step n w = w" using Sending step w(1) by (simp add: sleeper_next_def)
      then show ?thesis using inv by simp
    qed
  next
    case (Deleting i)
    then show ?thesis
      using inv w(1) step by (auto simp: wheel_inv_def sleeper_next_def delete_timer_def fired_def drawn_def asleep_at_def)
  qed
qed


section \<open>Whole runs\<close>

lemma inv_schedule:
  assumes "wheel_inv env G w" and "inj_on (te_id env) {..<Suc (tw_ids w)}"
  shows "wheel_inv env G (snd (schedule_delay env d j t w))"
    and "wheel_inv env G (snd (schedule_wait_for env d sg j t w))"
    and "wheel_inv env G (snd (schedule_cron env c j t w))"
  using assms inv_skip_id [OF assms(1)]
  by (simp_all add: schedule_delay_def schedule_wait_for_def schedule_cron_def draw_id_def new_delay_def
      new_wait_for_def new_scheduled_def inv_new_entry [unfolded o_def])
    (simp_all add: schedule_entry_def)

lemma ids_mono: "tw_ids w \<le> tw_ids (wheel_after env a w)"
proof (cases a)
  case (WS_Sleeper n)
  then show ?thesis
    by (auto simp: sleeper_step_def sleeper_next_def delete_timer_def split: option.splits sleeper.splits)
qed (auto simp: with_lock_def schedule_delay_def schedule_wait_for_def schedule_cron_def draw_id_def schedule_entry_def
    add_timer_def save_timer_def schedule_timer_entry_def cancel_timer_def update_timer_state_def shutdown_wheel_def
    register_waiter_def unregister_waiter_def fire_handler_step_def process_fire_def Let_def
    split: sum.splits option.splits list.splits)

lemma ids_grow: "tw_ids w \<le> tw_ids (wheel_run env as w)"
proof (induction as arbitrary: w)
  case (Cons a as)
  then show ?case using ids_mono [of w env a] by (force simp: wheel_run_def intro: order_trans)
qed (simp add: wheel_run_def)


lemma ids_schedule:
  "tw_ids (snd (schedule_delay env d j t w)) = Suc (tw_ids w)"
  "tw_ids (snd (schedule_wait_for env d sg j t w)) = Suc (tw_ids w)"
  "tw_ids (snd (schedule_cron env c j t w)) = Suc (tw_ids w)"
  by (auto simp: schedule_delay_def schedule_wait_for_def schedule_cron_def draw_id_def schedule_entry_def
    add_timer_def save_timer_def schedule_timer_entry_def split: sum.splits option.splits)

lemma inv_after:
  assumes "wheel_inv env G w" and "inj_on (te_id env) {..<tw_ids (wheel_after env a w)}"
  shows "wheel_inv env G (wheel_after env a w)"
  using assms
  by (cases a)
    (auto simp: with_lock_def ids_schedule inv_schedule inv_cancel inv_sleeper inv_handler inv_wait inv_shutdown
      register_waiter_def unregister_waiter_def inv_waiters simp del: lessThan_Suc split: if_splits)

lemma inv_run:
  "wheel_inv env G w \<Longrightarrow> inj_on (te_id env) {..<tw_ids (wheel_run env as w)} \<Longrightarrow> wheel_inv env G (wheel_run env as w)"
proof (induction as arbitrary: w)
  case (Cons a as)
  have eq: "wheel_run env (a # as) w = wheel_run env as (wheel_after env a w)" by (simp add: wheel_run_def)
  have "tw_ids (wheel_after env a w) \<le> tw_ids (wheel_run env (a # as) w)" unfolding eq by (rule ids_grow)
  then have "inj_on (te_id env) {..<tw_ids (wheel_after env a w)}"
    using Cons.prems(2) by (auto intro: inj_on_subset)
  then have "wheel_inv env G (wheel_after env a w)" by (rule inv_after [OF Cons.prems(1)])
  then show ?case using Cons.IH Cons.prems(2) unfolding eq by blast
qed (simp add: wheel_run_def)

lemma wheel_run_append: "wheel_run env (as @ bs) w = wheel_run env bs (wheel_run env as w)"
  by (simp add: wheel_run_def)

definition fresh_wheel :: "timer_env \<Rightarrow> time \<Rightarrow> wheel" where
  "fresh_wheel env now = snd (start_wheel env (new_wheel now []))"

lemma fresh_started: "start_wheel env (new_wheel now []) = (Started, (new_wheel now [])\<lparr>tw_handler := True\<rparr>)"
  by (simp add: start_wheel_def get_expired_timers_def list_timers_def load_timers_def new_wheel_def)

lemma inv_fresh: "wheel_inv env {} (fresh_wheel env now)"
  unfolding fresh_wheel_def fresh_started
  by (simp add: wheel_inv_def new_wheel_def fired_def asleep_at_def ids_ok_def table_ok_def sent_ok_def)

text \<open>C19. From a wheel started with nothing persisted, in any interleaving of schedules, cancellations, sleep
  tasks and handler, no timer fires twice, none before its time, and none after a cancellation that
  succeeded.\<close>

theorem timer_fires_once:
  assumes "cancel_timer i (wheel_run env as (fresh_wheel env now)) = (r, w1)" and "w = wheel_run env bs w1"
    and "inj_on (te_id env) {..<tw_ids w}"
  shows "distinct (map (\<lambda>(e, _). en_id e) (tw_sent w)) \<and>
     (\<forall>(e, sg, _) \<in> set (tw_sent w). due_by e (sg_fired_at sg)) \<and>
     (r = Inr () \<longrightarrow> i \<notin> (\<lambda>(e, _). en_id e) ` set (tw_sent w))"
proof -
  let ?w0 = "wheel_run env as (fresh_wheel env now)"
  have "tw_ids w1 = tw_ids ?w0"
    using assms(1) by (auto simp: cancel_timer_def update_timer_state_def split: option.splits if_splits)
  then have "{..<tw_ids ?w0} \<subseteq> {..<tw_ids w}" using ids_grow [of w1 env bs] assms(2) by auto
  then have inv0: "wheel_inv env {} ?w0"
    using inv_run [OF inv_fresh] assms(3) by (blast intro: inj_on_subset)
  have inv1: "wheel_inv env (if r = Inr () then {i} else {}) w1"
    using cancelled_gone [OF inv0] inv_cancel [OF inv0, of i] assms(1) by auto
  have "wheel_inv env (if r = Inr () then {i} else {}) w"
    using inv_run [OF inv1] assms(2,3) by blast
  then show ?thesis
    by (auto simp: wheel_inv_def ids_ok_def sent_ok_def fired_def case_prod_unfold distinct_map o_def
        intro: comp_inj_on split: if_splits)
qed


theorem timer_fires_once_witness:
  "(\<lambda>S. distinct (map (\<lambda>(e, _). en_id e) S) \<and> length S = 1) (tw_sent (wheel_run \<lparr>te_id = \<lambda>n. replicate n CHR ''t'', te_seconds_f64 = int\<rparr>
     [WS_Wait 5, WS_Sleeper 0, WS_Sleeper 0, WS_Handler, WS_Sleeper 0, WS_Sleeper 0]
     (wheel_run \<lparr>te_id = \<lambda>n. replicate n CHR ''t'', te_seconds_f64 = int\<rparr>
       [WS_Delay 5 ''j'' ''a''] (fresh_wheel \<lparr>te_id = \<lambda>n. replicate n CHR ''t'', te_seconds_f64 = int\<rparr> 0))))"
  (is "(\<lambda>S. distinct (map (\<lambda>(e, _). en_id e) S) \<and> length S = 1) (tw_sent ?w)")
proof -
  let ?env = "\<lparr>te_id = \<lambda>n. replicate n CHR ''t'', te_seconds_f64 = int\<rparr>"
  have c: "cancel_timer ''x'' (wheel_run ?env [WS_Delay 5 ''j'' ''a''] (fresh_wheel ?env 0)) =
      (Inl (WE_TimerNotFound ''x''), wheel_run ?env [WS_Delay 5 ''j'' ''a''] (fresh_wheel ?env 0))"
    by code_simp
  have "inj_on (te_id ?env) {..<tw_ids ?w}"
    by (auto simp: inj_on_def)
  from timer_fires_once [OF c refl this]
  have once: "distinct (map (\<lambda>(e, _). en_id e) (tw_sent ?w))" by blast
  have "map (\<lambda>(e, _). en_id e) (tw_sent ?w) = [[]]" by code_simp
  then have "length (map (\<lambda>(e, _). en_id e) (tw_sent ?w)) = 1" by simp
  then show ?thesis by (intro conjI once) simp
qed

section \<open>Every timer with a due time can fire\<close>

definition helpful :: "wheel_step list \<Rightarrow> bool" where
  "helpful as \<longleftrightarrow> (\<forall>a \<in> set as. a = WS_Handler \<or> (\<exists>n. a = WS_Sleeper n) \<or> (\<exists>d. a = WS_Wait d))"

text \<open>The handler empties the channel.\<close>

lemma drain:
  "tw_handler w \<Longrightarrow> \<exists>S. wheel_run env (replicate (length (tw_channel w)) WS_Handler) w = w\<lparr>tw_channel := [], tw_sent := S\<rparr>"
proof (induction "tw_channel w" arbitrary: w)
  case Nil
  then show ?case by (intro exI [of _ "tw_sent w"]) (simp add: wheel_run_def flip: Nil.hyps)
next
  case (Cons e es)
  let ?w = "fire_handler_step w"
  obtain S1 where S1: "?w = w\<lparr>tw_channel := es, tw_sent := S1\<rparr>"
    using Cons.hyps(2) [symmetric] Cons.prems by (simp add: fire_handler_step_def process_fire_def Let_def)
  then have w: "es = tw_channel ?w" "tw_handler ?w" "\<And>S. ?w\<lparr>tw_channel := [], tw_sent := S\<rparr> = w\<lparr>tw_channel := [], tw_sent := S\<rparr>"
    using Cons.prems by simp_all
  have "length (tw_channel w) = Suc (length (tw_channel ?w))" using Cons.hyps(2) w(1) by (metis length_Cons)
  moreover obtain S where "wheel_run env (replicate (length (tw_channel ?w)) WS_Handler) ?w = ?w\<lparr>tw_channel := [], tw_sent := S\<rparr>"
    using Cons.hyps(1) [OF w(1,2)] by blast
  ultimately show ?case using w(3) by (intro exI [of _ S]) (simp add: wheel_run_def)
qed


lemma wheel_run_list: "wheel_run env [] w = w" "wheel_run env (a # as) w = wheel_run env as (wheel_after env a w)"
  by (simp_all add: wheel_run_def)

text \<open>Once the channel is empty, whoever holds the lock can send and release it.\<close>

lemma unlock:
  assumes "tw_handler w" and "length (concat (map sending (tw_sleepers w))) \<le> 1"
  shows "\<exists>as. helpful as \<and> (let w' = wheel_run env as w in
     \<not> timers_locked w' \<and> tw_channel w' = [] \<and> tw_timers w' = tw_timers w \<and> asleep_at w' = asleep_at w \<and>
     tw_handler w' \<and> tw_now w' = tw_now w)"
proof -
  obtain S where S: "wheel_run env (replicate (length (tw_channel w)) WS_Handler) w = w\<lparr>tw_channel := [], tw_sent := S\<rparr>"
    using drain [OF assms(1)] by blast
  show ?thesis
  proof (cases "timers_locked w")
    case False
    then show ?thesis
      using S assms(1) by (intro exI [of _ "replicate (length (tw_channel w)) WS_Handler"])
        (simp add: helpful_def timers_locked_def asleep_at_def)
  next
    case True
    then obtain s where "s \<in> set (tw_sleepers w)" "is_sending s" by (auto simp: timers_locked_def list_ex_iff)
    then obtain i e where s: "s = Sending i e" by (auto elim!: is_sending.elims(2))
    obtain n where n: "n < length (tw_sleepers w)" "tw_sleepers w ! n = s"
      using \<open>s \<in> set (tw_sleepers w)\<close> by (auto simp: in_set_conv_nth)
    obtain xs ys where w: "tw_sleepers w = xs @ s # ys" "length xs = n"
      using n by (metis sleeper_split)
    have none: "concat (map sending xs) = []" "concat (map sending ys) = []"
      using assms(2) w(1) s by simp_all
    let ?as = "replicate (length (tw_channel w)) WS_Handler @ [WS_Sleeper n] @ [WS_Handler]"
    obtain S' where "wheel_run env ?as w = w\<lparr>tw_sleepers := xs @ Deleting i # ys, tw_channel := [], tw_sent := S'\<rparr>"
      using S w s assms(1) n
      by (auto simp: wheel_run_append wheel_run_list sleeper_step_def sleeper_next_def channel_capacity_def
          fire_handler_step_def process_fire_def Let_def)
    moreover have "\<not> timers_locked (w\<lparr>tw_sleepers := xs @ Deleting i # ys, tw_channel := [], tw_sent := S'\<rparr>)" for S'
      unfolding unlocked using none by (simp del: concat_eq_Nil_conv)
    ultimately show ?thesis
      using assms(1) w(1) s by (intro exI [of _ ?as]) (auto simp: helpful_def asleep_at_def)
  qed
qed

lemma fire_one:
  assumes "\<not> timers_locked w" "tw_channel w = []" "tw_handler w" "map_of (tw_timers w) i = Some e"
    and "(i, d) \<in> set (asleep_at w)"
  shows "\<exists>as. helpful as \<and> e \<in> fst ` set (tw_sent (wheel_run env as w))"
proof -
  obtain s where s: "s \<in> set (tw_sleepers w)" "(i, d) \<in> set (asleep s)" using assms(5) by (auto simp: asleep_at_def)
  have s2: "s = Sleeping i d" by (rule sleeper.exhaust [of s]) (use s(2) in auto)
  obtain n where n: "n < length (tw_sleepers w)" "tw_sleepers w ! n = s"
    using s(1) by (auto simp: in_set_conv_nth)
  obtain xs ys where w: "tw_sleepers w = xs @ s # ys" "length xs = n"
    using n by (metis sleeper_split)
  obtain k where k: "d \<le> tw_now w + int k" by (rule that [of "nat (d - tw_now w)"]) simp
  let ?as = "[WS_Wait k] @ [WS_Sleeper n] @ [WS_Sleeper n] @ [WS_Handler]"
  let ?w1 = "w\<lparr>tw_now := tw_now w + int k\<rparr>"
  have 1: "wheel_after env (WS_Sleeper n) ?w1 =
      ?w1\<lparr>tw_timers := AList.delete i (tw_timers w), tw_sleepers := xs @ Sending i e # ys\<rparr>"
    using assms(1,4) w s2 k by (auto simp: sleeper_step_def sleeper_next_def timers_locked_def)
  have 2: "wheel_after env (WS_Sleeper n) (?w1\<lparr>tw_timers := T, tw_sleepers := xs @ Sending i e # ys\<rparr>) =
      ?w1\<lparr>tw_timers := T, tw_channel := [e], tw_sleepers := xs @ Deleting i # ys\<rparr>" for T
    using assms(2) w(2) by (auto simp: sleeper_step_def sleeper_next_def channel_capacity_def)
  have "e \<in> fst ` set (tw_sent (wheel_run env ?as w))"
    using assms(3)
    by (simp add: wheel_run_append wheel_run_list 1 2 wheel_after.simps(6,7) fire_handler_step_def process_fire_def Let_def
        del: wheel_after.simps(5))
  then show ?thesis by (intro exI [of _ ?as]) (auto simp: helpful_def)
qed

text \<open>C20. From a wheel started with nothing persisted, a timer of the table that has a due time is never
  stuck: waiting, the sleep tasks and the handler alone bring it to its waiters, whatever else is in
  progress. Timers scheduled by cron have no sleep task.\<close>

theorem timer_can_fire:
  assumes "w = wheel_run env as (fresh_wheel env now)" and "inj_on (te_id env) {..<tw_ids w}"
    and "map_of (tw_timers w) i = Some e" and "due_time (en_variant e) \<noteq> None"
  shows "\<exists>bs. helpful bs \<and> e \<in> fst ` set (tw_sent (wheel_run env bs w))"
proof -
  have inv: "wheel_inv env {} w" using inv_run [OF inv_fresh] assms(1,2) by blast
  obtain d where d: "(i, d) \<in> set (asleep_at w)"
    using inv assms(4) map_of_SomeD [OF assms(3)] by (fastforce simp: wheel_inv_def table_ok_def)
  obtain bs where bs: "helpful bs" "let w' = wheel_run env bs w in
     \<not> timers_locked w' \<and> tw_channel w' = [] \<and> tw_timers w' = tw_timers w \<and> asleep_at w' = asleep_at w \<and>
     tw_handler w' \<and> tw_now w' = tw_now w"
    using unlock [of w env] inv by (auto simp: wheel_inv_def)
  obtain cs where "helpful cs" "e \<in> fst ` set (tw_sent (wheel_run env cs (wheel_run env bs w)))"
    using fire_one [of "wheel_run env bs w" i e d env] bs(2) d assms(3) by (auto simp: Let_def)
  then show ?thesis using bs(1) by (intro exI [of _ "bs @ cs"]) (auto simp: helpful_def wheel_run_append)
qed

theorem timer_can_fire_witness:
  "map_of (tw_timers (wheel_run \<lparr>te_id = \<lambda>n. replicate n CHR ''t'', te_seconds_f64 = int\<rparr>
     [WS_WaitFor 7 ''s'' ''j'' ''a''] (fresh_wheel \<lparr>te_id = \<lambda>n. replicate n CHR ''t'', te_seconds_f64 = int\<rparr> 0))) [] \<noteq> None \<and>
   (\<exists>bs. helpful bs \<and> tw_sent (wheel_run \<lparr>te_id = \<lambda>n. replicate n CHR ''t'', te_seconds_f64 = int\<rparr> bs
     (wheel_run \<lparr>te_id = \<lambda>n. replicate n CHR ''t'', te_seconds_f64 = int\<rparr>
     [WS_WaitFor 7 ''s'' ''j'' ''a''] (fresh_wheel \<lparr>te_id = \<lambda>n. replicate n CHR ''t'', te_seconds_f64 = int\<rparr> 0))) \<noteq> [])"
proof -
  let ?env = "\<lparr>te_id = \<lambda>n. replicate n CHR ''t'', te_seconds_f64 = int\<rparr>"
  let ?w = "wheel_run ?env [WS_WaitFor 7 ''s'' ''j'' ''a''] (fresh_wheel ?env 0)"
  have inj: "inj_on (te_id ?env) {..<tw_ids ?w}" by (auto simp: inj_on_def)
  have e: "map_of (tw_timers ?w) [] = Some (pending_entry (TV_WaitFor \<lparr>wt_timer_id = [], wt_timeout = 7,
      wt_signal_id = ''s'', wt_job_id = ''j'', wt_task_id = ''a'', wt_created_at = 0\<rparr>))"
    by code_simp
  have "due_time (en_variant (pending_entry (TV_WaitFor \<lparr>wt_timer_id = [], wt_timeout = 7,
      wt_signal_id = ''s'', wt_job_id = ''j'', wt_task_id = ''a'', wt_created_at = 0\<rparr>))) \<noteq> None"
    by (simp add: pending_entry_def)
  from timer_can_fire [OF refl inj e this] show ?thesis using e by auto
qed

section \<open>Recovered timers\<close>

definition recovery_ok :: "string set \<Rightarrow> timer_entry set \<Rightarrow> wheel \<Rightarrow> bool" where
  "recovery_ok R E w \<longleftrightarrow> (\<forall>e \<in> set (fired w). en_id e \<in> R \<longrightarrow> e \<in> E) \<and>
     fst ` set (asleep_at w) \<inter> R = {} \<and> (\<forall>(i, e) \<in> set (tw_timers w). en_id e = i)"


lemma recovery_entry:
  assumes "recovery_ok R E w" and "te_id env (tw_ids w) \<notin> R" and "variant_timer_id v = te_id env (tw_ids w)"
  shows "recovery_ok R E (snd (schedule_entry (Inr (pending_entry v)) sleep (w\<lparr>tw_ids := Suc (tw_ids w)\<rparr>)))"
  using assms
  by (auto simp: recovery_ok_def schedule_entry_def add_timer_def save_timer_def schedule_timer_entry_def pending_entry_def
      fired_def asleep_at_def dest!: in_update split: option.splits)

lemma recovery_skip: "recovery_ok R E w \<Longrightarrow> recovery_ok R E (w\<lparr>tw_ids := Suc (tw_ids w)\<rparr>)"
  by (simp add: recovery_ok_def fired_def asleep_at_def)


lemma recovery_sleeper:
  assumes "recovery_ok R E w"
  shows "recovery_ok R E (sleeper_step n w)"
proof (cases "n < length (tw_sleepers w)")
  case False
  then show ?thesis using assms by (simp add: sleeper_step_def)
next
  case True
  then obtain xs s ys where w: "tw_sleepers w = xs @ s # ys" "length xs = n" "tw_sleepers w ! n = s"
    by (rule sleeper_split)
  have "s = Sleeping i d \<Longrightarrow> map_of (tw_timers w) i = Some e \<Longrightarrow> en_id e \<notin> R" for i d e
    using assms w(1) by (auto simp: recovery_ok_def asleep_at_def dest: map_of_SomeD)
  then show ?thesis
    using assms w
    by (cases s)
      (auto simp: sleeper_step_def sleeper_next_def recovery_ok_def fired_def asleep_at_def delete_timer_def set_delete
        split: option.splits)
qed

lemma recovery_after:
  assumes "recovery_ok R E w" and "te_id env ` {..<tw_ids (wheel_after env a w)} \<inter> R = {}"
  shows "recovery_ok R E (wheel_after env a w)"
proof -
  have new: "tw_ids (wheel_after env a w) = Suc (tw_ids w) \<Longrightarrow> te_id env (tw_ids w) \<notin> R"
    using assms(2) by auto
  have sched: "recovery_ok R E (snd (schedule_delay env d j t w))" "recovery_ok R E (snd (schedule_wait_for env d sg j t w))"
      "recovery_ok R E (snd (schedule_cron env c j t w))" if "te_id env (tw_ids w) \<notin> R" for d j t sg c
    using assms(1) that recovery_skip [OF assms(1)]
    by (simp_all add: schedule_delay_def schedule_wait_for_def schedule_cron_def draw_id_def new_delay_def
        new_wait_for_def new_scheduled_def recovery_entry)
      (simp_all add: schedule_entry_def)
  have cancel: "recovery_ok R E (snd (cancel_timer i w))" for i
    using assms(1)
    by (cases "map_of (tw_timers w) i"; cases "map_of (tw_saved w) i")
      (auto simp: recovery_ok_def cancel_timer_def update_timer_state_def set_delete)
  have handler: "recovery_ok R E (fire_handler_step w)"
    using assms(1) by (cases "tw_channel w")
      (auto simp: recovery_ok_def fire_handler_step_def process_fire_def fired_def asleep_at_def Let_def)
  have rest: "recovery_ok R E (tw_now_update f w)" "recovery_ok R E (tw_waiters_update g w)" "recovery_ok R E (shutdown_wheel w)" for f g
    using assms(1) by (simp_all add: recovery_ok_def shutdown_wheel_def)
  show ?thesis
    using new assms(1)
    by (cases a)
      (auto simp: with_lock_def ids_schedule sched cancel handler recovery_sleeper rest register_waiter_def
        unregister_waiter_def)
qed

lemma recovery_run:
  "recovery_ok R E w \<Longrightarrow> te_id env ` {..<tw_ids (wheel_run env as w)} \<inter> R = {} \<Longrightarrow> recovery_ok R E (wheel_run env as w)"
proof (induction as arbitrary: w)
  case (Cons a as)
  have eq: "wheel_run env (a # as) w = wheel_run env as (wheel_after env a w)" by (simp add: wheel_run_def)
  have "tw_ids (wheel_after env a w) \<le> tw_ids (wheel_run env (a # as) w)" unfolding eq by (rule ids_grow)
  then have "te_id env ` {..<tw_ids (wheel_after env a w)} \<subseteq> te_id env ` {..<tw_ids (wheel_run env (a # as) w)}" by auto
  then have "te_id env ` {..<tw_ids (wheel_after env a w)} \<inter> R = {}" using Cons.prems(2) by blast
  then have "recovery_ok R E (wheel_after env a w)" by (rule recovery_after [OF Cons.prems(1)])
  then show ?case using Cons.IH Cons.prems(2) unfolding eq by blast
qed (simp add: wheel_run_def)

lemma fire_timers_frame:
  "fire_timers es w = (b, w') \<Longrightarrow> \<exists>us. set us \<subseteq> set es \<and> w' = w\<lparr>tw_channel := tw_channel w @ us\<rparr> \<and> (b \<longrightarrow> us = es)"
proof (induction es w arbitrary: b w' rule: fire_timers.induct)
  case (2 e es w)
  show ?case
  proof (cases "length (tw_channel w) < channel_capacity \<or> tw_handler w")
    case True
    then obtain us where "set us \<subseteq> set es" "w' = w\<lparr>tw_channel := (tw_channel w @ [e]) @ us\<rparr>" "b \<longrightarrow> us = es"
      using 2 by fastforce
    then show ?thesis by (intro exI [of _ "e # us"]) auto
  qed (use 2 in \<open>auto intro: exI [of _ "[]"]\<close>)
qed (auto intro: exI [of _ "[]"])

lemma load_keys:
  "(\<forall>(i, e) \<in> set T. en_id e = i) \<Longrightarrow> \<forall>(i, e) \<in> set (fold (\<lambda>e m. AList.update (en_id e) e m) es T). en_id e = i"
proof (induction es arbitrary: T)
  case (Cons e es)
  have "\<forall>x \<in> set (AList.update (en_id e) e T). en_id (snd x) = fst x"
    using Cons.prems by (auto dest!: in_update)
  then show ?case using Cons.IH by (simp add: case_prod_unfold)
qed simp

text \<open>A timer recovered at start has no sleep task: of the persisted timers only those already expired at
  start ever fire, whatever is scheduled or awaited afterwards. The start itself never returns when
  more timers have expired than the channel holds, because its handler is not running yet.\<close>

theorem recovered_only_expired:
  assumes "start_wheel env (new_wheel now saved) = (st, w0)"
    and "te_id env ` {..<tw_ids (wheel_run env as w0)} \<inter> en_id ` snd ` set saved = {}"
  shows "(st = Start_Blocked \<longleftrightarrow> channel_capacity < length (get_expired_timers env (new_wheel now saved))) \<and>
     (\<forall>e \<in> fst ` set (tw_sent (wheel_run env as w0)). en_id e \<in> en_id ` snd ` set saved \<longrightarrow>
        e \<in> set (get_expired_timers env (new_wheel now saved)))"
proof
  let ?n = "new_wheel now saved" and ?R = "en_id ` snd ` set saved"
  let ?E = "set (get_expired_timers env (new_wheel now saved))"
  obtain b w1 where f: "fire_timers (get_expired_timers env ?n) ?n = (b, w1)" by (cases "fire_timers (get_expired_timers env ?n) ?n")
  then obtain us where us: "set us \<subseteq> ?E" "w1 = ?n\<lparr>tw_channel := tw_channel ?n @ us\<rparr>"
    using fire_timers_frame by blast
  have n: "fired ?n = []" "asleep_at ?n = []" "tw_timers ?n = []" "tw_handler ?n = False"
    by (simp_all add: new_wheel_def fired_def asleep_at_def)
  have "fired w1 = us" "asleep_at w1 = []" "tw_timers w1 = []"
    using n by (simp_all add: us(2) new_wheel_def fired_def asleep_at_def)
  moreover have "w0 = w1 \<or> w0 = load_timers w1 \<or> w0 = (load_timers w1)\<lparr>tw_handler := True\<rparr>"
    using assms(1) f by (cases b) (auto simp: start_wheel_def Let_def split: if_splits)
  moreover have "\<forall>(i, e) \<in> set (tw_timers (load_timers w1)). en_id e = i"
    using load_keys [of "tw_timers w1"] \<open>tw_timers w1 = []\<close> by (simp add: load_timers_def)
  moreover have "fired (load_timers w1) = fired w1" "asleep_at (load_timers w1) = asleep_at w1"
    by (simp_all add: load_timers_def)
  ultimately have "recovery_ok ?R ?E w0"
    using us(1) by (elim disjE) (auto simp: recovery_ok_def)
  from recovery_run [OF this assms(2)]
  show "\<forall>e \<in> fst ` set (tw_sent (wheel_run env as w0)). en_id e \<in> ?R \<longrightarrow> e \<in> ?E"
    by (auto simp: recovery_ok_def fired_def)
  have "fst (fire_timers es w) \<longleftrightarrow> length (tw_channel w) + length es \<le> channel_capacity \<or> es = []"
    if "\<not> tw_handler w" for es w
    using that by (induction es w rule: fire_timers.induct) auto
  from this [of ?n "get_expired_timers env ?n"]
  have "b \<longleftrightarrow> length (get_expired_timers env ?n) \<le> channel_capacity"
    using f n(4) by (auto simp: new_wheel_def)
  then show "st = Start_Blocked \<longleftrightarrow> channel_capacity < length (get_expired_timers env ?n)"
    using assms(1) f by (auto simp: start_wheel_def Let_def split: bool.splits if_splits)
qed

theorem recovered_only_expired_witness:
  "''a'' \<notin> en_id ` fst ` set (tw_sent (wheel_run \<lparr>te_id = \<lambda>n. replicate n CHR ''t'', te_seconds_f64 = int\<rparr> [WS_Wait 100, WS_Sleeper 0, WS_Handler]
     (snd (start_wheel \<lparr>te_id = \<lambda>n. replicate n CHR ''t'', te_seconds_f64 = int\<rparr> (new_wheel 2
       [(''a'', pending_entry (TV_Delay \<lparr>dt_timer_id = ''a'', dt_duration = 7, dt_job_id = ''j'', dt_task_id = ''k'',
          dt_created_at = 0\<rparr>))])))))"
proof -
  let ?env = "\<lparr>te_id = \<lambda>n. replicate n CHR ''t'', te_seconds_f64 = int\<rparr>"
  let ?saved = "[(''a'', pending_entry (TV_Delay \<lparr>dt_timer_id = ''a'', dt_duration = 7, dt_job_id = ''j'', dt_task_id = ''k'',
          dt_created_at = 0\<rparr>))]"
  let ?s = "snd (start_wheel ?env (new_wheel 2 ?saved))"
  let ?w = "wheel_run ?env [WS_Wait 100, WS_Sleeper 0, WS_Handler] ?s"
  have ids: "tw_ids ?w = 0" by code_simp
  have none: "get_expired_timers ?env (new_wheel 2 ?saved) = []" by code_simp
  have disj: "te_id ?env ` {..<tw_ids ?w} \<inter> en_id ` snd ` set ?saved = {}" unfolding ids by simp
  have "start_wheel ?env (new_wheel 2 ?saved) = (fst (start_wheel ?env (new_wheel 2 ?saved)), ?s)" by (rule prod.collapse [symmetric])
  from recovered_only_expired [OF this disj]
  have "e \<in> fst ` set (tw_sent ?w) \<Longrightarrow> en_id e \<notin> en_id ` snd ` set ?saved" for e unfolding none by auto
  then show ?thesis by (force simp: pending_entry_def)
qed

end
