(* ===== verification/Expr_Parser.thy ===== *)
theory Expr_Parser
  imports Twerk_Prelude
begin

text \<open>
  The expression front end of \<open>twerk-compiler\<close> (\<open>lexer.rs\<close>, \<open>expr_ast.rs\<close>, \<open>expr_parser.rs\<close>,
  \<open>source_map.rs\<close>, \<open>error.rs\<close>): tokens with their place in the source, and the parser, written as the
  code composes it. A string is its bytes. The matching of token patterns is generated by
  \<open>logos\<close> and is a parameter. The combinators of \<open>winnow\<close> the parser calls are the five definitions of
  their own section; where a failed parse leaves the input, which only the place of the error
  depends on, is a parameter again.
\<close>

section \<open>Places\<close>

record source_location =
  sl_line :: nat
  sl_column :: nat

record source_span =
  sp_start :: nat
  sp_end :: nat

definition span_len :: "source_span \<Rightarrow> nat" where
  "span_len s = sp_end s - sp_start s"

definition span_is_empty :: "source_span \<Rightarrow> bool" where
  "span_is_empty s \<longleftrightarrow> sp_start s \<ge> sp_end s"

datatype compiler_error =
    CE_InvalidUtf8 string | CE_Lex nat nat string | CE_Parse nat nat string

text \<open>\<open>LineStarts::new\<close>: the offset after every newline, and the start of the source.\<close>

fun newline_indices :: "nat \<Rightarrow> string \<Rightarrow> nat list" where
  "newline_indices i [] = []"
| "newline_indices i (c # cs) = (if c = CHR 0x0A then i # newline_indices (Suc i) cs else newline_indices (Suc i) cs)"

definition line_starts :: "string \<Rightarrow> nat list" where
  "line_starts source = 0 # map (\<lambda>i. i + 1) (newline_indices 0 source)"

definition location :: "nat list \<Rightarrow> nat \<Rightarrow> source_location" where
  "location starts offset =
     (let line_index = length (takeWhile (\<lambda>start. start \<le> offset) starts) - 1;
          line_start = (if line_index < length starts then starts ! line_index else 0)
      in \<lparr>sl_line = line_index + 1, sl_column = offset - line_start + 1\<rparr>)"

section \<open>Tokens\<close>

datatype token =
    T_Dollar | T_Dot | T_Eq | T_Neq | T_Gte | T_Lte | T_Gt | T_Lt | T_And | T_Or | T_Not | T_Plus | T_Minus
  | T_Star | T_Slash | T_Percent | T_LParen | T_RParen | T_LBracket | T_RBracket | T_Comma | T_Colon
  | T_True | T_False | T_Null | T_Length | T_Contains | T_Exists | T_As
  | T_Number string | T_String string | T_Ident string

record token_span =
  ts_bytes :: source_span
  ts_start :: source_location
  ts_end :: source_location

record spanned_token =
  st_token :: token
  st_span :: token_span

text \<open>What the generated matcher says of a range: the fixed token, or the pattern whose callback builds it.\<close>

datatype token_match = M_Fixed token | M_Number | M_String | M_Ident

definition unquote_string :: "string \<Rightarrow> string" where
  "unquote_string source =
     (case source of
        c # rest \<Rightarrow> if c = CHR 0x22 \<and> rest \<noteq> [] \<and> last rest = CHR 0x22 then butlast rest else source
      | [] \<Rightarrow> source)"

fun match_token :: "token_match \<Rightarrow> string \<Rightarrow> token" where
  "match_token (M_Fixed t) frag = t"
| "match_token M_Number frag = T_Number frag"
| "match_token M_String frag = T_String (unquote_string frag)"
| "match_token M_Ident frag = T_Ident frag"

definition make_spanned ::
    "string \<Rightarrow> nat list \<Rightarrow> token_match option \<Rightarrow> nat \<Rightarrow> nat \<Rightarrow> compiler_error + spanned_token" where
  "make_spanned source lines tok lo hi =
     (let frag = take (hi - lo) (drop lo source); start = location lines lo
      in case tok of
           Some t \<Rightarrow> Inr \<lparr>st_token = match_token t frag,
             st_span = \<lparr>ts_bytes = \<lparr>sp_start = lo, sp_end = hi\<rparr>, ts_start = start, ts_end = location lines hi\<rparr>\<rparr>
         | None \<Rightarrow> Inl (CE_Lex (sl_line start) (sl_column start) frag))"

record front_env =
  fe_logos :: "string \<Rightarrow> (token_match option \<times> nat \<times> nat) list"
  fe_fail_at :: "spanned_token list \<Rightarrow> nat"

fun lex_all :: "string \<Rightarrow> nat list \<Rightarrow> (token_match option \<times> nat \<times> nat) list \<Rightarrow> compiler_error + spanned_token list" where
  "lex_all source lines [] = Inr []"
| "lex_all source lines ((tok, lo, hi) # ms) =
     (case make_spanned source lines tok lo hi of
        Inl e \<Rightarrow> Inl e
      | Inr t \<Rightarrow> (case lex_all source lines ms of Inl e \<Rightarrow> Inl e | Inr ts \<Rightarrow> Inr (t # ts)))"

definition lex_expression :: "front_env \<Rightarrow> string \<Rightarrow> compiler_error + spanned_token list" where
  "lex_expression env source = lex_all source (line_starts source) (fe_logos env source)"

section \<open>Syntax trees\<close>

datatype literal = L_Number string | L_String string | L_Bool bool | L_Null
datatype function_name = F_Length | F_Contains | F_Exists | F_Ident string
datatype unary_op = U_Not
datatype binary_op = B_Or | B_And | B_Eq | B_Neq | B_Gt | B_Lt | B_Gte | B_Lte | B_Plus | B_Minus

datatype expr = Expr (expr_kind: expr_kind) (expr_span: source_span)
  and expr_kind =
    E_Literal literal | E_SlotAccess "string list" | E_FunctionCall function_name "expr list"
  | E_Unary unary_op expr | E_Binary binary_op expr expr | E_Paren expr

section \<open>The combinators\<close>

type_synonym 'a parser = "spanned_token list \<Rightarrow> ('a \<times> spanned_token list) option"

definition one_of :: "(token \<Rightarrow> bool) \<Rightarrow> spanned_token parser" where
  "one_of p ts = (case ts of t # rest \<Rightarrow> if p (st_token t) then Some (t, rest) else None | [] \<Rightarrow> None)"

definition alt :: "'a parser \<Rightarrow> 'a parser \<Rightarrow> 'a parser" where
  "alt p q ts = (case p ts of Some r \<Rightarrow> Some r | None \<Rightarrow> q ts)"

definition opt :: "'a parser \<Rightarrow> 'a option parser" where
  "opt p ts = (case p ts of Some (a, rest) \<Rightarrow> Some (Some a, rest) | None \<Rightarrow> Some (None, ts))"

text \<open>\<open>repeat(0..)\<close>: a parser that succeeds without consuming is an error.\<close>

function repeat :: "'b parser \<Rightarrow> ('a \<Rightarrow> 'b \<Rightarrow> 'a) \<Rightarrow> 'a \<Rightarrow> 'a parser" where
  "repeat p f acc ts =
     (case p ts of
        None \<Rightarrow> Some (acc, ts)
      | Some (b, rest) \<Rightarrow> if length rest < length ts then repeat p f (f acc b) rest else None)"
  by pat_completeness auto
termination by (relation "measure (\<lambda>(p, f, acc, ts). length ts)") auto

declare repeat.simps [simp del]

definition separated :: "'a parser \<Rightarrow> spanned_token parser \<Rightarrow> 'a list parser" where
  "separated p sep ts =
     (case p ts of
        None \<Rightarrow> Some ([], ts)
      | Some (a, rest) \<Rightarrow>
          repeat (\<lambda>us. case sep us of None \<Rightarrow> None | Some (_, vs) \<Rightarrow> p vs) (\<lambda>as b. as @ [b]) [a] rest)"

section \<open>The parser\<close>

datatype token_kind =
    K_Dollar | K_Dot | K_Eq | K_Neq | K_Gte | K_Lte | K_Gt | K_Lt | K_And | K_Or | K_Not | K_Plus | K_Minus
  | K_LParen | K_RParen | K_Comma | K_True | K_False | K_Null | K_Length | K_Contains | K_Exists
  | K_Number | K_String | K_Ident

fun matches :: "token_kind \<Rightarrow> token \<Rightarrow> bool" where
  "matches K_Dollar t = (t = T_Dollar)"
| "matches K_Dot t = (t = T_Dot)"
| "matches K_Eq t = (t = T_Eq)"
| "matches K_Neq t = (t = T_Neq)"
| "matches K_Gte t = (t = T_Gte)"
| "matches K_Lte t = (t = T_Lte)"
| "matches K_Gt t = (t = T_Gt)"
| "matches K_Lt t = (t = T_Lt)"
| "matches K_And t = (t = T_And)"
| "matches K_Or t = (t = T_Or)"
| "matches K_Not t = (t = T_Not)"
| "matches K_Plus t = (t = T_Plus)"
| "matches K_Minus t = (t = T_Minus)"
| "matches K_LParen t = (t = T_LParen)"
| "matches K_RParen t = (t = T_RParen)"
| "matches K_Comma t = (t = T_Comma)"
| "matches K_True t = (t = T_True)"
| "matches K_False t = (t = T_False)"
| "matches K_Null t = (t = T_Null)"
| "matches K_Length t = (t = T_Length)"
| "matches K_Contains t = (t = T_Contains)"
| "matches K_Exists t = (t = T_Exists)"
| "matches K_Number t = (case t of T_Number _ \<Rightarrow> True | _ \<Rightarrow> False)"
| "matches K_String t = (case t of T_String _ \<Rightarrow> True | _ \<Rightarrow> False)"
| "matches K_Ident t = (case t of T_Ident _ \<Rightarrow> True | _ \<Rightarrow> False)"

definition accept_kind :: "token_kind \<Rightarrow> spanned_token parser" where
  "accept_kind k = one_of (matches k)"

definition join_spans :: "source_span \<Rightarrow> source_span \<Rightarrow> source_span" where
  "join_spans a b = \<lparr>sp_start = sp_start a, sp_end = sp_end b\<rparr>"

abbreviation "bytes t \<equiv> ts_bytes (st_span t)"

definition binary_expr :: "binary_op \<Rightarrow> expr \<Rightarrow> expr \<Rightarrow> expr" where
  "binary_expr op l r = Expr (E_Binary op l r) (join_spans (expr_span l) (expr_span r))"

definition operator :: "token_kind \<Rightarrow> binary_op \<Rightarrow> binary_op parser" where
  "operator k op ts = (case accept_kind k ts of Some (_, rest) \<Rightarrow> Some (op, rest) | None \<Rightarrow> None)"

definition number_literal :: "expr parser" where
  "number_literal ts = (case accept_kind K_Number ts of
     Some (t, rest) \<Rightarrow> (case st_token t of
       T_Number v \<Rightarrow> Some (Expr (E_Literal (L_Number v)) (bytes t), rest) | _ \<Rightarrow> None) | None \<Rightarrow> None)"

definition string_literal :: "expr parser" where
  "string_literal ts = (case accept_kind K_String ts of
     Some (t, rest) \<Rightarrow> (case st_token t of
       T_String v \<Rightarrow> Some (Expr (E_Literal (L_String v)) (bytes t), rest) | _ \<Rightarrow> None) | None \<Rightarrow> None)"

definition fixed_literal :: "token_kind \<Rightarrow> literal \<Rightarrow> expr parser" where
  "fixed_literal k l ts = (case accept_kind k ts of
     Some (t, rest) \<Rightarrow> Some (Expr (E_Literal l) (bytes t), rest) | None \<Rightarrow> None)"

definition true_literal :: "expr parser" where
  "true_literal = fixed_literal K_True (L_Bool True)"
definition false_literal :: "expr parser" where
  "false_literal = fixed_literal K_False (L_Bool False)"
definition null_literal :: "expr parser" where
  "null_literal = fixed_literal K_Null L_Null"

definition parse_literal :: "expr parser" where
  "parse_literal =
     alt number_literal (alt string_literal (alt true_literal (alt false_literal null_literal)))"

definition ident_segment :: "(string \<times> source_span) parser" where
  "ident_segment ts = (case accept_kind K_Ident ts of
     Some (t, rest) \<Rightarrow> (case st_token t of T_Ident v \<Rightarrow> Some ((v, bytes t), rest) | _ \<Rightarrow> None) | None \<Rightarrow> None)"

definition dot_segment :: "(string \<times> source_span) parser" where
  "dot_segment ts = (case accept_kind K_Dot ts of Some (_, rest) \<Rightarrow> ident_segment rest | None \<Rightarrow> None)"

definition slot_access :: "expr parser" where
  "slot_access ts = (case accept_kind K_Dollar ts of None \<Rightarrow> None | Some (dollar, ts1) \<Rightarrow>
     (case ident_segment ts1 of None \<Rightarrow> None | Some (first, ts2) \<Rightarrow>
     (case repeat dot_segment (\<lambda>xs x. xs @ [x]) [] ts2 of None \<Rightarrow> None | Some (tail, ts3) \<Rightarrow>
       let end_span = (if tail = [] then snd first else snd (last tail))
       in Some (Expr (E_SlotAccess (map fst (first # tail))) (join_spans (bytes dollar) end_span), ts3))))"

definition fixed_name :: "token_kind \<Rightarrow> function_name \<Rightarrow> (function_name \<times> source_span) parser" where
  "fixed_name k f ts = (case accept_kind k ts of Some (t, rest) \<Rightarrow> Some ((f, bytes t), rest) | None \<Rightarrow> None)"

definition ident_function_name :: "(function_name \<times> source_span) parser" where
  "ident_function_name ts = (case accept_kind K_Ident ts of
     Some (t, rest) \<Rightarrow> (case st_token t of T_Ident v \<Rightarrow> Some ((F_Ident v, bytes t), rest) | _ \<Rightarrow> None) | None \<Rightarrow> None)"

definition parse_function_name :: "(function_name \<times> source_span) parser" where
  "parse_function_name = alt (fixed_name K_Length F_Length) (alt (fixed_name K_Contains F_Contains)
     (alt (fixed_name K_Exists F_Exists) ident_function_name))"

text \<open>The levels of the grammar, over the parser \<open>E\<close> of nested expressions.\<close>

definition func_call :: "expr parser \<Rightarrow> expr parser" where
  "func_call E ts = (case parse_function_name ts of None \<Rightarrow> None | Some (name, ts1) \<Rightarrow>
     (case accept_kind K_LParen ts1 of None \<Rightarrow> None | Some (_, ts2) \<Rightarrow>
     (case separated E (accept_kind K_Comma) ts2 of None \<Rightarrow> None | Some (args, ts3) \<Rightarrow>
     (case accept_kind K_RParen ts3 of None \<Rightarrow> None | Some (rparen, ts4) \<Rightarrow>
       Some (Expr (E_FunctionCall (fst name) args) (join_spans (snd name) (bytes rparen)), ts4)))))"

definition paren_expr :: "expr parser \<Rightarrow> expr parser" where
  "paren_expr E ts = (case accept_kind K_LParen ts of None \<Rightarrow> None | Some (lparen, ts1) \<Rightarrow>
     (case E ts1 of None \<Rightarrow> None | Some (e, ts2) \<Rightarrow>
     (case accept_kind K_RParen ts2 of None \<Rightarrow> None | Some (rparen, ts3) \<Rightarrow>
       Some (Expr (E_Paren e) (join_spans (bytes lparen) (bytes rparen)), ts3))))"

definition primary :: "expr parser \<Rightarrow> expr parser" where
  "primary E = alt parse_literal (alt slot_access (alt (func_call E) (paren_expr E)))"

definition parse_unary :: "expr parser \<Rightarrow> expr parser" where
  "parse_unary E ts = (case opt (accept_kind K_Not) ts of None \<Rightarrow> None
     | Some (Some t, ts1) \<Rightarrow> (case primary E ts1 of None \<Rightarrow> None
         | Some (e, ts2) \<Rightarrow> Some (Expr (E_Unary U_Not e) (join_spans (bytes t) (expr_span e)), ts2))
     | Some (None, ts1) \<Rightarrow> primary E ts1)"

definition then_operand :: "binary_op parser \<Rightarrow> expr parser \<Rightarrow> (binary_op \<times> expr) parser" where
  "then_operand p q ts = (case p ts of None \<Rightarrow> None | Some (op, ts1) \<Rightarrow>
     (case q ts1 of None \<Rightarrow> None | Some (r, ts2) \<Rightarrow> Some ((op, r), ts2)))"

definition fold_level :: "binary_op parser \<Rightarrow> expr parser \<Rightarrow> expr parser" where
  "fold_level p q ts = (case q ts of None \<Rightarrow> None | Some (init, ts1) \<Rightarrow>
     repeat (then_operand p q) (\<lambda>acc (op, r). binary_expr op acc r) init ts1)"

definition add_operator :: "binary_op parser" where
  "add_operator = alt (operator K_Plus B_Plus) (operator K_Minus B_Minus)"

definition comparison_operator :: "binary_op parser" where
  "comparison_operator = alt (operator K_Eq B_Eq) (alt (operator K_Neq B_Neq) (alt (operator K_Gt B_Gt)
     (alt (operator K_Lt B_Lt) (alt (operator K_Gte B_Gte) (operator K_Lte B_Lte)))))"

definition add_expr :: "expr parser \<Rightarrow> expr parser" where
  "add_expr E = fold_level add_operator (parse_unary E)"

definition cmp_expr :: "expr parser \<Rightarrow> expr parser" where
  "cmp_expr E ts = (case add_expr E ts of None \<Rightarrow> None | Some (l, ts1) \<Rightarrow>
     (case opt (then_operand comparison_operator (add_expr E)) ts1 of None \<Rightarrow> None
      | Some (Some (op, r), ts2) \<Rightarrow> Some (binary_expr op l r, ts2)
      | Some (None, ts2) \<Rightarrow> Some (l, ts2)))"

definition and_expr :: "expr parser \<Rightarrow> expr parser" where
  "and_expr E = fold_level (operator K_And B_And) (cmp_expr E)"

definition or_expr :: "expr parser \<Rightarrow> expr parser" where
  "or_expr E = fold_level (operator K_Or B_Or) (and_expr E)"

text \<open>A nested expression starts after a token: the depth is bounded by the number of tokens.\<close>

fun nested_expression :: "nat \<Rightarrow> expr parser" where
  "nested_expression 0 ts = None"
| "nested_expression (Suc n) ts = or_expr (nested_expression n) ts"

definition error_location :: "spanned_token list \<Rightarrow> nat \<Rightarrow> source_location" where
  "error_location tokens i =
     (if i < length tokens then ts_start (st_span (tokens ! i))
      else if tokens \<noteq> [] then ts_end (st_span (last tokens)) else \<lparr>sl_line = 1, sl_column = 1\<rparr>)"

definition parse_expression_tokens :: "front_env \<Rightarrow> spanned_token list \<Rightarrow> compiler_error + expr" where
  "parse_expression_tokens env tokens =
     (case nested_expression (Suc (length tokens)) tokens of
        None \<Rightarrow> (let at = error_location tokens (fe_fail_at env tokens)
          in Inl (CE_Parse (sl_line at) (sl_column at) ''expected expression''))
      | Some (e, t # _) \<Rightarrow> (let at = ts_start (st_span t)
          in Inl (CE_Parse (sl_line at) (sl_column at) ''unexpected token after expression''))
      | Some (e, []) \<Rightarrow> Inr e)"

definition parse_expression :: "front_env \<Rightarrow> string \<Rightarrow> compiler_error + expr" where
  "parse_expression env source =
     (case lex_expression env source of Inl e \<Rightarrow> Inl e | Inr tokens \<Rightarrow> parse_expression_tokens env tokens)"


section \<open>The compiler's pipeline\<close>

text \<open>
  A workflow is checked to be UTF-8 (\<open>utf8\<close>: the error message of \<open>str::from_utf8\<close> or the text) and
  passed through two stages that only wrap it.
\<close>

record parse_tree =
  pt_source :: string
  pt_source_map :: source_span

record validated_workflow =
  vw_parse_tree :: parse_tree

record compiled_workflow =
  cw_source_len :: nat

definition new_parse_tree :: "string \<Rightarrow> parse_tree" where
  "new_parse_tree source = \<lparr>pt_source = source, pt_source_map = \<lparr>sp_start = 0, sp_end = length source\<rparr>\<rparr>"

definition parse_yaml_bytes :: "(u8 list \<Rightarrow> string + string) \<Rightarrow> u8 list \<Rightarrow> compiler_error + parse_tree" where
  "parse_yaml_bytes utf8 input = (case utf8 input of Inl e \<Rightarrow> Inl (CE_InvalidUtf8 e) | Inr s \<Rightarrow> Inr (new_parse_tree s))"

definition validate_parse_tree :: "parse_tree \<Rightarrow> compiler_error + validated_workflow" where
  "validate_parse_tree t = Inr \<lparr>vw_parse_tree = t\<rparr>"

definition compile_validated_workflow :: "validated_workflow \<Rightarrow> compiler_error + compiled_workflow" where
  "compile_validated_workflow w = Inr \<lparr>cw_source_len = length (pt_source (vw_parse_tree w))\<rparr>"

definition validate_workflow :: "(u8 list \<Rightarrow> string + string) \<Rightarrow> u8 list \<Rightarrow> compiler_error + validated_workflow" where
  "validate_workflow utf8 input =
     (case parse_yaml_bytes utf8 input of Inl e \<Rightarrow> Inl e | Inr t \<Rightarrow> validate_parse_tree t)"

definition compile_workflow :: "(u8 list \<Rightarrow> string + string) \<Rightarrow> u8 list \<Rightarrow> compiler_error + compiled_workflow" where
  "compile_workflow utf8 input =
     (case validate_workflow utf8 input of Inl e \<Rightarrow> Inl e | Inr w \<Rightarrow> compile_validated_workflow w)"

section \<open>The grammar\<close>

text \<open>
  The levels from the loosest to the tightest, over token lists: comparison does not chain, the rest
  associates to the left, and \<open>not\<close> applies to a primary.
\<close>

datatype level = Lv_Or | Lv_And | Lv_Cmp | Lv_Add | Lv_Unary | Lv_Primary

fun binary_op_of :: "token \<Rightarrow> (level \<times> binary_op) option" where
  "binary_op_of T_Or = Some (Lv_Or, B_Or)"
| "binary_op_of T_And = Some (Lv_And, B_And)"
| "binary_op_of T_Eq = Some (Lv_Cmp, B_Eq)"
| "binary_op_of T_Neq = Some (Lv_Cmp, B_Neq)"
| "binary_op_of T_Gt = Some (Lv_Cmp, B_Gt)"
| "binary_op_of T_Lt = Some (Lv_Cmp, B_Lt)"
| "binary_op_of T_Gte = Some (Lv_Cmp, B_Gte)"
| "binary_op_of T_Lte = Some (Lv_Cmp, B_Lte)"
| "binary_op_of T_Plus = Some (Lv_Add, B_Plus)"
| "binary_op_of T_Minus = Some (Lv_Add, B_Minus)"
| "binary_op_of _ = None"

fun literal_of :: "token \<Rightarrow> literal option" where
  "literal_of (T_Number v) = Some (L_Number v)"
| "literal_of (T_String v) = Some (L_String v)"
| "literal_of T_True = Some (L_Bool True)"
| "literal_of T_False = Some (L_Bool False)"
| "literal_of T_Null = Some L_Null"
| "literal_of _ = None"

fun function_of :: "token \<Rightarrow> function_name option" where
  "function_of T_Length = Some F_Length"
| "function_of T_Contains = Some F_Contains"
| "function_of T_Exists = Some F_Exists"
| "function_of (T_Ident v) = Some (F_Ident v)"
| "function_of _ = None"

inductive segments :: "spanned_token list \<Rightarrow> (string \<times> source_span) list \<Rightarrow> bool" where
  seg_nil: "segments [] []"
| seg_cons: "st_token d = T_Dot \<Longrightarrow> st_token t = T_Ident v \<Longrightarrow> segments ts xs \<Longrightarrow> segments (d # t # ts) ((v, bytes t) # xs)"

inductive grammar :: "level \<Rightarrow> spanned_token list \<Rightarrow> expr \<Rightarrow> bool"
  and arguments :: "spanned_token list \<Rightarrow> expr list \<Rightarrow> bool" where
  g_or: "grammar Lv_And ts e \<Longrightarrow> grammar Lv_Or ts e"
| g_or_op: "grammar Lv_Or ts l \<Longrightarrow> binary_op_of (st_token t) = Some (Lv_Or, op) \<Longrightarrow> grammar Lv_And us r \<Longrightarrow>
    grammar Lv_Or (ts @ t # us) (binary_expr op l r)"
| g_and: "grammar Lv_Cmp ts e \<Longrightarrow> grammar Lv_And ts e"
| g_and_op: "grammar Lv_And ts l \<Longrightarrow> binary_op_of (st_token t) = Some (Lv_And, op) \<Longrightarrow> grammar Lv_Cmp us r \<Longrightarrow>
    grammar Lv_And (ts @ t # us) (binary_expr op l r)"
| g_cmp: "grammar Lv_Add ts e \<Longrightarrow> grammar Lv_Cmp ts e"
| g_cmp_op: "grammar Lv_Add ts l \<Longrightarrow> binary_op_of (st_token t) = Some (Lv_Cmp, op) \<Longrightarrow> grammar Lv_Add us r \<Longrightarrow>
    grammar Lv_Cmp (ts @ t # us) (binary_expr op l r)"
| g_add: "grammar Lv_Unary ts e \<Longrightarrow> grammar Lv_Add ts e"
| g_add_op: "grammar Lv_Add ts l \<Longrightarrow> binary_op_of (st_token t) = Some (Lv_Add, op) \<Longrightarrow> grammar Lv_Unary us r \<Longrightarrow>
    grammar Lv_Add (ts @ t # us) (binary_expr op l r)"
| g_unary: "grammar Lv_Primary ts e \<Longrightarrow> grammar Lv_Unary ts e"
| g_not: "st_token t = T_Not \<Longrightarrow> grammar Lv_Primary ts e \<Longrightarrow>
    grammar Lv_Unary (t # ts) (Expr (E_Unary U_Not e) (join_spans (bytes t) (expr_span e)))"
| g_literal: "literal_of (st_token t) = Some l \<Longrightarrow> grammar Lv_Primary [t] (Expr (E_Literal l) (bytes t))"
| g_slot: "st_token d = T_Dollar \<Longrightarrow> st_token t = T_Ident v \<Longrightarrow> segments ts xs \<Longrightarrow>
    grammar Lv_Primary (d # t # ts) (Expr (E_SlotAccess (v # map fst xs))
      (join_spans (bytes d) (snd (last ((v, bytes t) # xs)))))"
| g_call: "function_of (st_token t) = Some f \<Longrightarrow> st_token lp = T_LParen \<Longrightarrow> arguments ts as \<Longrightarrow> st_token rp = T_RParen \<Longrightarrow>
    grammar Lv_Primary (t # lp # ts @ [rp]) (Expr (E_FunctionCall f as) (join_spans (bytes t) (bytes rp)))"
| g_paren: "st_token lp = T_LParen \<Longrightarrow> grammar Lv_Or ts e \<Longrightarrow> st_token rp = T_RParen \<Longrightarrow>
    grammar Lv_Primary (lp # ts @ [rp]) (Expr (E_Paren e) (join_spans (bytes lp) (bytes rp)))"
| a_nil: "arguments [] []"
| a_one: "grammar Lv_Or ts e \<Longrightarrow> arguments ts [e]"
| a_snoc: "arguments ts as \<Longrightarrow> as \<noteq> [] \<Longrightarrow> st_token c = T_Comma \<Longrightarrow> grammar Lv_Or us e \<Longrightarrow>
    arguments (ts @ c # us) (as @ [e])"

section \<open>What the small parsers accept\<close>

lemma token_kind_Cons: "accept_kind k (t # ts) = (if matches k (st_token t) then Some (t, ts) else None)"
  by (simp add: accept_kind_def one_of_def)

lemma token_kind_Nil [simp]: "accept_kind k [] = None"
  by (simp add: accept_kind_def one_of_def)

lemma literal_tokens: "parse_literal ts =
    (case ts of [] \<Rightarrow> None | t # rest \<Rightarrow>
       map_option (\<lambda>l. (Expr (E_Literal l) (bytes t), rest)) (literal_of (st_token t)))"
  by (cases ts; cases "st_token (hd ts)")
    (simp_all add: parse_literal_def alt_def number_literal_def string_literal_def true_literal_def
      false_literal_def null_literal_def fixed_literal_def token_kind_Cons)

lemma name_tokens: "parse_function_name ts =
    (case ts of [] \<Rightarrow> None | t # rest \<Rightarrow> map_option (\<lambda>f. ((f, bytes t), rest)) (function_of (st_token t)))"
  by (cases ts; cases "st_token (hd ts)")
    (simp_all add: parse_function_name_def alt_def fixed_name_def ident_function_name_def token_kind_Cons)

definition op_at :: "level \<Rightarrow> binary_op parser" where
  "op_at lv ts = (case ts of [] \<Rightarrow> None | t # rest \<Rightarrow> (case binary_op_of (st_token t) of
     Some (lv', op) \<Rightarrow> if lv' = lv then Some (op, rest) else None | None \<Rightarrow> None))"

lemma operator_tokens:
  "operator K_Or B_Or = op_at Lv_Or" "operator K_And B_And = op_at Lv_And"
  "add_operator = op_at Lv_Add" "comparison_operator = op_at Lv_Cmp"
proof -
  show "operator K_Or B_Or = op_at Lv_Or" "operator K_And B_And = op_at Lv_And"
    "add_operator = op_at Lv_Add" "comparison_operator = op_at Lv_Cmp"
  proof (rule_tac [!] ext)
    fix ts
    show "operator K_Or B_Or ts = op_at Lv_Or ts" "operator K_And B_And ts = op_at Lv_And ts"
      "add_operator ts = op_at Lv_Add ts" "comparison_operator ts = op_at Lv_Cmp ts"
      by (cases ts; cases "st_token (hd ts)";
          simp add: operator_def op_at_def add_operator_def comparison_operator_def alt_def token_kind_Cons)+
  qed
qed

lemma ident_tokens: "ident_segment ts = (case ts of t # rest \<Rightarrow> (case st_token t of
    T_Ident v \<Rightarrow> Some ((v, bytes t), rest) | _ \<Rightarrow> None) | [] \<Rightarrow> None)"
  by (cases ts; cases "st_token (hd ts)") (simp_all add: ident_segment_def token_kind_Cons)


section \<open>What the parser accepts is in the grammar\<close>

definition sound :: "level \<Rightarrow> expr parser \<Rightarrow> bool" where
  "sound lv p \<longleftrightarrow> (\<forall>ts e rest. p ts = Some (e, rest) \<longrightarrow> (\<exists>us. ts = us @ rest \<and> grammar lv us e))"

lemma soundI: "(\<And>ts e rest. p ts = Some (e, rest) \<Longrightarrow> \<exists>us. ts = us @ rest \<and> grammar lv us e) \<Longrightarrow> sound lv p"
  by (simp add: sound_def)

lemma soundE:
  assumes "sound lv p" and "p ts = Some (e, rest)"
  obtains us where "ts = us @ rest" "grammar lv us e"
  using assms unfolding sound_def by blast

lemma repeat_Some:
  "repeat p f acc ts = Some (r, rest) \<Longrightarrow> P acc pre \<Longrightarrow>
   (\<And>a us b ts0 rest0. P a us \<Longrightarrow> p ts0 = Some (b, rest0) \<Longrightarrow> \<exists>vs. ts0 = vs @ rest0 \<and> P (f a b) (us @ vs)) \<Longrightarrow>
   \<exists>us. ts = us @ rest \<and> P r (pre @ us)"
proof (induction p f acc ts arbitrary: pre rule: repeat.induct)
  case (1 p f acc ts)
  show ?case
  proof (cases "p ts")
    case None
    then show ?thesis using 1(2,3) by (simp add: repeat.simps [of p f acc ts])
  next
    case (Some x)
    obtain b ts1 where x: "x = (b, ts1)" by (cases x)
    have less: "length ts1 < length ts" and run: "repeat p f (f acc b) ts1 = Some (r, rest)"
      using 1(2) Some x by (auto simp: repeat.simps [of p f acc ts] split: if_splits)
    obtain vs where vs: "ts = vs @ ts1" "P (f acc b) (pre @ vs)"
      using 1(4) [OF 1(3)] Some x by blast
    have "\<exists>us. ts1 = us @ rest \<and> P r ((pre @ vs) @ us)"
      by (rule 1(1) [OF Some x [symmetric] less run vs(2) 1(4)])
    then show ?thesis using vs(1) by force
  qed
qed

lemma op_at_Some: "op_at lv ts = Some (op, rest) \<longleftrightarrow> (\<exists>t. ts = t # rest \<and> binary_op_of (st_token t) = Some (lv, op))"
  by (auto simp: op_at_def split: list.splits option.splits if_splits)

lemma then_operand_Some: "then_operand p q ts = Some (x, rest) \<longleftrightarrow>
    (\<exists>ts1. p ts = Some (fst x, ts1) \<and> q ts1 = Some (snd x, rest))"
  by (cases x) (auto simp: then_operand_def split: option.splits)

lemma sound_fold:
  assumes "sound lv' q" and "\<And>ts e. grammar lv' ts e \<Longrightarrow> grammar lv ts e"
    and "\<And>ts l t us op r. grammar lv ts l \<Longrightarrow> binary_op_of (st_token t) = Some (lv, op) \<Longrightarrow> grammar lv' us r \<Longrightarrow>
      grammar lv (ts @ t # us) (binary_expr op l r)"
  shows "sound lv (fold_level (op_at lv) q)"
proof (rule soundI)
  fix ts e rest assume "fold_level (op_at lv) q ts = Some (e, rest)"
  then obtain init ts1 where q: "q ts = Some (init, ts1)"
    and run: "repeat (then_operand (op_at lv) q) (\<lambda>acc (op, r). binary_expr op acc r) init ts1 = Some (e, rest)"
    by (auto simp: fold_level_def split: option.splits)
  obtain us where us: "ts = us @ ts1" "grammar lv' us init" by (rule soundE [OF assms(1) q])
  have "\<exists>vs. ts1 = vs @ rest \<and> grammar lv (us @ vs) e"
  proof (rule repeat_Some [where P = "\<lambda>a us. grammar lv us a", OF run assms(2) [OF us(2)]])
    fix a ws b ts0 rest0
    assume a: "grammar lv ws a" and "then_operand (op_at lv) q ts0 = Some (b, rest0)"
    then obtain t ts2 where t: "ts0 = t # ts2" "binary_op_of (st_token t) = Some (lv, fst b)" "q ts2 = Some (snd b, rest0)"
      by (auto simp: then_operand_Some op_at_Some)
    obtain vs where "ts2 = vs @ rest0" "grammar lv' vs (snd b)" by (rule soundE [OF assms(1) t(3)])
    then show "\<exists>vs. ts0 = vs @ rest0 \<and> grammar lv (ws @ vs) ((case b of (op, r) \<Rightarrow> binary_expr op a r))"
      using assms(3) [OF a t(2)] t(1) by (intro exI [of _ "t # vs"]) (auto simp: case_prod_unfold)
  qed
  then show "\<exists>us. ts = us @ rest \<and> grammar lv us e" using us(1) by force
qed

lemma kind_Some: "accept_kind k ts = Some (t, rest) \<longleftrightarrow> ts = t # rest \<and> matches k (st_token t)"
  by (cases ts) (auto simp: token_kind_Cons)

lemma ident_Some: "ident_segment ts = Some (x, rest) \<longleftrightarrow> (\<exists>t v. ts = t # rest \<and> st_token t = T_Ident v \<and> x = (v, bytes t))"
  by (auto simp: ident_tokens split: list.splits token.splits)

lemma dot_Some: "dot_segment ts = Some (x, rest) \<longleftrightarrow>
    (\<exists>d t v. ts = d # t # rest \<and> st_token d = T_Dot \<and> st_token t = T_Ident v \<and> x = (v, bytes t))"
  by (auto simp: dot_segment_def kind_Some token_kind_Cons ident_Some split: option.splits)

lemma segments_snoc: "segments ts xs \<Longrightarrow> st_token d = T_Dot \<Longrightarrow> st_token t = T_Ident v \<Longrightarrow> segments (ts @ [d, t]) (xs @ [(v, bytes t)])"
  by (induction rule: segments.induct) (auto intro: segments.intros)

lemma sound_slot: "sound Lv_Primary slot_access"
proof (rule soundI)
  fix ts e rest assume "slot_access ts = Some (e, rest)"
  then obtain d first ts2 tail where d: "accept_kind K_Dollar ts = Some (d, ts2)" "\<exists>ts1. ident_segment ts2 = Some (first, ts1) \<and>
      repeat dot_segment (\<lambda>xs x. xs @ [x]) [] ts1 = Some (tail, rest)"
    and e: "e = Expr (E_SlotAccess (map fst (first # tail))) (join_spans (bytes d) (if tail = [] then snd first else snd (last tail)))"
    by (auto simp: slot_access_def Let_def split: option.splits prod.splits)
  obtain t v ts1 where t: "ts = d # t # ts1" "st_token d = T_Dollar" "st_token t = T_Ident v" "first = (v, bytes t)"
    and run: "repeat dot_segment (\<lambda>xs x. xs @ [x]) [] ts1 = Some (tail, rest)"
    using d by (auto simp: kind_Some ident_Some)
  have "\<exists>us. ts1 = us @ rest \<and> segments ([] @ us) tail"
    by (rule repeat_Some [where P = "\<lambda>xs us. segments us xs", OF run seg_nil])
      (auto simp: dot_Some intro: segments_snoc)
  then obtain us where "ts1 = us @ rest" "segments us tail" by auto
  then show "\<exists>us. ts = us @ rest \<and> grammar Lv_Primary us e"
    using t e g_slot [OF t(2,3), of us tail] by (intro exI [of _ "d # t # us"]) auto
qed

lemma sound_args:
  assumes E: "sound Lv_Or E" and run: "separated E (accept_kind K_Comma) ts = Some (as, rest)"
  shows "\<exists>us. ts = us @ rest \<and> arguments us as"
proof (cases "E ts")
  case None
  then show ?thesis using run by (auto simp: separated_def intro: a_nil)
next
  case (Some x)
  obtain a ts1 where x: "x = (a, ts1)" by (cases x)
  obtain us where us: "ts = us @ ts1" "grammar Lv_Or us a" using soundE [OF E] Some x by metis
  have run1: "repeat (\<lambda>us. case accept_kind K_Comma us of None \<Rightarrow> None | Some (_, vs) \<Rightarrow> E vs) (\<lambda>as b. as @ [b]) [a] ts1 = Some (as, rest)"
    using run Some x by (simp add: separated_def)
  have "\<exists>vs. ts1 = vs @ rest \<and> (arguments (us @ vs) as \<and> as \<noteq> [])"
  proof (rule repeat_Some [where P = "\<lambda>as us. arguments us as \<and> as \<noteq> []", OF run1])
    show "arguments us [a] \<and> [a] \<noteq> []" using us(2) by (auto intro: a_one)
    fix bs ws b ts0 rest0
    assume "arguments ws bs \<and> bs \<noteq> []"
      and "(case accept_kind K_Comma ts0 of None \<Rightarrow> None | Some (_, vs) \<Rightarrow> E vs) = Some (b, rest0)"
    then obtain c ts2 where c: "ts0 = c # ts2" "st_token c = T_Comma" "E ts2 = Some (b, rest0)" "arguments ws bs" "bs \<noteq> []"
      by (auto simp: kind_Some split: option.splits)
    obtain vs where "ts2 = vs @ rest0" "grammar Lv_Or vs b" by (rule soundE [OF E c(3)])
    then show "\<exists>vs. ts0 = vs @ rest0 \<and> arguments (ws @ vs) (bs @ [b]) \<and> bs @ [b] \<noteq> []"
      using c a_snoc [OF c(4,5,2)] by (intro exI [of _ "c # vs"]) auto
  qed
  then show ?thesis using us(1) by force
qed

lemma sound_primary: assumes E: "sound Lv_Or E" shows "sound Lv_Primary (primary E)"
proof -
  have "sound Lv_Primary parse_literal"
    by (rule soundI) (auto simp: literal_tokens split: list.splits intro: g_literal)
  moreover have "sound Lv_Primary (func_call E)"
  proof (rule soundI)
    fix ts e rest assume "func_call E ts = Some (e, rest)"
    then obtain name ts1 lp ts2 args ts3 rp where n: "parse_function_name ts = Some (name, ts1)" "ts1 = lp # ts2" "st_token lp = T_LParen"
        "ts3 = rp # rest" "st_token rp = T_RParen" "e = Expr (E_FunctionCall (fst name) args) (join_spans (snd name) (bytes rp))"
      and a: "separated E (accept_kind K_Comma) ts2 = Some (args, ts3)"
      by (auto simp: func_call_def kind_Some split: option.splits prod.splits)
    obtain t where t: "ts = t # ts1" "function_of (st_token t) = Some (fst name)" "snd name = bytes t"
      using n(1) by (auto simp: name_tokens split: list.splits)
    obtain us where "ts2 = us @ ts3" "arguments us args" using sound_args [OF E a] by blast
    then show "\<exists>us. ts = us @ rest \<and> grammar Lv_Primary us e"
      using n t g_call [OF t(2) n(3) _ n(5)] by (intro exI [of _ "t # lp # us @ [rp]"]) auto
  qed
  moreover have "sound Lv_Primary (paren_expr E)"
  proof (rule soundI)
    fix ts e rest assume "paren_expr E ts = Some (e, rest)"
    then obtain lp ts1 x ts2 rp where n: "ts = lp # ts1" "st_token lp = T_LParen" "E ts1 = Some (x, ts2)"
        "ts2 = rp # rest" "st_token rp = T_RParen" "e = Expr (E_Paren x) (join_spans (bytes lp) (bytes rp))"
      by (auto simp: paren_expr_def kind_Some split: option.splits prod.splits)
    obtain us where "ts1 = us @ ts2" "grammar Lv_Or us x" by (rule soundE [OF E n(3)])
    then show "\<exists>us. ts = us @ rest \<and> grammar Lv_Primary us e"
      using n g_paren [OF n(2) _ n(5)] by (intro exI [of _ "lp # us @ [rp]"]) auto
  qed
  moreover have "sound lv p \<Longrightarrow> sound lv q \<Longrightarrow> sound lv (alt p q)" for lv p q
    by (auto simp: sound_def alt_def split: option.splits)
  ultimately show ?thesis using sound_slot unfolding primary_def by blast
qed

lemma sound_unary: assumes E: "sound Lv_Or E" shows "sound Lv_Unary (parse_unary E)"
proof (rule soundI)
  fix ts e rest assume run: "parse_unary E ts = Some (e, rest)"
  show "\<exists>us. ts = us @ rest \<and> grammar Lv_Unary us e"
  proof (cases "accept_kind K_Not ts")
    case None
    then have "primary E ts = Some (e, rest)" using run by (simp add: parse_unary_def opt_def)
    then show ?thesis by (rule soundE [OF sound_primary [OF E]]) (auto intro: g_unary)
  next
    case (Some x)
    then obtain t ts1 where t: "x = (t, ts1)" "ts = t # ts1" "st_token t = T_Not" by (cases x) (auto simp: kind_Some)
    then obtain y where y: "primary E ts1 = Some (y, rest)" "e = Expr (E_Unary U_Not y) (join_spans (bytes t) (expr_span y))"
      using run Some by (auto simp: parse_unary_def opt_def split: option.splits)
    obtain us where "ts1 = us @ rest" "grammar Lv_Primary us y" by (rule soundE [OF sound_primary [OF E] y(1)])
    then show ?thesis using t y(2) g_not [OF t(3)] by (intro exI [of _ "t # us"]) auto
  qed
qed

lemma sound_levels:
  assumes E: "sound Lv_Or E"
  shows "sound Lv_Or (or_expr E)" and "sound Lv_And (and_expr E)" and "sound Lv_Cmp (cmp_expr E)" and "sound Lv_Add (add_expr E)"
proof -
  show add: "sound Lv_Add (add_expr E)"
    unfolding add_expr_def operator_tokens by (rule sound_fold [OF sound_unary [OF E]]) (auto intro: g_add g_add_op)
  show cmp: "sound Lv_Cmp (cmp_expr E)"
  proof (rule soundI)
    fix ts e rest assume run: "cmp_expr E ts = Some (e, rest)"
    then obtain l ts1 where l: "add_expr E ts = Some (l, ts1)" by (auto simp: cmp_expr_def split: option.splits)
    obtain us where us: "ts = us @ ts1" "grammar Lv_Add us l" by (rule soundE [OF add l])
    show "\<exists>us. ts = us @ rest \<and> grammar Lv_Cmp us e"
    proof (cases "then_operand (op_at Lv_Cmp) (add_expr E) ts1")
      case None
      then show ?thesis using run l us by (auto simp: cmp_expr_def opt_def operator_tokens intro: g_cmp)
    next
      case (Some x)
      obtain op r ts2 where x: "x = ((op, r), ts2)" by (metis prod.exhaust)
      then obtain t ts3 where t: "ts1 = t # ts3" "binary_op_of (st_token t) = Some (Lv_Cmp, op)" "add_expr E ts3 = Some (r, ts2)"
        using Some by (auto simp: then_operand_Some op_at_Some)
      obtain vs where "ts3 = vs @ ts2" "grammar Lv_Add vs r" by (rule soundE [OF add t(3)])
      moreover have "e = binary_expr op l r" "rest = ts2"
        using run l Some x by (auto simp: cmp_expr_def opt_def operator_tokens)
      ultimately show ?thesis
        using us t g_cmp_op [OF us(2) t(2)] by (intro exI [of _ "us @ t # vs"]) auto
    qed
  qed
  show "sound Lv_And (and_expr E)"
    unfolding and_expr_def operator_tokens by (rule sound_fold [OF cmp]) (auto intro: g_and g_and_op)
  then show "sound Lv_Or (or_expr E)"
    unfolding or_expr_def operator_tokens by (rule sound_fold) (auto intro: g_or g_or_op)
qed

lemma expression_sound: "sound Lv_Or (nested_expression n)"
proof (induction n)
  case 0
  then show ?case by (simp add: sound_def)
next
  case (Suc n)
  then show ?case using sound_levels(1) [OF Suc.IH] by (simp add: sound_def)
qed


section \<open>What is in the grammar is accepted\<close>

fun rank :: "level \<Rightarrow> nat" where
  "rank Lv_Or = 0" | "rank Lv_And = 1" | "rank Lv_Cmp = 2" | "rank Lv_Add = 3" | "rank Lv_Unary = 4" | "rank Lv_Primary = 4"

text \<open>Tokens that do not extend an expression of the level.\<close>

definition ends :: "level \<Rightarrow> spanned_token list \<Rightarrow> bool" where
  "ends lv rest \<longleftrightarrow> (case rest of [] \<Rightarrow> True | t # _ \<Rightarrow> st_token t \<noteq> T_Dot \<and>
     (case binary_op_of (st_token t) of Some (lv', _) \<Rightarrow> rank lv' < rank lv | None \<Rightarrow> True))"

lemma ends_tighter: "ends lv rest \<Longrightarrow> rank lv \<le> rank lv' \<Longrightarrow> ends lv' rest"
  by (auto simp: ends_def split: list.splits option.splits)

lemma ends_op: "binary_op_of (st_token t) = Some (lv, op) \<Longrightarrow> rank lv < rank lv' \<Longrightarrow> ends lv' (t # ts)"
  by (auto simp: ends_def)

lemma ends_no_op: "ends lv rest \<Longrightarrow> op_at lv rest = None"
  by (auto simp: ends_def op_at_def split: list.splits option.splits)

abbreviation "step_at lv q \<equiv> repeat (then_operand (op_at lv) q) (\<lambda>acc (op, r). binary_expr op acc r)"

lemma repeat_stop: "p ts = None \<Longrightarrow> repeat p f acc ts = Some (acc, ts)"
  by (simp add: repeat.simps [of p f acc ts])

lemma repeat_step: "p ts = Some (b, rest) \<Longrightarrow> length rest < length ts \<Longrightarrow> repeat p f acc ts = repeat p f (f acc b) rest"
  by (simp add: repeat.simps [of p f acc ts])

lemma step_end: "ends lv rest \<Longrightarrow> step_at lv q e rest = Some (e, rest)"
  by (rule repeat_stop) (simp add: then_operand_def ends_no_op)

text \<open>A level after its first operand: the loop stands where its operators begin.\<close>

lemma step_once:
  assumes "binary_op_of (st_token t) = Some (lv, op)" and "q (us @ rest) = Some (r, rest)"
  shows "step_at lv q l (t # us @ rest) = step_at lv q (binary_expr op l r) rest"
  using assms by (subst repeat_step [where b = "(op, r)" and rest = rest]) (simp_all add: then_operand_Some op_at_Some)

definition accepts :: "level \<Rightarrow> spanned_token list \<Rightarrow> expr \<Rightarrow> bool" where
  "accepts lv ts e \<longleftrightarrow> (\<forall>n rest. length ts \<le> n \<longrightarrow> (let E = nested_expression n in
     case lv of
       Lv_Or \<Rightarrow> ends Lv_And rest \<longrightarrow> or_expr E (ts @ rest) = step_at Lv_Or (and_expr E) e rest
     | Lv_And \<Rightarrow> ends Lv_Cmp rest \<longrightarrow> and_expr E (ts @ rest) = step_at Lv_And (cmp_expr E) e rest
     | Lv_Cmp \<Rightarrow> ends Lv_Cmp rest \<longrightarrow> cmp_expr E (ts @ rest) = Some (e, rest)
     | Lv_Add \<Rightarrow> ends Lv_Unary rest \<longrightarrow> add_expr E (ts @ rest) = step_at Lv_Add (parse_unary E) e rest
     | Lv_Unary \<Rightarrow> ends Lv_Unary rest \<longrightarrow> parse_unary E (ts @ rest) = Some (e, rest)
     | Lv_Primary \<Rightarrow> ends Lv_Unary rest \<longrightarrow> primary E (ts @ rest) = Some (e, rest)))"

definition accepts_args :: "spanned_token list \<Rightarrow> expr list \<Rightarrow> bool" where
  "accepts_args ts as \<longleftrightarrow> as \<noteq> [] \<longrightarrow> (\<forall>n rest. length ts < n \<longrightarrow> ends Lv_Or rest \<longrightarrow>
     separated (nested_expression n) (accept_kind K_Comma) (ts @ rest) =
     repeat (\<lambda>us. case accept_kind K_Comma us of None \<Rightarrow> None | Some (_, vs) \<Rightarrow> nested_expression n vs) (\<lambda>as b. as @ [b]) as rest)"

lemma accepts_or: "accepts Lv_Or ts e \<Longrightarrow> length ts < n \<Longrightarrow> ends Lv_Or rest \<Longrightarrow> nested_expression n (ts @ rest) = Some (e, rest)"
  by (cases n) (auto simp: accepts_def Let_def step_end ends_tighter)

lemma fold_first: "q (ts @ rest) = Some (e, rest) \<Longrightarrow> fold_level (op_at lv) q (ts @ rest) = step_at lv q e rest"
  by (simp add: fold_level_def)

lemma ends_unary: "ends Lv_Unary rest \<longleftrightarrow> (case rest of [] \<Rightarrow> True | t # _ \<Rightarrow> st_token t \<noteq> T_Dot)"
proof -
  have "binary_op_of t = Some (lv, op) \<Longrightarrow> rank lv < 4" for t lv op by (cases t) auto
  then show ?thesis by (auto simp: ends_def split: list.splits option.splits)
qed

lemma grammar_start:
  "grammar lv ts e \<Longrightarrow> lv = Lv_Primary \<Longrightarrow> \<exists>t us. ts = t # us \<and> st_token t \<noteq> T_Not"
  "arguments us as \<Longrightarrow> True"
  by (induction rule: grammar_arguments.inducts) (auto split: option.splits)

lemma no_expression: "st_token t = T_RParen \<Longrightarrow> nested_expression n (t # ts) = None"
proof (cases n)
  case (Suc m)
  assume t: "st_token t = T_RParen"
  then have "primary (nested_expression m) (t # ts) = None"
    by (simp add: primary_def alt_def literal_tokens slot_access_def func_call_def name_tokens paren_expr_def token_kind_Cons)
  then show ?thesis
    using t Suc by (simp add: or_expr_def and_expr_def cmp_expr_def add_expr_def fold_level_def parse_unary_def opt_def token_kind_Cons)
qed simp

lemma segments_repeat:
  "segments ts xs \<Longrightarrow> ends Lv_Unary rest \<Longrightarrow> repeat dot_segment (\<lambda>xs x. xs @ [x]) acc (ts @ rest) = Some (acc @ xs, rest)"
proof (induction arbitrary: acc rule: segments.induct)
  case seg_nil
  then have "dot_segment rest = None"
    by (cases rest) (auto simp: ends_unary dot_segment_def token_kind_Cons)
  then show ?case by (simp add: repeat_stop)
next
  case (seg_cons d t v ts xs)
  have "dot_segment ((d # t # ts) @ rest) = Some ((v, bytes t), ts @ rest)"
    using seg_cons.hyps by (auto simp: dot_Some)
  then show ?case using seg_cons by (simp add: repeat_step)
qed

lemma accepted:
  "grammar lv ts e \<Longrightarrow> accepts lv ts e"
  "arguments us as \<Longrightarrow> accepts_args us as"
proof (induction rule: grammar_arguments.inducts)
  case (g_or ts e)
  then show ?case
    by (auto simp: accepts_def Let_def or_expr_def operator_tokens step_end ends_tighter [of Lv_And _ Lv_Cmp] intro!: fold_first)
next
  case (g_or_op ts l t op us r)
  show ?case unfolding accepts_def level.case Let_def
  proof (intro allI impI)
    fix n rest assume n: "length (ts @ t # us) \<le> n" and rest: "ends Lv_And rest"
    have "or_expr (nested_expression n) (ts @ (t # us @ rest)) = step_at Lv_Or (and_expr (nested_expression n)) l (t # us @ rest)"
      using g_or_op.IH(1) n ends_op [OF g_or_op.hyps(2), of Lv_And] by (simp add: accepts_def Let_def)
    moreover have "and_expr (nested_expression n) (us @ rest) = Some (r, rest)"
      using g_or_op.IH(2) n rest ends_tighter [OF rest, of Lv_Cmp] by (simp add: accepts_def Let_def step_end)
    ultimately show "or_expr (nested_expression n) ((ts @ t # us) @ rest) = step_at Lv_Or (and_expr (nested_expression n)) (binary_expr op l r) rest"
      by (simp add: step_once [OF g_or_op.hyps(2)])
  qed
next
  case (g_and ts e)
  then show ?case
    by (auto simp: accepts_def Let_def and_expr_def operator_tokens intro!: fold_first)
next
  case (g_and_op ts l t op us r)
  show ?case unfolding accepts_def level.case Let_def
  proof (intro allI impI)
    fix n rest assume n: "length (ts @ t # us) \<le> n" and rest: "ends Lv_Cmp rest"
    have "and_expr (nested_expression n) (ts @ (t # us @ rest)) = step_at Lv_And (cmp_expr (nested_expression n)) l (t # us @ rest)"
      using g_and_op.IH(1) n ends_op [OF g_and_op.hyps(2), of Lv_Cmp] by (simp add: accepts_def Let_def)
    moreover have "cmp_expr (nested_expression n) (us @ rest) = Some (r, rest)"
      using g_and_op.IH(2) n rest by (simp add: accepts_def Let_def)
    ultimately show "and_expr (nested_expression n) ((ts @ t # us) @ rest) = step_at Lv_And (cmp_expr (nested_expression n)) (binary_expr op l r) rest"
      by (simp add: step_once [OF g_and_op.hyps(2)])
  qed
next
  case (g_cmp ts e)
  have "ends Lv_Cmp rest \<Longrightarrow> op_at Lv_Cmp rest = None" for rest by (rule ends_no_op)
  with g_cmp show ?case
    by (auto simp: accepts_def Let_def cmp_expr_def operator_tokens opt_def then_operand_def step_end ends_tighter)
next
  case (g_cmp_op ts l t op us r)
  show ?case unfolding accepts_def level.case Let_def
  proof (intro allI impI)
    fix n rest assume n: "length (ts @ t # us) \<le> n" and rest: "ends Lv_Cmp rest"
    have "add_expr (nested_expression n) (ts @ (t # us @ rest)) = Some (l, t # us @ rest)"
      using g_cmp_op.IH(1) n ends_op [OF g_cmp_op.hyps(2), of Lv_Unary] ends_op [OF g_cmp_op.hyps(2), of Lv_Add]
      by (simp add: accepts_def Let_def step_end)
    moreover have "add_expr (nested_expression n) (us @ rest) = Some (r, rest)"
      using g_cmp_op.IH(2) n ends_tighter [OF rest, of Lv_Unary] ends_tighter [OF rest, of Lv_Add]
      by (simp add: accepts_def Let_def step_end)
    then have "then_operand (op_at Lv_Cmp) (add_expr (nested_expression n)) (t # us @ rest) = Some ((op, r), rest)"
      using g_cmp_op.hyps(2) by (simp add: then_operand_Some op_at_Some)
    ultimately show "cmp_expr (nested_expression n) ((ts @ t # us) @ rest) = Some (binary_expr op l r, rest)"
      by (simp add: cmp_expr_def opt_def operator_tokens)
  qed
next
  case (g_add ts e)
  then show ?case
    by (auto simp: accepts_def Let_def add_expr_def operator_tokens intro!: fold_first)
next
  case (g_add_op ts l t op us r)
  show ?case unfolding accepts_def level.case Let_def
  proof (intro allI impI)
    fix n rest assume n: "length (ts @ t # us) \<le> n" and rest: "ends Lv_Unary rest"
    have "add_expr (nested_expression n) (ts @ (t # us @ rest)) = step_at Lv_Add (parse_unary (nested_expression n)) l (t # us @ rest)"
      using g_add_op.IH(1) n ends_op [OF g_add_op.hyps(2), of Lv_Unary] by (simp add: accepts_def Let_def)
    moreover have "parse_unary (nested_expression n) (us @ rest) = Some (r, rest)"
      using g_add_op.IH(2) n rest by (simp add: accepts_def Let_def)
    ultimately show "add_expr (nested_expression n) ((ts @ t # us) @ rest) = step_at Lv_Add (parse_unary (nested_expression n)) (binary_expr op l r) rest"
      by (simp add: step_once [OF g_add_op.hyps(2)])
  qed
next
  case (g_unary ts e)
  then obtain t us where "ts = t # us" "st_token t \<noteq> T_Not" using grammar_start(1) by blast
  then show ?case using g_unary by (auto simp: accepts_def Let_def parse_unary_def opt_def token_kind_Cons)
next
  case (g_not t ts e)
  then show ?case by (auto simp: accepts_def Let_def parse_unary_def opt_def token_kind_Cons)
next
  case (g_literal t l)
  then show ?case by (auto simp: accepts_def Let_def primary_def alt_def literal_tokens)
next
  case (g_slot d t v ts xs)
  show ?case unfolding accepts_def level.case Let_def
  proof (intro allI impI)
    fix n rest assume "ends Lv_Unary rest"
    from segments_repeat [OF g_slot(3) this, of "[]"]
    have "slot_access ((d # t # ts) @ rest) = Some (Expr (E_SlotAccess (v # map fst xs))
        (join_spans (bytes d) (snd (last ((v, bytes t) # xs)))), rest)"
      using g_slot(1,2) by (simp add: slot_access_def token_kind_Cons ident_tokens Let_def)
    then show "primary (nested_expression n) ((d # t # ts) @ rest) = Some (Expr (E_SlotAccess (v # map fst xs))
        (join_spans (bytes d) (snd (last ((v, bytes t) # xs)))), rest)"
      using g_slot(1) by (simp add: primary_def alt_def literal_tokens)
  qed
next
  case (g_call t f lp ts as rp)
  show ?case unfolding accepts_def level.case Let_def
  proof (intro allI impI)
    fix n rest assume n: "length (t # lp # ts @ [rp]) \<le> n"
    have "ends Lv_Or (rp # rest)" using g_call.hyps by (simp add: ends_def)
    moreover have "ts = [] \<and> as = [] \<or> as \<noteq> []" using g_call.hyps(3) by (cases rule: arguments.cases) auto
    ultimately have "separated (nested_expression n) (accept_kind K_Comma) (ts @ rp # rest) = Some (as, rp # rest)"
      using g_call.IH n g_call.hyps(4)
      by (auto simp: accepts_args_def separated_def no_expression repeat_stop token_kind_Cons)
    then have "func_call (nested_expression n) ((t # lp # ts @ [rp]) @ rest) =
        Some (Expr (E_FunctionCall f as) (join_spans (bytes t) (bytes rp)), rest)"
      using g_call.hyps by (simp add: func_call_def name_tokens token_kind_Cons)
    moreover have "literal_of (st_token t) = None" "st_token t \<noteq> T_Dollar"
      using g_call.hyps(1) by (cases "st_token t"; simp)+
    ultimately show "primary (nested_expression n) ((t # lp # ts @ [rp]) @ rest) =
        Some (Expr (E_FunctionCall f as) (join_spans (bytes t) (bytes rp)), rest)"
      by (simp add: primary_def alt_def literal_tokens slot_access_def token_kind_Cons)
  qed
next
  case (g_paren lp ts e rp)
  show ?case unfolding accepts_def level.case Let_def
  proof (intro allI impI)
    fix n rest assume n: "length (lp # ts @ [rp]) \<le> n"
    have "ends Lv_Or (rp # rest)" using g_paren.hyps by (simp add: ends_def)
    then have "nested_expression n (ts @ rp # rest) = Some (e, rp # rest)"
      using n by (intro accepts_or [OF g_paren.IH]) auto
    then show "primary (nested_expression n) ((lp # ts @ [rp]) @ rest) = Some (Expr (E_Paren e) (join_spans (bytes lp) (bytes rp)), rest)"
      using g_paren.hyps
      by (simp add: primary_def alt_def literal_tokens slot_access_def func_call_def name_tokens paren_expr_def token_kind_Cons)
  qed
next
  case a_nil
  show ?case by (simp add: accepts_args_def)
next
  case (a_one ts e)
  then show ?case by (auto simp: accepts_args_def separated_def accepts_or)
next
  case (a_snoc ts as c us e)
  show ?case unfolding accepts_args_def
  proof (intro allI impI)
    fix n rest assume n: "length (ts @ c # us) < n" and rest: "ends Lv_Or rest"
    have "ends Lv_Or (c # us @ rest)" using a_snoc.hyps by (simp add: ends_def)
    moreover have "nested_expression n (us @ rest) = Some (e, rest)"
      using n rest by (intro accepts_or [OF a_snoc.IH(2)]) auto
    ultimately show "separated (nested_expression n) (accept_kind K_Comma) ((ts @ c # us) @ rest) =
      repeat (\<lambda>us. case accept_kind K_Comma us of None \<Rightarrow> None | Some (_, vs) \<Rightarrow> nested_expression n vs) (\<lambda>as b. as @ [b]) (as @ [e]) rest"
      using a_snoc n by (simp add: accepts_args_def repeat_step token_kind_Cons)
  qed
qed

text \<open>C22. The parser accepts exactly the token lists of the grammar and returns the tree of the derivation, spans
  included; so a token list has at most one tree.\<close>

theorem parser_is_grammar:
  "parse_expression_tokens env ts = Inr e \<longleftrightarrow> grammar Lv_Or ts e"
proof
  assume "parse_expression_tokens env ts = Inr e"
  then have "nested_expression (Suc (length ts)) ts = Some (e, [])"
    by (auto simp: parse_expression_tokens_def Let_def split: option.splits list.splits simp del: nested_expression.simps)
  then show "grammar Lv_Or ts e" by (rule soundE [OF expression_sound]) simp
next
  assume "grammar Lv_Or ts e"
  from accepts_or [OF accepted(1) [OF this], of "Suc (length ts)" "[]"]
  show "parse_expression_tokens env ts = Inr e"
    by (simp add: parse_expression_tokens_def ends_def del: nested_expression.simps)
qed


section \<open>Fuel\<close>

definition agree :: "nat \<Rightarrow> 'a parser \<Rightarrow> 'a parser \<Rightarrow> bool" where
  "agree k p q \<longleftrightarrow> (\<forall>ts. length ts \<le> k \<longrightarrow> p ts = q ts)"

definition shrinks :: "'a parser \<Rightarrow> bool" where
  "shrinks p \<longleftrightarrow> (\<forall>ts a rest. p ts = Some (a, rest) \<longrightarrow> length rest \<le> length ts)"

lemma sound_shrinks: "sound lv p \<Longrightarrow> shrinks p"
  unfolding sound_def shrinks_def by (metis le_add2 length_append)

lemma agree_repeat: "agree k p q \<Longrightarrow> length ts \<le> k \<Longrightarrow> repeat p f acc ts = repeat q f acc ts"
proof (induction p f acc ts rule: repeat.induct)
  case (1 p f acc ts)
  have "p ts = q ts" using 1(2,3) by (simp add: agree_def)
  then show ?case using 1
    by (simp add: repeat.simps [of p f acc ts] repeat.simps [of q f acc ts] split: option.split)
qed

lemma agree_fold:
  assumes "agree k p q" and "shrinks q"
  shows "agree k (fold_level (op_at lv) p) (fold_level (op_at lv) q)"
  unfolding agree_def
proof (intro allI impI)
  fix ts :: "spanned_token list" assume k: "length ts \<le> k"
  have "agree k (then_operand (op_at lv) p) (then_operand (op_at lv) q)"
    using assms(1) by (auto simp: agree_def then_operand_def op_at_def split: list.splits option.splits)
  then have "length us \<le> k \<Longrightarrow> step_at lv p i us = step_at lv q i us" for i us by (rule agree_repeat)
  moreover have "q ts = Some (i, us) \<Longrightarrow> length us \<le> k" for i us
    using assms(2) k by (fastforce simp: shrinks_def)
  moreover have "p ts = q ts" using assms(1) k by (simp add: agree_def)
  ultimately show "fold_level (op_at lv) p ts = fold_level (op_at lv) q ts"
    by (auto simp: fold_level_def split: option.split)
qed


lemma agree_primary:
  assumes E: "agree k E E'" "sound Lv_Or E'"
  shows "agree (Suc k) (primary E) (primary E')"
  unfolding agree_def
proof (intro allI impI)
  fix ts :: "spanned_token list" assume k: "length ts \<le> Suc k"
  have E': "length us \<le> k \<Longrightarrow> E us = E' us" for us using E(1) by (simp add: agree_def)
  have sh: "E' us = Some (a, vs) \<Longrightarrow> length vs \<le> length us" for us a vs
    using sound_shrinks [OF E(2)] by (simp add: shrinks_def)
  have args: "length us \<le> k \<Longrightarrow> separated E (accept_kind K_Comma) us = separated E' (accept_kind K_Comma) us" for us
  proof -
    assume us: "length us \<le> k"
    have "agree k (\<lambda>us. case accept_kind K_Comma us of None \<Rightarrow> None | Some (_, vs) \<Rightarrow> E vs)
        (\<lambda>us. case accept_kind K_Comma us of None \<Rightarrow> None | Some (_, vs) \<Rightarrow> E' vs)"
      unfolding agree_def by (auto simp: kind_Some E' split: option.split)
    note rep = agree_repeat [OF this]
    show ?thesis
    proof (cases "E' us")
      case (Some x)
      then have "length (snd x) \<le> k" using us sh [of us "fst x" "snd x"] by simp
      then show ?thesis using Some us by (cases x) (simp add: separated_def E' rep)
    qed (use us in \<open>simp add: separated_def E'\<close>)
  qed
  have "func_call E ts = func_call E' ts"
    using k by (auto simp: func_call_def name_tokens kind_Some token_kind_Cons args split: option.split list.split)
  moreover have "paren_expr E ts = paren_expr E' ts"
    using k by (auto simp: paren_expr_def kind_Some token_kind_Cons E' split: option.split)
  ultimately show "primary E ts = primary E' ts"
    by (cases "func_call E' ts") (simp_all add: primary_def alt_def [abs_def] cong: option.case_cong)
qed

lemma agree_levels:
  assumes E: "agree k E E'" "sound Lv_Or E'"
  shows "agree (Suc k) (or_expr E) (or_expr E')"
proof -
  note prim = agree_primary [OF E]
  have un: "agree (Suc k) (parse_unary E) (parse_unary E')"
    using prim by (auto simp: agree_def parse_unary_def opt_def kind_Some split: option.split)
  have un_sh: "shrinks (parse_unary E')" by (rule sound_shrinks [OF sound_unary [OF E(2)]])
  have add: "agree (Suc k) (add_expr E) (add_expr E')"
    unfolding add_expr_def operator_tokens by (rule agree_fold [OF un un_sh])
  note sh = sound_levels [OF E(2), THEN sound_shrinks]
  have cmp: "agree (Suc k) (cmp_expr E) (cmp_expr E')"
    unfolding agree_def
  proof (intro allI impI)
    fix ts :: "spanned_token list" assume k: "length ts \<le> Suc k"
    then have eq: "add_expr E ts = add_expr E' ts" using add by (simp add: agree_def)
    have "then_operand (op_at Lv_Cmp) (add_expr E) us = then_operand (op_at Lv_Cmp) (add_expr E') us" if "length us \<le> Suc k" for us
      using add that by (auto simp: agree_def then_operand_def op_at_def split: list.split option.split)
    moreover have "length us \<le> Suc k" if "add_expr E' ts = Some (l, us)" for l us
      using that sh(4) k by (fastforce simp: shrinks_def)
    ultimately show "cmp_expr E ts = cmp_expr E' ts"
      by (auto simp: cmp_expr_def opt_def operator_tokens eq split: option.split)
  qed
  show ?thesis
    unfolding or_expr_def and_expr_def operator_tokens
    by (intro agree_fold cmp sh(3) sh(2) [unfolded and_expr_def operator_tokens])
qed

text \<open>C39. Fuel of one more than the number of tokens decides every token list: more fuel never changes the result,
  so that a failure is a failure of the grammar's loops and not of the fuel.\<close>

theorem expression_fuel:
  "length ts < n \<Longrightarrow> nested_expression n ts = nested_expression (Suc (length ts)) ts"
proof -
  have "agree k (nested_expression n) (nested_expression (Suc k))" if "k < n" for k n
    using that
  proof (induction k arbitrary: n)
    case 0
    then obtain m where "n = Suc m" by (cases n) auto
    moreover have "or_expr E [] = None" for E
      by (simp add: or_expr_def and_expr_def cmp_expr_def add_expr_def fold_level_def parse_unary_def opt_def
          primary_def alt_def literal_tokens slot_access_def func_call_def name_tokens paren_expr_def)
    ultimately show ?case by (simp add: agree_def)
  next
    case (Suc k)
    then obtain m where m: "n = Suc m" "k < m" by (cases n) auto
    show ?case
      using agree_levels [OF Suc.IH [OF m(2)] expression_sound] m(1) by (simp add: agree_def)
  qed
  then show "length ts < n \<Longrightarrow> ?thesis" by (simp add: agree_def del: nested_expression.simps)
qed

theorem expression_fuel_witness:
  "nested_expression 9 [\<lparr>st_token = T_Null, st_span = \<lparr>ts_bytes = \<lparr>sp_start = 0, sp_end = 4\<rparr>,
     ts_start = \<lparr>sl_line = 1, sl_column = 1\<rparr>, ts_end = \<lparr>sl_line = 1, sl_column = 5\<rparr>\<rparr>\<rparr>] =
   Some (Expr (E_Literal L_Null) \<lparr>sp_start = 0, sp_end = 4\<rparr>, [])"
proof -
  let ?ts = "[\<lparr>st_token = T_Null, st_span = \<lparr>ts_bytes = \<lparr>sp_start = 0, sp_end = 4\<rparr>,
     ts_start = \<lparr>sl_line = 1, sl_column = 1\<rparr>, ts_end = \<lparr>sl_line = 1, sl_column = 5\<rparr>\<rparr>\<rparr>] :: spanned_token list"
  have "nested_expression 9 ?ts = nested_expression (Suc (length ?ts)) ?ts" by (rule expression_fuel) simp
  also have "\<dots> = Some (Expr (E_Literal L_Null) \<lparr>sp_start = 0, sp_end = 4\<rparr>, [])" by code_simp
  finally show ?thesis .
qed

section \<open>Places of tokens\<close>

lemma indices_append: "newline_indices i (u @ v) = newline_indices i u @ newline_indices (i + length u) v"
  by (induction u arbitrary: i) auto

lemma indices_bounds: "j \<in> set (newline_indices i cs) \<Longrightarrow> i \<le> j \<and> j < i + length cs"
  by (induction cs arbitrary: i) (fastforce split: if_splits)+

lemma indices_count: "length (newline_indices i cs) = length (filter (\<lambda>c. c = CHR 0x0A) cs)"
  by (induction cs arbitrary: i) auto

lemma last_start:
  "length u - last (0 # map (\<lambda>i. i + 1) (newline_indices 0 u)) = length (takeWhile (\<lambda>c. c \<noteq> CHR 0x0A) (rev u))"
proof (induction u rule: rev_induct)
  case (snoc c u)
  have "last (0 # map (\<lambda>i. i + 1) (newline_indices 0 u)) \<le> length u"
    using indices_bounds [of _ 0 u] by (auto simp: last_map Suc_le_eq intro: last_in_set)
  with snoc show ?case by (auto simp: indices_append)
qed simp

text \<open>The place of an offset within the source: one more than the newlines before it, and one more than the
  bytes since the last of them.\<close>

theorem location_exact:
  assumes "offset \<le> length source"
  shows "location (line_starts source) offset =
    \<lparr>sl_line = length (filter (\<lambda>c. c = CHR 0x0A) (take offset source)) + 1,
     sl_column = length (takeWhile (\<lambda>c. c \<noteq> CHR 0x0A) (rev (take offset source))) + 1\<rparr>"
proof -
  let ?u = "take offset source" and ?v = "drop offset source"
  let ?A = "0 # map (\<lambda>i. i + 1) (newline_indices 0 ?u)" and ?B = "map (\<lambda>i. i + 1) (newline_indices (length ?u) ?v)"
  have len: "length ?u = offset" using assms by simp
  have starts: "line_starts source = ?A @ ?B"
    using indices_append [of 0 ?u ?v] by (simp add: line_starts_def)
  have "\<forall>x \<in> set ?A. x \<le> offset" using indices_bounds [of _ 0 ?u] len by (auto simp: Suc_le_eq)
  moreover have "takeWhile (\<lambda>start. start \<le> offset) ?B = []"
    using indices_bounds [of _ "length ?u" ?v] len
    by (cases "newline_indices (length ?u) ?v") fastforce+
  ultimately have prefix: "takeWhile (\<lambda>start. start \<le> offset) (line_starts source) = ?A"
    unfolding starts by (simp only: takeWhile_append2 append_Nil2)
  have nth: "line_starts source ! (length ?A - 1) = last ?A"
    unfolding starts by (subst nth_append) (simp add: last_conv_nth del: list.size(4) last.simps)
  have idx: "length ?A - 1 < length (line_starts source)" unfolding starts by simp
  have "location (line_starts source) offset = \<lparr>sl_line = length ?A - 1 + 1, sl_column = offset - last ?A + 1\<rparr>"
    by (simp only: location_def prefix Let_def idx nth if_True)
  then show ?thesis
    using last_start [of ?u] unfolding len by (simp add: indices_count)
qed

theorem location_exact_witness:
  "location (line_starts [CHR ''a'', CHR 0x0A, CHR ''b'', CHR ''c'']) 3 = \<lparr>sl_line = 2, sl_column = 2\<rparr>"
proof -
  have "3 \<le> length [CHR ''a'', CHR 0x0A, CHR ''b'', CHR ''c'']" by simp
  from location_exact [OF this] show ?thesis by (simp add: numeral_3_eq_3)
qed

end
