(* ===== verification/Domain_Types.thy ===== *)
theory Domain_Types
  imports Float64 Job_Model Wildcard
begin

text \<open>
  The validated newtypes of \<open>twerk-core/src/domain\<close>: durations, cron expressions, hostnames, queue names,
  connection strings, endpoints, webhook URLs and priorities. A newtype is its string. The \<open>url\<close> and
  \<open>cron\<close> crates and the case tables of Unicode are the functions of \<open>domain_env\<close>.
\<close>

record parsed_url =
  pu_scheme :: string
  pu_host :: "string option"
  pu_path :: string

record domain_env =
  de_upper :: "string \<Rightarrow> string"
  de_url :: "string \<Rightarrow> string + parsed_url"
  de_cron :: "string \<Rightarrow> string + unit"

section \<open>Durations\<close>

datatype go_duration_error =
    GD_Empty | GD_NoUnit nat | GD_UnknownUnit char | GD_ParseNumber nat | GD_ZeroDuration

definition U64_MAX :: nat where "U64_MAX = 2 ^ 64 - 1"
definition U128_MAX :: nat where "U128_MAX = 2 ^ 128 - 1"

text \<open>\<open>as u128\<close> on a double: truncation, saturating at both ends, 0 for a NaN.\<close>

definition f64_to_u128 :: "f64 \<Rightarrow> nat" where
  "f64_to_u128 x =
     (if f64_is_nan x \<or> f64_sign x then 0
      else if f64_is_inf x then U128_MAX
      else min U128_MAX (f64_scaled_mag (f64_mag x) div 2 ^ 1074))"

definition micro_sign :: string where "micro_sign = [CHR 0xC2, CHR 0xB5]"

text \<open>The unit at the start of a string: how many bytes it takes and its nanoseconds.\<close>

definition duration_unit :: "string \<Rightarrow> (nat \<times> nat) option" where
  "duration_unit s =
     (if prefix ''ns'' s then Some (2, 1)
      else if prefix ''us'' s then Some (2, 1000)
      else if prefix (micro_sign @ ''s'') s then Some (3, 1000)
      else if prefix ''ms'' s then Some (2, 1000000)
      else if prefix ''s'' s then Some (1, 1000000000)
      else if prefix ''m'' s then Some (1, 60000000000)
      else if prefix ''h'' s then Some (1, 3600000000000)
      else if prefix ''d'' s then Some (1, 86400000000000)
      else None)"

definition in_number :: "char \<Rightarrow> bool" where
  "in_number c \<longleftrightarrow> is_digit c \<or> c = CHR ''.''"

definition segment_nanos :: "string \<Rightarrow> nat \<Rightarrow> nat \<Rightarrow> go_duration_error + nat" where
  "segment_nanos num_str multiplier start =
     (if CHR ''.'' \<in> set num_str then
        (case parse_f64 num_str of
           None \<Rightarrow> Inl (GD_ParseNumber start)
         | Some v \<Rightarrow> Inr (f64_to_u128 (f64_mul v (f64_of_int (int multiplier)))))
      else (case parse_usize num_str of
           None \<Rightarrow> Inl (GD_ParseNumber start)
         | Some v \<Rightarrow> Inr (v * multiplier)))"

text \<open>The loop at byte \<open>i\<close> with \<open>total\<close> nanoseconds so far. \<open>u64::try_from(..).unwrap_or(u64::MAX)\<close> saturates.\<close>

function duration_segments :: "nat \<Rightarrow> nat \<Rightarrow> string \<Rightarrow> go_duration_error + nat" where
  "duration_segments i total_ns s =
     (if s = [] then Inr total_ns
      else
        let num_str = takeWhile in_number s; rest = dropWhile in_number s
        in if num_str = [] then Inl (GD_ParseNumber i)
           else if rest = [] then Inl (GD_NoUnit i)
           else (case duration_unit rest of
               None \<Rightarrow> Inl (GD_UnknownUnit (hd rest))
             | Some (unit_len, multiplier) \<Rightarrow>
                 (case segment_nanos num_str multiplier i of
                    Inl e \<Rightarrow> Inl e
                  | Inr nanos \<Rightarrow> duration_segments (i + length num_str + unit_len) (total_ns + min nanos U64_MAX)
                      (drop unit_len rest))))"
  by pat_completeness auto
termination
proof (relation "measure (length \<circ> snd \<circ> snd)")
  fix i n :: nat and s num_str rest :: string and x unit_len multiplier nanos
  assume "s \<noteq> []" "num_str = takeWhile in_number s" "rest = dropWhile in_number s" "num_str \<noteq> []"
  then have "length rest < length s"
    by (metis dropWhile_eq_self_iff hd_Cons_tl length_dropWhile_le nat_less_le takeWhile_eq_Nil_iff
        append_self_conv2 length_append takeWhile_dropWhile_id add_cancel_left_left length_0_conv)
  then show "((i + length num_str + unit_len, n + min nanos U64_MAX, drop unit_len rest), (i, n, s))
      \<in> measure (length \<circ> snd \<circ> snd)" by simp
qed simp

declare duration_segments.simps [simp del]

definition parse_go_duration :: "string \<Rightarrow> go_duration_error + nat" where
  "parse_go_duration s = (if s = [] then Inl GD_Empty else duration_segments 0 0 s)"

definition go_duration_new :: "string \<Rightarrow> go_duration_error + string" where
  "go_duration_new original =
     (if original = [] then Inl GD_Empty
      else res_bind (parse_go_duration original) (\<lambda>_. Inr original))"

text \<open>\<open>None\<close> is the panic of \<open>unreachable!\<close>.\<close>

definition to_duration :: "string \<Rightarrow> nat option" where
  "to_duration d = (case parse_go_duration d of Inl _ \<Rightarrow> None | Inr n \<Rightarrow> Some n)"

section \<open>Cron expressions\<close>

datatype cron_expression_error = CX_Empty | CX_ParseError string | CX_InvalidFieldCount nat

text \<open>\<open>split_whitespace().count()\<close>: the runs of characters between white space.\<close>

fun count_fields :: "bool \<Rightarrow> string list \<Rightarrow> nat" where
  "count_fields inside [] = 0"
| "count_fields inside (c # cs) =
     (if c \<in> set white_spaces then count_fields False cs
      else (if inside then 0 else 1) + count_fields True cs)"

definition validate_field_count :: "string \<Rightarrow> cron_expression_error + nat" where
  "validate_field_count s =
     (let n = count_fields False (utf8_chars s)
      in if n = 5 \<or> n = 6 then Inr n else Inl (CX_InvalidFieldCount n))"

definition normalize_for_cron :: "(string \<Rightarrow> string) \<Rightarrow> string \<Rightarrow> nat \<Rightarrow> string" where
  "normalize_for_cron upper s field_count =
     (let normalized = upper s in if field_count = 5 then ''0 '' @ normalized else normalized)"

definition cron_expression_new :: "domain_env \<Rightarrow> string \<Rightarrow> cron_expression_error + string" where
  "cron_expression_new env s =
     (if s = [] then Inl CX_Empty
      else res_bind (validate_field_count s) (\<lambda>n.
        res_bind (map_err CX_ParseError (de_cron env (normalize_for_cron (de_upper env) s n))) (\<lambda>_. Inr s)))"

section \<open>Hostnames\<close>

datatype hostname_error =
    HN_Empty | HN_TooLong nat | HN_InvalidCharacter string | HN_InvalidLabel string string | HN_LabelTooLong string nat

definition ascii_alnum :: "string \<Rightarrow> bool" where
  "ascii_alnum c \<longleftrightarrow> length c = 1 \<and> is_ascii_alphanumeric (hd c)"

text \<open>The loop over the characters, with their index among the characters, against the length in bytes.\<close>

fun check_middle :: "nat \<Rightarrow> nat \<Rightarrow> string list \<Rightarrow> hostname_error + unit" where
  "check_middle i label_len [] = Inr ()"
| "check_middle i label_len (c # cs) =
     (if i = 0 \<or> i = label_len - 1 then check_middle (Suc i) label_len cs
      else if \<not> ascii_alnum c \<and> c \<noteq> ''-'' then Inl (HN_InvalidCharacter c)
      else check_middle (Suc i) label_len cs)"

definition validate_single_label :: "string \<Rightarrow> hostname_error + unit" where
  "validate_single_label label =
     (let cs = utf8_chars label
      in if length label > 63 then Inl (HN_LabelTooLong label (length label))
         else if label = [] then Inl (HN_InvalidLabel label ''empty'')
         else if \<not> ascii_alnum (hd cs) then Inl (HN_InvalidLabel label ''must start with alphanumeric'')
         else if \<not> ascii_alnum (last cs) then Inl (HN_InvalidLabel label ''must end with alphanumeric'')
         else res_bind (check_middle 0 (length label) cs) (\<lambda>_.
           if list_all (\<lambda>c. length c = 1 \<and> is_digit (hd c)) cs then Inl (HN_InvalidLabel label ''all_numeric'')
           else Inr ()))"

fun try_for_each :: "('a \<Rightarrow> 'e + unit) \<Rightarrow> 'a list \<Rightarrow> 'e + unit" where
  "try_for_each f [] = Inr ()"
| "try_for_each f (x # xs) = res_bind (f x) (\<lambda>_. try_for_each f xs)"

definition hostname_new :: "string \<Rightarrow> hostname_error + string" where
  "hostname_new s =
     (if s = [] then Inl HN_Empty
      else if length s > 253 then Inl (HN_TooLong (length s))
      else if CHR '':'' \<in> set s then Inl (HN_InvalidCharacter '':'')
      else res_bind (try_for_each validate_single_label (split_on CHR ''.'' s)) (\<lambda>_. Inr s))"

section \<open>Queue names, connection strings, endpoints, webhook URLs, priorities\<close>

datatype queue_name_error = QN_InvalidLength nat | QN_InvalidCharacter | QN_Reserved string

definition queue_name_new :: "string \<Rightarrow> queue_name_error + string" where
  "queue_name_new s =
     (if s = [] \<or> length s > 128 then Inl (QN_InvalidLength (length s))
      else if list_all (\<lambda>c. length c = 1 \<and> (is_lower (hd c) \<or> is_digit (hd c)) \<or> c = ''-'' \<or> c = ''_'' \<or> c = ''.'') (utf8_chars s)
      then Inr s else Inl QN_InvalidCharacter)"

datatype dsn_error = DSN_Empty | DSN_InvalidFormat

definition dsn_new :: "string \<Rightarrow> dsn_error + string" where
  "dsn_new s = (if is_blank s then Inl DSN_Empty else if \<not> str_contains s ''='' then Inl DSN_InvalidFormat else Inr s)"

datatype endpoint_error = EP_UrlParseError string | EP_InvalidScheme string | EP_MissingHost

definition http_scheme :: "string \<Rightarrow> bool" where
  "http_scheme scheme \<longleftrightarrow> to_ascii_lowercase scheme = ''http'' \<or> to_ascii_lowercase scheme = ''https''"

definition endpoint_new :: "domain_env \<Rightarrow> string \<Rightarrow> endpoint_error + string" where
  "endpoint_new env s =
     res_bind (map_err EP_UrlParseError (de_url env s)) (\<lambda>parsed.
       if \<not> http_scheme (pu_scheme parsed) then Inl (EP_InvalidScheme (pu_scheme parsed))
       else if pu_host parsed = None then Inl EP_MissingHost else Inr s)"

datatype webhook_url_error =
    WU_UrlParseError string | WU_InvalidScheme string | WU_UrlTooLong | WU_SpaceInPath | WU_ControlCharacterInPath u8

definition is_control_byte :: "char \<Rightarrow> bool" where
  "is_control_byte b \<longleftrightarrow> (of_char b :: nat) = 0 \<or> (of_char b :: nat) < 0x20 \<and> (of_char b :: nat) \<noteq> 0x09"

definition validate_path :: "parsed_url \<Rightarrow> string \<Rightarrow> webhook_url_error + unit" where
  "validate_path parsed original =
     (if str_contains (pu_path parsed) '' '' then Inl WU_SpaceInPath
      else case filter is_control_byte original of
        b # _ \<Rightarrow> Inl (WU_ControlCharacterInPath (of_char b)) | [] \<Rightarrow> Inr ())"

definition webhook_url_new :: "domain_env \<Rightarrow> string \<Rightarrow> webhook_url_error + string" where
  "webhook_url_new env s =
     (if length s > 2048 then Inl WU_UrlTooLong
      else res_bind (map_err WU_UrlParseError (de_url env s)) (\<lambda>parsed.
        if \<not> http_scheme (pu_scheme parsed) then Inl (WU_InvalidScheme (pu_scheme parsed))
        else res_bind (validate_path parsed s) (\<lambda>_. Inr s)))"

datatype priority_error = PR_OutOfRange i64

definition priority_new :: "i64 \<Rightarrow> priority_error + i64" where
  "priority_new v = (if 0 \<le> sint v \<and> sint v \<le> 9 then Inr v else Inl (PR_OutOfRange v))"


section \<open>What the constructors accept\<close>

lemma utf8_chars_ascii:
  "list_all (\<lambda>c. of_char c < (128 :: nat)) s \<Longrightarrow> utf8_chars s = map (\<lambda>c. [c]) s"
  by (induction s) (simp_all add: first_char_def)

lemma utf8_chars_single:
  assumes "list_all (\<lambda>c. length c = 1) (utf8_chars s)"
  shows "utf8_chars s = map (\<lambda>c. [c]) s"
proof -
  have "cs = map (\<lambda>c. [c]) (concat cs)" if "list_all (\<lambda>c. length c = 1) cs" for cs :: "string list"
    using that by (induction cs) (auto simp: length_Suc_conv)
  from this [OF assms] show ?thesis by simp
qed

lemma utf8_chars_all:
  assumes "\<And>c. P c \<Longrightarrow> length c = 1" and "\<And>c. P [c] \<Longrightarrow> of_char c < (128 :: nat)"
  shows "list_all P (utf8_chars s) \<longleftrightarrow> list_all (\<lambda>c. P [c]) s"
proof
  assume *: "list_all P (utf8_chars s)"
  then have "utf8_chars s = map (\<lambda>c. [c]) s"
    using utf8_chars_single [of s] assms(1) by (simp add: list_all_iff)
  with * show "list_all (\<lambda>c. P [c]) s" by (simp add: list_all_iff)
next
  assume *: "list_all (\<lambda>c. P [c]) s"
  then have "utf8_chars s = map (\<lambda>c. [c]) s"
    using utf8_chars_ascii [of s] assms(2) by (simp add: list_all_iff)
  with * show "list_all P (utf8_chars s)" by (simp add: list_all_iff)
qed

lemma ascii_classes [simp]:
  "is_digit c \<Longrightarrow> of_char c < (128 :: nat)" "is_ascii_alphanumeric c \<Longrightarrow> of_char c < (128 :: nat)"
  "is_lower c \<Longrightarrow> of_char c < (128 :: nat)"
  by (auto simp: is_digit_def is_lower_def is_upper_def is_ascii_alphanumeric_def is_ascii_alphabetic_def less_eq_char_def)

lemma try_for_each_Inr: "try_for_each f xs = Inr u \<longleftrightarrow> (\<forall>x \<in> set xs. f x = Inr ())"
  by (induction xs) (auto simp: res_bind_def split: sum.splits)

definition host_label :: "string \<Rightarrow> bool" where
  "host_label l \<longleftrightarrow>
     l \<noteq> [] \<and> length l \<le> 63 \<and> is_ascii_alphanumeric (hd l) \<and> is_ascii_alphanumeric (last l) \<and>
     list_all (\<lambda>c. is_ascii_alphanumeric c \<or> c = CHR ''-'') l \<and> \<not> list_all is_digit l"

lemma check_middle_ok:
  "check_middle i n cs = Inr () \<longleftrightarrow>
     (\<forall>j < length cs. i + j = 0 \<or> i + j = n - 1 \<or> ascii_alnum (cs ! j) \<or> cs ! j = ''-'')"
proof (induction cs arbitrary: i)
  case (Cons c cs)
  have "(\<forall>j < Suc (length cs). P j) \<longleftrightarrow> P 0 \<and> (\<forall>j < length cs. P (Suc j))" for P
    by (auto simp: less_Suc_eq_0_disj)
  with Cons [of "Suc i"] show ?case by auto
qed simp

lemma length_utf8_chars: "length (utf8_chars s) \<le> length s"
proof (induction s rule: utf8_chars.induct)
  case (2 b bs)
  moreover have "0 < length (first_char (b # bs))" by (rule first_char_nonempty) simp
  ultimately show ?case unfolding utf8_chars.simps list.size length_drop by linarith
qed simp

lemma ascii_alnum_single: "ascii_alnum c \<Longrightarrow> length c = 1"
  by (simp add: ascii_alnum_def)

lemma validate_single_label_ok: "validate_single_label l = Inr () \<longleftrightarrow> host_label l"
proof
  let ?cs = "utf8_chars l" and ?P = "\<lambda>c. ascii_alnum c \<or> c = ''-''"
  have P: "list_all ?P ?cs \<longleftrightarrow> list_all (\<lambda>c. is_ascii_alphanumeric c \<or> c = CHR ''-'') l"
    using utf8_chars_all [of ?P l] by (force simp: ascii_alnum_def)
  {
    assume v: "validate_single_label l = Inr ()"
    then have l: "l \<noteq> []" "length l \<le> 63" and h: "ascii_alnum (hd ?cs)" "ascii_alnum (last ?cs)"
      and m: "check_middle 0 (length l) ?cs = Inr ()"
      and d: "\<not> list_all (\<lambda>c. length c = 1 \<and> is_digit (hd c)) ?cs"
      by (auto simp: validate_single_label_def Let_def split: if_splits)
    have "?P (?cs ! j)" if j: "j < length ?cs" for j
    proof -
      have "j = 0 \<or> j = length l - 1 \<or> ?P (?cs ! j)" using m j by (simp add: check_middle_ok)
      moreover have "?cs ! 0 = hd ?cs" using l by (simp add: hd_conv_nth)
      moreover have "?cs ! j = last ?cs" if "j = length l - 1"
      proof -
        have "j = length ?cs - 1" using that j length_utf8_chars [of l] by simp
        then show ?thesis using l by (simp add: last_conv_nth)
      qed
      ultimately show ?thesis using h by metis
    qed
    then have "list_all ?P ?cs" by (simp add: list_all_length)
    then have cs: "?cs = map (\<lambda>c. [c]) l" using P utf8_chars_ascii [of l] by (force simp: list_all_iff)
    show "host_label l"
      using l h d \<open>list_all ?P ?cs\<close> P
      by (simp add: host_label_def cs ascii_alnum_def hd_map last_map) (simp add: list_all_iff)
  }
  assume l: "host_label l"
  then have "list_all ?P ?cs" using P by (simp add: host_label_def)
  moreover from this have cs: "?cs = map (\<lambda>c. [c]) l" using P utf8_chars_ascii [of l] by (force simp: list_all_iff)
  ultimately have "check_middle 0 (length l) ?cs = Inr ()" by (auto simp: check_middle_ok list_all_length)
  then show "validate_single_label l = Inr ()"
    using l by (simp add: validate_single_label_def Let_def host_label_def ascii_alnum_def hd_map last_map
        cs list_all_iff)
qed

lemma split_on_no_in: "c \<noteq> sep \<Longrightarrow> c \<in> set s \<Longrightarrow> \<exists>l \<in> set (split_on sep s). c \<in> set l"
  by (induction s) (force split: list.splits)+

text \<open>\<open>Hostname::new\<close> accepts exactly the RFC 1123 names that are not numeric: at most 253 bytes in
  labels of 1 to 63 letters, digits and hyphens, no hyphen at a label's ends, no label all digits; the
  name is stored unchanged, and the check for a colon never decides (a label would reject it).
\<close>

theorem hostname_accepts:
  "hostname_new s = Inr t \<longleftrightarrow>
     t = s \<and> s \<noteq> [] \<and> length s \<le> 253 \<and> list_all host_label (split_on CHR ''.'' s)"
proof -
  have "CHR '':'' \<notin> set s" if "list_all host_label (split_on CHR ''.'' s)"
  proof
    assume "CHR '':'' \<in> set s"
    then obtain l where "l \<in> set (split_on CHR ''.'' s)" "CHR '':'' \<in> set l"
      using split_on_no_in [of "CHR '':''" "CHR ''.''" s] by auto
    with that have "is_ascii_alphanumeric (CHR '':'')" by (force simp: list_all_iff host_label_def)
    then show False by (simp add: is_ascii_alphanumeric_def is_ascii_alphabetic_def is_digit_def is_lower_def
          is_upper_def less_eq_char_def)
  qed
  then show ?thesis
    by (auto simp: hostname_new_def res_simps try_for_each_Inr validate_single_label_ok list_all_iff)
qed

section \<open>What a duration denotes\<close>

definition go_units :: "(string \<times> nat) list" where
  "go_units =
     [(''ns'', 1), (''us'', 1000), (micro_sign @ ''s'', 1000), (''ms'', 1000000), (''s'', 1000000000),
      (''m'', 60000000000), (''h'', 3600000000000), (''d'', 86400000000000)]"

definition print_duration :: "(nat \<times> string \<times> nat) list \<Rightarrow> string" where
  "print_duration segs = concat (map (\<lambda>(n, u, _). show_nat n @ u) segs)"

lemma print_duration_simps [simp]:
  "print_duration [] = []" "print_duration ((n, u, m) # segs) = show_nat n @ u @ print_duration segs"
  by (simp_all add: print_duration_def)

lemma not_in_number [simp]: "\<not> in_number (CHR ''n'')" "\<not> in_number (CHR ''u'')" "\<not> in_number (CHR ''s'')"
  "\<not> in_number (CHR ''m'')" "\<not> in_number (CHR ''h'')" "\<not> in_number (CHR ''d'')" "\<not> in_number (CHR 0xC2)"
  by (simp_all add: in_number_def is_digit_def less_eq_char_def)

lemma duration_unit_of:
  assumes "(u, m) \<in> set go_units" "r = [] \<or> is_digit (hd r)"
  shows "duration_unit (u @ r) = Some (length u, m)"
proof -
  have s: "\<not> prefix ''s'' r" using assms(2) by (cases r) (auto simp: is_digit_def less_eq_char_def)
  then have "list_all (\<lambda>x. duration_unit (fst x @ r) = Some (length (fst x), snd x)) go_units"
    unfolding go_units_def list.pred_inject fst_conv snd_conv
    by (intro conjI TrueI) (simp_all add: duration_unit_def micro_sign_def)
  with assms(1) show ?thesis by (force simp: list_all_iff)
qed

lemma go_units_head: "(u, m) \<in> set go_units \<Longrightarrow> u \<noteq> [] \<and> \<not> in_number (hd u)"
  by (auto simp: go_units_def micro_sign_def)

lemma show_nat_90: "show_nat 90 = ''90''" by code_simp
lemma show_nat_500: "show_nat 500 = ''500''" by code_simp
lemma show_nat_30: "show_nat 30 = ''30''" by code_simp

lemma number_prefix:
  "list_all is_digit d \<Longrightarrow> u \<noteq> [] \<Longrightarrow> \<not> in_number (hd u) \<Longrightarrow>
    takeWhile in_number (d @ u @ r) = d \<and> dropWhile in_number (d @ u @ r) = u @ r"
  by (induction d) (auto simp: in_number_def neq_Nil_conv)

lemma segment_nanos_show: "n < 2 ^ 64 \<Longrightarrow> segment_nanos (show_nat n) m i = Inr (n * m)"
proof -
  have "CHR ''.'' \<notin> set (show_nat n)"
    using show_nat_digits [of n] by (auto simp: list_all_iff is_digit_def less_eq_char_def)
  moreover assume "n < 2 ^ 64"
  ultimately show ?thesis using parse_usize_show [of n] by (simp add: segment_nanos_def)
qed

lemma duration_segments_step:
  assumes "n < 2 ^ 64" "(u, m) \<in> set go_units" "r = [] \<or> is_digit (hd r)"
  shows "duration_segments i t (show_nat n @ u @ r) =
    duration_segments (i + length (show_nat n) + length u) (t + min (n * m) U64_MAX) r"
proof -
  have "show_nat n \<noteq> []" "list_all is_digit (show_nat n)" using show_nat_digits by blast+
  with number_prefix [of "show_nat n" u r] duration_unit_of [OF assms(2,3)] go_units_head [OF assms(2)]
    segment_nanos_show [OF assms(1)]
  show ?thesis by (simp add: duration_segments.simps [of i t "show_nat n @ u @ r"] Let_def)
qed

lemma print_duration_head: "print_duration segs = [] \<or> is_digit (hd (print_duration segs))"
proof (cases segs)
  case (Cons a _)
  then show ?thesis using show_nat_digits [of "fst a"] by (cases a) (auto simp: neq_Nil_conv)
qed simp

lemma duration_segments_print:
  assumes "\<forall>(n, u, m) \<in> set segs. n < 2 ^ 64 \<and> (u, m) \<in> set go_units"
  shows "duration_segments i t (print_duration segs) = Inr (t + (\<Sum>(n, u, m) \<leftarrow> segs. min (n * m) U64_MAX))"
  using assms
proof (induction segs arbitrary: i t)
  case (Cons a segs)
  obtain n u m where a: "a = (n, u, m)" by (cases a)
  show ?case
    using Cons a duration_segments_step [of n u m "print_duration segs" i t] print_duration_head [of segs] by simp
qed (simp add: duration_segments.simps)

lemma duration_unit_length: "duration_unit s = Some (k, m) \<Longrightarrow> 0 < k \<and> k \<le> length s"
  by (auto simp: duration_unit_def micro_sign_def prefix_def split: if_splits)

lemma duration_segments_bound:
  "duration_segments i t s = Inr n \<Longrightarrow> t \<le> n \<and> 2 * n \<le> 2 * t + length s * U64_MAX"
proof (induction i t s arbitrary: n rule: duration_segments.induct)
  case (1 i t s)
  show ?case
  proof (cases "s = []")
    case True
    with 1 show ?thesis by (simp add: duration_segments.simps)
  next
    case False
    let ?num = "takeWhile in_number s" and ?rest = "dropWhile in_number s"
    from "1.prems" False obtain k m ns where
      st: "?num \<noteq> []" "?rest \<noteq> []" "duration_unit ?rest = Some (k, m)" "segment_nanos ?num m i = Inr ns"
      and rec: "duration_segments (i + length ?num + k) (t + min ns U64_MAX) (drop k ?rest) = Inr n"
      by (subst (asm) duration_segments.simps) (auto simp: Let_def split: if_splits option.splits sum.splits)
    have "length s = length ?num + length ?rest" by (metis length_append takeWhile_dropWhile_id)
    moreover have "0 < k" "k \<le> length ?rest" "0 < length ?num" using duration_unit_length [OF st(3)] st(1) by auto
    ultimately have "length (drop k ?rest) + 2 \<le> length s" unfolding length_drop by linarith
    then have "(length (drop k ?rest) + 2) * U64_MAX \<le> length s * U64_MAX" by (rule mult_le_mono1)
    moreover have "t + min ns U64_MAX \<le> n \<and> 2 * n \<le> 2 * (t + min ns U64_MAX) + length (drop k ?rest) * U64_MAX"
      using "1.IH" [OF False refl refl st(1,2) st(3) refl st(4) rec] .
    ultimately show ?thesis by (simp add: add_mult_distrib) linarith
  qed
qed

text \<open>Parsing a printed duration gives its nanoseconds: a segment counts its number times its unit, cut off
  at 2 to the 64 - 1 nanoseconds, and the segments add up.
\<close>

theorem go_duration_roundtrip:
  assumes "segs \<noteq> []" and "\<forall>(n, u, m) \<in> set segs. n < 2 ^ 64 \<and> (u, m) \<in> set go_units"
  shows "go_duration_new (print_duration segs) = Inr (print_duration segs) \<and>
    to_duration (print_duration segs) = Some (\<Sum>(n, u, m) \<leftarrow> segs. min (n * m) U64_MAX)"
proof -
  have "print_duration segs \<noteq> []" using assms(1) show_nat_digits by (cases segs) auto
  then show ?thesis
    using duration_segments_print [OF assms(2), of 0 0]
    by (simp add: go_duration_new_def to_duration_def parse_go_duration_def)
qed

theorem go_duration_roundtrip_witness:
  "to_duration ''90m500ms'' = Some 5400500000000"
proof -
  have p: "print_duration [(90, ''m'', 60000000000), (500, ''ms'', 1000000)] = ''90m500ms''"
    using show_nat_90 show_nat_500 by simp
  have "to_duration (print_duration [(90, ''m'', 60000000000), (500, ''ms'', 1000000)]) =
      Some (\<Sum>(n, u, m) \<leftarrow> [(90, ''m'', 60000000000), (500, ''ms'', 1000000)]. min (n * m) U64_MAX)"
    by (rule go_duration_roundtrip [THEN conjunct2]) (auto simp: go_units_def)
  then show ?thesis unfolding p by (simp add: U64_MAX_def)
qed

text \<open>
  The sum of a duration string of up to 2 000 000 000 bytes stays below what \<open>Duration\<close> can hold (2 to
  the 64 seconds), so \<open>total += ..\<close> does not panic, and a duration accepted by \<open>new\<close> never takes the
  \<open>unreachable!\<close> branch of \<open>to_duration\<close>.
\<close>

theorem go_duration_total:
  assumes "go_duration_new s = Inr d" and "length s \<le> 2000000000"
  shows "d = s \<and> (\<exists>n. to_duration d = Some n \<and> n < 2 ^ 64 * 1000000000)"
proof -
  obtain n where n: "duration_segments 0 0 s = Inr n" "s \<noteq> []" and d: "d = s"
    using assms(1) unfolding go_duration_new_def parse_go_duration_def
    by (cases "s = []"; cases "duration_segments 0 0 s") auto
  have "2 * n \<le> length s * U64_MAX" using duration_segments_bound [OF n(1)] by simp
  also have "\<dots> \<le> 2000000000 * U64_MAX" using assms(2) by (rule mult_le_mono1)
  finally have "n < 2 ^ 64 * 1000000000" by (simp add: U64_MAX_def)
  with n d show ?thesis by (simp add: to_duration_def parse_go_duration_def)
qed

theorem go_duration_total_witness: "\<exists>n. to_duration ''30m'' = Some n \<and> n < 2 ^ 64 * 1000000000"
proof -
  have p: "print_duration [(30, ''m'', 60000000000)] = ''30m''" using show_nat_30 by simp
  have "\<exists>n. duration_segments 0 0 (print_duration [(30, ''m'', 60000000000)]) = Inr n"
    by (subst duration_segments_print) (auto simp: go_units_def)
  then have "go_duration_new ''30m'' = Inr ''30m''"
    unfolding p by (auto simp: go_duration_new_def parse_go_duration_def)
  from go_duration_total [OF this] show ?thesis by simp
qed

end
