(* ===== verification/Trigger_Data.thy ===== *)
theory Trigger_Data
  imports Domain_Types
begin

text \<open>
  Trigger configurations (\<open>twerk-core/src/trigger/data\<close>, \<open>id/trigger_id.rs\<close>): HTTP methods,
  authentication, and the cron, webhook and polling triggers, built either by their \<open>new\<close> or from JSON.
  Header maps are association lists in the order the hash map yields. The \<open>uuid\<close>, \<open>chrono-tz\<close> and
  \<open>jmespath\<close> crates are functions of \<open>trigger_env\<close>.
\<close>

record trigger_env = domain_env +
  te_uni :: "string \<Rightarrow> bool"
  te_timezone :: "string \<Rightarrow> bool"
  te_jmespath :: "string \<Rightarrow> string + unit"

section \<open>Identifiers and errors\<close>

definition trigger_id_new :: "(string \<Rightarrow> bool) \<Rightarrow> string \<Rightarrow> id_error + string" where
  "trigger_id_new uni value =
     (if value = [] then Inl ID_Empty
      else if length value < 3 then Inl (ID_TooShort (length value))
      else if length value > 64 then Inl (ID_TooLong (length value))
      else if list_all (\<lambda>c. is_alphanumeric uni c \<or> c = ''-'' \<or> c = ''_'') (utf8_chars value)
      then Inr value else Inl ID_InvalidCharacters)"

datatype trigger_data_error =
    TD_InvalidTriggerId id_error
  | TD_InvalidCronExpression cron_expression_error
  | TD_InvalidInterval go_duration_error
  | TD_InvalidTimezone string
  | TD_InvalidUrl string
  | TD_InvalidHttpMethod string
  | TD_EmptyRequiredField string
  | TD_InvalidJmespath string
  | TD_HeaderLimitExceeded string

section \<open>HTTP methods\<close>

datatype http_method = HM_Get | HM_Post | HM_Put | HM_Delete | HM_Patch

definition http_method_from_str :: "string \<Rightarrow> trigger_data_error + http_method" where
  "http_method_from_str s =
     (let u = to_uppercase s
      in if u = ''GET'' then Inr HM_Get
         else if u = ''POST'' then Inr HM_Post
         else if u = ''PUT'' then Inr HM_Put
         else if u = ''DELETE'' then Inr HM_Delete
         else if u = ''PATCH'' then Inr HM_Patch
         else Inl (TD_InvalidHttpMethod s))"

fun http_method_display :: "http_method \<Rightarrow> string" where
  "http_method_display HM_Get = ''GET''"
| "http_method_display HM_Post = ''POST''"
| "http_method_display HM_Put = ''PUT''"
| "http_method_display HM_Delete = ''DELETE''"
| "http_method_display HM_Patch = ''PATCH''"

section \<open>Authentication\<close>

datatype webhook_auth =
    WA_None
  | WA_Basic (wa_username: string) (wa_password: string)
  | WA_Bearer (wa_token: string)
  | WA_ApiKey (wa_key: string) (wa_value: string) (wa_header_name: string)

definition new_basic :: "string \<Rightarrow> string \<Rightarrow> trigger_data_error + webhook_auth" where
  "new_basic username password =
     (if username = [] then Inl (TD_EmptyRequiredField ''basic_auth_username'')
      else if password = [] then Inl (TD_EmptyRequiredField ''basic_auth_password'')
      else Inr (WA_Basic username password))"

definition new_bearer :: "string \<Rightarrow> trigger_data_error + webhook_auth" where
  "new_bearer token =
     (if token = [] then Inl (TD_EmptyRequiredField ''bearer_token'') else Inr (WA_Bearer token))"

definition new_api_key :: "string \<Rightarrow> string \<Rightarrow> string \<Rightarrow> trigger_data_error + webhook_auth" where
  "new_api_key key v header_name =
     (if key = [] then Inl (TD_EmptyRequiredField ''apikey_key'')
      else if v = [] then Inl (TD_EmptyRequiredField ''apikey_value'')
      else if header_name = [] then Inl (TD_EmptyRequiredField ''apikey_header_name'')
      else Inr (WA_ApiKey key v header_name))"

section \<open>Validation\<close>

definition normalize_timezone :: "string \<Rightarrow> string" where
  "normalize_timezone tz = (if tz = ''Z'' then ''UTC'' else tz)"

definition validate_timezone :: "trigger_env \<Rightarrow> string \<Rightarrow> trigger_data_error + unit" where
  "validate_timezone env tz = (if te_timezone env tz then Inr () else Inl (TD_InvalidTimezone tz))"

definition validate_url :: "string \<Rightarrow> trigger_data_error + unit" where
  "validate_url url =
     (if \<not> prefix ''http://'' url \<and> \<not> prefix ''https://'' url then Inl (TD_InvalidUrl url) else Inr ())"

fun check_headers :: "smap \<Rightarrow> trigger_data_error + unit" where
  "check_headers [] = Inr ()"
| "check_headers ((name, v) # hs) =
     (if length name > 512 then Inl (TD_HeaderLimitExceeded ''header name exceeds 512 bytes'')
      else if length v > 8192 then Inl (TD_HeaderLimitExceeded ''header value exceeds 8192 bytes'')
      else check_headers hs)"

definition validate_headers :: "smap \<Rightarrow> trigger_data_error + unit" where
  "validate_headers headers =
     (if length headers > 64 then Inl (TD_HeaderLimitExceeded ''header count exceeds 64'')
      else check_headers headers)"

fun validate_webhook_auth :: "webhook_auth \<Rightarrow> trigger_data_error + unit" where
  "validate_webhook_auth WA_None = Inr ()"
| "validate_webhook_auth (WA_Basic username password) =
     (if username = [] then Inl (TD_EmptyRequiredField ''basic_auth_username'')
      else if password = [] then Inl (TD_EmptyRequiredField ''basic_auth_password'')
      else Inr ())"
| "validate_webhook_auth (WA_Bearer token) =
     (if token = [] then Inl (TD_EmptyRequiredField ''bearer_token'') else Inr ())"
| "validate_webhook_auth (WA_ApiKey key v header_name) =
     (if key = [] then Inl (TD_EmptyRequiredField ''apikey_key'')
      else if v = [] then Inl (TD_EmptyRequiredField ''apikey_value'')
      else if header_name = [] then Inl (TD_EmptyRequiredField ''apikey_header_name'')
      else Inr ())"

definition opt_check :: "('a \<Rightarrow> 'e + unit) \<Rightarrow> 'a option \<Rightarrow> 'e + unit" where
  "opt_check f x = (case x of None \<Rightarrow> Inr () | Some a \<Rightarrow> f a)"

definition validate_webhook :: "string \<Rightarrow> webhook_auth \<Rightarrow> smap option \<Rightarrow> trigger_data_error + unit" where
  "validate_webhook url auth headers =
     res_bind (validate_url url) (\<lambda>_.
     res_bind (validate_webhook_auth auth) (\<lambda>_.
       opt_check validate_headers headers))"

definition validate_jmespath :: "trigger_env \<Rightarrow> string \<Rightarrow> trigger_data_error + unit" where
  "validate_jmespath env expr = map_err TD_InvalidJmespath (te_jmespath env expr)"

text \<open>
  The checks that call \<open>to_duration\<close>, which panics on a duration that does not parse: \<open>None\<close> is the
  panic, which nothing catches.
\<close>

definition validate_interval_nonzero :: "string \<Rightarrow> (trigger_data_error + unit) option" where
  "validate_interval_nonzero interval =
     map_option (\<lambda>n. if n = 0 then Inl (TD_InvalidInterval GD_ZeroDuration) else Inr ()) (to_duration interval)"

definition validate_timeout_nonzero :: "string option \<Rightarrow> (trigger_data_error + unit) option" where
  "validate_timeout_nonzero timeout =
     (case timeout of None \<Rightarrow> Some (Inr ()) | Some t \<Rightarrow>
       map_option (\<lambda>n. if n = 0 then Inl (TD_InvalidInterval GD_ZeroDuration) else Inr ()) (to_duration t))"

text \<open>\<open>?\<close> after a step that may also panic.\<close>

definition try_panic :: "('e + 'a) option \<Rightarrow> ('a \<Rightarrow> ('e + 'b) option) \<Rightarrow> ('e + 'b) option" where
  "try_panic r f = (case r of None \<Rightarrow> None | Some (Inl e) \<Rightarrow> Some (Inl e) | Some (Inr a) \<Rightarrow> f a)"

definition validate_polling ::
  "trigger_env \<Rightarrow> string \<Rightarrow> webhook_auth \<Rightarrow> smap option \<Rightarrow> string \<Rightarrow> string option \<Rightarrow> string option \<Rightarrow>
     (trigger_data_error + unit) option" where
  "validate_polling env url auth headers interval timeout stop_condition =
     try_panic (Some (validate_url url)) (\<lambda>_.
     try_panic (Some (validate_webhook_auth auth)) (\<lambda>_.
     try_panic (validate_interval_nonzero interval) (\<lambda>_.
     try_panic (validate_timeout_nonzero timeout) (\<lambda>_.
     try_panic (Some (opt_check (validate_jmespath env) stop_condition)) (\<lambda>_.
       Some (opt_check validate_headers headers))))))"

section \<open>Triggers\<close>

record cron_trigger =
  ct_id :: string
  ct_name :: "string option"
  ct_description :: "string option"
  ct_cron :: string
  ct_timezone :: string
  ct_disabled :: bool
  ct_payload :: "json option"

record webhook_trigger =
  wt_id :: string
  wt_name :: "string option"
  wt_description :: "string option"
  wt_url :: string
  wt_method :: http_method
  wt_auth :: webhook_auth
  wt_headers :: "smap option"
  wt_body_template :: "string option"
  wt_payload :: "json option"
  wt_disabled :: bool

record polling_trigger =
  pt_id :: string
  pt_name :: "string option"
  pt_description :: "string option"
  pt_url :: string
  pt_method :: http_method
  pt_auth :: webhook_auth
  pt_headers :: "smap option"
  pt_interval :: string
  pt_timeout :: "string option"
  pt_stop_condition :: "string option"
  pt_payload :: "json option"
  pt_disabled :: bool

datatype trigger_data = TRG_Cron cron_trigger | TRG_Webhook webhook_trigger | TRG_Polling polling_trigger

definition cron_trigger_new ::
  "trigger_env \<Rightarrow> string \<Rightarrow> string option \<Rightarrow> string option \<Rightarrow> string \<Rightarrow> string \<Rightarrow> bool \<Rightarrow> json option \<Rightarrow>
     trigger_data_error + cron_trigger" where
  "cron_trigger_new env i name description cron timezone disabled payload =
     res_bind (map_err TD_InvalidTriggerId (trigger_id_new (te_uni env) i)) (\<lambda>i'.
     res_bind (map_err TD_InvalidCronExpression (cron_expression_new (domain_env.truncate env) cron)) (\<lambda>cron'.
       let tz = normalize_timezone timezone
       in res_bind (validate_timezone env tz) (\<lambda>_.
         Inr \<lparr>ct_id = i', ct_name = name, ct_description = description, ct_cron = cron', ct_timezone = tz,
           ct_disabled = disabled, ct_payload = payload\<rparr>)))"

definition webhook_trigger_new ::
  "trigger_env \<Rightarrow> string \<Rightarrow> string option \<Rightarrow> string option \<Rightarrow> string \<Rightarrow> http_method \<Rightarrow> webhook_auth \<Rightarrow>
     smap option \<Rightarrow> string option \<Rightarrow> json option \<Rightarrow> bool \<Rightarrow> trigger_data_error + webhook_trigger" where
  "webhook_trigger_new env i name description url meth auth headers body_template payload disabled =
     res_bind (map_err TD_InvalidTriggerId (trigger_id_new (te_uni env) i)) (\<lambda>i'.
     res_bind (validate_webhook url auth headers) (\<lambda>_.
       Inr \<lparr>wt_id = i', wt_name = name, wt_description = description, wt_url = url, wt_method = meth,
         wt_auth = auth, wt_headers = headers, wt_body_template = body_template, wt_payload = payload,
         wt_disabled = disabled\<rparr>))"

text \<open>The interval is parsed before the id is checked; the timeout is taken as a value of the type.\<close>

definition polling_trigger_new ::
  "trigger_env \<Rightarrow> string \<Rightarrow> string option \<Rightarrow> string option \<Rightarrow> string \<Rightarrow> http_method \<Rightarrow> webhook_auth \<Rightarrow>
     smap option \<Rightarrow> string \<Rightarrow> string option \<Rightarrow> string option \<Rightarrow> json option \<Rightarrow> bool \<Rightarrow>
     (trigger_data_error + polling_trigger) option" where
  "polling_trigger_new env i name description url meth auth headers interval timeout stop_condition payload disabled =
     try_panic (Some (map_err TD_InvalidInterval (go_duration_new interval))) (\<lambda>interval'.
     try_panic (Some (map_err TD_InvalidTriggerId (trigger_id_new (te_uni env) i))) (\<lambda>i'.
     try_panic (validate_polling env url auth headers interval' timeout stop_condition) (\<lambda>_.
       Some (Inr \<lparr>pt_id = i', pt_name = name, pt_description = description, pt_url = url, pt_method = meth,
         pt_auth = auth, pt_headers = headers, pt_interval = interval', pt_timeout = timeout,
         pt_stop_condition = stop_condition, pt_payload = payload, pt_disabled = disabled\<rparr>))))"

section \<open>Triggers from JSON\<close>

text \<open>
  The derived deserializers of the \<open>Raw\<close> structs give each field its type: an id through
  \<open>TriggerId::new\<close>, a method by its upper-case name, and a cron expression or a duration as any string
  (the two derive \<open>Deserialize\<close> with \<open>serde(transparent)\<close>). A raw struct is the trigger record itself.
\<close>

definition trigger_id_deserialize :: "trigger_env \<Rightarrow> string \<Rightarrow> trigger_data_error + string" where
  "trigger_id_deserialize env s = map_err TD_InvalidTriggerId (trigger_id_new (te_uni env) s)"

definition cron_trigger_deserialize :: "trigger_env \<Rightarrow> cron_trigger \<Rightarrow> trigger_data_error + cron_trigger" where
  "cron_trigger_deserialize env raw =
     res_bind (trigger_id_deserialize env (ct_id raw)) (\<lambda>i.
     res_bind (validate_timezone env (ct_timezone raw)) (\<lambda>_.
       Inr (raw\<lparr>ct_id := i, ct_timezone := normalize_timezone (ct_timezone raw)\<rparr>)))"

definition webhook_trigger_deserialize :: "trigger_env \<Rightarrow> webhook_trigger \<Rightarrow> trigger_data_error + webhook_trigger" where
  "webhook_trigger_deserialize env raw =
     res_bind (trigger_id_deserialize env (wt_id raw)) (\<lambda>i.
     res_bind (validate_webhook (wt_url raw) (wt_auth raw) (wt_headers raw)) (\<lambda>_.
       Inr (raw\<lparr>wt_id := i\<rparr>)))"

definition polling_trigger_deserialize ::
  "trigger_env \<Rightarrow> polling_trigger \<Rightarrow> (trigger_data_error + polling_trigger) option" where
  "polling_trigger_deserialize env raw =
     try_panic (Some (trigger_id_deserialize env (pt_id raw))) (\<lambda>i.
     try_panic (validate_polling env (pt_url raw) (pt_auth raw) (pt_headers raw) (pt_interval raw) (pt_timeout raw)
        (pt_stop_condition raw)) (\<lambda>_.
       Some (Inr (raw\<lparr>pt_id := i\<rparr>))))"

definition trigger_deserialize :: "trigger_env \<Rightarrow> trigger_data \<Rightarrow> (trigger_data_error + trigger_data) option" where
  "trigger_deserialize env raw =
     (case raw of
        TRG_Cron r \<Rightarrow> Some (res_bind (cron_trigger_deserialize env r) (\<lambda>t. Inr (TRG_Cron t)))
      | TRG_Webhook r \<Rightarrow> Some (res_bind (webhook_trigger_deserialize env r) (\<lambda>t. Inr (TRG_Webhook t)))
      | TRG_Polling r \<Rightarrow> try_panic (polling_trigger_deserialize env r) (\<lambda>t. Some (Inr (TRG_Polling t))))"

section \<open>Which triggers are accepted\<close>

definition trigger_id_ok :: "(string \<Rightarrow> bool) \<Rightarrow> string \<Rightarrow> bool" where
  "trigger_id_ok uni s \<longleftrightarrow>
     3 \<le> length s \<and> length s \<le> 64 \<and>
     list_all (\<lambda>c. is_alphanumeric uni c \<or> c = ''-'' \<or> c = ''_'') (utf8_chars s)"

definition auth_ok :: "webhook_auth \<Rightarrow> bool" where
  "auth_ok a \<longleftrightarrow> (case a of WA_None \<Rightarrow> True | WA_Basic u p \<Rightarrow> u \<noteq> [] \<and> p \<noteq> [] | WA_Bearer t \<Rightarrow> t \<noteq> []
     | WA_ApiKey k v h \<Rightarrow> k \<noteq> [] \<and> v \<noteq> [] \<and> h \<noteq> [])"

definition headers_ok :: "smap \<Rightarrow> bool" where
  "headers_ok hs \<longleftrightarrow> length hs \<le> 64 \<and> (\<forall>(n, v) \<in> set hs. length n \<le> 512 \<and> length v \<le> 8192)"

definition endpoint_ok :: "string \<Rightarrow> webhook_auth \<Rightarrow> smap option \<Rightarrow> bool" where
  "endpoint_ok url auth headers \<longleftrightarrow>
     (prefix ''http://'' url \<or> prefix ''https://'' url) \<and> auth_ok auth \<and> pred_option headers_ok headers"

definition nonzero_duration :: "string \<Rightarrow> bool" where
  "nonzero_duration d \<longleftrightarrow> (case to_duration d of None \<Rightarrow> False | Some n \<Rightarrow> n \<noteq> 0)"

definition polling_ok :: "trigger_env \<Rightarrow> polling_trigger \<Rightarrow> bool" where
  "polling_ok env t \<longleftrightarrow>
     trigger_id_ok (te_uni env) (pt_id t) \<and> endpoint_ok (pt_url t) (pt_auth t) (pt_headers t) \<and>
     nonzero_duration (pt_interval t) \<and> pred_option nonzero_duration (pt_timeout t) \<and>
     pred_option (\<lambda>e. te_jmespath env e = Inr ()) (pt_stop_condition t)"

named_theorems trigger_simps

lemma trigger_id_new_Inr [trigger_simps]: "trigger_id_new uni s = Inr t \<longleftrightarrow> t = s \<and> trigger_id_ok uni s"
  by (auto simp: trigger_id_new_def trigger_id_ok_def)

lemma validate_url_Inr [trigger_simps]:
  "validate_url url = Inr u \<longleftrightarrow> prefix ''http://'' url \<or> prefix ''https://'' url"
  by (simp add: validate_url_def)

lemma validate_auth_Inr [trigger_simps]: "validate_webhook_auth a = Inr u \<longleftrightarrow> auth_ok a"
  by (cases a) (simp_all add: auth_ok_def)

lemma check_headers_Inr: "check_headers hs = Inr u \<longleftrightarrow> (\<forall>(n, v) \<in> set hs. length n \<le> 512 \<and> length v \<le> 8192)"
  by (induction hs rule: check_headers.induct) auto

lemma validate_headers_Inr [trigger_simps]: "validate_headers hs = Inr u \<longleftrightarrow> headers_ok hs"
  by (auto simp: validate_headers_def headers_ok_def check_headers_Inr)

lemma opt_check_Inr [trigger_simps]: "opt_check f x = Inr u \<longleftrightarrow> pred_option (\<lambda>a. f a = Inr ()) x"
  by (cases x) (simp_all add: opt_check_def)

lemma validate_webhook_Inr [trigger_simps]: "validate_webhook url auth headers = Inr u \<longleftrightarrow> endpoint_ok url auth headers"
  by (simp add: validate_webhook_def res_simps trigger_simps endpoint_ok_def)

lemma try_panic_Inr [trigger_simps]: "try_panic r f = Some (Inr b) \<longleftrightarrow> (\<exists>a. r = Some (Inr a) \<and> f a = Some (Inr b))"
  by (auto simp: try_panic_def split: option.splits sum.splits)

lemma interval_Inr [trigger_simps]: "validate_interval_nonzero i = Some (Inr u) \<longleftrightarrow> nonzero_duration i"
  by (auto simp: validate_interval_nonzero_def nonzero_duration_def split: option.splits)

lemma timeout_Inr [trigger_simps]: "validate_timeout_nonzero t = Some (Inr u) \<longleftrightarrow> pred_option nonzero_duration t"
  by (auto simp: validate_timeout_nonzero_def nonzero_duration_def split: option.splits)

lemma validate_polling_Inr [trigger_simps]:
  "validate_polling env url auth headers interval timeout stop_condition = Some (Inr u) \<longleftrightarrow>
     endpoint_ok url auth headers \<and> nonzero_duration interval \<and> pred_option nonzero_duration timeout \<and>
     pred_option (\<lambda>e. te_jmespath env e = Inr ()) stop_condition"
  by (auto simp: validate_polling_def trigger_simps endpoint_ok_def validate_jmespath_def map_err_Inr)

lemma go_duration_new_Inr [trigger_simps]: "go_duration_new s = Inr d \<longleftrightarrow> d = s \<and> to_duration s \<noteq> None"
  by (cases "s = []")
    (auto simp: to_duration_def go_duration_new_def parse_go_duration_def res_bind_def split: sum.splits)

lemma nonzero_duration_parses: "nonzero_duration s \<Longrightarrow> to_duration s \<noteq> None"
  by (auto simp: nonzero_duration_def split: option.splits)

definition cron_ok :: "trigger_env \<Rightarrow> string \<Rightarrow> bool" where
  "cron_ok env s \<longleftrightarrow>
     (let n = count_fields False (utf8_chars s)
      in s \<noteq> [] \<and> (n = 5 \<or> n = 6) \<and> de_cron env (normalize_for_cron (de_upper env) s n) = Inr ())"

lemma cron_expression_new_Inr [trigger_simps]:
  "cron_expression_new (domain_env.truncate env) s = Inr d \<longleftrightarrow> d = s \<and> cron_ok env s"
  by (auto simp: cron_expression_new_def cron_ok_def Let_def res_simps map_err_Inr validate_field_count_def
      domain_env.defs)

text \<open>
  For a polling trigger the two ways in agree on what they accept: \<open>PollingTrigger::new\<close> and the
  deserializer both yield the configuration unchanged exactly when its id, URL, authentication, interval,
  timeout, stop condition and headers are valid.
\<close>

theorem polling_accepts:
  "(polling_trigger_new env (pt_id raw) (pt_name raw) (pt_description raw) (pt_url raw) (pt_method raw) (pt_auth raw)
      (pt_headers raw) (pt_interval raw) (pt_timeout raw) (pt_stop_condition raw) (pt_payload raw) (pt_disabled raw) =
      Some (Inr t) \<longleftrightarrow> t = raw \<and> polling_ok env raw) \<and>
   (polling_trigger_deserialize env raw = Some (Inr t) \<longleftrightarrow> t = raw \<and> polling_ok env raw)"
proof (rule conjI)
  show "polling_trigger_new env (pt_id raw) (pt_name raw) (pt_description raw) (pt_url raw) (pt_method raw) (pt_auth raw)
      (pt_headers raw) (pt_interval raw) (pt_timeout raw) (pt_stop_condition raw) (pt_payload raw) (pt_disabled raw) =
      Some (Inr t) \<longleftrightarrow> t = raw \<and> polling_ok env raw"
    using nonzero_duration_parses [of "pt_interval raw"]
    by (auto simp: polling_trigger_new_def trigger_simps map_err_Inr polling_ok_def)
  show "polling_trigger_deserialize env raw = Some (Inr t) \<longleftrightarrow> t = raw \<and> polling_ok env raw"
    by (auto simp: polling_trigger_deserialize_def trigger_id_deserialize_def trigger_simps map_err_Inr polling_ok_def)
qed

text \<open>
  Where they differ: on an interval that is not a duration \<open>new\<close> answers \<open>InvalidInterval\<close>, while the
  deserializer, whose duration is unvalidated text, reaches \<open>unreachable!\<close> and panics.
\<close>

theorem polling_interval_panics:
  assumes "go_duration_new (pt_interval raw) = Inl e"
    and "trigger_id_ok (te_uni env) (pt_id raw)" "endpoint_ok (pt_url raw) (pt_auth raw) (pt_headers raw)"
  shows "polling_trigger_deserialize env raw = None \<and>
    polling_trigger_new env (pt_id raw) name description url meth auth headers (pt_interval raw) timeout stop payload
      disabled = Some (Inl (TD_InvalidInterval e))"
proof -
  have "to_duration (pt_interval raw) = None"
    using assms(1) by (auto simp: go_duration_new_def to_duration_def parse_go_duration_def res_bind_def
        split: if_splits sum.splits)
  then have v: "validate_interval_nonzero (pt_interval raw) = None" by (simp add: validate_interval_nonzero_def)
  have "validate_url (pt_url raw) = Inr ()" "validate_webhook_auth (pt_auth raw) = Inr ()"
    "trigger_id_new (te_uni env) (pt_id raw) = Inr (pt_id raw)"
    using assms(2,3) by (simp_all add: trigger_simps endpoint_ok_def)
  with v have "polling_trigger_deserialize env raw = None"
    by (simp add: polling_trigger_deserialize_def trigger_id_deserialize_def validate_polling_def try_panic_def)
  then show ?thesis using assms(1) by (simp add: polling_trigger_new_def try_panic_def)
qed

text \<open>
  A cron trigger built by \<open>new\<close> has a valid id, a cron expression the parser takes and a known timezone,
  \<open>Z\<close> standing for \<open>UTC\<close>; from JSON any text is taken as the cron expression, and \<open>Z\<close> is looked up before it
  is normalised.
\<close>

theorem cron_trigger_paths:
  "(cron_trigger_new env (ct_id raw) (ct_name raw) (ct_description raw) (ct_cron raw) (ct_timezone raw)
      (ct_disabled raw) (ct_payload raw) = Inr t \<longleftrightarrow>
    t = raw\<lparr>ct_timezone := normalize_timezone (ct_timezone raw)\<rparr> \<and> trigger_id_ok (te_uni env) (ct_id raw) \<and>
    cron_ok env (ct_cron raw) \<and>
    te_timezone env (normalize_timezone (ct_timezone raw))) \<and>
   (cron_trigger_deserialize env raw = Inr t \<longleftrightarrow>
    t = raw\<lparr>ct_timezone := normalize_timezone (ct_timezone raw)\<rparr> \<and> trigger_id_ok (te_uni env) (ct_id raw) \<and>
    te_timezone env (ct_timezone raw))"
  by (auto simp: cron_trigger_new_def cron_trigger_deserialize_def trigger_id_deserialize_def res_simps trigger_simps
      map_err_Inr Let_def validate_timezone_def split: if_splits)

definition example_trigger_env :: trigger_env where
  "example_trigger_env =
     \<lparr>de_upper = map to_upper, de_url = (\<lambda>s. Inr \<lparr>pu_scheme = ''http'', pu_host = Some ''h'', pu_path = ''/''\<rparr>), de_cron = (\<lambda>_. Inr ()),
      te_uni = (\<lambda>_. False), te_timezone = (\<lambda>tz. tz = ''UTC''), te_jmespath = (\<lambda>_. Inr ())\<rparr>"

definition example_polling :: polling_trigger where
  "example_polling =
     \<lparr>pt_id = ''poll-1'', pt_name = None, pt_description = None, pt_url = ''http://h/'', pt_method = HM_Get,
      pt_auth = WA_None, pt_headers = None, pt_interval = ''soon'', pt_timeout = None, pt_stop_condition = None,
      pt_payload = None, pt_disabled = False\<rparr>"

theorem polling_interval_panics_witness:
  "polling_trigger_deserialize example_trigger_env example_polling = None"
proof -
  have "go_duration_new ''soon'' = Inl (GD_ParseNumber 0)"
    by (simp add: go_duration_new_def parse_go_duration_def duration_segments.simps in_number_def is_digit_def
        less_eq_char_def)
  then have "go_duration_new (pt_interval example_polling) = Inl (GD_ParseNumber 0)"
    by (simp add: example_polling_def)
  moreover have "trigger_id_ok (te_uni example_trigger_env) (pt_id example_polling)" by code_simp
  moreover have "endpoint_ok (pt_url example_polling) (pt_auth example_polling) (pt_headers example_polling)"
    by (simp add: endpoint_ok_def example_polling_def auth_ok_def)
  ultimately show ?thesis using polling_interval_panics [of example_polling] by blast
qed

text \<open>
  A webhook trigger is accepted unchanged, by \<open>WebhookTrigger::new\<close> as by the deserializer, exactly when
  its id has 3 to 64 bytes of letters, digits, hyphens and underscores, its URL starts with \<open>http://\<close> or
  \<open>https://\<close>, no field of its authentication is empty and its headers are within the limits.
\<close>

theorem webhook_accepts:
  "(webhook_trigger_new env (wt_id raw) (wt_name raw) (wt_description raw) (wt_url raw) (wt_method raw) (wt_auth raw)
      (wt_headers raw) (wt_body_template raw) (wt_payload raw) (wt_disabled raw) = Inr t \<longleftrightarrow>
    t = raw \<and> trigger_id_ok (te_uni env) (wt_id raw) \<and> endpoint_ok (wt_url raw) (wt_auth raw) (wt_headers raw)) \<and>
   (webhook_trigger_deserialize env raw = Inr t \<longleftrightarrow>
    t = raw \<and> trigger_id_ok (te_uni env) (wt_id raw) \<and> endpoint_ok (wt_url raw) (wt_auth raw) (wt_headers raw))"
  by (auto simp: webhook_trigger_new_def webhook_trigger_deserialize_def trigger_id_deserialize_def res_simps trigger_simps
      map_err_Inr)

theorem http_method_names:
  "http_method_from_str s = Inr m \<longleftrightarrow> to_uppercase s = http_method_display m"
  by (cases m) (auto simp: http_method_from_str_def Let_def)

end
