(* ===== verification/Trigger_Registry.thy ===== *)
theory Trigger_Registry
  imports Job_Model "HOL-Library.AList"
begin

text \<open>
  The trigger registry (\<open>twerk-core/src/trigger/types.rs\<close>, \<open>trait.rs\<close>, \<open>in_memory.rs\<close>): the states of a
  trigger with their names and transitions, the in-memory registry's operations, and \<open>fire\<close> both as one
  call and as the shared-memory actions it makes, so that calls may overlap. The hash map of triggers is an
  association list in the order the map yields. The \<open>uuid\<close> crate's parser is an argument.
\<close>

section \<open>States, variants and errors\<close>

datatype trigger_state = TS_Active | TS_Paused | TS_Disabled | TS_Error

definition match_state_variant_for_fromstr :: "string \<Rightarrow> trigger_state option" where
  "match_state_variant_for_fromstr s =
     (let u = to_uppercase s
      in if u = ''ACTIVE'' then Some TS_Active
         else if u = ''PAUSED'' then Some TS_Paused
         else if u = ''DISABLED'' then Some TS_Disabled
         else if u = ''ERROR'' then Some TS_Error
         else None)"

definition match_state_variant_for_serde :: "string \<Rightarrow> trigger_state option" where
  "match_state_variant_for_serde s =
     (if s = ''ACTIVE'' \<or> s = ''Active'' then Some TS_Active
      else if s = ''PAUSED'' \<or> s = ''Paused'' then Some TS_Paused
      else if s = ''DISABLED'' \<or> s = ''Disabled'' then Some TS_Disabled
      else if s = ''ERROR'' \<or> s = ''Error'' then Some TS_Error
      else None)"

fun trigger_state_display :: "trigger_state \<Rightarrow> string" where
  "trigger_state_display TS_Active = ''Active''"
| "trigger_state_display TS_Paused = ''Paused''"
| "trigger_state_display TS_Disabled = ''Disabled''"
| "trigger_state_display TS_Error = ''Error''"

definition trigger_state_from_str :: "string \<Rightarrow> string + trigger_state" where
  "trigger_state_from_str s = ok_or (match_state_variant_for_fromstr s) s"

fun trigger_state_serialize :: "trigger_state \<Rightarrow> string" where
  "trigger_state_serialize TS_Active = ''Active''"
| "trigger_state_serialize TS_Paused = ''Paused''"
| "trigger_state_serialize TS_Disabled = ''Disabled''"
| "trigger_state_serialize TS_Error = ''Error''"

definition trigger_state_deserialize :: "string \<Rightarrow> string + trigger_state" where
  "trigger_state_deserialize v = ok_or (match_state_variant_for_serde v) (''unknown TriggerState: '' @ v)"

datatype trigger_variant = TV_Cron | TV_Webhook | TV_Polling

record reg_trigger =
  tr_id :: string
  tr_state :: trigger_state
  tr_variant :: trigger_variant

datatype trigger_error =
    TE_NotFound string
  | TE_AlreadyExists string
  | TE_InvalidCronExpression string
  | TE_InvalidInterval string
  | TE_InvalidTimezone string
  | TE_InvalidStateTransition trigger_state trigger_state
  | TE_TriggerInErrorState string
  | TE_TriggerDisabled string
  | TE_TriggerNotActive trigger_state
  | TE_InvalidConfiguration string
  | TE_PayloadTooLarge nat
  | TE_UnsupportedContentType string
  | TE_AuthenticationFailed string
  | TE_PollingHttpError string
  | TE_PollingExpressionError string
  | TE_MaxConsecutiveFailures nat
  | TE_JobCreationFailed string
  | TE_JobPublishFailed string
  | TE_DatastoreUnavailable string
  | TE_BrokerUnavailable string
  | TE_ConcurrencyLimitReached
  | TE_JobIdGenerationFailed id_error

section \<open>The in-memory registry\<close>

record trigger_registry =
  rg_triggers :: "(string \<times> reg_trigger) list"
  rg_fire_count :: u64
  rg_broker_available :: bool
  rg_datastore_available :: bool
  rg_permits :: nat

definition with_concurrency_limit :: "nat \<Rightarrow> trigger_registry" where
  "with_concurrency_limit limit =
     \<lparr>rg_triggers = [], rg_fire_count = 0, rg_broker_available = True, rg_datastore_available = True,
      rg_permits = limit\<rparr>"

definition registry_new :: trigger_registry where
  "registry_new = with_concurrency_limit 1024"

definition set_broker_available :: "bool \<Rightarrow> trigger_registry \<Rightarrow> trigger_registry" where
  "set_broker_available available r = r\<lparr>rg_broker_available := available\<rparr>"

definition set_datastore_available :: "bool \<Rightarrow> trigger_registry \<Rightarrow> trigger_registry" where
  "set_datastore_available available r = r\<lparr>rg_datastore_available := available\<rparr>"

definition is_valid_transition :: "trigger_state \<Rightarrow> trigger_state \<Rightarrow> trigger_variant \<Rightarrow> bool" where
  "is_valid_transition src dst variant =
     (if src = dst then True
      else if dst = TS_Error then (src = TS_Active \<or> src = TS_Error) \<and> variant = TV_Polling
      else if src = TS_Error then dst = TS_Active \<and> variant = TV_Polling
      else True)"

definition check_datastore_available :: "trigger_registry \<Rightarrow> trigger_error + unit" where
  "check_datastore_available r =
     (if \<not> rg_datastore_available r then Inl (TE_DatastoreUnavailable ''connection refused'') else Inr ())"

definition check_broker_available :: "trigger_registry \<Rightarrow> trigger_error + unit" where
  "check_broker_available r =
     (if \<not> rg_broker_available r then Inl (TE_BrokerUnavailable ''connection refused'') else Inr ())"

definition acquire_concurrency_permit :: "trigger_registry \<Rightarrow> trigger_error + trigger_registry" where
  "acquire_concurrency_permit r =
     (case rg_permits r of 0 \<Rightarrow> Inl TE_ConcurrencyLimitReached | Suc n \<Rightarrow> Inr (r\<lparr>rg_permits := n\<rparr>))"

definition get_trigger :: "trigger_registry \<Rightarrow> string \<Rightarrow> trigger_error + reg_trigger" where
  "get_trigger r i = ok_or (map_of (rg_triggers r) i) (TE_NotFound i)"

definition validate_trigger_for_fire :: "reg_trigger \<Rightarrow> trigger_error + unit" where
  "validate_trigger_for_fire t =
     (case tr_state t of
        TS_Active \<Rightarrow> Inr ()
      | TS_Paused \<Rightarrow> Inl (TE_TriggerNotActive (tr_state t))
      | TS_Disabled \<Rightarrow> Inl (TE_TriggerDisabled (tr_id t))
      | TS_Error \<Rightarrow> Inl (TE_TriggerInErrorState (tr_id t)))"

definition validate_trigger_for_registration :: "reg_trigger \<Rightarrow> trigger_error + unit" where
  "validate_trigger_for_registration t =
     (case tr_state t of
        TS_Active \<Rightarrow> Inr ()
      | TS_Paused \<Rightarrow> Inr ()
      | TS_Disabled \<Rightarrow> Inl (TE_InvalidConfiguration ''new triggers cannot start in Disabled state'')
      | TS_Error \<Rightarrow> Inl (TE_InvalidConfiguration ''new triggers cannot start in Error state''))"

definition apply_state_transition :: "reg_trigger \<Rightarrow> trigger_state \<Rightarrow> trigger_error + reg_trigger" where
  "apply_state_transition t new_state =
     (if \<not> is_valid_transition (tr_state t) new_state (tr_variant t)
      then Inl (TE_InvalidStateTransition (tr_state t) new_state)
      else Inr (t\<lparr>tr_state := new_state\<rparr>))"

text \<open>
  The operations: the check of the datastore flag, then the part under the write lock. An error leaves the
  registry as it was.
\<close>

definition register_locked :: "reg_trigger \<Rightarrow> trigger_registry \<Rightarrow> trigger_error + trigger_registry" where
  "register_locked t r =
     (if map_of (rg_triggers r) (tr_id t) \<noteq> None then Inl (TE_AlreadyExists (tr_id t))
      else res_bind (validate_trigger_for_registration t) (\<lambda>_.
        Inr (r\<lparr>rg_triggers := AList.update (tr_id t) t (rg_triggers r)\<rparr>)))"

definition unregister_locked :: "string \<Rightarrow> trigger_registry \<Rightarrow> trigger_error + trigger_registry" where
  "unregister_locked i r =
     (if map_of (rg_triggers r) i = None then Inl (TE_NotFound i)
      else Inr (r\<lparr>rg_triggers := AList.delete i (rg_triggers r)\<rparr>))"

definition set_state_locked :: "string \<Rightarrow> trigger_state \<Rightarrow> trigger_registry \<Rightarrow> trigger_error + trigger_registry" where
  "set_state_locked i new_state r =
     res_bind (get_trigger r i) (\<lambda>t.
     res_bind (apply_state_transition t new_state) (\<lambda>t'.
       Inr (r\<lparr>rg_triggers := AList.update i t' (rg_triggers r)\<rparr>)))"

definition register :: "reg_trigger \<Rightarrow> trigger_registry \<Rightarrow> trigger_error + trigger_registry" where
  "register t r = res_bind (check_datastore_available r) (\<lambda>_. register_locked t r)"

definition unregister :: "string \<Rightarrow> trigger_registry \<Rightarrow> trigger_error + trigger_registry" where
  "unregister i r =
     (if \<not> rg_datastore_available r then Inl (TE_DatastoreUnavailable ''connection refused'')
      else unregister_locked i r)"

definition set_state :: "string \<Rightarrow> trigger_state \<Rightarrow> trigger_registry \<Rightarrow> trigger_error + trigger_registry" where
  "set_state i new_state r = res_bind (check_datastore_available r) (\<lambda>_. set_state_locked i new_state r)"

definition registry_get :: "string \<Rightarrow> trigger_registry \<Rightarrow> trigger_error + reg_trigger option" where
  "registry_get i r = res_bind (check_datastore_available r) (\<lambda>_. Inr (map_of (rg_triggers r) i))"

definition registry_list :: "trigger_registry \<Rightarrow> trigger_error + reg_trigger list" where
  "registry_list r = res_bind (check_datastore_available r) (\<lambda>_. Inr (map snd (rg_triggers r)))"

definition list_by_state :: "trigger_state \<Rightarrow> trigger_registry \<Rightarrow> trigger_error + reg_trigger list" where
  "list_by_state target r =
     res_bind (check_datastore_available r) (\<lambda>_.
       Inr (filter (\<lambda>t. tr_state t = target) (map snd (rg_triggers r))))"

text \<open>
  \<open>fire\<close> when no other call runs: the permit is back when it returns, so only the counter changes. The
  fresh UUID is an argument.
\<close>

definition fire :: "(string \<Rightarrow> bool) \<Rightarrow> string \<Rightarrow> string \<Rightarrow> trigger_registry \<Rightarrow> (trigger_error + job_id) \<times> trigger_registry" where
  "fire parse_uuid uuid i r =
     (case check_datastore_available r of Inl e \<Rightarrow> (Inl e, r) | Inr _ \<Rightarrow>
      case check_broker_available r of Inl e \<Rightarrow> (Inl e, r) | Inr _ \<Rightarrow>
      case acquire_concurrency_permit r of Inl e \<Rightarrow> (Inl e, r) | Inr r1 \<Rightarrow>
        let r2 = r1\<lparr>rg_fire_count := rg_fire_count r1 + 1\<rparr>;
            res = res_bind (get_trigger r2 i) (\<lambda>t.
              res_bind (validate_trigger_for_fire t) (\<lambda>_.
                map_err TE_JobIdGenerationFailed (job_id_new parse_uuid uuid)))
        in (res, r2\<lparr>rg_permits := Suc (rg_permits r2)\<rparr>))"

section \<open>Overlapping calls\<close>

text \<open>
  A call of \<open>fire\<close> between two accesses to the shared state: the loads of the two flags, the permit, the
  counter, the read of the trigger, the return of the permit.
\<close>

datatype fire_pc =
    At_Datastore | At_Broker | At_Permit | At_Count | At_Lookup
  | At_Drop "trigger_error + job_id" | At_Done "trigger_error + job_id"

record fire_call =
  fc_trigger_id :: string
  fc_uuid :: string
  fc_pc :: fire_pc

definition fire_begin :: "string \<Rightarrow> string \<Rightarrow> fire_call" where
  "fire_begin i uuid = \<lparr>fc_trigger_id = i, fc_uuid = uuid, fc_pc = At_Datastore\<rparr>"

definition fire_action :: "(string \<Rightarrow> bool) \<Rightarrow> trigger_registry \<times> fire_call \<Rightarrow> trigger_registry \<times> fire_call" where
  "fire_action parse_uuid rc =
     (case rc of (r, c) \<Rightarrow>
      case fc_pc c of
        At_Datastore \<Rightarrow> (r, c\<lparr>fc_pc := (case check_datastore_available r of Inl e \<Rightarrow> At_Done (Inl e) | Inr _ \<Rightarrow> At_Broker)\<rparr>)
      | At_Broker \<Rightarrow> (r, c\<lparr>fc_pc := (case check_broker_available r of Inl e \<Rightarrow> At_Done (Inl e) | Inr _ \<Rightarrow> At_Permit)\<rparr>)
      | At_Permit \<Rightarrow>
          (case acquire_concurrency_permit r of
             Inl e \<Rightarrow> (r, c\<lparr>fc_pc := At_Done (Inl e)\<rparr>) | Inr r' \<Rightarrow> (r', c\<lparr>fc_pc := At_Count\<rparr>))
      | At_Count \<Rightarrow> (r\<lparr>rg_fire_count := rg_fire_count r + 1\<rparr>, c\<lparr>fc_pc := At_Lookup\<rparr>)
      | At_Lookup \<Rightarrow>
          (r, c\<lparr>fc_pc := At_Drop (res_bind (get_trigger r (fc_trigger_id c)) (\<lambda>t.
             res_bind (validate_trigger_for_fire t) (\<lambda>_.
               map_err TE_JobIdGenerationFailed (job_id_new parse_uuid (fc_uuid c)))))\<rparr>)
      | At_Drop res \<Rightarrow> (r\<lparr>rg_permits := Suc (rg_permits r)\<rparr>, c\<lparr>fc_pc := At_Done res\<rparr>)
      | At_Done res \<Rightarrow> (r, c))"

text \<open>
  The registry with its calls in flight. The locked parts may run at any time: the load of the flag that
  precedes one may be arbitrarily old by then.
\<close>

inductive registry_step ::
  "(string \<Rightarrow> bool) \<Rightarrow> trigger_registry \<times> fire_call list \<Rightarrow> trigger_registry \<times> fire_call list \<Rightarrow> bool"
  for parse_uuid where
  RS_Register: "register_locked t r = Inr r' \<Longrightarrow> registry_step parse_uuid (r, cs) (r', cs)"
| RS_Unregister: "unregister_locked i r = Inr r' \<Longrightarrow> registry_step parse_uuid (r, cs) (r', cs)"
| RS_SetState: "set_state_locked i st r = Inr r' \<Longrightarrow> registry_step parse_uuid (r, cs) (r', cs)"
| RS_Broker: "registry_step parse_uuid (r, cs) (set_broker_available b r, cs)"
| RS_Datastore: "registry_step parse_uuid (r, cs) (set_datastore_available b r, cs)"
| RS_Begin: "registry_step parse_uuid (r, cs) (r, fire_begin i uuid # cs)"
| RS_Action: "k < length cs \<Longrightarrow> fire_action parse_uuid (r, cs ! k) = (r', c') \<Longrightarrow>
    registry_step parse_uuid (r, cs) (r', cs[k := c'])"

inductive_cases registry_stepE [elim!]: "registry_step parse_uuid (r, cs) s"

section \<open>Sequential behaviour\<close>

lemma to_uppercase_ascii:
  "list_all (\<lambda>c. of_char c < (128 :: nat)) s \<Longrightarrow> to_uppercase s = map to_upper s"
  by (induction s) (simp_all add: to_uppercase_def map_chars_def first_char_def upper_specials_def)

lemma uppercase_names:
  "to_uppercase ''ACTIVE'' = ''ACTIVE''" "to_uppercase ''Active'' = ''ACTIVE''"
  "to_uppercase ''PAUSED'' = ''PAUSED''" "to_uppercase ''Paused'' = ''PAUSED''"
  "to_uppercase ''DISABLED'' = ''DISABLED''" "to_uppercase ''Disabled'' = ''DISABLED''"
  "to_uppercase ''ERROR'' = ''ERROR''" "to_uppercase ''Error'' = ''ERROR''"
  by (subst to_uppercase_ascii, simp, code_simp)+

lemma fromstr_names:
  "match_state_variant_for_fromstr ''ACTIVE'' = Some TS_Active" "match_state_variant_for_fromstr ''Active'' = Some TS_Active"
  "match_state_variant_for_fromstr ''PAUSED'' = Some TS_Paused" "match_state_variant_for_fromstr ''Paused'' = Some TS_Paused"
  "match_state_variant_for_fromstr ''DISABLED'' = Some TS_Disabled" "match_state_variant_for_fromstr ''Disabled'' = Some TS_Disabled"
  "match_state_variant_for_fromstr ''ERROR'' = Some TS_Error" "match_state_variant_for_fromstr ''Error'' = Some TS_Error"
  by (simp_all add: match_state_variant_for_fromstr_def uppercase_names)

lemma serde_names:
  "match_state_variant_for_serde ''ACTIVE'' = Some TS_Active" "match_state_variant_for_serde ''Active'' = Some TS_Active"
  "match_state_variant_for_serde ''PAUSED'' = Some TS_Paused" "match_state_variant_for_serde ''Paused'' = Some TS_Paused"
  "match_state_variant_for_serde ''DISABLED'' = Some TS_Disabled" "match_state_variant_for_serde ''Disabled'' = Some TS_Disabled"
  "match_state_variant_for_serde ''ERROR'' = Some TS_Error" "match_state_variant_for_serde ''Error'' = Some TS_Error"
  by (simp_all add: match_state_variant_for_serde_def)

lemma match_state_serde_fromstr:
  assumes a: "match_state_variant_for_serde s = Some t"
  shows "match_state_variant_for_fromstr s = Some t"
proof -
  consider "s = ''ACTIVE''" | "s = ''Active''" | "s = ''PAUSED''" | "s = ''Paused''" | "s = ''DISABLED''"
    | "s = ''Disabled''" | "s = ''ERROR''" | "s = ''Error''" | "match_state_variant_for_serde s = None"
    unfolding match_state_variant_for_serde_def by argo
  then show ?thesis by cases (use a in \<open>simp_all only: fromstr_names serde_names option.distinct\<close>)
qed

text \<open>
  A trigger state written by \<open>serde\<close> or \<open>Display\<close> is read back by the deserializer and by \<open>FromStr\<close>, and
  whatever the deserializer reads \<open>FromStr\<close> reads as the same state.
\<close>

theorem trigger_state_names:
  "trigger_state_deserialize (trigger_state_serialize st) = Inr st \<and>
   trigger_state_from_str (trigger_state_display st) = Inr st \<and>
   (trigger_state_deserialize s = Inr st \<longrightarrow> trigger_state_from_str s = Inr st)"
proof (intro conjI impI)
  show "trigger_state_deserialize (trigger_state_serialize st) = Inr st"
    by (cases st) (simp_all add: trigger_state_deserialize_def match_state_variant_for_serde_def)
  show "trigger_state_from_str (trigger_state_display st) = Inr st"
    by (cases st) (simp_all add: trigger_state_from_str_def match_state_variant_for_fromstr_def uppercase_names)
  show "trigger_state_from_str s = Inr st" if "trigger_state_deserialize s = Inr st"
    using that match_state_serde_fromstr [of s st]
    by (simp add: trigger_state_deserialize_def trigger_state_from_str_def res_simps)
qed

lemma map_of_registry: "map_of (rg_triggers (r\<lparr>rg_triggers := AList.update k t (rg_triggers r)\<rparr>)) = (map_of (rg_triggers r))(k \<mapsto> t)"
  by (simp add: update_conv')

text \<open>
  \<open>fire\<close> succeeds exactly when both systems are up, a permit is free, the trigger is registered and active
  and the fresh id is a valid job id; it never changes the registered triggers or the permits, and counts the
  call exactly when it came past the permit.
\<close>

theorem fire_result:
  "fire parse_uuid uuid i r = (res, r') \<Longrightarrow>
    (res = Inr j \<longleftrightarrow> j = uuid \<and> rg_datastore_available r \<and> rg_broker_available r \<and> 0 < rg_permits r \<and>
      (\<exists>t. map_of (rg_triggers r) i = Some t \<and> tr_state t = TS_Active) \<and> validate_job_id parse_uuid uuid = Inr ()) \<and>
    r' = r\<lparr>rg_fire_count := rg_fire_count r +
      (if rg_datastore_available r \<and> rg_broker_available r \<and> 0 < rg_permits r then 1 else 0)\<rparr>"
  by (auto simp: fire_def check_datastore_available_def check_broker_available_def acquire_concurrency_permit_def
      get_trigger_def validate_trigger_for_fire_def Let_def job_id_new_def map_err_Inr ok_or_Inr
      split: nat.splits if_splits trigger_state.splits)

text \<open>
  \<open>fire\<close> as one call is its six shared-memory actions run one after the other.
\<close>

theorem fire_refines:
  "(fire_action parse_uuid ^^ 6) (r, fire_begin i uuid) =
     (let (res, r') = fire parse_uuid uuid i r in (r', (fire_begin i uuid)\<lparr>fc_pc := At_Done res\<rparr>))"
  by (simp add: fire_action_def fire_def fire_begin_def Let_def check_datastore_available_def
      check_broker_available_def acquire_concurrency_permit_def get_trigger_def eval_nat_numeral split: nat.splits)

section \<open>The registry with calls in flight\<close>

definition holds_permit :: "fire_call \<Rightarrow> bool" where
  "holds_permit c \<longleftrightarrow> (case fc_pc c of At_Count \<Rightarrow> True | At_Lookup \<Rightarrow> True | At_Drop _ \<Rightarrow> True | _ \<Rightarrow> False)"

definition late_result :: "trigger_error + job_id \<Rightarrow> bool" where
  "late_result res \<longleftrightarrow> (case res of Inr _ \<Rightarrow> True | Inl e \<Rightarrow>
     (case e of TE_DatastoreUnavailable _ \<Rightarrow> False | TE_BrokerUnavailable _ \<Rightarrow> False
        | TE_ConcurrencyLimitReached \<Rightarrow> False | _ \<Rightarrow> True))"

definition counted :: "fire_call \<Rightarrow> bool" where
  "counted c \<longleftrightarrow> (case fc_pc c of At_Lookup \<Rightarrow> True | At_Drop _ \<Rightarrow> True | At_Done res \<Rightarrow> late_result res | _ \<Rightarrow> False)"

definition call_ok :: "(string \<Rightarrow> bool) \<Rightarrow> fire_call \<Rightarrow> bool" where
  "call_ok parse_uuid c \<longleftrightarrow>
     (case fc_pc c of
        At_Drop res \<Rightarrow> late_result res \<and> (\<forall>j. res = Inr j \<longrightarrow> j = fc_uuid c \<and> validate_job_id parse_uuid j = Inr ())
      | At_Done res \<Rightarrow> (\<forall>j. res = Inr j \<longrightarrow> j = fc_uuid c \<and> validate_job_id parse_uuid j = Inr ())
      | _ \<Rightarrow> True)"

definition triggers_ok :: "(string \<times> reg_trigger) list \<Rightarrow> bool" where
  "triggers_ok ts \<longleftrightarrow> distinct (map fst ts) \<and>
     (\<forall>i t. map_of ts i = Some t \<longrightarrow> tr_id t = i \<and> (tr_state t = TS_Error \<longrightarrow> tr_variant t = TV_Polling))"

definition registry_inv :: "(string \<Rightarrow> bool) \<Rightarrow> nat \<Rightarrow> trigger_registry \<times> fire_call list \<Rightarrow> bool" where
  "registry_inv parse_uuid limit rc \<longleftrightarrow>
     (case rc of (r, cs) \<Rightarrow>
       triggers_ok (rg_triggers r) \<and> rg_permits r + length (filter holds_permit cs) = limit \<and>
       rg_fire_count r = of_nat (length (filter counted cs)) \<and> list_all (call_ok parse_uuid) cs)"

lemma length_filter_update:
  "k < length xs \<Longrightarrow> length (filter P (xs[k := x])) + of_bool (P (xs ! k)) = length (filter P xs) + of_bool (P x)"
proof (induction xs arbitrary: k)
  case (Cons a xs)
  then show ?case by (cases k) auto
qed simp

lemma triggers_ok_update:
  assumes "triggers_ok ts" "tr_id t = i" "tr_state t = TS_Error \<longrightarrow> tr_variant t = TV_Polling"
  shows "triggers_ok (AList.update i t ts)"
  using assms by (auto simp: triggers_ok_def update_conv' distinct_update)

lemma locked_parts_keep:
  assumes "triggers_ok (rg_triggers r)"
  shows "register_locked t r = Inr r' \<Longrightarrow> triggers_ok (rg_triggers r')"
    and "unregister_locked i r = Inr r' \<Longrightarrow> triggers_ok (rg_triggers r')"
    and "set_state_locked i st r = Inr r' \<Longrightarrow> triggers_ok (rg_triggers r')"
proof -
  show "register_locked t r = Inr r' \<Longrightarrow> triggers_ok (rg_triggers r')"
    using assms by (auto simp: register_locked_def validate_trigger_for_registration_def res_simps
        split: if_splits trigger_state.splits intro!: triggers_ok_update)
  show "unregister_locked i r = Inr r' \<Longrightarrow> triggers_ok (rg_triggers r')"
    using assms by (auto simp: unregister_locked_def triggers_ok_def delete_conv' distinct_delete split: if_splits)
  assume "set_state_locked i st r = Inr r'"
  then obtain t where "map_of (rg_triggers r) i = Some t" "is_valid_transition (tr_state t) st (tr_variant t)"
    "rg_triggers r' = AList.update i (t\<lparr>tr_state := st\<rparr>) (rg_triggers r)"
    by (auto simp: set_state_locked_def get_trigger_def apply_state_transition_def res_simps split: if_splits)
  moreover from this have "tr_id t = i" "st = TS_Error \<longrightarrow> tr_variant t = TV_Polling"
    using assms by (auto simp: triggers_ok_def is_valid_transition_def split: if_splits)
  ultimately show "triggers_ok (rg_triggers r')" using assms by (simp add: triggers_ok_update)
qed

lemma locked_parts_frame:
  "register_locked t r = Inr r' \<or> unregister_locked i r = Inr r' \<or> set_state_locked i st r = Inr r' \<Longrightarrow>
    rg_permits r' = rg_permits r \<and> rg_fire_count r' = rg_fire_count r"
  by (auto simp: register_locked_def unregister_locked_def set_state_locked_def split: if_splits)

lemma fire_action_inv:
  assumes "fire_action parse_uuid (r, c) = (r', c')" "call_ok parse_uuid c"
  shows "call_ok parse_uuid c' \<and> rg_triggers r' = rg_triggers r \<and>
    rg_permits r' + of_bool (holds_permit c') = rg_permits r + of_bool (holds_permit c) \<and>
    rg_fire_count r' + of_bool (counted c) = rg_fire_count r + of_bool (counted c')"
  using assms
  by (auto simp: fire_action_def call_ok_def holds_permit_def counted_def late_result_def
      check_datastore_available_def check_broker_available_def acquire_concurrency_permit_def get_trigger_def
      validate_trigger_for_fire_def job_id_new_def res_bind_def ok_or_def map_err_def
      split: fire_pc.splits if_splits nat.splits sum.splits option.splits trigger_state.splits)

lemma registry_inv_step:
  assumes "registry_step parse_uuid rc rc'" "registry_inv parse_uuid limit rc"
  shows "registry_inv parse_uuid limit rc'"
  using assms
proof (cases rule: registry_step.cases)
  case (RS_Action k cs r r' c')
  have c: "call_ok parse_uuid (cs ! k)" using assms(2) RS_Action by (simp add: registry_inv_def list_all_length)
  note f = fire_action_inv [OF RS_Action(4) c]
  have "list_all (call_ok parse_uuid) (cs[k := c'])"
    using f assms(2) RS_Action by (auto simp: registry_inv_def list_all_iff dest!: set_update_subset_insert [THEN subsetD])
  moreover have "rg_permits r' + length (filter holds_permit (cs[k := c'])) = limit"
    using f assms(2) RS_Action length_filter_update [of k cs holds_permit c'] by (simp add: registry_inv_def)
  moreover have "rg_fire_count r' = of_nat (length (filter counted (cs[k := c'])))"
  proof -
    have "of_nat (length (filter counted (cs[k := c'])) + of_bool (counted (cs ! k))) =
        (of_nat (length (filter counted cs) + of_bool (counted c')) :: u64)"
      using length_filter_update [of k cs counted c'] RS_Action(3) by simp
    moreover have "rg_fire_count r' + of_bool (counted (cs ! k)) = of_nat (length (filter counted cs)) + of_bool (counted c')"
      using f assms(2) RS_Action by (simp add: registry_inv_def)
    ultimately have "rg_fire_count r' + of_bool (counted (cs ! k)) =
        of_nat (length (filter counted (cs[k := c']))) + of_bool (counted (cs ! k))"
      unfolding of_nat_add of_nat_of_bool by argo
    then show ?thesis by (simp only: add_right_cancel)
  qed
  ultimately show ?thesis using f assms(2) RS_Action by (simp add: registry_inv_def)
next
  case (RS_Register t r r' cs)
  then show ?thesis
    using assms(2) locked_parts_keep(1) [of r t r'] locked_parts_frame [of t r r'] by (simp add: registry_inv_def)
next
  case (RS_Unregister i r r' cs)
  then show ?thesis
    using assms(2) locked_parts_keep(2) [of r i r'] locked_parts_frame [of _ r r' i] by (simp add: registry_inv_def)
next
  case (RS_SetState i st r r' cs)
  then show ?thesis
    using assms(2) locked_parts_keep(3) [of r i st r'] locked_parts_frame [of _ r r' i st] by (simp add: registry_inv_def)
qed (simp_all add: registry_inv_def set_broker_available_def set_datastore_available_def fire_begin_def
    holds_permit_def counted_def call_ok_def)

text \<open>C26. However registrations, removals, state changes, outages and the actions of overlapping calls of \<open>fire\<close>
  interleave, a stored trigger keeps its own id, only a polling trigger is ever in the error state, the free
  permits and the calls holding one add up to the limit, the counter is the number of calls past the permit,
  and a call that returns a job id returns a valid one.
\<close>

theorem registry_reachable:
  "(registry_step parse_uuid)\<^sup>*\<^sup>* (with_concurrency_limit limit, []) (r, cs) \<Longrightarrow>
    (\<forall>i t. map_of (rg_triggers r) i = Some t \<longrightarrow> tr_id t = i \<and> (tr_state t = TS_Error \<longrightarrow> tr_variant t = TV_Polling)) \<and>
    rg_permits r + length (filter holds_permit cs) = limit \<and>
    rg_fire_count r = of_nat (length (filter counted cs)) \<and>
    (\<forall>c \<in> set cs. \<forall>j. fc_pc c = At_Done (Inr j) \<longrightarrow> validate_job_id parse_uuid j = Inr ())"
proof -
  assume "(registry_step parse_uuid)\<^sup>*\<^sup>* (with_concurrency_limit limit, []) (r, cs)"
  moreover have "registry_inv parse_uuid limit (with_concurrency_limit limit, [])"
    by (simp add: registry_inv_def with_concurrency_limit_def triggers_ok_def)
  ultimately have "registry_inv parse_uuid limit (r, cs)"
    by (induction rule: rtranclp_induct) (blast intro: registry_inv_step)+
  then show ?thesis by (auto simp: registry_inv_def triggers_ok_def list_all_iff call_ok_def split: fire_pc.splits)
qed

theorem registry_reachable_witness:
  "rg_permits (with_concurrency_limit 3) + length (filter holds_permit [fire_begin ''t'' ''u'']) = 3"
proof -
  have "(registry_step (\<lambda>_. True))\<^sup>*\<^sup>* (with_concurrency_limit 3, []) (with_concurrency_limit 3, [fire_begin ''t'' ''u''])"
    by (rule r_into_rtranclp) (rule RS_Begin)
  from registry_reachable [OF this] show ?thesis by blast
qed

text \<open>
  A state change is allowed exactly by the table: any state to itself; into the error state only an active
  polling trigger; out of it only a polling trigger, back to active; otherwise always.
\<close>

theorem set_state_spec:
  assumes "rg_datastore_available r" and "map_of (rg_triggers r) i = Some t"
  shows "set_state i st r =
    (if tr_state t = st \<or> st \<noteq> TS_Error \<and> tr_state t \<noteq> TS_Error \<or>
        tr_variant t = TV_Polling \<and> (tr_state t, st) \<in> {(TS_Active, TS_Error), (TS_Error, TS_Active)}
     then Inr (r\<lparr>rg_triggers := AList.update i (t\<lparr>tr_state := st\<rparr>) (rg_triggers r)\<rparr>)
     else Inl (TE_InvalidStateTransition (tr_state t) st))"
  using assms
  by (cases "tr_state t"; cases st; cases "tr_variant t")
    (simp_all add: set_state_def check_datastore_available_def set_state_locked_def get_trigger_def
      apply_state_transition_def is_valid_transition_def)

end
