(* ===== verification/Trigger_Api.thy ===== *)
theory Trigger_Api
  imports Queue_Names Job_Model "HOL-Library.AList"
begin

text \<open>
  The trigger endpoints (\<open>twerk-web/src/api/trigger_api\<close>, \<open>content_type.rs\<close>): requests, stored triggers and
  their views, validation, the in-memory store, and the five HTTP handlers with their status codes and error
  bodies. A store operation is one locked access to the map, except \<open>update_trigger\<close>, which takes the lock
  once to read and again to write, and is also given as those steps. The decoding of a JSON body and the
  success of serialising a view are functions of \<open>api_env\<close>, with the Unicode table of \<open>is_alphanumeric\<close>. The
  mutex is never poisoned: no code that holds it panics.
\<close>

definition TRIGGER_ID_MIN_LEN :: nat where "TRIGGER_ID_MIN_LEN = 3"
definition TRIGGER_ID_MAX_LEN :: nat where "TRIGGER_ID_MAX_LEN = 64"
definition TRIGGER_FIELD_MAX_LEN :: nat where "TRIGGER_FIELD_MAX_LEN = 64"
definition NAME_REQUIRED_MSG :: string where "NAME_REQUIRED_MSG = ''name must be non-empty after trim''"
definition EVENT_REQUIRED_MSG :: string where "EVENT_REQUIRED_MSG = ''event must be non-empty after trim''"
definition ACTION_REQUIRED_MSG :: string where "ACTION_REQUIRED_MSG = ''action must be non-empty after trim''"
definition METADATA_KEY_MSG :: string where "METADATA_KEY_MSG = ''metadata key must be non-empty ASCII''"
definition UPDATED_AT_BACKWARDS_MSG :: string where "UPDATED_AT_BACKWARDS_MSG = ''updated_at cannot move backwards''"
definition MALFORMED_JSON_MSG :: string where "MALFORMED_JSON_MSG = ''malformed JSON body''"
definition SERIALIZATION_MSG :: string where "SERIALIZATION_MSG = ''failed to serialize response''"
definition PERSISTENCE_MSG :: string where "PERSISTENCE_MSG = ''internal persistence failure''"
definition ENABLED_REQUIRED_MSG :: string where "ENABLED_REQUIRED_MSG = ''enabled is required''"
definition MAX_BODY_BYTES :: nat where "MAX_BODY_BYTES = 16 * 1024"
definition BODY_TOO_LARGE_MSG :: string where "BODY_TOO_LARGE_MSG = ''request body exceeds max size''"

section \<open>Data\<close>

record trigger_update_request =
  rq_name :: string
  rq_enabled :: bool
  rq_event :: string
  rq_condition :: "string option"
  rq_action :: string
  rq_metadata :: "smap option"
  rq_id :: "string option"
  rq_version :: "u64 option"

record api_trigger =
  at_id :: string
  at_name :: string
  at_enabled :: bool
  at_event :: string
  at_condition :: "string option"
  at_action :: string
  at_metadata :: smap
  at_version :: u64
  at_created_at :: time
  at_updated_at :: time

record trigger_view =
  vw_id :: string
  vw_name :: string
  vw_enabled :: bool
  vw_event :: string
  vw_condition :: "string option"
  vw_action :: string
  vw_metadata :: smap
  vw_version :: u64
  vw_created_at :: time
  vw_updated_at :: time

definition trigger_view_from :: "api_trigger \<Rightarrow> trigger_view" where
  "trigger_view_from t =
     \<lparr>vw_id = at_id t, vw_name = at_name t, vw_enabled = at_enabled t, vw_event = at_event t,
      vw_condition = at_condition t, vw_action = at_action t, vw_metadata = at_metadata t,
      vw_version = at_version t, vw_created_at = at_created_at t, vw_updated_at = at_updated_at t\<rparr>"

datatype trigger_update_error =
    TU_InvalidIdFormat string
  | TU_UnsupportedContentType string
  | TU_MalformedJson string
  | TU_ValidationFailed string
  | TU_IdMismatch (tu_path_id: string) (tu_body_id: string)
  | TU_TriggerNotFound string
  | TU_VersionConflict string
  | TU_Persistence string
  | TU_Serialization string

text \<open>\<open>to_string\<close> of the one error whose text is embedded in another.\<close>

fun trigger_update_error_display :: "trigger_update_error \<Rightarrow> string" where
  "trigger_update_error_display (TU_InvalidIdFormat s) = ''invalid id format: '' @ s"
| "trigger_update_error_display (TU_UnsupportedContentType s) = ''unsupported content type: '' @ s"
| "trigger_update_error_display (TU_MalformedJson s) = ''malformed json: '' @ s"
| "trigger_update_error_display (TU_ValidationFailed s) = ''validation failed: '' @ s"
| "trigger_update_error_display (TU_IdMismatch _ _) = ''id mismatch''"
| "trigger_update_error_display (TU_TriggerNotFound s) = ''trigger not found: '' @ s"
| "trigger_update_error_display (TU_VersionConflict s) = ''version conflict: '' @ s"
| "trigger_update_error_display (TU_Persistence s) = ''persistence error: '' @ s"
| "trigger_update_error_display (TU_Serialization s) = ''serialization error: '' @ s"

record trigger_payload =
  py_name :: "string option"
  py_enabled :: "bool option"
  py_event :: "string option"
  py_condition :: "string option"
  py_action :: "string option"
  py_metadata :: "smap option"
  py_id :: "string option"
  py_version :: "u64 option"

record api_env =
  ae_uni :: "string \<Rightarrow> bool"
  ae_decode :: "string \<Rightarrow> trigger_payload option"
  ae_serializes :: "trigger_view \<Rightarrow> bool"

section \<open>Validation\<close>

definition parse_trigger_id :: "api_env \<Rightarrow> string \<Rightarrow> trigger_update_error + string" where
  "parse_trigger_id env raw =
     (let has_valid_chars = list_all (\<lambda>c. is_alphanumeric (ae_uni env) c \<or> c = ''_'' \<or> c = ''-'') (utf8_chars raw)
      in if \<not> (TRIGGER_ID_MIN_LEN \<le> length raw \<and> length raw \<le> TRIGGER_ID_MAX_LEN) \<or> \<not> has_valid_chars
         then Inl (TU_InvalidIdFormat raw) else Inr raw)"

definition validate_required_field :: "string \<Rightarrow> string \<Rightarrow> string \<Rightarrow> trigger_update_error + unit" where
  "validate_required_field v required_msg field_name =
     (let trimmed = trim v
      in if trimmed = [] then Inl (TU_ValidationFailed required_msg)
         else if length trimmed > TRIGGER_FIELD_MAX_LEN
         then Inl (TU_ValidationFailed (field_name @ '' exceeds max length''))
         else Inr ())"

definition is_ascii :: "string \<Rightarrow> bool" where
  "is_ascii s \<longleftrightarrow> list_all (\<lambda>c. (of_char c :: nat) < 128) s"

definition validate_metadata :: "smap option \<Rightarrow> trigger_update_error + unit" where
  "validate_metadata metadata =
     (if \<exists>(k, _) \<in> set (case metadata of None \<Rightarrow> [] | Some m \<Rightarrow> m). k = [] \<or> \<not> is_ascii k
      then Inl (TU_ValidationFailed METADATA_KEY_MSG) else Inr ())"

definition validate_fields :: "trigger_update_request \<Rightarrow> trigger_update_error + unit" where
  "validate_fields req =
     res_bind (validate_required_field (rq_name req) NAME_REQUIRED_MSG ''name'') (\<lambda>_.
     res_bind (validate_required_field (rq_event req) EVENT_REQUIRED_MSG ''event'') (\<lambda>_.
     res_bind (validate_required_field (rq_action req) ACTION_REQUIRED_MSG ''action'') (\<lambda>_.
       validate_metadata (rq_metadata req))))"

definition validate_trigger_update :: "api_env \<Rightarrow> string \<Rightarrow> trigger_update_request \<Rightarrow> trigger_update_error + string" where
  "validate_trigger_update env path_id req =
     res_bind (parse_trigger_id env path_id) (\<lambda>parsed_id.
     res_bind (validate_fields req) (\<lambda>_.
       case rq_id req of
         Some body_id \<Rightarrow> if body_id \<noteq> path_id then Inl (TU_IdMismatch path_id body_id) else Inr parsed_id
       | None \<Rightarrow> Inr parsed_id))"

definition validate_trigger_create :: "api_env \<Rightarrow> trigger_update_request \<Rightarrow> trigger_update_error + unit" where
  "validate_trigger_create env req =
     res_bind (validate_fields req) (\<lambda>_.
       case rq_id req of
         Some i \<Rightarrow> res_bind (map_err (\<lambda>e. TU_InvalidIdFormat (trigger_update_error_display e)) (parse_trigger_id env i))
           (\<lambda>_. Inr ())
       | None \<Rightarrow> Inr ())"

definition validate_timestamp_monotonicity :: "time \<Rightarrow> time \<Rightarrow> trigger_update_error + unit" where
  "validate_timestamp_monotonicity now current_updated_at =
     (if now < current_updated_at then Inl (TU_ValidationFailed UPDATED_AT_BACKWARDS_MSG) else Inr ())"

definition saturating_succ :: "u64 \<Rightarrow> u64" where
  "saturating_succ v = (if v = - 1 then v else v + 1)"

definition apply_trigger_update ::
  "api_trigger \<Rightarrow> trigger_update_request \<Rightarrow> time \<Rightarrow> trigger_update_error + api_trigger" where
  "apply_trigger_update current req now =
     (if rq_version req \<noteq> None \<and> rq_version req \<noteq> Some (at_version current)
      then Inl (TU_VersionConflict ''stale version supplied'')
      else res_bind (validate_fields req) (\<lambda>_.
        res_bind (validate_timestamp_monotonicity now (at_updated_at current)) (\<lambda>_.
          Inr \<lparr>at_id = at_id current, at_name = trim (rq_name req), at_enabled = rq_enabled req,
            at_event = trim (rq_event req), at_condition = rq_condition req, at_action = trim (rq_action req),
            at_metadata = (case rq_metadata req of Some m \<Rightarrow> m | None \<Rightarrow> []),
            at_version = saturating_succ (at_version current), at_created_at = at_created_at current,
            at_updated_at = now\<rparr>)))"

section \<open>The store\<close>

record trigger_ds =
  td_data :: "(string \<times> api_trigger) list"
  td_fail_next_update :: bool

definition trigger_ds_new :: trigger_ds where
  "trigger_ds_new = \<lparr>td_data = [], td_fail_next_update = False\<rparr>"

definition td_insert :: "string \<Rightarrow> api_trigger \<Rightarrow> trigger_ds \<Rightarrow> trigger_ds" where
  "td_insert i t ds = ds\<lparr>td_data := AList.update i t (td_data ds)\<rparr>"

definition upsert :: "api_trigger \<Rightarrow> trigger_ds \<Rightarrow> trigger_ds" where
  "upsert t ds = td_insert (at_id t) t ds"

definition parse_request_id :: "api_env \<Rightarrow> string \<Rightarrow> trigger_update_request \<Rightarrow> trigger_update_error + string" where
  "parse_request_id env short_uuid req =
     map_err (\<lambda>e. TU_InvalidIdFormat (trigger_update_error_display e))
       (case rq_id req of None \<Rightarrow> parse_trigger_id env short_uuid | Some i \<Rightarrow> parse_trigger_id env i)"

definition create_trigger ::
  "api_env \<Rightarrow> string \<Rightarrow> time \<Rightarrow> trigger_update_request \<Rightarrow> trigger_ds \<Rightarrow>
     (trigger_update_error + api_trigger) \<times> trigger_ds" where
  "create_trigger env short_uuid now req ds =
     (case parse_request_id env short_uuid req of
        Inl e \<Rightarrow> (Inl e, ds)
      | Inr i \<Rightarrow>
          let t = \<lparr>at_id = i, at_name = trim (rq_name req), at_enabled = rq_enabled req,
                at_event = trim (rq_event req), at_condition = rq_condition req, at_action = trim (rq_action req),
                at_metadata = (case rq_metadata req of Some m \<Rightarrow> m | None \<Rightarrow> []), at_version = 1,
                at_created_at = now, at_updated_at = now\<rparr>
          in (Inr t, td_insert i t ds))"

definition get_trigger_by_id :: "string \<Rightarrow> trigger_ds \<Rightarrow> trigger_update_error + api_trigger" where
  "get_trigger_by_id i ds = ok_or (map_of (td_data ds) i) (TU_TriggerNotFound i)"

definition list_triggers :: "trigger_ds \<Rightarrow> trigger_update_error + api_trigger list" where
  "list_triggers ds = Inr (map snd (td_data ds))"

definition update_trigger ::
  "string \<Rightarrow> (api_trigger \<Rightarrow> trigger_update_error + api_trigger) \<Rightarrow> trigger_ds \<Rightarrow>
     (trigger_update_error + api_trigger) \<times> trigger_ds" where
  "update_trigger i modify ds =
     (let should_fail = td_fail_next_update ds; ds1 = ds\<lparr>td_fail_next_update := False\<rparr>
      in if should_fail then (Inl (TU_Persistence PERSISTENCE_MSG), ds1)
         else case get_trigger_by_id i ds1 of
             Inl e \<Rightarrow> (Inl e, ds1)
           | Inr current \<Rightarrow>
               (case modify current of Inl e \<Rightarrow> (Inl e, ds1) | Inr updated \<Rightarrow> (Inr updated, td_insert i updated ds1)))"

definition set_fail_next_update :: "bool \<Rightarrow> trigger_ds \<Rightarrow> bool \<times> trigger_ds" where
  "set_fail_next_update should_fail ds = (td_fail_next_update ds, ds\<lparr>td_fail_next_update := should_fail\<rparr>)"

definition delete_trigger :: "string \<Rightarrow> trigger_ds \<Rightarrow> (trigger_update_error + unit) \<times> trigger_ds" where
  "delete_trigger i ds =
     (case map_of (td_data ds) i of
        None \<Rightarrow> (Inl (TU_TriggerNotFound i), ds)
      | Some _ \<Rightarrow> (Inr (), ds\<lparr>td_data := AList.delete i (td_data ds)\<rparr>))"

section \<open>Requests and responses\<close>

datatype response_body = RB_View trigger_view | RB_Views "trigger_view list" | RB_Json json | RB_Empty

record api_response =
  rs_status :: nat
  rs_body :: response_body

definition err_json :: "string \<Rightarrow> string \<Rightarrow> (string \<times> string) list \<Rightarrow> json" where
  "err_json name message extra =
     JObject (foldr (\<lambda>(k, v). map_insert k (JString v)) ((''error'', name) # (''message'', message) # extra) [])"

fun error_details :: "trigger_update_error \<Rightarrow> nat \<times> json" where
  "error_details (TU_InvalidIdFormat message) = (400, err_json ''InvalidIdFormat'' message [])"
| "error_details (TU_UnsupportedContentType message) = (400, err_json ''UnsupportedContentType'' message [])"
| "error_details (TU_MalformedJson message) = (400, err_json ''MalformedJson'' message [])"
| "error_details (TU_ValidationFailed message) = (400, err_json ''ValidationFailed'' message [])"
| "error_details (TU_IdMismatch path_id body_id) =
     (400, err_json ''IdMismatch'' ''id mismatch'' [(''path_id'', path_id), (''body_id'', body_id)])"
| "error_details (TU_TriggerNotFound message) = (404, err_json ''TriggerNotFound'' message [])"
| "error_details (TU_VersionConflict message) = (409, err_json ''VersionConflict'' message [])"
| "error_details (TU_Persistence _) = (500, err_json ''Persistence'' PERSISTENCE_MSG [])"
| "error_details (TU_Serialization _) = (500, err_json ''Serialization'' SERIALIZATION_MSG [])"

definition error_response :: "trigger_update_error \<Rightarrow> api_response" where
  "error_response e = (let (status, payload) = error_details e in \<lparr>rs_status = status, rs_body = RB_Json payload\<rparr>)"

definition serialize_view :: "api_env \<Rightarrow> trigger_view \<Rightarrow> trigger_update_error + api_response" where
  "serialize_view env v =
     (if \<not> ae_serializes env v then Inl (TU_Serialization SERIALIZATION_MSG)
      else Inr \<lparr>rs_status = 200, rs_body = RB_View v\<rparr>)"

definition required_field :: "string option \<Rightarrow> string \<Rightarrow> trigger_update_error + string" where
  "required_field v message = ok_or v (TU_ValidationFailed message)"

definition request_try_from :: "trigger_payload \<Rightarrow> trigger_update_error + trigger_update_request" where
  "request_try_from p =
     res_bind (required_field (py_name p) NAME_REQUIRED_MSG) (\<lambda>name.
     res_bind (ok_or (py_enabled p) (TU_ValidationFailed ENABLED_REQUIRED_MSG)) (\<lambda>enabled.
     res_bind (required_field (py_event p) EVENT_REQUIRED_MSG) (\<lambda>event.
     res_bind (required_field (py_action p) ACTION_REQUIRED_MSG) (\<lambda>action.
       Inr \<lparr>rq_name = name, rq_enabled = enabled, rq_event = event, rq_condition = py_condition p,
         rq_action = action, rq_metadata = py_metadata p, rq_id = py_id p, rq_version = py_version p\<rparr>))))"

definition decode_trigger_update_request :: "api_env \<Rightarrow> string \<Rightarrow> trigger_update_error + trigger_update_request" where
  "decode_trigger_update_request env body =
     res_bind (ok_or (ae_decode env body) (TU_MalformedJson MALFORMED_JSON_MSG)) request_try_from"

text \<open>The header is its value as \<open>to_str\<close> gives it, \<open>None\<close> when absent or not visible ASCII.\<close>

definition normalized_content_type :: "string option \<Rightarrow> string" where
  "normalized_content_type header =
     to_ascii_lowercase (trim (hd (split_on CHR '';'' (case header of None \<Rightarrow> '''' | Some v \<Rightarrow> v))))"

datatype request_content_type = CT_Json | CT_Yaml | CT_Unsupported

definition classify_content_type :: "string \<Rightarrow> request_content_type" where
  "classify_content_type ct =
     (if ct = ''application/json'' then CT_Json
      else if ct = ''text/yaml'' \<or> ct = ''application/x-yaml'' \<or> ct = ''application/yaml'' then CT_Yaml
      else CT_Unsupported)"

definition parse_content_type :: "string option \<Rightarrow> trigger_update_error + unit" where
  "parse_content_type header =
     (let ct = normalized_content_type header
      in if ct = ''application/json'' then Inr () else Inl (TU_UnsupportedContentType ct))"

definition check_version_constraints :: "trigger_update_request \<Rightarrow> trigger_update_error option" where
  "check_version_constraints req =
     (if rq_version req = Some 0 then Some (TU_VersionConflict ''stale version supplied'') else None)"

definition prepare_update ::
  "api_env \<Rightarrow> string option \<Rightarrow> string \<Rightarrow> string \<Rightarrow> trigger_update_error + string \<times> trigger_update_request" where
  "prepare_update env header body path_id =
     res_bind (parse_content_type header) (\<lambda>_.
     res_bind (decode_trigger_update_request env body) (\<lambda>request.
     res_bind (validate_trigger_update env path_id request) (\<lambda>trigger_id.
     res_bind (case check_version_constraints request of None \<Rightarrow> Inr () | Some e \<Rightarrow> Inl e) (\<lambda>_.
       Inr (trigger_id, request)))))"

section \<open>The handlers\<close>

definition respond_view :: "api_env \<Rightarrow> api_trigger \<Rightarrow> api_response" where
  "respond_view env t =
     (case serialize_view env (trigger_view_from t) of Inr response \<Rightarrow> response | Inl e \<Rightarrow> error_response e)"

definition update_trigger_handler ::
  "api_env \<Rightarrow> time \<Rightarrow> string \<Rightarrow> string option \<Rightarrow> string \<Rightarrow> trigger_ds \<Rightarrow> api_response \<times> trigger_ds" where
  "update_trigger_handler env now path_id header body ds =
     (if length body > MAX_BODY_BYTES then (error_response (TU_ValidationFailed BODY_TOO_LARGE_MSG), ds)
      else case prepare_update env header body path_id of
          Inl e \<Rightarrow> (error_response e, ds)
        | Inr (trigger_id, request) \<Rightarrow>
            (case update_trigger trigger_id (\<lambda>current. apply_trigger_update current request now) ds of
               (Inr t, ds') \<Rightarrow> (respond_view env t, ds') | (Inl e, ds') \<Rightarrow> (error_response e, ds')))"

definition create_trigger_handler ::
  "api_env \<Rightarrow> string \<Rightarrow> time \<Rightarrow> string option \<Rightarrow> string \<Rightarrow> trigger_ds \<Rightarrow> api_response \<times> trigger_ds" where
  "create_trigger_handler env short_uuid now header body ds =
     (if length body > MAX_BODY_BYTES then (error_response (TU_ValidationFailed BODY_TOO_LARGE_MSG), ds)
      else case parse_content_type header of Inl e \<Rightarrow> (error_response e, ds) | Inr _ \<Rightarrow>
        case decode_trigger_update_request env body of Inl e \<Rightarrow> (error_response e, ds) | Inr request \<Rightarrow>
        case validate_trigger_create env request of Inl e \<Rightarrow> (error_response e, ds) | Inr _ \<Rightarrow>
        case create_trigger env short_uuid now request ds of
          (Inr t, ds') \<Rightarrow> (\<lparr>rs_status = 201, rs_body = RB_View (trigger_view_from t)\<rparr>, ds')
        | (Inl e, ds') \<Rightarrow> (error_response e, ds'))"

definition get_trigger_handler :: "api_env \<Rightarrow> string \<Rightarrow> trigger_ds \<Rightarrow> api_response" where
  "get_trigger_handler env i ds =
     (case parse_trigger_id env i of Inl e \<Rightarrow> error_response e | Inr trigger_id \<Rightarrow>
        case get_trigger_by_id trigger_id ds of Inl e \<Rightarrow> error_response e | Inr t \<Rightarrow> respond_view env t)"

definition delete_trigger_handler :: "api_env \<Rightarrow> string \<Rightarrow> trigger_ds \<Rightarrow> api_response \<times> trigger_ds" where
  "delete_trigger_handler env i ds =
     (case parse_trigger_id env i of Inl e \<Rightarrow> (error_response e, ds) | Inr trigger_id \<Rightarrow>
        case delete_trigger trigger_id ds of
          (Inr _, ds') \<Rightarrow> (\<lparr>rs_status = 204, rs_body = RB_Empty\<rparr>, ds') | (Inl e, ds') \<Rightarrow> (error_response e, ds'))"

definition list_triggers_handler :: "api_env \<Rightarrow> trigger_ds \<Rightarrow> api_response" where
  "list_triggers_handler env ds =
     (case list_triggers ds of Inl e \<Rightarrow> error_response e | Inr ts \<Rightarrow>
        let views = map trigger_view_from ts
        in if list_all (ae_serializes env) views then \<lparr>rs_status = 200, rs_body = RB_Views views\<rparr>
           else error_response (TU_Serialization SERIALIZATION_MSG))"

section \<open>Overlapping updates\<close>

text \<open>\<open>update_trigger\<close> of one request between its accesses: the flag, the read, the write.\<close>

datatype put_pc = Put_Start | Put_Read | Put_Write api_trigger | Put_Done "trigger_update_error + api_trigger"

record put_call =
  pc_id :: string
  pc_request :: trigger_update_request
  pc_state :: put_pc

definition put_action :: "time \<Rightarrow> trigger_ds \<times> put_call \<Rightarrow> trigger_ds \<times> put_call" where
  "put_action now dc =
     (case dc of (ds, c) \<Rightarrow>
      case pc_state c of
        Put_Start \<Rightarrow>
          (ds\<lparr>td_fail_next_update := False\<rparr>,
           c\<lparr>pc_state := if td_fail_next_update ds then Put_Done (Inl (TU_Persistence PERSISTENCE_MSG)) else Put_Read\<rparr>)
      | Put_Read \<Rightarrow>
          (ds, c\<lparr>pc_state := (case res_bind (get_trigger_by_id (pc_id c) ds)
               (\<lambda>current. apply_trigger_update current (pc_request c) now) of
             Inl e \<Rightarrow> Put_Done (Inl e) | Inr updated \<Rightarrow> Put_Write updated)\<rparr>)
      | Put_Write updated \<Rightarrow> (td_insert (pc_id c) updated ds, c\<lparr>pc_state := Put_Done (Inr updated)\<rparr>)
      | Put_Done r \<Rightarrow> (ds, c))"

text \<open>The store with its updates in flight. Only validated requests reach it.\<close>

inductive api_step :: "api_env \<Rightarrow> trigger_ds \<times> put_call list \<Rightarrow> trigger_ds \<times> put_call list \<Rightarrow> bool" for env where
  AP_Create: "validate_trigger_create env req = Inr () \<Longrightarrow> create_trigger env uuid now req ds = (r, ds') \<Longrightarrow>
    api_step env (ds, cs) (ds', cs)"
| AP_Delete: "parse_trigger_id env i = Inr i' \<Longrightarrow> delete_trigger i' ds = (r, ds') \<Longrightarrow> api_step env (ds, cs) (ds', cs)"
| AP_Fail: "api_step env (ds, cs) (ds\<lparr>td_fail_next_update := b\<rparr>, cs)"
| AP_Put: "validate_trigger_update env path_id req = Inr i \<Longrightarrow>
    api_step env (ds, cs) (ds, \<lparr>pc_id = i, pc_request = req, pc_state = Put_Start\<rparr> # cs)"
| AP_Action: "k < length cs \<Longrightarrow> put_action now (ds, cs ! k) = (ds', c') \<Longrightarrow> api_step env (ds, cs) (ds', cs[k := c'])"

section \<open>Updates one at a time\<close>

definition field_ok :: "string \<Rightarrow> bool" where
  "field_ok v \<longleftrightarrow> v \<noteq> [] \<and> length v \<le> 64 \<and> trim v = v"

definition metadata_ok :: "smap \<Rightarrow> bool" where
  "metadata_ok m \<longleftrightarrow> (\<forall>(k, _) \<in> set m. k \<noteq> [] \<and> is_ascii k)"

definition request_ok :: "trigger_update_request \<Rightarrow> bool" where
  "request_ok req \<longleftrightarrow>
     field_ok (trim (rq_name req)) \<and> field_ok (trim (rq_event req)) \<and> field_ok (trim (rq_action req)) \<and>
     pred_option metadata_ok (rq_metadata req)"

lemma validate_fields_Inr [res_simps]: "validate_fields req = Inr u \<longleftrightarrow> request_ok req"
proof -
  have f: "validate_required_field v m n = Inr u \<longleftrightarrow> field_ok (trim v)" for v m n u
    by (auto simp: validate_required_field_def field_ok_def TRIGGER_FIELD_MAX_LEN_def Let_def)
  have m: "validate_metadata md = Inr u \<longleftrightarrow> pred_option metadata_ok md" for md u
    by (cases md) (auto simp: validate_metadata_def metadata_ok_def)
  show ?thesis by (simp add: validate_fields_def res_simps f m request_ok_def)
qed

text \<open>What an accepted update makes of a trigger.\<close>

definition updated_trigger :: "api_trigger \<Rightarrow> trigger_update_request \<Rightarrow> time \<Rightarrow> api_trigger" where
  "updated_trigger t req now =
     t\<lparr>at_name := trim (rq_name req), at_enabled := rq_enabled req, at_event := trim (rq_event req),
       at_condition := rq_condition req, at_action := trim (rq_action req),
       at_metadata := (case rq_metadata req of Some m \<Rightarrow> m | None \<Rightarrow> []),
       at_version := saturating_succ (at_version t), at_updated_at := now\<rparr>"

definition update_allowed :: "api_trigger \<Rightarrow> trigger_update_request \<Rightarrow> time \<Rightarrow> bool" where
  "update_allowed t req now \<longleftrightarrow>
     (rq_version req = None \<or> rq_version req = Some (at_version t)) \<and> request_ok req \<and> at_updated_at t \<le> now"

lemma apply_trigger_update_Inr:
  "apply_trigger_update t req now = Inr t' \<longleftrightarrow> t' = updated_trigger t req now \<and> update_allowed t req now"
proof -
  have "validate_timestamp_monotonicity now (at_updated_at t) = Inr u \<longleftrightarrow> at_updated_at t \<le> now" for u
    by (auto simp: validate_timestamp_monotonicity_def)
  then show ?thesis
    by (auto simp: apply_trigger_update_def update_allowed_def res_simps updated_trigger_def)
qed

lemma status_error: "rs_status (error_response e) \<noteq> 200" "rs_status (error_response e) \<noteq> 201"
  by (cases e; simp add: error_response_def)+

definition id_format_ok :: "api_env \<Rightarrow> string \<Rightarrow> bool" where
  "id_format_ok env s \<longleftrightarrow>
     3 \<le> length s \<and> length s \<le> 64 \<and>
     list_all (\<lambda>c. is_alphanumeric (ae_uni env) c \<or> c = ''_'' \<or> c = ''-'') (utf8_chars s)"

lemma parse_trigger_id_Inr [res_simps]: "parse_trigger_id env s = Inr i \<longleftrightarrow> i = s \<and> id_format_ok env s"
  by (auto simp: parse_trigger_id_def Let_def id_format_ok_def TRIGGER_ID_MIN_LEN_def TRIGGER_ID_MAX_LEN_def)

lemma validate_trigger_update_Inr:
  "validate_trigger_update env path_id req = Inr i \<longleftrightarrow>
     i = path_id \<and> id_format_ok env path_id \<and> request_ok req \<and> (rq_id req = None \<or> rq_id req = Some path_id)"
  by (auto simp: validate_trigger_update_def res_simps split: option.splits if_splits)

lemma prepare_update_Inr:
  "prepare_update env header body path_id = Inr (i, req) \<longleftrightarrow>
     i = path_id \<and> normalized_content_type header = ''application/json'' \<and>
     decode_trigger_update_request env body = Inr req \<and> id_format_ok env path_id \<and>
     request_ok req \<and> (rq_id req = None \<or> rq_id req = Some path_id) \<and> rq_version req \<noteq> Some 0"
  by (auto simp: prepare_update_def parse_content_type_def Let_def res_simps validate_trigger_update_Inr
      check_version_constraints_def split: if_splits)

text \<open>C18. \<open>PUT /triggers/{id}\<close>, alone: it answers 200 exactly when the body is JSON of at most 16 KiB that decodes
  to a valid request for that id, the trigger exists, a version in the request is the stored one and the clock
  is not behind the last update; then the stored trigger is the updated one, its version one higher and its id
  and creation time kept. Otherwise no trigger changes.
\<close>

theorem put_trigger_spec:
  assumes "\<And>v. ae_serializes env v"
    and "update_trigger_handler env now path_id header body ds = (resp, ds')"
  shows "(rs_status resp = 200 \<longleftrightarrow>
      length body \<le> 16 * 1024 \<and> \<not> td_fail_next_update ds \<and>
      (\<exists>req t. prepare_update env header body path_id = Inr (path_id, req) \<and>
         map_of (td_data ds) path_id = Some t \<and> update_allowed t req now)) \<and>
    (rs_status resp = 200 \<longrightarrow>
      (\<exists>req t. decode_trigger_update_request env body = Inr req \<and> map_of (td_data ds) path_id = Some t \<and>
         rs_body resp = RB_View (trigger_view_from (updated_trigger t req now)) \<and>
         map_of (td_data ds') = (map_of (td_data ds))(path_id \<mapsto> updated_trigger t req now))) \<and>
    (rs_status resp \<noteq> 200 \<longrightarrow> td_data ds' = td_data ds)"
proof (cases "length body \<le> 16 * 1024 \<and> (\<exists>req. prepare_update env header body path_id = Inr (path_id, req))")
  case False
  then have "(\<exists>e. resp = error_response e) \<and> ds' = ds"
    using assms(2) prepare_update_Inr
    by (auto simp: update_trigger_handler_def MAX_BODY_BYTES_def split: if_splits sum.splits)
  with False show ?thesis using status_error by auto
next
  case True
  then obtain req where p: "prepare_update env header body path_id = Inr (path_id, req)" by blast
  let ?upd = "update_trigger path_id (\<lambda>current. apply_trigger_update current req now) ds"
  have h: "(resp, ds') = (case ?upd of (Inr t, d) \<Rightarrow> (respond_view env t, d) | (Inl e, d) \<Rightarrow> (error_response e, d))"
    using True assms(2) p by (simp add: update_trigger_handler_def MAX_BODY_BYTES_def)
  have v: "rs_status (respond_view env t) = 200 \<and> rs_body (respond_view env t) = RB_View (trigger_view_from t)" for t
    using assms(1) by (simp add: respond_view_def serialize_view_def)
  have d: "decode_trigger_update_request env body = Inr req" using p by (simp add: prepare_update_Inr)
  show ?thesis
  proof (cases "\<not> td_fail_next_update ds \<and> (\<exists>t. map_of (td_data ds) path_id = Some t \<and> update_allowed t req now)")
    case True
    then obtain t where t: "map_of (td_data ds) path_id = Some t" "update_allowed t req now" by blast
    then have "apply_trigger_update t req now = Inr (updated_trigger t req now)" by (simp add: apply_trigger_update_Inr)
    with True t h v p d \<open>length body \<le> 16 * 1024 \<and> _\<close> show ?thesis
      by (auto simp: update_trigger_def get_trigger_by_id_def td_insert_def update_conv')
  next
    case False
    then have "\<exists>e. ?upd = (Inl e, ds\<lparr>td_fail_next_update := False\<rparr>)"
      using apply_trigger_update_Inr
      by (auto simp: update_trigger_def get_trigger_by_id_def ok_or_def Let_def split: option.splits sum.splits)
    then have "(\<exists>e. resp = error_response e) \<and> td_data ds' = td_data ds" using h by auto
    with False p show ?thesis using status_error by auto
  qed
qed

definition example_api_env :: api_env where
  "example_api_env =
     \<lparr>ae_uni = (\<lambda>_. False),
      ae_decode = (\<lambda>_. Some \<lparr>py_name = Some ''a'', py_enabled = Some True, py_event = Some ''e'', py_condition = None,
        py_action = Some ''go'', py_metadata = None, py_id = None, py_version = Some 1\<rparr>),
      ae_serializes = (\<lambda>_. True)\<rparr>"

definition example_trigger :: api_trigger where
  "example_trigger =
     \<lparr>at_id = ''trg'', at_name = ''old'', at_enabled = False, at_event = ''e'', at_condition = None,
      at_action = ''go'', at_metadata = [], at_version = 1, at_created_at = 5, at_updated_at = 5\<rparr>"

definition example_request :: trigger_update_request where
  "example_request =
     \<lparr>rq_name = ''a'', rq_enabled = True, rq_event = ''e'', rq_condition = None, rq_action = ''go'', rq_metadata = None,
      rq_id = None, rq_version = Some 1\<rparr>"

lemma example_trims: "trim ''a'' = ''a''" "trim ''e'' = ''e''" "trim ''go'' = ''go''"
  "trim ''application/json'' = ''application/json''"
  by (rule trim_visible; simp add: visible_def)+

lemma example_request_ok: "request_ok example_request"
  by (simp add: request_ok_def example_request_def field_ok_def example_trims Let_def)

lemma example_content_type: "normalized_content_type (Some ''application/json'') = ''application/json''"
  by (simp add: normalized_content_type_def example_trims to_ascii_lowercase_def to_lower_def is_upper_def
      less_eq_char_def)

theorem put_trigger_spec_witness:
  "\<exists>resp ds'. update_trigger_handler example_api_env 9 ''trg'' (Some ''application/json'') ''{}''
      \<lparr>td_data = [(''trg'', example_trigger)], td_fail_next_update = False\<rparr> = (resp, ds') \<and> rs_status resp = 200"
proof -
  let ?ds = "\<lparr>td_data = [(''trg'', example_trigger)], td_fail_next_update = False\<rparr>"
  obtain resp ds' where h: "update_trigger_handler example_api_env 9 ''trg'' (Some ''application/json'') ''{}'' ?ds = (resp, ds')"
    by (metis surj_pair)
  have "decode_trigger_update_request example_api_env ''{}'' = Inr example_request"
    by (simp add: decode_trigger_update_request_def example_api_env_def request_try_from_def required_field_def
        example_request_def)
  moreover have "id_format_ok example_api_env ''trg''" by code_simp
  ultimately have "prepare_update example_api_env (Some ''application/json'') ''{}'' ''trg'' = Inr (''trg'', example_request)"
    using example_request_ok example_content_type by (simp add: prepare_update_Inr example_request_def)
  moreover have "update_allowed example_trigger example_request 9"
    using example_request_ok by (simp add: update_allowed_def) (simp add: example_request_def example_trigger_def)
  moreover have "\<And>v. ae_serializes example_api_env v" by (simp add: example_api_env_def)
  ultimately have "rs_status resp = 200"
    using put_trigger_spec [OF _ h] by auto
  with h show ?thesis by blast
qed

text \<open>
  Of two updates that carry the version they were read at, run one after the other, the second is
  answered with the version conflict (409): the version check works while calls do not overlap.
\<close>

theorem second_update_conflicts:
  assumes "map_of (td_data ds) i = Some t" "\<not> td_fail_next_update ds" "at_version t \<noteq> - 1"
    and "rq_version req1 = Some (at_version t)" "rq_version req2 = Some (at_version t)"
    and "update_trigger i (\<lambda>c. apply_trigger_update c req1 now1) ds = (Inr t1, ds1)"
  shows "update_trigger i (\<lambda>c. apply_trigger_update c req2 now2) ds1 =
    (Inl (TU_VersionConflict ''stale version supplied''), ds1)"
proof -
  have "apply_trigger_update t req1 now1 = Inr t1" "ds1 = td_insert i t1 (ds\<lparr>td_fail_next_update := False\<rparr>)"
    using assms(1,2,6) by (auto simp: update_trigger_def get_trigger_by_id_def Let_def split: sum.splits)
  moreover from this have "at_version t1 = at_version t + 1"
    using assms(3) by (simp add: apply_trigger_update_Inr updated_trigger_def saturating_succ_def)
  ultimately show ?thesis
    using assms(5) by (simp add: update_trigger_def get_trigger_by_id_def td_insert_def update_conv' Let_def
        apply_trigger_update_def)
qed

section \<open>Updates that overlap\<close>

text \<open>
  The three accesses of an update, run without interruption, are \<open>update_trigger\<close>.
\<close>

theorem put_actions_refine:
  "(put_action now ^^ 3) (ds, \<lparr>pc_id = i, pc_request = req, pc_state = Put_Start\<rparr>) =
     (let (r, ds') = update_trigger i (\<lambda>c. apply_trigger_update c req now) ds
      in (ds', \<lparr>pc_id = i, pc_request = req, pc_state = Put_Done r\<rparr>))"
  by (auto simp: put_action_def update_trigger_def eval_nat_numeral Let_def res_bind_def split: sum.splits)

text \<open>Two updates with the same version that both read before either writes both succeed, with the same new
  version, and the first is lost: the store holds the second's trigger.
\<close>

theorem lost_update:
  assumes "map_of (td_data ds) i = Some t" "\<not> td_fail_next_update ds"
    and "update_allowed t req1 now1" "update_allowed t req2 now2"
    and a: "(put_action now1 ^^ 2) (ds, \<lparr>pc_id = i, pc_request = req1, pc_state = Put_Start\<rparr>) = (ds1, a)"
    and b: "(put_action now2 ^^ 2) (ds1, \<lparr>pc_id = i, pc_request = req2, pc_state = Put_Start\<rparr>) = (ds2, b)"
    and a': "put_action now1 (ds2, a) = (ds3, a')" and b': "put_action now2 (ds3, b) = (ds4, b')"
  shows "pc_state a' = Put_Done (Inr (updated_trigger t req1 now1)) \<and>
    pc_state b' = Put_Done (Inr (updated_trigger t req2 now2)) \<and>
    map_of (td_data ds4) = (map_of (td_data ds))(i \<mapsto> updated_trigger t req2 now2) \<and>
    at_version (updated_trigger t req1 now1) = at_version (updated_trigger t req2 now2)"
proof -
  have u: "apply_trigger_update t req1 now1 = Inr (updated_trigger t req1 now1)"
    "apply_trigger_update t req2 now2 = Inr (updated_trigger t req2 now2)"
    using assms(3,4) by (simp_all add: apply_trigger_update_Inr)
  have 1: "ds1 = ds" "a = \<lparr>pc_id = i, pc_request = req1, pc_state = Put_Write (updated_trigger t req1 now1)\<rparr>"
    using a assms(1,2) u by (auto simp: put_action_def get_trigger_by_id_def eval_nat_numeral)
  have 2: "ds2 = ds" "b = \<lparr>pc_id = i, pc_request = req2, pc_state = Put_Write (updated_trigger t req2 now2)\<rparr>"
    using b assms(1,2) u 1 by (auto simp: put_action_def get_trigger_by_id_def eval_nat_numeral)
  show ?thesis
    using a' b' unfolding 1 2 by (auto simp: put_action_def td_insert_def update_conv' updated_trigger_def)
qed

lemma example_allowed: "update_allowed example_trigger example_request 9"
  using example_request_ok by (simp add: update_allowed_def) (simp add: example_request_def example_trigger_def)

lemma example_put_read:
  assumes "ds = \<lparr>td_data = [(''trg'', example_trigger)], td_fail_next_update = False\<rparr>"
  shows "(put_action 9 ^^ 2) (ds, \<lparr>pc_id = ''trg'', pc_request = example_request, pc_state = Put_Start\<rparr>) =
    (ds, \<lparr>pc_id = ''trg'', pc_request = example_request,
       pc_state = Put_Write (updated_trigger example_trigger example_request 9)\<rparr>)"
proof -
  have "apply_trigger_update example_trigger example_request 9 = Inr (updated_trigger example_trigger example_request 9)"
    using example_allowed by (simp add: apply_trigger_update_Inr)
  then show ?thesis unfolding assms by (simp add: put_action_def get_trigger_by_id_def eval_nat_numeral)
qed

theorem lost_update_witness:
  "\<exists>(ds4 :: trigger_ds) (b' :: put_call). pc_state b' = Put_Done (Inr (updated_trigger example_trigger example_request 9)) \<and>
    map_of (td_data ds4) ''trg'' = Some (updated_trigger example_trigger example_request 9)"
proof -
  let ?ds = "\<lparr>td_data = [(''trg'', example_trigger)], td_fail_next_update = False\<rparr>"
  let ?c = "\<lparr>pc_id = ''trg'', pc_request = example_request,
    pc_state = Put_Write (updated_trigger example_trigger example_request 9)\<rparr>"
  obtain ds3 a' where 3: "put_action 9 (?ds, ?c) = (ds3, a')" by (metis surj_pair)
  obtain ds4 b' where 4: "put_action 9 (ds3, ?c) = (ds4, b')" by (metis surj_pair)
  have "map_of (td_data ?ds) ''trg'' = Some example_trigger" "\<not> td_fail_next_update ?ds" by simp_all
  from lost_update [OF this example_allowed example_allowed example_put_read [OF refl] example_put_read [OF refl] 3 4]
  have "pc_state b' = Put_Done (Inr (updated_trigger example_trigger example_request 9)) \<and>
      map_of (td_data ds4) ''trg'' = Some (updated_trigger example_trigger example_request 9)" by simp
  then show ?thesis by blast
qed

text \<open>
  A trigger deleted while an update of it is between its read and its write is there again after the
  write, though the deletion answered 204.
\<close>

theorem deleted_trigger_returns:
  assumes "map_of (td_data ds) i = Some t" "\<not> td_fail_next_update ds" "update_allowed t req now" "id_format_ok env i"
    and a: "(put_action now ^^ 2) (ds, \<lparr>pc_id = i, pc_request = req, pc_state = Put_Start\<rparr>) = (ds1, a)"
    and d: "delete_trigger_handler env i ds1 = (resp, ds2)" and w: "put_action now (ds2, a) = (ds3, a')"
  shows "rs_status resp = 204 \<and> map_of (td_data ds2) i = None \<and>
    map_of (td_data ds3) i = Some (updated_trigger t req now)"
proof -
  have u: "apply_trigger_update t req now = Inr (updated_trigger t req now)"
    using assms(3) by (simp add: apply_trigger_update_Inr)
  have 1: "ds1 = ds" "a = \<lparr>pc_id = i, pc_request = req, pc_state = Put_Write (updated_trigger t req now)\<rparr>"
    using a assms(1,2) u by (auto simp: put_action_def get_trigger_by_id_def eval_nat_numeral)
  have "parse_trigger_id env i = Inr i" using assms(4) by (simp add: parse_trigger_id_Inr)
  then have 2: "resp = \<lparr>rs_status = 204, rs_body = RB_Empty\<rparr>" "ds2 = ds\<lparr>td_data := AList.delete i (td_data ds)\<rparr>"
    using d assms(1) 1 by (auto simp: delete_trigger_handler_def delete_trigger_def)
  show ?thesis using w unfolding 1 2 by (auto simp: put_action_def td_insert_def update_conv' delete_conv')
qed

section \<open>What the store always holds\<close>

definition api_trigger_ok :: "api_env \<Rightarrow> string \<Rightarrow> api_trigger \<Rightarrow> bool" where
  "api_trigger_ok env i t \<longleftrightarrow>
     at_id t = i \<and> id_format_ok env i \<and> field_ok (at_name t) \<and> field_ok (at_event t) \<and> field_ok (at_action t) \<and>
     metadata_ok (at_metadata t) \<and> at_version t \<noteq> 0 \<and> at_created_at t \<le> at_updated_at t"

definition api_inv :: "api_env \<Rightarrow> trigger_ds \<times> put_call list \<Rightarrow> bool" where
  "api_inv env dc \<longleftrightarrow>
     (case dc of (ds, cs) \<Rightarrow>
       (\<forall>i t. map_of (td_data ds) i = Some t \<longrightarrow> api_trigger_ok env i t) \<and>
       (\<forall>c \<in> set cs. \<forall>t. pc_state c = Put_Write t \<longrightarrow> api_trigger_ok env (pc_id c) t))"

lemma api_inv_initial: "api_inv env (trigger_ds_new, [])"
  by (simp add: api_inv_def trigger_ds_new_def)

lemma metadata_default [simp]:
  "pred_option metadata_ok m \<Longrightarrow> metadata_ok (case m of Some x \<Rightarrow> x | None \<Rightarrow> [])"
  by (cases m) (auto simp: metadata_ok_def)

lemma updated_trigger_ok:
  assumes "api_trigger_ok env i t" "update_allowed t req now"
  shows "api_trigger_ok env i (updated_trigger t req now)"
proof -
  have "saturating_succ v \<noteq> 0" for v
    by (simp add: saturating_succ_def) (metis add_eq_0_iff minus_equation_iff)
  with assms show ?thesis
    by (auto simp: api_trigger_ok_def updated_trigger_def update_allowed_def request_ok_def)
qed

lemma put_action_inv:
  assumes "put_action now (ds, c) = (ds', c')"
    and "\<forall>i t. map_of (td_data ds) i = Some t \<longrightarrow> api_trigger_ok env i t"
    and "\<forall>t. pc_state c = Put_Write t \<longrightarrow> api_trigger_ok env (pc_id c) t"
  shows "(\<forall>i t. map_of (td_data ds') i = Some t \<longrightarrow> api_trigger_ok env i t) \<and>
    (\<forall>t. pc_state c' = Put_Write t \<longrightarrow> api_trigger_ok env (pc_id c') t)"
proof (cases "pc_state c")
  case Put_Read
  then show ?thesis
    using assms updated_trigger_ok
    by (auto simp: put_action_def get_trigger_by_id_def res_simps apply_trigger_update_Inr split: sum.splits)
qed (use assms in \<open>auto simp: put_action_def td_insert_def update_conv' split: if_splits\<close>)

lemma create_trigger_ok:
  assumes "validate_trigger_create env req = Inr ()" "create_trigger env uuid now req ds = (r, ds')"
    and "\<forall>i t. map_of (td_data ds) i = Some t \<longrightarrow> api_trigger_ok env i t"
  shows "\<forall>i t. map_of (td_data ds') i = Some t \<longrightarrow> api_trigger_ok env i t"
proof -
  have "request_ok req" using assms(1) by (simp add: validate_trigger_create_def res_simps)
  moreover have "parse_request_id env uuid req = Inr i \<Longrightarrow> id_format_ok env i" for i
    by (auto simp: parse_request_id_def map_err_Inr res_simps split: option.splits)
  ultimately show ?thesis
    using assms(2,3)
    by (auto simp: create_trigger_def Let_def td_insert_def update_conv' api_trigger_ok_def request_ok_def
        split: sum.splits if_splits)
qed

lemma api_inv_step:
  assumes "api_step env dc dc'" "api_inv env dc"
  shows "api_inv env dc'"
  using assms
proof (cases rule: api_step.cases)
  case (AP_Create req uuid now ds r ds' cs)
  then show ?thesis using assms(2) create_trigger_ok [OF AP_Create(3,4)] by (simp add: api_inv_def)
next
  case (AP_Delete i i' ds r ds' cs)
  then show ?thesis
    using assms(2) by (auto simp: api_inv_def delete_trigger_def delete_conv' split: option.splits if_splits)
next
  case (AP_Action k cs now ds ds' c')
  then have c: "\<forall>i t. map_of (td_data ds) i = Some t \<longrightarrow> api_trigger_ok env i t"
    "\<forall>t. pc_state (cs ! k) = Put_Write t \<longrightarrow> api_trigger_ok env (pc_id (cs ! k)) t"
    using assms(2) nth_mem [of k cs] by (auto simp: api_inv_def)
  from put_action_inv [OF AP_Action(4) this] assms(2) AP_Action(1,2) show ?thesis
    by (auto simp: api_inv_def dest!: set_update_subset_insert [THEN subsetD])
qed (auto simp: api_inv_def)

text \<open>Whatever creations, deletions and updates run, and however the accesses of the updates interleave, every
  stored trigger is filed under its own well-formed id, its name, event and action are trimmed, non-empty and
  at most 64 bytes, its metadata keys non-empty ASCII, its version at least 1 and its last update not before
  its creation.
\<close>

theorem api_triggers_well_formed:
  "(api_step env)\<^sup>*\<^sup>* (trigger_ds_new, []) (ds, cs) \<Longrightarrow> map_of (td_data ds) i = Some t \<Longrightarrow> api_trigger_ok env i t"
proof -
  assume "(api_step env)\<^sup>*\<^sup>* (trigger_ds_new, []) (ds, cs)" and t: "map_of (td_data ds) i = Some t"
  then have "api_inv env (ds, cs)"
    using api_inv_initial by (induction rule: rtranclp_induct) (blast intro: api_inv_step)+
  with t show ?thesis by (simp add: api_inv_def)
qed

theorem api_triggers_well_formed_witness:
  "api_trigger_ok example_api_env ''trg''
     \<lparr>at_id = ''trg'', at_name = ''a'', at_enabled = True, at_event = ''e'', at_condition = None, at_action = ''go'',
      at_metadata = [], at_version = 1, at_created_at = 9, at_updated_at = 9\<rparr>" (is "api_trigger_ok _ _ ?t")
proof -
  have "parse_trigger_id example_api_env ''trg'' = Inr ''trg''" by (simp add: parse_trigger_id_Inr) code_simp
  then have "create_trigger example_api_env ''trg'' 9 example_request trigger_ds_new = (Inr ?t, td_insert ''trg'' ?t trigger_ds_new)"
    by (simp add: create_trigger_def parse_request_id_def example_request_def example_trims Let_def)
  moreover have "validate_trigger_create example_api_env example_request = Inr ()"
    using example_request_ok by (simp add: validate_trigger_create_def res_simps) (simp add: example_request_def)
  ultimately have "(api_step example_api_env)\<^sup>*\<^sup>* (trigger_ds_new, []) (td_insert ''trg'' ?t trigger_ds_new, [])"
    by (blast intro: r_into_rtranclp AP_Create)
  moreover have "map_of (td_data (td_insert ''trg'' ?t trigger_ds_new)) ''trg'' = Some ?t"
    by (simp add: td_insert_def update_conv')
  ultimately show ?thesis by (rule api_triggers_well_formed)
qed

end
