(* ===== verification/Validation.thy ===== *)
theory Validation
  imports Domain_Types Queue_Names
begin

text \<open>
  Validation of jobs, tasks, mounts and webhooks (\<open>twerk-core/src/validation\<close>) and the numeric newtypes of
  \<open>twerk-core/src/types\<close>. A fault is a kind and a message; every check returns all the faults it finds, in
  order. Whether an expression evaluates in an empty context (\<open>eval::valid_expr\<close>) is an argument.
\<close>

section \<open>Numeric newtypes\<close>

datatype port_error = PT_OutOfRange u16

definition port_new :: "u16 \<Rightarrow> port_error + u16" where
  "port_new v = (if v < 1 then Inl (PT_OutOfRange v) else Inr v)"

datatype progress_error = PG_OutOfRange f64 | PG_NaN

definition progress_new :: "f64 \<Rightarrow> progress_error + f64" where
  "progress_new v =
     (if f64_is_nan v then Inl PG_NaN
      else if \<not> (f64_le (f64_of_int 0) v \<and> f64_le v (f64_of_int 100)) then Inl (PG_OutOfRange v)
      else Inr v)"

datatype retry_limit_error = RL_NoneNotAllowed | RL_OutOfRange u32

definition retry_limit_new :: "u32 \<Rightarrow> retry_limit_error + u32" where
  "retry_limit_new v = (if 1 \<le> v \<and> v \<le> 10 then Inr v else Inl (RL_OutOfRange v))"

definition retry_limit_from_option :: "u32 option \<Rightarrow> retry_limit_error + u32" where
  "retry_limit_from_option v = res_bind (ok_or v RL_NoneNotAllowed) retry_limit_new"

section \<open>Errors and their texts\<close>

definition show_int :: "int \<Rightarrow> string" where
  "show_int i = (if i < 0 then ''-'' @ show_nat (nat (- i)) else show_nat (nat i))"

datatype parse_retry_error = PR_RetryOutOfRange i64

datatype domain_parse_error =
    DP_Cron cron_expression_error
  | DP_Duration go_duration_error
  | DP_QueueName queue_name_error
  | DP_Priority priority_error
  | DP_RetryLimit parse_retry_error

text \<open>\<open>bytes[i] as char\<close> is the character of Latin-1, two bytes long beyond ASCII.\<close>

definition latin1_char :: "char \<Rightarrow> string" where
  "latin1_char c = (let n = of_char c :: nat in
     if n < 128 then [c] else [char_of (0xC0 + n div 64), char_of (0x80 + n mod 64)])"

fun go_duration_error_display :: "go_duration_error \<Rightarrow> string" where
  "go_duration_error_display GD_Empty = ''empty duration string''"
| "go_duration_error_display (GD_NoUnit i) = ''no unit specified in duration segment near index '' @ show_nat i"
| "go_duration_error_display (GD_UnknownUnit c) = ''unknown duration unit: '' @ [CHR 0x27] @ latin1_char c @ [CHR 0x27]"
| "go_duration_error_display (GD_ParseNumber i) = ''failed to parse duration number near index '' @ show_nat i"
| "go_duration_error_display GD_ZeroDuration = ''zero duration is not allowed (duration must be positive)''"

fun queue_name_error_display :: "queue_name_error \<Rightarrow> string" where
  "queue_name_error_display (QN_InvalidLength n) =
     ''queue name length '' @ show_nat n @ '' is invalid (must be 1-128 chars)''"
| "queue_name_error_display QN_InvalidCharacter = ''queue name contains invalid characters''"
| "queue_name_error_display (QN_Reserved s) = ''queue name '' @ [CHR 0x22] @ s @ [CHR 0x22] @ '' is reserved''"

fun cron_expression_error_display :: "cron_expression_error \<Rightarrow> string" where
  "cron_expression_error_display CX_Empty = ''cron expression cannot be empty''"
| "cron_expression_error_display (CX_ParseError e) = ''invalid cron expression: '' @ e"
| "cron_expression_error_display (CX_InvalidFieldCount n) =
     ''invalid field count: '' @ show_nat n @ '' (must be 5 or 6)''"

fun priority_error_display :: "priority_error \<Rightarrow> string" where
  "priority_error_display (PR_OutOfRange v) = ''priority '' @ show_int (sint v) @ '' is out of range (must be 0-9)''"

fun domain_parse_error_display :: "domain_parse_error \<Rightarrow> string" where
  "domain_parse_error_display (DP_Cron e) = ''invalid cron expression: '' @ cron_expression_error_display e"
| "domain_parse_error_display (DP_Duration e) = ''invalid duration: '' @ go_duration_error_display e"
| "domain_parse_error_display (DP_QueueName e) = ''invalid queue name: '' @ queue_name_error_display e"
| "domain_parse_error_display (DP_Priority e) = ''invalid priority: '' @ priority_error_display e"
| "domain_parse_error_display (DP_RetryLimit (PR_RetryOutOfRange v)) =
     ''invalid retry limit: retry limit '' @ show_int (sint v) @ '' is out of range (must be 1-10)''"

section \<open>Parsers\<close>

definition parse_cron :: "domain_env \<Rightarrow> string \<Rightarrow> domain_parse_error + string" where
  "parse_cron env cron = map_err DP_Cron (cron_expression_new env cron)"

definition parse_duration :: "string \<Rightarrow> domain_parse_error + string" where
  "parse_duration duration = map_err DP_Duration (go_duration_new duration)"

definition parse_queue_name :: "string \<Rightarrow> domain_parse_error + string" where
  "parse_queue_name name =
     (if name = ''x-jobs'' \<or> prefix ''x-exclusive.'' name then Inl (DP_QueueName (QN_Reserved name))
      else map_err DP_QueueName (queue_name_new name))"

definition parse_retry :: "i64 \<Rightarrow> domain_parse_error + u32" where
  "parse_retry limit =
     (if 0 \<le> sint limit \<and> sint limit < 2 ^ 32
      then map_err (\<lambda>_. DP_RetryLimit (PR_RetryOutOfRange limit)) (retry_limit_new (word_of_int (sint limit)))
      else Inl (DP_RetryLimit (PR_RetryOutOfRange limit)))"

definition parse_priority :: "i64 \<Rightarrow> domain_parse_error + i64" where
  "parse_priority priority = map_err DP_Priority (priority_new priority)"

definition validate_with :: "domain_parse_error + 'a \<Rightarrow> string + unit" where
  "validate_with r = map_err domain_parse_error_display (res_bind r (\<lambda>_. Inr ()))"

definition validate_cron :: "domain_env \<Rightarrow> string \<Rightarrow> string + unit" where
  "validate_cron env cron = validate_with (parse_cron env cron)"

definition validate_duration :: "string \<Rightarrow> string + unit" where
  "validate_duration duration = validate_with (parse_duration duration)"

definition validate_queue_name :: "string \<Rightarrow> string + unit" where
  "validate_queue_name queue = validate_with (parse_queue_name queue)"

definition validate_retry :: "i64 \<Rightarrow> string + unit" where
  "validate_retry limit = validate_with (parse_retry limit)"

definition validate_priority :: "i64 \<Rightarrow> string + unit" where
  "validate_priority priority = validate_with (parse_priority priority)"

section \<open>Faults\<close>

datatype validation_kind =
    VK_Cron | VK_Duration | VK_QueueName | VK_RetryLimit | VK_Priority | VK_JobName | VK_TaskName | VK_TaskField
  | VK_WebhookUrl | VK_MountType | VK_MountTarget | VK_MountSource | VK_Parallel | VK_Each | VK_Var | VK_Expression
  | VK_Subjob

record validation_fault =
  vf_kind :: validation_kind
  vf_message :: string

definition fault :: "validation_kind \<Rightarrow> string \<Rightarrow> validation_fault" where
  "fault kind message = \<lparr>vf_kind = kind, vf_message = message\<rparr>"

definition fault_messages :: "validation_fault list \<Rightarrow> string list" where
  "fault_messages faults = map vf_message faults"

definition push_fault :: "validation_kind \<Rightarrow> string \<Rightarrow> domain_parse_error + 'a \<Rightarrow> validation_fault list" where
  "push_fault kind pre result =
     (case result of
        Inr _ \<Rightarrow> []
      | Inl e \<Rightarrow> [fault kind (if pre = [] then domain_parse_error_display e
                            else pre @ '': '' @ domain_parse_error_display e)])"

definition faults_of :: "('a \<Rightarrow> validation_fault list) \<Rightarrow> 'a option \<Rightarrow> validation_fault list" where
  "faults_of f x = (case x of None \<Rightarrow> [] | Some a \<Rightarrow> f a)"

definition no_faults :: "validation_fault list \<Rightarrow> string list + unit" where
  "no_faults faults = (if faults = [] then Inr () else Inl (fault_messages faults))"

section \<open>Jobs\<close>

definition check_job_name :: "string option \<Rightarrow> validation_fault list" where
  "check_job_name name =
     (case name of
        None \<Rightarrow> [fault VK_JobName ''job name is required'']
      | Some s \<Rightarrow>
          if trim s = [] then [fault VK_JobName ''job name is required'']
          else if length s > 256
          then [fault VK_JobName (''job name exceeds 256 characters (got '' @ show_nat (length s) @ '')'')]
          else [])"

definition check_job_tasks :: "task list option \<Rightarrow> validation_fault list" where
  "check_job_tasks tasks =
     (if tasks = None \<or> tasks = Some [] then [fault VK_TaskName ''at least one task is required''] else []) @
     faults_of (\<lambda>ts. concat (map (\<lambda>(i, t).
       if (case th_name (hdr t) of None \<Rightarrow> True | Some n \<Rightarrow> trim n = [])
       then [fault VK_TaskName (''task at index '' @ show_nat i @ '' has no name'')] else []) (enumerate 0 ts))) tasks"

definition check_job_defaults :: "job_defaults \<Rightarrow> validation_fault list" where
  "check_job_defaults d =
     faults_of (\<lambda>timeout. push_fault VK_Duration (''invalid default timeout: '' @ timeout) (parse_duration timeout)) (jd_timeout d) @
     faults_of (\<lambda>queue. push_fault VK_QueueName (''invalid default queue: '' @ queue) (parse_queue_name queue)) (jd_queue d) @
     push_fault VK_Priority (''invalid default priority: '' @ show_int (jd_priority d)) (parse_priority (word_of_int (jd_priority d)))"

definition collect_job_faults :: "string option \<Rightarrow> task list option \<Rightarrow> job_defaults option \<Rightarrow> validation_fault list" where
  "collect_job_faults name tasks defaults =
     check_job_name name @ check_job_tasks tasks @ faults_of check_job_defaults defaults"

definition validate_job ::
  "string option \<Rightarrow> task list option \<Rightarrow> job_defaults option \<Rightarrow> string option \<Rightarrow> string list + unit" where
  "validate_job name tasks defaults output_expr = no_faults (collect_job_faults name tasks defaults)"

section \<open>Webhooks and mounts\<close>

definition check_webhook_urls :: "webhook list \<Rightarrow> validation_fault list" where
  "check_webhook_urls webhooks =
     map (\<lambda>_. fault VK_WebhookUrl ''webhook URL cannot be empty'')
       (filter (\<lambda>w. case wb_url w of None \<Rightarrow> True | Some u \<Rightarrow> trim u = []) webhooks)"

definition check_subjob_webhooks :: "task \<Rightarrow> validation_fault list" where
  "check_subjob_webhooks t =
     faults_of check_webhook_urls (Option.bind (subjob t) (\<lambda>sj. sj_webhooks (sj_hdr sj)))"

definition validate_webhooks :: "webhook list option \<Rightarrow> task list option \<Rightarrow> string list + unit" where
  "validate_webhooks webhooks tasks =
     no_faults (faults_of check_webhook_urls webhooks @ faults_of (\<lambda>ts. concat (map check_subjob_webhooks ts)) tasks)"

definition check_mount_target :: "mount \<Rightarrow> validation_fault list" where
  "check_mount_target m =
     faults_of (\<lambda>target.
       if target = [] then [fault VK_MountTarget ''target is required'']
       else if CHR '':'' \<in> set target then [fault VK_MountTarget ''invalid target path: cannot contain colon'']
       else if target = ''/tork'' then [fault VK_MountTarget ''target path cannot be /tork'']
       else []) (mt_target m)"

definition check_bind_source :: "mount \<Rightarrow> validation_fault list" where
  "check_bind_source m =
     (if mt_type m \<noteq> Some ''bind'' then []
      else case mt_source m of
          None \<Rightarrow> [fault VK_MountSource ''source is required for bind mount'']
        | Some src \<Rightarrow>
            if src = [] then [fault VK_MountSource ''source is required for bind mount'']
            else if CHR ''#'' \<in> set src then [fault VK_MountSource ''invalid source path: cannot contain hash'']
            else [])"

definition check_mount :: "mount \<Rightarrow> validation_fault list" where
  "check_mount m =
     (if mt_type m = Some [] then [fault VK_MountType ''mount type is required''] else []) @
     check_mount_target m @ check_bind_source m"

definition validate_mounts :: "mount list option \<Rightarrow> string list + unit" where
  "validate_mounts mounts = no_faults (faults_of (\<lambda>ms. concat (map check_mount ms)) mounts)"

section \<open>Tasks\<close>

definition check_task_fields :: "task \<Rightarrow> validation_fault list" where
  "check_task_fields t =
     faults_of (\<lambda>timeout. push_fault VK_Duration (''invalid timeout: '' @ timeout) (parse_duration timeout)) (th_timeout (hdr t)) @
     faults_of (\<lambda>queue. push_fault VK_QueueName (''invalid queue: '' @ queue) (parse_queue_name queue)) (th_queue (hdr t)) @
     faults_of (\<lambda>retry. push_fault VK_RetryLimit (''invalid retry limit: '' @ show_int (tr_limit retry))
       (parse_retry (word_of_int (tr_limit retry)))) (th_retry (hdr t)) @
     push_fault VK_Priority (''invalid priority: '' @ show_int (th_priority (hdr t))) (parse_priority (word_of_int (th_priority (hdr t))))"

definition check_task_structure :: "task \<Rightarrow> validation_fault list" where
  "check_task_structure t =
     faults_of (\<lambda>p. if par_tasks p = None \<or> par_tasks p = Some []
       then [fault VK_Parallel ''parallel tasks cannot be empty''] else []) (parallel t) @
     faults_of (\<lambda>e. if each_list e = None \<or> each_list e = Some []
       then [fault VK_Each ''each list cannot be empty''] else []) (each t) @
     (if parallel t \<noteq> None \<and> each t \<noteq> None
      then [fault VK_TaskField ''task cannot have both parallel and each''] else []) @
     (if parallel t \<noteq> None \<and> subjob t \<noteq> None
      then [fault VK_TaskField ''task cannot have both parallel and subjob''] else [])"

definition check_task_expressions :: "(string \<Rightarrow> bool) \<Rightarrow> task \<Rightarrow> validation_fault list" where
  "check_task_expressions valid_expr t =
     faults_of (\<lambda>v. if length v > 64
       then [fault VK_Var (''variable name exceeds 64 characters: '' @ show_nat (length v))] else []) (th_var (hdr t)) @
     faults_of (\<lambda>e. faults_of (\<lambda>l. if l \<noteq> [] \<and> \<not> valid_expr l
       then [fault VK_Expression (''invalid expression: '' @ l)] else []) (each_list e)) (each t)"

definition collect_task_faults :: "(string \<Rightarrow> bool) \<Rightarrow> task \<Rightarrow> validation_fault list" where
  "collect_task_faults valid_expr t =
     check_task_fields t @ check_task_structure t @ check_task_expressions valid_expr t @ check_subjob_webhooks t"

definition validate_task :: "(string \<Rightarrow> bool) \<Rightarrow> task \<Rightarrow> string list + unit" where
  "validate_task valid_expr t = no_faults (collect_task_faults valid_expr t)"

section \<open>The raw duration parser\<close>

text \<open>\<open>validation/go_duration.rs\<close> in \<open>i64\<close>, which wraps in the release profile.\<close>

fun accumulate_duration_units :: "i64 \<Rightarrow> i64 \<Rightarrow> string list \<Rightarrow> string + i64 \<times> i64" where
  "accumulate_duration_units total_secs num [] = Inr (total_secs, num)"
| "accumulate_duration_units total_secs num (c # cs) =
     (if length c = 1 \<and> is_digit (hd c)
      then accumulate_duration_units total_secs (num * 10 + of_nat (digit_val (hd c))) cs
      else if c = ''s'' then accumulate_duration_units (total_secs + num) 0 cs
      else if c = ''m'' then accumulate_duration_units (total_secs + num * 60) 0 cs
      else if c = ''h'' then accumulate_duration_units (total_secs + num * 3600) 0 cs
      else if c = ''d'' then accumulate_duration_units (total_secs + num * 86400) 0 cs
      else Inl (''invalid duration character: '' @ c))"

definition to_unsigned_duration :: "i64 \<Rightarrow> string + nat" where
  "to_unsigned_duration total_secs =
     (if 0 \<le> sint total_secs then Inr (nat (sint total_secs)) else Inl ''duration overflow'')"

definition parse_raw_duration :: "string \<Rightarrow> string + nat" where
  "parse_raw_duration s =
     (let trimmed = trim s
      in if trimmed = [] then Inl ''empty duration''
         else res_bind (accumulate_duration_units 0 0 (utf8_chars trimmed)) (\<lambda>(total_secs, trailing).
           to_unsigned_duration (total_secs + trailing)))"

section \<open>What validation accepts\<close>

lemma faults_of_Nil [simp]: "faults_of f x = [] \<longleftrightarrow> pred_option (\<lambda>a. f a = []) x"
  by (cases x) (simp_all add: faults_of_def)

lemma no_faults_Inr: "no_faults fs = Inr u \<longleftrightarrow> fs = []"
  by (simp add: no_faults_def)

lemma push_fault_Nil [simp]: "push_fault k p r = [] \<longleftrightarrow> (\<exists>x. r = Inr x)"
  by (auto simp: push_fault_def split: sum.splits)

definition named :: "task \<Rightarrow> bool" where
  "named t \<longleftrightarrow> (\<exists>n. th_name (hdr t) = Some n \<and> trim n \<noteq> [])"

definition queue_ok :: "string \<Rightarrow> bool" where
  "queue_ok q \<longleftrightarrow> q \<noteq> ''x-jobs'' \<and> \<not> prefix ''x-exclusive.'' q \<and> queue_name_new q = Inr q"

definition priority_ok :: "int \<Rightarrow> bool" where "priority_ok p \<longleftrightarrow> 0 \<le> p \<and> p \<le> 9"

lemma priority_parse: "in_i64 p \<Longrightarrow> (\<exists>x. parse_priority (word_of_int p) = Inr x) \<longleftrightarrow> priority_ok p"
  by (auto simp: parse_priority_def priority_new_def priority_ok_def map_err_def sint_word_of_int_i64 split: sum.splits)

lemma queue_parse: "(\<exists>x. parse_queue_name q = Inr x) \<longleftrightarrow> queue_ok q"
  by (auto simp: parse_queue_name_def queue_ok_def map_err_def queue_name_new_def split: sum.splits)

lemma duration_parse: "(\<exists>x. parse_duration d = Inr x) \<longleftrightarrow> go_duration_new d = Inr d"
  by (auto simp: parse_duration_def map_err_def go_duration_new_def res_bind_def split: sum.splits)

lemma retry_parse: "in_i64 n \<Longrightarrow> (\<exists>x. parse_retry (word_of_int n) = Inr x) \<longleftrightarrow> 1 \<le> n \<and> n \<le> 10"
proof -
  assume n: "in_i64 n"
  have "(1 \<le> (word_of_int n :: u32) \<and> (word_of_int n :: u32) \<le> 10) \<longleftrightarrow> 1 \<le> n \<and> n \<le> 10" if "0 \<le> n" "n < 2 ^ 32"
    using that by (simp add: word_le_def uint_word_of_int)
  then show ?thesis
    using n by (auto simp: parse_retry_def retry_limit_new_def map_err_def sint_word_of_int_i64 split: sum.splits)
qed

definition defaults_ok :: "job_defaults \<Rightarrow> bool" where
  "defaults_ok d \<longleftrightarrow>
     pred_option (\<lambda>t. go_duration_new t = Inr t) (jd_timeout d) \<and> pred_option queue_ok (jd_queue d) \<and>
     priority_ok (jd_priority d)"

lemma check_defaults_Nil: "in_i64 (jd_priority d) \<Longrightarrow> check_job_defaults d = [] \<longleftrightarrow> defaults_ok d"
  by (simp add: check_job_defaults_def defaults_ok_def priority_parse queue_parse duration_parse)

lemma check_tasks_Nil: "check_job_tasks tasks = [] \<longleftrightarrow> (\<exists>ts. tasks = Some ts \<and> ts \<noteq> [] \<and> list_all named ts)"
proof (cases tasks)
  case (Some ts)
  have "concat (map (\<lambda>(i, t). if (case th_name (hdr t) of None \<Rightarrow> True | Some n \<Rightarrow> trim n = [])
      then [f i] else []) (enumerate k ts)) = [] \<longleftrightarrow> list_all named ts" for f :: "nat \<Rightarrow> validation_fault" and k
    by (induction ts arbitrary: k) (auto simp: named_def split: option.splits)
  then show ?thesis by (simp add: Some check_job_tasks_def faults_of_def del: concat_eq_Nil_conv)
qed (simp add: check_job_tasks_def)

text \<open>
  A job is accepted exactly when it has a name of at most 256 bytes that is not blank, at least one task, a
  name on every task, and defaults (if any) with a valid timeout, a queue name that is not reserved and a
  priority from 0 to 9.
\<close>

theorem validate_job_iff:
  assumes "pred_option (\<lambda>d. in_i64 (jd_priority d)) defaults"
  shows "validate_job name tasks defaults output_expr = Inr () \<longleftrightarrow>
    (\<exists>n. name = Some n \<and> trim n \<noteq> [] \<and> length n \<le> 256) \<and>
    (\<exists>ts. tasks = Some ts \<and> ts \<noteq> [] \<and> list_all named ts) \<and> pred_option defaults_ok defaults"
proof -
  have n: "check_job_name name = [] \<longleftrightarrow> (\<exists>n. name = Some n \<and> trim n \<noteq> [] \<and> length n \<le> 256)"
    by (auto simp: check_job_name_def split: option.splits)
  have d: "pred_option (\<lambda>a. check_job_defaults a = []) defaults \<longleftrightarrow> pred_option defaults_ok defaults"
    using assms by (cases defaults) (simp_all add: check_defaults_Nil)
  show ?thesis by (simp add: validate_job_def no_faults_Inr collect_job_faults_def n d check_tasks_Nil)
qed

section \<open>The raw duration parser against the sum\<close>

definition raw_unit :: "string \<Rightarrow> nat option" where
  "raw_unit u = map_of [(''s'', 1), (''m'', 60), (''h'', 3600), (''d'', 86400)] u"

lemma accumulate_digits:
  "list_all is_digit ds \<Longrightarrow> accumulate_duration_units total_secs num (map (\<lambda>c. [c]) ds @ cs) =
    accumulate_duration_units total_secs (foldl (\<lambda>n c. n * 10 + of_nat (digit_val c)) num ds) cs"
  by (induction ds arbitrary: num) auto

lemma foldl_digits:
  "foldl (\<lambda>n c. n * 10 + of_nat (digit_val c)) (of_nat k :: i64) ds = of_nat (foldl (\<lambda>n c. 10 * n + digit_val c) k ds)"
proof (induction ds arbitrary: k)
  case (Cons c ds)
  have "(of_nat k * 10 + of_nat (digit_val c) :: i64) = of_nat (10 * k + digit_val c)" by simp
  with Cons [of "10 * k + digit_val c"] show ?case by (simp add: mult.commute [of _ 10])
qed simp

lemma accumulate_segment:
  assumes "raw_unit u = Some m"
  shows "accumulate_duration_units total_secs 0 (map (\<lambda>c. [c]) (show_nat n) @ [u] @ cs) =
    accumulate_duration_units (total_secs + of_nat (n * m)) 0 cs"
proof -
  have "list_all is_digit (show_nat n)" and v: "digits_val (show_nat n) = n" using show_nat_digits [of n] by auto
  then have "accumulate_duration_units total_secs 0 (map (\<lambda>c. [c]) (show_nat n) @ [u] @ cs) =
      accumulate_duration_units total_secs (of_nat n) ([u] @ cs)"
    using accumulate_digits foldl_digits [of 0 "show_nat n"] by (simp add: digits_val_def)
  also have "\<dots> = accumulate_duration_units (total_secs + of_nat (n * m)) 0 cs"
    using assms by (auto simp: raw_unit_def is_digit_def less_eq_char_def split: if_splits)
  finally show ?thesis .
qed

text \<open>
  The raw parser adds the segments up modulo 2 to the 64: an overflow is not reported, only a sum that ends
  in the negative half of \<open>i64\<close> is.
\<close>

lemma accumulate_segments:
  assumes "\<forall>(n, u, m) \<in> set segs. raw_unit u = Some m"
  shows "accumulate_duration_units total_secs 0 (concat (map (\<lambda>(n, u, m). map (\<lambda>c. [c]) (show_nat n) @ [u]) segs)) =
    Inr (total_secs + of_nat (\<Sum>(n, u, m) \<leftarrow> segs. n * m), 0)"
  using assms
proof (induction segs arbitrary: total_secs)
  case (Cons a segs)
  obtain n u m where a: "a = (n, u, m)" by (cases a)
  have "raw_unit u = Some m" using Cons.prems a by simp
  from accumulate_segment [OF this] Cons show ?case by (simp add: a add.assoc)
qed simp

lemma raw_unit_chars: "raw_unit u = Some m \<Longrightarrow> \<exists>c. u = [c] \<and> visible c"
  unfolding raw_unit_def by (cases "u = ''s''"; cases "u = ''m''"; cases "u = ''h''"; cases "u = ''d''"; simp add: visible_def)

lemma digit_visible: "is_digit c \<Longrightarrow> visible c"
  by (simp add: is_digit_def visible_def less_eq_char_def)

theorem raw_duration_wraps:
  assumes "segs \<noteq> []" and u: "\<forall>(n, u, m) \<in> set segs. raw_unit u = Some m"
  shows "parse_raw_duration (concat (map (\<lambda>(n, u, m). show_nat n @ u) segs)) =
    to_unsigned_duration (of_nat (\<Sum>(n, u, m) \<leftarrow> segs. n * m))"
proof -
  let ?s = "concat (map (\<lambda>(n, u, m). show_nat n @ u) segs)"
  have v: "list_all visible (concat (map (\<lambda>(n, u, m). show_nat n @ u) xs))"
    if "\<forall>(n, u, m) \<in> set xs. raw_unit u = Some m" for xs
    using that
  proof (induction xs)
    case (Cons a xs)
    obtain n u m where a: "a = (n, u, m)" by (cases a)
    have "raw_unit u = Some m" using Cons.prems a by simp
    then obtain c where "u = [c]" "visible c" using raw_unit_chars by blast
    moreover have "list_all visible (show_nat n)"
      using show_nat_digits [of n] digit_visible by (simp add: list_all_iff)
    moreover have "list_all visible (concat (map (\<lambda>(n, u, m). show_nat n @ u) xs))" using Cons by simp
    ultimately show ?case by (simp add: a)
  qed simp
  have ne: "?s \<noteq> []" using assms(1) show_nat_digits by (cases segs) auto
  have vis: "list_all visible ?s" using v [OF u] .
  have "trim r = r" if "r \<noteq> []" "list_all visible r" for r
    using that by (intro trim_visible) (simp_all add: list_all_iff)
  from this [OF ne vis] have t: "trim ?s = ?s" .
  have "utf8_chars ?s = map (\<lambda>c. [c]) ?s" by (intro utf8_chars_ascii list.pred_mono_strong [OF vis]) (simp add: visible_def)
  also have "\<dots> = concat (map (\<lambda>(n, u, m). map (\<lambda>c. [c]) (show_nat n) @ [u]) segs)"
    using u
  proof (induction segs)
    case (Cons a segs)
    obtain n u m where a: "a = (n, u, m)" by (cases a)
    have "raw_unit u = Some m" using Cons.prems a by simp
    then obtain c where "u = [c]" using raw_unit_chars by blast
    with Cons a show ?case by simp
  qed simp
  finally show ?thesis
    using t ne accumulate_segments [OF u, of 0] by (simp add: parse_raw_duration_def del: concat_eq_Nil_conv)
qed

end
