(* ===== verification/Redact.thy ===== *)
theory Redact
  imports Job_Model
begin

text \<open>
  Redaction of secrets: for what the API returns (\<open>twerk-web/src/api/redact.rs\<close>, reached through
  \<open>middleware/hooks.rs\<close>) and the library version (\<open>twerk-core/src/redact.rs\<close>) with its \<open>Redacter\<close>. A hash map
  is the list of its entries in the order the map yields, a secret map the list of secrets that order gives.
\<close>

section \<open>Replacing text\<close>

text \<open>\<open>str::replace\<close>: the occurrences from the left, not overlapping; the pattern is not empty.\<close>

function str_replace :: "string \<Rightarrow> string \<Rightarrow> string \<Rightarrow> string" where
  "str_replace pat rep s =
     (case s of [] \<Rightarrow> []
      | c # cs \<Rightarrow>
          if pat \<noteq> [] \<and> prefix pat s then rep @ str_replace pat rep (drop (length pat) s)
          else c # str_replace pat rep cs)"
  by pat_completeness auto
termination by (relation "measure (length \<circ> snd \<circ> snd)") auto

declare str_replace.simps [simp del]

definition REDACTED_STR :: string where "REDACTED_STR = ''[REDACTED]''"

definition redact_values :: "string list \<Rightarrow> string \<Rightarrow> string" where
  "redact_values secrets v = fold (\<lambda>sv acc. if sv = [] then acc else str_replace sv REDACTED_STR acc) secrets v"

definition secret_values :: "smap option \<Rightarrow> string list" where
  "secret_values m = map snd (case m of None \<Rightarrow> [] | Some kvs \<Rightarrow> kvs)"

definition blank_values :: "smap \<Rightarrow> smap" where
  "blank_values m = map (\<lambda>(k, _). (k, REDACTED_STR)) m"

section \<open>The API's redaction\<close>

definition is_secret_key :: "string \<Rightarrow> bool" where
  "is_secret_key key \<longleftrightarrow>
     (let k = to_uppercase key
      in str_contains k ''SECRET'' \<or> str_contains k ''PASSWORD'' \<or> str_contains k ''ACCESS_KEY'' \<or>
         str_contains k ''TOKEN'' \<or> str_contains k ''API_KEY'')"

text \<open>The value of a secret key is blanked first and then searched for secrets like any other.\<close>

definition redact_vars :: "string list \<Rightarrow> smap \<Rightarrow> smap" where
  "redact_vars secrets m =
     map (\<lambda>(k, v). (k, redact_values secrets (if is_secret_key k then REDACTED_STR else v))) m"

definition redact_vars_by_key_only :: "smap \<Rightarrow> smap" where
  "redact_vars_by_key_only m = map (\<lambda>(k, v). (k, if is_secret_key k then REDACTED_STR else v)) m"

definition redact_task_log_parts :: "string list \<Rightarrow> task_log_part list \<Rightarrow> task_log_part list" where
  "redact_task_log_parts secrets parts =
     (if secrets = [] then parts
      else map (\<lambda>p. p\<lparr>lp_contents := map_option (redact_values secrets) (lp_contents p)\<rparr>) parts)"

definition redact_webhook :: "string list \<Rightarrow> webhook \<Rightarrow> webhook" where
  "redact_webhook secrets w = w\<lparr>wb_headers := map_option (redact_vars secrets) (wb_headers w)\<rparr>"

definition redact_hdr :: "string list \<Rightarrow> task_hdr \<Rightarrow> task_hdr" where
  "redact_hdr secrets h =
     h\<lparr>th_env := map_option (redact_vars secrets) (th_env h),
       th_mounts := map_option (map (\<lambda>m. m\<lparr>mt_opts := map_option (redact_vars secrets) (mt_opts m)\<rparr>)) (th_mounts h),
       th_registry := map_option (\<lambda>r. r\<lparr>rg_password := map_option (\<lambda>_. REDACTED_STR) (rg_password r)\<rparr>) (th_registry h)\<rparr>"

definition redact_subjob :: "string list \<Rightarrow> subjob_hdr \<Rightarrow> subjob_hdr" where
  "redact_subjob secrets sj =
     sj\<lparr>sj_secrets := map_option blank_values (sj_secrets sj),
       sj_webhooks := map_option (map (redact_webhook secrets)) (sj_webhooks sj)\<rparr>"

primrec redact_task_internal :: "string list \<Rightarrow> task \<Rightarrow> task"
  and redact_parallel :: "string list \<Rightarrow> parallel_task \<Rightarrow> parallel_task"
  and redact_subjob_task :: "string list \<Rightarrow> subjob_task \<Rightarrow> subjob_task" where
  "redact_task_internal secrets (Task h p q s par e sj) =
     Task (redact_hdr secrets h) (map_option (map (redact_task_internal secrets)) p)
       (map_option (map (redact_task_internal secrets)) q) (map_option (map (redact_task_internal secrets)) s)
       (map_option (redact_parallel secrets) par) (map_option (\<lambda>x. x) e)
       (map_option (redact_subjob_task secrets) sj)"
| "redact_parallel secrets (ParallelTask ts n) = ParallelTask (map_option (map (redact_task_internal secrets)) ts) n"
| "redact_subjob_task secrets (SubJobTask h ts) = SubJobTask (redact_subjob secrets h) ts"

definition redact_task :: "string list \<Rightarrow> task \<Rightarrow> task" where
  "redact_task secrets t = redact_task_internal secrets t"

definition redact_job :: "job \<Rightarrow> job" where
  "redact_job j =
     (let secrets = secret_values (jb_secrets j)
      in j\<lparr>jb_inputs := map_option (redact_vars secrets) (jb_inputs j),
           jb_webhooks := map_option (map (redact_webhook secrets)) (jb_webhooks j),
           jb_context := map_option (\<lambda>c. c\<lparr>
             jc_inputs := map_option (redact_vars secrets) (jc_inputs c),
             jc_secrets := map_option (redact_vars secrets) (jc_secrets c),
             jc_tasks := map_option (redact_vars secrets) (jc_tasks c)\<rparr>) (jb_context j),
           jb_tasks := map_option (map (redact_task_internal secrets)) (jb_tasks j),
           jb_execution := map_option (map (redact_task_internal secrets)) (jb_execution j),
           jb_secrets := map_option blank_values (jb_secrets j)\<rparr>)"

definition redact_job_summary :: "job_summary \<Rightarrow> job_summary" where
  "redact_job_summary s = s\<lparr>jm_inputs := map_option redact_vars_by_key_only (jm_inputs s)\<rparr>"

definition redact_scheduled_job :: "scheduled_job \<Rightarrow> scheduled_job" where
  "redact_scheduled_job sj =
     (let secrets = secret_values (sc_secrets sj)
      in sj\<lparr>sc_inputs := map_option (redact_vars secrets) (sc_inputs sj),
            sc_webhooks := map_option (map (redact_webhook secrets)) (sc_webhooks sj),
            sc_tasks := map_option (map (redact_task_internal secrets)) (sc_tasks sj),
            sc_secrets := map_option blank_values (sc_secrets sj)\<rparr>)"

definition redact_scheduled_job_summary :: "scheduled_job_summary \<Rightarrow> scheduled_job_summary" where
  "redact_scheduled_job_summary s = s\<lparr>sm_inputs := map_option redact_vars_by_key_only (sm_inputs s)\<rparr>"

text \<open>The hooks of \<open>middleware/hooks.rs\<close>.\<close>

definition on_read_job :: "job \<Rightarrow> job" where "on_read_job j = redact_job j"
definition on_read_job_summary :: "job_summary \<Rightarrow> job_summary" where "on_read_job_summary s = redact_job_summary s"
definition on_read_task :: "string list \<Rightarrow> task \<Rightarrow> task" where "on_read_task secrets t = redact_task secrets t"

section \<open>The library's redaction\<close>

definition core_is_secret_key :: "string \<Rightarrow> bool" where
  "core_is_secret_key key \<longleftrightarrow>
     (let k = to_uppercase key
      in str_contains k ''SECRET'' \<or> str_contains k ''PASSWORD'' \<or> str_contains k ''ACCESS_KEY'')"

definition core_redact_vars :: "string list \<Rightarrow> smap \<Rightarrow> smap" where
  "core_redact_vars secrets m =
     map (\<lambda>(k, v). (k, if core_is_secret_key k then REDACTED_STR else redact_values secrets v)) m"

definition core_redact_task_env :: "string list \<Rightarrow> task_hdr \<Rightarrow> task_hdr" where
  "core_redact_task_env secrets h = h\<lparr>th_env := map_option (core_redact_vars secrets) (th_env h)\<rparr>"

definition core_redact_task_mounts :: "string list \<Rightarrow> task_hdr \<Rightarrow> task_hdr" where
  "core_redact_task_mounts secrets h =
     h\<lparr>th_mounts := map_option (map (\<lambda>m. m\<lparr>mt_opts := map_option (core_redact_vars secrets) (mt_opts m)\<rparr>)) (th_mounts h)\<rparr>"

definition core_redact_task_registry :: "task_hdr \<Rightarrow> task_hdr" where
  "core_redact_task_registry h =
     h\<lparr>th_registry := map_option (\<lambda>r. r\<lparr>rg_password := map_option (\<lambda>_. REDACTED_STR) (rg_password r)\<rparr>) (th_registry h)\<rparr>"

definition core_redact_webhook :: "string list \<Rightarrow> webhook \<Rightarrow> webhook" where
  "core_redact_webhook secrets w = w\<lparr>wb_headers := map_option (core_redact_vars secrets) (wb_headers w)\<rparr>"

definition core_redact_task_subjob :: "string list \<Rightarrow> subjob_hdr \<Rightarrow> subjob_hdr" where
  "core_redact_task_subjob secrets sj =
     sj\<lparr>sj_secrets := map_option blank_values (sj_secrets sj),
       sj_webhooks := map_option (map (core_redact_webhook secrets)) (sj_webhooks sj)\<rparr>"

primrec core_redact_task :: "string list \<Rightarrow> task \<Rightarrow> task"
  and core_redact_task_parallel :: "string list \<Rightarrow> parallel_task \<Rightarrow> parallel_task"
  and core_redact_subjob_task :: "string list \<Rightarrow> subjob_task \<Rightarrow> subjob_task" where
  "core_redact_task secrets (Task h p q s par e sj) =
     Task (core_redact_task_registry (core_redact_task_mounts secrets (core_redact_task_env secrets h)))
       (map_option (map (core_redact_task secrets)) p) (map_option (map (core_redact_task secrets)) q)
       (map_option (map (core_redact_task secrets)) s) (map_option (core_redact_task_parallel secrets) par) (map_option (\<lambda>x. x) e)
       (map_option (core_redact_subjob_task secrets) sj)"
| "core_redact_task_parallel secrets (ParallelTask ts n) = ParallelTask (map_option (map (core_redact_task secrets)) ts) n"
| "core_redact_subjob_task secrets (SubJobTask h ts) = SubJobTask (core_redact_task_subjob secrets h) ts"

definition core_redact_task_log_parts :: "string list \<Rightarrow> task_log_part list \<Rightarrow> task_log_part list" where
  "core_redact_task_log_parts secrets parts =
     (if secrets = [] then parts
      else map (\<lambda>p. p\<lparr>lp_contents := map_option (redact_values secrets) (lp_contents p)\<rparr>) parts)"

definition redact_job_inputs_webhooks_context :: "string list \<Rightarrow> job \<Rightarrow> job" where
  "redact_job_inputs_webhooks_context secrets j =
     j\<lparr>jb_inputs := map_option (core_redact_vars secrets) (jb_inputs j),
       jb_context := map_option (\<lambda>c. c\<lparr>
         jc_inputs := map_option (core_redact_vars secrets) (jc_inputs c),
         jc_secrets := map_option (core_redact_vars secrets) (jc_secrets c),
         jc_tasks := map_option (core_redact_vars secrets) (jc_tasks c)\<rparr>) (jb_context j),
       jb_webhooks := map_option (map (core_redact_webhook secrets)) (jb_webhooks j)\<rparr>"

definition redact_job_tasks :: "string list \<Rightarrow> job \<Rightarrow> job" where
  "redact_job_tasks secrets j =
     j\<lparr>jb_tasks := map_option (map (core_redact_task secrets)) (jb_tasks j),
       jb_execution := map_option (map (core_redact_task secrets)) (jb_execution j)\<rparr>"

definition redact_job_secrets :: "job \<Rightarrow> job" where
  "redact_job_secrets j = j\<lparr>jb_secrets := map_option blank_values (jb_secrets j)\<rparr>"

definition core_redact_job :: "job \<Rightarrow> job" where
  "core_redact_job j =
     (let secrets = secret_values (jb_secrets j)
      in redact_job_secrets (redact_job_tasks secrets (redact_job_inputs_webhooks_context secrets j)))"

section \<open>The redacter\<close>

text \<open>
  \<open>str::find\<close>; and the loop of \<open>replace_key_until_fixed_point\<close>: it takes the position in the upper-case
  text and cuts the original there. \<open>None\<close> when it never returns (the code overflows its stack), \<open>Some None\<close>
  when a cut is out of range, which panics. \<open>upper\<close> is \<open>str::to_uppercase\<close>.
\<close>

fun str_find :: "string \<Rightarrow> string \<Rightarrow> nat option" where
  "str_find pat [] = (if pat = [] then Some 0 else None)"
| "str_find pat (c # cs) = (if prefix pat (c # cs) then Some 0 else map_option Suc (str_find pat cs))"

definition char_boundary :: "string \<Rightarrow> nat \<Rightarrow> bool" where
  "char_boundary s p \<longleftrightarrow> p = length s \<or> p < length s \<and> (of_char (s ! p) < (128 :: nat) \<or> 192 \<le> (of_char (s ! p) :: nat))"

partial_function (option) replace_key_until_fixed_point ::
  "(string \<Rightarrow> string) \<Rightarrow> string \<Rightarrow> nat \<Rightarrow> string \<Rightarrow> string option option" where
  "replace_key_until_fixed_point upper upper_key key_len s =
     (case str_find upper_key (upper s) of
        None \<Rightarrow> Some (Some s)
      | Some pos \<Rightarrow>
          if \<not> char_boundary s pos \<or> \<not> char_boundary s (pos + key_len) then Some None
          else replace_key_until_fixed_point upper upper_key key_len (take pos s @ REDACTED_STR @ drop (pos + key_len) s))"

definition redacter_contains :: "(string \<Rightarrow> string) \<Rightarrow> string list \<Rightarrow> string \<Rightarrow> bool" where
  "redacter_contains upper keys s \<longleftrightarrow> (\<exists>key \<in> set keys. str_contains (upper s) (upper key))"

definition DEFAULT_KEYS :: "string list" where
  "DEFAULT_KEYS = [''SECRET'', ''PASSWORD'', ''ACCESS_KEY'']"

fun redacter_wildcard :: "(string \<Rightarrow> string) \<Rightarrow> string list \<Rightarrow> string \<Rightarrow> string option option" where
  "redacter_wildcard upper [] s = Some (Some s)"
| "redacter_wildcard upper (key # keys) s =
     (if key = [] then redacter_wildcard upper keys s
      else case replace_key_until_fixed_point upper (upper key) (length key) s of
          Some (Some t) \<Rightarrow> redacter_wildcard upper keys t | r \<Rightarrow> r)"

section \<open>No secret is left\<close>

text \<open>
  A secret whose occurrences cannot overlap the text put in its place: not empty, without brackets, and not
  inside the word between them.
\<close>

definition solid :: "string \<Rightarrow> bool" where
  "solid t \<longleftrightarrow> t \<noteq> [] \<and> CHR ''['' \<notin> set t \<and> CHR '']'' \<notin> set t \<and> \<not> str_contains ''REDACTED'' t"

lemma contains_split:
  assumes "str_contains (xs @ [c] @ ys) t" "c \<notin> set t"
  shows "str_contains xs t \<or> str_contains ys t"
proof -
  obtain us vs where e: "us @ t @ vs = xs @ [c] @ ys" using assms(1) by (auto simp: str_contains_iff)
  from e consider zs where "us @ t = xs @ zs" "zs @ vs = [c] @ ys" | zs where "us @ t @ zs = xs" "vs = zs @ [c] @ ys"
    by (auto simp: append_eq_append_conv2 simp flip: append_assoc)
  then show ?thesis
  proof cases
    case 1
    show ?thesis
    proof (cases zs)
      case Nil
      then have "us @ t @ [] = xs" using 1 by simp
      then show ?thesis by (metis str_contains_iff)
    next
      case (Cons z zs')
      then have "z = c" using 1 by simp
      then obtain w where "us = xs @ w" "w @ t = c # zs'"
        using 1(1) Cons assms(2) by (auto simp: append_eq_append_conv2)
      moreover from this assms(2) obtain ws where "w = c # ws" by (cases w) auto
      ultimately have "us = xs @ c # ws" by simp
      then have "ws @ t @ vs = ys" using e by simp
      then show ?thesis by (metis str_contains_iff)
    qed
  next
    case 2
    then show ?thesis by (metis str_contains_iff)
  qed
qed

lemma contains_marked:
  assumes "solid t" "str_contains (REDACTED_STR @ s) t"
  shows "str_contains s t"
proof -
  have t: "CHR ''['' \<notin> set t" "CHR '']'' \<notin> set t" "\<not> str_contains ''REDACTED'' t" "t \<noteq> []"
    using assms(1) by (auto simp: solid_def)
  have "REDACTED_STR @ s = [] @ [CHR ''[''] @ (''REDACTED'' @ [CHR '']''] @ s)" by (simp add: REDACTED_STR_def)
  with assms(2) have "str_contains [] t \<or> str_contains (''REDACTED'' @ [CHR '']''] @ s) t"
    using contains_split [of "[]" "CHR ''[''"] t(1) by metis
  then have "str_contains (''REDACTED'' @ [CHR '']''] @ s) t" using t(4) by (auto simp: str_contains_iff)
  from contains_split [OF this t(2)] t(3) show ?thesis by blast
qed

lemma prefix_replace: "CHR ''['' \<notin> set t \<Longrightarrow> prefix t (str_replace pat REDACTED_STR s) \<Longrightarrow> prefix t s"
proof (induction pat REDACTED_STR s arbitrary: t rule: str_replace.induct)
  case (1 pat s)
  show ?case
  proof (cases t)
    case (Cons a t')
    with "1.prems" obtain c cs where s: "s = c # cs" and n: "\<not> (pat \<noteq> [] \<and> prefix pat s)"
      by (subst (asm) str_replace.simps) (auto simp: REDACTED_STR_def split: list.splits if_splits)
    then have "a = c" "prefix t' (str_replace pat REDACTED_STR cs)"
      using "1.prems"(2) Cons by (subst (asm) str_replace.simps, auto)+
    moreover from this have "prefix t' cs" using "1.hyps"(2) [OF s n] "1.prems"(1) Cons by auto
    ultimately show ?thesis by (simp add: s Cons)
  qed simp
qed

lemma contains_Cons: "str_contains (c # cs) t \<longleftrightarrow> prefix t (c # cs) \<or> str_contains cs t"
  by simp

lemma replace_keeps_absent: "solid t \<Longrightarrow> str_contains (str_replace pat REDACTED_STR s) t \<Longrightarrow> str_contains s t"
proof (induction pat REDACTED_STR s rule: str_replace.induct)
  case (1 pat s)
  show ?case
  proof (cases s)
    case Nil
    then show ?thesis using 1 by (simp add: str_replace.simps)
  next
    case (Cons c cs)
    show ?thesis
    proof (cases "pat \<noteq> [] \<and> prefix pat s")
      case True
      then have "str_contains (REDACTED_STR @ str_replace pat REDACTED_STR (drop (length pat) s)) t"
        using "1.prems"(2) Cons by (subst (asm) str_replace.simps) simp
      then have "str_contains (drop (length pat) s) t"
        using "1.hyps"(1) [OF Cons True] "1.prems"(1) contains_marked by blast
      then show ?thesis by (metis append_assoc append_take_drop_id str_contains_iff)
    next
      case False
      then have e: "str_replace pat REDACTED_STR s = c # str_replace pat REDACTED_STR cs"
        using Cons by (subst str_replace.simps) auto
      then consider "prefix t (str_replace pat REDACTED_STR s)" | "str_contains (str_replace pat REDACTED_STR cs) t"
        using "1.prems"(2) by auto
      then show ?thesis
      proof cases
        case 1
        then have "prefix t s" using prefix_replace "1.prems"(1) by (auto simp: solid_def)
        then show ?thesis using Cons by simp
      next
        case 2
        then have "str_contains cs t" using "1.hyps"(2) [OF Cons False] "1.prems"(1) by blast
        then show ?thesis using Cons by simp
      qed
    qed
  qed
qed

lemma replace_removes: "solid t \<Longrightarrow> \<not> str_contains (str_replace t REDACTED_STR s) t"
proof (induction t REDACTED_STR s rule: str_replace.induct)
  case (1 t s)
  have ne: "t \<noteq> []" using "1.prems" by (simp add: solid_def)
  show ?case
  proof (cases s)
    case Nil
    then show ?thesis using ne by (simp add: str_replace.simps)
  next
    case (Cons c cs)
    show ?thesis
    proof (cases "t \<noteq> [] \<and> prefix t s")
      case True
      then have "str_replace t REDACTED_STR s = REDACTED_STR @ str_replace t REDACTED_STR (drop (length t) s)"
        using Cons by (subst str_replace.simps) simp
      then show ?thesis using "1.hyps"(1) [OF Cons True "1.prems"] contains_marked "1.prems" by metis
    next
      case False
      then have e: "str_replace t REDACTED_STR s = c # str_replace t REDACTED_STR cs"
        using Cons by (subst str_replace.simps) auto
      moreover have "\<not> prefix t (str_replace t REDACTED_STR s)"
        using prefix_replace False ne "1.prems" by (auto simp: solid_def)
      ultimately show ?thesis using "1.hyps"(2) [OF Cons False "1.prems"] by simp
    qed
  qed
qed

lemma redact_values_clean: "sv \<in> set secrets \<Longrightarrow> solid sv \<Longrightarrow> \<not> str_contains (redact_values secrets v) sv"
proof (induction secrets arbitrary: v)
  case (Cons a secrets)
  have keep: "\<not> str_contains (redact_values xs w) sv" if "\<not> str_contains w sv" for xs w
    using that
  proof (induction xs arbitrary: w)
    case (Cons x xs)
    have "\<not> str_contains (if x = [] then w else str_replace x REDACTED_STR w) sv"
      using Cons.prems replace_keeps_absent \<open>solid sv\<close> by auto
    from Cons.IH [OF this] show ?case by (simp add: redact_values_def)
  qed (simp add: redact_values_def)
  show ?case
  proof (cases "sv = a")
    case True
    have "\<not> str_contains (str_replace sv REDACTED_STR v) sv" using replace_removes Cons.prems(2) by blast
    from keep [OF this, of secrets] show ?thesis
      using True Cons.prems(2) by (simp add: redact_values_def solid_def)
  next
    case False
    then show ?thesis using Cons by (simp add: redact_values_def)
  qed
qed simp

section \<open>Redacted tasks and jobs\<close>

lemma marked_clean: "solid sv \<Longrightarrow> \<not> str_contains REDACTED_STR sv"
  using contains_marked [of sv "[]"] by (auto simp: solid_def str_contains_iff)

lemma redact_vars_clean:
  "v \<in> snd ` set (redact_vars secrets m) \<Longrightarrow> sv \<in> set secrets \<Longrightarrow> solid sv \<Longrightarrow> \<not> str_contains v sv"
  using redact_values_clean by (auto simp: redact_vars_def)

lemma blank_values_clean: "v \<in> snd ` set (blank_values m) \<Longrightarrow> solid sv \<Longrightarrow> \<not> str_contains v sv"
  using marked_clean by (auto simp: blank_values_def)

definition values_of :: "smap option \<Rightarrow> string set" where
  "values_of m = \<Union> ((\<lambda>kvs. snd ` set kvs) ` set_option m)"

definition header_values :: "webhook list option \<Rightarrow> string set" where
  "header_values ws = \<Union> ((\<lambda>l. \<Union> (values_of ` wb_headers ` set l)) ` set_option ws)"

text \<open>The values of a task that redaction is about: environment, mount options, the password of the registry, and the secrets and webhook headers of a subjob.\<close>

definition task_values :: "task \<Rightarrow> string set" where
  "task_values t =
     values_of (th_env (hdr t)) \<union> \<Union> ((\<lambda>ms. \<Union> (values_of ` mt_opts ` set ms)) ` set_option (th_mounts (hdr t))) \<union>
     \<Union> ((\<lambda>r. set_option (rg_password r)) ` set_option (th_registry (hdr t))) \<union>
     \<Union> ((\<lambda>sj. values_of (sj_secrets (sj_hdr sj)) \<union> header_values (sj_webhooks (sj_hdr sj))) ` set_option (subjob t))"

definition children :: "task \<Rightarrow> task set" where
  "children t = \<Union> (set ` (set_option (pre_tasks t) \<union> set_option (post_tasks t) \<union> set_option (sidecars t) \<union>
     \<Union> (set_option ` par_tasks ` set_option (parallel t))))"

inductive part_of :: "task \<Rightarrow> task \<Rightarrow> bool" where
  itself: "part_of t t"
| below: "c \<in> children t \<Longrightarrow> part_of u c \<Longrightarrow> part_of u t"

lemma values_of_redacted:
  "v \<in> values_of (map_option (redact_vars secrets) m) \<Longrightarrow> sv \<in> set secrets \<Longrightarrow> solid sv \<Longrightarrow> \<not> str_contains v sv"
  using redact_vars_clean by (fastforce simp: values_of_def option.set_map)

lemma values_of_blank: "v \<in> values_of (map_option blank_values m) \<Longrightarrow> solid sv \<Longrightarrow> \<not> str_contains v sv"
  using blank_values_clean by (fastforce simp: values_of_def option.set_map)

lemma header_values_redacted:
  "v \<in> header_values (map_option (map (redact_webhook secrets)) ws) \<Longrightarrow> sv \<in> set secrets \<Longrightarrow> solid sv \<Longrightarrow> \<not> str_contains v sv"
  using values_of_redacted by (fastforce simp: header_values_def redact_webhook_def option.set_map)

lemma children_redacted: "children (redact_task_internal secrets t) = redact_task_internal secrets ` children t"
proof (cases t)
  case (Task h p q s par e sj)
  have o: "\<Union> (set ` set_option (map_option (map f) x)) = f ` \<Union> (set ` set_option x)" for f :: "task \<Rightarrow> task" and x
    by (cases x) auto
  have "\<Union> (set ` \<Union> (set_option ` par_tasks ` set_option (map_option (redact_parallel secrets) par))) =
      redact_task_internal secrets ` \<Union> (set ` \<Union> (set_option ` par_tasks ` set_option par))"
  proof (cases par)
    case (Some x)
    then show ?thesis using o by (cases x) simp
  qed simp
  with o [of "redact_task_internal secrets"] show ?thesis
    by (simp add: Task children_def image_Un Union_Un_distrib)
qed

lemma part_of_redacted:
  "part_of u (redact_task_internal secrets t) \<Longrightarrow> \<exists>t'. part_of t' t \<and> u = redact_task_internal secrets t'"
proof (induction u "redact_task_internal secrets t" arbitrary: t rule: part_of.induct)
  case (itself t)
  then show ?case using part_of.itself by blast
next
  case (below c u t)
  then show ?case unfolding children_redacted using part_of.below by blast
qed

lemma task_values_redacted:
  assumes "v \<in> task_values (redact_task_internal secrets t)" "sv \<in> set secrets" "solid sv"
  shows "\<not> str_contains v sv"
proof (cases t)
  case (Task h p q s par e sj)
  let ?r = "redact_task_internal secrets t"
  from assms(1) consider "v \<in> values_of (th_env (hdr ?r))"
    | ms m where "th_mounts (hdr ?r) = Some ms" "m \<in> set ms" "v \<in> values_of (mt_opts m)"
    | r where "th_registry (hdr ?r) = Some r" "rg_password r = Some v"
    | j where "subjob ?r = Some j" "v \<in> values_of (sj_secrets (sj_hdr j))"
    | j where "subjob ?r = Some j" "v \<in> header_values (sj_webhooks (sj_hdr j))"
    by (auto simp: task_values_def)
  then show ?thesis
  proof cases
    case 1
    then show ?thesis using values_of_redacted assms(2,3) by (simp add: Task redact_hdr_def)
  next
    case 2
    then obtain m' where "m = m'\<lparr>mt_opts := map_option (redact_vars secrets) (mt_opts m')\<rparr>" by (auto simp: Task redact_hdr_def)
    then have "mt_opts m = map_option (redact_vars secrets) (mt_opts m')" by simp
    then show ?thesis using 2(3) values_of_redacted assms(2,3) by simp
  next
    case 3
    then have "v = REDACTED_STR" by (auto simp: Task redact_hdr_def)
    then show ?thesis using marked_clean assms(3) by simp
  next
    case 4
    then obtain h' ts where "j = SubJobTask (redact_subjob secrets h') ts" by (cases sj; cases "the sj"; auto simp: Task)
    then show ?thesis using 4 values_of_blank assms(3) by (simp add: redact_subjob_def)
  next
    case 5
    then obtain h' ts where "j = SubJobTask (redact_subjob secrets h') ts" by (cases sj; cases "the sj"; auto simp: Task)
    then show ?thesis using 5 header_values_redacted assms(2,3) by (simp add: redact_subjob_def)
  qed
qed

text \<open>The values of a job that redaction is about.\<close>

definition job_values :: "job \<Rightarrow> string set" where
  "job_values j =
     values_of (jb_inputs j) \<union> header_values (jb_webhooks j) \<union> values_of (jb_secrets j) \<union>
     \<Union> ((\<lambda>c. values_of (jc_inputs c) \<union> values_of (jc_secrets c) \<union> values_of (jc_tasks c)) ` set_option (jb_context j)) \<union>
     {v. \<exists>ts t u. (jb_tasks j = Some ts \<or> jb_execution j = Some ts) \<and> t \<in> set ts \<and> part_of u t \<and> v \<in> task_values u}"

text \<open>C33. No value of a redacted job that redaction is about contains a secret of the job, whatever the order in
  which the secrets are replaced and however they occur in each other: not its inputs, headers, context and
  secrets, and not the environments, mount options, registry passwords and subjobs of its tasks at any depth
  of pre, post, sidecar and parallel tasks. (For a secret without brackets that is not inside the word that
  replaces it.)
\<close>

theorem redacted_job_clean:
  assumes "v \<in> job_values (redact_job j)" "sv \<in> set (secret_values (jb_secrets j))" "solid sv"
  shows "\<not> str_contains v sv"
proof -
  let ?s = "secret_values (jb_secrets j)" let ?r = "redact_job j"
  from assms(1) consider "v \<in> values_of (jb_inputs ?r)" | "v \<in> header_values (jb_webhooks ?r)" | "v \<in> values_of (jb_secrets ?r)"
    | c where "jb_context ?r = Some c" "v \<in> values_of (jc_inputs c) \<union> values_of (jc_secrets c) \<union> values_of (jc_tasks c)"
    | ts t u where "jb_tasks ?r = Some ts \<or> jb_execution ?r = Some ts" "t \<in> set ts" "part_of u t" "v \<in> task_values u"
    by (auto simp: job_values_def)
  then show ?thesis
  proof cases
    case 1
    then show ?thesis using values_of_redacted assms(2,3) by (simp add: redact_job_def Let_def)
  next
    case 2
    then show ?thesis using header_values_redacted assms(2,3) by (simp add: redact_job_def Let_def)
  next
    case 3
    then show ?thesis using values_of_blank assms(3) by (simp add: redact_job_def Let_def)
  next
    case 4
    then show ?thesis using values_of_redacted assms(2,3) by (auto simp: redact_job_def Let_def)
  next
    case 5
    then obtain t' where "t = redact_task_internal ?s t'" by (auto simp: redact_job_def Let_def)
    then obtain u' where "u = redact_task_internal ?s u'" using 5(3) part_of_redacted by blast
    then show ?thesis using 5(4) task_values_redacted assms(2,3) by blast
  qed
qed

theorem redacted_job_clean_witness:
  "\<not> str_contains ''x=[REDACTED]'' ''hunter2''"
proof -
  let ?j = "default_job\<lparr>jb_inputs := Some [(''k'', ''x=hunter2'')], jb_secrets := Some [(''s'', ''hunter2'')]\<rparr>"
  have "redact_vars [''hunter2''] [(''k'', ''x=hunter2'')] = [(''k'', ''x=[REDACTED]'')]" by code_simp
  then have "''x=[REDACTED]'' \<in> job_values (redact_job ?j)"
    by (simp add: job_values_def values_of_def redact_job_def secret_values_def Let_def)
  moreover have "solid ''hunter2''" by code_simp
  ultimately show ?thesis using redacted_job_clean [of _ ?j "''hunter2''"] by (simp add: secret_values_def)
qed

text \<open>
  What is not redacted: the template of an each task, the tasks and inputs of a subjob, and the texts of a
  task (command, script, result, error). They are returned as they are stored.
\<close>

theorem unredacted_parts:
  "each (redact_task secrets t) = each t"
  "map_option sj_tasks (subjob (redact_task secrets t)) = map_option sj_tasks (subjob t)"
  "map_option (sj_inputs \<circ> sj_hdr) (subjob (redact_task secrets t)) = map_option (sj_inputs \<circ> sj_hdr) (subjob t)"
  "th_run (hdr (redact_task secrets t)) = th_run (hdr t)" "th_result (hdr (redact_task secrets t)) = th_result (hdr t)"
proof -
  obtain h p q s par e sj where t: "t = Task h p q s par e sj" by (cases t)
  have "map_option sj_tasks (map_option (redact_subjob_task secrets) sj) = map_option sj_tasks sj"
    "map_option (sj_inputs \<circ> sj_hdr) (map_option (redact_subjob_task secrets) sj) = map_option (sj_inputs \<circ> sj_hdr) sj"
    by (cases sj; cases "the sj"; simp add: redact_subjob_def)+
  then show "each (redact_task secrets t) = each t"
    "map_option sj_tasks (subjob (redact_task secrets t)) = map_option sj_tasks (subjob t)"
    "map_option (sj_inputs \<circ> sj_hdr) (subjob (redact_task secrets t)) = map_option (sj_inputs \<circ> sj_hdr) (subjob t)"
    "th_run (hdr (redact_task secrets t)) = th_run (hdr t)" "th_result (hdr (redact_task secrets t)) = th_result (hdr t)"
    by (simp_all add: t redact_task_def redact_hdr_def option.map_ident)
qed

section \<open>When the redacter returns\<close>

lemma find_None: "str_find pat s = None \<longleftrightarrow> \<not> str_contains s pat"
  by (induction s) auto

lemma find_prefix: "str_find pat s = Some p \<Longrightarrow> p + length pat \<le> length s \<and> (\<forall>q < p. \<not> prefix pat (drop q s))"
proof (induction s arbitrary: p)
  case (Cons c cs)
  then show ?case by (fastforce split: if_splits dest: prefix_length_le simp: less_Suc_eq_0_disj)
qed (simp split: if_splits)

lemma find_before: "str_find pat s = Some p \<Longrightarrow> pat \<noteq> [] \<Longrightarrow> \<not> str_contains (take p s) pat"
proof
  assume f: "str_find pat s = Some p" "pat \<noteq> []" and "str_contains (take p s) pat"
  then obtain us vs where e: "take p s = us @ pat @ vs" by (auto simp: str_contains_iff)
  have "p \<le> length s" using find_prefix [OF f(1)] by simp
  then have "length us < p" using arg_cong [OF e, of length] f(2) by simp
  moreover have "prefix pat (drop (length us) s)"
    using e by (metis append_assoc append_eq_conv_conj append_take_drop_id prefixI)
  ultimately show False using find_prefix [OF f(1)] by blast
qed

lemma find_append:
  "\<not> str_contains a pat \<Longrightarrow> pat \<noteq> [] \<Longrightarrow> a = [] \<or> last a \<notin> set pat \<Longrightarrow>
    str_find pat (a @ b) = map_option ((+) (length a)) (str_find pat b)"
proof (induction a)
  case (Cons c a)
  have "\<not> prefix pat (c # a @ b)"
  proof
    assume "prefix pat (c # a @ b)"
    then consider "prefix pat (c # a)" | ys where "pat = (c # a) @ ys"
      using prefix_append [of pat "c # a" b] by auto
    then show False using Cons.prems by cases (auto split: if_splits)
  qed
  moreover have "str_find pat (a @ b) = map_option ((+) (length a)) (str_find pat b)" using Cons by (auto split: if_splits)
  ultimately show ?case by (cases "str_find pat b") simp_all
qed (cases "str_find pat b"; simp)

lemma char_upper: "length (map to_upper s) = length s" "map to_upper REDACTED_STR = REDACTED_STR"
  by (simp_all add: REDACTED_STR_def to_upper_def is_lower_def less_eq_char_def)

definition ascii :: "string \<Rightarrow> bool" where "ascii s \<longleftrightarrow> (\<forall>c \<in> set s. of_char c < (128 :: nat))"

lemma ascii_boundary: "ascii s \<Longrightarrow> p \<le> length s \<Longrightarrow> char_boundary s p"
  by (auto simp: ascii_def char_boundary_def)

lemma ascii_replaced: "ascii s \<Longrightarrow> ascii (take p s @ REDACTED_STR @ drop q s)"
  by (auto simp: ascii_def REDACTED_STR_def dest: in_set_takeD in_set_dropD)

text \<open>A key that occurs in \<open>[REDACTED]\<close> (\<open>red\<close>, for example) and in an ASCII text is found again in what
  replaces it: the recursion runs for ever, there is no result, not even a panic.
\<close>

theorem redacter_diverges:
  assumes "ascii s" "str_contains (map to_upper s) key" "str_contains REDACTED_STR key" "key \<noteq> []"
  shows "replace_key_until_fixed_point (map to_upper) key (length key) s = None"
proof -
  have False if "replace_key_until_fixed_point upper k n s = Some y" "upper = map to_upper" "k = key" "n = length key"
      "ascii s" "str_contains (map to_upper s) key" for upper k n s y
    using that
  proof (induction upper k n s y rule: replace_key_until_fixed_point.raw_induct [rotated, consumes 1])
    case (1 f upper k n s y)
    obtain pos where p: "str_find key (map to_upper s) = Some pos" using 1(7) find_None by fastforce
    have "pos + length key \<le> length s" using find_prefix [OF p] by simp
    then have "f upper k n (take pos s @ REDACTED_STR @ drop (pos + length key) s) = Some y"
      using 1(2-6) p ascii_boundary by simp
    moreover have "str_contains (map to_upper (take pos s @ REDACTED_STR @ drop (pos + length key) s)) key"
    proof -
      obtain us vs where "REDACTED_STR = us @ key @ vs" using assms(3) by (auto simp: str_contains_iff)
      then have "map to_upper (take pos s @ REDACTED_STR @ drop (pos + length key) s) =
          (map to_upper (take pos s) @ us) @ key @ (vs @ map to_upper (drop (pos + length key) s))" by (simp add: char_upper)
      then show ?thesis using str_contains_iff by blast
    qed
    ultimately show ?case using 1(1,3-6) ascii_replaced by blast
  qed
  then have "replace_key_until_fixed_point (map to_upper) key (length key) s \<noteq> Some y" for y using assms by blast
  then show ?thesis by (cases "replace_key_until_fixed_point (map to_upper) key (length key) s") auto
qed

theorem redacter_diverges_witness:
  "replace_key_until_fixed_point (map to_upper) ''RED'' 3 ''a red car'' = None"
proof -
  have "str_contains (map to_upper ''a red car'') ''RED''" by code_simp
  moreover have "str_contains REDACTED_STR ''RED''" by (simp add: REDACTED_STR_def)
  ultimately show ?thesis using redacter_diverges [of "''a red car''" "''RED''"] by (simp add: ascii_def numeral_3_eq_3)
qed

text \<open>
  For every other key without brackets the recursion returns, the key does not occur in the result, and no
  other such key that was absent does.
\<close>

lemma solid_around:
  assumes "solid t" "str_contains (a @ REDACTED_STR @ b) t"
  shows "str_contains a t \<or> str_contains b t"
proof -
  have "a @ REDACTED_STR @ b = a @ [CHR ''[''] @ (''REDACTED'' @ [CHR '']''] @ b)" by (simp add: REDACTED_STR_def)
  with assms have "str_contains a t \<or> str_contains (''REDACTED'' @ [CHR '']''] @ b) t"
    using contains_split [of a "CHR ''[''"] by (metis solid_def)
  with assms(1) show ?thesis using contains_split [of "''REDACTED''" "CHR '']''" b t] by (auto simp: solid_def)
qed

lemma redacter_loop:
  assumes "solid key" "ascii (a @ b)" "\<not> str_contains (map to_upper a) key" "a = [] \<or> last a = CHR '']''"
  shows "\<exists>t. replace_key_until_fixed_point (map to_upper) key (length key) (a @ b) = Some (Some t) \<and> ascii t \<and>
    \<not> str_contains (map to_upper t) key \<and>
    (\<forall>k. solid k \<longrightarrow> \<not> str_contains (map to_upper (a @ b)) k \<longrightarrow> \<not> str_contains (map to_upper t) k)"
  using assms
proof (induction "length b" arbitrary: a b rule: less_induct)
  case less
  have key: "key \<noteq> []" "CHR '']'' \<notin> set key" using less.prems(1) by (auto simp: solid_def)
  have "map to_upper a = [] \<or> last (map to_upper a) \<notin> set key"
    using less.prems(4) key(2) by (auto simp: last_map to_upper_def is_lower_def less_eq_char_def)
  from find_append [OF less.prems(3) key(1) this]
  have f: "str_find key (map to_upper (a @ b)) = map_option ((+) (length a)) (str_find key (map to_upper b))" by simp
  show ?case
  proof (cases "str_find key (map to_upper b)")
    case None
    then have "replace_key_until_fixed_point (map to_upper) key (length key) (a @ b) = Some (Some (a @ b))"
      using f by (subst replace_key_until_fixed_point.simps) simp
    moreover have "\<not> str_contains (map to_upper (a @ b)) key" using f None find_None by fastforce
    ultimately show ?thesis using less.prems(2) by blast
  next
    case (Some p)
    let ?a = "a @ take p b @ REDACTED_STR" and ?b = "drop (p + length key) b"
    have p: "p + length key \<le> length b" using find_prefix [OF Some] by simp
    have step: "replace_key_until_fixed_point (map to_upper) key (length key) (a @ b) =
        replace_key_until_fixed_point (map to_upper) key (length key) (?a @ ?b)"
      using f Some p ascii_boundary [OF less.prems(2)] by (subst replace_key_until_fixed_point.simps) (simp add: add.assoc)
    have "\<not> str_contains (map to_upper (a @ take p b)) key"
    proof -
      have "str_find key (map to_upper (a @ b)) = Some (length a + p)" using f Some by simp
      from find_before [OF this key(1)] show ?thesis by (simp add: take_map)
    qed
    then have 1: "\<not> str_contains (map to_upper ?a) key"
      using solid_around [OF less.prems(1), of "map to_upper (a @ take p b)" "[]"] key(1) by (auto simp: char_upper str_contains_iff)
    have 2: "ascii (?a @ ?b)"
      using less.prems(2) by (auto simp: ascii_def REDACTED_STR_def dest: in_set_takeD in_set_dropD)
    have 3: "last ?a = CHR '']''" by (simp add: REDACTED_STR_def)
    have 4: "\<not> str_contains (map to_upper (?a @ ?b)) k" if "solid k" "\<not> str_contains (map to_upper (a @ b)) k" for k
    proof
      assume "str_contains (map to_upper (?a @ ?b)) k"
      then have "str_contains (map to_upper (a @ take p b)) k \<or> str_contains (map to_upper ?b) k"
        using solid_around [OF that(1), of "map to_upper (a @ take p b)" "map to_upper ?b"] by (simp add: char_upper)
      moreover have "map to_upper (a @ b) = map to_upper (a @ take p b) @ map to_upper (drop p b)"
        "map to_upper (a @ b) = map to_upper (a @ take (p + length key) b) @ map to_upper ?b"
        by (metis append_assoc append_take_drop_id map_append)+
      ultimately show False using that(2) str_contains_iff by (metis append_assoc)
    qed
    have "length ?b < length b" using p key(1) by (cases key) auto
    from less.hyps [OF this less.prems(1) 2 1] 3 step 4 show ?thesis by (metis (no_types, lifting))
  qed
qed

text \<open>The redacter returns for every ASCII text when no key is empty, has brackets or occurs in the word
  between them (the default keys are such), and its result contains none of the keys, whatever their case.
\<close>

theorem redacter_returns:
  assumes "ascii s" "\<forall>key \<in> set keys. solid (map to_upper key)"
  shows "\<exists>t. redacter_wildcard (map to_upper) keys s = Some (Some t) \<and> ascii t \<and> \<not> redacter_contains (map to_upper) keys t"
proof -
  have "\<exists>t. redacter_wildcard (map to_upper) keys s = Some (Some t) \<and> ascii t \<and> \<not> redacter_contains (map to_upper) keys t \<and>
      (\<forall>k. solid k \<longrightarrow> \<not> str_contains (map to_upper s) k \<longrightarrow> \<not> str_contains (map to_upper t) k)"
    using assms
  proof (induction keys arbitrary: s)
    case (Cons key keys)
    have k: "solid (map to_upper key)" "key \<noteq> []" using Cons.prems(2) by (auto simp: solid_def)
    obtain t where t: "replace_key_until_fixed_point (map to_upper) (map to_upper key) (length key) s = Some (Some t)" "ascii t"
        "\<not> str_contains (map to_upper t) (map to_upper key)"
        "\<forall>k. solid k \<longrightarrow> \<not> str_contains (map to_upper s) k \<longrightarrow> \<not> str_contains (map to_upper t) k"
      using redacter_loop [OF k(1), of "[]" s] Cons.prems(1) k(2) by (auto simp: str_contains_iff)
    from Cons.IH [OF t(2)] Cons.prems(2) obtain u where
        "redacter_wildcard (map to_upper) keys t = Some (Some u)" "ascii u" "\<not> redacter_contains (map to_upper) keys u"
        "\<forall>k. solid k \<longrightarrow> \<not> str_contains (map to_upper t) k \<longrightarrow> \<not> str_contains (map to_upper u) k"
      by auto
    with t k show ?case by (auto simp: redacter_contains_def)
  qed (simp add: redacter_contains_def)
  then show ?thesis by blast
qed

theorem redacter_returns_witness:
  "\<exists>t. redacter_wildcard (map to_upper) DEFAULT_KEYS ''my secret'' = Some (Some t) \<and> ascii t \<and>
     \<not> redacter_contains (map to_upper) DEFAULT_KEYS t"
proof (rule redacter_returns)
  show "ascii ''my secret''" by (simp add: ascii_def)
  show "\<forall>key \<in> set DEFAULT_KEYS. solid (map to_upper key)"
    by (simp add: DEFAULT_KEYS_def solid_def to_upper_def is_lower_def less_eq_char_def)
qed

end
