(* ===== verification/Config.thy ===== *)
theory Config
  imports Redact Validation
begin

text \<open>
  Configuration (\<open>twerk-common/src/conf\<close>): a TOML document flattened to dotted keys, overridden by environment
  variables, and the typed lookups. Hash maps are association lists; the parsing of TOML and the environment
  are arguments.
\<close>

section \<open>Values\<close>

datatype toml =
    T_String string | T_Integer i64 | T_Float f64 | T_Boolean bool | T_Datetime string | T_Array "toml list"
  | T_Table "(string \<times> toml) list"

type_synonym config_state = "(string \<times> toml) list"

fun toml_str :: "toml \<Rightarrow> string option" where
  "toml_str (T_String s) = Some s" | "toml_str _ = None"

fun toml_bool :: "toml \<Rightarrow> bool option" where
  "toml_bool (T_Boolean b) = Some b" | "toml_bool _ = None"

fun toml_integer :: "toml \<Rightarrow> i64 option" where
  "toml_integer (T_Integer i) = Some i" | "toml_integer _ = None"

fun toml_array :: "toml \<Rightarrow> toml list option" where
  "toml_array (T_Array a) = Some a" | "toml_array _ = None"

fun toml_table :: "toml \<Rightarrow> (string \<times> toml) list option" where
  "toml_table (T_Table t) = Some t" | "toml_table _ = None"

text \<open>\<open>parse::<i64>()\<close>.\<close>

definition parse_i64 :: "string \<Rightarrow> i64 option" where
  "parse_i64 s =
     (let (neg, ds) = (case s of CHR ''-'' # t \<Rightarrow> (True, t) | CHR ''+'' # t \<Rightarrow> (False, t) | _ \<Rightarrow> (False, s));
          v = (if neg then - int (digits_val ds) else int (digits_val ds))
      in if ds \<noteq> [] \<and> list_all is_digit ds \<and> in_i64 v then Some (word_of_int v) else None)"

section \<open>Loading\<close>

text \<open>\<open>HashMap::extend\<close> and \<open>merge_values\<close>: the second map wins.\<close>

definition extend_map :: "('k \<times> 'v) list \<Rightarrow> ('k \<times> 'v) list \<Rightarrow> ('k \<times> 'v) list" where
  "extend_map base over = fold (\<lambda>(k, v). AList.update k v) over base"

definition merge_values :: "config_state \<Rightarrow> config_state \<Rightarrow> config_state" where
  "merge_values base override_vals = extend_map base override_vals"

definition full_key :: "string \<Rightarrow> string \<Rightarrow> string" where
  "full_key pre key = (if pre = [] then key else pre @ ''.'' @ key)"

text \<open>The loop of \<open>flatten_table\<close>, with the result so far.\<close>

lemma toml_table_Some: "toml_table v = Some t \<longleftrightarrow> v = T_Table t"
  by (cases v) auto

function flatten_into :: "string \<Rightarrow> (string \<times> toml) list \<Rightarrow> config_state \<Rightarrow> config_state" where
  "flatten_into pre [] result = result"
| "flatten_into pre ((key, value) # table) result =
     (case toml_table value of
        Some t \<Rightarrow> flatten_into pre table (extend_map result (flatten_into (full_key pre key) t []))
      | None \<Rightarrow> flatten_into pre table (AList.update (full_key pre key) value result))"
  by pat_completeness auto
termination
  by (relation "measure (\<lambda>(_, table, _). size_list (size_prod (\<lambda>_. 0) size) table)") (auto simp: toml_table_Some)

definition flatten_table :: "string \<Rightarrow> (string \<times> toml) list \<Rightarrow> config_state" where
  "flatten_table pre table = flatten_into pre table []"

text \<open>\<open>trim_start_matches\<close> removes the prefix as often as it is there.\<close>

function trim_start_matches :: "string \<Rightarrow> string \<Rightarrow> string" where
  "trim_start_matches pre s =
     (if pre \<noteq> [] \<and> prefix pre s then trim_start_matches pre (drop (length pre) s) else s)"
  by pat_completeness auto
termination by (relation "measure (length \<circ> snd)") (auto simp: prefix_def)

declare trim_start_matches.simps [simp del]

definition env_key :: "string \<Rightarrow> string \<Rightarrow> string" where
  "env_key pre key = map (\<lambda>c. if c = CHR ''_'' then CHR ''.'' else c) (to_ascii_lowercase (trim_start_matches pre key))"

definition extract_env_vars_with_prefix :: "string \<Rightarrow> (string \<times> string) list \<Rightarrow> config_state" where
  "extract_env_vars_with_prefix pre vars =
     fold (\<lambda>(k, v). AList.update (env_key pre k) (T_String v)) (filter (\<lambda>(k, _). prefix pre k) vars) []"

definition extract_env_vars :: "(string \<times> string) list \<Rightarrow> config_state" where
  "extract_env_vars vars = extract_env_vars_with_prefix ''TWERK_'' vars"

datatype config_error =
    CE_NotFound string | CE_ParseError string string | CE_IoError string string | CE_UserConfigNotFound string
  | CE_KeyNotFound string | CE_EnvError string | CE_UnmarshalError string | CE_Poisoned

definition DEFAULT_CONFIG_PATHS :: "string list" where
  "DEFAULT_CONFIG_PATHS = [''config.local.toml'', ''config.toml'', ''config.local.yaml'', ''config.yaml'',
     ''config.local.yml'', ''config.yml'', ''~/twerk/config.toml'', ''~/twerk/config.yaml'',
     ''/etc/twerk/config.toml'', ''/etc/twerk/config.yaml'']"

text \<open>\<open>files\<close> is \<open>parse_toml_file\<close>: the file system and the TOML parser.\<close>

fun load_first :: "(string \<Rightarrow> config_error + toml) \<Rightarrow> string list \<Rightarrow> config_error + config_state option" where
  "load_first files [] = Inr None"
| "load_first files (path # paths) =
     (case files path of
        Inr (T_Table table) \<Rightarrow> Inr (Some (flatten_table [] table))
      | Inr _ \<Rightarrow> load_first files paths
      | Inl (CE_NotFound _) \<Rightarrow> load_first files paths
      | Inl e \<Rightarrow> Inl e)"

definition load_config :: "(string \<Rightarrow> config_error + toml) \<Rightarrow> (string \<times> string) list \<Rightarrow> config_error + config_state" where
  "load_config files vars =
     (let user_config = (case map_of vars ''TWERK_CONFIG'' of Some v \<Rightarrow> if v = [] then None else Some v | None \<Rightarrow> None);
          paths = (case user_config of None \<Rightarrow> DEFAULT_CONFIG_PATHS | Some uc \<Rightarrow> [uc])
      in res_bind (load_first files paths) (\<lambda>loaded.
         case (loaded, user_config) of
           (None, Some config) \<Rightarrow> Inl (CE_UserConfigNotFound config)
         | (None, None) \<Rightarrow> Inr (merge_values [] (extract_env_vars vars))
         | (Some file_values, _) \<Rightarrow> Inr (merge_values file_values (extract_env_vars vars))))"

section \<open>Lookups in a state\<close>

definition get_str :: "config_state \<Rightarrow> string \<Rightarrow> string option" where
  "get_str c key = Option.bind (map_of c key) toml_str"

definition bool_of_text :: "string \<Rightarrow> bool option" where
  "bool_of_text t = (if t = ''true'' then Some True else if t = ''false'' then Some False else None)"

definition first_some :: "'a option \<Rightarrow> 'a option \<Rightarrow> 'a option" where
  "first_some a b = (case a of Some x \<Rightarrow> Some x | None \<Rightarrow> b)"

definition get_bool :: "config_state \<Rightarrow> string \<Rightarrow> bool option" where
  "get_bool c key = Option.bind (map_of c key) (\<lambda>v.
     first_some (toml_bool v) (Option.bind (toml_str v) (\<lambda>s. bool_of_text (to_ascii_lowercase s))))"

definition get_int :: "config_state \<Rightarrow> string \<Rightarrow> i64 option" where
  "get_int c key = Option.bind (map_of c key) (\<lambda>v. first_some (toml_integer v) (Option.bind (toml_str v) parse_i64))"

definition get_array :: "config_state \<Rightarrow> string \<Rightarrow> toml list option" where
  "get_array c key = Option.bind (map_of c key) toml_array"

definition get_table :: "config_state \<Rightarrow> string \<Rightarrow> (string \<times> toml) list option" where
  "get_table c key = Option.bind (map_of c key) toml_table"

definition config_contains_key :: "config_state \<Rightarrow> string \<Rightarrow> bool" where
  "config_contains_key c key \<longleftrightarrow> map_of c key \<noteq> None"

text \<open>The entries under a prefix, or of the table stored under the key, read by \<open>f\<close> or \<open>g\<close>.\<close>

definition map_for_key :: "(toml \<Rightarrow> 'v option) \<Rightarrow> (toml \<Rightarrow> 'v option) \<Rightarrow> config_state \<Rightarrow> string \<Rightarrow> (string \<times> 'v) list" where
  "map_for_key f g c key =
     (case get_table c key of
        Some table \<Rightarrow> List.map_filter (\<lambda>(k, v). map_option (Pair k) (f v)) table
      | None \<Rightarrow> let pre = key @ ''.''
          in List.map_filter (\<lambda>(k, v). map_option (Pair (drop (length pre) k)) (g v))
               (filter (\<lambda>(k, _). prefix pre k) c))"

definition string_map_for_key :: "config_state \<Rightarrow> string \<Rightarrow> (string \<times> string) list" where
  "string_map_for_key c key = map_for_key toml_str toml_str c key"

definition int_map_for_key :: "config_state \<Rightarrow> string \<Rightarrow> (string \<times> i64) list" where
  "int_map_for_key c key =
     map_for_key toml_integer (\<lambda>v. first_some (toml_integer v) (Option.bind (toml_str v) parse_i64)) c key"

definition bool_map_for_key :: "config_state \<Rightarrow> string \<Rightarrow> (string \<times> bool) list" where
  "bool_map_for_key c key =
     map_for_key toml_bool (\<lambda>v. first_some (toml_bool v) (Option.bind (toml_str v) (\<lambda>s. bool_of_text (to_lowercase s)))) c key"

definition strings_for_key :: "config_state \<Rightarrow> string \<Rightarrow> string list" where
  "strings_for_key c key = (case get_array c key of None \<Rightarrow> [] | Some a \<Rightarrow> List.map_filter toml_str a)"

definition strings_from_string :: "config_state \<Rightarrow> string \<Rightarrow> string list" where
  "strings_from_string c key = (case get_str c key of None \<Rightarrow> [] | Some s \<Rightarrow> map trim (split_on CHR '','' s))"

definition strings_for_key_or_string :: "config_state \<Rightarrow> string \<Rightarrow> string list" where
  "strings_for_key_or_string c key =
     (let from_array = strings_for_key c key in if from_array \<noteq> [] then from_array else strings_from_string c key)"

section \<open>Global lookups\<close>

text \<open>The state is \<open>None\<close> until a configuration is loaded.\<close>

definition conf_string :: "config_state option \<Rightarrow> string \<Rightarrow> string" where
  "conf_string cfg key = (case Option.bind cfg (\<lambda>c. get_str c key) of Some v \<Rightarrow> v | None \<Rightarrow> [])"

definition string_default :: "config_state option \<Rightarrow> string \<Rightarrow> string \<Rightarrow> string" where
  "string_default cfg key dflt = (let s = conf_string cfg key in if s = [] then dflt else s)"

definition conf_bool :: "config_state option \<Rightarrow> string \<Rightarrow> bool" where
  "conf_bool cfg key = (Option.bind cfg (\<lambda>c. get_bool c key) = Some True)"

definition bool_default :: "config_state option \<Rightarrow> string \<Rightarrow> bool \<Rightarrow> bool" where
  "bool_default cfg key dflt =
     (case Option.bind cfg (\<lambda>c. first_some (get_bool c key) (if config_contains_key c key then Some dflt else None)) of
        Some b \<Rightarrow> b | None \<Rightarrow> dflt)"

definition conf_int :: "config_state option \<Rightarrow> string \<Rightarrow> i64" where
  "conf_int cfg key = (case Option.bind cfg (\<lambda>c. get_int c key) of Some v \<Rightarrow> v | None \<Rightarrow> 0)"

definition int_default :: "config_state option \<Rightarrow> string \<Rightarrow> i64 \<Rightarrow> i64" where
  "int_default cfg key dflt =
     (case Option.bind cfg (\<lambda>c. first_some (get_int c key) (if config_contains_key c key then Some dflt else None)) of
        Some b \<Rightarrow> b | None \<Rightarrow> dflt)"

definition string_map :: "config_state option \<Rightarrow> string \<Rightarrow> (string \<times> string) list" where
  "string_map cfg key = (case cfg of None \<Rightarrow> [] | Some c \<Rightarrow> string_map_for_key c key)"

definition int_map :: "config_state option \<Rightarrow> string \<Rightarrow> (string \<times> i64) list" where
  "int_map cfg key = (case cfg of None \<Rightarrow> [] | Some c \<Rightarrow> int_map_for_key c key)"

definition bool_map :: "config_state option \<Rightarrow> string \<Rightarrow> (string \<times> bool) list" where
  "bool_map cfg key = (case cfg of None \<Rightarrow> [] | Some c \<Rightarrow> bool_map_for_key c key)"

definition conf_strings :: "config_state option \<Rightarrow> string \<Rightarrow> string list" where
  "conf_strings cfg key = (case cfg of None \<Rightarrow> [] | Some c \<Rightarrow> strings_for_key_or_string c key)"

definition strings_default :: "config_state option \<Rightarrow> string \<Rightarrow> string list \<Rightarrow> string list" where
  "strings_default cfg key dflt = (let v = conf_strings cfg key in if v = [] then dflt else v)"

section \<open>Durations\<close>

text \<open>
  \<open>time::Duration\<close> is a number of nanoseconds whose seconds are in \<open>i64\<close>; its constructors and its addition
  panic beyond that. \<open>round() as i64\<close> rounds half away from zero and saturates.
\<close>

datatype 'a run = Panics | Returns 'a

definition in_duration :: "int \<Rightarrow> bool" where
  "in_duration n \<longleftrightarrow> in_i64 (if 0 \<le> n then n div 10 ^ 9 else - (- n div 10 ^ 9))"

definition duration_units :: "i64 \<Rightarrow> int \<Rightarrow> int run" where
  "duration_units v unit_nanos =
     (if in_duration (sint v * unit_nanos) then Returns (sint v * unit_nanos) else Panics)"

definition f64_round_i64 :: "f64 \<Rightarrow> i64" where
  "f64_round_i64 x =
     (if f64_is_nan x then 0
      else if f64_is_inf x then word_of_int (if f64_sign x then - (2 ^ 63) else 2 ^ 63 - 1)
      else let s = f64_scaled x; m = (2 * \<bar>s\<bar> + 2 ^ 1074) div (2 * 2 ^ 1074); v = (if s < 0 then - m else m)
           in word_of_int (max (- (2 ^ 63)) (min (2 ^ 63 - 1) v)))"

definition parse_single_duration_with_value :: "string \<Rightarrow> string \<Rightarrow> int option run" where
  "parse_single_duration_with_value val u =
     (let val = trim val;
          scaled = (\<lambda>nanos. case parse_i64 val of None \<Rightarrow> Returns None
            | Some v \<Rightarrow> (case duration_units v nanos of Panics \<Rightarrow> Panics | Returns d \<Rightarrow> Returns (Some d)))
      in if u = ''ns'' then scaled 1
         else if u = ''us'' then scaled (10 ^ 3)
         else if u = ''ms'' then scaled (10 ^ 6)
         else if u = ''s'' then (case parse_f64 val of None \<Rightarrow> Returns None
           | Some x \<Rightarrow> Returns (Some (sint (f64_round_i64 x) * 10 ^ 9)))
         else if u = ''m'' then scaled (60 * 10 ^ 9)
         else if u = ''h'' then scaled (3600 * 10 ^ 9)
         else if u = ''d'' then scaled (86400 * 10 ^ 9)
         else Returns None)"

text \<open>\<open>trim_end_matches\<close> removes the suffix as often as it is there.\<close>

definition trim_end_matches :: "string \<Rightarrow> string \<Rightarrow> string" where
  "trim_end_matches suf s = rev (trim_start_matches (rev suf) (rev s))"

definition MICRO_SIGN :: string where "MICRO_SIGN = map char_of [0xC2 :: nat, 0xB5]"

definition parse_single_duration :: "string \<Rightarrow> int option run" where
  "parse_single_duration s =
     (if suffix ''ns'' s then parse_single_duration_with_value (trim_end_matches ''ns'' s) ''ns''
      else if suffix ''us'' s \<or> suffix (MICRO_SIGN @ ''s'') s
      then parse_single_duration_with_value
        (if suffix ''us'' s then trim_end_matches ''us'' s else trim_end_matches (MICRO_SIGN @ ''s'') s) ''us''
      else if suffix ''ms'' s then parse_single_duration_with_value (trim_end_matches ''ms'' s) ''ms''
      else if suffix ''s'' s then parse_single_duration_with_value (trim_end_matches ''s'' s) ''s''
      else if suffix ''m'' s then parse_single_duration_with_value (trim_end_matches ''m'' s) ''m''
      else if suffix ''h'' s then parse_single_duration_with_value (trim_end_matches ''h'' s) ''h''
      else if suffix ''d'' s then parse_single_duration_with_value (trim_end_matches ''d'' s) ''d''
      else Returns None)"

text \<open>The loop: the acc so far, the number and unit being read, and whether a part was found.\<close>

definition add_part :: "int \<Rightarrow> string \<Rightarrow> string \<Rightarrow> int option run" where
  "add_part acc num u =
     (case parse_single_duration_with_value num u of
        Panics \<Rightarrow> Panics
      | Returns None \<Rightarrow> Returns None
      | Returns (Some d) \<Rightarrow> if in_duration (acc + d) then Returns (Some (acc + d)) else Panics)"

fun complex_loop :: "(string \<Rightarrow> bool) \<Rightarrow> string list \<Rightarrow> int \<Rightarrow> string \<Rightarrow> string \<Rightarrow> bool \<Rightarrow> int option run" where
  "complex_loop alphabetic [] acc num u found =
     (if num \<noteq> [] \<and> u \<noteq> [] then add_part acc num u
      else Returns (if found then Some acc else None))"
| "complex_loop alphabetic (c # cs) acc num u found =
     (if length c = 1 \<and> (is_digit (hd c) \<or> c = ''.'' \<or> c = ''-'')
      then if u \<noteq> []
        then (case add_part acc num u of
            Panics \<Rightarrow> Panics
          | Returns None \<Rightarrow> Returns None
          | Returns (Some t) \<Rightarrow> complex_loop alphabetic cs t c [] True)
        else complex_loop alphabetic cs acc (num @ c) u found
      else if alphabetic c then complex_loop alphabetic cs acc num (u @ c) found
      else complex_loop alphabetic cs acc num u found)"

definition parse_complex_duration :: "(string \<Rightarrow> bool) \<Rightarrow> string \<Rightarrow> int option run" where
  "parse_complex_duration alphabetic s = complex_loop alphabetic (utf8_chars s) 0 [] [] False"

definition parse_conf_duration :: "(string \<Rightarrow> bool) \<Rightarrow> string \<Rightarrow> int option run" where
  "parse_conf_duration alphabetic s =
     (let s = trim s
      in if s = [] then Returns None
         else case parse_single_duration s of
             Returns None \<Rightarrow> parse_complex_duration alphabetic s | r \<Rightarrow> r)"

definition duration_default :: "(string \<Rightarrow> bool) \<Rightarrow> config_state option \<Rightarrow> string \<Rightarrow> int \<Rightarrow> int run" where
  "duration_default alphabetic cfg key dflt =
     (case parse_conf_duration alphabetic (conf_string cfg key) of
        Panics \<Rightarrow> Panics
      | Returns None \<Rightarrow> Returns dflt
      | Returns (Some d) \<Rightarrow> Returns d)"

section \<open>What is stored under a key\<close>

text \<open>A document without dots in its keys, and the leaf under a path.\<close>

definition plain_key :: "string \<Rightarrow> bool" where
  "plain_key k \<longleftrightarrow> k \<noteq> [] \<and> CHR ''.'' \<notin> set k"

fun plain_table :: "(string \<times> toml) list \<Rightarrow> bool" where
  "plain_table [] = True"
| "plain_table ((k, v) # t) =
     (plain_key k \<and> k \<notin> fst ` set t \<and> (case v of T_Table s \<Rightarrow> plain_table s | _ \<Rightarrow> True) \<and> plain_table t)"

fun leaf_at :: "(string \<times> toml) list \<Rightarrow> string list \<Rightarrow> toml option" where
  "leaf_at t [] = None"
| "leaf_at t [k] = (case map_of t k of Some (T_Table _) \<Rightarrow> None | r \<Rightarrow> r)"
| "leaf_at t (k # p) = (case map_of t k of Some (T_Table s) \<Rightarrow> leaf_at s p | _ \<Rightarrow> None)"

fun dotted :: "string \<Rightarrow> string list \<Rightarrow> string" where
  "dotted pre [] = pre"
| "dotted pre (k # p) = dotted (full_key pre k) p"

lemma map_of_extend: "map_of (extend_map base over) k = (case map_of (rev over) k of Some v \<Rightarrow> Some v | None \<Rightarrow> map_of base k)"
proof (induction over arbitrary: base)
  case (Cons a over)
  then show ?case by (cases a) (simp add: extend_map_def map_add_def update_conv' split: option.splits)
qed (simp add: extend_map_def)

lemma distinct_extend: "distinct (map fst base) \<Longrightarrow> distinct (map fst (extend_map base over))"
  unfolding extend_map_def
  by (induction over arbitrary: base) (auto simp: distinct_update)

lemma distinct_flatten: "distinct (map fst result) \<Longrightarrow> distinct (map fst (flatten_into pre table result))"
  by (induction pre table result rule: flatten_into.induct) (auto split: option.splits simp: distinct_update distinct_extend)

lemma map_of_extend_distinct:
  "distinct (map fst over) \<Longrightarrow> map_of (extend_map base over) k = (case map_of over k of Some v \<Rightarrow> Some v | None \<Rightarrow> map_of base k)"
proof -
  assume d: "distinct (map fst over)"
  then have "map_of (rev over) = map_of over" by (subst map_of_inject_set) (simp_all add: rev_map [symmetric])
  then show ?thesis by (simp add: map_of_extend)
qed

lemma keys_extend: "fst ` set (extend_map base over) = fst ` set base \<union> fst ` set over"
proof (induction over arbitrary: base)
  case (Cons a over)
  obtain k v where a: "a = (k, v)" by (cases a)
  have "extend_map base (a # over) = extend_map (AList.update k v base) over" by (simp add: extend_map_def a)
  then show ?case using Cons [of "AList.update k v base"] by (simp add: dom_update a)
qed (simp add: extend_map_def)

lemma full_key_Nil [simp]: "full_key pre k = [] \<longleftrightarrow> pre = [] \<and> k = []"
  by (simp add: full_key_def)

lemma dotted_from: "\<exists>r. dotted pre p = pre @ r \<and> (pre \<noteq> [] \<longrightarrow> r = [] \<or> hd r = CHR ''.'')"
proof (induction p arbitrary: pre)
  case (Cons k p)
  obtain r where "dotted (full_key pre k) p = full_key pre k @ r" using Cons by blast
  then show ?case by (auto simp: full_key_def)
qed simp

lemma flatten_keys:
  "pre \<noteq> [] \<Longrightarrow> k \<in> fst ` set (flatten_into pre table result) \<Longrightarrow> k \<in> fst ` set result \<or> prefix (pre @ ''.'') k"
proof (induction pre table result rule: flatten_into.induct)
  case (2 pre key v table result)
  have u: "k \<in> fst ` set (AList.update (full_key pre key) x result) \<Longrightarrow> k \<in> fst ` set result \<or> prefix (pre @ ''.'') k" for x
    using "2.prems"(1) by (auto simp: dom_update full_key_def)
  show ?case
  proof (cases "toml_table v")
    case (Some s)
    then have "k \<in> fst ` set (extend_map result (flatten_into (full_key pre key) s [])) \<or> prefix (pre @ ''.'') k"
      using "2.IH"(3) [OF Some] "2.prems" by simp
    moreover have "k \<in> fst ` set (flatten_into (full_key pre key) s []) \<Longrightarrow> prefix (full_key pre key @ ''.'') k"
      using "2.IH"(2) [OF Some] "2.prems"(1) by simp
    moreover have "full_key pre key @ ''.'' = (pre @ ''.'') @ key @ ''.''" using "2.prems"(1) by (simp add: full_key_def)
    then have "prefix (full_key pre key @ ''.'') k \<Longrightarrow> prefix (pre @ ''.'') k" using append_prefixD by metis
    ultimately show ?thesis by (simp add: keys_extend) blast
  next
    case None
    then show ?thesis using "2.IH"(1) [OF None] "2.prems" u by auto
  qed
qed simp

lemma other_key:
  assumes "plain_key k" "plain_key h" "h \<noteq> k"
  shows "\<not> prefix (full_key pre k @ ''.'') (dotted pre (h # p))" "full_key pre k \<noteq> dotted pre (h # p)"
proof -
  obtain r where r: "dotted pre (h # p) = full_key pre h @ r" "r = [] \<or> hd r = CHR ''.''"
    using dotted_from [of "full_key pre h" p] assms(2) by (auto simp: plain_key_def)
  have w: "takeWhile (\<lambda>c. c \<noteq> CHR ''.'') (x @ y) = x" if "plain_key x" "y = [] \<or> hd y = CHR ''.''" for x y :: string
    using that by (cases y) (auto simp: plain_key_def takeWhile_append)
  have 1: "k @ ''.'' @ y \<noteq> h @ r" for y
  proof
    assume "k @ ''.'' @ y = h @ r"
    moreover have "takeWhile (\<lambda>c. c \<noteq> CHR ''.'') (k @ ''.'' @ y) = k" by (rule w [OF assms(1)]) simp
    ultimately show False using w [OF assms(2) r(2)] assms(3) by metis
  qed
  have "takeWhile (\<lambda>c. c \<noteq> CHR ''.'') (k @ []) = k" by (rule w [OF assms(1)]) simp
  then have 2: "k \<noteq> h @ r" using w [OF assms(2) r(2)] assms(3) by force
  show "\<not> prefix (full_key pre k @ ''.'') (dotted pre (h # p))"
  proof
    assume "prefix (full_key pre k @ ''.'') (dotted pre (h # p))"
    then obtain y where "full_key pre h @ r = (full_key pre k @ ''.'') @ y" unfolding r(1) prefix_def by blast
    then have "h @ r = k @ ''.'' @ y" by (cases "pre = []") (simp_all add: full_key_def)
    then show False using 1 [of y] by simp
  qed
  show "full_key pre k \<noteq> dotted pre (h # p)" unfolding r(1) using 2 by (auto simp: full_key_def)
qed

lemma no_leaf: "h \<notin> fst ` set t \<Longrightarrow> leaf_at t (h # p) = None"
  by (cases p) (simp_all add: map_of_eq_None_iff [THEN iffD2])

lemma flatten_leaf:
  "plain_table table \<Longrightarrow> list_all plain_key p \<Longrightarrow> p \<noteq> [] \<Longrightarrow>
    map_of (flatten_into pre table result) (dotted pre p) =
      (case leaf_at table p of Some v \<Rightarrow> Some v | None \<Rightarrow> map_of result (dotted pre p))"
proof (induction pre table result arbitrary: p rule: flatten_into.induct)
  case (1 pre result)
  then show ?case by (cases p rule: list.exhaust [case_product list.exhaust]) (simp_all add: no_leaf)
next
  case (2 pre key v table result)
  obtain h q where p: "p = h # q" using "2.prems"(3) by (auto simp: neq_Nil_conv)
  have key: "plain_key key" "key \<notin> fst ` set table" and h: "plain_key h" using "2.prems" p by auto
  show ?case
  proof (cases "h = key")
    case False
    have "leaf_at ((key, v) # table) p = leaf_at table p" using False p by (cases q) simp_all
    moreover have "map_of (flatten_into (full_key pre key) s []) (dotted pre p) = None" for s
    proof -
      have "dotted pre p \<notin> fst ` set (flatten_into (full_key pre key) s [])"
        using flatten_keys [of "full_key pre key" "dotted pre p" s "[]"] other_key(1) [OF key(1) h False] key(1) p
        by (auto simp: plain_key_def)
      then show ?thesis by (simp add: map_of_eq_None_iff)
    qed
    moreover have "plain_table table" using "2.prems" by simp
    moreover have "full_key pre key \<noteq> dotted pre p" using other_key(2) [OF key(1) h False, of pre q] p by simp
    ultimately show ?thesis
      using "2.IH"(3) [of _ p] "2.IH"(1) [of p] "2.prems"(2,3)
      by (cases "toml_table v") (simp_all add: map_of_extend_distinct distinct_flatten update_conv' split: option.split)
  next
    case True
    have rest: "leaf_at table p = None" using no_leaf key(2) True p by simp
    show ?thesis
    proof (cases "toml_table v")
      case (Some s)
      then have v: "v = T_Table s" by (simp add: toml_table_Some)
      have "map_of (flatten_into (full_key pre key) s []) (dotted pre p) = leaf_at ((key, v) # table) p"
      proof (cases q)
        case Nil
        have "full_key pre key \<notin> fst ` set (flatten_into (full_key pre key) s [])"
          using flatten_keys [of "full_key pre key" "full_key pre key" s "[]"] key(1) by (auto simp: plain_key_def)
        then show ?thesis using p Nil True v by (simp add: map_of_eq_None_iff)
      next
        case (Cons a b)
        have "map_of (flatten_into (full_key pre key) s []) (dotted (full_key pre key) q) = leaf_at s q"
          using "2.IH"(2) [OF Some, of q] "2.prems" p Cons v by (simp split: option.splits)
        then show ?thesis using p Cons True v by simp
      qed
      then show ?thesis
        using "2.IH"(3) [OF Some, of p] "2.prems" rest Some
        by (simp add: map_of_extend_distinct distinct_flatten)
    next
      case None
      have "leaf_at ((key, v) # table) p = (if q = [] then Some v else None)"
        using None p True by (cases v; cases q) simp_all
      moreover have "dotted pre p = full_key pre key \<longleftrightarrow> q = []"
      proof (cases q)
        case (Cons a b)
        obtain r where "dotted (full_key (full_key pre key) a) b = full_key (full_key pre key) a @ r" using dotted_from by blast
        then show ?thesis using p True Cons key(1) by (simp add: full_key_def [of "full_key pre key"] plain_key_def)
      qed (simp add: p True)
      ultimately show ?thesis
        using "2.IH"(1) [OF None, of p] "2.prems" rest None by (simp add: update_conv')
    qed
  qed
qed

section \<open>Precedence\<close>

text \<open>What the environment sets under a key: the last variable that maps to it.\<close>

definition env_value :: "(string \<times> string) list \<Rightarrow> string \<Rightarrow> string option" where
  "env_value vars key =
     map_of (rev (map (\<lambda>(k, v). (env_key ''TWERK_'' k, v)) (filter (\<lambda>(k, _). prefix ''TWERK_'' k) vars))) key"

lemma extract_extend:
  "extract_env_vars_with_prefix pre vars =
    extend_map [] (map (\<lambda>(k, v). (env_key pre k, T_String v)) (filter (\<lambda>(k, _). prefix pre k) vars))"
  by (simp add: extract_env_vars_with_prefix_def extend_map_def fold_map case_prod_unfold comp_def)

lemma map_of_strings: "map_of (map (\<lambda>(k, v). (f k, T_String v)) kvs) key = map_option T_String (map_of (map (\<lambda>(k, v). (f k, v)) kvs) key)"
  by (induction kvs) auto

lemma map_of_env: "map_of (extract_env_vars vars) key = map_option T_String (env_value vars key)"
  by (simp add: extract_env_vars_def extract_extend map_of_extend env_value_def rev_map map_of_strings option.case_eq_if)

text \<open>After loading, the value under a dotted key is that of the last environment variable that maps to the
  key, else the leaf under the path in the file named by \<open>TWERK_CONFIG\<close> (for a file whose keys have no dots
  and are not repeated).\<close>

theorem config_precedence:
  assumes "map_of vars ''TWERK_CONFIG'' = Some path" "path \<noteq> []" "files path = Inr (T_Table table)"
    and "plain_table table" "list_all plain_key p" "p \<noteq> []"
  shows "\<exists>c. load_config files vars = Inr c \<and> map_of c (dotted [] p) =
    (case env_value vars (dotted [] p) of Some v \<Rightarrow> Some (T_String v) | None \<Rightarrow> leaf_at table p)"
proof -
  have "distinct (map fst (extract_env_vars vars))"
    by (simp add: extract_env_vars_def extract_extend distinct_extend)
  moreover have "map_of (flatten_table [] table) (dotted [] p) = leaf_at table p"
    using flatten_leaf [OF assms(4-6), of "[]" "[]"] by (simp add: flatten_table_def split: option.splits)
  ultimately show ?thesis
    using assms(1-3)
    by (simp add: load_config_def merge_values_def map_of_extend_distinct map_of_env split: option.split)
qed

theorem config_precedence_witness:
  "\<exists>c. load_config (\<lambda>_. Inr (T_Table [(''web'', T_Table [(''port'', T_Integer 80)])]))
      [(''TWERK_CONFIG'', ''f''), (''TWERK_WEB_HOST'', ''h'')] = Inr c \<and>
    map_of c ''web.port'' = Some (T_Integer 80)"
proof -
  let ?vars = "[(''TWERK_CONFIG'', ''f''), (''TWERK_WEB_HOST'', ''h'')]"
  have "env_value ?vars ''web.port'' = None" by code_simp
  moreover have "dotted [] [''web'', ''port''] = ''web.port''" by (simp add: full_key_def)
  ultimately show ?thesis
    using config_precedence [of ?vars "''f''" "\<lambda>_. Inr (T_Table [(''web'', T_Table [(''port'', T_Integer 80)])])"
        "[(''web'', T_Table [(''port'', T_Integer 80)])]" "[''web'', ''port'']"]
    by (simp add: plain_key_def)
qed

text \<open>
  An environment variable cannot name a key with an underscore (\<open>skip_paths\<close> of the logger, for example),
  and a variable that repeats the prefix loses all of it.
\<close>

lemma trim_start_no_prefix: "pre \<noteq> [] \<Longrightarrow> \<not> prefix pre (trim_start_matches pre s)"
  by (induction pre s rule: trim_start_matches.induct) (simp add: trim_start_matches.simps)

lemma env_key_no_underscore: "CHR ''_'' \<notin> set (env_key pre key)"
  by (auto simp: env_key_def)

theorem underscore_not_from_environment:
  "CHR ''_'' \<in> set key \<Longrightarrow> env_value vars key = None"
  using env_key_no_underscore by (fastforce simp: env_value_def map_of_eq_None_iff)

section \<open>What a duration means\<close>

text \<open>A conf_segment: digits, a unit, and what they mean together.\<close>

definition conf_segment :: "string \<times> string \<times> int \<Rightarrow> bool" where
  "conf_segment = (\<lambda>(ds, u, d). ds \<noteq> [] \<and> list_all is_digit ds \<and> u \<in> {''ns'', ''us'', ''ms'', ''s'', ''m'', ''h'', ''d''} \<and>
     parse_single_duration_with_value ds u = Returns (Some d))"

definition segment_text :: "string \<times> string \<times> int \<Rightarrow> string" where
  "segment_text = (\<lambda>(ds, u, d). ds @ u)"

definition sums_in_range :: "int \<Rightarrow> (string \<times> string \<times> int) list \<Rightarrow> bool" where
  "sums_in_range acc segs \<longleftrightarrow> (\<forall>n \<le> length segs. in_duration (acc + sum_list (map (snd \<circ> snd) (take n segs))))"

definition unit_letters :: "(string \<Rightarrow> bool) \<Rightarrow> bool" where
  "unit_letters alphabetic \<longleftrightarrow> (\<forall>c \<in> set ''numshd''. alphabetic [c])"

abbreviation chars_of :: "string \<Rightarrow> string list" where "chars_of s \<equiv> map (\<lambda>c. [c]) s"

lemma loop_digits:
  "list_all is_digit ds \<Longrightarrow> complex_loop al (chars_of ds @ cs) acc num [] found = complex_loop al cs acc (num @ ds) [] found"
  by (induction ds arbitrary: num) auto

lemma loop_unit:
  "list_all (\<lambda>c. alphabetic [c] \<and> \<not> is_digit c \<and> c \<noteq> CHR ''.'' \<and> c \<noteq> CHR ''-'') u \<Longrightarrow>
    complex_loop alphabetic (chars_of u @ cs) acc num v found = complex_loop alphabetic cs acc num (v @ u) found"
  by (induction u arbitrary: v) auto

lemma unit_chars:
  assumes "conf_segment (ds, u, d)" "unit_letters al"
  shows "list_all (\<lambda>c. al [c] \<and> \<not> is_digit c \<and> c \<noteq> CHR ''.'' \<and> c \<noteq> CHR ''-'') u" "u \<noteq> []" "list_all is_lower u"
  using assms by (auto simp: conf_segment_def unit_letters_def is_digit_def is_lower_def less_eq_char_def)

lemma complex_segments:
  assumes "unit_letters al"
  shows "conf_segment (ds, u, d) \<Longrightarrow> list_all conf_segment segs \<Longrightarrow> in_duration (acc + d) \<Longrightarrow> sums_in_range (acc + d) segs \<Longrightarrow>
    complex_loop al (chars_of (concat (map segment_text segs))) acc ds u found =
      Returns (Some (acc + d + sum_list (map (snd \<circ> snd) segs)))"
proof (induction segs arbitrary: acc ds u d found)
  case Nil
  then show ?case by (auto simp: conf_segment_def add_part_def)
next
  case (Cons a segs)
  obtain ds' u' d' where a: "a = (ds', u', d')" by (cases a)
  have s: "conf_segment (ds', u', d')" using Cons.prems a by simp
  obtain c cs where ds': "ds' = c # cs" "is_digit c" "list_all is_digit cs" using s by (cases ds') (auto simp: conf_segment_def)
  have "add_part acc ds u = Returns (Some (acc + d))"
    using Cons.prems by (simp add: add_part_def conf_segment_def)
  then have "complex_loop al (chars_of (concat (map segment_text (a # segs)))) acc ds u found =
      complex_loop al (chars_of cs @ chars_of u' @ chars_of (concat (map segment_text segs))) (acc + d) [c] [] True"
    using ds' unit_chars(2) [OF Cons.prems(1) assms] by (simp add: a segment_text_def)
  also have "\<dots> = complex_loop al (chars_of (concat (map segment_text segs))) (acc + d) ds' u' True"
    using ds' loop_digits loop_unit [OF unit_chars(1) [OF s assms]] by simp
  also have "\<dots> = Returns (Some (acc + d + d' + sum_list (map (snd \<circ> snd) segs)))"
  proof (rule Cons.IH)
    have "in_duration (acc + d + sum_list (map (snd \<circ> snd) (take n (a # segs))))" if "n \<le> Suc (length segs)" for n
      using Cons.prems(4) that by (simp add: sums_in_range_def)
    from this [of 1] this [of "Suc m" for m] show "in_duration (acc + d + d')" "sums_in_range (acc + d + d') segs"
      by (simp_all add: a sums_in_range_def add.assoc)
  qed (use s Cons.prems in simp_all)
  finally show ?case by (simp add: a add.assoc comp_def)
qed

lemma rev_digit: "x \<noteq> [] \<Longrightarrow> is_digit (last x) \<Longrightarrow> \<exists>c cs. rev x = c # cs \<and> is_digit c"
  by (cases x rule: rev_cases) auto

lemma digit_cases: "is_digit c \<Longrightarrow> c \<notin> set ''numshd''" "is_digit c \<Longrightarrow> c \<noteq> CHR ''+'' \<and> c \<noteq> CHR ''-''"
  by (auto simp: is_digit_def less_eq_char_def)

lemma suffix_rev: "suffix v s \<longleftrightarrow> prefix (rev v) (rev s)"
  by (simp add: suffix_to_prefix)

lemma parse_i64_letter: "c \<in> set s \<Longrightarrow> is_lower c \<Longrightarrow> parse_i64 s = None"
proof -
  assume c: "c \<in> set s" "is_lower c"
  then have "\<not> is_digit c" "c \<noteq> CHR ''+''" "c \<noteq> CHR ''-''" by (auto simp: is_lower_def is_digit_def less_eq_char_def)
  with c show ?thesis by (auto simp: parse_i64_def list_all_iff Let_def split: list.split prod.split char.split bool.splits)
qed

lemma trim_start_step: "pre \<noteq> [] \<Longrightarrow> trim_start_matches pre (pre @ y) = trim_start_matches pre y"
  by (subst trim_start_matches.simps) simp

lemma micro: "MICRO_SIGN = [CHR 0xC2, CHR 0xB5]"
  by code_simp

lemma single_none:
  assumes "x \<noteq> []" "is_digit (last x)" "is_digit (hd x)" "c \<in> set x" "is_lower c"
    and "u \<in> {''ns'', ''us'', ''ms'', ''m'', ''h'', ''d''}"
  shows "parse_single_duration (x @ u) = Returns None"
proof -
  obtain e r where e: "rev x = e # r" "is_digit e" using rev_digit assms(1,2) by blast
  have n: "e \<notin> set ''numshd''" using digit_cases(1) e(2) .
  have "\<not> prefix (rev u) (rev x)" using e n assms(6) by auto
  then have "trim_start_matches (rev u) (rev x) = rev x" by (simp add: trim_start_matches.simps)
  then have t: "trim_end_matches u (x @ u) = x"
    using assms(6) trim_start_step [of "rev u" "rev x"] by (auto simp: trim_end_matches_def)
  have "visible (hd x)" "visible (last x)" using assms(2,3) digit_visible by blast+
  then have v: "parse_single_duration_with_value x u = Returns None"
    using assms(6) trim_visible [OF assms(1)] parse_i64_letter [OF assms(4,5)]
    by (elim insertE emptyE) (simp_all add: parse_single_duration_with_value_def Let_def)
  have s: "suffix w (x @ u) \<longleftrightarrow> suffix w u"
    if "w \<in> {''ns'', ''us'', MICRO_SIGN @ ''s'', ''ms'', ''s'', ''m'', ''h'', ''d''}" for w
    unfolding suffix_rev using assms(6) that e(1) n by (elim insertE emptyE) (simp_all add: micro)
  have "parse_single_duration (x @ u) = parse_single_duration_with_value (trim_end_matches u (x @ u)) u"
    using assms(6) by (elim insertE emptyE) (simp_all add: parse_single_duration_def s micro, simp_all add: suffix_rev)
  then show ?thesis using t v by simp
qed

text \<open>A text of two or more segments, the last not in seconds, means the sum of what they mean, if no partial
  sum leaves the range of durations.\<close>

theorem compound_duration:
  assumes "unit_letters al" "list_all conf_segment (seg # segs)" "segs \<noteq> []" "fst (snd (last segs)) \<noteq> ''s''"
    and "sums_in_range 0 (seg # segs)"
  shows "parse_conf_duration al (concat (map segment_text (seg # segs))) =
    Returns (Some (sum_list (map (snd \<circ> snd) (seg # segs))))"
proof -
  let ?t = "concat (map segment_text (seg # segs))"
  obtain ds u d where seg: "seg = (ds, u, d)" by (cases seg)
  have s: "conf_segment (ds, u, d)" using assms(2) seg by simp
  obtain c cs where ds: "ds = c # cs" "is_digit c" "list_all is_digit cs" using s by (cases ds) (auto simp: conf_segment_def)
  obtain ds' u' d' where l: "last segs = (ds', u', d')" by (cases "last segs")
  have s': "conf_segment (ds', u', d')" using assms(2,3) l last_in_set [of segs] by (auto simp: list_all_iff)
  have ds': "ds' \<noteq> []" "is_digit (last ds')" using s' last_in_set [of ds'] by (auto simp: conf_segment_def list_all_iff)
  have u': "u' \<in> {''ns'', ''us'', ''ms'', ''m'', ''h'', ''d''}" using s' assms(4) l by (auto simp: conf_segment_def)
  let ?x = "concat (map segment_text (seg # butlast segs)) @ ds'"
  have t: "?t = ?x @ u'" using assms(3) l by (cases segs rule: rev_cases) (simp_all add: segment_text_def)
  have ulast: "last u \<in> set ?x" "is_lower (last u)"
    using unit_chars(2,3) [OF s assms(1)] by (auto simp: seg segment_text_def list_all_iff)
  have none: "parse_single_duration ?t = Returns None"
    unfolding t using ds ds' u' ulast by (intro single_none [where c = "last u"]) (auto simp: seg segment_text_def)
  have vis: "list_all visible ?t"
  proof -
    have "list_all visible (segment_text a)" if "conf_segment a" for a
    proof -
      obtain x y z where a: "a = (x, y, z)" by (cases a)
      have "list_all is_lower y" using unit_chars(3) that a assms(1) by blast
      moreover have "is_lower ch \<Longrightarrow> visible ch" for ch by (simp add: is_lower_def visible_def less_eq_char_def)
      ultimately show ?thesis using that a digit_visible by (auto simp: segment_text_def conf_segment_def list_all_iff)
    qed
    then have "\<forall>a \<in> set (seg # segs). list_all visible (segment_text a)" using assms(2) by (metis list_all_iff)
    then show ?thesis by (simp add: list_all_iff) blast
  qed
  have ne: "?t \<noteq> []" using ds by (simp add: seg segment_text_def)
  then have trim: "trim ?t = ?t" using vis by (intro trim_visible) (use list.set_sel(1) [OF ne] last_in_set [OF ne] in \<open>auto simp: list_all_iff\<close>)
  have "list_all (\<lambda>c. of_char c < (128 :: nat)) ?t" using vis by (rule list.pred_mono_strong) (simp add: visible_def)
  then have "utf8_chars ?t = chars_of ?t" by (rule utf8_chars_ascii)
  then have "parse_complex_duration al ?t =
      complex_loop al (chars_of ds @ chars_of u @ chars_of (concat (map segment_text segs))) 0 [] [] False"
    by (simp add: parse_complex_duration_def seg segment_text_def)
  also have "\<dots> = complex_loop al (chars_of (concat (map segment_text segs))) 0 ds u False"
    using loop_digits [of ds al _ 0 "[]"] loop_unit [OF unit_chars(1) [OF s assms(1)], of _ 0 ds "[]"] s
    by (simp add: conf_segment_def)
  also have "\<dots> = Returns (Some (0 + d + sum_list (map (snd \<circ> snd) segs)))"
  proof (rule complex_segments [OF assms(1) s])
    have "in_duration (sum_list (map (snd \<circ> snd) (take n (seg # segs))))" if "n \<le> Suc (length segs)" for n
      using assms(5) that by (simp add: sums_in_range_def)
    from this [of 1] this [of "Suc m" for m] show "in_duration (0 + d)" "sums_in_range (0 + d) segs"
      by (simp_all add: seg sums_in_range_def)
  qed (use assms(2) in simp)
  finally show ?thesis using none trim ne
    by (simp add: parse_conf_duration_def seg comp_def del: concat.simps concat_eq_Nil_conv)
qed

theorem compound_duration_witness:
  "parse_conf_duration (\<lambda>c. c \<in> set (map (\<lambda>x. [x]) ''numshd'')) ''1h30m'' = Returns (Some (90 * 60 * 10 ^ 9))"
proof -
  have "conf_segment (''1'', ''h'', 3600 * 10 ^ 9)" "conf_segment (''30'', ''m'', 30 * 60 * 10 ^ 9)"
    by code_simp+
  moreover have "sums_in_range 0 [(''1'', ''h'', 3600 * 10 ^ 9), (''30'', ''m'', 30 * 60 * 10 ^ 9)]"
    unfolding sums_in_range_def
  proof (intro allI impI)
    fix n assume "n \<le> length [(''1'', ''h'', 3600 * 10 ^ 9 :: int), (''30'', ''m'', 30 * 60 * 10 ^ 9)]"
    then consider "n = 0" | "n = 1" | "n = 2" by fastforce
    then show "in_duration (0 + sum_list (map (snd \<circ> snd)
        (take n [(''1'', ''h'', 3600 * 10 ^ 9 :: int), (''30'', ''m'', 30 * 60 * 10 ^ 9)])))"
      by cases (simp_all add: in_duration_def in_i64_def i64_min_def i64_max_def)
  qed
  moreover have "unit_letters (\<lambda>c. c \<in> set (map (\<lambda>x. [x]) ''numshd''))" by (simp add: unit_letters_def)
  ultimately have "parse_conf_duration (\<lambda>c. c \<in> set (map (\<lambda>x. [x]) ''numshd''))
      (concat (map segment_text [(''1'', ''h'', 3600 * 10 ^ 9), (''30'', ''m'', 30 * 60 * 10 ^ 9)])) =
      Returns (Some (sum_list (map (snd \<circ> snd) [(''1'', ''h'', 3600 * 10 ^ 9), (''30'', ''m'', 30 * 60 * 10 ^ 9)])))"
    by (intro compound_duration) simp_all
  then show ?thesis by (simp add: segment_text_def)
qed

end
