(* ===== verification/Web_Access.thy ===== *)
theory Web_Access
  imports Config Datastore_Inmemory Wildcard Queue_Names
begin

text \<open>
  Who may reach the API: the authentication and limit middleware (\<open>engine/coordinator/auth.rs\<close>, \<open>limits.rs\<close>,
  \<open>middleware.rs\<close>, \<open>utils.rs\<close>), the router that puts it around the routes (\<open>twerk-web/src/api/router.rs\<close>), and the
  configuration the server is started with (\<open>twerk-cli/src/run.rs\<close>). Base64, bcrypt, the rate limiter and CORS are
  arguments, and so is what axum does with a sequence of router calls.
\<close>

section \<open>Requests\<close>

text \<open>Header names are in lower case; \<open>to_str\<close> reads a value of visible ASCII characters only.\<close>

record http_request =
  hr_method :: string
  hr_path :: string
  hr_query :: "string option"
  hr_headers :: "(string \<times> string) list"
  hr_user :: "string option"

record access_env =
  ae_base64 :: "string \<Rightarrow> string option"
  ae_bcrypt_verify :: "string \<Rightarrow> string \<Rightarrow> bool option"
  ae_rate_ok :: "http_request \<Rightarrow> bool"
  ae_cors :: "http_request \<Rightarrow> nat option"

definition header_str :: "http_request \<Rightarrow> string \<Rightarrow> string option" where
  "header_str r name = Option.bind (map_of (hr_headers r) name) (\<lambda>v.
     if list_all (\<lambda>c. 32 \<le> (of_char c :: nat) \<and> (of_char c :: nat) < 127 \<or> (of_char c :: nat) = 9) v then Some v else None)"

definition strip_prefix :: "string \<Rightarrow> string \<Rightarrow> string option" where
  "strip_prefix pre s = (if prefix pre s then Some (drop (length pre) s) else None)"

text \<open>A byte string is UTF-8: no overlong form, no surrogate, nothing above \<open>U+10FFFF\<close>.\<close>

definition byte_in :: "nat \<Rightarrow> nat \<Rightarrow> string \<Rightarrow> bool" where
  "byte_in lo hi s \<longleftrightarrow> (case s of [] \<Rightarrow> False | c # _ \<Rightarrow> lo \<le> (of_char c :: nat) \<and> (of_char c :: nat) \<le> hi)"

fun valid_utf8 :: "string \<Rightarrow> bool" where
  "valid_utf8 [] = True"
| "valid_utf8 (c # cs) =
     (let n = of_char c :: nat
      in if n < 128 then valid_utf8 cs
         else if 0xC2 \<le> n \<and> n \<le> 0xDF then byte_in 0x80 0xBF cs \<and> valid_utf8 (drop 1 cs)
         else if 0xE0 \<le> n \<and> n \<le> 0xEF then
           byte_in (if n = 0xE0 then 0xA0 else 0x80) (if n = 0xED then 0x9F else 0xBF) cs \<and>
           byte_in 0x80 0xBF (drop 1 cs) \<and> valid_utf8 (drop 2 cs)
         else if 0xF0 \<le> n \<and> n \<le> 0xF4 then
           byte_in (if n = 0xF0 then 0x90 else 0x80) (if n = 0xF4 then 0x8F else 0xBF) cs \<and>
           byte_in 0x80 0xBF (drop 1 cs) \<and> byte_in 0x80 0xBF (drop 2 cs) \<and> valid_utf8 (drop 3 cs)
         else False)"

definition base64_decode :: "access_env \<Rightarrow> string \<Rightarrow> string option" where
  "base64_decode env s = Option.bind (ae_base64 env s) (\<lambda>bytes. if valid_utf8 bytes then Some bytes else None)"

definition check_password_hash :: "access_env \<Rightarrow> string \<Rightarrow> string \<Rightarrow> bool" where
  "check_password_hash env password hash = (ae_bcrypt_verify env password hash = Some True)"

section \<open>Middleware\<close>

text \<open>A middleware refuses with a status or hands on the request.\<close>

definition UNAUTHORIZED :: nat where "UNAUTHORIZED = 401"
definition LENGTH_REQUIRED :: nat where "LENGTH_REQUIRED = 411"
definition PAYLOAD_TOO_LARGE :: nat where "PAYLOAD_TOO_LARGE = 413"
definition TOO_MANY_REQUESTS :: nat where "TOO_MANY_REQUESTS = 429"
definition INTERNAL_SERVER_ERROR :: nat where "INTERNAL_SERVER_ERROR = 500"

text \<open>\<open>splitn(2, ':')\<close> in two parts.\<close>

definition split_credentials :: "string \<Rightarrow> (string \<times> string) option" where
  "split_credentials s =
     (if CHR '':'' \<in> set s
      then Some (takeWhile (\<lambda>c. c \<noteq> CHR '':'') s, tl (dropWhile (\<lambda>c. c \<noteq> CHR '':'') s)) else None)"

definition basic_credentials :: "access_env \<Rightarrow> http_request \<Rightarrow> (string \<times> string) option" where
  "basic_credentials env r =
     Option.bind (header_str r ''authorization'') (\<lambda>h.
     Option.bind (strip_prefix ''Basic '' h) (\<lambda>b.
     Option.bind (base64_decode env b) split_credentials))"

definition basic_auth_middleware :: "access_env \<Rightarrow> datastore \<Rightarrow> http_request \<Rightarrow> nat + http_request" where
  "basic_auth_middleware env ds r =
     (case basic_credentials env r of
        None \<Rightarrow> Inl UNAUTHORIZED
      | Some (username, password) \<Rightarrow>
          (case fst (get_user username ds) of
             Inl UserNotFound \<Rightarrow> Inl UNAUTHORIZED
           | Inl _ \<Rightarrow> Inl INTERNAL_SERVER_ERROR
           | Inr user \<Rightarrow>
               let password_valid = (case us_password_hash user of None \<Rightarrow> False | Some h \<Rightarrow> check_password_hash env password h)
               in if us_username user = Some username \<and> password_valid
                  then Inr (r\<lparr>hr_user := Some username\<rparr>) else Inl UNAUTHORIZED))"

record key_auth_config =
  ka_key :: string
  ka_skip_paths :: "string list"

definition key_auth_new :: "string \<Rightarrow> key_auth_config" where
  "key_auth_new key = \<lparr>ka_key = key, ka_skip_paths = [''GET /health'']\<rparr>"

definition request_key :: "http_request \<Rightarrow> string option" where
  "request_key r = (case header_str r ''x-api-key'' of
      Some k \<Rightarrow> Some k
    | None \<Rightarrow> Option.bind (hr_query r) (\<lambda>q. find_map (strip_prefix ''api_key='') (split_on CHR ''&'' q)))"

definition key_auth_middleware :: "key_auth_config \<Rightarrow> http_request \<Rightarrow> nat + http_request" where
  "key_auth_middleware cfg r =
     (let pat = hr_method r @ '' '' @ hr_path r
      in if list_ex (\<lambda>p. wildcard_match p pat) (ka_skip_paths cfg) then Inr r
         else if request_key r = Some (ka_key cfg) then Inr r else Inl UNAUTHORIZED)"

definition rate_limit_middleware :: "access_env \<Rightarrow> http_request \<Rightarrow> nat + http_request" where
  "rate_limit_middleware env r = (if ae_rate_ok env r then Inr r else Inl TOO_MANY_REQUESTS)"

definition body_limit_middleware :: "nat \<Rightarrow> http_request \<Rightarrow> nat + http_request" where
  "body_limit_middleware limit r =
     (let is_chunked = (case header_str r ''transfer-encoding'' of None \<Rightarrow> False
            | Some v \<Rightarrow> to_ascii_lowercase v = ''chunked'');
          content_length = Option.bind (header_str r ''content-length'') parse_usize
      in if is_chunked then Inl LENGTH_REQUIRED
         else case content_length of
             Some len \<Rightarrow> if len > limit then Inl PAYLOAD_TOO_LARGE else Inr r
           | None \<Rightarrow> Inr r)"

text \<open>\<open>checked_mul\<close> on \<open>usize\<close>.\<close>

definition checked_usize :: "nat \<Rightarrow> nat option" where
  "checked_usize n = (if n < 2 ^ 64 then Some n else None)"

definition strip_unit :: "string \<Rightarrow> (string \<times> nat) option" where
  "strip_unit s =
     (if s = [] then None
      else if last s = CHR ''K'' then Some (butlast s, 1024)
      else if last s = CHR ''M'' then Some (butlast s, 1024 * 1024)
      else if last s = CHR ''G'' then Some (butlast s, 1024 * 1024 * 1024)
      else None)"

definition parse_body_limit :: "string \<Rightarrow> nat option" where
  "parse_body_limit s =
     (let s = trim s
      in if s = [] then None
         else case strip_unit s of
             None \<Rightarrow> parse_usize s
           | Some (num_str, multiplier) \<Rightarrow> Option.bind (parse_usize num_str) (\<lambda>num. checked_usize (num * multiplier)))"

section \<open>The router\<close>

datatype layer = L_BasicAuth | L_KeyAuth | L_HttpLog | L_BodyLimit | L_RateLimit | L_SecurityHeaders | L_Cors

text \<open>\<open>Router::route\<close> with the methods of a path, and \<open>Router::layer\<close>.\<close>

datatype router_op = Route string "string list" | Layer layer

record api_config =
  ac_address :: string
  ac_enabled :: "(string \<times> bool) list"
  ac_basic_auth :: bool
  ac_key_auth :: "key_auth_config option"
  ac_rate_limit :: "(u32 \<times> u32) option"
  ac_body_limit :: "nat option"
  ac_http_log :: "(string \<times> string list) option"

definition route_enabled :: "(string \<times> bool) list \<Rightarrow> string \<Rightarrow> bool" where
  "route_enabled enabled key = (case map_of enabled key of Some b \<Rightarrow> b | None \<Rightarrow> True)"

definition mount_system_routes :: "(string \<times> bool) list \<Rightarrow> router_op list" where
  "mount_system_routes enabled =
     (if route_enabled enabled ''health'' then [Route ''/health'' [''GET'']] else []) @
     (if route_enabled enabled ''nodes'' then [Route ''/nodes'' [''GET''], Route ''/nodes/{id}'' [''GET'']] else []) @
     (if route_enabled enabled ''metrics'' then [Route ''/metrics'' [''GET'']] else []) @
     (if route_enabled enabled ''users'' then [Route ''/users'' [''POST'']] else [])"

definition mount_task_routes :: "(string \<times> bool) list \<Rightarrow> router_op list" where
  "mount_task_routes enabled =
     (if route_enabled enabled ''tasks'' then [Route ''/tasks/{id}'' [''GET''], Route ''/tasks/{id}/log'' [''GET'']] else [])"

definition mount_job_routes :: "(string \<times> bool) list \<Rightarrow> router_op list" where
  "mount_job_routes enabled =
     (if \<not> route_enabled enabled ''jobs'' then []
      else [Route ''/jobs'' [''POST'', ''GET''], Route ''/jobs/{id}'' [''GET'', ''DELETE''],
        Route ''/jobs/{id}/log'' [''GET''], Route ''/jobs/{id}/cancel'' [''PUT'', ''POST''],
        Route ''/jobs/{id}/restart'' [''PUT''], Route ''/scheduled-jobs'' [''POST'', ''GET''],
        Route ''/scheduled-jobs/{id}'' [''GET''], Route ''/scheduled-jobs/{id}/pause'' [''PUT''],
        Route ''/scheduled-jobs/{id}/resume'' [''PUT''], Route ''/scheduled-jobs/{id}'' [''DELETE'']])"

definition mount_queue_routes :: "(string \<times> bool) list \<Rightarrow> router_op list" where
  "mount_queue_routes enabled =
     (if route_enabled enabled ''queues'' then [Route ''/queues'' [''GET''], Route ''/queues/{name}'' [''GET'', ''DELETE'']] else [])"

definition mount_trigger_routes :: "router_op list" where
  "mount_trigger_routes = [Route ''/triggers'' [''GET'', ''POST''], Route ''/triggers/{id}'' [''GET'', ''PUT'', ''DELETE'']]"

text \<open>The calls \<open>create_router\<close> makes on an empty router, in order; \<open>cors\<close> is \<open>middleware.web.cors.enabled\<close>.\<close>

definition create_router :: "bool \<Rightarrow> api_config \<Rightarrow> router_op list" where
  "create_router cors cfg =
     (if ac_basic_auth cfg then [Layer L_BasicAuth] else []) @
     (if ac_key_auth cfg \<noteq> None then [Layer L_KeyAuth] else []) @
     (if ac_http_log cfg \<noteq> None then [Layer L_HttpLog] else []) @
     mount_system_routes (ac_enabled cfg) @ mount_task_routes (ac_enabled cfg) @ mount_job_routes (ac_enabled cfg) @
     mount_queue_routes (ac_enabled cfg) @ mount_trigger_routes @ [Route ''/openapi.json'' [''GET'']] @
     (if ac_body_limit cfg \<noteq> None then [Layer L_BodyLimit] else []) @
     (if ac_rate_limit cfg \<noteq> None then [Layer L_RateLimit] else []) @
     [Layer L_SecurityHeaders] @ (if cors then [Layer L_Cors] else [])"

section \<open>Configuration of the server\<close>

definition to_u32 :: "i64 \<Rightarrow> u32" where
  "to_u32 v = word_of_int (sint v)"

definition read_api_config :: "config_state option \<Rightarrow> api_config" where
  "read_api_config cfg =
     \<lparr>ac_address = string_default cfg ''coordinator.address'' ''0.0.0.0:8000'',
      ac_enabled = map (\<lambda>(k, v). (str_replace ''endpoints.'' [] k, v)) (bool_map cfg ''coordinator.api.endpoints''),
      ac_basic_auth = False,
      ac_key_auth = (if conf_bool cfg ''middleware.web.keyauth.enabled''
        then Some (key_auth_new (string_default cfg ''middleware.web.keyauth.key'' [])) else None),
      ac_rate_limit = (if conf_bool cfg ''middleware.web.ratelimit.enabled''
        then Some (to_u32 (int_default cfg ''middleware.web.ratelimit.rps'' 20),
          to_u32 (int_default cfg ''middleware.web.ratelimit.burst'' 5)) else None),
      ac_body_limit = parse_usize (string_default cfg ''middleware.web.bodylimit'' ''500K''),
      ac_http_log = (if bool_default cfg ''middleware.web.logger.enabled'' True
        then Some (string_default cfg ''middleware.web.logger.level'' ''DEBUG'',
          strings_default cfg ''middleware.web.logger.skip'' [''GET /health'']) else None)\<rparr>"

section \<open>Requests through the layers\<close>

definition apply_layer :: "access_env \<Rightarrow> datastore \<Rightarrow> api_config \<Rightarrow> layer \<Rightarrow> http_request \<Rightarrow> nat + http_request" where
  "apply_layer env ds cfg l r =
     (case l of
        L_BasicAuth \<Rightarrow> basic_auth_middleware env ds r
      | L_KeyAuth \<Rightarrow> (case ac_key_auth cfg of None \<Rightarrow> Inr r | Some k \<Rightarrow> key_auth_middleware k r)
      | L_BodyLimit \<Rightarrow> (case ac_body_limit cfg of None \<Rightarrow> Inr r | Some n \<Rightarrow> body_limit_middleware n r)
      | L_RateLimit \<Rightarrow> rate_limit_middleware env r
      | L_Cors \<Rightarrow> (case ae_cors env r of Some status \<Rightarrow> Inl status | None \<Rightarrow> Inr r)
      | L_HttpLog \<Rightarrow> Inr r
      | L_SecurityHeaders \<Rightarrow> Inr r)"

text \<open>The layers of a route from the outermost in.\<close>

fun through :: "access_env \<Rightarrow> datastore \<Rightarrow> api_config \<Rightarrow> layer list \<Rightarrow> http_request \<Rightarrow> nat + http_request" where
  "through env ds cfg [] r = Inr r"
| "through env ds cfg (l # ls) r = res_bind (apply_layer env ds cfg l r) (through env ds cfg ls)"

text \<open>
  What axum documents: \<open>route\<close> adds a route without layers, \<open>layer\<close> wraps the routes there are, not those that
  are added later; the last layer is the outermost. \<open>layers_of ops path method\<close> are the layers around a route, the
  outermost first, of the router made by the calls \<open>ops\<close>.
\<close>

definition axum_router :: "(router_op list \<Rightarrow> string \<Rightarrow> string \<Rightarrow> layer list option) \<Rightarrow> bool" where
  "axum_router layers_of \<longleftrightarrow>
     (\<forall>p me. layers_of [] p me = None) \<and>
     (\<forall>ops q ms p me. layers_of (ops @ [Route q ms]) p me =
        (if p = q \<and> me \<in> set ms \<and> layers_of ops p me = None then Some [] else layers_of ops p me)) \<and>
     (\<forall>ops l p me. layers_of (ops @ [Layer l]) p me = map_option (Cons l) (layers_of ops p me))"

section \<open>Every route is open\<close>

fun axum_step :: "string \<Rightarrow> string \<Rightarrow> layer list option \<Rightarrow> router_op \<Rightarrow> layer list option" where
  "axum_step p me acc (Route q ms) = (if p = q \<and> me \<in> set ms \<and> acc = None then Some [] else acc)"
| "axum_step p me acc (Layer l) = map_option (Cons l) acc"

definition axum_run :: "router_op list \<Rightarrow> string \<Rightarrow> string \<Rightarrow> layer list option" where
  "axum_run ops p me = foldl (axum_step p me) None ops"

lemma axum_run_snoc: "axum_run [] p me = None" "axum_run (ops @ [op]) p me = axum_step p me (axum_run ops p me) op"
  by (simp_all add: axum_run_def)

lemma axum_run_router: "axum_router axum_run"
  unfolding axum_router_def by (simp add: axum_run_snoc)

lemma axum_unique:
  assumes "axum_router layers_of" shows "layers_of ops p me = axum_run ops p me"
proof (induction ops rule: rev_induct)
  case Nil
  then show ?case using assms by (simp add: axum_router_def axum_run_snoc)
next
  case (snoc op ops)
  have route: "layers_of (ops @ [Route q ms]) p me = (if p = q \<and> me \<in> set ms \<and> layers_of ops p me = None then Some [] else layers_of ops p me)"
    and layer: "layers_of (ops @ [Layer l]) p me = map_option (Cons l) (layers_of ops p me)" for q ms l
    using assms unfolding axum_router_def by blast+
  show ?case by (cases op) (simp_all only: route layer axum_run_snoc axum_step.simps snoc)
qed

definition is_layer :: "router_op \<Rightarrow> bool" where
  "is_layer op \<longleftrightarrow> (case op of Layer _ \<Rightarrow> True | Route _ _ \<Rightarrow> False)"

lemma fold_layers_None: "list_all is_layer ops \<Longrightarrow> foldl (axum_step p me) None ops = None"
proof (induction ops)
  case (Cons op ops)
  then show ?case by (cases op) (simp_all add: is_layer_def)
qed simp

lemma fold_routes: "list_all (\<lambda>op. \<not> is_layer op) ops \<Longrightarrow> foldl (axum_step p me) acc ops = Some ls \<Longrightarrow> acc = Some ls \<or> acc = None \<and> ls = []"
proof (induction ops arbitrary: acc)
  case (Cons op ops)
  show ?case
  proof (cases op)
    case (Route q ms)
    then show ?thesis using Cons.prems Cons.IH [of "axum_step p me acc op"] by (auto split: if_splits)
  qed (use Cons.prems in \<open>simp add: is_layer_def\<close>)
qed simp

lemma fold_layers_Some: "foldl (axum_step p me) acc (map Layer ls) = map_option (\<lambda>x. rev ls @ x) acc"
proof (induction ls arbitrary: acc)
  case (Cons l ls)
  then show ?case by (cases acc) simp_all
next
  case Nil
  then show ?case by (cases acc) simp_all
qed

definition outer_layers :: "bool \<Rightarrow> api_config \<Rightarrow> layer list" where
  "outer_layers cors cfg =
     (if cors then [L_Cors] else []) @ [L_SecurityHeaders] @ (if ac_rate_limit cfg \<noteq> None then [L_RateLimit] else []) @
     (if ac_body_limit cfg \<noteq> None then [L_BodyLimit] else [])"

lemma router_layers:
  assumes "axum_router layers_of" "layers_of (create_router cors cfg) p me = Some ls"
  shows "ls = outer_layers cors cfg"
proof -
  let ?pre = "(if ac_basic_auth cfg then [Layer L_BasicAuth] else []) @ (if ac_key_auth cfg \<noteq> None then [Layer L_KeyAuth] else []) @
     (if ac_http_log cfg \<noteq> None then [Layer L_HttpLog] else [])"
  let ?mid = "mount_system_routes (ac_enabled cfg) @ mount_task_routes (ac_enabled cfg) @ mount_job_routes (ac_enabled cfg) @
     mount_queue_routes (ac_enabled cfg) @ mount_trigger_routes @ [Route ''/openapi.json'' [''GET'']]"
  have r: "create_router cors cfg = ?pre @ ?mid @ map Layer (rev (outer_layers cors cfg))"
    by (simp add: create_router_def outer_layers_def)
  have "list_all is_layer ?pre" by (simp add: is_layer_def)
  moreover have "list_all (\<lambda>op. \<not> is_layer op) ?mid"
    by (simp add: mount_system_routes_def mount_task_routes_def mount_job_routes_def mount_queue_routes_def
        mount_trigger_routes_def is_layer_def)
  moreover have "axum_run (create_router cors cfg) p me = Some ls" using assms axum_unique by metis
  then have "foldl (axum_step p me) (foldl (axum_step p me) (foldl (axum_step p me) None ?pre) ?mid) (map Layer (rev (outer_layers cors cfg))) = Some ls"
    unfolding r axum_run_def foldl_append .
  ultimately obtain x where "foldl (axum_step p me) None ?mid = Some x" "ls = rev (rev (outer_layers cors cfg)) @ x"
    unfolding fold_layers_Some by (auto simp: fold_layers_None simp del: foldl_append)
  moreover from this have "x = []" using fold_routes [OF \<open>list_all (\<lambda>op. \<not> is_layer op) ?mid\<close>] by fastforce
  ultimately show ?thesis by simp
qed

definition within_limit :: "nat \<Rightarrow> http_request \<Rightarrow> bool" where
  "within_limit n r \<longleftrightarrow>
     (\<forall>v. header_str r ''transfer-encoding'' = Some v \<longrightarrow> to_ascii_lowercase v \<noteq> ''chunked'') \<and>
     (\<forall>len. Option.bind (header_str r ''content-length'') parse_usize = Some len \<longrightarrow> len \<le> n)"

lemma body_limit_spec: "body_limit_middleware n r = Inr r' \<longleftrightarrow> r' = r \<and> within_limit n r"
  by (cases "header_str r ''transfer-encoding''"; cases "Option.bind (header_str r ''content-length'') parse_usize")
    (auto simp: body_limit_middleware_def within_limit_def Let_def)

lemma passes:
  "apply_layer env ds cfg L_SecurityHeaders r = Inr r' \<longleftrightarrow> r' = r"
  "apply_layer env ds cfg L_Cors r = Inr r' \<longleftrightarrow> r' = r \<and> ae_cors env r = None"
  "apply_layer env ds cfg L_RateLimit r = Inr r' \<longleftrightarrow> r' = r \<and> ae_rate_ok env r"
  "apply_layer env ds cfg L_BodyLimit r = Inr r' \<longleftrightarrow> r' = r \<and> (\<forall>n. ac_body_limit cfg = Some n \<longrightarrow> within_limit n r)"
  by (auto simp: apply_layer_def rate_limit_middleware_def body_limit_spec split: option.splits)

text \<open>C2. Whatever is configured, no route of the API is behind the basic authentication, the key authentication or
  the request log: a request to a route is handled, as it came and without a user, whenever CORS, the rate limit
  and the body limit let it pass.\<close>

theorem api_is_open:
  assumes "axum_router layers_of" "layers_of (create_router cors cfg) p me = Some ls"
  shows "L_BasicAuth \<notin> set ls \<and> L_KeyAuth \<notin> set ls \<and> L_HttpLog \<notin> set ls \<and>
    (through env ds cfg ls r = Inr r' \<longleftrightarrow> r' = r \<and>
      (cors \<longrightarrow> ae_cors env r = None) \<and> (ac_rate_limit cfg \<noteq> None \<longrightarrow> ae_rate_ok env r) \<and>
      (\<forall>n. ac_body_limit cfg = Some n \<longrightarrow> within_limit n r))"
proof -
  have "through env ds cfg (outer_layers cors cfg) r = Inr r' \<longleftrightarrow> r' = r \<and>
      (cors \<longrightarrow> ae_cors env r = None) \<and> (ac_rate_limit cfg \<noteq> None \<longrightarrow> ae_rate_ok env r) \<and>
      (\<forall>n. ac_body_limit cfg = Some n \<longrightarrow> within_limit n r)"
    by (auto simp: outer_layers_def passes res_bind_Inr)
  then show ?thesis unfolding router_layers [OF assms] by (simp add: outer_layers_def)
qed

text \<open>A configuration with every protection switched on, and a request that creates a user without credentials.\<close>

definition demo_access :: access_env where
  "demo_access = \<lparr>ae_base64 = (\<lambda>_. None), ae_bcrypt_verify = (\<lambda>_ _. None), ae_rate_ok = (\<lambda>_. True), ae_cors = (\<lambda>_. None)\<rparr>"

definition demo_api :: api_config where
  "demo_api = \<lparr>ac_address = ''0.0.0.0:8000'', ac_enabled = [], ac_basic_auth = True, ac_key_auth = Some (key_auth_new ''k''),
     ac_rate_limit = None, ac_body_limit = None, ac_http_log = None\<rparr>"

definition demo_request :: http_request where
  "demo_request = \<lparr>hr_method = ''POST'', hr_path = ''/users'', hr_query = None, hr_headers = [], hr_user = None\<rparr>"

theorem api_is_open_witness:
  "\<exists>ls. axum_run (create_router False demo_api) ''/users'' ''POST'' = Some ls \<and>
    through demo_access new_datastore demo_api ls demo_request = Inr demo_request \<and>
    basic_auth_middleware demo_access new_datastore demo_request = Inl UNAUTHORIZED"
proof -
  have run: "axum_run (create_router False demo_api) ''/users'' ''POST'' = Some [L_SecurityHeaders]" by code_simp
  have "basic_auth_middleware demo_access new_datastore demo_request = Inl UNAUTHORIZED"
    by (simp add: basic_auth_middleware_def basic_credentials_def header_str_def demo_request_def)
  with api_is_open [OF axum_run_router run, of demo_access new_datastore demo_request demo_request] run
  show ?thesis by (auto simp: demo_api_def)
qed

section \<open>What the middleware would check\<close>

text \<open>
  Basic authentication passes a request exactly when it has well-formed credentials of a stored user whose name
  is the one given and whose hash verifies, and then it adds the name.
\<close>

theorem basic_auth_spec:
  "basic_auth_middleware env ds r = Inr r' \<longleftrightarrow>
    (\<exists>username password user h. basic_credentials env r = Some (username, password) \<and>
      map_of (ds_users ds) username = Some user \<and> us_username user = Some username \<and> us_password_hash user = Some h \<and>
      ae_bcrypt_verify env password h = Some True \<and> r' = r\<lparr>hr_user := Some username\<rparr>)"
  by (auto simp: basic_auth_middleware_def get_user_def eff_simps ok_or_def check_password_hash_def Let_def
      split: option.splits prod.splits if_splits)

text \<open>Key authentication passes a request exactly when a skipped path matches or the key is given.\<close>

theorem key_auth_spec:
  "key_auth_middleware cfg r = Inr r' \<longleftrightarrow> r' = r \<and>
    ((\<exists>p \<in> set (ka_skip_paths cfg). wildcard_match p (hr_method r @ '' '' @ hr_path r)) \<or> request_key r = Some (ka_key cfg))"
  by (auto simp: key_auth_middleware_def list_ex_iff Let_def)

text \<open>If key authentication is enabled without a key, the empty key is accepted.\<close>

theorem empty_key_accepted:
  assumes "conf_bool cfg ''middleware.web.keyauth.enabled''" "conf_string cfg ''middleware.web.keyauth.key'' = []"
  shows "\<exists>k. ac_key_auth (read_api_config cfg) = Some k \<and> (hr_query r = Some ''api_key='' \<longrightarrow>
    header_str r ''x-api-key'' = None \<longrightarrow> key_auth_middleware k r = Inr r)"
  using assms by (auto simp: read_api_config_def string_default_def key_auth_spec key_auth_new_def request_key_def strip_prefix_def)

text \<open>
  The body limit: \<open>parse_body_limit\<close> reads \<open>500K\<close> as 512000 bytes, but the server reads the setting as a plain
  number, so with the default, and with every size that has a unit, there is no limit.
\<close>

lemma parse_usize_unit: "s \<noteq> [] \<Longrightarrow> \<not> is_digit (last s) \<Longrightarrow> parse_usize s = None"
proof -
  assume s: "s \<noteq> []" "\<not> is_digit (last s)"
  have "(case s of CHR ''+'' # t \<Rightarrow> t | _ \<Rightarrow> s) = (if hd s = CHR ''+'' then tl s else s)"
    using s(1) by (cases s) (auto split: char.split bool.split)
  moreover have nd: "\<not> (t \<noteq> [] \<and> list_all is_digit t)" if "t = s \<or> t = tl s" for t
  proof
    assume t: "t \<noteq> [] \<and> list_all is_digit t"
    with that have "last t = last s" using last_tl [of s] by auto
    with t s last_in_set [of t] show False by (auto simp: list_all_iff)
  qed
  ultimately show ?thesis using nd [of s] nd [of "tl s"] by (auto simp: parse_usize_def Let_def)
qed

lemma parse_body_limit_unit:
  assumes "n * m < 2 ^ 64" "n < 2 ^ 64" "(c, m) \<in> {(CHR ''K'', 1024), (CHR ''M'', 1024 * 1024), (CHR ''G'', 1024 * 1024 * 1024)}"
  shows "parse_body_limit (show_nat n @ [c]) = Some (n * m)"
proof -
  have "show_nat n \<noteq> []" "is_digit (hd (show_nat n))" using show_nat_digits [of n] by (auto simp: list_all_iff)
  then have t: "trim (show_nat n @ [c]) = show_nat n @ [c]"
    using assms(3) digit_visible by (intro trim_visible) (auto simp: visible_def)
  show ?thesis
    using assms(1,3) t parse_usize_show [OF assms(2)]
    by (auto simp: parse_body_limit_def strip_unit_def checked_usize_def)
qed

text \<open>A size with a unit K, M or G is a body limit to \<open>parse_body_limit\<close> but none to the server that is started.\<close>

theorem body_limit_dropped:
  assumes "conf_string cfg ''middleware.web.bodylimit'' = show_nat n @ [c]"
    and "(c, m) \<in> {(CHR ''K'', 1024), (CHR ''M'', 1024 * 1024), (CHR ''G'', 1024 * 1024 * 1024)}" "n * m < 2 ^ 64" "n < 2 ^ 64"
  shows "parse_body_limit (conf_string cfg ''middleware.web.bodylimit'') = Some (n * m) \<and>
    ac_body_limit (read_api_config cfg) = None"
proof -
  have "\<not> is_digit c" using assms(2) by (auto simp: is_digit_def less_eq_char_def)
  then have "parse_usize (show_nat n @ [c]) = None" by (intro parse_usize_unit) simp_all
  then show ?thesis
    using assms(1) parse_body_limit_unit [OF assms(3,4,2)] by (simp add: read_api_config_def string_default_def Let_def)
qed

theorem default_body_limit_dropped: "ac_body_limit (read_api_config None) = None"
  by (simp add: read_api_config_def string_default_def conf_string_def parse_usize_unit is_digit_def less_eq_char_def)

end
