(* ===== verification/Web_Requests.thy ===== *)
theory Web_Requests
  imports Coordinator Trigger_Api Validation Redact Config
begin

text \<open>
  What the API reads from a request and answers (\<open>twerk-web/src/api\<close>): errors and their statuses, page numbers
  and sizes, user names and passwords, sanitized text, the limits of a YAML body, and the small types of
  \<open>domain/api.rs\<close>. The decoding of JSON and YAML, the Unicode classes and bcrypt are arguments.
\<close>

section \<open>Errors\<close>

datatype api_error = AE_BadRequest string | AE_NotFound string | AE_Internal string

definition INTERNAL_ERROR_MSG :: string where "INTERNAL_ERROR_MSG = ''Internal Server Error''"

text \<open>Status and message; the text of an internal error is only logged.\<close>

fun api_error_response :: "api_error \<Rightarrow> nat \<times> string" where
  "api_error_response (AE_BadRequest m) = (400, m)"
| "api_error_response (AE_NotFound m) = (404, m)"
| "api_error_response (AE_Internal m) = (500, INTERNAL_ERROR_MSG)"

fun api_error_from_ds :: "ds_error \<Rightarrow> api_error" where
  "api_error_from_ds UserNotFound = AE_NotFound ''user not found''"
| "api_error_from_ds JobNotFound = AE_NotFound ''job not found''"
| "api_error_from_ds TaskNotFound = AE_NotFound ''task not found''"
| "api_error_from_ds ScheduledJobNotFound = AE_NotFound ''scheduled job not found''"
| "api_error_from_ds NodeNotFound = AE_NotFound ''node not found''"
| "api_error_from_ds RoleNotFound = AE_NotFound ''role not found''"
| "api_error_from_ds ContextNotFound = AE_NotFound ''context not found''"
| "api_error_from_ds e = AE_Internal (ds_error_display e)"

definition api_error_from_id :: "id_error \<Rightarrow> api_error" where
  "api_error_from_id e = AE_BadRequest (id_error_display e)"

fun api_error_from_trigger :: "trigger_update_error \<Rightarrow> api_error" where
  "api_error_from_trigger (TU_IdMismatch p b) = AE_BadRequest ''id mismatch''"
| "api_error_from_trigger (TU_TriggerNotFound m) = AE_NotFound m"
| "api_error_from_trigger (TU_Persistence m) = AE_Internal m"
| "api_error_from_trigger (TU_Serialization m) = AE_Internal m"
| "api_error_from_trigger (TU_InvalidIdFormat m) = AE_BadRequest m"
| "api_error_from_trigger (TU_UnsupportedContentType m) = AE_BadRequest m"
| "api_error_from_trigger (TU_MalformedJson m) = AE_BadRequest m"
| "api_error_from_trigger (TU_ValidationFailed m) = AE_BadRequest m"
| "api_error_from_trigger (TU_VersionConflict m) = AE_BadRequest m"

section \<open>Pages\<close>

datatype page_error = PE_TooSmall

definition page_new :: "u64 \<Rightarrow> page_error + u64" where
  "page_new n = (if n < 1 then Inl PE_TooSmall else Inr n)"

definition page_try_from :: "i64 \<Rightarrow> page_error + u64" where
  "page_try_from v = (if sint v < 1 then Inl PE_TooSmall else Inr (word_of_int (sint v)))"

datatype page_size_error = PZ_TooSmall | PZ_TooLarge u64 u64

definition MAX_VALUE :: u64 where "MAX_VALUE = 100"

definition page_size_new :: "u64 \<Rightarrow> page_size_error + u64" where
  "page_size_new n = (if n < 1 then Inl PZ_TooSmall else if n > MAX_VALUE then Inl (PZ_TooLarge n MAX_VALUE) else Inr n)"

definition page_size_or_default :: "u64 option \<Rightarrow> u64" where
  "page_size_or_default n = (case n of None \<Rightarrow> 10 | Some v \<Rightarrow> (case page_size_new v of Inl _ \<Rightarrow> 10 | Inr w \<Rightarrow> w))"

definition page_size_try_from :: "i64 \<Rightarrow> page_size_error + u64" where
  "page_size_try_from v =
     (if sint v < 1 then Inl PZ_TooSmall
      else let n = word_of_int (sint v) :: u64
           in if n > MAX_VALUE then Inl (PZ_TooLarge n MAX_VALUE) else Inr n)"

fun page_size_error_display :: "page_size_error \<Rightarrow> string" where
  "page_size_error_display PZ_TooSmall = ''page size must be at least 1''"
| "page_size_error_display (PZ_TooLarge n m) =
     ''page size '' @ show_nat (unat n) @ '' exceeds maximum allowed ('' @ show_nat (unat m) @ '')''"

definition parse_integer_param :: "string \<Rightarrow> string \<Rightarrow> api_error + i64" where
  "parse_integer_param raw field_name = ok_or (parse_i64 raw) (AE_BadRequest (field_name @ '' must be a positive integer''))"

definition parse_page :: "string option \<Rightarrow> api_error + i64" where
  "parse_page raw = (case raw of None \<Rightarrow> Inr 1
     | Some v \<Rightarrow> res_bind (parse_integer_param v ''page'') (\<lambda>parsed.
         map_err (\<lambda>_. AE_BadRequest ''page number must be at least 1'')
           (res_bind (page_try_from parsed) (\<lambda>p. Inr (word_of_int (sint p))))))"

definition parse_size :: "string option \<Rightarrow> i64 \<Rightarrow> i64 \<Rightarrow> api_error + i64" where
  "parse_size raw dflt mx = (case raw of None \<Rightarrow> Inr dflt
     | Some v \<Rightarrow> res_bind (parse_integer_param v ''size'') (\<lambda>parsed.
         if sint mx < sint parsed
         then Inl (AE_BadRequest (''page size '' @ show_int (sint parsed) @ '' exceeds maximum allowed ('' @ show_int (sint mx) @ '')''))
         else map_err (\<lambda>e. AE_BadRequest (page_size_error_display e))
           (res_bind (page_size_try_from parsed) (\<lambda>p. Inr (word_of_int (sint p))))))"

record pagination_query =
  pq_page :: "string option"
  pq_size :: "string option"
  pq_q :: "string option"

section \<open>Users\<close>

text \<open>\<open>we_alphabetic\<close> and \<open>we_alphanumeric\<close> are the classes of Unicode; \<open>we_decode_*\<close> are the derived deserializers
  over \<open>serde_json\<close> and \<open>serde_saphyr\<close>; \<open>we_bcrypt\<close> hashes.\<close>

record web_env =
  we_alphabetic :: "string \<Rightarrow> bool"
  we_alphanumeric :: "string \<Rightarrow> bool"
  we_bcrypt :: "string \<Rightarrow> string + string"
  we_job_json :: "string \<Rightarrow> string + job"
  we_job_yaml :: "string \<Rightarrow> string + job"
  we_utf8 :: "string \<Rightarrow> string option"
  we_domain :: domain_env
  we_to_value :: "scheduled_job \<Rightarrow> string + json"

datatype username_error = UE_Empty | UE_LengthOutOfRange | UE_InvalidCharacter

definition username_new :: "web_env \<Rightarrow> string \<Rightarrow> username_error + string" where
  "username_new env s =
     (if s = [] then Inl UE_Empty
      else if \<not> (3 \<le> length s \<and> length s \<le> 64) then Inl UE_LengthOutOfRange
      else case utf8_chars s of
          [] \<Rightarrow> Inl UE_Empty
        | first # chars \<Rightarrow>
            if \<not> we_alphabetic env first then Inl UE_InvalidCharacter
            else if list_ex (\<lambda>c. \<not> we_alphanumeric env c \<and> c \<noteq> ''_'' \<and> c \<noteq> ''-'') chars then Inl UE_InvalidCharacter
            else Inr s)"

datatype password_error = PW_Empty | PW_TooShort

definition password_new :: "string \<Rightarrow> password_error + string" where
  "password_new s = (if s = [] then Inl PW_Empty else if length s < 8 then Inl PW_TooShort else Inr s)"

fun username_error_to_string :: "username_error \<Rightarrow> string" where
  "username_error_to_string UE_Empty = ''username cannot be empty''"
| "username_error_to_string UE_LengthOutOfRange = ''username must be 3-64 characters''"
| "username_error_to_string UE_InvalidCharacter =
     ''username must start with a letter and contain only alphanumeric characters, underscores, or hyphens''"

fun password_error_to_string :: "password_error \<Rightarrow> string" where
  "password_error_to_string PW_Empty = ''password cannot be empty''"
| "password_error_to_string PW_TooShort = ''password must be at least 8 characters''"

section \<open>Text\<close>

definition sanitize_char :: "char \<Rightarrow> string" where
  "sanitize_char c =
     (if c = CHR ''&'' then ''&amp;''
      else if c = CHR ''<'' then ''&lt;''
      else if c = CHR ''>'' then ''&gt;''
      else if c = CHR 0x22 then ''&quot;''
      else if c = CHR 0x27 then ''&#x27;''
      else [c])"

definition sanitize_text :: "string \<Rightarrow> string" where
  "sanitize_text s = concat (map sanitize_char s)"

definition sanitize_option :: "string option \<Rightarrow> string option" where
  "sanitize_option s = map_option sanitize_text s"

text \<open>The checks before a YAML body is parsed.\<close>

definition MAX_YAML_BODY_SIZE :: nat where "MAX_YAML_BODY_SIZE = 512 * 1024"

definition validate_yaml_input :: "string \<Rightarrow> api_error + unit" where
  "validate_yaml_input bytes =
     (if bytes = [] then Inl (AE_BadRequest ''YAML body is empty'')
      else if length bytes > MAX_YAML_BODY_SIZE then Inl (AE_BadRequest ''YAML body exceeds size limit'')
      else if CHR 0x00 \<in> set bytes then Inl (AE_BadRequest ''YAML parse error'')
      else Inr ())"

definition yaml_from_slice :: "web_env \<Rightarrow> (string \<Rightarrow> string + 'a) \<Rightarrow> string \<Rightarrow> api_error + 'a" where
  "yaml_from_slice env decode bytes =
     res_bind (validate_yaml_input bytes) (\<lambda>_.
       case we_utf8 env bytes of
         Some e \<Rightarrow> Inl (AE_BadRequest (''invalid UTF-8 in YAML body: '' @ e))
       | None \<Rightarrow> map_err (\<lambda>e. AE_BadRequest (''YAML parse error: '' @ e)) (decode bytes))"

section \<open>Types of the API\<close>

datatype server_address_error = SA_MissingSeparator | SA_InvalidPort | SA_EmptyHost

text \<open>\<open>rsplitn(2, ':')\<close>: the part after the last colon, then what is before it. \<open>parse::<u16>\<close>.\<close>

definition parse_u16 :: "string \<Rightarrow> nat option" where
  "parse_u16 s = Option.bind (parse_usize s) (\<lambda>n. if n < 2 ^ 16 then Some n else None)"

definition server_address_new :: "string \<Rightarrow> server_address_error + string" where
  "server_address_new s =
     (if s = [] then Inl SA_EmptyHost
      else if CHR '':'' \<notin> set s then Inl SA_MissingSeparator
      else let port_str = rev (takeWhile (\<lambda>c. c \<noteq> CHR '':'') (rev s));
               host = rev (tl (dropWhile (\<lambda>c. c \<noteq> CHR '':'') (rev s)))
           in if host = [] then Inl SA_EmptyHost
              else if parse_u16 port_str = None then Inl SA_InvalidPort
              else Inr s)"

datatype content_type = CY_Json | CY_Yaml | CY_Unknown string

definition content_type_from_header :: "(string \<Rightarrow> string) \<Rightarrow> string \<Rightarrow> content_type" where
  "content_type_from_header lower v =
     (let l = lower v
      in if l = ''application/json'' then CY_Json
         else if l = ''text/yaml'' \<or> l = ''application/x-yaml'' then CY_Yaml
         else CY_Unknown l)"

fun content_type_is_supported :: "content_type \<Rightarrow> bool" where
  "content_type_is_supported (CY_Unknown _) = False"
| "content_type_is_supported _ = True"

datatype api_feature = AF_Health | AF_Tasks | AF_Jobs | AF_Queues | AF_Nodes | AF_Metrics | AF_Users

definition from_str_opt :: "string \<Rightarrow> api_feature option" where
  "from_str_opt s =
     (let l = to_lowercase s
      in if l = ''health'' then Some AF_Health else if l = ''tasks'' then Some AF_Tasks
         else if l = ''jobs'' then Some AF_Jobs else if l = ''queues'' then Some AF_Queues
         else if l = ''nodes'' then Some AF_Nodes else if l = ''metrics'' then Some AF_Metrics
         else if l = ''users'' then Some AF_Users else None)"

definition default_enabled :: "api_feature \<Rightarrow> bool" where
  "default_enabled f = (f = AF_Health)"

definition feature_is_enabled :: "(api_feature \<times> bool) list \<Rightarrow> api_feature \<Rightarrow> bool" where
  "feature_is_enabled flags f = (case map_of flags f of None \<Rightarrow> default_enabled f | Some b \<Rightarrow> b)"

section \<open>Pages within bounds\<close>

text \<open>
  A page number is accepted exactly when it parses and is at least 1, a size when it is from 1 to the
  smaller of 100 and the maximum of the route; the value is passed on unchanged.
\<close>

theorem parse_page_spec:
  "parse_page (Some v) = Inr p \<longleftrightarrow> parse_i64 v = Some p \<and> 1 \<le> sint p"
  by (cases "parse_i64 v"; cases "sint (the (parse_i64 v)) < 1")
    (auto simp: parse_page_def parse_integer_param_def page_try_from_def)

theorem parse_size_spec:
  assumes "sint mx \<le> 100"
  shows "parse_size (Some v) dflt mx = Inr n \<longleftrightarrow> parse_i64 v = Some n \<and> 1 \<le> sint n \<and> sint n \<le> sint mx"
proof (cases "parse_i64 v")
  case (Some x)
  have "\<not> word_of_int (sint x) > MAX_VALUE" if "1 \<le> sint x" "sint x \<le> 100"
  proof -
    have "uint (word_of_int (sint x) :: u64) = sint x mod 2 ^ 64" by (simp only: uint_word_of_int) simp
    also have "\<dots> = sint x" using that by (intro mod_pos_pos_trivial) auto
    finally have "uint (word_of_int (sint x) :: u64) = sint x" .
    then show ?thesis using that by (simp only: word_less_def MAX_VALUE_def) simp
  qed
  then have "page_size_try_from x = Inr (word_of_int (sint x))" if "1 \<le> sint x" "sint x \<le> 100"
    using that by (simp add: page_size_try_from_def Let_def)
  moreover have "page_size_try_from x = Inl PZ_TooSmall" if "sint x < 1" using that by (simp add: page_size_try_from_def)
  ultimately show ?thesis
    using assms Some by (cases "sint x < 1"; cases "sint mx < sint x")
      (auto simp: parse_size_def parse_integer_param_def)
qed (simp add: parse_size_def parse_integer_param_def)

section \<open>Sanitized text\<close>

text \<open>What the five entities stand for.\<close>

definition entities :: "(string \<times> char) list" where
  "entities = [(''&amp;'', CHR ''&''), (''&lt;'', CHR ''<''), (''&gt;'', CHR ''>''), (''&quot;'', CHR 0x22), (''&#x27;'', CHR 0x27)]"

fun entity_at :: "(string \<times> char) list \<Rightarrow> string \<Rightarrow> (char \<times> string) option" where
  "entity_at [] s = None"
| "entity_at ((e, c) # es) s = (if prefix e s then Some (c, drop (length e) s) else entity_at es s)"

fun unescape :: "nat \<Rightarrow> string \<Rightarrow> string" where
  "unescape 0 s = []"
| "unescape (Suc n) [] = []"
| "unescape (Suc n) (c # cs) =
     (case entity_at entities (c # cs) of Some (x, rest) \<Rightarrow> x # unescape n rest | None \<Rightarrow> c # unescape n cs)"

lemma entity_sanitized: "entity_at entities (sanitize_char c @ s) = (if sanitize_char c = [c] then None else Some (c, s))"
  by (simp add: sanitize_char_def entities_def)

lemma suffix_of_append: "suffix (x # u) (a @ b) \<Longrightarrow> suffix (x # u) b \<or> (\<exists>v. u = v @ b \<and> suffix (x # v) a)"
proof (induction a)
  case (Cons c a)
  then show ?case by (auto simp: suffix_Cons)
qed simp

lemma ampersand_starts: "suffix (CHR ''&'' # v) (sanitize_char c) \<Longrightarrow> sanitize_char c = CHR ''&'' # v \<and> sanitize_char c \<noteq> [c]"
  by (auto simp: sanitize_char_def suffix_Cons split: if_splits)

lemma sanitized_ampersand:
  "suffix (CHR ''&'' # u) (sanitize_text s) \<Longrightarrow> entity_at entities (CHR ''&'' # u) \<noteq> None"
proof (induction s)
  case (Cons c s)
  have t: "sanitize_text (c # s) = sanitize_char c @ sanitize_text s" by (simp add: sanitize_text_def)
  from suffix_of_append [OF Cons.prems [unfolded t]] show ?case
  proof (elim disjE exE conjE)
    fix v assume u: "u = v @ sanitize_text s" and v: "suffix (CHR ''&'' # v) (sanitize_char c)"
    have e: "entity_at entities (sanitize_char c @ sanitize_text s) = Some (c, sanitize_text s)"
      using entity_sanitized [of c "sanitize_text s"] ampersand_starts [OF v, THEN conjunct2] by simp
    have "CHR ''&'' # u = sanitize_char c @ sanitize_text s" using ampersand_starts [OF v, THEN conjunct1] u by simp
    then show ?thesis using e by simp
  qed (rule Cons.IH)
qed (simp add: sanitize_text_def)

text \<open>C40. Sanitized text has none of the four characters less-than, greater-than, quote and apostrophe; an ampersand is
  in it only as the first character of one of the five entities; and it can be read back: replacing the entities, from
  the left, gives the text.\<close>

theorem sanitize_roundtrip:
  "unescape (length (sanitize_text s)) (sanitize_text s) = s \<and>
   set (sanitize_text s) \<inter> {CHR ''<'', CHR ''>'', CHR 0x22, CHR 0x27} = {} \<and>
   {CHR ''&'' # u |u. suffix (CHR ''&'' # u) (sanitize_text s)} \<subseteq> {t. entity_at entities t \<noteq> None}"
proof (intro conjI)
  have len: "sanitize_char c \<noteq> []" for c by (simp add: sanitize_char_def)
  have "length (sanitize_text s) \<le> n \<Longrightarrow> unescape n (sanitize_text s) = s" for n
  proof (induction s arbitrary: n)
    case Nil
    then show ?case by (cases n) (simp_all add: sanitize_text_def)
  next
    case (Cons c s)
    obtain d ds where d: "sanitize_char c = d # ds" using len [of c] by (cases "sanitize_char c") auto
    have t: "sanitize_text (c # s) = d # ds @ sanitize_text s" by (simp add: sanitize_text_def d)
    obtain m where n: "n = Suc m" "length (sanitize_text s) \<le> m" using Cons.prems t by (cases n) auto
    have e: "entity_at entities (d # ds @ sanitize_text s) = (if d # ds = [c] then None else Some (c, sanitize_text s))"
      using entity_sanitized [of c "sanitize_text s"] d by simp
    show ?case using e Cons.IH [OF n(2)] by (auto simp: t n(1))
  qed
  then show "unescape (length (sanitize_text s)) (sanitize_text s) = s" by simp
  have "set (sanitize_char c) \<inter> {CHR ''<'', CHR ''>'', CHR 0x22, CHR 0x27} = {}" for c
    by (simp add: sanitize_char_def)
  then show "set (sanitize_text s) \<inter> {CHR ''<'', CHR ''>'', CHR 0x22, CHR 0x27} = {}"
    by (fastforce simp: sanitize_text_def)
  show "{CHR ''&'' # u |u. suffix (CHR ''&'' # u) (sanitize_text s)} \<subseteq> {t. entity_at entities t \<noteq> None}"
    using sanitized_ampersand by blast
qed

end
