(* ===== verification/Web_Jobs.thy ===== *)
theory Web_Jobs
  imports Web_Requests Job_Props
begin

text \<open>
  The request handlers of the API (\<open>twerk-web/src/api/handlers\<close>) over the coordinator's world: the datastore and
  the broker they share with it. A handler returns a status and a body or an error. The blocking creation of a
  job waits for an event, so it is a part before and a part after the wait; other steps may run in between.
\<close>

type_synonym 'a web = "(world, api_error, 'a) eff"

datatype web_body =
    WB_Job job | WB_JobSummary job_summary | WB_Jobs "job_summary page" | WB_Task task | WB_Log "task_log_part page"
  | WB_Scheduled scheduled_job | WB_ScheduledSummary scheduled_job_summary | WB_ScheduledJobs "scheduled_job_summary page"
  | WB_Queues "queue_info list" | WB_Queue queue_info | WB_Nodes "node list" | WB_Node node | WB_Metrics metrics
  | WB_Health string string | WB_StatusOk | WB_Empty

type_synonym web_response = "nat \<times> web_body"

definition web_ds :: "'a ds \<Rightarrow> 'a web" where
  "web_ds m = eff_map_err api_error_from_ds (ds_call m)"

definition web_broker :: "'a act \<Rightarrow> 'a web" where
  "web_broker m = eff_map_err (\<lambda>e. AE_Internal (engine_error_display e)) m"

definition web_res :: "api_error + 'a \<Rightarrow> 'a web" where
  "web_res r = lift_res r"

definition ok_status_response :: web_response where
  "ok_status_response = (200, WB_StatusOk)"

section \<open>Creating jobs\<close>

definition decode_body :: "web_env \<Rightarrow> (string \<Rightarrow> string + 'a) \<Rightarrow> (string \<Rightarrow> string + 'a) \<Rightarrow> string option \<Rightarrow> string \<Rightarrow> api_error + 'a" where
  "decode_body wenv json yaml content_type body =
     (case classify_content_type (normalized_content_type content_type) of
        CT_Json \<Rightarrow> map_err AE_BadRequest (json body)
      | CT_Yaml \<Rightarrow> yaml_from_slice wenv yaml body
      | CT_Unsupported \<Rightarrow> Inl (AE_BadRequest ''unsupported content type''))"

definition parse_job_request :: "web_env \<Rightarrow> string option \<Rightarrow> string \<Rightarrow> api_error + job" where
  "parse_job_request wenv content_type body = decode_body wenv (we_job_json wenv) (we_job_yaml wenv) content_type body"

definition sanitize_task :: "task \<Rightarrow> task" where
  "sanitize_task t = upd_hdr (\<lambda>h. h\<lparr>th_name := sanitize_option (th_name h), th_description := sanitize_option (th_description h)\<rparr>) t"

definition sanitize_job :: "job \<Rightarrow> job" where
  "sanitize_job j = j\<lparr>jb_name := sanitize_option (jb_name j), jb_description := sanitize_option (jb_description j),
     jb_tasks := map_option (map sanitize_task) (jb_tasks j)\<rparr>"

definition web_default_user :: "user option web" where
  "web_default_user = to_ok (ds_call (get_user ''guest''))"

definition enrich_job_defaults :: "cenv \<Rightarrow> job \<Rightarrow> job web" where
  "enrich_job_defaults env j =
     (let j = sanitize_job j
      in and_then (if jb_id j = None
           then and_then (new_short_uuid env) (\<lambda>u. ret (j\<lparr>jb_id := (case job_id_new (ie_uuid (ce_ids env)) u of Inr i \<Rightarrow> Some i | Inl _ \<Rightarrow> None)\<rparr>))
           else ret j) (\<lambda>j.
         let j = j\<lparr>jb_task_count := (case jb_tasks j of None \<Rightarrow> jb_task_count j
               | Some ts \<Rightarrow> (if int (length ts) \<le> i64_max then int (length ts) else i64_max))\<rparr>
         in and_then (if jb_created_at j = None
              then and_then (now_utc env) (\<lambda>now. ret (j\<lparr>jb_created_at := Some now\<rparr>)) else ret j) (\<lambda>j.
            if jb_created_by j = None
            then and_then web_default_user (\<lambda>u. ret (j\<lparr>jb_created_by := u\<rparr>)) else ret j)))"

fun join_semi :: "string list \<Rightarrow> string" where
  "join_semi [] = []"
| "join_semi [x] = x"
| "join_semi (x # xs) = x @ ''; '' @ join_semi xs"

definition web_validate_job :: "job \<Rightarrow> api_error + unit" where
  "web_validate_job j =
     map_err (\<lambda>errors. AE_BadRequest (join_semi errors)) (validate_job (jb_name j) (jb_tasks j) (jb_defaults j) (jb_output j))"

definition store_and_publish :: "cenv \<Rightarrow> job \<Rightarrow> unit web" where
  "store_and_publish env j = and_then (web_ds (create_job j)) (\<lambda>_. web_broker (broker_publish_job env j))"

definition create_job_no_wait :: "cenv \<Rightarrow> job \<Rightarrow> web_response web" where
  "create_job_no_wait env j =
     and_then (store_and_publish env j) (\<lambda>_. ret (200, WB_JobSummary (on_read_job_summary (new_job_summary j))))"

text \<open>The blocking creation up to the wait, the event it waits for, and what it does with the finished job.\<close>

definition wait_begin :: "cenv \<Rightarrow> job \<Rightarrow> string web" where
  "wait_begin env j =
     and_then (web_res (ok_or (jb_id j) (AE_Internal ''job id missing''))) (\<lambda>job_id.
     and_then (modifies (w_bk_update (subscribe_typed ''job.*''))) (\<lambda>_.
     and_then (store_and_publish env j) (\<lambda>_. ret job_id)))"

datatype received = RV_Event job_event | RV_Lagged | RV_Closed

fun finished_of :: "job_event \<Rightarrow> job option" where
  "finished_of (JE_Completed j) = Some j"
| "finished_of (JE_Failed j) = Some j"
| "finished_of (JE_Cancelled j) = Some j"
| "finished_of _ = None"

text \<open>\<open>None\<close> while it still waits; the wait ends after an hour.\<close>

fun await_job :: "string \<Rightarrow> received list \<Rightarrow> (api_error + job) option" where
  "await_job job_id [] = None"
| "await_job job_id (RV_Closed # rs) = Some (Inl (AE_Internal ''subscription channel closed''))"
| "await_job job_id (RV_Lagged # rs) = await_job job_id rs"
| "await_job job_id (RV_Event e # rs) =
     (case finished_of e of
        Some j \<Rightarrow> if jb_id j = Some job_id then Some (Inr j) else await_job job_id rs
      | None \<Rightarrow> await_job job_id rs)"

definition wait_end :: "cenv \<Rightarrow> (api_error + job) option \<Rightarrow> web_response web" where
  "wait_end env completion =
     (case completion of
        None \<Rightarrow> throw (AE_Internal ''timeout waiting for job'')
      | Some (Inl e) \<Rightarrow> throw e
      | Some (Inr j) \<Rightarrow>
          let j = on_read_job j
          in and_then (case jb_id j of
               None \<Rightarrow> ret j
             | Some i \<Rightarrow> and_then (to_ok (ds_call (get_all_tasks_for_job (ce_ids env) i))) (\<lambda>r.
                 ret (case r of Some ts \<Rightarrow> if ts \<noteq> [] then j\<lparr>jb_tasks := Some ts\<rparr> else j | None \<Rightarrow> j))) (\<lambda>j.
             ret (200, WB_Job j)))"

datatype wait_mode = WM_Detached | WM_Blocking

text \<open>A \<open>Bool\<close> or a \<open>String\<close> of the query.\<close>

definition wait_mode_of_bool :: "bool \<Rightarrow> wait_mode" where
  "wait_mode_of_bool b = (if b then WM_Blocking else WM_Detached)"

definition wait_mode_of_string :: "string \<Rightarrow> wait_mode" where
  "wait_mode_of_string v =
     (let l = to_lowercase v
      in if l = ''blocking'' \<or> l = ''true'' \<or> l = ''1'' \<or> l = ''yes'' then WM_Blocking else WM_Detached)"

text \<open>Up to the wait: a detached job is answered, a blocking one goes on with its id.\<close>

definition create_job_handler ::
  "cenv \<Rightarrow> web_env \<Rightarrow> wait_mode option \<Rightarrow> string option \<Rightarrow> string \<Rightarrow> (web_response + string) web" where
  "create_job_handler env wenv wait content_type body =
     and_then (web_res (parse_job_request wenv content_type body)) (\<lambda>parsed.
     and_then (enrich_job_defaults env parsed) (\<lambda>j.
     and_then (web_res (web_validate_job j)) (\<lambda>_.
       if wait = Some WM_Blocking then and_then (wait_begin env j) (\<lambda>i. ret (Inr i))
       else and_then (create_job_no_wait env j) (\<lambda>r. ret (Inl r)))))"

section \<open>Reading jobs\<close>

definition get_job_handler :: "cenv \<Rightarrow> string \<Rightarrow> web_response web" where
  "get_job_handler env i =
     and_then (web_ds (get_job_by_id i)) (\<lambda>j.
     and_then (case jb_id j of
         None \<Rightarrow> ret j
       | Some job_id \<Rightarrow> and_then (web_ds (get_all_tasks_for_job (ce_ids env) job_id)) (\<lambda>ts.
           ret (if ts \<noteq> [] then j\<lparr>jb_tasks := Some ts\<rparr> else j))) (\<lambda>j.
       ret (200, WB_Job (on_read_job j))))"

definition page_map :: "('a \<Rightarrow> 'a) \<Rightarrow> 'a page \<Rightarrow> 'a page" where
  "page_map f p = p\<lparr>pg_items := map f (pg_items p)\<rparr>"

definition list_jobs_handler :: "pagination_query \<Rightarrow> string \<Rightarrow> web_response web" where
  "list_jobs_handler q user =
     and_then (web_res (parse_page (pq_page q))) (\<lambda>page.
     and_then (web_res (parse_size (pq_size q) 10 20)) (\<lambda>sz.
     and_then (web_ds (get_jobs user (case pq_q q of None \<Rightarrow> [] | Some s \<Rightarrow> s) page sz)) (\<lambda>result.
       ret (200, WB_Jobs (page_map on_read_job_summary result)))))"

definition redact_log_page :: "string list \<Rightarrow> task_log_part page \<Rightarrow> task_log_part page" where
  "redact_log_page secrets p = p\<lparr>pg_items := redact_task_log_parts secrets (pg_items p)\<rparr>"

definition get_job_log_handler :: "string \<Rightarrow> pagination_query \<Rightarrow> web_response web" where
  "get_job_log_handler i q =
     and_then (web_res (parse_page (pq_page q))) (\<lambda>page.
     and_then (web_res (parse_size (pq_size q) 25 100)) (\<lambda>sz.
     and_then (web_ds (get_job_by_id i)) (\<lambda>j.
     and_then (web_ds (get_job_log_parts i [] page sz)) (\<lambda>parts.
       ret (200, WB_Log (redact_log_page (secret_values (jb_secrets j)) parts))))))"

section \<open>Changing jobs\<close>

definition cancel_job_impl :: "cenv \<Rightarrow> string \<Rightarrow> web_response web" where
  "cancel_job_impl env i =
     and_then (web_ds (get_job_by_id i)) (\<lambda>j.
       if jb_state j \<in> {JS_Completed, JS_Failed, JS_Cancelled}
       then throw (AE_BadRequest ''job cannot be cancelled in its current state'')
       else and_then (web_ds (update_job (ce_ids env) i (\<lambda>u. Inr (u\<lparr>jb_state := JS_Cancelled\<rparr>)))) (\<lambda>_.
            and_then (web_broker (broker_publish_job env j)) (\<lambda>_. ret ok_status_response)))"

definition restart_job_handler :: "cenv \<Rightarrow> string \<Rightarrow> web_response web" where
  "restart_job_handler env i =
     and_then (web_ds (get_job_by_id i)) (\<lambda>j.
       if jb_state j \<notin> {JS_Failed, JS_Cancelled}
       then throw (AE_BadRequest ''job cannot be restarted'')
       else and_then (web_ds (update_job (ce_ids env) i (\<lambda>u. Inr (u\<lparr>jb_state := JS_Restart\<rparr>)))) (\<lambda>_.
            and_then (web_broker (broker_publish_job env j)) (\<lambda>_. ret ok_status_response)))"

definition delete_job_handler :: "string \<Rightarrow> web_response web" where
  "delete_job_handler i =
     and_then (web_ds (get_job_by_id i)) (\<lambda>_. and_then (web_ds (delete_job i)) (\<lambda>_. ret (204, WB_Empty)))"

section \<open>Tasks, queues, nodes, users\<close>

definition secrets_of_job :: "string \<Rightarrow> string list option web" where
  "secrets_of_job job_id =
     and_then (to_ok (ds_call (get_job_by_id job_id))) (\<lambda>r. ret (map_option (\<lambda>j. secret_values (jb_secrets j)) r))"

definition get_task_handler :: "string \<Rightarrow> web_response web" where
  "get_task_handler i =
     and_then (web_ds (get_task_by_id i)) (\<lambda>t.
     and_then (case tk_job_id t of None \<Rightarrow> ret None | Some job_id \<Rightarrow> secrets_of_job job_id) (\<lambda>secrets.
       ret (200, WB_Task (case secrets of None \<Rightarrow> t | Some s \<Rightarrow> on_read_task s t))))"

definition get_task_log_handler :: "string \<Rightarrow> pagination_query \<Rightarrow> web_response web" where
  "get_task_log_handler i q =
     and_then (web_res (parse_page (pq_page q))) (\<lambda>page.
     and_then (web_res (parse_size (pq_size q) 25 100)) (\<lambda>sz.
     and_then (web_ds (get_task_by_id i)) (\<lambda>t.
     and_then (web_ds (get_task_log_parts i (case pq_q q of None \<Rightarrow> [] | Some s \<Rightarrow> s) page sz)) (\<lambda>parts.
     and_then (case tk_job_id t of None \<Rightarrow> ret None | Some job_id \<Rightarrow> secrets_of_job job_id) (\<lambda>secrets.
       ret (200, WB_Log (case secrets of None \<Rightarrow> parts | Some s \<Rightarrow> redact_log_page s parts)))))))"

definition list_queues_handler :: "web_response web" where
  "list_queues_handler = and_then (asks (queues \<circ> w_bk)) (\<lambda>qs. ret (200, WB_Queues qs))"

definition queue_missing :: "string \<Rightarrow> api_error" where
  "queue_missing name = AE_NotFound (''queue '' @ name @ '' not found'')"

definition get_queue_handler :: "string \<Rightarrow> web_response web" where
  "get_queue_handler name =
     and_then (asks (get_queue_info name \<circ> w_bk)) (\<lambda>r.
     and_then (web_res (map_err (\<lambda>_. queue_missing name) r)) (\<lambda>q. ret (200, WB_Queue q)))"

definition delete_queue_handler :: "string \<Rightarrow> web_response web" where
  "delete_queue_handler name w =
     (case delete_queue name (w_bk w) of
        (Inl _, b) \<Rightarrow> (Inl (queue_missing name), w\<lparr>w_bk := b\<rparr>)
      | (Inr _, b) \<Rightarrow> (Inr (200, WB_Empty), w\<lparr>w_bk := b\<rparr>))"

definition VERSION :: string where "VERSION = ''0.1.1''"

text \<open>The in-memory broker is always healthy.\<close>

definition health_handler :: "web_response web" where
  "health_handler =
     and_then (to_ok (ds_call health_check)) (\<lambda>ds_ok.
       ret (if ds_ok \<noteq> None then (200, WB_Health ''UP'' VERSION) else (503, WB_Health ''DOWN'' VERSION)))"

definition list_nodes_handler :: "web_response web" where
  "list_nodes_handler = and_then (web_ds get_active_nodes) (\<lambda>ns. ret (200, WB_Nodes ns))"

definition get_node_handler :: "string \<Rightarrow> web_response web" where
  "get_node_handler i = and_then (web_ds (get_node_by_id i)) (\<lambda>n. ret (200, WB_Node n))"

definition get_metrics_handler :: "web_response web" where
  "get_metrics_handler = and_then (web_ds get_metrics) (\<lambda>x. ret (200, WB_Metrics x))"

record create_user_body =
  cu_username :: "string option"
  cu_password :: "string option"

definition create_user_handler :: "cenv \<Rightarrow> web_env \<Rightarrow> create_user_body \<Rightarrow> web_response web" where
  "create_user_handler env wenv body =
     and_then (web_res (ok_or (cu_username body) (AE_BadRequest ''username is required''))) (\<lambda>u.
     and_then (web_res (map_err (\<lambda>e. AE_BadRequest (''invalid username: '' @ username_error_to_string e)) (username_new wenv u))) (\<lambda>username.
     and_then (web_res (ok_or (cu_password body) (AE_BadRequest ''password is required''))) (\<lambda>p.
     and_then (web_res (map_err (\<lambda>e. AE_BadRequest (''invalid password: '' @ password_error_to_string e)) (password_new p))) (\<lambda>password.
     and_then (web_res (map_err AE_Internal (we_bcrypt wenv password))) (\<lambda>password_hash.
     and_then (new_short_uuid env) (\<lambda>short.
     and_then (web_res (map_err api_error_from_id (id_new (ie_alphanumeric (ce_ids env)) short))) (\<lambda>user_id.
     and_then (web_ds (create_user \<lparr>us_id = Some user_id, us_name = None, us_username = Some username,
         us_password_hash = Some password_hash, us_password = None, us_created_at = None, us_disabled = False\<rparr>)) (\<lambda>_.
       ret (200, WB_Empty)))))))))"

section \<open>Scheduled jobs\<close>

record create_scheduled_body =
  cs_name :: "string option"
  cs_description :: "string option"
  cs_cron :: "string option"
  cs_tags :: "string list option"
  cs_tasks :: "task list option"
  cs_inputs :: "smap option"
  cs_secrets :: "smap option"
  cs_output :: "string option"
  cs_defaults :: "job_defaults option"
  cs_webhooks :: "webhook list option"
  cs_permissions :: "permission list option"
  cs_auto_delete :: "auto_delete option"

definition validate_create_input :: "web_env \<Rightarrow> create_scheduled_body \<Rightarrow> api_error + string \<times> task list" where
  "validate_create_input wenv b =
     res_bind (ok_or (cs_cron b) (AE_BadRequest ''cron is required'')) (\<lambda>cron.
     res_bind (ok_or (cs_tasks b) (AE_BadRequest ''tasks is required'')) (\<lambda>tasks.
     res_bind (map_err AE_BadRequest (validate_cron (we_domain wenv) cron)) (\<lambda>_.
     res_bind (map_err (\<lambda>errors. AE_BadRequest (join_semi errors))
       (validate_job (cs_name b) (cs_tasks b) (cs_defaults b) (cs_output b))) (\<lambda>_.
       Inr (cron, tasks)))))"

definition build_scheduled_job :: "cenv \<Rightarrow> create_scheduled_body \<Rightarrow> string \<Rightarrow> task list \<Rightarrow> user option \<Rightarrow> scheduled_job web" where
  "build_scheduled_job env b cron tasks created_by =
     and_then (new_short_uuid env) (\<lambda>short.
     and_then (web_res (map_err api_error_from_id (id_new (ie_alphanumeric (ce_ids env)) short))) (\<lambda>i.
     and_then (now_utc env) (\<lambda>now.
       ret \<lparr>sc_id = Some i, sc_name = cs_name b, sc_description = cs_description b,
         sc_cron = Some cron, sc_state = SJ_Active, sc_inputs = cs_inputs b, sc_tasks = Some tasks,
         sc_created_by = created_by, sc_defaults = cs_defaults b, sc_auto_delete = cs_auto_delete b,
         sc_webhooks = cs_webhooks b, sc_permissions = cs_permissions b, sc_created_at = Some now, sc_tags = cs_tags b,
         sc_secrets = cs_secrets b, sc_output = cs_output b\<rparr>)))"

definition build_scheduled_job_event_value_from_sj :: "web_env \<Rightarrow> scheduled_job \<Rightarrow> api_error + json" where
  "build_scheduled_job_event_value_from_sj wenv sj = map_err AE_Internal (we_to_value wenv sj)"

definition publish_scheduled :: "cenv \<Rightarrow> web_env \<Rightarrow> scheduled_job \<Rightarrow> unit web" where
  "publish_scheduled env wenv sj =
     and_then (web_res (build_scheduled_job_event_value_from_sj wenv sj)) (\<lambda>v. web_broker (broker_publish_event env ''scheduled.job'' v))"

text \<open>The id is always set: without one the code panics.\<close>

definition create_scheduled_job_handler ::
  "cenv \<Rightarrow> web_env \<Rightarrow> (string \<Rightarrow> string + create_scheduled_body) \<Rightarrow> (string \<Rightarrow> string + create_scheduled_body) \<Rightarrow>
    string option \<Rightarrow> string \<Rightarrow> web_response web" where
  "create_scheduled_job_handler env wenv json yaml content_type body =
     and_then (web_res (decode_body wenv json yaml content_type body)) (\<lambda>input.
     and_then (web_res (validate_create_input wenv input)) (\<lambda>(cron, tasks).
     and_then web_default_user (\<lambda>created_by.
     and_then (build_scheduled_job env input cron tasks created_by) (\<lambda>sj.
     and_then (web_ds (create_scheduled_job sj)) (\<lambda>_.
     and_then (web_res (ok_or (sc_id sj) (AE_Internal ''id must be set''))) (\<lambda>i.
     and_then (web_ds (get_scheduled_job_by_id i)) (\<lambda>created.
       let created = redact_scheduled_job created
       in and_then (publish_scheduled env wenv created) (\<lambda>_.
            ret (200, WB_ScheduledSummary (new_scheduled_job_summary created))))))))))"

definition list_scheduled_jobs_handler :: "pagination_query \<Rightarrow> string \<Rightarrow> web_response web" where
  "list_scheduled_jobs_handler q user =
     and_then (web_res (parse_page (pq_page q))) (\<lambda>page.
     and_then (web_res (parse_size (pq_size q) 10 20)) (\<lambda>sz.
     and_then (web_ds (get_scheduled_jobs user page sz)) (\<lambda>result.
       ret (200, WB_ScheduledJobs (page_map redact_scheduled_job_summary result)))))"

definition get_scheduled_job_handler :: "string \<Rightarrow> web_response web" where
  "get_scheduled_job_handler i =
     and_then (web_ds (get_scheduled_job_by_id i)) (\<lambda>sj. ret (200, WB_Scheduled (redact_scheduled_job sj)))"

definition validate_pause :: "scheduled_job \<Rightarrow> api_error + unit" where
  "validate_pause sj = (if sc_state sj = SJ_Active then Inr () else Inl (AE_BadRequest ''scheduled job is not active''))"

definition validate_resume :: "scheduled_job \<Rightarrow> api_error + unit" where
  "validate_resume sj = (if sc_state sj = SJ_Paused then Inr () else Inl (AE_BadRequest ''scheduled job is not paused''))"

definition pause_state_transition :: "scheduled_job \<Rightarrow> ds_error + scheduled_job" where
  "pause_state_transition sj = Inr (sj\<lparr>sc_state := SJ_Paused\<rparr>)"

definition resume_state_transition :: "scheduled_job \<Rightarrow> ds_error + scheduled_job" where
  "resume_state_transition sj = Inr (sj\<lparr>sc_state := SJ_Active\<rparr>)"

definition pause_scheduled_job_handler :: "cenv \<Rightarrow> web_env \<Rightarrow> string \<Rightarrow> web_response web" where
  "pause_scheduled_job_handler env wenv i =
     and_then (web_ds (get_scheduled_job_by_id i)) (\<lambda>sj.
     and_then (web_res (validate_pause sj)) (\<lambda>_.
     and_then (web_ds (update_scheduled_job (ce_ids env) i pause_state_transition)) (\<lambda>_.
     and_then (web_ds (get_scheduled_job_by_id i)) (\<lambda>paused.
     and_then (publish_scheduled env wenv paused) (\<lambda>_. ret ok_status_response)))))"

definition resume_scheduled_job_handler :: "cenv \<Rightarrow> web_env \<Rightarrow> string \<Rightarrow> web_response web" where
  "resume_scheduled_job_handler env wenv i =
     and_then (web_ds (get_scheduled_job_by_id i)) (\<lambda>sj.
     and_then (web_res (validate_resume sj)) (\<lambda>_.
     and_then (web_ds (update_scheduled_job (ce_ids env) i resume_state_transition)) (\<lambda>_.
     and_then (web_ds (get_scheduled_job_by_id i)) (\<lambda>resumed.
     and_then (publish_scheduled env wenv resumed) (\<lambda>_. ret ok_status_response)))))"

definition was_active :: "scheduled_job \<Rightarrow> bool" where
  "was_active sj = (sc_state sj = SJ_Active)"

definition build_paused_for_event :: "scheduled_job \<Rightarrow> scheduled_job" where
  "build_paused_for_event sj = sj\<lparr>sc_state := SJ_Paused\<rparr>"

definition delete_scheduled_job_handler :: "cenv \<Rightarrow> web_env \<Rightarrow> string \<Rightarrow> web_response web" where
  "delete_scheduled_job_handler env wenv i =
     and_then (web_ds (get_scheduled_job_by_id i)) (\<lambda>sj.
     and_then (web_ds (delete_scheduled_job i)) (\<lambda>_.
     and_then (if was_active sj then publish_scheduled env wenv (build_paused_for_event sj) else ret ()) (\<lambda>_.
       ret ok_status_response)))"

end
