(* ===== verification/Web_Job_Props.thy ===== *)
theory Web_Job_Props
  imports Web_Jobs
begin

lemma ds_inv_update_job: "ds_inv (snd (update_job env i g s)) = ds_inv s"
  by (simp add: task_part_inv)

lemma web_runs:
  "web_ds (get_job_by_id i) w = (map_err api_error_from_ds (ok_or (look_job (w_ds w) i) JobNotFound), w)"
  "look_job (w_ds w) i = Some v \<Longrightarrow> valid_job_id env i \<Longrightarrow>
    web_ds (update_job (ce_ids env) i (\<lambda>v. Inr (h v))) w = (Inr (), w\<lparr>w_ds := put_job i (h v) (w_ds w)\<rparr>)"
  "ce_publish_fails env (w_pubs w) = None \<Longrightarrow>
    web_broker (broker_publish_job env j) w = (Inr (), w\<lparr>w_pubs := Suc (w_pubs w), w_bk := publish_job j (w_bk w)\<rparr>)"
  by (simp_all add: web_ds_def web_broker_def eff_map_err_def ds_gets ds_updates broker_publish_job_def broker_ok)

lemma keeps_task_part:
  "(\<And>s. task_part (snd (m s)) = task_part s) \<Longrightarrow> keeps (\<lambda>w. task_part (w_ds w) = T) (jh_ds m)"
  by (simp add: keeps_def jh_ds_def eff_map_err_def ds_call_run split: prod.split) (metis snd_conv)

lemma running_keeps_tasks:
  "task_part (w_ds (snd (mark_job_as_running env j v))) = task_part (w_ds v)"
proof -
  have "keeps (\<lambda>w. task_part (w_ds w) = task_part (w_ds v)) (mark_job_as_running env j)"
    unfolding mark_job_as_running_def jh_some_def Let_def get_all_tasks_for_job_def
    by (intro keeps_intros keeps_task_part) (simp_all add: task_part_ops asks_def)
  then show ?thesis by (simp add: keeps_def)
qed

lemma cancel_run:
  assumes "look_job (w_ds w) i = Some j" and "valid_job_id env i" and "ce_publish_fails env (w_pubs w) = None"
    and "jb_state j \<notin> {JS_Completed, JS_Failed, JS_Cancelled}"
  shows "cancel_job_impl env i w = (Inr ok_status_response, w\<lparr>w_ds := put_job i (j\<lparr>jb_state := JS_Cancelled\<rparr>) (w_ds w),
        w_pubs := Suc (w_pubs w), w_bk := publish_job j (w_bk w)\<rparr>)"
  using assms by (auto simp: cancel_job_impl_def and_then_def web_runs ret_def)

lemma demo_up [simp]: "ce_publish_fails demo_env n = None"
  by (simp add: demo_env_def)

text \<open>C3. Cancelling a scheduled or running job over the API stores it as cancelled and publishes the job as it
  was before, still scheduled or running; when the coordinator gets that message, in whatever state it is by then,
  it changes no task: none is cancelled.\<close>

theorem api_cancel_keeps_tasks:
  assumes "look_job (w_ds w) i = Some j" and "valid_job_id env i" and "ce_publish_fails env (w_pubs w) = None"
    and "jb_state j \<in> {JS_Running, JS_Scheduled}"
  shows "cancel_job_impl env i w = (Inr ok_status_response, w\<lparr>w_ds := put_job i (j\<lparr>jb_state := JS_Cancelled\<rparr>) (w_ds w),
        w_pubs := Suc (w_pubs w), w_bk := publish_job j (w_bk w)\<rparr>) \<and>
    task_part (w_ds (snd (handle_job_event env j v))) = task_part (w_ds v)"
proof
  show "cancel_job_impl env i w = (Inr ok_status_response, w\<lparr>w_ds := put_job i (j\<lparr>jb_state := JS_Cancelled\<rparr>) (w_ds w),
        w_pubs := Suc (w_pubs w), w_bk := publish_job j (w_bk w)\<rparr>)"
    using assms by (intro cancel_run) auto
  show "task_part (w_ds (snd (handle_job_event env j v))) = task_part (w_ds v)"
    using assms(4) running_keeps_tasks [of env j v]
    by (auto simp: handle_job_event_def as_message_def eff_map_err_def ret_def split: prod.splits)
qed

theorem api_cancel_keeps_tasks_witness:
  "fst (cancel_job_impl demo_env demo_job_id demo_world) = Inr ok_status_response \<and>
   task_part (w_ds (snd (handle_job_event demo_env demo_job demo_world))) = task_part (w_ds demo_world)"
  using api_cancel_keeps_tasks [of demo_world demo_job_id demo_job demo_env demo_world] demo_ids(3)
  by (simp add: demo_job_def demo_env_def)

lemma last_task_run:
  assumes "look_job (w_ds w) i = Some j" and "\<forall>n. ce_publish_fails env n = None"
    and "jb_tasks j = Some ts" and "jb_position j = int (length ts)"
  shows "handle_top_level_task_completed env i w = (Inr (), w\<lparr>w_clock := Suc (w_clock w), w_pubs := Suc (w_pubs w),
    w_bk := publish_job (j\<lparr>jb_state := JS_Completed\<rparr>) (w_bk w)\<rparr>)"
  using assms by (simp add: handle_top_level_task_completed_def run_simps Let_def)

lemma completed_run:
  assumes "look_job (w_ds w) i = Some u" and "valid_job_id env i" and "\<forall>n. ce_publish_fails env n = None"
    and "jb_id j = Some i" and "jb_parent_id j = None" and "jb_state j = JS_Completed"
  shows "\<exists>w' u'. handle_job_event env j w = (Inr (), w') \<and> look_job (w_ds w') i = Some u' \<and> jb_state u' = JS_Completed"
  using assms
  by (simp add: handle_job_event_def complete_job_def job_id_of_def fire_job_webhooks_def
      publish_job_completed_event_def broker_publish_event_def run_simps)

text \<open>C4. A running job cancelled over the API ends as completed: its last task runs on, its completion has the
  coordinator publish the job as completed, and that message overwrites the state Cancelled.\<close>

theorem cancelled_job_completes:
  assumes "look_job (w_ds w) i = Some j" and "valid_job_id env i" and "\<forall>n. ce_publish_fails env n = None"
    and "jb_id j = Some i" and "jb_state j = JS_Running" and "jb_parent_id j = None"
    and "jb_tasks j = Some ts" and "jb_position j = int (length ts)"
  shows "\<exists>w1 w2 w3 u. cancel_job_impl env i w = (Inr ok_status_response, w1) \<and>
    look_job (w_ds w1) i = Some (j\<lparr>jb_state := JS_Cancelled\<rparr>) \<and>
    handle_top_level_task_completed env i w1 = (Inr (), w2) \<and>
    w_bk w2 = publish_job (j\<lparr>jb_state := JS_Completed\<rparr>) (w_bk w1) \<and>
    handle_job_event env (j\<lparr>jb_state := JS_Completed\<rparr>) w2 = (Inr (), w3) \<and>
    look_job (w_ds w3) i = Some u \<and> jb_state u = JS_Completed"
proof -
  let ?c = "j\<lparr>jb_state := JS_Cancelled\<rparr>"
  obtain w1 where 1: "cancel_job_impl env i w = (Inr ok_status_response, w1)" "look_job (w_ds w1) i = Some ?c"
    using cancel_run [of w i j env] assms by simp
  let ?w = "w1\<lparr>w_clock := Suc (w_clock w1), w_pubs := Suc (w_pubs w1), w_bk := publish_job (?c\<lparr>jb_state := JS_Completed\<rparr>) (w_bk w1)\<rparr>"
  have 2: "handle_top_level_task_completed env i w1 = (Inr (), ?w)"
    by (rule last_task_run) (use 1 assms in auto)
  have 3: "\<exists>w3 u. handle_job_event env (?c\<lparr>jb_state := JS_Completed\<rparr>) ?w = (Inr (), w3) \<and>
      look_job (w_ds w3) i = Some u \<and> jb_state u = JS_Completed"
    by (rule completed_run) (use 1 assms in auto)
  show ?thesis using 1 2 3 by fastforce
qed

theorem cancelled_job_completes_witness:
  "\<exists>w1 w2 w3 u. cancel_job_impl demo_env demo_job_id demo_world = (Inr ok_status_response, w1) \<and>
    look_job (w_ds w1) demo_job_id = Some (demo_job\<lparr>jb_state := JS_Cancelled\<rparr>) \<and>
    handle_top_level_task_completed demo_env demo_job_id w1 = (Inr (), w2) \<and>
    w_bk w2 = publish_job (demo_job\<lparr>jb_state := JS_Completed\<rparr>) (w_bk w1) \<and>
    handle_job_event demo_env (demo_job\<lparr>jb_state := JS_Completed\<rparr>) w2 = (Inr (), w3) \<and>
    look_job (w_ds w3) demo_job_id = Some u \<and> jb_state u = JS_Completed"
  by (rule cancelled_job_completes [of _ _ _ _ "[demo_parent]"])
     (simp_all add: demo_job_def default_job_def demo_up demo_ids(3) [unfolded demo_job_def])

lemma restart_run:
  assumes "look_job (w_ds w) i = Some j" and "valid_job_id env i" and "ce_publish_fails env (w_pubs w) = None"
    and "jb_state j \<in> {JS_Failed, JS_Cancelled}"
  shows "restart_job_handler env i w = (Inr ok_status_response, w\<lparr>w_ds := put_job i (j\<lparr>jb_state := JS_Restart\<rparr>) (w_ds w),
        w_pubs := Suc (w_pubs w), w_bk := publish_job j (w_bk w)\<rparr>)"
  using assms by (auto simp: restart_job_handler_def and_then_def web_runs ret_def)

lemma failed_stays_restart:
  "jb_state u = JS_Restart \<Longrightarrow> jb_state (set_job_failed f u) = JS_Restart"
  by (simp add: set_job_failed_def is_job_active_def Let_def)

lemma look_job_same: "ds_jobs s = ds_jobs s' \<Longrightarrow> look_job s = look_job s'"
  by (simp add: look_job_def fun_eq_iff)

lemma as_message_Inr: "as_message m w = (Inr x, w') \<longleftrightarrow> m w = (Inr x, w')"
  by (auto simp: as_message_def eff_map_err_def map_err_def split: prod.splits sum.splits)

text \<open>C5. Restarting a failed or cancelled job over the API stores it in the state Restart and publishes the job
  as it was before, failed or cancelled. When the coordinator has handled that message, the job is still in the
  state Restart and no task was created: the job never runs again.\<close>

theorem api_restart_never_runs:
  assumes "look_job (w_ds w) i = Some j" and "valid_job_id env i" and "ce_publish_fails env (w_pubs w) = None"
    and "jb_state j \<in> {JS_Failed, JS_Cancelled}" and "jb_id j = Some i" and "ds_inv (w_ds w)"
    and "handle_job_event env j (snd (restart_job_handler env i w)) = (Inr (), w')"
  shows "restart_job_handler env i w = (Inr ok_status_response, w\<lparr>w_ds := put_job i (j\<lparr>jb_state := JS_Restart\<rparr>) (w_ds w),
        w_pubs := Suc (w_pubs w), w_bk := publish_job j (w_bk w)\<rparr>) \<and>
    (\<exists>u. look_job (w_ds w') i = Some u \<and> jb_state u = JS_Restart) \<and>
    (look_task (w_ds w') k = None \<longleftrightarrow> look_task (w_ds w) k = None)"
proof (cases "jb_state j = JS_Failed")
  case True
  note r = restart_run [OF assms(1-4)]
  have "fail_job env j (snd (restart_job_handler env i w)) = (Inr (), w')"
    using assms(7) True by (simp add: handle_job_event_def as_message_Inr)
  then show ?thesis using fail_job_effect [of "snd (restart_job_handler env i w)" j i env w' k] r assms(5,6)
    by (auto simp: failed_stays_restart dest!: look_job_same)
next
  case False
  then have c: "jb_state j = JS_Cancelled" using assms(4) by simp
  note r = restart_run [OF assms(1-4)]
  have "handle_cancel env j (snd (restart_job_handler env i w)) = (Inr (), w')"
    using assms(7) c by (simp add: handle_job_event_def as_message_Inr)
  then show ?thesis using handle_cancel_effect [of "snd (restart_job_handler env i w)" j i env w' k] r assms(5,6) c
    by (auto dest!: look_job_same)
qed

definition demo_cancelled :: world where
  "demo_cancelled = new_world\<lparr>w_ds := new_datastore\<lparr>ds_jobs := [(demo_job_id, demo_job\<lparr>jb_state := JS_Cancelled\<rparr>)]\<rparr>\<rparr>"

lemma demo_cancelled_sel:
  "look_job (w_ds demo_cancelled) demo_job_id = Some (demo_job\<lparr>jb_state := JS_Cancelled\<rparr>)"
  "look_task (w_ds demo_cancelled) k = None" "ds_inv (w_ds demo_cancelled)"
  by (simp_all add: demo_cancelled_def new_world_def look_job_def look_task_def new_datastore_def ds_inv_def index_ok_def)

theorem api_restart_never_runs_witness:
  "\<exists>w'. handle_job_event demo_env (demo_job\<lparr>jb_state := JS_Cancelled\<rparr>)
      (snd (restart_job_handler demo_env demo_job_id demo_cancelled)) = (Inr (), w') \<and>
    (\<exists>u. look_job (w_ds w') demo_job_id = Some u \<and> jb_state u = JS_Restart) \<and> look_task (w_ds w') ''x'' = None"
proof -
  let ?j = "demo_job\<lparr>jb_state := JS_Cancelled\<rparr>"
  have j: "jb_id ?j = Some demo_job_id" "jb_parent_id ?j = None" "jb_state ?j = JS_Cancelled"
    by (simp_all add: demo_job_def default_job_def)
  note sel = demo_cancelled_sel
  have r: "restart_job_handler demo_env demo_job_id demo_cancelled = (Inr ok_status_response, demo_cancelled
      \<lparr>w_ds := put_job demo_job_id (?j\<lparr>jb_state := JS_Restart\<rparr>) (w_ds demo_cancelled),
       w_pubs := Suc (w_pubs demo_cancelled), w_bk := publish_job ?j (w_bk demo_cancelled)\<rparr>)" (is "_ = (_, ?w)")
    by (rule restart_run) (use sel(1) demo_ids(3) in auto)
  have "tasks_for_job (ce_ids demo_env) demo_job_id task_is_active (w_ds ?w) = []"
    by (simp add: tasks_for_job_def demo_cancelled_def new_world_def new_datastore_def put_job_def split: sum.split)
  then have "handle_job_event demo_env ?j (snd (restart_job_handler demo_env demo_job_id demo_cancelled)) = (Inr (), ?w)"
    using r j by (simp add: handle_job_event_def as_message_Inr handle_cancel_def run_simps jh_some_def jh_ds_def eff_map_err_def
        is_job_active_def cancel_active_tasks_def get_active_tasks_def ds_call_run)
  then show ?thesis
    using api_restart_never_runs [OF sel(1) demo_ids(3) demo_up _ j(1) sel(3), of ?w "''x''"] sel(2) by auto
qed


section \<open>What a response shows\<close>

lemma on_read_job_sel: "jb_id (on_read_job j) = jb_id j"
  "jb_tasks (on_read_job j) = map_option (map (redact_task_internal (secret_values (jb_secrets j)))) (jb_tasks j)"
  by (simp_all add: on_read_job_def redact_job_def Let_def)

text \<open>A job read over the API shows its stored tasks redacted with the job's secrets; the answer to a blocking
  creation shows the same tasks as they are stored, with every secret in them.\<close>

theorem blocking_answer_unredacted:
  assumes "look_job (w_ds w) i = Some j" and "jb_id j = Some i"
    and "tasks_for_job (ce_ids env) i (\<lambda>_. True) (w_ds w) = ts" and "ts \<noteq> []"
  shows "(\<exists>r. get_job_handler env i w = (Inr (200, WB_Job r), w) \<and>
      jb_tasks r = Some (map (redact_task_internal (secret_values (jb_secrets j))) ts)) \<and>
    (\<exists>r. wait_end env (Some (Inr j)) w = (Inr (200, WB_Job r), w) \<and> jb_tasks r = Some ts)"
proof
  have all: "get_all_tasks_for_job (ce_ids env) i (w_ds w) = (Inr ts, w_ds w)"
    using assms(3) by (simp add: get_all_tasks_for_job_def asks_def)
  then have "web_ds (get_all_tasks_for_job (ce_ids env) i) w = (Inr ts, w)"
    by (simp add: web_ds_def eff_map_err_def ds_call_run)
  then show "\<exists>r. get_job_handler env i w = (Inr (200, WB_Job r), w) \<and>
      jb_tasks r = Some (map (redact_task_internal (secret_values (jb_secrets j))) ts)"
    using assms by (simp add: get_job_handler_def and_then_def web_runs ret_def on_read_job_sel)
  show "\<exists>r. wait_end env (Some (Inr j)) w = (Inr (200, WB_Job r), w) \<and> jb_tasks r = Some ts"
    using assms all by (simp add: wait_end_def Let_def on_read_job_sel and_then_def to_ok_def ds_call_run ret_def)
qed

theorem blocking_answer_unredacted_witness:
  "\<exists>r. wait_end demo_env (Some (Inr demo_job)) demo_world = (Inr (200, WB_Job r), demo_world) \<and>
    jb_tasks r = Some [demo_parent, demo_child]"
proof -
  have "job_id_new (ie_uuid (ce_ids demo_env)) demo_job_id = Inr demo_job_id"
    using demo_ids(3) by (simp add: valid_job_id_def)
  then have ts: "tasks_for_job (ce_ids demo_env) demo_job_id (\<lambda>_. True) (w_ds demo_world) = [demo_parent, demo_child]"
    by (simp add: tasks_for_job_def tasks_of_ids_def demo_world_def new_world_def look_task_def demo_parent_def)
  show ?thesis
    using blocking_answer_unredacted [OF demo_sel(3) _ ts] by (simp add: demo_job_def)
qed

section \<open>Users\<close>

lemma web_bindE:
  assumes "and_then (web_res r) f w = (Inr y, w')"
  obtains x where "r = Inr x" and "f x w = (Inr y, w')"
  using assms by (cases r) (auto simp: web_res_def lift_res_def and_then_def)

lemma map_err_Inr_iff [simp]: "map_err h r = Inr x \<longleftrightarrow> r = Inr x"
  by (cases r) (auto simp: map_err_def)

lemma create_user_stores:
  "us_id u = Some i \<Longrightarrow> us_username u = Some n \<Longrightarrow>
    create_user u s = (Inr (), s\<lparr>ds_users := AList.update i u (AList.update n u (ds_users s))\<rparr>)"
  by (simp add: create_user_def id_required_def ok_or_def eff_simps)

text \<open>Creating a user over the API succeeds whatever users there are, and the password of the request is then
  the password of that name: a user of the same name is overwritten.\<close>

theorem create_user_takes_over:
  assumes "create_user_handler env wenv \<lparr>cu_username = Some u, cu_password = Some p\<rparr> w = (Inr r, w')"
  shows "\<exists>n h x. username_new wenv u = Inr n \<and> we_bcrypt wenv p = Inr h \<and>
    map_of (ds_users (w_ds w')) n = Some x \<and> us_password_hash x = Some h"
  using assms
  by (auto simp: create_user_handler_def password_new_def ok_or_def new_short_uuid_def and_then_def web_ds_def ret_def
      eff_map_err_def ds_call_run create_user_stores web_res_def lift_res_def update_conv' map_err_def
      split: sum.splits if_splits)


definition demo_web :: web_env where
  "demo_web = \<lparr>we_alphabetic = \<lambda>_. True, we_alphanumeric = \<lambda>_. True, we_bcrypt = Inr, we_job_json = \<lambda>_. Inr demo_job,
     we_job_yaml = \<lambda>_. Inr demo_job, we_utf8 = \<lambda>_. None,
     we_domain = \<lparr>de_upper = id, de_url = \<lambda>_. Inl [], de_cron = \<lambda>_. Inr ()\<rparr>, we_to_value = \<lambda>_. Inr JNull\<rparr>"

theorem create_user_takes_over_witness:
  "\<exists>w' x. create_user_handler demo_env demo_web \<lparr>cu_username = Some ''admin'', cu_password = Some ''password''\<rparr> demo_world =
      (Inr (200, WB_Empty), w') \<and>
    map_of (ds_users (w_ds w')) ''admin'' = Some x \<and> us_password_hash x = Some ''password''"
proof -
  let ?b = "\<lparr>cu_username = Some ''admin'', cu_password = Some ''password''\<rparr>"
  have "fst (create_user_handler demo_env demo_web ?b demo_world) = Inr (200, WB_Empty)"
    by code_simp
  then obtain w' where w': "create_user_handler demo_env demo_web ?b demo_world = (Inr (200, WB_Empty), w')"
    by (metis prod.collapse)
  have "username_new demo_web ''admin'' = Inr ''admin''" "we_bcrypt demo_web ''password'' = Inr ''password''" by code_simp+
  then show ?thesis using create_user_takes_over [OF w'] w' by auto
qed

end
