(* ===== verification/Web_System.thy ===== *)
theory Web_System
  imports Web_Job_Props Coordinator_Inv
begin

text \<open>
  The coordinator and the API on the same datastore and broker: the requests that change state are
  steps between the coordinator's. An invariant of the tasks and the ids drawn survives every one of them.
\<close>

section \<open>Requests as steps\<close>

inductive api_step :: "cenv \<Rightarrow> web_env \<Rightarrow> world \<Rightarrow> world \<Rightarrow> bool" for env wenv where
  create: "api_step env wenv w (snd (create_job_handler env wenv wait ct body w))"
| created: "api_step env wenv w (snd (wait_end env completion w))"
| cancel: "api_step env wenv w (snd (cancel_job_impl env i w))"
| restart: "api_step env wenv w (snd (restart_job_handler env i w))"
| delete: "api_step env wenv w (snd (delete_job_handler i w))"
| delete_queue: "api_step env wenv w (snd (delete_queue_handler q w))"
| create_user: "api_step env wenv w (snd (create_user_handler env wenv u w))"
| create_scheduled: "api_step env wenv w (snd (create_scheduled_job_handler env wenv json yaml ct body w))"
| pause: "api_step env wenv w (snd (pause_scheduled_job_handler env wenv i w))"
| resume: "api_step env wenv w (snd (resume_scheduled_job_handler env wenv i w))"
| delete_scheduled: "api_step env wenv w (snd (delete_scheduled_job_handler env wenv i w))"

inductive system_reach :: "cenv \<Rightarrow> web_env \<Rightarrow> (json \<Rightarrow> string + scheduled_job) \<Rightarrow> world \<Rightarrow> bool"
  for env wenv scheduled_of where
  start: "system_reach env wenv scheduled_of (snd (coordinator_start new_world))"
| coordinator: "system_reach env wenv scheduled_of w \<Longrightarrow> coord_step env scheduled_of w w' \<Longrightarrow> system_reach env wenv scheduled_of w'"
| api: "system_reach env wenv scheduled_of w \<Longrightarrow> api_step env wenv w w' \<Longrightarrow> system_reach env wenv scheduled_of w'"

section \<open>What depends on the tasks alone\<close>

locale task_framed =
  fixes I :: "world \<Rightarrow> bool"
  assumes frame: "I w \<Longrightarrow> task_part (w_ds w') = task_part (w_ds w) \<Longrightarrow> w_uuids w \<le> w_uuids w' \<Longrightarrow> I w'"
begin

lemma keeps_frame:
  "(\<And>w. task_part (w_ds (snd (m w))) = task_part (w_ds w)) \<Longrightarrow> (\<And>w. w_uuids w \<le> w_uuids (snd (m w))) \<Longrightarrow> keeps I m"
  unfolding keeps_def using frame by blast

lemma keeps_call:
  assumes "\<And>s. task_part (snd (m s)) = task_part s"
  shows "keeps I (ds_call m)" "keeps I (web_ds m)"
proof -
  show "keeps I (ds_call m)"
    by (rule keeps_frame; use assms in \<open>simp add: ds_call_run split: prod.split\<close>; metis snd_conv)
  then show "keeps I (web_ds m)" unfolding web_ds_def by (intro keeps_intros)
qed

lemma keeps_other:
  "keeps I (now_utc env)" "keeps I (new_short_uuid env)" "keeps I (broker_do env f)"
  "keeps I (modifies (w_bk_update g))" "keeps I (web_res r)" "keeps I (web_broker (broker_do env f))"
proof -
  show "keeps I (now_utc env)" "keeps I (new_short_uuid env)" "keeps I (broker_do env f)" "keeps I (modifies (w_bk_update g))"
    by (rule keeps_frame; simp add: now_utc_def new_short_uuid_def broker_do_def modifies_def Let_def split: option.split)+
  then show "keeps I (web_broker (broker_do env f))" unfolding web_broker_def by (intro keeps_wrap(3))
  show "keeps I (web_res r)" unfolding web_res_def by (intro keeps_intros)
qed

lemmas web_intros = keeps_intros keeps_other task_part_ops [THEN keeps_call(1)] task_part_ops [THEN keeps_call(2)]
  task_part_reads [THEN keeps_call(1)] task_part_reads [THEN keeps_call(2)]

lemma keeps_user: "keeps I web_default_user"
proof -
  have "task_part (snd (get_user n s)) = task_part s" for n s by (simp add: get_user_def eff_simps)
  then show ?thesis unfolding web_default_user_def by (intro keeps_intros keeps_call)
qed

lemma framed_publish: "keeps I (store_and_publish env j)" "keeps I (publish_scheduled env wenv sj)"
  unfolding store_and_publish_def publish_scheduled_def broker_publish_job_def broker_publish_event_def
  by (intro web_intros)+

lemma keeps_create: "keeps I (create_job_handler env wenv wait ct body)"
  unfolding create_job_handler_def enrich_job_defaults_def wait_begin_def create_job_no_wait_def Let_def
  by (intro web_intros keeps_user framed_publish)

lemma keeps_wait_end: "keeps I (wait_end env completion)"
  unfolding wait_end_def Let_def by (auto split: option.split sum.split intro!: web_intros)

lemma keeps_changes:
  "keeps I (cancel_job_impl env i)" "keeps I (restart_job_handler env i)" "keeps I (delete_job_handler i)"
  "keeps I (create_user_handler env wenv u)" "keeps I (delete_queue_handler q)"
proof -
  show "keeps I (cancel_job_impl env i)" "keeps I (restart_job_handler env i)" "keeps I (delete_job_handler i)"
    "keeps I (create_user_handler env wenv u)"
    unfolding cancel_job_impl_def restart_job_handler_def delete_job_handler_def create_user_handler_def broker_publish_job_def
    by (intro web_intros)+
  show "keeps I (delete_queue_handler q)"
    by (rule keeps_frame) (simp_all add: delete_queue_handler_def split: prod.split sum.split)
qed

lemma keeps_scheduled:
  "keeps I (pause_scheduled_job_handler env wenv i)" "keeps I (resume_scheduled_job_handler env wenv i)"
  "keeps I (delete_scheduled_job_handler env wenv i)" "keeps I (create_scheduled_job_handler env wenv json yaml ct body)"
  unfolding pause_scheduled_job_handler_def resume_scheduled_job_handler_def delete_scheduled_job_handler_def
    create_scheduled_job_handler_def build_scheduled_job_def Let_def
  by (auto intro!: web_intros framed_publish keeps_user split: prod.split)

lemma keeps_api_step: "api_step env wenv w w' \<Longrightarrow> I w \<Longrightarrow> I w'"
proof (induction rule: api_step.induct)
qed (use keeps_create keeps_wait_end keeps_changes keeps_scheduled in \<open>simp_all add: keeps_def\<close>)

end

interpretation tasks_same: task_framed "\<lambda>w. task_part (w_ds w) = T" for T
  by unfold_locales simp

interpretation tasks_fresh: task_framed "fresh_inv env R" for env R
  by unfold_locales (rule fresh_frame)

text \<open>C6. No request of the API that changes state changes a task: the stored tasks and both of their indexes are
  the same after it, whether it succeeds or fails. Only the coordinator's handlers do.\<close>

theorem api_leaves_tasks:
  "api_step env wenv w w' \<Longrightarrow> task_part (w_ds w') = task_part (w_ds w)"
  by (rule tasks_same.keeps_api_step) simp_all

theorem api_leaves_tasks_witness:
  "task_part (w_ds (snd (delete_job_handler demo_job_id demo_world))) = task_part (w_ds demo_world)"
  by (rule api_leaves_tasks [of _ demo_web]) (rule api_step.delete)

text \<open>C1. However requests to the API and steps of the coordinator follow one another, as long as the ids drawn so
  far differ, every stored task is stored under its own id, which was drawn, and the tasks and the active tasks
  listed for a job are exactly the stored ones of that job, each once.\<close>

theorem system_consistent:
  assumes "system_reach env wenv scheduled_of w" and "permuting env" and "inj_on (short_id env) {..<w_uuids w}"
  shows "(\<forall>i t. look_task (w_ds w) i = Some t \<longrightarrow> tk_id t = Some i \<and> i \<in> short_id env ` {..<w_uuids w}) \<and>
    (\<forall>j. \<exists>ts. get_all_tasks_for_job (ce_ids env) j (w_ds w) = (Inr ts, w_ds w) \<and> distinct (map tk_id ts) \<and>
      set ts = {t. (\<exists>i. look_task (w_ds w) i = Some t) \<and> tk_job_id t = Some j}) \<and>
    (\<forall>j. \<exists>ts. get_active_tasks (ce_ids env) j (w_ds w) = (Inr ts, w_ds w) \<and> distinct (map tk_id ts) \<and>
      set ts = {t. (\<exists>i. look_task (w_ds w) i = Some t) \<and> tk_job_id t = Some j \<and> is_active (tk_state t)})"
proof -
  from assms(1) have "fresh_inv env [] w"
  proof (induction rule: system_reach.induct)
    case start
    show ?case by (rule start_inv)
  next
    case (coordinator w w')
    then show ?case using step_inv [OF assms(2)] by blast
  next
    case (api w w')
    then show ?case using tasks_fresh.keeps_api_step by blast
  qed
  then have inv: "ds_inv (w_ds w)" and ids: "\<forall>i. look_task (w_ds w) i \<noteq> None \<longrightarrow> i \<in> drawn env w"
    using assms(3) by (auto simp: fresh_inv_def)
  have "look_task (w_ds w) i = Some t \<longrightarrow> tk_id t = Some i" for i t using inv by (simp add: ds_inv_def)
  then show ?thesis
    using ids tasks_for_job_exact [OF inv, of "ce_ids env" _ "\<lambda>_. True"]
      tasks_for_job_exact [OF inv, of "ce_ids env" _ task_is_active]
    by (auto simp: drawn_def get_all_tasks_for_job_def get_active_tasks_def asks_def task_is_active_def)
qed

text \<open>A job is submitted, its event delivered and the job deleted over the API while its task runs.\<close>

lemma coordinator_part: "coord_reach env scheduled_of w \<Longrightarrow> system_reach env wenv scheduled_of w"
  by (induction rule: coord_reach.induct) (auto intro: system_reach.intros)

lemma web_ds_uuids: "keeps (\<lambda>w. w_uuids w = n) (web_ds m)"
  by (simp add: keeps_def web_ds_def eff_map_err_def ds_call_run split: prod.split)

lemma delete_uuids: "w_uuids (snd (delete_job_handler i w)) = w_uuids w"
proof -
  have "keeps (\<lambda>w'. w_uuids w' = w_uuids w) (delete_job_handler i)"
    unfolding delete_job_handler_def by (intro keeps_intros web_ds_uuids)
  then show ?thesis by (simp add: keeps_def)
qed

theorem system_consistent_witness:
  "\<exists>ts. get_active_tasks (ce_ids demo_env) demo_job_id (w_ds (snd (delete_job_handler demo_job_id demo_started))) =
      (Inr ts, w_ds (snd (delete_job_handler demo_job_id demo_started))) \<and> distinct (map tk_id ts)"
proof -
  have "system_reach demo_env demo_web (\<lambda>_. Inl []) (snd (delete_job_handler demo_job_id demo_started))"
    using coordinator_part [OF demo_started_reach] by (rule system_reach.api) (rule api_step.delete)
  moreover have "permuting demo_env" by (simp add: permuting_def demo_env_def)
  moreover have "inj_on (short_id demo_env) {..<w_uuids (snd (delete_job_handler demo_job_id demo_started))}"
    unfolding delete_uuids demo_started_uuids by (simp add: lessThan_Suc)
  ultimately show ?thesis using system_consistent by blast
qed

end
