(* ===== verification/Worker.thy ===== *)
theory Worker
  imports Handler_Props Config
begin

text \<open>
  The worker: \<open>engine/worker/mod.rs\<close> of the application, which the engine starts, and the worker of the library
  (\<open>twerk-infrastructure/src/worker\<close>), with the parts of the runtimes that decide rather than call. A task is
  executed in two parts, before and after the run of the runtime, since anything may happen in between; the
  worker's own state is the map of the tasks it runs. What a runtime answers is an argument.
\<close>

section \<open>Errors of the runtimes\<close>

datatype shell_error = SH_IdAndRunScriptRequired | SH_ShellCommandRequired | SH_PidUnavailable | SH_ExitFailed int

datatype docker_worker_error =
    DW_TaskIdRequired | DW_TaskImageRequired | DW_ConnectionFailed string | DW_ContainerCreateFailed string
  | DW_ContainerStartFailed string | DW_ContainerWaitError string | DW_ContainerNonZeroExit int string
  | DW_MissingTaskIdForStop

text \<open>The error of a run, with its text; the others are those of the library.\<close>

datatype runtime_error = RE_Shell shell_error | RE_Docker docker_worker_error | RE_Other

definition runtime_exit_code :: "runtime_error \<Rightarrow> int option" where
  "runtime_exit_code e = (case e of RE_Shell (SH_ExitFailed c) \<Rightarrow> Some c
     | RE_Docker (DW_ContainerNonZeroExit c s) \<Rightarrow> Some c | _ \<Rightarrow> None)"

type_synonym run_result = "(runtime_error \<times> string) + string option"

section \<open>The worker of the application\<close>

record default_worker =
  dw_id :: string
  dw_name :: string
  dw_queues :: "(string \<times> int) list"
  dw_active :: "(task_id \<times> task) list"
  dw_world :: world

type_synonym 'a wk = "(default_worker, engine_error, 'a) eff"

definition on_world :: "'a act \<Rightarrow> 'a wk" where
  "on_world = zoom dw_world (\<lambda>s. dw_world_update (\<lambda>_. s))"

definition worker_publish_progress :: "cenv \<Rightarrow> task \<Rightarrow> unit wk" where
  "worker_publish_progress env t = on_world (broker_do env (publish_task_progress t))"

definition as_running :: "time \<Rightarrow> task \<Rightarrow> task" where
  "as_running now = upd_hdr (\<lambda>h. h\<lparr>th_state := TS_Running, th_started_at := Some now\<rparr>)"

definition execute_begin :: "cenv \<Rightarrow> task \<Rightarrow> task wk" where
  "execute_begin env t =
     and_then (lift_res (ok_or (tk_id t) (E_Msg ''task ID required for execution''))) (\<lambda>tid.
     and_then (modifies (dw_active_update (AList.update tid t))) (\<lambda>_.
     and_then (on_world (now_utc env)) (\<lambda>now.
     and_then (worker_publish_progress env (as_running now t)) (\<lambda>_. ret (as_running now t)))))"

definition with_run_result :: "time \<Rightarrow> run_result \<Rightarrow> task \<Rightarrow> task" where
  "with_run_result now r =
     (case r of
        Inr output \<Rightarrow> upd_hdr (\<lambda>h. h\<lparr>th_state := TS_Completed, th_completed_at := Some now, th_exit_code := Some 0,
          th_result := output\<rparr>)
      | Inl (e, text) \<Rightarrow> upd_hdr (\<lambda>h. h\<lparr>th_state := TS_Failed, th_failed_at := Some now, th_error := Some text,
          th_exit_code := runtime_exit_code e\<rparr>))"

text \<open>\<open>t\<close> is the running task, \<open>tid\<close> its id.\<close>

definition execute_end :: "cenv \<Rightarrow> task_id \<Rightarrow> task \<Rightarrow> run_result \<Rightarrow> unit wk" where
  "execute_end env tid t r =
     and_then (on_world (now_utc env)) (\<lambda>now.
     and_then (modifies (dw_active_update (AList.delete tid))) (\<lambda>_.
       worker_publish_progress env (with_run_result now r t)))"

text \<open>A request to cancel: the task that is stopped, if it runs here.\<close>

definition cancel_request :: "task \<Rightarrow> (task option) wk" where
  "cancel_request t =
     (case tk_id t of
        None \<Rightarrow> ret None
      | Some tid \<Rightarrow> and_then (asks (\<lambda>w. map_of (dw_active w) tid)) (\<lambda>running.
          and_then (modifies (dw_active_update (AList.delete tid))) (\<lambda>_. ret running)))"

text \<open>Its subscriptions: one for each slot of a queue, and the queue of its requests to cancel.\<close>

definition spawn_queue_subscribers :: "hname \<Rightarrow> (string \<times> int) list \<Rightarrow> hname broker \<Rightarrow> hname broker" where
  "spawn_queue_subscribers h qs b =
     fold (\<lambda>(qname, concurrency) b.
       if is_worker_queue qname then (subscribe_for_tasks qname h ^^ nat concurrency) b else b) qs b"

definition cancel_queue :: "string \<Rightarrow> string" where
  "cancel_queue worker_id = ''cancel.'' @ worker_id"

definition worker_start :: "hname \<Rightarrow> hname \<Rightarrow> unit wk" where
  "worker_start h cancel_h w =
     (Inr (), w\<lparr>dw_world := (dw_world w)\<lparr>w_bk := subscribe_for_tasks (cancel_queue (dw_id w)) cancel_h
        (spawn_queue_subscribers h (dw_queues w) (w_bk (dw_world w)))\<rparr>\<rparr>)"

definition heartbeat_node :: "string \<Rightarrow> string \<Rightarrow> string option \<Rightarrow> f64 \<Rightarrow> bool \<Rightarrow> node" where
  "heartbeat_node i name hostname cpu healthy =
     \<lparr>nd_id = Some i, nd_name = Some name, nd_started_at = None, nd_cpu_percent = Some cpu, nd_last_heartbeat_at = None,
      nd_queue = None, nd_status = Some (if healthy then NS_UP else NS_DOWN),
      nd_hostname = Some (case hostname of Some h \<Rightarrow> h | None \<Rightarrow> ''unknown''), nd_port = None, nd_task_count = None,
      nd_version = None\<rparr>"

definition send_heartbeat :: "cenv \<Rightarrow> string option \<Rightarrow> f64 \<Rightarrow> bool \<Rightarrow> unit wk" where
  "send_heartbeat env hostname cpu healthy =
     and_then (asks (\<lambda>w. heartbeat_node (dw_id w) (dw_name w) hostname cpu healthy)) (\<lambda>n.
       ignore (on_world (broker_do env (publish_heartbeat n))))"

section \<open>Its configuration\<close>

record worker_limits =
  wl_cpus :: string
  wl_memory :: string
  wl_timeout :: string

definition read_limits :: "config_state option \<Rightarrow> worker_limits" where
  "read_limits cfg =
     (let or_default = (\<lambda>key d. let v = string_default cfg key [] in if v = [] then d else v)
      in \<lparr>wl_cpus = or_default ''worker.limits.cpus'' ''1'', wl_memory = or_default ''worker.limits.memory'' ''512m'',
          wl_timeout = or_default ''worker.limits.timeout'' ''5m''\<rparr>)"

definition parse_i32 :: "string \<Rightarrow> int option" where
  "parse_i32 s = (case parse_i64 s of
      Some v \<Rightarrow> if - (2 ^ 31) \<le> sint v \<and> sint v < 2 ^ 31 then Some (sint v) else None | None \<Rightarrow> None)"

definition parse_worker_queue :: "string \<Rightarrow> (string \<times> int) option" where
  "parse_worker_queue q =
     (case split_on CHR '':'' q of
        [name, slots] \<Rightarrow> map_option (\<lambda>v. (trim name, v)) (parse_i32 (trim slots))
      | _ \<Rightarrow> None)"

text \<open>\<open>var\<close> is \<open>std::env::var\<close>, \<open>uuid\<close> a fresh UUID.\<close>

definition resolve_worker_config :: "(string \<Rightarrow> string option) \<Rightarrow> string \<Rightarrow> string \<times> string \<times> (string \<times> int) list" where
  "resolve_worker_config var uuid =
     (case var ''TWERK_WORKER_ID'' of Some i \<Rightarrow> i | None \<Rightarrow> uuid,
      case var ''TWERK_WORKER_NAME'' of Some n \<Rightarrow> n | None \<Rightarrow> ''Worker'',
      case var ''TWERK_WORKER_QUEUES'' of
        None \<Rightarrow> [(''default'', 1)]
      | Some s \<Rightarrow> extend_map [] (List.map_filter parse_worker_queue (split_on CHR '','' s)))"

section \<open>Variables of the host\<close>

text \<open>\<open>worker/mod.rs\<close>: entries that do not parse are left out, only the task itself is changed.\<close>

definition hostenv_entry :: "string \<Rightarrow> (string \<times> string) option" where
  "hostenv_entry v =
     (case split_on CHR '':'' v of
        [host] \<Rightarrow> if host \<noteq> [] then Some (host, host) else None
      | [host, name] \<Rightarrow> if host \<noteq> [] \<and> name \<noteq> [] then Some (host, name) else None
      | _ \<Rightarrow> None)"

datatype task_event_type = TE_Started | TE_StateChange | TE_Redelivered | TE_Progress

definition create_hostenv_middleware :: "(string \<Rightarrow> string option) \<Rightarrow> string list \<Rightarrow> (task_event_type \<Rightarrow> task \<Rightarrow> task) option" where
  "create_hostenv_middleware var vars =
     (let var_map = extend_map [] (List.map_filter hostenv_entry vars)
      in if var_map = [] then None
         else Some (\<lambda>et t. if et = TE_StateChange \<and> tk_state t = TS_Running
           then upd_hdr (\<lambda>h. h\<lparr>th_env := Some (extend_map (case th_env h of None \<Rightarrow> [] | Some e \<Rightarrow> e)
             (List.map_filter (\<lambda>(host, name). map_option (\<lambda>v. (name, v)) (var host)) var_map))\<rparr>) t
           else t))"

text \<open>\<open>coordinator/hostenv.rs\<close>: an entry that does not parse is an error, the tasks before and after are changed too.\<close>

definition parse_var_spec :: "string \<Rightarrow> string + string \<times> string" where
  "parse_var_spec spec =
     (case split_on CHR '':'' spec of
        [host] \<Rightarrow> Inr (host, host)
      | [host, name] \<Rightarrow> Inr (host, name)
      | _ \<Rightarrow> Inl (''invalid env var spec: '' @ spec))"

fun parse_var_list :: "string list \<Rightarrow> string + (string \<times> string) list" where
  "parse_var_list [] = Inr []"
| "parse_var_list (s # specs) = res_bind (parse_var_spec s) (\<lambda>p. res_bind (parse_var_list specs) (\<lambda>ps. Inr (p # ps)))"

definition parse_var_specs :: "string list \<Rightarrow> string + (string \<times> string) list" where
  "parse_var_specs specs = res_bind (parse_var_list specs) (\<lambda>ps. Inr (extend_map [] ps))"

definition get_existing_env_vars :: "(string \<Rightarrow> string option) \<Rightarrow> (string \<times> string) list \<Rightarrow> smap" where
  "get_existing_env_vars var m = extend_map [] (List.map_filter (\<lambda>(host, name). map_option (\<lambda>v. (name, v)) (var host)) m)"

definition merge_env :: "smap \<Rightarrow> task_hdr \<Rightarrow> task_hdr" where
  "merge_env vars h = h\<lparr>th_env := Some (extend_map (case th_env h of None \<Rightarrow> [] | Some e \<Rightarrow> e) vars)\<rparr>"

primrec apply_host_vars_recursive :: "smap \<Rightarrow> task \<Rightarrow> task" where
  "apply_host_vars_recursive vars (Task h p q s par e sj) =
     Task (merge_env vars h) (map_option (map (apply_host_vars_recursive vars)) p)
       (map_option (map (apply_host_vars_recursive vars)) q) (map_option (map (\<lambda>x. x)) s) (map_option (\<lambda>x. x) par)
       (map_option (\<lambda>x. x) e) (map_option (\<lambda>x. x) sj)"

definition hostenv_middleware :: "(string \<Rightarrow> string option) \<Rightarrow> (string \<times> string) list \<Rightarrow> task \<Rightarrow> task" where
  "hostenv_middleware var vars t =
     (if tk_state t = TS_Running then apply_host_vars_recursive (get_existing_env_vars var vars) t else t)"

section \<open>The worker of the library\<close>

record default_limits =
  dl_cpus :: string
  dl_memory :: string
  dl_timeout :: string

definition apply_limits :: "default_limits \<Rightarrow> task \<Rightarrow> task" where
  "apply_limits limits = upd_hdr (\<lambda>h.
     let has_cpu = dl_cpus limits \<noteq> []; has_mem = dl_memory limits \<noteq> [];
         l = (if th_limits h = None \<and> (has_cpu \<or> has_mem) then Some \<lparr>tl_cpus = None, tl_memory = None\<rparr> else th_limits h);
         l = map_option (\<lambda>l.
           let l = (if tl_cpus l = None \<and> has_cpu then l\<lparr>tl_cpus := Some (dl_cpus limits)\<rparr> else l)
           in if tl_memory l = None \<and> has_mem then l\<lparr>tl_memory := Some (dl_memory limits)\<rparr> else l) l
     in h\<lparr>th_limits := l,
          th_timeout := (if th_timeout h = None \<and> dl_timeout limits \<noteq> [] then Some (dl_timeout limits) else th_timeout h)\<rparr>)"

text \<open>Seconds; the products wrap.\<close>

definition worker_parse_duration :: "string \<Rightarrow> u64 option" where
  "worker_parse_duration s =
     (let s = trim s
      in if s = [] then None
         else let value_str = takeWhile is_digit s; unit = trim (drop (length value_str) s)
              in case parse_usize value_str of
                   None \<Rightarrow> None
                 | Some n \<Rightarrow>
                     let value = (word_of_nat n :: u64)
                     in if value = 0 then None
                        else if unit \<in> {''s'', ''sec'', ''second'', ''seconds''} then Some value
                        else if unit \<in> {''m'', ''min'', ''minute'', ''minutes''} then Some (value * 60)
                        else if unit \<in> {''h'', ''hour'', ''hours''} then Some (value * 3600)
                        else if unit \<in> {''d'', ''day'', ''days''} then Some (value * 86400)
                        else None)"

text \<open>What ends the wait for a run; a timeout only ends it when the task has one that parses.\<close>

datatype run_event = TE_Returned run_result | TE_Cancelled | TE_Elapsed

definition run_task_with_cancel :: "task \<Rightarrow> run_event \<Rightarrow> (string + string option) option" where
  "run_task_with_cancel t ev =
     (case ev of
        TE_Returned (Inr out) \<Rightarrow> Some (Inr out)
      | TE_Returned (Inl (e, text)) \<Rightarrow> Some (Inl text)
      | TE_Cancelled \<Rightarrow> Some (Inr None)
      | TE_Elapsed \<Rightarrow>
          (case Option.bind (th_timeout (hdr t)) worker_parse_duration of
             Some d \<Rightarrow> Some (Inl ''task timed out'') | None \<Rightarrow> None))"

definition lib_with_result :: "time \<Rightarrow> string + string option \<Rightarrow> task \<Rightarrow> task" where
  "lib_with_result now r =
     (case r of
        Inr out \<Rightarrow> upd_hdr (\<lambda>h. h\<lparr>th_state := TS_Completed, th_completed_at := Some now, th_result := out\<rparr>)
      | Inl text \<Rightarrow> upd_hdr (\<lambda>h. h\<lparr>th_state := TS_Failed, th_failed_at := Some now, th_error := Some text\<rparr>))"

section \<open>The shell runtime\<close>

datatype shutdown_error = SD_InvalidTaskId string | SD_TaskNotRunning tstate

text \<open>\<open>stop\<close>: whether the process is signalled.\<close>

definition shell_stop_check :: "(string \<times> nat) list \<Rightarrow> task \<Rightarrow> shutdown_error + nat option" where
  "shell_stop_check active_processes t =
     (let task_id = (case tk_id t of Some i \<Rightarrow> i | None \<Rightarrow> [])
      in if task_id = [] then Inl (SD_InvalidTaskId task_id)
         else if \<not> is_active (tk_state t) then Inl (SD_TaskNotRunning (tk_state t))
         else Inr (map_of active_processes task_id))"

definition shell_run_check :: "string list \<Rightarrow> task \<Rightarrow> shell_error + string \<times> string list \<times> string" where
  "shell_run_check cmd t =
     (let tid = (case tk_id t of Some i \<Rightarrow> i | None \<Rightarrow> []); script = (case th_run (hdr t) of Some r \<Rightarrow> r | None \<Rightarrow> [])
      in if tid = [] \<or> script = [] then Inl SH_IdAndRunScriptRequired
         else case cmd of [] \<Rightarrow> Inl SH_ShellCommandRequired
            | program # args \<Rightarrow> Inr (program, args, ''#!/bin/bash'' @ [CHR 0x0A] @ script))"

text \<open>What a run returns, of the exit code of the process (none if it was killed) and the text of the output file.\<close>

definition shell_result :: "int option \<Rightarrow> string \<Rightarrow> shell_error + string option" where
  "shell_result code output =
     (if code = Some 0 then Inr (if output \<noteq> [] then Some output else None)
      else Inl (SH_ExitFailed (case code of Some c \<Rightarrow> c | None \<Rightarrow> 1)))"

text \<open>The parts of the log: standard output and error, those that are not blank, numbered from 1.\<close>

definition log_parts_of :: "task_id \<Rightarrow> string \<Rightarrow> string \<Rightarrow> task_log_part list" where
  "log_parts_of tid stdout stderr =
     map (\<lambda>(index, contents). \<lparr>lp_id = None, lp_number = int index + 1, lp_task_id = Some tid,
         lp_contents = Some contents, lp_created_at = None\<rparr>)
       (List.enumerate 0 (filter (\<lambda>c. trim c \<noteq> []) [stdout, stderr]))"

text \<open>A report of progress, every ten seconds while the number in the file changes.\<close>

definition progress_report :: "task_id \<Rightarrow> f64 \<Rightarrow> task" where
  "progress_report tid p = Task (default_hdr\<lparr>th_id := Some tid, th_progress := p\<rparr>) None None None None None None"

section \<open>The docker runtime and the mounters\<close>

definition non_empty_output :: "string \<Rightarrow> string option" where
  "non_empty_output output = (if output \<noteq> [] then Some output else None)"

definition docker_status_to_exit_code :: "i64 \<Rightarrow> int" where
  "docker_status_to_exit_code code =
     (if - (2 ^ 31) \<le> sint code \<and> sint code < 2 ^ 31 then sint code else 2 ^ 31 - 1)"

definition docker_run_check :: "task \<Rightarrow> docker_worker_error + task_id" where
  "docker_run_check t =
     res_bind (ok_or (tk_id t) DW_TaskIdRequired) (\<lambda>tid.
       if tid = [] then Inl DW_TaskIdRequired
       else if th_image (hdr t) \<in> {None, Some []} then Inl DW_TaskImageRequired
       else Inr tid)"

datatype mounter_error = ME_BindMountsNotAllowed | ME_BindSourceNotAllowed string | ME_MissingMountId
  | ME_TmpfsTargetRequired | ME_TmpfsSourceNotEmpty

datatype mount_policy = MP_Denied | MP_Allowed "string list"

definition bind_mount :: "mount_policy \<Rightarrow> mount \<Rightarrow> mounter_error + string" where
  "bind_mount policy m =
     (let src = (case mt_source m of Some s \<Rightarrow> s | None \<Rightarrow> [])
      in case policy of
           MP_Denied \<Rightarrow> Inl ME_BindMountsNotAllowed
         | MP_Allowed sources \<Rightarrow>
             if sources \<noteq> [] \<and> \<not> list_ex (\<lambda>s. to_ascii_lowercase s = to_ascii_lowercase src) sources
             then Inl (ME_BindSourceNotAllowed src) else Inr src)"

definition volume_mount :: "mount \<Rightarrow> mounter_error + unit" where
  "volume_mount m = (if mt_id m \<in> {None, Some []} then Inl ME_MissingMountId else Inr ())"

definition tmpfs_mount :: "mount \<Rightarrow> mounter_error + unit" where
  "tmpfs_mount m =
     (if mt_target m \<in> {None, Some []} then Inl ME_TmpfsTargetRequired
      else if mt_source m \<notin> {None, Some []} then Inl ME_TmpfsSourceNotEmpty else Inr ())"

section \<open>What the worker and the coordinator make of a task\<close>

lemma handlers_subscribe: "queue_handlers (subscribe_for_tasks q h b) q' = (if q' = q then queue_handlers b q @ [h] else queue_handlers b q')"
  by (simp add: queue_handlers_def subscribe_for_tasks_def entry_push_def update_conv' or_empty_def split: option.split)

lemma handlers_slots:
  "queue_handlers ((subscribe_for_tasks q h ^^ n) b) q' = (if q' = q then queue_handlers b q @ replicate n h else queue_handlers b q')"
  by (induction n arbitrary: q') (simp_all add: handlers_subscribe replicate_append_same)

text \<open>In the in-memory broker every subscription gets every task, so a worker with \<open>n\<close> slots on a queue starts
  each task of the queue \<open>n\<close> times.\<close>

theorem task_started_per_slot:
  assumes "dw_queues w = [(q, c)]" and "is_worker_queue q" and "queue_handlers (w_bk (dw_world w)) q = []"
    and "q \<noteq> cancel_queue (dw_id w)" and "0 < c"
  shows "bk_spawned (publish_task q t (w_bk (dw_world (snd (worker_start h ch w))))) =
    bk_spawned (w_bk (dw_world (snd (worker_start h ch w)))) @ replicate (nat c) (h, M_Task t)"
  using assms
  by (simp add: worker_start_def spawn_queue_subscribers_def publish_task_def Let_def handlers_subscribe handlers_slots spawn_def
      queue_handlers_def [symmetric])

definition demo_worker :: default_worker where
  "demo_worker = \<lparr>dw_id = ''w'', dw_name = ''Worker'', dw_queues = [(''default'', 2)], dw_active = [], dw_world = demo_world\<rparr>"

theorem task_started_per_slot_witness:
  "bk_spawned (publish_task ''default'' demo_child (w_bk (dw_world (snd (worker_start (H_Other 0) (H_Other 1) demo_worker))))) =
    bk_spawned (w_bk (dw_world (snd (worker_start (H_Other 0) (H_Other 1) demo_worker)))) @
    [(H_Other 0, M_Task demo_child), (H_Other 0, M_Task demo_child)]"
proof -
  have "is_worker_queue ''default''" by code_simp
  moreover have "queue_handlers (w_bk (dw_world demo_worker)) ''default'' = []"
    by (simp add: demo_worker_def demo_world_def new_world_def new_broker_def queue_handlers_def or_empty_def)
  ultimately show ?thesis
    using task_started_per_slot [of demo_worker "''default''" 2 demo_child "H_Other 0" "H_Other 1"]
    by (simp add: demo_worker_def cancel_queue_def numeral_2_eq_2)
qed

lemma begin_run:
  "execute_begin env t w = (Inr t', w') \<Longrightarrow> \<exists>now i. t' = as_running now t \<and> tk_id t = Some i"
  by (auto simp: execute_begin_def and_then_def lift_res_def ok_or_def ret_def split: option.splits prod.splits sum.splits)

lemma begin_leaves_entry:
  assumes "tk_id t = Some i" and "ce_publish_fails env (w_pubs (dw_world w)) = Some e"
  shows "\<exists>w'. execute_begin env t w = (Inl (E_Msg e), w') \<and> map_of (dw_active w') i = Some t"
  using assms
  by (simp add: execute_begin_def and_then_def lift_res_def modifies_def on_world_def zoom_def now_run
      worker_publish_progress_def broker_do_def Let_def update_conv')

lemma progress_persisted:
  assumes "look_task (w_ds v) i = Some u" and "valid_id env i" and "tk_id t = Some i"
    and "tk_state t \<notin> {TS_Pending, TS_Completed, TS_Failed}"
  shows "\<exists>v' u'. handle_task_progress env t v = (Inr (), v') \<and> look_task (w_ds v') i = Some u' \<and> tk_state u' = tk_state t \<and>
    th_started_at (hdr u') = th_started_at (hdr t) \<and> th_result (hdr u') = th_result (hdr t) \<and>
    th_progress (hdr u') = th_progress (hdr u)"
  using assms
  by (cases "tk_state t"; cases u) (simp_all add: handle_task_progress_def persist_task_progress_def run_simps)

lemma report_sel: "tk_id (progress_report i p) = Some i" "tk_state (progress_report i p) = TS_Created"
  "th_started_at (hdr (progress_report i p)) = None"
  by (simp_all add: progress_report_def default_hdr_def)

text \<open>A report of progress by the shell runtime, the reported number apart, is the default task: when the coordinator handles
  it, the stored task goes back to the state Created without a time of its start, whatever state it was in, and
  its progress stays what it was.\<close>

theorem progress_report_resets:
  assumes "look_task (w_ds v) i = Some u" and "valid_id env i"
  shows "\<exists>v' u'. handle_task_progress env (progress_report i p) v = (Inr (), v') \<and> look_task (w_ds v') i = Some u' \<and>
    tk_state u' = TS_Created \<and> th_started_at (hdr u') = None \<and> th_progress (hdr u') = th_progress (hdr u)"
  using progress_persisted [OF assms, of "progress_report i p"] by (auto simp: report_sel)

theorem progress_report_resets_witness:
  "\<exists>v' u'. handle_task_progress demo_env (progress_report ''child'' 1) demo_world = (Inr (), v') \<and>
    look_task (w_ds v') ''child'' = Some u' \<and> tk_state u' = TS_Created"
  using progress_report_resets [OF demo_sel(1) demo_ids(1), of 1] by blast

text \<open>The messages of a run are delivered in any order: if the coordinator handles the start of a task after its end,
  or after it was cancelled, the stored task is running again.\<close>

theorem late_start_reverts:
  assumes "execute_begin env t w = (Inr t', w')" and "tk_id t = Some i"
    and "look_task (w_ds v) i = Some u" and "valid_id env i"
  shows "\<exists>v' u'. handle_task_progress env t' v = (Inr (), v') \<and> look_task (w_ds v') i = Some u' \<and> tk_state u' = TS_Running"
proof -
  obtain now where t': "t' = as_running now t" using begin_run [OF assms(1)] by blast
  have "tk_id t' = Some i" "tk_state t' = TS_Running"
    using assms(2) t' by (cases t; simp add: as_running_def)+
  then show ?thesis using progress_persisted [OF assms(3,4), of t'] by auto
qed

theorem late_start_reverts_witness:
  "\<exists>t' w' v' u'. execute_begin demo_env demo_child demo_worker = (Inr t', w') \<and>
    handle_task_progress demo_env t' demo_world = (Inr (), v') \<and>
    look_task (w_ds v') ''child'' = Some u' \<and> tk_state u' = TS_Running"
proof -
  obtain t' w' where r: "execute_begin demo_env demo_child demo_worker = (Inr t', w')"
    by (simp add: execute_begin_def and_then_def lift_res_def modifies_def on_world_def zoom_def now_run ret_def
        worker_publish_progress_def broker_ok demo_env_def)
  show ?thesis using r late_start_reverts [OF r demo_sel(4) demo_sel(1) demo_ids(1)] by blast
qed

text \<open>C8. When the last task of a job ends well, its report has the coordinator store the task as completed, with
  the output and the exit code 0, and publish the job as completed.\<close>

theorem run_completes_job:
  assumes "tk_id t = Some i" and "tk_parent_id t = None" and "tk_job_id t = Some j"
    and "look_task (w_ds v) i = Some u" and "valid_id env i" and "\<forall>n. ce_publish_fails env n = None"
    and "look_job (w_ds v) j = Some jb" and "jb_tasks jb = Some ts" and "jb_position jb = int (length ts)"
  shows "\<exists>v' u'. handle_task_progress env (with_run_result now (Inr out) t) v = (Inr (), v') \<and>
    look_task (w_ds v') i = Some u' \<and> tk_state u' = TS_Completed \<and> th_result (hdr u') = out \<and>
    th_exit_code (hdr u') = Some 0 \<and> w_bk v' = publish_job (jb\<lparr>jb_state := JS_Completed\<rparr>) (w_bk v)"
proof -
  let ?t = "with_run_result now (Inr out) t"
  have t: "tk_id ?t = Some i" "tk_parent_id ?t = None" "tk_job_id ?t = Some j" "tk_state ?t = TS_Completed"
    "th_result (hdr ?t) = out" "th_exit_code (hdr ?t) = Some 0"
    using assms(1-3) by (cases t; simp add: with_run_result_def)+
  let ?u = "upd_hdr (\<lambda>h. h\<lparr>th_state := TS_Completed, th_completed_at := th_completed_at (hdr ?t), th_result := th_result (hdr ?t),
    th_exit_code := th_exit_code (hdr ?t)\<rparr>) u"
  let ?v = "v\<lparr>w_ds := put_task i ?u (w_ds v)\<rparr>"
  have 1: "persist_completed_task env ?t v = (Inr (), ?v)"
    using t(1) assms(4,5) by (simp add: persist_completed_task_def run_simps)
  obtain hs where 2: "snd (fire_task_webhooks ?t ''task.Completed'' ?v) = ?v\<lparr>w_hooks := hs\<rparr>"
    using webhooks_frame by blast
  have 3: "handle_top_level_task_completed env j (?v\<lparr>w_hooks := hs\<rparr>) = (Inr (), ?v\<lparr>w_hooks := hs, w_clock := Suc (w_clock v),
      w_pubs := Suc (w_pubs v), w_bk := publish_job (jb\<lparr>jb_state := JS_Completed\<rparr>) (w_bk v)\<rparr>)"
    using assms(6-9) by (simp add: handle_top_level_task_completed_def run_simps Let_def)
  have "handle_task_progress env ?t v = (Inr (), ?v\<lparr>w_hooks := hs, w_clock := Suc (w_clock v),
      w_pubs := Suc (w_pubs v), w_bk := publish_job (jb\<lparr>jb_state := JS_Completed\<rparr>) (w_bk v)\<rparr>)"
    using t 1 2 3 by (simp add: handle_task_progress_def handle_task_completed_def route_completed_task_def and_then_def
        ignore_def lift_res_def)
  then show ?thesis using t(5,6) by (cases u) simp
qed

theorem run_completes_job_witness:
  "\<exists>v'. handle_task_progress demo_env (with_run_result 5 (Inr (Some ''out'')) demo_parent) demo_world = (Inr (), v') \<and>
    w_bk v' = publish_job (demo_job\<lparr>jb_state := JS_Completed\<rparr>) (w_bk demo_world)"
proof -
  have j: "jb_tasks demo_job = Some [demo_parent]" "jb_position demo_job = int (length [demo_parent])"
    by (simp_all add: demo_job_def default_job_def)
  show ?thesis
    using run_completes_job [OF demo_sel(8,9,10,2) demo_ids(2) _ demo_sel(3) j, of 5 "Some ''out''"]
    by (auto simp: demo_env_def)
qed

text \<open>A task the library's worker is asked to cancel is reported as completed.\<close>

lemma lib_cancelled_completes:
  "run_task_with_cancel t TE_Cancelled = Some r \<Longrightarrow> tk_state (lib_with_result now r t) = TS_Completed"
  by (cases t) (auto simp: run_task_with_cancel_def lib_with_result_def)

end
