(* ===== verification/Engine.thy ===== *)
theory Engine
  imports Config Queue_Names
begin

text \<open>
  The engine (\<open>twerk-app/src/engine\<close>): starting it in its three modes, ending it, the tasks that wait for a
  signal, what is registered with it before it starts, and what the command line makes of it
  (\<open>run_engine\<close>). Whether the parts can be created and started and the address of the API be bound is an argument.
\<close>

section \<open>State\<close>

datatype engine_mode = EM_Coordinator | EM_Worker | EM_Standalone

datatype engine_state = ES_Idle | ES_Running | ES_Terminating | ES_Terminated

fun state_is_terminal :: "engine_state \<Rightarrow> bool" where
  "state_is_terminal s = (s = ES_Terminated)"

fun engine_can_transition_to :: "engine_state \<Rightarrow> engine_state \<Rightarrow> bool" where
  "engine_can_transition_to ES_Idle _ = True"
| "engine_can_transition_to ES_Running ES_Terminating = True"
| "engine_can_transition_to ES_Terminating ES_Terminated = True"
| "engine_can_transition_to _ _ = False"

datatype part_state = PT_Absent | PT_Started | PT_Stopped

text \<open>
  \<open>en_watchers\<close>: the tasks spawned by \<open>spawn_signal_handler\<close> that still wait; \<open>en_waiters\<close>: the calls of
  \<open>await_shutdown\<close> that wait on the \<open>Notify\<close>, which keeps no permit for a call to come; \<open>en_returned\<close>: those that have
  returned. \<open>'m\<close> is a middleware, \<open>'h\<close> a handler of an endpoint.
\<close>

record ('m, 'h) engine =
  en_phase :: engine_state
  en_mode :: engine_mode
  en_engine_id :: "string option"
  en_worker :: part_state
  en_coordinator :: part_state
  en_watchers :: nat
  en_waiters :: nat
  en_returned :: nat
  en_task_middleware :: "'m list"
  en_endpoints :: "(string \<times> 'h) list"
  en_runtime :: "string option"

datatype engine_lifecycle_error = EG_NotIdle | EG_NotRunning | EG_Part string

text \<open>Reading the environment and the configuration.\<close>

definition var_with_twerk_prefix :: "(string \<Rightarrow> string) \<Rightarrow> (string \<Rightarrow> string option) \<Rightarrow> string \<Rightarrow> string option" where
  "var_with_twerk_prefix upper var key =
     (case var (''TWERK_'' @ map (\<lambda>c. if c = CHR ''.'' then CHR ''_'' else c) (upper key)) of
        Some v \<Rightarrow> if v \<noteq> [] then Some v else None
      | None \<Rightarrow> None)"

record settings =
  st_upper :: "string \<Rightarrow> string"
  st_var :: "string \<Rightarrow> string option"
  st_config :: "config_state option"

definition config_string_opt :: "settings \<Rightarrow> string \<Rightarrow> string option" where
  "config_string_opt st key = (let v = conf_string (st_config st) key in if v = [] then None else Some v)"

definition env_string :: "settings \<Rightarrow> string \<Rightarrow> string" where
  "env_string st key = (case var_with_twerk_prefix (st_upper st) (st_var st) key of
     Some v \<Rightarrow> v | None \<Rightarrow> conf_string (st_config st) key)"

definition env_string_default :: "settings \<Rightarrow> string \<Rightarrow> string \<Rightarrow> string" where
  "env_string_default st key d = (let v = env_string st key in if v = [] then d else v)"

definition env_or_config_string :: "settings \<Rightarrow> string \<Rightarrow> string option" where
  "env_or_config_string st key = (case var_with_twerk_prefix (st_upper st) (st_var st) key of
     Some v \<Rightarrow> Some v | None \<Rightarrow> config_string_opt st key)"

definition non_blank :: "string \<Rightarrow> string option" where
  "non_blank v = (let t = trim v in if t = [] then None else Some t)"

definition resolve_engine_id :: "settings \<Rightarrow> string option \<Rightarrow> string option" where
  "resolve_engine_id st config_engine_id =
     (case Option.bind config_engine_id non_blank of
        Some i \<Rightarrow> Some i
      | None \<Rightarrow> Option.bind (env_or_config_string st ''engine.id'') non_blank)"

definition resolve_broker_type :: "settings \<Rightarrow> string" where
  "resolve_broker_type st = (case env_or_config_string st ''broker.type'' of Some v \<Rightarrow> v | None \<Rightarrow> ''inmemory'')"

definition resolve_locker_type :: "settings \<Rightarrow> string" where
  "resolve_locker_type st =
     (case env_or_config_string st ''locker.type'' of
        Some v \<Rightarrow> v
      | None \<Rightarrow> (case env_or_config_string st ''datastore.type'' of Some v \<Rightarrow> v | None \<Rightarrow> ''inmemory''))"

definition new_engine :: "settings \<Rightarrow> engine_mode \<Rightarrow> string option \<Rightarrow> 'm list \<Rightarrow> (string \<times> 'h) list \<Rightarrow> ('m, 'h) engine" where
  "new_engine st mode engine_id mws endpoints =
     \<lparr>en_phase = ES_Idle, en_mode = mode, en_engine_id = resolve_engine_id st engine_id, en_worker = PT_Absent,
      en_coordinator = PT_Absent, en_watchers = 0, en_waiters = 0, en_returned = 0, en_task_middleware = mws,
      en_endpoints = endpoints, en_runtime = None\<rparr>"

section \<open>Before the start\<close>

definition set_mode :: "engine_mode \<Rightarrow> ('m, 'h) engine \<Rightarrow> ('m, 'h) engine" where
  "set_mode mode e = (if en_phase e = ES_Idle then e\<lparr>en_mode := mode\<rparr> else e)"

definition register_task_middleware :: "'m \<Rightarrow> ('m, 'h) engine \<Rightarrow> ('m, 'h) engine" where
  "register_task_middleware mw e =
     (if en_phase e \<noteq> ES_Idle then e else e\<lparr>en_task_middleware := en_task_middleware e @ [mw]\<rparr>)"

definition register_endpoint :: "string \<Rightarrow> string \<Rightarrow> 'h \<Rightarrow> ('m, 'h) engine \<Rightarrow> ('m, 'h) engine" where
  "register_endpoint meth path h e =
     (if en_phase e \<noteq> ES_Idle then e
      else e\<lparr>en_endpoints := AList.update (meth @ '' '' @ path) h (en_endpoints e)\<rparr>)"

definition register_runtime :: "string \<Rightarrow> ('m, 'h) engine \<Rightarrow> ('m, 'h) engine" where
  "register_runtime rt e =
     (if en_phase e \<noteq> ES_Idle then e else if en_runtime e \<noteq> None then e else e\<lparr>en_runtime := Some rt\<rparr>)"

text \<open>The first middleware is the outermost.\<close>

definition compose_task_handler :: "('h \<Rightarrow> 'h) list \<Rightarrow> 'h \<Rightarrow> 'h" where
  "compose_task_handler mws handler = fold (\<lambda>mw h. mw h) (rev mws) handler"

section \<open>Start and end\<close>

text \<open>The outcomes of creating and starting the parts, \<open>None\<close> if they succeed.\<close>

record part_outcomes =
  po_broker :: "string option"
  po_datastore :: "string option"
  po_locker :: "string option"
  po_worker_created :: "string option"
  po_worker_started :: "string option"
  po_coordinator_created :: "string option"
  po_coordinator_started :: "string option"

definition attempt :: "string option \<Rightarrow> ('m, 'h) engine \<Rightarrow>
    (('m, 'h) engine \<Rightarrow> (engine_lifecycle_error + unit) \<times> ('m, 'h) engine) \<Rightarrow>
    (engine_lifecycle_error + unit) \<times> ('m, 'h) engine" where
  "attempt r e k = (case r of None \<Rightarrow> k e | Some m \<Rightarrow> (Inl (EG_Part m), e))"

definition spawn_signal_handler :: "('m, 'h) engine \<Rightarrow> ('m, 'h) engine" where
  "spawn_signal_handler e = e\<lparr>en_watchers := Suc (en_watchers e)\<rparr>"

definition run_coordinator :: "part_outcomes \<Rightarrow> ('m, 'h) engine \<Rightarrow> (engine_lifecycle_error + unit) \<times> ('m, 'h) engine" where
  "run_coordinator po e =
     attempt (po_broker po) e (\<lambda>e. attempt (po_datastore po) e (\<lambda>e. attempt (po_locker po) e (\<lambda>e.
     attempt (po_coordinator_created po) e (\<lambda>e. attempt (po_coordinator_started po) e (\<lambda>e.
       (Inr (), spawn_signal_handler (e\<lparr>en_coordinator := PT_Started\<rparr>)))))))"

definition run_worker :: "part_outcomes \<Rightarrow> ('m, 'h) engine \<Rightarrow> (engine_lifecycle_error + unit) \<times> ('m, 'h) engine" where
  "run_worker po e =
     attempt (po_broker po) e (\<lambda>e.
       let e = e\<lparr>en_runtime := None\<rparr>
       in attempt (po_worker_created po) e (\<lambda>e. attempt (po_worker_started po) e (\<lambda>e.
            (Inr (), spawn_signal_handler (e\<lparr>en_worker := PT_Started\<rparr>)))))"

definition run_standalone :: "part_outcomes \<Rightarrow> ('m, 'h) engine \<Rightarrow> (engine_lifecycle_error + unit) \<times> ('m, 'h) engine" where
  "run_standalone po e =
     attempt (po_broker po) e (\<lambda>e. attempt (po_datastore po) e (\<lambda>e. attempt (po_locker po) e (\<lambda>e.
       let e = e\<lparr>en_runtime := None\<rparr>
       in attempt (po_worker_created po) e (\<lambda>e. attempt (po_worker_started po) e (\<lambda>e.
            let e = e\<lparr>en_worker := PT_Started\<rparr>
            in attempt (po_coordinator_created po) e (\<lambda>e. attempt (po_coordinator_started po) e (\<lambda>e.
                 (Inr (), spawn_signal_handler (e\<lparr>en_coordinator := PT_Started\<rparr>)))))))))"

definition engine_start :: "part_outcomes \<Rightarrow> ('m, 'h) engine \<Rightarrow> (engine_lifecycle_error + unit) \<times> ('m, 'h) engine" where
  "engine_start po e =
     (if en_phase e \<noteq> ES_Idle then (Inl EG_NotIdle, e)
      else case (case en_mode e of EM_Coordinator \<Rightarrow> run_coordinator po e | EM_Worker \<Rightarrow> run_worker po e
                 | EM_Standalone \<Rightarrow> run_standalone po e) of
          (Inl err, e) \<Rightarrow> (Inl err, e)
        | (Inr u, e) \<Rightarrow> (Inr (), e\<lparr>en_phase := ES_Running\<rparr>))"

definition stop_parts :: "('m, 'h) engine \<Rightarrow> ('m, 'h) engine" where
  "stop_parts e = e\<lparr>en_worker := (if en_worker e = PT_Absent then PT_Absent else PT_Stopped),
     en_coordinator := (if en_coordinator e = PT_Absent then PT_Absent else PT_Stopped)\<rparr>"

text \<open>The broadcast ends the tasks that wait for a signal; they stop the same parts again.\<close>

definition engine_terminate :: "('m, 'h) engine \<Rightarrow> (engine_lifecycle_error + unit) \<times> ('m, 'h) engine" where
  "engine_terminate e =
     (if en_phase e \<noteq> ES_Running then (Inl EG_NotRunning, e)
      else let e = stop_parts (e\<lparr>en_phase := ES_Terminating, en_watchers := 0\<rparr>)
           in (Inr (), e\<lparr>en_phase := ES_Terminated, en_returned := en_returned e + en_waiters e, en_waiters := 0\<rparr>))"

definition await_shutdown :: "('m, 'h) engine \<Rightarrow> ('m, 'h) engine" where
  "await_shutdown e = e\<lparr>en_waiters := Suc (en_waiters e)\<rparr>"

text \<open>A signal reaches the process: the tasks that wait for one clean up.\<close>

definition on_signal :: "('m, 'h) engine \<Rightarrow> ('m, 'h) engine" where
  "on_signal e = (if en_watchers e = 0 then e else stop_parts (e\<lparr>en_watchers := 0\<rparr>))"

section \<open>The command\<close>

fun engine_error_display :: "engine_lifecycle_error \<Rightarrow> string" where
  "engine_error_display EG_NotIdle = ''engine is not idle''"
| "engine_error_display EG_NotRunning = ''engine is not running''"
| "engine_error_display (EG_Part m) = m"

datatype cli_error = CL_InvalidHostname string | CL_Engine string

definition validate_hostname :: "string \<Rightarrow> cli_error + unit" where
  "validate_hostname h =
     (if h = [] then Inl (CL_InvalidHostname ''hostname cannot be empty'')
      else if str_contains h ''://'' then Inl (CL_InvalidHostname ''hostname cannot contain scheme'')
      else if str_contains h '':'' then Inl (CL_InvalidHostname ''hostname cannot contain port'')
      else Inr ())"

definition api_enabled :: "engine_mode \<Rightarrow> bool" where
  "api_enabled mode \<longleftrightarrow> mode = EM_Coordinator \<or> mode = EM_Standalone"

text \<open>Whether there is a task that serves the API; \<open>bind\<close> is what binding the address of the configuration answers.\<close>

definition start_api_server :: "string + unit \<Rightarrow> engine_mode \<Rightarrow> string + bool" where
  "start_api_server bind mode = (if \<not> api_enabled mode then Inr False else map_err id (res_bind bind (\<lambda>_. Inr True)))"

text \<open>
  The command either has returned or waits in \<open>await_shutdown\<close>, with its engine and the task of the API. \<open>run_engine\<close> is
  what it does up to there.
\<close>

datatype ('m, 'h) command =
    CD_Returned "cli_error + unit"
  | CD_Waiting "('m, 'h) engine" bool

definition run_engine :: "settings \<Rightarrow> part_outcomes \<Rightarrow> string + unit \<Rightarrow> engine_mode \<Rightarrow> string option \<Rightarrow> ('m, 'h) command" where
  "run_engine st po bind mode hostname =
     (case (case hostname of Some h \<Rightarrow> validate_hostname h | None \<Rightarrow> Inr ()) of
        Inl e \<Rightarrow> CD_Returned (Inl e)
      | Inr _ \<Rightarrow> (case engine_start po (new_engine st mode None [] []) of
          (Inl e, _) \<Rightarrow> CD_Returned (Inl (CL_Engine (engine_error_display e)))
        | (Inr _, engine) \<Rightarrow> (case start_api_server bind mode of
            Inl e \<Rightarrow> CD_Returned (Inl (CL_Engine e))
          | Inr api \<Rightarrow> CD_Waiting (await_shutdown engine) api)))"

text \<open>
  What happens while it waits: signals reach the process at any time, and once its wait is over the command returns. The
  engine is the command's own, so that no one else can end it.
\<close>

inductive command_runs :: "settings \<Rightarrow> part_outcomes \<Rightarrow> string + unit \<Rightarrow> engine_mode \<Rightarrow> string option \<Rightarrow> ('m, 'h) command \<Rightarrow> bool"
    for st po bind mode hostname where
  begun: "command_runs st po bind mode hostname (run_engine st po bind mode hostname)"
| signal: "command_runs st po bind mode hostname (CD_Waiting e api) \<Longrightarrow>
    command_runs st po bind mode hostname (CD_Waiting (on_signal e) api)"
| woken: "command_runs st po bind mode hostname (CD_Waiting e api) \<Longrightarrow> en_waiters e = 0 \<Longrightarrow>
    command_runs st po bind mode hostname (CD_Returned (Inr ()))"

section \<open>Properties\<close>

lemma stop_parts_sel [simp]:
  "en_phase (stop_parts e) = en_phase e" "en_waiters (stop_parts e) = en_waiters e"
  "en_returned (stop_parts e) = en_returned e" "en_watchers (stop_parts e) = en_watchers e"
  by (simp_all add: stop_parts_def)

text \<open>Whether a start succeeds does not depend on the types of what is registered.\<close>

definition parts_fail :: "part_outcomes \<Rightarrow> engine_mode \<Rightarrow> bool" where
  "parts_fail po mode \<longleftrightarrow> po_broker po \<noteq> None \<or>
     (mode \<noteq> EM_Worker \<and> (po_datastore po \<noteq> None \<or> po_locker po \<noteq> None \<or> po_coordinator_created po \<noteq> None \<or> po_coordinator_started po \<noteq> None)) \<or>
     (mode \<noteq> EM_Coordinator \<and> (po_worker_created po \<noteq> None \<or> po_worker_started po \<noteq> None))"

lemma engine_start_fails: "isl (fst (engine_start po (new_engine st mode None ms es))) \<longleftrightarrow> parts_fail po mode"
  by (cases mode) (auto simp: engine_start_def new_engine_def run_coordinator_def run_worker_def run_standalone_def attempt_def
    parts_fail_def Let_def split: option.split)

definition start_refused :: "part_outcomes \<Rightarrow> string + unit \<Rightarrow> engine_mode \<Rightarrow> string option \<Rightarrow> bool" where
  "start_refused po bind mode hostname \<longleftrightarrow>
     (\<exists>h e. hostname = Some h \<and> validate_hostname h = Inl e) \<or>
     parts_fail po mode \<or> (api_enabled mode \<and> isl bind)"

text \<open>What holds of an engine that runs while one call waits for its end: the parts are started until the first signal,
  and after it none is.\<close>

definition waits_stopped_by_signal :: "engine_mode \<Rightarrow> ('m, 'h) engine \<Rightarrow> bool" where
  "waits_stopped_by_signal mode e \<longleftrightarrow> en_phase e = ES_Running \<and> en_waiters e = 1 \<and>
     (if en_watchers e = 0 then en_worker e \<noteq> PT_Started \<and> en_coordinator e \<noteq> PT_Started
      else en_watchers e = 1 \<and> (en_worker e = PT_Started \<longleftrightarrow> mode \<noteq> EM_Coordinator) \<and>
        (en_coordinator e = PT_Started \<longleftrightarrow> mode \<noteq> EM_Worker))"

lemma started_waits:
  assumes "engine_start po (new_engine st mode None ms es) = (Inr (), e)"
  shows "waits_stopped_by_signal mode (await_shutdown e)"
  using assms
  by (cases mode) (auto simp: engine_start_def new_engine_def run_coordinator_def run_worker_def run_standalone_def attempt_def
    Let_def waits_stopped_by_signal_def await_shutdown_def spawn_signal_handler_def split: option.splits)

lemma signal_waits: "waits_stopped_by_signal mode e \<Longrightarrow> waits_stopped_by_signal mode (on_signal e)"
  by (auto simp: waits_stopped_by_signal_def on_signal_def stop_parts_def split: if_splits)

lemma run_engine_cases:
  "case run_engine st po bind mode hostname :: ('m, 'h) command of
     CD_Returned r \<Rightarrow> isl r \<and> start_refused po bind mode hostname
   | CD_Waiting e api \<Rightarrow> \<not> start_refused po bind mode hostname \<and> api = api_enabled mode \<and> waits_stopped_by_signal mode e"
proof -
  let ?E = "new_engine st mode None [] [] :: ('m, 'h) engine"
  obtain r e where s: "engine_start po ?E = (r, e)" by fastforce
  have r: "parts_fail po mode = isl r" using engine_start_fails [of po st mode "[]" "[]"] s by (metis fst_conv)
  show ?thesis
  proof (cases "case hostname of Some h \<Rightarrow> validate_hostname h | None \<Rightarrow> Inr ()")
    case (Inl x)
    then show ?thesis by (auto simp: run_engine_def start_refused_def split: option.splits)
  next
    case (Inr x)
    then have h: "\<not> (\<exists>h e. hostname = Some h \<and> validate_hostname h = Inl e)" by (auto split: option.splits)
    show ?thesis
    proof (cases r)
      case (Inl y)
      then show ?thesis using Inr s r by (simp add: run_engine_def start_refused_def)
    next
      case started: (Inr u)
      then have w: "waits_stopped_by_signal mode (await_shutdown e)" using started_waits [of po st mode "[]" "[]" e] s by simp
      show ?thesis using Inr s r h w started
        by (cases bind) (auto simp: run_engine_def start_refused_def start_api_server_def)
    qed
  qed
qed

text \<open>C27. The command never ends well: it returns with an error exactly if the host name is not accepted, a part of the
  engine cannot be started or the address of the API cannot be bound; otherwise it waits for ever, whatever signals
  reach the process: the first one stops the worker and the coordinator, and still the wait goes on, with the engine
  in the state Running.\<close>

theorem command_never_ends_well:
  assumes "command_runs st po bind mode hostname c"
  shows "case c of
      CD_Returned r \<Rightarrow> isl r \<and> start_refused po bind mode hostname
    | CD_Waiting e api \<Rightarrow> \<not> start_refused po bind mode hostname \<and> api = api_enabled mode \<and> waits_stopped_by_signal mode e"
  using assms
proof (induction rule: command_runs.induct)
  case begun
  show ?case by (rule run_engine_cases)
next
  case (signal e api)
  then show ?case using signal_waits [of mode e] by simp
next
  case (woken e api)
  then show ?case by (simp add: waits_stopped_by_signal_def)
qed

definition all_well :: part_outcomes where
  "all_well = \<lparr>po_broker = None, po_datastore = None, po_locker = None, po_worker_created = None,
     po_worker_started = None, po_coordinator_created = None, po_coordinator_started = None\<rparr>"

definition no_settings :: settings where
  "no_settings = \<lparr>st_upper = id, st_var = \<lambda>_. None, st_config = None\<rparr>"

theorem command_never_ends_well_witness:
  "\<exists>e. command_runs no_settings all_well (Inr ()) EM_Standalone (Some ''host'') (CD_Waiting (on_signal e) True :: (nat, nat) command) \<and>
     waits_stopped_by_signal EM_Standalone (on_signal e) \<and> en_watchers (on_signal e) = 0 \<and>
     en_worker (on_signal e) = PT_Stopped \<and> en_coordinator (on_signal e) = PT_Stopped"
proof -
  obtain e where e: "run_engine no_settings all_well (Inr ()) EM_Standalone (Some ''host'') = (CD_Waiting e True :: (nat, nat) command)"
      "en_watchers e \<noteq> 0" "en_worker e = PT_Started" "en_coordinator e = PT_Started"
    by (simp add: run_engine_def validate_hostname_def engine_start_def run_standalone_def attempt_def all_well_def no_settings_def
      new_engine_def start_api_server_def api_enabled_def await_shutdown_def spawn_signal_handler_def)
  have runs: "command_runs no_settings all_well (Inr ()) EM_Standalone (Some ''host'') (CD_Waiting (on_signal e) True :: (nat, nat) command)"
    using command_runs.signal command_runs.begun e(1) by metis
  then show ?thesis using command_never_ends_well [OF runs] e by (auto simp: on_signal_def stop_parts_def)
qed

text \<open>A call of \<open>await_shutdown\<close> after the end waits as well: its \<open>Notify\<close> keeps nothing for it.\<close>

lemma late_wait_waits:
  assumes "engine_terminate e = (Inr (), e')"
  shows "en_waiters (await_shutdown e') = 1 \<and> en_phase e' = ES_Terminated \<and> en_returned e' = en_returned e + en_waiters e"
  using assms by (auto simp: engine_terminate_def await_shutdown_def Let_def split: if_splits)

text \<open>
  The states: starting and ending take the transitions of \<open>can_transition_to\<close>, and an engine that has ended is not
  started again. A standalone engine whose coordinator fails to start stays idle with its worker running.
\<close>

lemma start_transition:
  "engine_start po e = (r, e') \<Longrightarrow> en_phase e' \<noteq> en_phase e \<Longrightarrow> engine_can_transition_to (en_phase e) (en_phase e')"
  by (cases "en_phase e = ES_Idle") (simp_all add: engine_start_def)

lemma terminated_stays: "en_phase e = ES_Terminated \<Longrightarrow> fst (engine_start po e) = Inl EG_NotIdle \<and> fst (engine_terminate e) = Inl EG_NotRunning"
  by (simp add: engine_start_def engine_terminate_def)

lemma failed_start_leaves_worker:
  assumes "en_phase e = ES_Idle" "en_mode e = EM_Standalone" "po_broker po = None" "po_datastore po = None" "po_locker po = None"
    "po_worker_created po = None" "po_worker_started po = None" "po_coordinator_created po = Some m"
  shows "\<exists>e'. engine_start po e = (Inl (EG_Part m), e') \<and> en_phase e' = ES_Idle \<and> en_worker e' = PT_Started \<and> en_watchers e' = en_watchers e"
  using assms by (simp add: engine_start_def run_standalone_def attempt_def Let_def)

lemma compose_order: "compose_task_handler [f, g] h = f (g h)"
  by (simp add: compose_task_handler_def)

end
