(* ===== verification/Template.thy ===== *)
theory Template
  imports Web_Access Redact Queue_Names
begin

text \<open>
  Templates and expressions (\<open>twerk-core/src/eval\<close>: \<open>template.rs\<close>, \<open>transform.rs\<close>, \<open>context.rs\<close>, \<open>condition.rs\<close>,
  \<open>functions.rs\<close>, \<open>intrinsics.rs\<close>). The crate \<open>evalexpr\<close> is an argument: its \<open>eval_with_context\<close>, given the functions and
  variables of a context; its type of values is the datatype below. \<open>serde_json\<close>'s parser and printer, the hash
  functions, base64 and the random bits drawn are arguments as well.
\<close>

section \<open>Values of expressions\<close>

datatype xv = XV_String string | XV_Float f64 | XV_Int i64 | XV_Boolean bool | XV_Tuple "xv list" | XV_Empty

fun xv_tuple :: "xv \<Rightarrow> xv list option" where "xv_tuple (XV_Tuple vs) = Some vs" | "xv_tuple _ = None"
fun xv_string :: "xv \<Rightarrow> string option" where "xv_string (XV_String s) = Some s" | "xv_string _ = None"
fun xv_int :: "xv \<Rightarrow> i64 option" where "xv_int (XV_Int i) = Some i" | "xv_int _ = None"

text \<open>The derived equality: no number equals one of the other kind, and NaN not itself.\<close>

fun xv_eq :: "xv \<Rightarrow> xv \<Rightarrow> bool" where
  "xv_eq (XV_String a) (XV_String b) = (a = b)"
| "xv_eq (XV_Float a) (XV_Float b) = f64_eq a b"
| "xv_eq (XV_Int a) (XV_Int b) = (a = b)"
| "xv_eq (XV_Boolean a) (XV_Boolean b) = (a = b)"
| "xv_eq (XV_Tuple as) (XV_Tuple bs) = list_all2 xv_eq as bs"
| "xv_eq XV_Empty XV_Empty = True"
| "xv_eq _ _ = False"

record eval_context =
  xc_functions :: "(string \<times> (xv \<Rightarrow> string + xv)) list"
  xc_variables :: "(string \<times> xv) list"

record eval_env =
  te_eval :: "eval_context \<Rightarrow> string \<Rightarrow> string + xv"
  te_show :: "json \<Rightarrow> string"
  te_parse :: "string \<Rightarrow> string + json"
  te_random :: u64
  te_uuid :: string
  te_sha256 :: "string \<Rightarrow> u8 list"
  te_md5 :: "string \<Rightarrow> string"
  te_base64 :: "string \<Rightarrow> string"
  te_unbase64 :: "string \<Rightarrow> string + string"
  te_utf8_error :: "string \<Rightarrow> string"

datatype template_error =
    TE_CompileError string string | TE_ExpressionError string string | TE_InvalidExpression string | TE_UnsupportedFunction string

fun template_error_display :: "template_error \<Rightarrow> string" where
  "template_error_display (TE_CompileError x e) = ''error compiling expression '' @ [CHR 0x27] @ x @ [CHR 0x27] @ '': '' @ e"
| "template_error_display (TE_ExpressionError x e) = ''error evaluating expression '' @ [CHR 0x27] @ x @ [CHR 0x27] @ '': '' @ e"
| "template_error_display (TE_InvalidExpression x) = ''invalid expression: '' @ x"
| "template_error_display (TE_UnsupportedFunction x) = ''unsupported function: '' @ x"

text \<open>A JSON number is read as an \<open>i64\<close> if it is one and as an \<open>f64\<close> otherwise, so the conversion never fails.\<close>

definition number_value :: "json_number \<Rightarrow> xv" where
  "number_value n =
     (case n of PosInt u \<Rightarrow> if int (unat u) \<le> i64_max then XV_Int (word_of_int (int (unat u))) else XV_Float (f64_of_int (int (unat u)))
      | NegInt i \<Rightarrow> XV_Int i | JFloat f \<Rightarrow> XV_Float f)"

fun json_to_eval_value :: "json \<Rightarrow> xv" where
  "json_to_eval_value JNull = XV_Empty"
| "json_to_eval_value (JBool b) = XV_Boolean b"
| "json_to_eval_value (JNumber n) = number_value n"
| "json_to_eval_value (JString s) = XV_String s"
| "json_to_eval_value (JArray xs) = XV_Tuple (map json_to_eval_value xs)"
| "json_to_eval_value (JObject kvs) = XV_Tuple (map (\<lambda>(k, v). XV_Tuple [XV_String k, json_to_eval_value v]) kvs)"

fun eval_value_to_json :: "xv \<Rightarrow> json" where
  "eval_value_to_json XV_Empty = JNull"
| "eval_value_to_json (XV_Boolean b) = JBool b"
| "eval_value_to_json (XV_Int i) = JNumber (if 0 \<le> sint i then PosInt (word_of_int (sint i)) else NegInt i)"
| "eval_value_to_json (XV_Float f) = (if f64_is_nan f \<or> f64_is_inf f then JNull else JNumber (JFloat f))"
| "eval_value_to_json (XV_String s) = JString s"
| "eval_value_to_json (XV_Tuple vs) = JArray (map eval_value_to_json vs)"

definition show_json :: "eval_env \<Rightarrow> json \<Rightarrow> string" where
  "show_json te j = (case j of JString s \<Rightarrow> s | _ \<Rightarrow> te_show te j)"

section \<open>Functions\<close>

definition show_i64 :: "i64 \<Rightarrow> string" where
  "show_i64 i = (if sint i < 0 then CHR ''-'' # show_nat (nat (- sint i)) else show_nat (nat (sint i)))"

definition extract_tuple :: "xv \<Rightarrow> string \<Rightarrow> nat \<Rightarrow> string + xv list" where
  "extract_tuple args name expected =
     res_bind (ok_or (xv_tuple args) (name @ '' expects tuple arguments'')) (\<lambda>vs.
       if length vs \<noteq> expected
       then Inl (name @ '' expects '' @ show_nat expected @ '' arguments, got '' @ show_nat (length vs)) else Inr vs)"

text \<open>\<open>unsigned_abs\<close> and \<open>as u64\<close> of an \<open>i64\<close>.\<close>

definition unsigned_abs :: "i64 \<Rightarrow> nat" where "unsigned_abs i = nat \<bar>sint i\<bar>"

definition to_i64_or :: "nat \<Rightarrow> i64 \<Rightarrow> i64" where
  "to_i64_or n d = (if int n \<le> i64_max then word_of_int (int n) else d)"

definition random_int_fn :: "eval_env \<Rightarrow> xv \<Rightarrow> string + xv" where
  "random_int_fn te args =
     (let not_numeric = ''randomInt requires a numeric argument'';
          r = unsigned_abs (word_of_nat (unat (te_random te)));
          draw = (\<lambda>max_opt. XV_Int (case max_opt of
              None \<Rightarrow> to_i64_or r (word_of_int i64_max)
            | Some m \<Rightarrow> if m = 0 then to_i64_or r (word_of_int i64_max)
                else if 0 < sint m then to_i64_or (r mod nat (sint m)) (word_of_int i64_max) else 0))
      in case args of
           XV_Tuple [] \<Rightarrow> Inr (draw None)
         | XV_Tuple [v] \<Rightarrow> res_bind (ok_or (xv_int v) not_numeric) (\<lambda>m. Inr (draw (Some m)))
         | XV_Tuple vs \<Rightarrow> Inl (''randomInt expects 0 or 1 arguments, got '' @ show_nat (length vs))
         | XV_Empty \<Rightarrow> Inr (draw None)
         | XV_Int m \<Rightarrow> Inr (draw (Some m))
         | _ \<Rightarrow> Inl not_numeric)"

definition sequence_fn :: "xv \<Rightarrow> string + xv" where
  "sequence_fn args =
     (let not_numeric = ''sequence requires numeric arguments''
      in res_bind (extract_tuple args ''sequence'' 2) (\<lambda>vs.
         res_bind (ok_or (xv_int (vs ! 0)) not_numeric) (\<lambda>start.
         res_bind (ok_or (xv_int (vs ! 1)) not_numeric) (\<lambda>stop.
           Inr (XV_Tuple (map (\<lambda>i. XV_Int (word_of_int i)) [sint start..sint stop - 1]))))))"

text \<open>\<open>str::split\<close> on a string: with an empty pattern the pieces are the characters, between two empty ones.\<close>

function split_pattern :: "string \<Rightarrow> string \<Rightarrow> string \<Rightarrow> string list" where
  "split_pattern pat acc s =
     (case s of [] \<Rightarrow> [rev acc]
      | c # cs \<Rightarrow>
          if pat \<noteq> [] \<and> prefix pat s then rev acc # split_pattern pat [] (drop (length pat) s)
          else split_pattern pat (c # acc) cs)"
  by pat_completeness auto
termination by (relation "measure (\<lambda>(_, _, s). length s)") auto

declare split_pattern.simps [simp del]

definition str_split :: "string \<Rightarrow> string \<Rightarrow> string list" where
  "str_split s pat = (if pat = [] then [[]] @ utf8_chars s @ [[]] else split_pattern pat [] s)"

definition split_fn :: "xv \<Rightarrow> string + xv" where
  "split_fn args =
     (let not_string = ''split requires string arguments''
      in res_bind (extract_tuple args ''split'' 2) (\<lambda>vs.
         res_bind (ok_or (xv_string (vs ! 0)) not_string) (\<lambda>s.
         res_bind (ok_or (xv_string (vs ! 1)) not_string) (\<lambda>delimiter.
           Inr (XV_Tuple (map XV_String (str_split s delimiter)))))))"

text \<open>A string argument, alone or first of a tuple.\<close>

definition string_argument :: "string \<Rightarrow> xv \<Rightarrow> string + string" where
  "string_argument err args =
     (case args of XV_Tuple (v # vs) \<Rightarrow> ok_or (xv_string v) err | _ \<Rightarrow> ok_or (xv_string args) err)"

definition from_json_fn :: "eval_env \<Rightarrow> xv \<Rightarrow> string + xv" where
  "from_json_fn te args =
     res_bind (string_argument ''fromJSON requires a string argument'' args) (\<lambda>s.
     res_bind (map_err (\<lambda>e. ''fromJSON parse error: '' @ e) (te_parse te s)) (\<lambda>j. Inr (json_to_eval_value j)))"

definition to_json_fn :: "eval_env \<Rightarrow> xv \<Rightarrow> string + xv" where
  "to_json_fn te args = Inr (XV_String (te_show te (eval_value_to_json args)))"

text \<open>The loop of \<open>format_fn\<close> over the template, with the arguments left.\<close>

fun format_loop :: "eval_env \<Rightarrow> xv list \<Rightarrow> string \<Rightarrow> string" where
  "format_loop te vs (CHR ''{'' # CHR ''}'' # cs) =
     (case vs of v # vs' \<Rightarrow> show_json te (eval_value_to_json v) @ format_loop te vs' cs
      | [] \<Rightarrow> ''{}'' @ format_loop te [] cs)"
| "format_loop te vs (c # cs) = c # format_loop te vs cs"
| "format_loop te vs [] = []"

definition format_fn :: "eval_env \<Rightarrow> xv \<Rightarrow> string + xv" where
  "format_fn te args =
     (let no_template = ''format requires at least a template argument''
      in case args of
           XV_Tuple (t # vs) \<Rightarrow> res_bind (ok_or (xv_string t) ''format: first argument must be a string'') (\<lambda>template.
             Inr (XV_String (format_loop te vs template)))
         | XV_String s \<Rightarrow> Inr (XV_String s)
         | _ \<Rightarrow> Inl no_template)"

definition string_to_json_fn :: "eval_env \<Rightarrow> xv \<Rightarrow> string + xv" where
  "string_to_json_fn te args =
     res_bind (string_argument ''stringToJson requires a string argument'' args) (\<lambda>s.
     res_bind (map_err (\<lambda>e. ''stringToJson parse error: '' @ e) (te_parse te s)) (\<lambda>j. Inr (json_to_eval_value j)))"

definition json_to_string_fn :: "eval_env \<Rightarrow> xv \<Rightarrow> string + xv" where
  "json_to_string_fn te args = Inr (XV_String (te_show te (eval_value_to_json args)))"

definition array_fn :: "xv \<Rightarrow> string + xv" where
  "array_fn args = Inr (XV_Tuple (case args of XV_Empty \<Rightarrow> [] | XV_Tuple vs \<Rightarrow> vs | v \<Rightarrow> [v]))"

text \<open>\<open>(end - start) as u64\<close> is the distance even where the subtraction wraps; a draw beyond \<open>i64\<close> counts as 0.\<close>

definition math_random_fn :: "eval_env \<Rightarrow> xv \<Rightarrow> string + xv" where
  "math_random_fn te args =
     (let not_int = ''mathRandom requires integer arguments''
      in res_bind (extract_tuple args ''mathRandom'' 2) (\<lambda>vs.
         res_bind (ok_or (xv_int (vs ! 0)) not_int) (\<lambda>start.
         res_bind (ok_or (xv_int (vs ! 1)) not_int) (\<lambda>stop.
           if sint stop \<le> sint start
           then Inl (''mathRandom: start ('' @ show_i64 start @ '') must be less than end ('' @ show_i64 stop @ '')'')
           else let range_size = unat (stop - start); val = unat (te_random te) mod range_size
             in Inr (XV_Int (start + to_i64_or val 0))))))"

definition saturate :: "int \<Rightarrow> i64" where
  "saturate i = word_of_int (if i < i64_min then i64_min else if i64_max < i then i64_max else i)"

definition as_numeric :: "xv \<Rightarrow> string \<Rightarrow> string + f64" where
  "as_numeric v name = (case v of XV_Int i \<Rightarrow> Inr (f64_of_int (sint i)) | XV_Float f \<Rightarrow> Inr f
     | _ \<Rightarrow> Inl (name @ '' requires numeric arguments''))"

definition math_add_fn :: "xv \<Rightarrow> string + xv" where
  "math_add_fn args =
     res_bind (extract_tuple args ''mathAdd'' 2) (\<lambda>vs.
       case (vs ! 0, vs ! 1) of
         (XV_Int a, XV_Int b) \<Rightarrow> Inr (XV_Int (saturate (sint a + sint b)))
       | (x, y) \<Rightarrow> res_bind (as_numeric x ''mathAdd'') (\<lambda>a. res_bind (as_numeric y ''mathAdd'') (\<lambda>b. Inr (XV_Float (f64_add a b)))))"

definition math_sub_fn :: "xv \<Rightarrow> string + xv" where
  "math_sub_fn args =
     res_bind (extract_tuple args ''mathSub'' 2) (\<lambda>vs.
       case (vs ! 0, vs ! 1) of
         (XV_Int a, XV_Int b) \<Rightarrow> Inr (XV_Int (saturate (sint a - sint b)))
       | (x, y) \<Rightarrow> res_bind (as_numeric x ''mathSub'') (\<lambda>a. res_bind (as_numeric y ''mathSub'') (\<lambda>b. Inr (XV_Float (f64_sub a b)))))"

definition uuid_fn :: "eval_env \<Rightarrow> xv \<Rightarrow> string + xv" where
  "uuid_fn te args = (if args = XV_Empty \<or> args = XV_Tuple [] then Inr (XV_String (te_uuid te)) else Inl ''uuid takes no arguments'')"

definition hex_digit :: "nat \<Rightarrow> char" where
  "hex_digit d = char_of (if d < 10 then 48 + d else 87 + d)"

definition hex_encode :: "u8 list \<Rightarrow> string" where
  "hex_encode bytes = concat (map (\<lambda>b. [hex_digit (unat b div 16), hex_digit (unat b mod 16)]) bytes)"

definition hash_fn :: "eval_env \<Rightarrow> xv \<Rightarrow> string + xv" where
  "hash_fn te args =
     res_bind (extract_tuple args ''hash'' 2) (\<lambda>vs.
     res_bind (ok_or (xv_string (vs ! 0)) ''hash: first argument must be a string'') (\<lambda>input.
     res_bind (ok_or (xv_string (vs ! 1)) ''hash: second argument must be algorithm name'') (\<lambda>algo.
       if algo = ''sha256'' then Inr (XV_String (hex_encode (te_sha256 te input)))
       else if algo = ''md5'' then Inr (XV_String (te_md5 te input))
       else Inl (''hash: unsupported algorithm '' @ [CHR 0x27] @ algo @ [CHR 0x27] @ '', use sha256 or md5''))))"

definition base64_encode_fn :: "eval_env \<Rightarrow> xv \<Rightarrow> string + xv" where
  "base64_encode_fn te args =
     res_bind (string_argument ''base64Encode requires a string argument'' args) (\<lambda>s. Inr (XV_String (te_base64 te s)))"

definition base64_decode_fn :: "eval_env \<Rightarrow> xv \<Rightarrow> string + xv" where
  "base64_decode_fn te args =
     res_bind (string_argument ''base64Decode requires a string argument'' args) (\<lambda>s.
     res_bind (map_err (\<lambda>e. ''base64Decode error: '' @ e) (te_unbase64 te s)) (\<lambda>bytes.
       if valid_utf8 bytes then Inr (XV_String bytes) else Inl (''base64Decode: invalid UTF-8: '' @ te_utf8_error te bytes)))"

text \<open>\<open>slice::chunks\<close>.\<close>

function chunks :: "nat \<Rightarrow> 'a list \<Rightarrow> 'a list list" where
  "chunks n xs = (if xs = [] \<or> n = 0 then [] else take n xs # chunks n (drop n xs))"
  by pat_completeness auto
termination by (relation "measure (length \<circ> snd)") auto

declare chunks.simps [simp del]

definition array_partition_fn :: "xv \<Rightarrow> string + xv" where
  "array_partition_fn args =
     res_bind (extract_tuple args ''arrayPartition'' 2) (\<lambda>vs.
     res_bind (ok_or (xv_tuple (vs ! 0)) ''arrayPartition: first argument must be an array'') (\<lambda>items.
     res_bind (ok_or (xv_int (vs ! 1)) ''arrayPartition: second argument must be an integer'') (\<lambda>chunk_size.
       if sint chunk_size \<le> 0 then Inl ''arrayPartition: chunk_size must be positive''
       else Inr (XV_Tuple (map XV_Tuple (chunks (nat (sint chunk_size)) items))))))"

definition array_contains_fn :: "xv \<Rightarrow> string + xv" where
  "array_contains_fn args =
     res_bind (extract_tuple args ''arrayContains'' 2) (\<lambda>vs.
     res_bind (ok_or (xv_tuple (vs ! 0)) ''arrayContains: first argument must be an array'') (\<lambda>items.
       Inr (XV_Boolean (list_ex (\<lambda>v. xv_eq v (vs ! 1)) items))))"

text \<open>The loop of \<open>array_range_fn\<close>, in \<open>i64\<close> with saturating addition.\<close>

lemma sint_saturate: "sint (saturate i) = (if i < i64_min then i64_min else if i64_max < i then i64_max else i)"
  by (simp add: saturate_def sint_word_of_int_i64 in_i64_def i64_min_def i64_max_def)

function range_loop :: "i64 \<Rightarrow> i64 \<Rightarrow> i64 \<Rightarrow> i64 list" where
  "range_loop stop step current =
     (if (0 < sint step \<and> sint current < sint stop) \<or> (sint step < 0 \<and> sint stop < sint current)
      then current # range_loop stop step (saturate (sint current + sint step)) else [])"
  by pat_completeness auto
termination
proof (relation "measure (\<lambda>(stop, step, current). nat (if 0 < sint step then sint stop - sint current else sint current - sint stop))")
  fix stop step current :: i64
  assume "(0 < sint step \<and> sint current < sint stop) \<or> (sint step < 0 \<and> sint stop < sint current)"
  moreover have "i64_min \<le> sint stop" "sint stop \<le> i64_max"
    using in_i64_sint [of stop] by (simp_all add: in_i64_def)
  ultimately show "((stop, step, saturate (sint current + sint step)), (stop, step, current))
      \<in> measure (\<lambda>(stop, step, current). nat (if 0 < sint step then sint stop - sint current else sint current - sint stop))"
    by (auto simp: sint_saturate)
qed simp

declare range_loop.simps [simp del]

definition array_range_fn :: "xv \<Rightarrow> string + xv" where
  "array_range_fn args =
     (let not_int = ''arrayRange requires integer arguments''
      in res_bind (extract_tuple args ''arrayRange'' 3) (\<lambda>vs.
         res_bind (ok_or (xv_int (vs ! 0)) not_int) (\<lambda>start.
         res_bind (ok_or (xv_int (vs ! 1)) not_int) (\<lambda>stop.
         res_bind (ok_or (xv_int (vs ! 2)) not_int) (\<lambda>step.
           if step = 0 then Inl ''arrayRange: step must not be zero''
           else Inr (XV_Tuple (map XV_Int (range_loop stop step start))))))))"

definition array_length_fn :: "xv \<Rightarrow> string + xv" where
  "array_length_fn args =
     (case args of XV_Tuple vs \<Rightarrow> Inr (XV_Int (word_of_nat (length vs))) | XV_Empty \<Rightarrow> Inr (XV_Int 0)
      | _ \<Rightarrow> Inl ''arrayLength: argument must be an array'')"

definition keep_unseen :: "xv \<Rightarrow> xv list \<Rightarrow> xv list" where
  "keep_unseen v seen = (if list_ex (\<lambda>x. xv_eq x v) seen then seen else seen @ [v])"

definition array_unique_fn :: "xv \<Rightarrow> string + xv" where
  "array_unique_fn args =
     (case args of XV_Tuple vs \<Rightarrow> Inr (XV_Tuple (fold keep_unseen vs [])) | XV_Empty \<Rightarrow> Inr (XV_Tuple [])
      | _ \<Rightarrow> Inl ''arrayUnique: argument must be an array'')"

section \<open>Contexts\<close>

text \<open>Neither \<open>set_function\<close> nor \<open>set_value\<close> of a fresh context fails: no name is set twice.\<close>

definition register_intrinsics :: "eval_env \<Rightarrow> (string \<times> (xv \<Rightarrow> string + xv)) list" where
  "register_intrinsics te =
     [(''format'', format_fn te), (''stringToJson'', string_to_json_fn te), (''jsonToString'', json_to_string_fn te),
      (''array'', array_fn), (''mathRandom'', math_random_fn te), (''mathAdd'', math_add_fn), (''mathSub'', math_sub_fn),
      (''uuid'', uuid_fn te), (''hash'', hash_fn te), (''base64Encode'', base64_encode_fn te),
      (''base64Decode'', base64_decode_fn te), (''arrayPartition'', array_partition_fn), (''arrayContains'', array_contains_fn),
      (''arrayRange'', array_range_fn), (''arrayLength'', array_length_fn), (''arrayUnique'', array_unique_fn)]"

definition create_context :: "eval_env \<Rightarrow> (string \<times> json) list \<Rightarrow> eval_context" where
  "create_context te cx =
     \<lparr>xc_functions = [(''randomInt'', random_int_fn te), (''sequence'', sequence_fn), (''fromJSON'', from_json_fn te),
        (''split'', split_fn), (''toJSON'', to_json_fn te)] @ register_intrinsics te,
      xc_variables = map (\<lambda>(k, v). (k, json_to_eval_value v)) cx\<rparr>"

section \<open>Expressions and templates\<close>

definition transform_operators :: "string \<Rightarrow> string" where
  "transform_operators s = str_replace '' or '' '' || '' (str_replace '' and '' '' && '' s)"

definition strip_braces :: "string \<Rightarrow> string option" where
  "strip_braces s =
     (if prefix ''{{'' s then let t = drop 2 s in if suffix ''}}'' t then Some (take (length t - 2) t) else None else None)"

definition sanitize_expr :: "string \<Rightarrow> string" where
  "sanitize_expr e =
     (let trimmed = trim e
      in transform_operators (case strip_braces trimmed of None \<Rightarrow> trimmed | Some contents \<Rightarrow> trim contents))"

definition evaluate_expr :: "eval_env \<Rightarrow> (string \<times> json) list \<Rightarrow> string \<Rightarrow> template_error + json" where
  "evaluate_expr te cx e =
     (let sanitized = sanitize_expr e
      in if sanitized = [] then Inr JNull
         else res_bind (map_err (TE_ExpressionError sanitized) (te_eval te (create_context te cx) sanitized)) (\<lambda>v.
           Inr (eval_value_to_json v)))"

definition valid_expr :: "eval_env \<Rightarrow> string \<Rightarrow> bool" where
  "valid_expr te e =
     (let sanitized = sanitize_expr e
      in if sanitized = [] then False else \<not> isl (evaluate_expr te [] sanitized))"

text \<open>
  The regular expression \<open>\{\{\s*(.+?)\s*\}\}\<close> as the leftmost match with its preferences: as much white space as can be
  after the braces (and less if that fails), then as few characters as can be, none of them a new line. A match is
  its first group and what follows it.
\<close>

definition close_after :: "string \<Rightarrow> string option" where
  "close_after s = (let r = trim_start s in if prefix ''}}'' r then Some (drop 2 r) else None)"

fun lazy_group :: "string \<Rightarrow> string \<Rightarrow> (string \<times> string) option" where
  "lazy_group acc [] = None"
| "lazy_group acc (c # cs) =
     (if c = CHR 0x0A then None
      else case close_after cs of Some rest \<Rightarrow> Some (rev (c # acc), rest) | None \<Rightarrow> lazy_group (c # acc) cs)"

function space_splits :: "string \<Rightarrow> string list" where
  "space_splits s = (case strip_one white_spaces s of Some t \<Rightarrow> space_splits t @ [s] | None \<Rightarrow> [s])"
  by pat_completeness auto
termination by (relation "measure length") (auto dest: strip_one_shorter)

declare space_splits.simps [simp del]

definition match_here :: "string \<Rightarrow> (string \<times> string) option" where
  "match_here s = (if prefix ''{{'' s then find_map (lazy_group []) (space_splits (drop 2 s)) else None)"

text \<open>\<open>find_iter\<close>: the matches from the left as pairs of positions; \<open>i\<close> is where \<open>s\<close> starts.\<close>

lemma trim_by_shorter: "length (trim_by ws s) \<le> length s"
proof (induction ws s rule: trim_by.induct)
  case (1 ws s)
  then show ?case
    by (cases "strip_one ws s") (auto simp: trim_by.simps [of ws s] dest!: strip_one_shorter)
qed

lemma close_shorter: "close_after s = Some r \<Longrightarrow> length r + 2 \<le> length s"
  using trim_by_shorter [of white_spaces s]
  by (auto simp: close_after_def trim_start_def Let_def prefix_def split: if_splits)

lemma lazy_shorter: "lazy_group acc s = Some (g, r) \<Longrightarrow> length r < length s"
proof (induction s arbitrary: acc)
  case (Cons c cs)
  then show ?case by (cases "close_after cs") (auto split: if_splits dest: close_shorter intro: less_SucI)
qed simp

lemma space_splits_shorter: "t \<in> set (space_splits s) \<Longrightarrow> length t \<le> length s"
proof (induction s rule: space_splits.induct)
  case (1 s)
  then show ?case
    by (cases "strip_one white_spaces s") (auto simp: space_splits.simps [of s] dest!: strip_one_shorter)
qed

lemma find_map_Some: "find_map f xs = Some y \<Longrightarrow> \<exists>x \<in> set xs. f x = Some y"
  by (induction xs) (auto split: option.splits)

lemma match_shorter: "match_here s = Some (g, r) \<Longrightarrow> length r < length s"
  by (auto simp: match_here_def split: if_splits dest!: find_map_Some lazy_shorter space_splits_shorter)

function find_iter :: "nat \<Rightarrow> string \<Rightarrow> (nat \<times> nat) list" where
  "find_iter i [] = []"
| "find_iter i (c # cs) =
     (case match_here (c # cs) of
        None \<Rightarrow> find_iter (Suc i) cs
      | Some (g, r) \<Rightarrow> (let e = i + (length (c # cs) - length r) in (i, e) # find_iter e r))"
  by pat_completeness auto
termination by (relation "measure (length \<circ> snd)") (auto dest: match_shorter)

definition extract_match_expression :: "string \<Rightarrow> template_error + string" where
  "extract_match_expression matched =
     (case match_here matched of
        Some (g, r) \<Rightarrow> Inr g
      | None \<Rightarrow> Inl (TE_InvalidExpression (''no capture in match: '' @ matched)))"

definition template_replacement :: "eval_env \<Rightarrow> (string \<times> json) list \<Rightarrow> string \<Rightarrow> template_error + string" where
  "template_replacement te cx matched =
     res_bind (extract_match_expression matched) (\<lambda>e. res_bind (evaluate_expr te cx e) (\<lambda>j. Inr (show_json te j)))"

definition template_prefix :: "string \<Rightarrow> nat \<Rightarrow> nat \<Rightarrow> string" where
  "template_prefix template offset start = (if offset < start then take (start - offset) (drop offset template) else [])"

text \<open>The fold of \<open>render_template\<close> over the matches, with the buffer and the offset so far.\<close>

fun render_matches :: "eval_env \<Rightarrow> (string \<times> json) list \<Rightarrow> string \<Rightarrow> (nat \<times> nat) list \<Rightarrow> string \<times> nat \<Rightarrow> template_error + string \<times> nat" where
  "render_matches te cx template [] progress = Inr progress"
| "render_matches te cx template ((i, e) # ms) (buffer, offset) =
     res_bind (template_replacement te cx (take (e - i) (drop i template))) (\<lambda>replacement.
       render_matches te cx template ms (buffer @ template_prefix template offset i @ replacement, e))"

definition evaluate_template :: "eval_env \<Rightarrow> (string \<times> json) list \<Rightarrow> string \<Rightarrow> template_error + string" where
  "evaluate_template te cx template =
     (if template = [] then Inr []
      else let matches = find_iter 0 template
        in if matches = [] then Inr template
           else res_bind (render_matches te cx template matches ([], 0)) (\<lambda>(buffer, offset).
             Inr (buffer @ drop (snd (last matches)) template)))"

section \<open>Conditions\<close>

definition condition_result :: "eval_env \<Rightarrow> (string \<times> json) list \<Rightarrow> string \<Rightarrow> string + bool" where
  "condition_result te cx e =
     (let sanitized = sanitize_expr e
      in if sanitized = [] then Inr True
         else case te_eval te (create_context te cx) (transform_operators sanitized) of
             Inr v \<Rightarrow> (case eval_value_to_json v of
                 JBool b \<Rightarrow> Inr b
               | j \<Rightarrow> Inl (''expression did not evaluate to a boolean, got: '' @ te_show te j))
           | Inl err \<Rightarrow> Inl (''expression evaluation failed: '' @ err))"

definition evaluate_condition :: "eval_env \<Rightarrow> string \<Rightarrow> job_summary \<Rightarrow> string + bool" where
  "evaluate_condition te e s =
     condition_result te
       ([(''job_state'', JString (to_lowercase (job_state_display (jm_state s)))),
         (''job_id'', JString (case jm_id s of Some i \<Rightarrow> i | None \<Rightarrow> []))] @
        (case jm_name s of Some n \<Rightarrow> [(''job_name'', JString n)] | None \<Rightarrow> []) @
        (case jm_error s of Some x \<Rightarrow> [(''job_error'', JString x)] | None \<Rightarrow> [])) e"

definition evaluate_task_condition :: "eval_env \<Rightarrow> string \<Rightarrow> task_summary \<Rightarrow> job_summary \<Rightarrow> string + bool" where
  "evaluate_task_condition te e t s =
     condition_result te
       [(''job_state'', JString (to_lowercase (job_state_display (jm_state s)))),
        (''job_id'', JString (case jm_id s of Some i \<Rightarrow> i | None \<Rightarrow> [])),
        (''task_state'', JString (to_lowercase (task_state_display (ts_state t)))),
        (''task_id'', JString (case ts_id t of Some i \<Rightarrow> i | None \<Rightarrow> []))] e"

section \<open>What a template becomes\<close>

text \<open>The reference: the text up to the first match, the value of its group, and what the rest becomes.\<close>

function template_spec :: "eval_env \<Rightarrow> (string \<times> json) list \<Rightarrow> string \<Rightarrow> template_error + string" where
  "template_spec te cx [] = Inr []"
| "template_spec te cx (c # cs) =
     (case match_here (c # cs) of
        None \<Rightarrow> res_bind (template_spec te cx cs) (\<lambda>t. Inr (c # t))
      | Some (g, r) \<Rightarrow> res_bind (evaluate_expr te cx g) (\<lambda>j. res_bind (template_spec te cx r) (\<lambda>t. Inr (show_json te j @ t))))"
  by pat_completeness auto
termination by (relation "measure (length \<circ> snd \<circ> snd)") (auto dest: match_shorter)

text \<open>White space has no brace, so trimming text that ends in braces goes on as if nothing followed.\<close>

abbreviation closed :: "string \<Rightarrow> bool" where
  "closed t \<equiv> suffix ''}}'' t"

lemma space_no_brace: "w \<in> set white_spaces \<Longrightarrow> CHR ''}'' \<notin> set w"
proof -
  have "list_all (\<lambda>w. CHR ''}'' \<notin> set w) white_spaces" by code_simp
  then show "w \<in> set white_spaces \<Longrightarrow> CHR ''}'' \<notin> set w" by (simp add: list_all_iff)
qed

lemma strip_one_append:
  assumes "closed t" and "\<forall>w \<in> set ws. CHR ''}'' \<notin> set w"
  shows "strip_one ws (t @ r) = map_option (\<lambda>x. x @ r) (strip_one ws t)"
  using assms(2)
proof (induction ws)
  case (Cons w ws)
  have "prefix w (t @ r) \<longleftrightarrow> prefix w t"
  proof
    assume "prefix w (t @ r)"
    then consider "prefix w t" | "prefix t w" by (auto simp: prefix_append)
    then show "prefix w t"
    proof cases
      case 2
      then have "CHR ''}'' \<in> set w" using assms(1) by (auto simp: suffix_def prefix_def)
      then show ?thesis using Cons.prems by simp
    qed
  qed (simp add: prefix_append)
  then show ?case using Cons by (auto simp: prefix_def)
qed simp

lemma strip_one_closed:
  assumes "closed t" and "\<forall>w \<in> set ws. CHR ''}'' \<notin> set w" and "strip_one ws t = Some t'"
  shows "closed t'"
  using assms(2,3)
proof (induction ws)
  case (Cons w ws)
  show ?case
  proof (cases "w \<noteq> [] \<and> prefix w t")
    case True
    then have t: "t = w @ t'" using Cons.prems by (auto simp: prefix_def)
    obtain u where u: "t = u @ ''}}''" using assms(1) by (auto simp: suffix_def)
    from t u consider zs where "w = u @ zs" "''}}'' = zs @ t'" | zs where "u = w @ zs" "t' = zs @ ''}}''"
      by (auto simp: append_eq_append_conv2)
    then show ?thesis
    proof cases
      case 1
      then have "zs = []" using Cons.prems(1) by (cases zs) auto
      then show ?thesis using 1 by simp
    qed (simp add: suffix_def)
  next
    case False
    then have "strip_one ws t = Some t'" using Cons.prems(2) by (auto split: if_splits)
    then show ?thesis using Cons.IH Cons.prems(1) by simp
  qed
qed simp

lemma trim_append: "closed t \<Longrightarrow> trim_start (t @ r) = trim_start t @ r \<and> closed (trim_start t)"
  unfolding trim_start_def
proof (induction "white_spaces" t rule: trim_by.induct)
  case (1 t)
  have nb: "\<forall>w \<in> set white_spaces. CHR ''}'' \<notin> set w" using space_no_brace by blast
  show ?case
  proof (cases "strip_one white_spaces t")
    case None
    then show ?thesis using 1(2) strip_one_append [OF 1(2) nb, of r]
      by (simp add: trim_by.simps [of white_spaces t] trim_by.simps [of white_spaces "t @ r"])
  next
    case (Some t')
    then show ?thesis using 1 strip_one_append [OF 1(2) nb, of r] strip_one_closed [OF 1(2) nb Some]
      by (simp add: trim_by.simps [of white_spaces t] trim_by.simps [of white_spaces "t @ r"])
  qed
qed

lemma closed_prefix: "closed p \<Longrightarrow> prefix ''}}'' (p @ r) \<longleftrightarrow> prefix ''}}'' p"
  by (cases p; cases "tl p") (auto simp: suffix_def)

lemma close_append:
  assumes "closed t"
  shows "close_after (t @ r) = map_option (\<lambda>x. x @ r) (close_after t)"
proof -
  have p: "trim_start (t @ r) = trim_start t @ r" "closed (trim_start t)" using trim_append [OF assms] by auto
  show ?thesis
  proof (cases "prefix ''}}'' (trim_start t)")
    case True
    then show ?thesis using p by (auto simp: close_after_def Let_def prefix_def)
  next
    case False
    then have "\<not> prefix ''}}'' (trim_start t @ r)" using closed_prefix [OF p(2)] by simp
    then show ?thesis using False p by (simp add: close_after_def Let_def)
  qed
qed

lemma closed_tl: "closed (c # cs) \<Longrightarrow> closed cs \<or> cs = ''}''"
  by (cases cs) (auto simp: suffix_def Cons_eq_append_conv)

lemma close_start: "close_after s = Some r \<Longrightarrow> \<exists>a. s = a @ ''}}'' @ r"
proof -
  have trim: "suffix (trim_by ws s) s" for ws
  proof (induction ws s rule: trim_by.induct)
    case (1 ws s)
    have "strip_one ws s = Some t \<Longrightarrow> suffix t s" for t
      by (induction ws) (auto simp: prefix_def suffix_def split: if_splits)
    then show ?case using 1 by (cases "strip_one ws s") (auto simp: trim_by.simps [of ws s] intro: suffix_order.trans)
  qed
  show "close_after s = Some r \<Longrightarrow> \<exists>a. s = a @ ''}}'' @ r"
    using trim [of white_spaces] by (auto simp: close_after_def trim_start_def Let_def prefix_def suffix_def split: if_splits)
qed

lemma lazy_start: "lazy_group acc s = Some (g, r) \<Longrightarrow> \<exists>a. s = a @ ''}}'' @ r"
proof (induction s arbitrary: acc)
  case (Cons c cs)
  then show ?case
    by (cases "close_after cs") (auto split: if_splits dest!: close_start; metis append_Cons)+
qed simp

lemma lazy_append:
  assumes "closed t"
  shows "(lazy_group acc (t @ r) = None \<longrightarrow> lazy_group acc t = None) \<and>
    (\<forall>g. lazy_group acc (t @ r) = Some (g, r) \<longrightarrow> lazy_group acc t = Some (g, []))"
  using assms
proof (induction t arbitrary: acc)
  case (Cons c cs)
  show ?case
  proof (cases "closed cs")
    case True
    then show ?thesis using Cons.IH [OF True, of "c # acc"] close_append [OF True, of r]
      by (cases "close_after cs") auto
  next
    case False
    then have "cs = ''}''" using closed_tl [OF Cons.prems] by simp
    moreover have "close_after ''}'' = None" "close_after [] = None" by code_simp+
    moreover have "close_after (CHR ''}'' # r) \<noteq> Some r" "close_after r \<noteq> Some r"
      using close_shorter [of "CHR ''}'' # r" r] close_shorter [of r r] by auto
    ultimately show ?thesis using lazy_shorter [of _ r _ r] by (auto split: option.splits)
  qed
qed simp

lemma space_splits_append:
  "closed t \<Longrightarrow> space_splits (t @ r) = map (\<lambda>x. x @ r) (space_splits t) \<and> (\<forall>x \<in> set (space_splits t). closed x)"
proof (induction t rule: space_splits.induct)
  case (1 t)
  have nb: "\<forall>w \<in> set white_spaces. CHR ''}'' \<notin> set w" using space_no_brace by blast
  show ?case
  proof (cases "strip_one white_spaces t")
    case None
    then show ?thesis using 1 strip_one_append [OF 1(2) nb, of r]
      by (simp add: space_splits.simps [of t] space_splits.simps [of "t @ r"])
  next
    case (Some t')
    then show ?thesis using 1 strip_one_append [OF 1(2) nb, of r] strip_one_closed [OF 1(2) nb Some]
      by (simp add: space_splits.simps [of t] space_splits.simps [of "t @ r"])
  qed
qed

lemma space_splits_suffix: "x \<in> set (space_splits s) \<Longrightarrow> suffix x s"
proof (induction s rule: space_splits.induct)
  case (1 s)
  have "strip_one ws s = Some t \<Longrightarrow> suffix t s" for ws t
    by (induction ws) (auto simp: prefix_def suffix_def split: if_splits)
  then show ?case using 1
    by (cases "strip_one white_spaces s") (auto simp: space_splits.simps [of s] intro: suffix_order.trans)
qed

lemma find_map_closed:
  assumes "find_map (lazy_group []) (map (\<lambda>x. x @ r) xs) = Some (g, r)" and "\<forall>x \<in> set xs. closed x"
  shows "find_map (lazy_group []) xs = Some (g, [])"
  using assms
proof (induction xs)
  case (Cons x xs)
  then show ?case using lazy_append [of x "[]" r] by (cases "lazy_group [] (x @ r)") auto
qed simp

text \<open>The match of a text is the match of the matched part alone.\<close>

lemma match_stable:
  assumes "match_here s = Some (g, r)"
  shows "\<exists>m. s = m @ r \<and> match_here m = Some (g, [])"
proof -
  obtain s2 where s: "s = ''{{'' @ s2" and f: "find_map (lazy_group []) (space_splits s2) = Some (g, r)"
    using assms by (auto simp: match_here_def prefix_def split: if_splits)
  from find_map_Some [OF f] obtain x where x: "x \<in> set (space_splits s2)" "lazy_group [] x = Some (g, r)" by blast
  from lazy_start [OF x(2)] space_splits_suffix [OF x(1)] obtain m2 where m2: "s2 = m2 @ r" "closed m2"
    unfolding suffix_def by (metis append.assoc)
  have "find_map (lazy_group []) (space_splits m2) = Some (g, [])"
    using find_map_closed f space_splits_append [OF m2(2), of r] m2(1) by metis
  then have "match_here (''{{'' @ m2) = Some (g, [])" by (simp add: match_here_def)
  then show ?thesis using s m2(1) by (intro exI [of _ "''{{'' @ m2"]) simp
qed

lemma render_last: "render_matches te cx template ms (b, o') = Inr p \<Longrightarrow> ms \<noteq> [] \<Longrightarrow> snd p = snd (last ms)"
proof (induction ms arbitrary: b o')
  case (Cons m ms)
  then show ?case by (cases m; cases "ms = []") (auto simp: res_bind_def split: sum.splits)
qed simp

definition finish :: "string \<Rightarrow> template_error + string \<times> nat \<Rightarrow> template_error + string" where
  "finish template r = res_bind r (\<lambda>(buffer, offset). Inr (buffer @ drop offset template))"

lemma render_spec:
  "o' \<le> length pre \<Longrightarrow> finish (pre @ s) (render_matches te cx (pre @ s) (find_iter (length pre) s) (b, o')) =
    res_bind (template_spec te cx s) (\<lambda>t. Inr (b @ drop o' pre @ t))"
proof (induction te cx s arbitrary: pre b o' rule: template_spec.induct)
  case (1 te cx)
  then show ?case by (simp add: finish_def res_bind_def)
next
  case (2 te cx c cs)
  show ?case
  proof (cases "match_here (c # cs)")
    case None
    have "find_iter (length pre) (c # cs) = find_iter (length (pre @ [c])) cs" using None by simp
    then show ?thesis using 2(1) [OF None, of o' "pre @ [c]" b] 2(3) None
      by (cases "template_spec te cx cs") (simp_all add: res_bind_def)
  next
    case (Some p)
    obtain g r where gr: "match_here (c # cs) = Some (g, r)" using Some by (cases p) auto
    from match_stable [OF gr] obtain m where m: "c # cs = m @ r" "match_here m = Some (g, [])" by blast
    have e: "length (c # cs) - length r = length m" using m(1) by simp
    have iter: "find_iter (length pre) (c # cs) = (length pre, length (pre @ m)) # find_iter (length (pre @ m)) r"
      using gr e by (simp add: Let_def)
    have rep: "template_replacement te cx m = res_bind (evaluate_expr te cx g) (\<lambda>j. Inr (show_json te j))"
      using m(2) by (simp add: template_replacement_def extract_match_expression_def res_bind_def)
    have pre: "template_prefix (pre @ c # cs) o' (length pre) = drop o' pre"
      using 2(3) m(1) by (auto simp: template_prefix_def)
    have IH: "finish ((pre @ m) @ r) (render_matches te cx ((pre @ m) @ r) (find_iter (length (pre @ m)) r) (b', length (pre @ m))) =
        res_bind (template_spec te cx r) (\<lambda>t. Inr (b' @ t))" if "evaluate_expr te cx g = Inr j" for b' j
      using 2(2) [OF gr refl that, of "length (pre @ m)" "pre @ m" b'] by simp
    have sp: "template_spec te cx (c # cs) =
        res_bind (evaluate_expr te cx g) (\<lambda>j. res_bind (template_spec te cx r) (\<lambda>t. Inr (show_json te j @ t)))"
      using gr by simp
    have tk: "take (length (pre @ m) - length pre) (drop (length pre) (pre @ c # cs)) = m" using m(1) by simp
    have tm: "pre @ c # cs = (pre @ m) @ r" using m(1) by simp
    show ?thesis
    proof (cases "evaluate_expr te cx g")
      case (Inl e)
      then show ?thesis unfolding sp iter using rep tk pre by (simp add: res_bind_def finish_def)
    next
      case (Inr j)
      have "finish (pre @ c # cs) (render_matches te cx (pre @ c # cs) (find_iter (length pre) (c # cs)) (b, o')) =
          finish (pre @ c # cs) (render_matches te cx (pre @ c # cs) (find_iter (length (pre @ m)) r)
            (b @ drop o' pre @ show_json te j, length (pre @ m)))"
        unfolding iter using rep tk pre Inr by (simp add: res_bind_def)
      also have "\<dots> = res_bind (template_spec te cx r) (\<lambda>t. Inr ((b @ drop o' pre @ show_json te j) @ t))"
        unfolding tm by (rule IH [OF Inr])
      also have "\<dots> = res_bind (template_spec te cx (c # cs)) (\<lambda>t. Inr (b @ drop o' pre @ t))"
        unfolding sp Inr by (cases "template_spec te cx r") (simp_all add: res_bind_def)
      finally show ?thesis .
    qed
  qed
qed

text \<open>C21. A template becomes the text up to its first match, the value of the expression in it, and what the rest
  becomes; the first expression that cannot be evaluated is its error, and a template without a match stays.\<close>

theorem evaluate_template_spec: "evaluate_template te cx s = template_spec te cx s"
proof -
  have r: "finish s (render_matches te cx s (find_iter 0 s) ([], 0)) = template_spec te cx s"
    using render_spec [of 0 "[]" s te cx "[]"] by (cases "template_spec te cx s") (simp_all add: res_bind_def)
  show ?thesis
  proof (cases "s = [] \<or> find_iter 0 s = []")
    case True
    then show ?thesis using r by (auto simp: evaluate_template_def finish_def res_bind_def)
  next
    case False
    then show ?thesis using r render_last [of te cx s "find_iter 0 s" "[]" 0]
      by (cases "render_matches te cx s (find_iter 0 s) ([], 0)") (auto simp: evaluate_template_def finish_def res_bind_def Let_def)
  qed
qed

section \<open>Numbers drawn and ranges\<close>

lemma to_i64_or_small: "int n \<le> i64_max \<Longrightarrow> sint (to_i64_or n d) = int n"
  using sint_word_of_int_i64 [of "int n"] by (simp add: to_i64_or_def in_i64_def i64_min_def)

lemma unat_difference:
  fixes a b :: i64
  assumes "sint a < sint b"
  shows "int (unat (b - a)) = sint b - sint a"
proof -
  have "uint (word_of_int (sint b - sint a) :: i64) = (sint b - sint a) mod 2 ^ 64" by (simp only: uint_word_of_int) simp
  then have "int (unat (b - a)) = (sint b - sint a) mod 2 ^ 64" by simp
  moreover have "0 \<le> sint b - sint a" "sint b - sint a < 2 ^ 64"
    using assms in_i64_sint [of a] in_i64_sint [of b] by (auto simp: in_i64_def i64_min_def i64_max_def)
  ultimately show ?thesis by simp
qed

text \<open>C34. The number \<open>mathRandom\<close> draws lies between its bounds, the upper one excluded, for all 64 bit bounds: neither the
  wrapped difference nor the wrapped sum shows. \<open>randomInt\<close> of a positive bound is below it and not negative.\<close>

theorem draws_bounded:
  assumes "sint a < sint b" and "0 < sint m"
  shows "(\<exists>r. math_random_fn te (XV_Tuple [XV_Int a, XV_Int b]) = Inr (XV_Int r) \<and> sint a \<le> sint r \<and> sint r < sint b) \<and>
    (\<exists>r. random_int_fn te (XV_Int m) = Inr (XV_Int r) \<and> 0 \<le> sint r \<and> sint r < sint m)"
proof
  define v where "v = unat (te_random te) mod unat (b - a)"
  have d: "int (unat (b - a)) = sint b - sint a" by (rule unat_difference [OF assms(1)])
  then have v: "int v < sint b - sint a" using assms(1) unfolding v_def
    by (metis d less_le diff_gt_0_iff_gt mod_less_divisor of_nat_0_less_iff of_nat_less_iff)
  have r: "math_random_fn te (XV_Tuple [XV_Int a, XV_Int b]) = Inr (XV_Int (a + to_i64_or v 0))"
    using assms(1) by (simp add: math_random_fn_def extract_tuple_def res_bind_def ok_or_def Let_def v_def)
  show "\<exists>r. math_random_fn te (XV_Tuple [XV_Int a, XV_Int b]) = Inr (XV_Int r) \<and> sint a \<le> sint r \<and> sint r < sint b"
  proof (cases "int v \<le> i64_max")
    case True
    have "a + to_i64_or v 0 = word_of_int (sint a + int v)"
      using True by (simp add: to_i64_or_def)
    moreover have "in_i64 (sint a + int v)"
      using v in_i64_sint [of a] in_i64_sint [of b] by (auto simp: in_i64_def)
    ultimately have "sint (a + to_i64_or v 0) = sint a + int v" by (simp only: sint_word_of_int_i64)
    then show ?thesis using r v by auto
  next
    case False
    then show ?thesis using r assms(1) by (simp add: to_i64_or_def)
  qed
next
  define n where "n = unsigned_abs (word_of_nat (unat (te_random te))) mod nat (sint m)"
  have n: "int n < sint m" using assms(2) unfolding n_def
    by (metis mod_less_divisor nat_0_le of_nat_less_iff order_less_imp_le zero_less_nat_eq)
  have "m \<noteq> 0" using assms(2) by auto
  then have "random_int_fn te (XV_Int m) = Inr (XV_Int (to_i64_or n (word_of_int i64_max)))"
    using assms(2) by (simp add: random_int_fn_def Let_def n_def)
  moreover have "int n \<le> i64_max" using n in_i64_sint [of m] by (auto simp: in_i64_def)
  ultimately show "\<exists>r. random_int_fn te (XV_Int m) = Inr (XV_Int r) \<and> 0 \<le> sint r \<and> sint r < sint m"
    using n by (simp add: to_i64_or_small)
qed

definition plain_eval :: eval_env where
  "plain_eval = \<lparr>te_eval = \<lambda>c e. Inl [], te_show = \<lambda>j. [], te_parse = \<lambda>s. Inl [], te_random = 12, te_uuid = [],
     te_sha256 = \<lambda>s. [], te_md5 = \<lambda>s. [], te_base64 = \<lambda>s. s, te_unbase64 = \<lambda>s. Inr s, te_utf8_error = \<lambda>s. []\<rparr>"

theorem draws_bounded_witness:
  "(\<exists>r. math_random_fn plain_eval (XV_Tuple [XV_Int (- 3), XV_Int 4]) = Inr (XV_Int r) \<and> - 3 \<le> sint r \<and> sint r < 4) \<and>
    (\<exists>r. random_int_fn plain_eval (XV_Int 5) = Inr (XV_Int r) \<and> 0 \<le> sint r \<and> sint r < 5)"
  using draws_bounded [of "- 3" 4 5 plain_eval] by simp

lemma range_members_up:
  assumes "0 < sint step"
  shows "i \<in> set (range_loop stop step current) \<longleftrightarrow>
    (\<exists>k. sint i = sint current + int k * sint step) \<and> sint i < sint stop"
  using assms
proof (induction stop step current rule: range_loop.induct)
  case (1 stop step current)
  define next_one where "next_one = sint current + sint step"
  have top: "sint stop \<le> i64_max" using in_i64_sint [of stop] by (simp add: in_i64_def)
  have low: "i64_min \<le> next_one" using 1(2) in_i64_sint [of current] by (simp add: in_i64_def next_one_def)
  show ?case
  proof (cases "sint current < sint stop")
    case False
    then have "\<not> (sint i = sint current + int k * sint step \<and> sint i < sint stop)" for k
      using 1(2) zero_le_mult_iff [of "int k" "sint step"] by linarith
    then show ?thesis using False 1(2) range_loop.simps [of stop step current] by auto
  next
    case True
    have IH: "i \<in> set (range_loop stop step (saturate next_one)) \<longleftrightarrow>
        (\<exists>k. sint i = sint (saturate next_one) + int k * sint step) \<and> sint i < sint stop"
      using 1(1) 1(2) True by (simp add: next_one_def)
    have step: "(\<exists>k. sint i = sint (saturate next_one) + int k * sint step) \<and> sint i < sint stop \<longleftrightarrow>
        (\<exists>k. sint i = next_one + int k * sint step) \<and> sint i < sint stop"
    proof (cases "next_one \<le> i64_max")
      case True
      then show ?thesis using low by (simp add: sint_saturate)
    next
      case False
      then have "sint (saturate next_one) = i64_max" using low by (simp add: sint_saturate i64_min_def i64_max_def)
      moreover have "0 \<le> int k * sint step" for k using 1(2) by simp
      ultimately show ?thesis using False top by (smt (verit))
    qed
    have split: "(\<exists>k. sint i = sint current + int k * sint step) \<longleftrightarrow>
        i = current \<or> (\<exists>k. sint i = next_one + int k * sint step)"
    proof
      assume "\<exists>k. sint i = sint current + int k * sint step"
      then obtain k where k: "sint i = sint current + int k * sint step" by blast
      show "i = current \<or> (\<exists>k. sint i = next_one + int k * sint step)"
      proof (cases k)
        case 0
        then show ?thesis using k by (simp add: signed_word_eqI)
      next
        case (Suc j)
        then have "sint i = next_one + int j * sint step" using k by (simp add: next_one_def algebra_simps)
        then show ?thesis by blast
      qed
    next
      assume "i = current \<or> (\<exists>k. sint i = next_one + int k * sint step)"
      then show "\<exists>k. sint i = sint current + int k * sint step"
      proof
        assume "i = current"
        then show ?thesis by (intro exI [of _ 0]) simp
      next
        assume "\<exists>k. sint i = next_one + int k * sint step"
        then obtain k where "sint i = next_one + int k * sint step" by blast
        then show ?thesis by (intro exI [of _ "Suc k"]) (simp add: next_one_def algebra_simps)
      qed
    qed
    have "set (range_loop stop step current) = insert current (set (range_loop stop step (saturate next_one)))"
      using True 1(2) range_loop.simps [of stop step current] by (simp add: next_one_def)
    then show ?thesis using IH step split True by auto
  qed
qed

text \<open>\<open>arrayRange\<close> with a positive step lists exactly the numbers that lie a multiple of the step above the start and
  below the end: the saturating addition never shows, and the loop ends even next to the largest number.\<close>

theorem array_range_exact:
  assumes "0 < sint step"
  shows "\<exists>vs. array_range_fn (XV_Tuple [XV_Int start, XV_Int stop, XV_Int step]) = Inr (XV_Tuple (map XV_Int vs)) \<and>
    (\<forall>i. i \<in> set vs \<longleftrightarrow> (\<exists>k. sint i = sint start + int k * sint step) \<and> sint i < sint stop)"
proof -
  have "step \<noteq> 0" using assms by auto
  then have "array_range_fn (XV_Tuple [XV_Int start, XV_Int stop, XV_Int step]) = Inr (XV_Tuple (map XV_Int (range_loop stop step start)))"
    by (simp add: array_range_fn_def extract_tuple_def res_bind_def ok_or_def Let_def eval_nat_numeral)
  then show ?thesis using range_members_up [OF assms] by blast
qed

theorem array_range_exact_witness:
  "\<exists>vs. array_range_fn (XV_Tuple [XV_Int 1, XV_Int 8, XV_Int 3]) = Inr (XV_Tuple (map XV_Int vs)) \<and>
    (\<forall>i. i \<in> set vs \<longleftrightarrow> (\<exists>k. sint i = 1 + int k * 3) \<and> sint i < 8)"
  using array_range_exact [of 3 1 8] by simp

end
