(* ===== verification/Repository.thy ===== *)
theory Repository
  imports Datastore_Inmemory
begin

text \<open>
  The in-memory repository (\<open>twerk-core/src/repository_inmemory.rs\<close>), the second implementation of the store of the
  system. Each of its maps is behind a lock that an operation holds to its end, so operations run alone. The order of
  an association list stands for the unspecified order of a \<open>HashMap\<close>. Its errors are those of the datastore.
\<close>

record repository =
  rp_tasks :: "(string \<times> task) list"
  rp_task_logs :: "(string \<times> task_log_part list) list"
  rp_nodes :: "(string \<times> node) list"
  rp_jobs :: "(string \<times> job) list"
  rp_job_logs :: "(string \<times> task_log_part list) list"
  rp_scheduled_jobs :: "(string \<times> scheduled_job) list"
  rp_users :: "(string \<times> user) list"
  rp_roles :: "(string \<times> role) list"
  rp_user_roles :: "(string \<times> string list) list"

type_synonym 'a rp = "(repository, ds_error, 'a) eff"

definition new_repository :: repository where
  "new_repository = \<lparr>rp_tasks = [], rp_task_logs = [], rp_nodes = [], rp_jobs = [], rp_job_logs = [],
     rp_scheduled_jobs = [], rp_users = [], rp_roles = [], rp_user_roles = []\<rparr>"

section \<open>Pages\<close>

text \<open>
  The arithmetic wraps, as without overflow checks: \<open>as usize\<close> reads a negative number as a huge one, and the end of
  the slice can then lie before its start, which panics (\<open>None\<close>).
\<close>

definition paginate_vec :: "'a list \<Rightarrow> i64 \<Rightarrow> i64 \<Rightarrow> 'a page option" where
  "paginate_vec items page sz =
     (let total_items = word_of_nat (length items) :: i64;
          total_pages = (if 0 <s sz then word_of_int (sint (total_items + sz - 1) sdiv sint sz) else 0);
          start = unat ((page - 1) * sz);
          stop = min (unat ((page - 1) * sz + sz)) (length items)
      in if start < length items \<and> stop < start then None
         else Some \<lparr>pg_items = (if start < length items then take (stop - start) (drop start items) else []),
           pg_number = page, pg_size = sz, pg_total_pages = total_pages, pg_total_items = total_items\<rparr>)"

section \<open>What the maps share\<close>

text \<open>An entity is created under its id unless that is missing, empty or taken; it is changed by a closure under
  the lock, and found by its id.\<close>

definition create_in ::
    "('s \<Rightarrow> string \<Rightarrow> 'a option) \<Rightarrow> (string \<Rightarrow> 'a \<Rightarrow> 's \<Rightarrow> 's) \<Rightarrow> string \<Rightarrow> ('a \<Rightarrow> string option) \<Rightarrow> 'a \<Rightarrow> ('s, ds_error, unit) eff" where
  "create_in look ins what id_of x =
     (let i = (case id_of x of Some i \<Rightarrow> i | None \<Rightarrow> [])
      in if i = [] then throw (InvalidId (what @ '' has no id''))
         else and_then (asks (\<lambda>s. look s i)) (\<lambda>found.
           case found of Some _ \<Rightarrow> throw (Database (what @ '' '' @ i @ '' already exists'')) | None \<Rightarrow> modifies (ins i x)))"

definition get_in :: "('s \<Rightarrow> string \<Rightarrow> 'a option) \<Rightarrow> ds_error \<Rightarrow> string \<Rightarrow> ('s, ds_error, 'a) eff" where
  "get_in look not_found i = and_then (asks (\<lambda>s. look s i)) (\<lambda>x. lift_res (ok_or x not_found))"

definition no_check :: "string \<Rightarrow> ds_error + unit" where "no_check i = Inr ()"

definition rp_look_task :: "repository \<Rightarrow> string \<Rightarrow> task option" where "rp_look_task s = map_of (rp_tasks s)"
definition rp_put_task :: "string \<Rightarrow> task \<Rightarrow> repository \<Rightarrow> repository" where "rp_put_task i x = rp_tasks_update (AList.update i x)"
definition rp_look_node :: "repository \<Rightarrow> string \<Rightarrow> node option" where "rp_look_node s = map_of (rp_nodes s)"
definition rp_put_node :: "string \<Rightarrow> node \<Rightarrow> repository \<Rightarrow> repository" where "rp_put_node i x = rp_nodes_update (AList.update i x)"
definition rp_look_job :: "repository \<Rightarrow> string \<Rightarrow> job option" where "rp_look_job s = map_of (rp_jobs s)"
definition rp_put_job :: "string \<Rightarrow> job \<Rightarrow> repository \<Rightarrow> repository" where "rp_put_job i x = rp_jobs_update (AList.update i x)"
definition rp_look_scheduled :: "repository \<Rightarrow> string \<Rightarrow> scheduled_job option" where
  "rp_look_scheduled s = map_of (rp_scheduled_jobs s)"
definition rp_put_scheduled :: "string \<Rightarrow> scheduled_job \<Rightarrow> repository \<Rightarrow> repository" where
  "rp_put_scheduled i x = rp_scheduled_jobs_update (AList.update i x)"
definition rp_del_scheduled :: "string \<Rightarrow> repository \<Rightarrow> repository" where
  "rp_del_scheduled i = rp_scheduled_jobs_update (AList.delete i)"
definition rp_look_user :: "repository \<Rightarrow> string \<Rightarrow> user option" where "rp_look_user s = map_of (rp_users s)"
definition rp_put_user :: "string \<Rightarrow> user \<Rightarrow> repository \<Rightarrow> repository" where "rp_put_user i x = rp_users_update (AList.update i x)"
definition rp_look_role :: "repository \<Rightarrow> string \<Rightarrow> role option" where "rp_look_role s = map_of (rp_roles s)"
definition rp_put_role :: "string \<Rightarrow> role \<Rightarrow> repository \<Rightarrow> repository" where "rp_put_role i x = rp_roles_update (AList.update i x)"

section \<open>Tasks\<close>

definition rp_create_task :: "task \<Rightarrow> unit rp" where
  "rp_create_task = create_in rp_look_task rp_put_task ''task'' tk_id"

definition rp_update_task :: "string \<Rightarrow> (task \<Rightarrow> ds_error + task) \<Rightarrow> unit rp" where
  "rp_update_task = update_in rp_look_task rp_put_task TaskNotFound no_check"

definition rp_get_task_by_id :: "string \<Rightarrow> task rp" where
  "rp_get_task_by_id = get_in rp_look_task TaskNotFound"

definition rp_get_active_tasks :: "string \<Rightarrow> task list rp" where
  "rp_get_active_tasks job_id = asks (\<lambda>s. filter (\<lambda>t. tk_job_id t = Some job_id \<and> is_active (tk_state t)) (map snd (rp_tasks s)))"

definition rp_get_all_tasks_for_job :: "string \<Rightarrow> task list rp" where
  "rp_get_all_tasks_for_job job_id = asks (\<lambda>s. filter (\<lambda>t. tk_job_id t = Some job_id) (map snd (rp_tasks s)))"

text \<open>\<open>min_by_key\<close> keeps the first of the least.\<close>

fun min_by_key :: "('a \<Rightarrow> int) \<Rightarrow> 'a list \<Rightarrow> 'a option" where
  "min_by_key f [] = None"
| "min_by_key f (x # xs) = (case min_by_key f xs of None \<Rightarrow> Some x | Some y \<Rightarrow> Some (if f x \<le> f y then x else y))"

definition rp_get_next_task :: "string \<Rightarrow> task rp" where
  "rp_get_next_task parent =
     and_then (rp_get_task_by_id parent) (\<lambda>p.
     and_then (asks (\<lambda>s. min_by_key (th_position \<circ> hdr) (filter (\<lambda>t.
         tk_job_id t = Some (case tk_job_id p of Some j \<Rightarrow> j | None \<Rightarrow> []) \<and>
         tk_parent_id t = Some parent \<and> th_position (hdr p) < th_position (hdr t)) (map snd (rp_tasks s))))) (\<lambda>t.
     lift_res (ok_or t TaskNotFound)))"

definition rp_create_task_log_part :: "task_log_part \<Rightarrow> unit rp" where
  "rp_create_task_log_part part =
     (let i = (case lp_task_id part of Some i \<Rightarrow> i | None \<Rightarrow> [])
      in if i = [] then throw (InvalidId ''task log part has no task_id'')
         else modifies (rp_task_logs_update (entry_push i part)))"

definition rp_get_task_log_parts :: "string \<Rightarrow> string \<Rightarrow> i64 \<Rightarrow> i64 \<Rightarrow> task_log_part page option rp" where
  "rp_get_task_log_parts task_id q page sz =
     asks (\<lambda>s. paginate_vec (or_empty (map_of (rp_task_logs s) task_id)) page sz)"

section \<open>Nodes and jobs\<close>

definition rp_create_node :: "node \<Rightarrow> unit rp" where
  "rp_create_node = create_in rp_look_node rp_put_node ''node'' nd_id"

definition rp_update_node :: "string \<Rightarrow> (node \<Rightarrow> ds_error + node) \<Rightarrow> unit rp" where
  "rp_update_node = update_in rp_look_node rp_put_node NodeNotFound no_check"

definition rp_get_node_by_id :: "string \<Rightarrow> node rp" where
  "rp_get_node_by_id = get_in rp_look_node NodeNotFound"

definition rp_get_active_nodes :: "node list rp" where
  "rp_get_active_nodes = asks (\<lambda>s. filter (\<lambda>n. nd_status n = Some NS_UP) (map snd (rp_nodes s)))"

definition rp_create_job :: "job \<Rightarrow> unit rp" where
  "rp_create_job = create_in rp_look_job rp_put_job ''job'' jb_id"

definition rp_update_job :: "string \<Rightarrow> (job \<Rightarrow> ds_error + job) \<Rightarrow> unit rp" where
  "rp_update_job = update_in rp_look_job rp_put_job JobNotFound no_check"

definition rp_get_job_by_id :: "string \<Rightarrow> job rp" where
  "rp_get_job_by_id = get_in rp_look_job JobNotFound"

definition rp_get_job_log_parts :: "string \<Rightarrow> string \<Rightarrow> i64 \<Rightarrow> i64 \<Rightarrow> task_log_part page option rp" where
  "rp_get_job_log_parts job_id q page sz =
     asks (\<lambda>s. paginate_vec (or_empty (map_of (rp_job_logs s) job_id)) page sz)"

definition rp_get_jobs :: "string \<Rightarrow> string \<Rightarrow> i64 \<Rightarrow> i64 \<Rightarrow> job_summary page option rp" where
  "rp_get_jobs current_user q page sz =
     asks (\<lambda>s. paginate_vec (map new_job_summary (map snd (rp_jobs s))) page sz)"

section \<open>Scheduled jobs\<close>

definition rp_create_scheduled_job :: "scheduled_job \<Rightarrow> unit rp" where
  "rp_create_scheduled_job = create_in rp_look_scheduled rp_put_scheduled ''scheduled job'' sc_id"

definition rp_get_active_scheduled_jobs :: "scheduled_job list rp" where
  "rp_get_active_scheduled_jobs = asks (\<lambda>s. filter (\<lambda>sj. sc_state sj = SJ_Active) (map snd (rp_scheduled_jobs s)))"

definition rp_get_scheduled_jobs :: "string \<Rightarrow> i64 \<Rightarrow> i64 \<Rightarrow> scheduled_job_summary page option rp" where
  "rp_get_scheduled_jobs current_user page sz =
     asks (\<lambda>s. paginate_vec (map new_scheduled_job_summary (map snd (rp_scheduled_jobs s))) page sz)"

definition rp_get_scheduled_job_by_id :: "string \<Rightarrow> scheduled_job rp" where
  "rp_get_scheduled_job_by_id = get_in rp_look_scheduled ScheduledJobNotFound"

definition rp_update_scheduled_job :: "string \<Rightarrow> (scheduled_job \<Rightarrow> ds_error + scheduled_job) \<Rightarrow> unit rp" where
  "rp_update_scheduled_job = update_in rp_look_scheduled rp_put_scheduled ScheduledJobNotFound no_check"

definition rp_delete_scheduled_job :: "string \<Rightarrow> unit rp" where
  "rp_delete_scheduled_job i = and_then (rp_get_scheduled_job_by_id i) (\<lambda>_. modifies (rp_del_scheduled i))"

section \<open>Users and roles\<close>

definition rp_create_user :: "user \<Rightarrow> unit rp" where
  "rp_create_user = create_in rp_look_user rp_put_user ''user'' us_id"

definition rp_get_user :: "string \<Rightarrow> user rp" where
  "rp_get_user username =
     and_then (asks (\<lambda>s. find (\<lambda>u. us_username u = Some username) (map snd (rp_users s)))) (\<lambda>u. lift_res (ok_or u UserNotFound))"

definition rp_create_role :: "role \<Rightarrow> unit rp" where
  "rp_create_role = create_in rp_look_role rp_put_role ''role'' rl_id"

definition rp_get_role :: "string \<Rightarrow> role rp" where
  "rp_get_role = get_in rp_look_role RoleNotFound"

definition rp_get_roles :: "role list rp" where
  "rp_get_roles = asks (\<lambda>s. map snd (rp_roles s))"

definition rp_get_user_roles :: "string \<Rightarrow> role list rp" where
  "rp_get_user_roles user_id = asks (\<lambda>s.
     filter (\<lambda>r. (case rl_id r of Some i \<Rightarrow> i | None \<Rightarrow> []) \<in> set (or_empty (map_of (rp_user_roles s) user_id)))
       (map snd (rp_roles s)))"

text \<open>A set of role ids is a list without duplicates.\<close>

definition rp_assign_role :: "string \<Rightarrow> string \<Rightarrow> unit rp" where
  "rp_assign_role user_id role_id = modifies (rp_user_roles_update (\<lambda>m.
     AList.update user_id (List.insert role_id (or_empty (map_of m user_id))) m))"

definition rp_unassign_role :: "string \<Rightarrow> string \<Rightarrow> unit rp" where
  "rp_unassign_role user_id role_id = modifies (rp_user_roles_update (\<lambda>m.
     case map_of m user_id of None \<Rightarrow> m | Some rs \<Rightarrow> AList.update user_id (filter (\<lambda>r. r \<noteq> role_id) rs) m))"

definition rp_get_metrics :: "metrics rp" where
  "rp_get_metrics = asks (\<lambda>s.
     \<lparr>mx_jobs_running = word_of_nat (length (filter (\<lambda>j. jb_state j = JS_Running) (map snd (rp_jobs s)))),
      mx_tasks_running = word_of_nat (length (filter (\<lambda>t. tk_state t = TS_Running) (map snd (rp_tasks s)))),
      mx_nodes_running = word_of_nat (length (filter (\<lambda>n. nd_status n = Some NS_UP) (map snd (rp_nodes s)))),
      mx_cpu_percent = f64_div (fold (\<lambda>c acc. f64_add acc c) (List.map_filter nd_cpu_percent (map snd (rp_nodes s))) (f64_zero False))
        (f64_of_int (int (max (length (rp_nodes s)) 1)))\<rparr>)"

definition rp_with_tx :: "unit rp \<Rightarrow> unit rp" where
  "rp_with_tx f = throw (Transaction ''in-memory repository does not support transactions'')"

definition rp_health_check :: "unit rp" where
  "rp_health_check = ret ()"

section \<open>What the maps promise\<close>

locale string_store = keyed_store look ins
  for look :: "'s \<Rightarrow> string \<Rightarrow> 'a option" and ins :: "string \<Rightarrow> 'a \<Rightarrow> 's \<Rightarrow> 's"
begin

lemma create_result:
  "create_in look ins what id_of x s =
     (case id_of x of
        None \<Rightarrow> (Inl (InvalidId (what @ '' has no id'')), s)
      | Some i \<Rightarrow> if i = [] then (Inl (InvalidId (what @ '' has no id'')), s)
          else if look s i \<noteq> None then (Inl (Database (what @ '' '' @ i @ '' already exists'')), s)
          else (Inr (), ins i x s))"
  by (auto simp: create_in_def Let_def eff_simps split: option.splits)

lemma create_found:
  assumes "create_in look ins what id_of x s = (Inr (), s')"
  shows "\<exists>i. id_of x = Some i \<and> i \<noteq> [] \<and> look s i = None \<and> get_in look nf i s' = (Inr x, s') \<and>
    (\<forall>j. j \<noteq> i \<longrightarrow> look s' j = look s j)"
  using assms
  by (auto simp: create_result get_in_def eff_simps look_ins ok_or_def split: option.splits if_splits)

lemma create_again:
  "create_in look ins what id_of x s = (Inr (), s') \<Longrightarrow> id_of y = id_of x \<Longrightarrow>
     \<exists>i. create_in look ins what id_of y s' = (Inl (Database (what @ '' '' @ i @ '' already exists'')), s')"
  by (auto simp: create_result look_ins split: option.splits if_splits)

end

interpretation repository_tasks: string_store rp_look_task rp_put_task
  by unfold_locales (simp add: rp_look_task_def rp_put_task_def update_conv')

interpretation repository_nodes: string_store rp_look_node rp_put_node
  by unfold_locales (simp add: rp_look_node_def rp_put_node_def update_conv')

interpretation repository_jobs: string_store rp_look_job rp_put_job
  by unfold_locales (simp add: rp_look_job_def rp_put_job_def update_conv')

interpretation repository_scheduled: keyed_store_del rp_look_scheduled rp_put_scheduled rp_del_scheduled
  by unfold_locales (auto simp: rp_look_scheduled_def rp_put_scheduled_def rp_del_scheduled_def update_conv' delete_conv')

interpretation repository_users: string_store rp_look_user rp_put_user
  by unfold_locales (simp add: rp_look_user_def rp_put_user_def update_conv')

interpretation repository_roles: string_store rp_look_role rp_put_role
  by unfold_locales (simp add: rp_look_role_def rp_put_role_def update_conv')

text \<open>The two stores differ: the datastore replaces a job that is created again, the repository refuses it.\<close>

lemma recreated_job:
  assumes "rp_create_job j s = (Inr (), s')" and "jb_id k = jb_id j"
  shows "\<exists>i. rp_create_job k s' = (Inl (Database (''job '' @ i @ '' already exists'')), s')"
  using repository_jobs.create_again [of "''job''" jb_id j s s' k] assms by (auto simp: rp_create_job_def)

lemma created_job_read:
  assumes "rp_create_job j s = (Inr (), s')"
  shows "\<exists>i. jb_id j = Some i \<and> rp_get_job_by_id i s' = (Inr j, s')"
  using repository_jobs.create_found [of "''job''" jb_id j s s' JobNotFound] assms
  by (auto simp: rp_create_job_def rp_get_job_by_id_def)

section \<open>The pages of a list\<close>

lemma page_slice:
  assumes "0 < n" and "length items + n * Suc p < 2 ^ 63"
  shows "\<exists>g. paginate_vec items (word_of_nat (Suc p)) (word_of_nat n) = Some g \<and> pg_items g = take n (drop (p * n) items)"
proof -
  have pn: "p * n < 2 ^ 63" and pn2: "p * n + n < 2 ^ 63" using assms by (simp_all add: algebra_simps)
  have a: "(word_of_nat (Suc p) - 1) * word_of_nat n = (word_of_nat (p * n) :: i64)" by simp
  have b: "(word_of_nat (Suc p) - 1) * word_of_nat n + word_of_nat n = (word_of_nat (p * n + n) :: i64)" by simp
  have u: "unat (word_of_nat (p * n) :: i64) = p * n" "unat (word_of_nat (p * n + n) :: i64) = p * n + n"
    using pn pn2 by (simp_all only: unat_of_nat) simp_all
  have w: "take (min (p * n + n) (length items) - p * n) (drop (p * n) items) = take n (drop (p * n) items)"
    if "p * n < length items" using that by (auto simp: min_def)
  show ?thesis unfolding paginate_vec_def Let_def b
    unfolding a u using w assms(1) by (cases "p * n < length items") auto
qed

lemma concat_slices: "concat (map (\<lambda>p. take n (drop (p * n) xs)) [0..<k]) = take (k * n) xs"
proof (induction k)
  case (Suc k)
  have "take (k * n + n) xs = take (k * n) xs @ take n (drop (k * n) xs)" by (rule take_add)
  then show ?case using Suc by (simp add: add.commute)
qed simp

text \<open>The pages in turn give back the list, as long as no product overflows.\<close>

lemma pages_cover:
  assumes "0 < n" and "length items \<le> k * n" and "length items + n * k < 2 ^ 63"
  shows "concat (map (\<lambda>p. pg_items (the (paginate_vec items (word_of_nat (Suc p)) (word_of_nat n)))) [0..<k]) = items"
proof -
  have "pg_items (the (paginate_vec items (word_of_nat (Suc p)) (word_of_nat n))) = take n (drop (p * n) items)" if "p < k" for p
  proof -
    have "n * Suc p \<le> n * k" using that by (intro mult_le_mono) auto
    then show ?thesis using page_slice [OF assms(1), of items p] assms(3) by fastforce
  qed
  then have "map (\<lambda>p. pg_items (the (paginate_vec items (word_of_nat (Suc p)) (word_of_nat n)))) [0..<k] =
      map (\<lambda>p. take n (drop (p * n) items)) [0..<k]" by (intro map_cong) auto
  then show ?thesis using concat_slices [of n items k] assms(2) by (simp only: take_all)
qed

text \<open>Numbers that are not checked: a negative size and page reach a slice whose end lies before its start.\<close>

lemma negative_page_panics: "paginate_vec [a, b, c :: 'a] (- 1) (- 1) = None"
proof -
  have "unat ((- 1 - 1) * (- 1) :: i64) = 2" "unat ((- 1 - 1) * (- 1) + - 1 :: i64) = 1" by simp_all
  then show ?thesis by (simp add: paginate_vec_def Let_def)
qed

end
