(* ===== verification/Cache.thy ===== *)
theory Cache
  imports Store_Interface "HOL-Library.AList"
begin

text \<open>
  The cache (\<open>twerk-infrastructure/src/cache\<close>): a map of items with the instant they expire at, and a janitor that
  deletes the expired ones. Instants and durations are numbers; each operation reads the clock once, and the reading is
  its first argument. The callback of evictions is whether one is set; what it is called with is kept in a list.
\<close>

section \<open>Items and caches\<close>

datatype expiration = EX_Default | EX_Never | EX_Absolute nat

record 'v cache_item =
  ci_object :: 'v
  ci_expiration :: "nat option"

definition new_item :: "'v \<Rightarrow> nat option \<Rightarrow> 'v cache_item" where
  "new_item v e = \<lparr>ci_object = v, ci_expiration = e\<rparr>"

definition with_expiration :: "'v \<Rightarrow> expiration \<Rightarrow> nat option \<Rightarrow> 'v cache_item" where
  "with_expiration v e default_exp =
     \<lparr>ci_object = v, ci_expiration = (case e of EX_Default \<Rightarrow> default_exp | EX_Never \<Rightarrow> None | EX_Absolute i \<Rightarrow> Some i)\<rparr>"

definition is_expired :: "nat \<Rightarrow> 'v cache_item \<Rightarrow> bool" where
  "is_expired now i = (case ci_expiration i of Some e \<Rightarrow> e < now | None \<Rightarrow> False)"

record ('k, 'v) cache =
  ca_items :: "('k \<times> 'v cache_item) list"
  ca_cleanup_interval :: "nat option"
  ca_shutdown_flag :: bool
  ca_default_expiration :: "nat option"
  ca_on_evicted :: bool
  ca_calls :: "('k \<times> 'v) list"

definition new_cache :: "('k, 'v) cache" where
  "new_cache = \<lparr>ca_items = [], ca_cleanup_interval = None, ca_shutdown_flag = False, ca_default_expiration = None,
     ca_on_evicted = False, ca_calls = []\<rparr>"

text \<open>A janitor is started with a cache whose interval is not zero.\<close>

definition with_cleanup :: "nat option \<Rightarrow> ('k, 'v) cache \<times> bool" where
  "with_cleanup cleanup_interval =
     (case cleanup_interval of
        Some i \<Rightarrow> if i = 0 then (new_cache, False) else (new_cache\<lparr>ca_cleanup_interval := Some i\<rparr>, True)
      | None \<Rightarrow> (new_cache, False))"

definition with_expiration_and_cleanup :: "nat option \<Rightarrow> nat option \<Rightarrow> ('k, 'v) cache \<times> bool" where
  "with_expiration_and_cleanup default_expiration cleanup_interval =
     (case cleanup_interval of
        Some i \<Rightarrow> if i = 0 then (new_cache\<lparr>ca_default_expiration := default_expiration\<rparr>, False)
          else (new_cache\<lparr>ca_cleanup_interval := Some i, ca_default_expiration := default_expiration\<rparr>, True)
      | None \<Rightarrow> (new_cache\<lparr>ca_default_expiration := default_expiration\<rparr>, False))"

definition set_on_evicted :: "('k, 'v) cache \<Rightarrow> ('k, 'v) cache" where
  "set_on_evicted c = c\<lparr>ca_on_evicted := True\<rparr>"

definition has_janitor :: "('k, 'v) cache \<Rightarrow> bool" where
  "has_janitor c \<longleftrightarrow> ca_cleanup_interval c \<noteq> None"

definition stop_janitor :: "('k, 'v) cache \<Rightarrow> ('k, 'v) cache" where
  "stop_janitor c = (if ca_cleanup_interval c \<noteq> None then c\<lparr>ca_shutdown_flag := True\<rparr> else c)"

definition cache_len :: "('k, 'v) cache \<Rightarrow> nat" where
  "cache_len c = length (ca_items c)"

section \<open>Operations\<close>

definition look_item :: "('k, 'v) cache \<Rightarrow> 'k \<Rightarrow> 'v cache_item option" where
  "look_item c = map_of (ca_items c)"

definition put_item :: "'k \<Rightarrow> 'v cache_item \<Rightarrow> ('k, 'v) cache \<Rightarrow> ('k, 'v) cache" where
  "put_item k i = ca_items_update (AList.update k i)"

definition del_item :: "'k \<Rightarrow> ('k, 'v) cache \<Rightarrow> ('k, 'v) cache" where
  "del_item k = ca_items_update (AList.delete k)"

definition insert_entry :: "nat \<Rightarrow> 'k \<Rightarrow> 'v \<Rightarrow> nat option \<Rightarrow> ('k, 'v) cache \<Rightarrow> 'v cache_item option \<times> ('k, 'v) cache" where
  "insert_entry now k v expires c = (look_item c k, put_item k (new_item v (map_option ((+) now) expires)) c)"

definition insert_expiring :: "nat \<Rightarrow> 'k \<Rightarrow> 'v \<Rightarrow> expiration \<Rightarrow> ('k, 'v) cache \<Rightarrow> 'v cache_item option \<times> ('k, 'v) cache" where
  "insert_expiring now k v e c =
     (look_item c k, put_item k (with_expiration v e (map_option ((+) now) (ca_default_expiration c))) c)"

definition get_entry :: "nat \<Rightarrow> 'k \<Rightarrow> ('k, 'v) cache \<Rightarrow> 'v option" where
  "get_entry now k c =
     (case look_item c k of Some i \<Rightarrow> if is_expired now i then None else Some (ci_object i) | None \<Rightarrow> None)"

definition contains_entry :: "nat \<Rightarrow> 'k \<Rightarrow> ('k, 'v) cache \<Rightarrow> bool" where
  "contains_entry now k c = (case look_item c k of Some i \<Rightarrow> \<not> is_expired now i | None \<Rightarrow> False)"

definition notify_evicted :: "'k \<Rightarrow> 'v \<Rightarrow> ('k, 'v) cache \<Rightarrow> ('k, 'v) cache" where
  "notify_evicted k v c = (if ca_on_evicted c then c\<lparr>ca_calls := ca_calls c @ [(k, v)]\<rparr> else c)"

definition remove_entry :: "'k \<Rightarrow> ('k, 'v) cache \<Rightarrow> 'v cache_item option \<times> ('k, 'v) cache" where
  "remove_entry k c =
     (case look_item c k of None \<Rightarrow> (None, c) | Some i \<Rightarrow> (Some i, notify_evicted k (ci_object i) (del_item k c)))"

definition clear_entries :: "('k, 'v) cache \<Rightarrow> ('k, 'v) cache" where
  "clear_entries c = c\<lparr>ca_items := []\<rparr>"

definition close_cache :: "('k, 'v) cache \<Rightarrow> ('k, 'v) cache" where
  "close_cache c = (if ca_cleanup_interval c \<noteq> None then c\<lparr>ca_shutdown_flag := True\<rparr> else c)"

definition set_expiration :: "nat \<Rightarrow> 'k \<Rightarrow> nat \<Rightarrow> ('k, 'v) cache \<Rightarrow> bool \<times> ('k, 'v) cache" where
  "set_expiration now k duration c =
     (case look_item c k of
        Some i \<Rightarrow> (True, put_item k (i\<lparr>ci_expiration := Some (now + duration)\<rparr>) c)
      | None \<Rightarrow> (False, c))"

text \<open>The closure works on the value in place: what it changed before an error stays.\<close>

definition modify_entry :: "nat \<Rightarrow> 'k \<Rightarrow> ('v \<Rightarrow> ('e + unit) \<times> 'v) \<Rightarrow> ('k, 'v) cache \<Rightarrow> ('e + unit) option \<times> ('k, 'v) cache" where
  "modify_entry now k f c =
     (case look_item c k of
        Some i \<Rightarrow> if is_expired now i then (None, c)
          else (case f (ci_object i) of (r, v) \<Rightarrow> (Some r, put_item k (i\<lparr>ci_object := v\<rparr>) c))
      | None \<Rightarrow> (None, c))"

definition list_entries :: "nat \<Rightarrow> ('v \<Rightarrow> bool) list \<Rightarrow> ('k, 'v) cache \<Rightarrow> 'v list" where
  "list_entries now filters c =
     filter (\<lambda>v. \<forall>f \<in> set filters. f v) (map (ci_object \<circ> snd) (filter (\<lambda>(k, i). \<not> is_expired now i) (ca_items c)))"

text \<open>The function is called on every live entry; those it answers true for are counted. The function has a state.\<close>

fun iterate_over :: "('k \<Rightarrow> 'v \<Rightarrow> 's \<Rightarrow> bool \<times> 's) \<Rightarrow> ('k \<times> 'v cache_item) list \<Rightarrow> 's \<Rightarrow> nat \<times> 's" where
  "iterate_over f [] s = (0, s)"
| "iterate_over f ((k, i) # xs) s =
     (case f k (ci_object i) s of (b, s') \<Rightarrow> case iterate_over f xs s' of (n, s'') \<Rightarrow> ((if b then Suc n else n), s''))"

definition iterate_entries :: "nat \<Rightarrow> ('k \<Rightarrow> 'v \<Rightarrow> 's \<Rightarrow> bool \<times> 's) \<Rightarrow> ('k, 'v) cache \<Rightarrow> 's \<Rightarrow> nat \<times> 's" where
  "iterate_entries now f c s = iterate_over f (filter (\<lambda>(k, i). \<not> is_expired now i) (ca_items c)) s"

section \<open>The janitor\<close>

text \<open>The keys are collected first, with an instant read before; the clock that \<open>is_expired\<close> reads is not behind it.\<close>

definition delete_expired_from_map :: "nat \<Rightarrow> ('k, 'v) cache \<Rightarrow> ('k, 'v) cache" where
  "delete_expired_from_map now c =
     (let keys_to_remove = map fst (filter (\<lambda>(k, i). is_expired now i) (ca_items c));
          evicted = List.map_filter (\<lambda>k. map_option (\<lambda>i. (k, ci_object i)) (look_item c k)) keys_to_remove;
          c' = fold del_item keys_to_remove c
      in if ca_on_evicted c then c'\<lparr>ca_calls := ca_calls c' @ evicted\<rparr> else c')"

definition delete_expired :: "nat \<Rightarrow> ('k, 'v) cache \<Rightarrow> ('k, 'v) cache" where
  "delete_expired now c = delete_expired_from_map now c"

text \<open>One round of the loop at an instant where the ticker is due or not; the flag ends it.\<close>

definition janitor_round :: "nat \<Rightarrow> bool \<Rightarrow> ('k, 'v) cache \<Rightarrow> ('k, 'v) cache option" where
  "janitor_round now due c =
     (if ca_shutdown_flag c then None else Some (if due then delete_expired_from_map now c else c))"

section \<open>What an expired item shows\<close>

interpretation cache_items: keyed_store_del look_item put_item del_item
  by unfold_locales (auto simp: look_item_def put_item_def del_item_def update_conv' delete_conv')

lemma look_fold_del: "look_item (fold del_item ks c) k = (if k \<in> set ks then None else look_item c k)"
  by (induction ks arbitrary: c) (auto simp: cache_items.look_del)

lemma look_after_delete:
  assumes "distinct (map fst (ca_items c))"
  shows "look_item (delete_expired_from_map now c) k =
    (case look_item c k of Some i \<Rightarrow> if is_expired now i then None else Some i | None \<Rightarrow> None)"
proof -
  have "k \<in> set (map fst (filter (\<lambda>(k, i). is_expired now i) (ca_items c))) \<longleftrightarrow> (\<exists>i. look_item c k = Some i \<and> is_expired now i)"
    using assms by (auto simp: look_item_def image_iff)
  moreover have "look_item (delete_expired_from_map now c) k =
      look_item (fold del_item (map fst (filter (\<lambda>(k, i). is_expired now i) (ca_items c))) c) k"
    by (simp add: delete_expired_from_map_def Let_def look_item_def)
  ultimately show ?thesis by (auto simp: look_fold_del split: option.splits)
qed

text \<open>The janitor cannot be seen: what \<open>get\<close>, \<open>contains\<close> and \<open>modify\<close> find at any later instant is the same with and
  without its run.\<close>

theorem janitor_invisible:
  assumes "distinct (map fst (ca_items c))" and "now \<le> later"
  shows "get_entry later k (delete_expired now c) = get_entry later k c \<and>
    contains_entry later k (delete_expired now c) = contains_entry later k c \<and>
    fst (modify_entry later k f (delete_expired now c)) = fst (modify_entry later k f c)"
  using assms(2)
  by (auto simp: delete_expired_def get_entry_def contains_entry_def modify_entry_def look_after_delete [OF assms(1)] is_expired_def
    split: option.splits prod.splits)

definition sample_cache :: "(nat, nat) cache" where
  "sample_cache = snd (insert_entry 0 1 7 (Some 3) (snd (insert_entry 0 2 8 None new_cache)))"

theorem janitor_invisible_witness:
  "get_entry 9 2 (delete_expired 5 sample_cache) = get_entry 9 2 sample_cache \<and>
    contains_entry 9 2 (delete_expired 5 sample_cache) = contains_entry 9 2 sample_cache \<and>
    fst (modify_entry 9 2 (\<lambda>v. (Inr () :: nat + unit, Suc v)) (delete_expired 5 sample_cache)) =
      fst (modify_entry 9 2 (\<lambda>v. (Inr () :: nat + unit, Suc v)) sample_cache)"
  by (rule janitor_invisible) (simp_all add: sample_cache_def insert_entry_def put_item_def new_cache_def)

lemma items_distinct:
  "distinct (map fst (ca_items c)) \<Longrightarrow> distinct (map fst (ca_items (put_item k i c)))"
  "distinct (map fst (ca_items c)) \<Longrightarrow> distinct (map fst (ca_items (del_item k c)))"
  by (simp_all add: put_item_def del_item_def distinct_update distinct_delete)

text \<open>Where the code differs from what its comments say.\<close>

lemma zero_default_expires:
  "get_entry (Suc now) k (snd (insert_expiring now k v EX_Default (fst (with_expiration_and_cleanup (Some 0) i)))) = None"
  by (simp add: get_entry_def insert_expiring_def cache_items.look_ins with_expiration_def is_expired_def
    with_expiration_and_cleanup_def new_cache_def split: option.splits)

lemma expired_revives:
  assumes "look_item c k = Some i" and "is_expired now i"
  shows "get_entry now k c = None \<and> fst (set_expiration now k d c) \<and>
    get_entry now k (snd (set_expiration now k d c)) = Some (ci_object i)"
  using assms by (simp add: get_entry_def set_expiration_def cache_items.look_ins is_expired_def)

lemma failed_modify_stays:
  assumes "look_item c k = Some i" and "\<not> is_expired now i" and "f (ci_object i) = (Inl e, v)"
  shows "modify_entry now k f c = (Some (Inl e), put_item k (i\<lparr>ci_object := v\<rparr>) c) \<and>
    get_entry now k (snd (modify_entry now k f c)) = Some v"
  using assms by (simp add: modify_entry_def get_entry_def cache_items.look_ins is_expired_def)

text \<open>The iteration goes on after the function has answered false: it is called on every entry.\<close>

lemma iterate_calls_all: "snd (iterate_over (\<lambda>k v s. (b k, Suc s)) xs s) = s + length xs"
proof (induction xs arbitrary: s)
  case (Cons x xs)
  obtain k i where x: "x = (k, i)" by (cases x)
  show ?case using Cons [of "Suc s"] unfolding x by (auto split: prod.split)
qed simp

end
