(* ===== verification/Docker_Config.thy ===== *)
theory Docker_Config
  imports Worker
begin

text \<open>
  What the docker runtime makes of a task (\<open>twerk-infrastructure/src/runtime/docker\<close>: \<open>container/factory.rs\<close>, \<open>helpers.rs\<close>,
  \<open>error.rs\<close>): the environment, mounts, limits, networks, ports and command of its container. The records of the crate
  \<open>bollard\<close> hold the fields the code fills in; the others have their defaults. A map of endpoints or ports is an
  association list. The Unicode classes are arguments.
\<close>

section \<open>Errors\<close>

datatype docker_error =
    DE_TaskIdRequired | DE_ImageRequired | DE_VolumeTargetRequired | DE_BindTargetRequired | DE_BindSourceRequired
  | DE_UnknownMountType string | DE_ImagePull string | DE_ContainerCreate string | DE_ContainerStart string
  | DE_ContainerWait string | DE_ContainerRemove string | DE_Unmount string | DE_VolumeCreate string | DE_VolumeRemove string
  | DE_CopyToContainer string | DE_CopyFromContainer string | DE_ContainerInspect string | DE_InvalidCpus string
  | DE_InvalidMemory string | DE_ImageVerifyFailed string | DE_CorruptedImage string | DE_NonZeroExit i64 string
  | DE_ProbeTimeout string | DE_ProbeError string | DE_InvalidGpuOptions string

definition show_i64_dec :: "i64 \<Rightarrow> string" where
  "show_i64_dec i = (if sint i < 0 then CHR ''-'' # show_nat (nat (- sint i)) else show_nat (nat (sint i)))"

fun docker_error_display :: "docker_error \<Rightarrow> string" where
  "docker_error_display DE_TaskIdRequired = ''task ID is required''"
| "docker_error_display DE_ImageRequired = ''image is required''"
| "docker_error_display DE_VolumeTargetRequired = ''volume target is required''"
| "docker_error_display DE_BindTargetRequired = ''bind target is required''"
| "docker_error_display DE_BindSourceRequired = ''bind source is required''"
| "docker_error_display (DE_UnknownMountType e) = ''unknown mount type: '' @ e"
| "docker_error_display (DE_ImagePull e) = ''error pulling image: '' @ e"
| "docker_error_display (DE_ContainerCreate e) = ''error creating container: '' @ e"
| "docker_error_display (DE_ContainerStart e) = ''error starting container: '' @ e"
| "docker_error_display (DE_ContainerWait e) = ''error waiting for container: '' @ e"
| "docker_error_display (DE_ContainerRemove e) = ''error removing container: '' @ e"
| "docker_error_display (DE_Unmount e) = ''error unmounting: '' @ e"
| "docker_error_display (DE_VolumeCreate e) = ''error creating volume: '' @ e"
| "docker_error_display (DE_VolumeRemove e) = ''error removing volume: '' @ e"
| "docker_error_display (DE_CopyToContainer e) = ''error copying files to container: '' @ e"
| "docker_error_display (DE_CopyFromContainer e) = ''error copying files from container: '' @ e"
| "docker_error_display (DE_ContainerInspect e) = ''error inspecting container: '' @ e"
| "docker_error_display (DE_InvalidCpus e) = ''invalid CPUs value: '' @ e"
| "docker_error_display (DE_InvalidMemory e) = ''invalid memory value: '' @ e"
| "docker_error_display (DE_ImageVerifyFailed e) = ''image verification failed: '' @ e"
| "docker_error_display (DE_CorruptedImage e) = ''image '' @ e @ '' is invalid or corrupted''"
| "docker_error_display (DE_NonZeroExit c e) = ''exit code '' @ show_i64_dec c @ '': '' @ e"
| "docker_error_display (DE_ProbeTimeout e) = ''probe timed out after '' @ e"
| "docker_error_display (DE_ProbeError e) = ''probe error: '' @ e"
| "docker_error_display (DE_InvalidGpuOptions e) = ''error parsing GPU options: '' @ e"

section \<open>Numbers of limits\<close>

text \<open>\<open>as i64\<close> of a double cuts off its fraction and saturates.\<close>

definition f64_to_i64 :: "f64 \<Rightarrow> i64" where
  "f64_to_i64 x =
     (if f64_is_nan x then 0
      else if f64_is_inf x then (if f64_sign x then word_of_int i64_min else word_of_int i64_max)
      else let v = (if f64_scaled x < 0 then - ((- f64_scaled x) div 2 ^ 1074) else f64_scaled x div 2 ^ 1074)
        in word_of_int (max i64_min (min i64_max v)))"

definition strip_suffix :: "string \<Rightarrow> string \<Rightarrow> string option" where
  "strip_suffix suf s = (if suffix suf s then Some (take (length s - length suf) s) else None)"

text \<open>The errors carry the text of the parser's error, an argument; the units in the order they are tried.\<close>

definition memory_units :: "(string \<times> string \<times> int) list" where
  "memory_units = [(''TB'', ''tb'', 1099511627776), (''GB'', ''gb'', 1073741824), (''MB'', ''mb'', 1048576),
     (''KB'', ''kb'', 1024), (''B'', ''b'', 1)]"

fun unit_of :: "(string \<times> string \<times> int) list \<Rightarrow> string \<Rightarrow> (string \<times> int) option" where
  "unit_of [] s = None"
| "unit_of ((upper, lower, k) # us) s =
     (case (case strip_suffix upper s of Some r \<Rightarrow> Some r | None \<Rightarrow> strip_suffix lower s) of
        Some r \<Rightarrow> Some (trim r, k) | None \<Rightarrow> unit_of us s)"

definition parse_memory_bytes :: "(string \<Rightarrow> string) \<Rightarrow> string \<Rightarrow> string + i64" where
  "parse_memory_bytes perr s =
     (let s = trim s; failed = (\<lambda>x. ''cannot parse '' @ [CHR 0x27] @ x @ [CHR 0x27] @ '': '' @ perr x)
      in case unit_of memory_units s of
           None \<Rightarrow> ok_or (parse_i64 s) (failed s)
         | Some (num, k) \<Rightarrow> (case parse_f64 num of
             None \<Rightarrow> Inl (failed num) | Some v \<Rightarrow> Inr (f64_to_i64 (f64_mul v (f64_of_int k)))))"

definition parse_cpus :: "task_limits option \<Rightarrow> docker_error + i64 option" where
  "parse_cpus limits =
     (case Option.bind limits tl_cpus of
        Some cpus \<Rightarrow> if cpus = [] then Inr None
          else (case parse_f64 cpus of None \<Rightarrow> Inl (DE_InvalidCpus cpus)
            | Some v \<Rightarrow> Inr (Some (f64_to_i64 (f64_mul v (f64_of_int 1000000000)))))
      | None \<Rightarrow> Inr None)"

definition parse_memory :: "(string \<Rightarrow> string) \<Rightarrow> task_limits option \<Rightarrow> docker_error + i64 option" where
  "parse_memory perr limits =
     (case Option.bind limits tl_memory of
        Some mem \<Rightarrow> if mem = [] then Inr None
          else res_bind (map_err DE_InvalidMemory (parse_memory_bytes perr mem)) (\<lambda>v. Inr (Some v))
      | None \<Rightarrow> Inr None)"

section \<open>Graphics cards\<close>

record device_request =
  dq_count :: "i64 option"
  dq_driver :: "string option"
  dq_capabilities :: "string list"
  dq_device_ids :: "string list"

text \<open>One option of the list; a part without an equals sign is skipped.\<close>

definition gpu_option :: "string \<Rightarrow> device_request \<Rightarrow> docker_error + device_request" where
  "gpu_option part d =
     (case split_on CHR ''='' (trim part) of
        key # v # vs \<Rightarrow>
          (let val = foldl (\<lambda>acc w. acc @ ''='' @ w) v vs; key = trim key
           in if key = ''count'' then
                (if trim val = ''all'' then Inr (d\<lparr>dq_count := Some (- 1)\<rparr>)
                 else case parse_i64 (trim val) of
                     Some n \<Rightarrow> Inr (d\<lparr>dq_count := Some n\<rparr>) | None \<Rightarrow> Inl (DE_InvalidGpuOptions (''invalid count: '' @ val)))
              else if key = ''driver'' then Inr (d\<lparr>dq_driver := Some (trim val)\<rparr>)
              else if key = ''capabilities'' then Inr (d\<lparr>dq_capabilities := dq_capabilities d @ map trim (split_on CHR '';'' val)\<rparr>)
              else if key = ''device'' then Inr (d\<lparr>dq_device_ids := dq_device_ids d @ map trim (split_on CHR '';'' val)\<rparr>)
              else Inl (DE_InvalidGpuOptions (''unknown GPU option: '' @ key)))
      | _ \<Rightarrow> Inr d)"

fun gpu_options :: "string list \<Rightarrow> device_request \<Rightarrow> docker_error + device_request" where
  "gpu_options [] d = Inr d"
| "gpu_options (p # ps) d = res_bind (gpu_option p d) (gpu_options ps)"

definition parse_gpu_options :: "string \<Rightarrow> docker_error + device_request" where
  "parse_gpu_options s =
     res_bind (gpu_options (split_on CHR '','' s) \<lparr>dq_count = None, dq_driver = None, dq_capabilities = [], dq_device_ids = []\<rparr>) (\<lambda>d.
       Inr (if dq_capabilities d = [] then d\<lparr>dq_capabilities := [''gpu'']\<rparr> else d))"

section \<open>Names\<close>

text \<open>Characters are strings of bytes; a character that is a letter or digit is kept, in lower case if it is ASCII.\<close>

definition slugify :: "(string \<Rightarrow> bool) \<Rightarrow> string \<Rightarrow> string" where
  "slugify alphanumeric s =
     (let mapped = concat (map (\<lambda>c. if alphanumeric c then to_ascii_lowercase c else ''-'') (utf8_chars s));
          parts = filter (\<lambda>p. p \<noteq> []) (split_on CHR ''-'' mapped)
      in foldl (\<lambda>acc p. if acc = [] then p else acc @ ''-'' @ p) [] parts)"

definition format_kv :: "string \<Rightarrow> string \<Rightarrow> string" where
  "format_kv k v = k @ ''='' @ v"

section \<open>The container\<close>

datatype mount_kind = MK_Volume | MK_Bind | MK_Tmpfs

record bollard_mount =
  bm_target :: "string option"
  bm_source :: "string option"
  bm_typ :: mount_kind

definition mount_entry :: "mount \<Rightarrow> docker_error + bollard_mount" where
  "mount_entry m =
     (let blank = (\<lambda>x. x = None \<or> x = Some [])
      in res_bind
        (case mt_type m of
           Some ty \<Rightarrow>
             if ty = ''volume'' then (if blank (mt_target m) then Inl DE_VolumeTargetRequired else Inr MK_Volume)
             else if ty = ''bind'' then (if blank (mt_target m) then Inl DE_BindTargetRequired
               else if blank (mt_source m) then Inl DE_BindSourceRequired else Inr MK_Bind)
             else if ty = ''tmpfs'' then Inr MK_Tmpfs
             else Inl (DE_UnknownMountType ty)
         | None \<Rightarrow> Inl (DE_UnknownMountType ''none''))
        (\<lambda>k. Inr \<lparr>bm_target = mt_target m, bm_source = mt_source m, bm_typ = k\<rparr>))"

fun mount_entries :: "mount list \<Rightarrow> docker_error + bollard_mount list" where
  "mount_entries [] = Inr []"
| "mount_entries (m # ms) = res_bind (mount_entry m) (\<lambda>b. res_bind (mount_entries ms) (\<lambda>bs. Inr (b # bs)))"

definition build_mounts :: "task \<Rightarrow> docker_error + bollard_mount list" where
  "build_mounts t = mount_entries (case th_mounts (hdr t) of Some ms \<Rightarrow> ms | None \<Rightarrow> [])"

definition build_env :: "task \<Rightarrow> string list" where
  "build_env t =
     (case th_env (hdr t) of Some e \<Rightarrow> map (\<lambda>(k, v). format_kv k v) e | None \<Rightarrow> []) @
     [''TWERK_OUTPUT=/twerk/stdout'', ''TWERK_PROGRESS=/twerk/progress'']"

definition show_port :: "int \<Rightarrow> string" where
  "show_port p = (if p < 0 then CHR ''-'' # show_nat (nat (- p)) else show_nat (nat p))"

definition probe_port_key :: "int \<Rightarrow> string" where
  "probe_port_key p = show_port p @ ''/tcp''"

text \<open>A binding: the address and port of the host.\<close>

definition build_port_bindings :: "task \<Rightarrow> (string \<times> string \<times> string) list option" where
  "build_port_bindings t = map_option (\<lambda>p. [(probe_port_key (pb_port p), ''127.0.0.1'', ''0'')]) (th_probe (hdr t))"

definition build_exposed_ports :: "task \<Rightarrow> string list option" where
  "build_exposed_ports t = map_option (\<lambda>p. [probe_port_key (pb_port p)]) (th_probe (hdr t))"

text \<open>The endpoints with the alias of each.\<close>

definition build_networking_config :: "(string \<Rightarrow> bool) \<Rightarrow> task \<Rightarrow> (string \<times> string) list option" where
  "build_networking_config alphanumeric t =
     (case th_networks (hdr t) of
        Some (n # ns) \<Rightarrow>
          (let alias = slugify alphanumeric (case th_name (hdr t) of Some s \<Rightarrow> s | None \<Rightarrow> ''unknown'')
           in Some (fold (\<lambda>nw. AList.update nw alias) (n # ns) []))
      | _ \<Rightarrow> None)"

definition parse_container_resources ::
    "(string \<Rightarrow> string) \<Rightarrow> task \<Rightarrow> docker_error + i64 option \<times> i64 option \<times> device_request option" where
  "parse_container_resources perr t =
     res_bind (parse_cpus (th_limits (hdr t))) (\<lambda>cpus.
     res_bind (parse_memory perr (th_limits (hdr t))) (\<lambda>memory.
     res_bind (case th_gpus (hdr t) of None \<Rightarrow> Inr None | Some g \<Rightarrow> res_bind (parse_gpu_options g) (\<lambda>d. Inr (Some d))) (\<lambda>gpu.
       Inr (cpus, memory, gpu))))"

definition build_command_and_entrypoint :: "task \<Rightarrow> string list \<times> string list" where
  "build_command_and_entrypoint t =
     (let none = (\<lambda>x. x = None \<or> x = Some []); h = hdr t
      in (if none (th_cmd h) then [''/twerk/entrypoint''] else the (th_cmd h),
          if none (th_entrypoint h) \<and> th_run h \<noteq> None then [''sh'', ''-c'']
          else (case th_entrypoint h of Some e \<Rightarrow> e | None \<Rightarrow> [])))"

record container_body =
  cb_image :: "string option"
  cb_env :: "string list"
  cb_cmd :: "string list"
  cb_entrypoint :: "string list option"
  cb_working_dir :: "string option"
  cb_exposed_ports :: "string list option"
  cb_mounts :: "bollard_mount list"
  cb_nano_cpus :: "i64 option"
  cb_memory :: "i64 option"
  cb_privileged :: bool
  cb_device_request :: "device_request option"
  cb_port_bindings :: "(string \<times> string \<times> string) list option"
  cb_networking :: "(string \<times> string) list option"

text \<open>The working directory is one of the fields left to their defaults.\<close>

definition build_container_config ::
    "(string \<Rightarrow> bool) \<Rightarrow> task \<Rightarrow> bollard_mount list \<Rightarrow> i64 option \<times> i64 option \<times> device_request option \<Rightarrow> container_body" where
  "build_container_config alphanumeric t mounts resources =
     (let (cmd, entrypoint) = build_command_and_entrypoint t; (cpus, memory, gpu) = resources
      in \<lparr>cb_image = th_image (hdr t), cb_env = build_env t, cb_cmd = cmd,
          cb_entrypoint = (if entrypoint = [] then None else Some entrypoint), cb_working_dir = None,
          cb_exposed_ports = build_exposed_ports t, cb_mounts = mounts, cb_nano_cpus = cpus, cb_memory = memory,
          cb_privileged = False, cb_device_request = gpu, cb_port_bindings = build_port_bindings t,
          cb_networking = build_networking_config alphanumeric t\<rparr>)"

definition add_torkdir_to_mounts :: "bollard_mount list \<Rightarrow> string \<Rightarrow> bollard_mount list" where
  "add_torkdir_to_mounts mounts volume =
     mounts @ [\<lparr>bm_target = Some ''/twerk'', bm_source = Some volume, bm_typ = MK_Volume\<rparr>]"

definition determine_effective_workdir :: "task \<Rightarrow> string option" where
  "determine_effective_workdir t =
     (if th_workdir (hdr t) \<noteq> None then th_workdir (hdr t)
      else if th_files (hdr t) \<in> {None, Some []} then None else Some ''/workspace'')"

section \<open>Mounts\<close>

lemma mount_entry_keeps: "mount_entry m = Inr b \<Longrightarrow> bm_source b = mt_source m \<and> bm_target b = mt_target m"
  by (auto simp: mount_entry_def Let_def res_bind_def split: sum.splits)

lemma mount_entries_keep: "mount_entries ms = Inr bs \<Longrightarrow> map bm_source bs = map mt_source ms \<and> map bm_target bs = map mt_target ms"
proof (induction ms arbitrary: bs)
  case (Cons m ms)
  then show ?case by (auto simp: res_bind_def mount_entry_keeps split: sum.splits)
qed simp

end
