(* ===== verification/Docker_Run.thy ===== *)
theory Docker_Run
  imports Docker_Config
begin

text \<open>
  A task in a container (\<open>twerk-app/src/engine/worker/docker.rs\<close>, \<open>runtime/docker/container\<close>, \<open>pull.rs\<close>): from the pull
  of the image to the removal of the container. The answers of the docker daemon, of the registry and of the broker in
  one run are the fields of a \<open>docker_env\<close>; the state is what exists: the containers with their configuration, the
  volumes, the active tasks of the adapter, the parts of logs published, and the containers asked to stop.
\<close>

section \<open>The world of the daemon\<close>

record docker_world =
  dk_containers :: "(string \<times> container_body) list"
  dk_volumes :: "string list"
  dk_active :: "(task_id \<times> string) list"
  dk_parts :: "task_log_part list"
  dk_stopped :: "string list"

datatype wait_answer = WA_Status i64 | WA_ExitError string i64 | WA_OtherError string | WA_Nothing

record docker_env =
  dv_connect :: "string + unit"
  dv_images :: "string + string list list"
  dv_domain :: "string \<Rightarrow> string + string"
  dv_docker_config :: "string + (string \<Rightarrow> string + string \<times> string)"
  dv_pull :: "string \<Rightarrow> (string \<times> string) option \<Rightarrow> (string + unit) list"
  dv_verify :: "string + unit"
  dv_uuid :: string
  dv_alphanumeric :: "string \<Rightarrow> bool"
  dv_number_error :: "string \<Rightarrow> string"
  dv_create_volume :: "string + unit"
  dv_create :: "container_body \<Rightarrow> (string + string) option"
  dv_upload :: "string \<Rightarrow> string + unit"
  dv_start :: "string + unit"
  dv_stop :: "string + unit"
  dv_host_port :: "string \<Rightarrow> string + string option"
  dv_probes :: "(nat \<times> nat option) list"
  dv_wait :: wait_answer
  dv_logs :: "nat \<Rightarrow> (string + string) list"
  dv_stdout :: "(string + string) option"
  dv_publish :: "string + unit"
  dv_remove_container :: "string + unit"
  dv_remove_volume :: "nat \<Rightarrow> string + unit"
  dv_unmounts :: "(string + unit) list"

type_synonym 'a dk = "(docker_world, docker_error, 'a) eff"

section \<open>Images\<close>

definition image_exists_locally :: "docker_env \<Rightarrow> string \<Rightarrow> docker_error + bool" where
  "image_exists_locally env name =
     res_bind (map_err DE_ImagePull (dv_images env)) (\<lambda>images. Inr (list_ex (\<lambda>tags. name \<in> set tags) images))"

text \<open>The names of the configuration files are not set in a default configuration.\<close>

definition get_registry_credentials :: "docker_env \<Rightarrow> string \<Rightarrow> docker_error + (string \<times> string) option" where
  "get_registry_credentials env img =
     res_bind (map_err DE_ImagePull (dv_domain env img)) (\<lambda>domain.
       if domain = [] then Inr None
       else res_bind (map_err DE_ImagePull (dv_docker_config env)) (\<lambda>get_credentials.
         res_bind (map_err DE_ImagePull (get_credentials domain)) (\<lambda>(username, password).
           Inr (if username = [] \<and> password = [] then None else Some (username, password)))))"

fun first_error :: "('e + 'a) list \<Rightarrow> 'e + unit" where
  "first_error [] = Inr ()"
| "first_error (Inl e # rs) = Inl e"
| "first_error (Inr x # rs) = first_error rs"

definition pull_image_from_registry :: "docker_env \<Rightarrow> string \<Rightarrow> docker_error + unit" where
  "pull_image_from_registry env img =
     res_bind (get_registry_credentials env img) (\<lambda>credentials.
       map_err DE_ImagePull (first_error (dv_pull env img credentials)))"

definition verify_and_cleanup_on_failure :: "docker_env \<Rightarrow> string \<Rightarrow> docker_error + unit" where
  "verify_and_cleanup_on_failure env img = (case dv_verify env of Inr _ \<Rightarrow> Inr () | Inl _ \<Rightarrow> Inl (DE_CorruptedImage img))"

text \<open>With the cache of images pulled; the result and the cache after.\<close>

definition pull_image :: "docker_env \<Rightarrow> bool \<Rightarrow> string list \<Rightarrow> string \<Rightarrow> (docker_error + unit) \<times> string list" where
  "pull_image env image_verify cache img =
     (if img \<in> set cache then (Inr (), cache)
      else case image_exists_locally env img of
          Inl e \<Rightarrow> (Inl e, cache)
        | Inr True \<Rightarrow> (Inr (), img # cache)
        | Inr False \<Rightarrow>
            (case res_bind (pull_image_from_registry env img) (\<lambda>_.
                if image_verify then verify_and_cleanup_on_failure env img else Inr ()) of
               Inl e \<Rightarrow> (Inl e, cache) | Inr _ \<Rightarrow> (Inr (), img # cache)))"

text \<open>The factory pulls with a default configuration and a fresh cache; the registry of the task is not used.\<close>

definition pull_task_image :: "docker_env \<Rightarrow> task \<Rightarrow> docker_error + unit" where
  "pull_task_image env t =
     res_bind (ok_or (th_image (hdr t)) DE_ImageRequired) (\<lambda>img.
       map_err (\<lambda>e. DE_ImagePull (img @ '': '' @ docker_error_display e)) (fst (pull_image env False [] img)))"

section \<open>The creation of a container\<close>

definition create_torkdir_volume :: "docker_env \<Rightarrow> string dk" where
  "create_torkdir_volume env =
     and_then (lift_res (map_err DE_VolumeCreate (dv_create_volume env))) (\<lambda>_.
     and_then (modifies (dk_volumes_update (\<lambda>vs. dv_uuid env # vs))) (\<lambda>_. ret (dv_uuid env)))"

definition create_container :: "docker_env \<Rightarrow> container_body \<Rightarrow> string dk" where
  "create_container env body =
     (case dv_create env body of
        None \<Rightarrow> throw (DE_ContainerCreate ''creation timed out'')
      | Some (Inl e) \<Rightarrow> throw (DE_ContainerCreate e)
      | Some (Inr cid) \<Rightarrow> and_then (modifies (dk_containers_update (\<lambda>cs. (cid, body) # cs))) (\<lambda>_. ret cid))"

definition delete_container :: "docker_env \<Rightarrow> string \<Rightarrow> (docker_world, string, unit) eff" where
  "delete_container env cid =
     (case dv_remove_container env of Inl e \<Rightarrow> throw e
      | Inr _ \<Rightarrow> modifies (dk_containers_update (filter (\<lambda>c. fst c \<noteq> cid))))"

text \<open>Three attempts to remove a volume; the error of the last.\<close>

definition delete_volume :: "docker_env \<Rightarrow> string \<Rightarrow> (docker_world, string, unit) eff" where
  "delete_volume env vol =
     (if \<not> isl (dv_remove_volume env 0) \<or> \<not> isl (dv_remove_volume env 1) \<or> \<not> isl (dv_remove_volume env 2)
      then modifies (dk_volumes_update (removeAll vol))
      else lift_res (map_err id (dv_remove_volume env 2)))"

definition cleanup_container :: "docker_env \<Rightarrow> string \<Rightarrow> string \<Rightarrow> unit dk" where
  "cleanup_container env cid vol = and_then (ignore (delete_container env cid)) (\<lambda>_. ignore (delete_volume env vol))"

definition uploaded :: "docker_env \<Rightarrow> string \<Rightarrow> docker_error + unit" where
  "uploaded env path = map_err DE_CopyToContainer (dv_upload env path)"

definition initialize_twerkdir :: "docker_env \<Rightarrow> string \<Rightarrow> string \<Rightarrow> unit dk" where
  "initialize_twerkdir env cid vol =
     (case uploaded env ''/twerk/'' of
        Inr _ \<Rightarrow> ret ()
      | Inl e \<Rightarrow> and_then (cleanup_container env cid vol) (\<lambda>_.
          throw (DE_CopyToContainer (''error initializing torkdir: '' @ docker_error_display e))))"

definition init_workdir_for_container :: "docker_env \<Rightarrow> task \<Rightarrow> string \<Rightarrow> docker_error + unit" where
  "init_workdir_for_container env t workdir =
     (if th_files (hdr t) \<in> {None, Some []} then Inr () else uploaded env workdir)"

definition initialize_workdir :: "docker_env \<Rightarrow> string \<Rightarrow> string \<Rightarrow> task \<Rightarrow> unit dk" where
  "initialize_workdir env cid vol t =
     (case determine_effective_workdir t of
        None \<Rightarrow> ret ()
      | Some workdir \<Rightarrow> (case init_workdir_for_container env t workdir of
          Inr _ \<Rightarrow> ret ()
        | Inl e \<Rightarrow> and_then (cleanup_container env cid vol) (\<lambda>_.
            throw (DE_CopyToContainer (''error initializing workdir: '' @ docker_error_display e)))))"

text \<open>The container that results is its id and its volume.\<close>

definition create_task_container :: "docker_env \<Rightarrow> task \<Rightarrow> (string \<times> string) dk" where
  "create_task_container env t =
     (if tk_id t \<in> {None, Some []} then throw DE_TaskIdRequired
      else and_then (lift_res (pull_task_image env t)) (\<lambda>_.
        and_then (lift_res (build_mounts t)) (\<lambda>mounts.
        and_then (lift_res (parse_container_resources (dv_number_error env) t)) (\<lambda>resources.
        and_then (create_torkdir_volume env) (\<lambda>vol.
        and_then (create_container env (build_container_config (dv_alphanumeric env) t
            (add_torkdir_to_mounts mounts vol) resources)) (\<lambda>cid.
        and_then (initialize_twerkdir env cid vol) (\<lambda>_.
        and_then (initialize_workdir env cid vol t) (\<lambda>_.
        ret (cid, vol)))))))))"

section \<open>The life of a container\<close>

text \<open>
  \<open>parse_go_duration\<close> in nanoseconds. \<open>Duration::from_secs_f64\<close> rounds to the nearest and panics (\<open>None\<close>) if the result
  does not fit, as the sum does.
\<close>

definition duration_of_secs :: "f64 \<Rightarrow> nat option" where
  "duration_of_secs x =
     (if f64_is_nan x \<or> f64_is_inf x \<or> f64_scaled x < 0 then None
      else let n = round_even (nat (f64_scaled x) * 10 ^ 9) (2 ^ 1074) in if n < 2 ^ 64 * 10 ^ 9 then Some n else None)"

fun go_duration_loop :: "(string \<Rightarrow> string) \<Rightarrow> nat \<Rightarrow> string \<Rightarrow> string \<Rightarrow> (string + nat) option" where
  "go_duration_loop perr sum_so_far current [] = Some (if current = [] then Inr sum_so_far else Inl (''trailing: '' @ current))"
| "go_duration_loop perr sum_so_far current (c # cs) =
     (if is_digit c \<or> c = CHR ''.'' then go_duration_loop perr sum_so_far (current @ [c]) cs
      else case parse_f64 current of
          None \<Rightarrow> Some (Inl (''invalid duration '' @ [CHR 0x27] @ current @ [CHR 0x27] @ '': '' @ perr current))
        | Some num \<Rightarrow>
            (case (if c = CHR ''h'' then Some 3600 else if c = CHR ''m'' then Some 60 else if c = CHR ''s'' then Some (1::int) else None) of
               None \<Rightarrow> Some (Inl (''unknown unit: '' @ [c]))
             | Some k \<Rightarrow> (case duration_of_secs (if k = 1 then num else f64_mul num (f64_of_int k)) of
                 None \<Rightarrow> None
               | Some d \<Rightarrow> if sum_so_far + d < 2 ^ 64 * 10 ^ 9 then go_duration_loop perr (sum_so_far + d) [] cs else None)))"

definition probe_go_duration :: "(string \<Rightarrow> string) \<Rightarrow> string \<Rightarrow> (string + nat) option" where
  "probe_go_duration perr s = go_duration_loop perr 0 [] s"

text \<open>The attempts: the time since the start and the status of the answer, one second after the other.\<close>

fun probe_loop :: "string \<Rightarrow> nat \<Rightarrow> (nat \<times> nat option) list \<Rightarrow> docker_error + unit" where
  "probe_loop timeout_str timeout [] = Inl (DE_ProbeTimeout timeout_str)"
| "probe_loop timeout_str timeout ((elapsed, status) # ps) =
     (if timeout \<le> elapsed then Inl (DE_ProbeTimeout timeout_str)
      else if status = Some 200 then Inr () else probe_loop timeout_str timeout ps)"

definition probe_container :: "docker_env \<Rightarrow> string \<Rightarrow> nat \<Rightarrow> string option \<Rightarrow> (docker_error + unit) option" where
  "probe_container env cid port timeout =
     (let timeout_str = (case timeout of Some t \<Rightarrow> t | None \<Rightarrow> ''1m'')
      in case probe_go_duration (dv_number_error env) timeout_str of
           None \<Rightarrow> None
         | Some (Inl e) \<Rightarrow> Some (Inl (DE_ProbeTimeout (''invalid timeout: '' @ e)))
         | Some (Inr d) \<Rightarrow> Some (case dv_host_port env (show_nat port @ ''/tcp'') of
             Inl e \<Rightarrow> Inl (DE_ContainerInspect (cid @ '': '' @ e))
           | Inr None \<Rightarrow> Inl (DE_ProbeError (''no port found for '' @ cid))
           | Inr (Some _) \<Rightarrow> probe_loop timeout_str d (dv_probes env)))"

definition probe_if_configured :: "docker_env \<Rightarrow> string \<Rightarrow> task \<Rightarrow> (docker_error + unit) option" where
  "probe_if_configured env cid t =
     (case th_probe (hdr t) of
        None \<Rightarrow> Some (Inr ())
      | Some p \<Rightarrow> probe_container env cid (if 0 \<le> pb_port p \<and> pb_port p < 2 ^ 16 then nat (pb_port p) else 0) (pb_timeout p))"

definition start_container :: "docker_env \<Rightarrow> string \<Rightarrow> task \<Rightarrow> (docker_error + unit) option" where
  "start_container env cid t =
     (case dv_start env of Inl e \<Rightarrow> Some (Inl (DE_ContainerStart (cid @ '': '' @ e))) | Inr _ \<Rightarrow> probe_if_configured env cid t)"

fun output_chunks :: "(string + string) list \<Rightarrow> string" where
  "output_chunks [] = []"
| "output_chunks (Inl e # cs) = []"
| "output_chunks (Inr c # cs) = c @ output_chunks cs"

definition read_logs_tail :: "docker_env \<Rightarrow> nat \<Rightarrow> docker_error + string" where
  "read_logs_tail env lines = Inr (output_chunks (dv_logs env lines))"

definition read_output_file :: "docker_env \<Rightarrow> docker_error + string" where
  "read_output_file env =
     (case dv_stdout env of Some (Inr s) \<Rightarrow> Inr s | Some (Inl e) \<Rightarrow> Inl (DE_CopyFromContainer e) | None \<Rightarrow> Inr [])"

definition wait_for_container_stopped :: "docker_env \<Rightarrow> docker_error + i64" where
  "wait_for_container_stopped env =
     (case dv_wait env of
        WA_Status c \<Rightarrow> Inr c | WA_ExitError e c \<Rightarrow> Inl (DE_NonZeroExit c e)
      | WA_OtherError e \<Rightarrow> Inl (DE_ContainerWait e) | WA_Nothing \<Rightarrow> Inl (DE_ContainerWait ''no wait result''))"

definition read_non_zero_exit_message :: "docker_env \<Rightarrow> string \<Rightarrow> string" where
  "read_non_zero_exit_message env fallback =
     (case read_logs_tail env 10 of Inr logs \<Rightarrow> if logs = [] then fallback else logs | Inl _ \<Rightarrow> fallback)"

definition wait_container :: "docker_env \<Rightarrow> docker_error + string" where
  "wait_container env =
     (case wait_for_container_stopped env of
        Inl (DE_NonZeroExit c m) \<Rightarrow> Inl (DE_NonZeroExit c (read_non_zero_exit_message env m))
      | Inl e \<Rightarrow> Inl e
      | Inr c \<Rightarrow> if c \<noteq> 0 then Inl (DE_NonZeroExit c (read_non_zero_exit_message env [])) else read_output_file env)"

text \<open>A multiple mounter asks each of its mounters.\<close>

definition unmount_all :: "(string + unit) list \<Rightarrow> string + unit" where
  "unmount_all rs = first_error rs"

definition remove_container :: "docker_env \<Rightarrow> string \<times> string \<Rightarrow> unit dk" where
  "remove_container env tc =
     and_then (eff_map_err DE_ContainerRemove (delete_container env (fst tc))) (\<lambda>_.
     and_then (eff_map_err DE_VolumeRemove (delete_volume env (snd tc))) (\<lambda>_.
     lift_res (map_err DE_Unmount (unmount_all (dv_unmounts env)))))"

section \<open>The adapter of the worker\<close>

datatype docker_run_error = DR_Worker docker_worker_error | DR_Publish string | DR_Docker string | DR_Panic

type_synonym 'a dr = "(docker_world, docker_run_error, 'a) eff"

definition publish_docker_log_part :: "docker_env \<Rightarrow> task_id \<Rightarrow> string \<Rightarrow> unit dr" where
  "publish_docker_log_part env tid contents =
     (if trim contents = [] then ret ()
      else case dv_publish env of
          Inl e \<Rightarrow> throw (DR_Publish e)
        | Inr _ \<Rightarrow> modifies (dk_parts_update (\<lambda>ps. ps @ [\<lparr>lp_id = None, lp_number = 1, lp_task_id = Some tid,
            lp_contents = Some contents, lp_created_at = None\<rparr>])))"

definition publish_tail :: "docker_env \<Rightarrow> task_id \<Rightarrow> unit dr" where
  "publish_tail env tid =
     (case read_logs_tail env 100 of Inr logs \<Rightarrow> publish_docker_log_part env tid logs | Inl _ \<Rightarrow> ret ())"

definition after_wait :: "docker_env \<Rightarrow> task_id \<Rightarrow> string \<times> string \<Rightarrow> string option dr" where
  "after_wait env tid tc =
     (case wait_container env of
        Inr stdout \<Rightarrow> and_then (publish_tail env tid) (\<lambda>_.
          and_then (ignore (remove_container env tc)) (\<lambda>_. ret (non_empty_output stdout)))
      | Inl (DE_NonZeroExit c tail) \<Rightarrow> and_then (publish_docker_log_part env tid tail) (\<lambda>_.
          and_then (ignore (remove_container env tc)) (\<lambda>_.
          throw (DR_Worker (DW_ContainerNonZeroExit (docker_status_to_exit_code c) tail))))
      | Inl e \<Rightarrow> and_then (publish_tail env tid) (\<lambda>_.
          and_then (ignore (remove_container env tc)) (\<lambda>_.
          throw (DR_Worker (DW_ContainerWaitError (docker_error_display e))))))"

definition set_inactive :: "task_id \<Rightarrow> unit dr" where
  "set_inactive tid = modifies (dk_active_update (AList.delete tid))"

definition run_created :: "docker_env \<Rightarrow> task \<Rightarrow> task_id \<Rightarrow> string \<times> string \<Rightarrow> string option dr" where
  "run_created env t tid tc =
     and_then (modifies (dk_active_update (AList.update tid (fst tc)))) (\<lambda>_.
       case start_container env (fst tc) t of
         None \<Rightarrow> throw DR_Panic
       | Some (Inl e) \<Rightarrow> and_then (set_inactive tid) (\<lambda>_.
           and_then (ignore (remove_container env tc)) (\<lambda>_.
           throw (DR_Worker (DW_ContainerStartFailed (docker_error_display e)))))
       | Some (Inr _) \<Rightarrow> and_then (set_inactive tid) (\<lambda>_. after_wait env tid tc))"

definition docker_execute_task :: "docker_env \<Rightarrow> task \<Rightarrow> string option dr" where
  "docker_execute_task env t =
     and_then (lift_res (map_err DR_Worker (docker_run_check t))) (\<lambda>tid.
     and_then (lift_res (map_err (DR_Worker \<circ> DW_ConnectionFailed) (dv_connect env))) (\<lambda>_.
     and_then (eff_map_err (\<lambda>e. DR_Worker (DW_ContainerCreateFailed (docker_error_display e))) (create_task_container env t)) (\<lambda>tc.
     run_created env t tid tc)))"

definition docker_stop_container :: "docker_env \<Rightarrow> string \<Rightarrow> (docker_world, string, unit) eff" where
  "docker_stop_container env cid =
     (case dv_stop env of Inl e \<Rightarrow> throw e | Inr _ \<Rightarrow> modifies (dk_stopped_update (\<lambda>cs. cs @ [cid])))"

text \<open>\<open>stop\<close> answers with success also for a task that is not active.\<close>

definition docker_stop :: "docker_env \<Rightarrow> task \<Rightarrow> unit dr" where
  "docker_stop env t =
     and_then (lift_res (ok_or (tk_id t) (DR_Worker DW_MissingTaskIdForStop))) (\<lambda>tid.
     and_then (asks (\<lambda>w. map_of (dk_active w) tid)) (\<lambda>found.
       case found of
         None \<Rightarrow> ret ()
       | Some cid \<Rightarrow> and_then (set_inactive tid) (\<lambda>_.
           and_then (lift_res (map_err DR_Docker (dv_connect env))) (\<lambda>_.
           and_then (ignore (docker_stop_container env cid)) (\<lambda>_. ignore (delete_container env cid))))))"

section \<open>What a run leaves\<close>

lemma eff_cases: "and_then m f s = (case m s of (Inl e, s') \<Rightarrow> (Inl e, s') | (Inr x, s') \<Rightarrow> f x s')"
  by (rule and_then_def)

lemma publish_keeps:
  "dk_containers (snd (publish_docker_log_part env tid c w)) = dk_containers w \<and>
   dk_volumes (snd (publish_docker_log_part env tid c w)) = dk_volumes w \<and>
   dk_active (snd (publish_docker_log_part env tid c w)) = dk_active w"
  by (simp add: publish_docker_log_part_def ret_def throw_def modifies_def split: sum.split)

lemma publish_ok: "dv_publish env = Inr () \<Longrightarrow> fst (publish_docker_log_part env tid c w) = Inr ()"
  by (simp add: publish_docker_log_part_def ret_def modifies_def)

lemma publish_error: "publish_docker_log_part env tid c w = (Inl e, w') \<Longrightarrow> \<exists>m. e = DR_Publish m"
  by (auto simp: publish_docker_log_part_def ret_def throw_def modifies_def split: if_splits sum.splits)

text \<open>What exists, apart from the logs.\<close>

definition resources :: "docker_world \<Rightarrow> (string \<times> container_body) list \<times> string list \<times> (task_id \<times> string) list" where
  "resources w = (dk_containers w, dk_volumes w, dk_active w)"

definition removes :: "docker_env \<Rightarrow> bool" where
  "removes env \<longleftrightarrow> dv_remove_container env = Inr () \<and> dv_remove_volume env 0 = Inr () \<and> dv_unmounts env = []"

lemma remove_container_resources:
  assumes "removes env"
  shows "resources (snd (remove_container env (cid, vol) w)) =
    (filter (\<lambda>c. fst c \<noteq> cid) (dk_containers w), removeAll vol (dk_volumes w), dk_active w)"
  using assms
  by (simp add: removes_def remove_container_def delete_container_def delete_volume_def eff_simps resources_def unmount_all_def)

lemma cleanup_resources:
  assumes "removes env"
  shows "resources (snd (cleanup_container env cid vol w)) =
    (filter (\<lambda>c. fst c \<noteq> cid) (dk_containers w), removeAll vol (dk_volumes w), dk_active w)"
  using assms by (simp add: removes_def cleanup_container_def delete_container_def delete_volume_def eff_simps resources_def)

lemma after_wait_resources:
  assumes "removes env"
  shows "case after_wait env tid (cid, vol) w of
      (Inl (DR_Publish e), w') \<Rightarrow> resources w' = resources w
    | (Inl DR_Panic, w') \<Rightarrow> False
    | (_, w') \<Rightarrow> resources w' = (filter (\<lambda>c. fst c \<noteq> cid) (dk_containers w), removeAll vol (dk_volumes w), dk_active w)"
proof -
  define P where "P = (\<lambda>p :: (docker_run_error + string option) \<times> docker_world. case p of (Inl (DR_Publish e), w') \<Rightarrow> resources w' = resources w
    | (Inl DR_Panic, w') \<Rightarrow> False
    | (_, w') \<Rightarrow> resources w' = (filter (\<lambda>c. fst c \<noteq> cid) (dk_containers w), removeAll vol (dk_volumes w), dk_active w))"
  have r: "resources (snd (remove_container env (cid, vol) (snd (publish_docker_log_part env tid c w)))) =
      (filter (\<lambda>c. fst c \<noteq> cid) (dk_containers w), removeAll vol (dk_volumes w), dk_active w)" for c
    using remove_container_resources [OF assms(1)] publish_keeps by simp
  have one: "P (and_then (publish_docker_log_part env tid c) (\<lambda>_. and_then (ignore (remove_container env (cid, vol))) (\<lambda>_. m)) w)"
    if m: "\<And>w. m w = (x, w)" "\<And>e. x \<noteq> Inl (DR_Publish e)" "x \<noteq> Inl DR_Panic" for c x and m :: "string option dr"
  proof (cases "publish_docker_log_part env tid c w")
    case (Pair q w')
    show ?thesis
    proof (cases q)
      case (Inl e)
      then obtain e' where "q = Inl (DR_Publish e')" using publish_error [OF Pair [unfolded Inl]] by blast
      then show ?thesis using Pair publish_keeps [of env tid c w] by (simp add: and_then_def resources_def P_def)
    next
      case (Inr u)
      then have "resources (snd (and_then (ignore (remove_container env (cid, vol))) (\<lambda>_. m) w')) =
          (filter (\<lambda>c. fst c \<noteq> cid) (dk_containers w), removeAll vol (dk_volumes w), dk_active w) \<and>
        fst (and_then (ignore (remove_container env (cid, vol))) (\<lambda>_. m) w') = x"
        using r [of c] Pair by (simp add: and_then_def ignore_def m(1))
      then show ?thesis using Pair Inr m(2,3)
        by (cases "and_then (ignore (remove_container env (cid, vol))) (\<lambda>_. m) w'")
          (auto simp: and_then_def P_def split: sum.split docker_run_error.split)
    qed
  qed
  have tail: "publish_tail env tid = publish_docker_log_part env tid (output_chunks (dv_logs env 100))"
    by (simp add: publish_tail_def read_logs_tail_def)
  have "P (after_wait env tid (cid, vol) w)" unfolding after_wait_def tail
    by (auto intro!: one simp: ret_def throw_def split: sum.split docker_error.split)
  then show ?thesis by (simp only: P_def)
qed

definition names_fresh :: "docker_env \<Rightarrow> docker_world \<Rightarrow> bool" where
  "names_fresh env w \<longleftrightarrow> dv_uuid env \<notin> set (dk_volumes w) \<and>
     (\<forall>body cid. dv_create env body = Some (Inr cid) \<longrightarrow> cid \<notin> fst ` set (dk_containers w))"

lemma filter_fresh: "cid \<notin> fst ` set cs \<Longrightarrow> filter (\<lambda>c. fst c \<noteq> cid) cs = cs"
  by (auto simp: filter_id_conv image_iff)

text \<open>The world with one more container and volume.\<close>

definition with_container :: "string \<Rightarrow> container_body \<Rightarrow> string \<Rightarrow> docker_world \<Rightarrow> docker_world" where
  "with_container cid body vol w =
     dk_containers_update (\<lambda>cs. (cid, body) # cs) (dk_volumes_update (\<lambda>vs. vol # vs) w)"

lemma init_resources:
  assumes "removes env" and "cid \<notin> fst ` set (dk_containers w)" and "vol \<notin> set (dk_volumes w)"
  shows "case initialize_twerkdir env cid vol (with_container cid body vol w) of
      (Inr _, w') \<Rightarrow> w' = with_container cid body vol w | (Inl _, w') \<Rightarrow> resources w' = resources w"
    and "case initialize_workdir env cid vol t (with_container cid body vol w) of
      (Inr _, w') \<Rightarrow> w' = with_container cid body vol w | (Inl _, w') \<Rightarrow> resources w' = resources w"
proof -
  have c: "\<exists>w'. and_then (cleanup_container env cid vol) (\<lambda>_. throw e :: unit dk) (with_container cid body vol w) = (Inl e, w') \<and>
      resources w' = resources w" for e :: docker_error
    using cleanup_resources [OF assms(1), of cid vol "with_container cid body vol w"] filter_fresh [OF assms(2)] assms(3)
    by (auto simp: and_then_def throw_def with_container_def resources_def cleanup_container_def ignore_def)
  show "case initialize_twerkdir env cid vol (with_container cid body vol w) of
      (Inr _, w') \<Rightarrow> w' = with_container cid body vol w | (Inl _, w') \<Rightarrow> resources w' = resources w"
  proof (cases "uploaded env ''/twerk/''")
    case (Inl e)
    obtain x where x: "initialize_twerkdir env cid vol = and_then (cleanup_container env cid vol) (\<lambda>_. throw x)"
      by (simp add: initialize_twerkdir_def Inl)
    obtain w' where "and_then (cleanup_container env cid vol) (\<lambda>_. throw x :: unit dk) (with_container cid body vol w) = (Inl x, w')"
      "resources w' = resources w" using c [of x] by blast
    then show ?thesis unfolding x by simp
  qed (simp add: initialize_twerkdir_def ret_def)
  show "case initialize_workdir env cid vol t (with_container cid body vol w) of
      (Inr _, w') \<Rightarrow> w' = with_container cid body vol w | (Inl _, w') \<Rightarrow> resources w' = resources w"
  proof (cases "determine_effective_workdir t")
    case (Some d)
    show ?thesis
    proof (cases "init_workdir_for_container env t d")
      case (Inl e)
      obtain x where x: "initialize_workdir env cid vol t = and_then (cleanup_container env cid vol) (\<lambda>_. throw x)"
        by (simp add: initialize_workdir_def Some Inl)
      obtain w' where "and_then (cleanup_container env cid vol) (\<lambda>_. throw x :: unit dk) (with_container cid body vol w) = (Inl x, w')"
        "resources w' = resources w" using c [of x] by blast
      then show ?thesis unfolding x by simp
    qed (simp add: initialize_workdir_def Some ret_def)
  qed (simp add: initialize_workdir_def ret_def)
qed

text \<open>The creation of the container is reached, and docker refuses it or does not answer in time.\<close>

definition create_refused :: "docker_env \<Rightarrow> task \<Rightarrow> bool" where
  "create_refused env t \<longleftrightarrow> tk_id t \<notin> {None, Some []} \<and> pull_task_image env t = Inr () \<and> dv_create_volume env = Inr () \<and>
     (\<exists>mounts rs. build_mounts t = Inr mounts \<and> parse_container_resources (dv_number_error env) t = Inr rs \<and>
        dv_create env (build_container_config (dv_alphanumeric env) t (add_torkdir_to_mounts mounts (dv_uuid env)) rs)
          \<notin> range (Some \<circ> Inr))"

lemma create_resources:
  assumes "removes env" and "names_fresh env w"
  shows "case create_task_container env t w of
      (Inl e, w') \<Rightarrow> resources w' =
        (if create_refused env t then (dk_containers w, dv_uuid env # dk_volumes w, dk_active w) else resources w)
    | (Inr (cid, vol), w') \<Rightarrow> \<not> create_refused env t \<and> vol = dv_uuid env \<and> vol \<notin> set (dk_volumes w) \<and>
        cid \<notin> fst ` set (dk_containers w) \<and>
        (\<exists>mounts rs. build_mounts t = Inr mounts \<and>
          w' = with_container cid (build_container_config (dv_alphanumeric env) t (add_torkdir_to_mounts mounts vol) rs) vol w)"
proof (cases "tk_id t \<in> {None, Some []} \<or> isl (pull_task_image env t) \<or> isl (build_mounts t) \<or>
    isl (parse_container_resources (dv_number_error env) t) \<or> isl (dv_create_volume env)")
  case True
  then show ?thesis
    by (auto simp: create_task_container_def create_torkdir_volume_def create_refused_def eff_simps isl_def split: sum.splits)
next
  case False
  then obtain mounts rs where ok: "tk_id t \<notin> {None, Some []}" "pull_task_image env t = Inr ()" "build_mounts t = Inr mounts"
      "parse_container_resources (dv_number_error env) t = Inr rs" "dv_create_volume env = Inr ()"
    by (cases "pull_task_image env t"; cases "build_mounts t"; cases "parse_container_resources (dv_number_error env) t";
      cases "dv_create_volume env") auto
  define vol where "vol = dv_uuid env"
  define body where "body = build_container_config (dv_alphanumeric env) t (add_torkdir_to_mounts mounts vol) rs"
  have ref: "create_refused env t \<longleftrightarrow> dv_create env body \<notin> range (Some \<circ> Inr)"
    using ok by (auto simp: create_refused_def body_def vol_def)
  consider (refused) "dv_create env body \<notin> range (Some \<circ> Inr)" | (made) cid where "dv_create env body = Some (Inr cid)"
    by (auto simp: image_iff)
  then show ?thesis
  proof cases
    case refused
    then have "dv_create env body = None \<or> (\<exists>e. dv_create env body = Some (Inl e))"
      by (cases "dv_create env body"; cases "the (dv_create env body)") auto
    then show ?thesis using ok ref refused
      by (auto simp: create_task_container_def and_then_def lift_res_def create_torkdir_volume_def create_container_def
        modifies_def ret_def throw_def body_def vol_def resources_def)
  next
    case made
    note cid = made
    have fresh: "cid \<notin> fst ` set (dk_containers w)" "vol \<notin> set (dk_volumes w)"
      using assms(2) cid by (auto simp: names_fresh_def vol_def)
    have r: "create_task_container env t w =
        and_then (initialize_twerkdir env cid vol) (\<lambda>_. and_then (initialize_workdir env cid vol t) (\<lambda>_. ret (cid, vol)))
          (with_container cid body vol w)"
      using ok cid
      by (auto simp: create_task_container_def and_then_def lift_res_def create_torkdir_volume_def create_container_def
        modifies_def ret_def body_def vol_def with_container_def)
    have ex: "\<exists>ms x. build_mounts t = Inr ms \<and> with_container cid body vol w =
        with_container cid (build_container_config (dv_alphanumeric env) t (add_torkdir_to_mounts ms vol) x) vol w"
      using ok(3) body_def by blast
    have nref: "\<not> create_refused env t" using ref cid by auto
    show ?thesis unfolding r
      using init_resources(1) [OF assms(1) fresh, of body] init_resources(2) [OF assms(1) fresh, of body t] ex fresh nref
      by (cases "initialize_twerkdir env cid vol (with_container cid body vol w)";
        cases "initialize_workdir env cid vol t (with_container cid body vol w)")
        (auto simp: and_then_def ret_def vol_def split: sum.splits)
  qed
qed

lemma run_created_resources:
  assumes "removes env" and "cid \<notin> fst ` set (dk_containers w)" and "vol \<notin> set (dk_volumes w)" and "tid \<notin> fst ` set (dk_active w)"
    and "run_created env t tid (cid, vol) (with_container cid body vol w) = (r, w')"
  shows "resources w' =
    (if r = Inl DR_Panic then ((cid, body) # dk_containers w, vol # dk_volumes w, AList.update tid cid (dk_active w))
     else if r \<in> range (Inl \<circ> DR_Publish) then ((cid, body) # dk_containers w, vol # dk_volumes w, dk_active w)
     else resources w)"
proof -
  let ?w = "with_container cid body vol w"
  have "AList.delete tid (AList.update tid cid (dk_active w)) = dk_active w" using assms(4) by (simp add: delete_update_same)
  then have si: "set_inactive tid (dk_active_update (AList.update tid cid) ?w) = (Inr (), ?w)"
    by (simp add: set_inactive_def modifies_def with_container_def)
  have gone: "(filter (\<lambda>c. fst c \<noteq> cid) (dk_containers ?w), removeAll vol (dk_volumes ?w), dk_active ?w) = resources w"
    and full: "resources ?w = ((cid, body) # dk_containers w, vol # dk_volumes w, dk_active w)"
    using assms(3) filter_fresh [OF assms(2)] by (simp_all add: with_container_def resources_def)
  consider (panic) "start_container env cid t = None" | (failed) e where "start_container env cid t = Some (Inl e)"
    | (started) u where "start_container env cid t = Some (Inr u)"
    by (cases "start_container env cid t"; cases "the (start_container env cid t)") auto
  then show ?thesis
  proof cases
    case panic
    then have "r = Inl DR_Panic" "w' = dk_active_update (AList.update tid cid) ?w"
      using assms(5) by (auto simp: run_created_def and_then_def modifies_def throw_def)
    then show ?thesis by (simp add: resources_def with_container_def)
  next
    case failed
    then have "r = Inl (DR_Worker (DW_ContainerStartFailed (docker_error_display e)))" "w' = snd (remove_container env (cid, vol) ?w)"
      using assms(5) si by (auto simp: run_created_def and_then_def modifies_def throw_def ignore_def split: prod.splits)
    then show ?thesis using remove_container_resources [OF assms(1), where cid = cid and vol = vol and w = ?w] gone by auto
  next
    case started
    then have "after_wait env tid (cid, vol) ?w = (r, w')"
      using assms(5) si by (simp add: run_created_def and_then_def modifies_def)
    then show ?thesis using after_wait_resources [OF assms(1), where tid = tid and cid = cid and vol = vol and w = ?w] gone full
      by (auto split: sum.splits docker_run_error.splits)
  qed
qed

text \<open>C9. What a run leaves behind of containers, volumes and active tasks, when the daemon removes what it is asked to, the
  names it draws are new and the task is not active: nothing, whatever else fails, but for three cases. If docker refuses to
  create the container, or does not answer in time, the volume made for it stays; if a part of the log cannot be
  published, the container and its volume stay; and if the timeout of the probe is so long that its sum panics, the
  task stays active as well.\<close>

theorem what_a_run_leaves:
  assumes "removes env" and "names_fresh env w" and "the (tk_id t) \<notin> fst ` set (dk_active w)"
    and "docker_execute_task env t w = (r, w')"
  shows "if \<not> isl (docker_run_check t) \<and> dv_connect env = Inr () \<and> create_refused env t
     then isl r \<and> resources w' = (dk_containers w, dv_uuid env # dk_volumes w, dk_active w)
     else if r = Inl DR_Panic
     then \<exists>cid body. resources w' =
       ((cid, body) # dk_containers w, dv_uuid env # dk_volumes w, AList.update (the (tk_id t)) cid (dk_active w))
     else if r \<in> range (Inl \<circ> DR_Publish)
     then \<exists>cid body. resources w' = ((cid, body) # dk_containers w, dv_uuid env # dk_volumes w, dk_active w)
     else resources w' = resources w"
proof (cases "isl (docker_run_check t) \<or> isl (dv_connect env)")
  case True
  then obtain e where "r = Inl (DR_Worker e)" "w' = w"
    using assms(4) by (cases "docker_run_check t"; cases "dv_connect env") (auto simp: docker_execute_task_def and_then_def lift_res_def)
  then show ?thesis using True by auto
next
  case False
  then obtain tid where tid: "docker_run_check t = Inr tid" "dv_connect env = Inr ()"
    by (cases "docker_run_check t"; cases "dv_connect env") auto
  have id: "tk_id t = Some tid" using tid(1) by (auto simp: docker_run_check_def res_bind_def ok_or_def split: option.splits if_splits)
  obtain q w1 where c: "create_task_container env t w = (q, w1)" by (cases "create_task_container env t w") auto
  note cr = create_resources [OF assms(1,2), of t, unfolded c]
  show ?thesis
  proof (cases q)
    case (Inl e)
    then have "r = Inl (DR_Worker (DW_ContainerCreateFailed (docker_error_display e)))" "w' = w1"
      using c tid assms(4) by (auto simp: docker_execute_task_def and_then_def lift_res_def eff_map_err_def)
    then show ?thesis using cr Inl tid by auto
  next
    case (Inr tc)
    obtain cid vol where tc: "tc = (cid, vol)" by (cases tc) auto
    obtain body where w1: "w1 = with_container cid body vol w" and fresh: "vol \<notin> set (dk_volumes w)" "cid \<notin> fst ` set (dk_containers w)"
        and vol: "vol = dv_uuid env" and nref: "\<not> create_refused env t"
      using cr Inr tc by auto
    have run: "run_created env t tid (cid, vol) (with_container cid body vol w) = (r, w')"
      using tid c Inr tc w1 assms(4) by (simp add: docker_execute_task_def and_then_def lift_res_def eff_map_err_def)
    show ?thesis
      using run_created_resources [OF assms(1) fresh(2,1) _ run] assms(3) id vol nref by auto
  qed
qed

definition calm_docker :: docker_env where
  "calm_docker = \<lparr>dv_connect = Inr (), dv_images = Inr [[''alpine'']], dv_domain = (\<lambda>i. Inr []), dv_docker_config = Inl [],
     dv_pull = (\<lambda>i c. []), dv_verify = Inr (), dv_uuid = ''v1'', dv_alphanumeric = (\<lambda>c. True), dv_number_error = (\<lambda>s. []),
     dv_create_volume = Inr (), dv_create = (\<lambda>b. Some (Inr ''c1'')), dv_upload = (\<lambda>p. Inr ()), dv_start = Inr (), dv_stop = Inr (),
     dv_host_port = (\<lambda>k. Inr None), dv_probes = [], dv_wait = WA_Status 0, dv_logs = (\<lambda>n. [Inr ''hello'']),
     dv_stdout = Some (Inr ''done''), dv_publish = Inr (), dv_remove_container = Inr (), dv_remove_volume = (\<lambda>n. Inr ()),
     dv_unmounts = []\<rparr>"

definition empty_docker :: docker_world where
  "empty_docker = \<lparr>dk_containers = [], dk_volumes = [], dk_active = [], dk_parts = [], dk_stopped = []\<rparr>"

definition image_task :: task where
  "image_task = Task (default_hdr\<lparr>th_id := Some ''t1'', th_image := Some ''alpine'',
     th_mounts := Some [\<lparr>mt_id = None, mt_type = Some ''bind'', mt_source = Some ''/etc'', mt_target = Some ''/host'', mt_opts = None\<rparr>]\<rparr>)
     None None None None None None"

lemma calm: "removes calm_docker" "names_fresh calm_docker empty_docker"
  by (simp_all add: removes_def names_fresh_def calm_docker_def empty_docker_def)

lemma image_task_created:
  "\<exists>w'. create_task_container (calm_docker\<lparr>dv_publish := p\<rparr>) image_task empty_docker = (Inr (''c1'', ''v1''), w')"
  by (simp add: create_task_container_def calm_docker_def image_task_def empty_docker_def pull_task_image_def pull_image_def
    image_exists_locally_def default_hdr_def build_mounts_def mount_entry_def parse_container_resources_def parse_cpus_def parse_memory_def
    create_torkdir_volume_def create_container_def initialize_twerkdir_def initialize_workdir_def uploaded_def
    determine_effective_workdir_def eff_simps res_bind_def ok_or_def Let_def)

text \<open>The run of this task ends well, unless its log cannot be published.\<close>

lemma image_task_run:
  "fst (docker_execute_task (calm_docker\<lparr>dv_publish := p\<rparr>) image_task empty_docker) =
     (case p of Inr _ \<Rightarrow> Inr (Some ''done'') | Inl e \<Rightarrow> Inl (DR_Publish e))"
proof -
  define env where "env = calm_docker\<lparr>dv_publish := p\<rparr>"
  define g where "g w = snd (publish_tail env ''t1'' w)" for w
  obtain w' where c: "create_task_container env image_task empty_docker = (Inr (''c1'', ''v1''), w')"
    using image_task_created env_def by blast
  have chk: "docker_run_check image_task = Inr ''t1''" "dv_connect env = Inr ()"
    by (simp_all add: docker_run_check_def image_task_def default_hdr_def res_bind_def ok_or_def env_def calm_docker_def)
  have st: "start_container env ''c1'' image_task = Some (Inr ())"
    by (simp add: start_container_def probe_if_configured_def env_def calm_docker_def image_task_def default_hdr_def)
  have wt: "wait_container env = Inr ''done''"
    by (simp add: wait_container_def wait_for_container_stopped_def read_output_file_def env_def calm_docker_def)
  have "trim ''hello'' \<noteq> []" by code_simp
  then have pt: "publish_tail env ''t1'' w = (case p of Inl e \<Rightarrow> Inl (DR_Publish e) | Inr _ \<Rightarrow> Inr (), g w)" for w
    by (simp add: g_def publish_tail_def read_logs_tail_def publish_docker_log_part_def env_def calm_docker_def throw_def
      modifies_def split: sum.split)
  have "fst (docker_execute_task env image_task empty_docker) = (case p of Inr _ \<Rightarrow> Inr (Some ''done'') | Inl e \<Rightarrow> Inl (DR_Publish e))"
    using c chk st wt pt
    by (cases p) (simp_all add: docker_execute_task_def and_then_def lift_res_def eff_map_err_def run_created_def modifies_def
      set_inactive_def after_wait_def ignore_def ret_def non_empty_output_def)
  then show ?thesis by (simp only: env_def)
qed

theorem what_a_run_leaves_witness:
  "resources (snd (docker_execute_task calm_docker image_task empty_docker)) = resources empty_docker \<and>
   (\<exists>cid body. resources (snd (docker_execute_task (calm_docker\<lparr>dv_publish := Inl ''down''\<rparr>) image_task empty_docker)) =
     ([(cid, body)], [''v1''], []))"
proof -
  let ?bad = "calm_docker\<lparr>dv_publish := Inl ''down''\<rparr>"
  have a: "the (tk_id image_task) \<notin> fst ` set (dk_active empty_docker)" by (simp add: empty_docker_def)
  have n: "\<not> create_refused calm_docker image_task" "\<not> create_refused ?bad image_task"
    by (auto simp: create_refused_def calm_docker_def)
  have bad: "removes ?bad" "names_fresh ?bad empty_docker" using calm by (simp_all add: removes_def names_fresh_def)
  show ?thesis
    using what_a_run_leaves [OF calm a surjective_pairing] what_a_run_leaves [OF bad a surjective_pairing] n image_task_run [of "Inr ()"] image_task_run [of "Inl ''down''"]
    by (auto simp: empty_docker_def image_def calm_docker_def)
qed

text \<open>A daemon that does not remove the container is not asked for its volume.\<close>

lemma removed_container_keeps_volume:
  assumes "dv_remove_container env = Inl e"
  shows "remove_container env tc w = (Inl (DE_ContainerRemove e), w)"
  using assms by (simp add: remove_container_def delete_container_def eff_simps)

lemma stop_of_other_task: "tk_id t = Some i \<Longrightarrow> map_of (dk_active w) i = None \<Longrightarrow> docker_stop env t w = (Inr (), w)"
  by (simp add: docker_stop_def eff_simps ok_or_def)

section \<open>What a run does not look at\<close>

text \<open>Of a task only its own fields are run: the tasks before and after it, its sidecars and its registry make no
  difference.\<close>

theorem docker_runs_header:
  "docker_execute_task env (Task h pre post side p e s) w =
   docker_execute_task env (Task (h\<lparr>th_registry := None\<rparr>) None None None None None None) w"
proof -
  have a: "docker_run_check (Task h pre post side p e s) = docker_run_check (Task (h\<lparr>th_registry := None\<rparr>) None None None None None None)"
    by (simp add: docker_run_check_def cong: if_cong)
  let ?t = "Task h pre post side p e s" and ?u = "Task (h\<lparr>th_registry := None\<rparr>) None None None None None None"
  have pull: "pull_task_image env ?t = pull_task_image env ?u" by (simp add: pull_task_image_def)
  have mounts: "build_mounts ?t = build_mounts ?u" by (simp add: build_mounts_def)
  have rs: "parse_container_resources err ?t = parse_container_resources err ?u" for err
    by (simp add: parse_container_resources_def)
  have nm: "th_name (h\<lparr>th_registry := None\<rparr>) = th_name h" "th_networks (h\<lparr>th_registry := None\<rparr>) = th_networks h" by simp_all
  have net: "build_networking_config al ?t = build_networking_config al ?u" for al
    unfolding build_networking_config_def task.sel nm by (rule refl)
  have cmd: "build_command_and_entrypoint ?t = build_command_and_entrypoint ?u"
    unfolding build_command_and_entrypoint_def task.sel by (simp add: Let_def)
  have body: "build_container_config al ?t ms x = build_container_config al ?u ms x" for al ms x
    unfolding build_container_config_def net cmd
    by (simp add: build_env_def build_exposed_ports_def build_port_bindings_def)
  have wdir: "determine_effective_workdir ?t = determine_effective_workdir ?u"
    by (simp add: determine_effective_workdir_def)
  have init: "init_workdir_for_container env ?t d = init_workdir_for_container env ?u d" for d
    by (simp add: init_workdir_for_container_def)
  have wd: "initialize_workdir env cid vol ?t = initialize_workdir env cid vol ?u" for cid vol
    unfolding initialize_workdir_def init wdir by (rule refl)
  have b: "create_task_container env ?t = create_task_container env ?u"
    unfolding create_task_container_def pull mounts rs body wd by simp
  have probe: "probe_if_configured env cid ?t = probe_if_configured env cid ?u" for cid by (simp add: probe_if_configured_def)
  have start: "start_container env cid ?t = start_container env cid ?u" for cid
    unfolding start_container_def probe by (rule refl)
  have c: "run_created env ?t tid tc = run_created env ?u tid tc" for tid tc
    unfolding run_created_def start by (rule refl)
  show ?thesis unfolding docker_execute_task_def a b c by (rule refl)
qed

lemma mount_entries_in:
  "mount_entries ms = Inr bs \<Longrightarrow> m \<in> set ms \<Longrightarrow> \<exists>b \<in> set bs. mount_entry m = Inr b"
  by (induction ms arbitrary: bs) (auto simp: res_bind_def split: sum.splits)

lemma bind_entry: "mount_entry m = Inr b \<Longrightarrow> mt_type m = Some ''bind'' \<Longrightarrow> bm_typ b = MK_Bind"
  by (auto simp: mount_entry_def Let_def res_bind_def split: sum.splits if_splits)

text \<open>C10. The policy of bind mounts is not applied: a path of the host that the mounter of a worker without bind mounts
  refuses is handed to docker as the task names it, and mounted into the container.\<close>

theorem bind_policy_bypassed:
  assumes "removes env" and "names_fresh env w"
    and "create_task_container env t w = (Inr (cid, vol), w')"
    and "th_mounts (hdr t) = Some ms" and "m \<in> set ms" and "mt_type m = Some ''bind''"
  shows "bind_mount MP_Denied m = Inl ME_BindMountsNotAllowed \<and>
    (\<exists>body. map_of (dk_containers w') cid = Some body \<and>
      \<lparr>bm_target = mt_target m, bm_source = mt_source m, bm_typ = MK_Bind\<rparr> \<in> set (cb_mounts body))"
proof
  show "bind_mount MP_Denied m = Inl ME_BindMountsNotAllowed" by (simp add: bind_mount_def)
  obtain mounts rs where ms: "build_mounts t = Inr mounts" and
    w': "w' = with_container cid (build_container_config (dv_alphanumeric env) t (add_torkdir_to_mounts mounts vol) rs) vol w"
    using create_resources [OF assms(1,2), of t] assms(3) by auto
  have "mount_entries ms = Inr mounts" using ms assms(4) by (simp add: build_mounts_def)
  from mount_entries_in [OF this assms(5)] obtain b where b: "b \<in> set mounts" "mount_entry m = Inr b" by blast
  have "b = \<lparr>bm_target = mt_target m, bm_source = mt_source m, bm_typ = MK_Bind\<rparr>"
    using mount_entry_keeps [OF b(2)] bind_entry [OF b(2) assms(6)] by simp
  then show "\<exists>body. map_of (dk_containers w') cid = Some body \<and>
      \<lparr>bm_target = mt_target m, bm_source = mt_source m, bm_typ = MK_Bind\<rparr> \<in> set (cb_mounts body)"
    using b(1) by (auto simp: w' with_container_def build_container_config_def add_torkdir_to_mounts_def Let_def split: prod.split)
qed

theorem bind_policy_bypassed_witness:
  "bind_mount MP_Denied \<lparr>mt_id = None, mt_type = Some ''bind'', mt_source = Some ''/etc'', mt_target = Some ''/host'', mt_opts = None\<rparr> =
      Inl ME_BindMountsNotAllowed \<and>
    (\<exists>body. map_of (dk_containers (snd (create_task_container calm_docker image_task empty_docker))) ''c1'' = Some body \<and>
      \<lparr>bm_target = Some ''/host'', bm_source = Some ''/etc'', bm_typ = MK_Bind\<rparr> \<in> set (cb_mounts body))"
proof -
  obtain w' where w': "create_task_container calm_docker image_task empty_docker = (Inr (''c1'', ''v1''), w')"
    using image_task_created [of "Inr ()"] by (auto simp: calm_docker_def)
  show ?thesis
    using bind_policy_bypassed [OF calm w', of "[\<lparr>mt_id = None, mt_type = Some ''bind'', mt_source = Some ''/etc'',
      mt_target = Some ''/host'', mt_opts = None\<rparr>]" "\<lparr>mt_id = None, mt_type = Some ''bind'', mt_source = Some ''/etc'',
      mt_target = Some ''/host'', mt_opts = None\<rparr>"]
    unfolding w' by (auto simp: image_task_def)
qed

end
