(* ===== verification/Rabbitmq.thy ===== *)
theory Rabbitmq
  imports Proxy
begin

text \<open>
  The broker over RabbitMQ (\<open>twerk-infrastructure/src/broker/rabbitmq.rs\<close>). The server is a state of any type with an
  operation for each call of the AMQP client, all fields of \<open>amqp\<close>; it can be as much of the world as the handlers
  change. The readers and printers of \<open>serde_json\<close> are arguments too.
\<close>

section \<open>The server and the broker\<close>

datatype amqp_value = AV_LongString string | AV_LongLongInt i64

record amqp_message =
  am_data :: string
  am_kind :: string
  am_priority :: nat

record 's amqp =
  aq_connect :: "nat \<Rightarrow> string \<Rightarrow> ('s, string, unit) eff"
  aq_connected :: "'s \<Rightarrow> nat \<Rightarrow> bool"
  aq_channel :: "nat \<Rightarrow> ('s, string, unit) eff"
  aq_exchange :: "('s, string, unit) eff"
  aq_declare :: "string \<Rightarrow> bool \<Rightarrow> (string \<times> amqp_value) list \<Rightarrow> ('s, string, unit) eff"
  aq_bind :: "string \<Rightarrow> string \<Rightarrow> string \<Rightarrow> ('s, string, unit) eff"
  aq_qos :: "nat \<Rightarrow> ('s, string, unit) eff"
  aq_consume :: "string \<Rightarrow> ('s, string, unit) eff"
  aq_publish :: "string \<Rightarrow> string \<Rightarrow> amqp_message \<Rightarrow> ('s, string, bool) eff"
  aq_delete :: "string \<Rightarrow> ('s, string, unit) eff"
  aq_ack :: "nat \<Rightarrow> ('s, string, unit) eff"
  aq_nack :: "nat \<Rightarrow> bool \<Rightarrow> ('s, string, unit) eff"
  aq_get :: "string \<Rightarrow> ('s, string, json) eff"
  aq_from_slice :: "string \<Rightarrow> string + json"
  aq_task_bytes :: "task \<Rightarrow> string + string"
  aq_job_bytes :: "job \<Rightarrow> string + string"
  aq_node_bytes :: "node \<Rightarrow> string + string"
  aq_part_bytes :: "task_log_part \<Rightarrow> string + string"
  aq_json_bytes :: "json \<Rightarrow> string + string"
  aq_read_task :: "json \<Rightarrow> task option"
  aq_read_job :: "json \<Rightarrow> job option"
  aq_read_node :: "json \<Rightarrow> node option"
  aq_read_part :: "json \<Rightarrow> task_log_part option"
  aq_short_uuid :: string

datatype rabbit_error = RB_ConnectionPoolIndex | RB_AllConnectionsDown | RB_PublishNack | RB_Serialization string
  | RB_Amqp string | RB_Json string | RB_Http string

fun rabbit_error_display :: "rabbit_error \<Rightarrow> string" where
  "rabbit_error_display RB_ConnectionPoolIndex = ''Connection pool index out of bounds''"
| "rabbit_error_display RB_AllConnectionsDown = ''All RabbitMQ connections are down''"
| "rabbit_error_display RB_PublishNack = ''RabbitMQ publish was negatively acknowledged''"
| "rabbit_error_display (RB_Serialization e) = ''serialization failed: '' @ e"
| "rabbit_error_display (RB_Amqp e) = e"
| "rabbit_error_display (RB_Json e) = e"
| "rabbit_error_display (RB_Http e) = e"

text \<open>What a consumer does with a value; the last relays jobs to a channel of typed events.\<close>

datatype 'h rabbit_handler = RH_Task 'h | RH_Job 'h | RH_Node 'h | RH_LogPart 'h | RH_Event 'h | RH_Typed

record ('s, 'h) rabbit =
  rb_last_conn_idx :: nat
  rb_shutting_down :: bool
  rb_declared :: "string list"
  rb_consumers :: "(string \<times> 'h rabbit_handler) list"
  rb_channels :: "(string \<times> job_event list) list"
  rb_server :: 's

record rabbit_config =
  rc_options :: rabbitmq_options
  rc_engine_id :: string

type_synonym ('s, 'h, 'a) rb = "(('s, 'h) rabbit, rabbit_error, 'a) eff"

definition on_server :: "('s, string, 'a) eff \<Rightarrow> ('s, 'h, 'a) rb" where
  "on_server m = zoom rb_server (\<lambda>s r. r\<lparr>rb_server := s\<rparr>) (eff_map_err RB_Amqp m)"

section \<open>Connections and queues\<close>

definition rabbitmq_conn_err :: "nat \<Rightarrow> string \<Rightarrow> string" where
  "rabbitmq_conn_err i e = ''RabbitMQ connection '' @ show_nat i @ '' failed: '' @ e"

definition rb_durable :: "rabbitmq_options \<Rightarrow> bool" where
  "rb_durable opts \<longleftrightarrow> rq_durable_queues opts \<or> rq_queue_type opts = ''quorum''"

definition quorum_args :: "rabbitmq_options \<Rightarrow> (string \<times> amqp_value) list" where
  "quorum_args opts = (if rq_queue_type opts = ''quorum'' then [(''x-queue-type'', AV_LongString ''quorum'')] else [])"

definition queue_args :: "rabbit_config \<Rightarrow> string \<Rightarrow> (string \<times> amqp_value) list" where
  "queue_args cfg q =
     (let opts = rc_options cfg
      in quorum_args opts @
         (if is_worker_queue q \<and> rq_queue_type opts \<noteq> ''quorum'' then [(''x-max-priority'', AV_LongLongInt 10)] else []) @
         (case rq_consumer_timeout opts of
            Some ms \<Rightarrow> [(''x-consumer-timeout'', AV_LongLongInt (if int ms \<le> i64_max then word_of_nat ms else 1800000))]
          | None \<Rightarrow> []))"

text \<open>Three connections; the topic exchange and the queue of redeliveries are declared on the first.\<close>

definition new_rabbit :: "rabbit_config \<Rightarrow> string \<Rightarrow> 's amqp \<Rightarrow> ('s, string, ('s, 'h) rabbit) eff" where
  "new_rabbit cfg url env =
     (let opts = rc_options cfg; connect = (\<lambda>i. eff_map_err (rabbitmq_conn_err i) (aq_connect env i url))
      in and_then (connect 1) (\<lambda>_. and_then (connect 2) (\<lambda>_. and_then (connect 3) (\<lambda>_.
         and_then (aq_channel env 0) (\<lambda>_.
         and_then (aq_exchange env) (\<lambda>_.
         and_then (aq_declare env (prefixed_queue QUEUE_REDELIVERIES (rc_engine_id cfg)) (rb_durable opts) (quorum_args opts)) (\<lambda>_.
         asks (\<lambda>s. \<lparr>rb_last_conn_idx = 0, rb_shutting_down = False, rb_declared = [], rb_consumers = [], rb_channels = [],
           rb_server = s\<rparr>))))))))"

definition get_connection :: "'s amqp \<Rightarrow> ('s, 'h, nat) rb" where
  "get_connection env =
     and_then (asks rb_last_conn_idx) (\<lambda>n.
     and_then (modifies (rb_last_conn_idx_update (\<lambda>n. (n + 1) mod 2 ^ 64))) (\<lambda>_.
     and_then (lift_res (ok_or (find (\<lambda>i. i = n mod 3) [0, 1, 2]) RB_ConnectionPoolIndex)) (\<lambda>c.
     and_then (asks (\<lambda>r. aq_connected env (rb_server r))) (\<lambda>up.
       if up c then ret c else lift_res (ok_or (find up [0, 1, 2]) RB_AllConnectionsDown)))))"

text \<open>The names declared are remembered, and never forgotten.\<close>

definition declare_queue :: "rabbit_config \<Rightarrow> 's amqp \<Rightarrow> string \<Rightarrow> ('s, 'h, unit) rb" where
  "declare_queue cfg env q =
     and_then (asks rb_declared) (\<lambda>declared.
       if q \<in> set declared then ret ()
       else and_then (on_server (aq_declare env q (rb_durable (rc_options cfg)) (queue_args cfg q))) (\<lambda>_.
         modifies (rb_declared_update ((#) q))))"

definition publish_raw :: "rabbit_config \<Rightarrow> 's amqp \<Rightarrow> string \<Rightarrow> string \<Rightarrow> string \<Rightarrow> string \<Rightarrow> nat \<Rightarrow> ('s, 'h, unit) rb" where
  "publish_raw cfg env exchange routing_key data msg_type priority =
     and_then (get_connection env) (\<lambda>c.
     and_then (on_server (aq_channel env c)) (\<lambda>_.
     and_then (if exchange = [] then declare_queue cfg env routing_key else ret ()) (\<lambda>_.
     and_then (on_server (aq_publish env exchange routing_key
         \<lparr>am_data = data, am_kind = msg_type, am_priority = priority\<rparr>)) (\<lambda>acknowledged.
       if acknowledged then ret () else throw RB_PublishNack))))"

definition subscribe_with_binding ::
    "rabbit_config \<Rightarrow> 's amqp \<Rightarrow> string \<Rightarrow> string \<Rightarrow> string \<Rightarrow> 'h rabbit_handler \<Rightarrow> ('s, 'h, unit) rb" where
  "subscribe_with_binding cfg env exchange routing_key q handler =
     and_then (get_connection env) (\<lambda>c.
     and_then (on_server (aq_channel env c)) (\<lambda>_.
     and_then (declare_queue cfg env q) (\<lambda>_.
     and_then (if exchange = [] then ret () else on_server (aq_bind env q exchange routing_key)) (\<lambda>_.
     and_then (on_server (aq_qos env 1)) (\<lambda>_.
     and_then (on_server (aq_consume env q)) (\<lambda>_.
     modifies (rb_consumers_update (\<lambda>cs. cs @ [(q, handler)]))))))))"

definition subscribe_raw :: "rabbit_config \<Rightarrow> 's amqp \<Rightarrow> string \<Rightarrow> 'h rabbit_handler \<Rightarrow> ('s, 'h, unit) rb" where
  "subscribe_raw cfg env q handler = subscribe_with_binding cfg env [] [] q handler"

section \<open>Deliveries\<close>

record delivery =
  dl_tag :: nat
  dl_redelivered :: bool
  dl_kind :: "string option"
  dl_data :: string

text \<open>A value that is not of the type a handler takes is passed over, as a success. Handlers run on the broker and
  the world behind it, and fail with a text.\<close>

definition json_handler ::
    "'s amqp \<Rightarrow> ('h \<Rightarrow> message \<Rightarrow> (('s, 'h) rabbit, string, unit) eff) \<Rightarrow> string \<Rightarrow> 'h rabbit_handler \<Rightarrow> json \<Rightarrow>
      (('s, 'h) rabbit, string, unit) eff" where
  "json_handler env run q handler v =
     (case handler of
           RH_Task h \<Rightarrow> (case aq_read_task env v of Some t \<Rightarrow> run h (M_Task t) | None \<Rightarrow> ret ())
         | RH_Job h \<Rightarrow> (case aq_read_job env v of Some j \<Rightarrow> run h (M_Job j) | None \<Rightarrow> ret ())
         | RH_Node h \<Rightarrow> (case aq_read_node env v of Some n \<Rightarrow> run h (M_Node n) | None \<Rightarrow> ret ())
         | RH_LogPart h \<Rightarrow> (case aq_read_part env v of Some p \<Rightarrow> run h (M_LogPart p) | None \<Rightarrow> ret ())
         | RH_Event h \<Rightarrow> run h (M_Event v)
         | RH_Typed \<Rightarrow> (case Option.bind (aq_read_job env v) job_event_from_state of
             Some ev \<Rightarrow> modifies (rb_channels_update (entry_push q ev)) | None \<Rightarrow> ret ()))"

text \<open>What the consumer asks the server to do with a delivery; the loop ends at one that finds the broker shutting
  down, and asks nothing then.\<close>

datatype settlement = Acked | Requeued | Discarded

definition settle_with :: "'s amqp \<Rightarrow> delivery \<Rightarrow> settlement \<Rightarrow> ('s, 'h, settlement option) rb" where
  "settle_with env d how =
     and_then (ignore (on_server (case how of
        Acked \<Rightarrow> aq_ack env (dl_tag d) | Requeued \<Rightarrow> aq_nack env (dl_tag d) True | Discarded \<Rightarrow> aq_nack env (dl_tag d) False)))
     (\<lambda>_. ret (Some how))"

definition on_delivery ::
    "rabbit_config \<Rightarrow> 's amqp \<Rightarrow> ('h \<Rightarrow> message \<Rightarrow> (('s, 'h) rabbit, string, unit) eff) \<Rightarrow> string \<Rightarrow> 'h rabbit_handler \<Rightarrow>
      delivery \<Rightarrow> ('s, 'h, settlement option) rb" where
  "on_delivery cfg env run q handler d =
     (if dl_redelivered d \<and> is_worker_queue q then
        and_then (to_ok (publish_raw cfg env [] (prefixed_queue QUEUE_REDELIVERIES (rc_engine_id cfg)) (dl_data d)
            (case dl_kind d of Some k \<Rightarrow> k | None \<Rightarrow> []) 0)) (\<lambda>published.
          settle_with env d (case published of Some _ \<Rightarrow> Acked | None \<Rightarrow> Requeued))
      else case aq_from_slice env (dl_data d) of
          Inl _ \<Rightarrow> settle_with env d Discarded
        | Inr v \<Rightarrow> and_then (to_ok (json_handler env run q handler v)) (\<lambda>handled.
            settle_with env d (case handled of Some _ \<Rightarrow> Acked | None \<Rightarrow> Requeued)))"

fun consume_deliveries ::
    "rabbit_config \<Rightarrow> 's amqp \<Rightarrow> ('h \<Rightarrow> message \<Rightarrow> (('s, 'h) rabbit, string, unit) eff) \<Rightarrow> string \<Rightarrow> 'h rabbit_handler \<Rightarrow>
      (string + delivery) list \<Rightarrow> ('s, 'h, unit) rb" where
  "consume_deliveries cfg env run q handler [] = ret ()"
| "consume_deliveries cfg env run q handler (d # ds) =
     and_then (asks rb_shutting_down) (\<lambda>stopping.
       if stopping then ret ()
       else and_then (case d of Inl _ \<Rightarrow> ret None | Inr d \<Rightarrow> on_delivery cfg env run q handler d) (\<lambda>_.
         consume_deliveries cfg env run q handler ds))"

section \<open>The operations\<close>

definition MSG_TYPE_TASK :: string where "MSG_TYPE_TASK = ''*twerk.Task''"
definition MSG_TYPE_JOB :: string where "MSG_TYPE_JOB = ''*twerk.Job''"
definition MSG_TYPE_NODE :: string where "MSG_TYPE_NODE = ''*twerk.Node''"
definition MSG_TYPE_TASK_LOG_PART :: string where "MSG_TYPE_TASK_LOG_PART = ''*twerk.TaskLogPart''"
definition MSG_TYPE_EVENT :: string where "MSG_TYPE_EVENT = ''*twerk.Event''"

definition rb_json :: "string + string \<Rightarrow> ('s, 'h, string) rb" where
  "rb_json r = lift_res (map_err RB_Json r)"

definition task_priority_u8 :: "task \<Rightarrow> nat" where
  "task_priority_u8 t = (if 0 \<le> th_priority (hdr t) \<and> th_priority (hdr t) < 256 then nat (th_priority (hdr t)) else 0)"

definition to_queue :: "rabbit_config \<Rightarrow> 's amqp \<Rightarrow> string \<Rightarrow> string + string \<Rightarrow> string \<Rightarrow> nat \<Rightarrow> ('s, 'h, unit) rb" where
  "to_queue cfg env q bytes msg_type priority =
     and_then (rb_json bytes) (\<lambda>data. publish_raw cfg env [] (prefixed_queue q (rc_engine_id cfg)) data msg_type priority)"

definition rb_publish_task :: "rabbit_config \<Rightarrow> 's amqp \<Rightarrow> string \<Rightarrow> task \<Rightarrow> ('s, 'h, unit) rb" where
  "rb_publish_task cfg env q t = to_queue cfg env q (aq_task_bytes env t) MSG_TYPE_TASK (task_priority_u8 t)"

fun serialize_all :: "('a \<Rightarrow> string + 'b) \<Rightarrow> 'a list \<Rightarrow> string + 'b list" where
  "serialize_all f [] = Inr []"
| "serialize_all f (x # xs) = res_bind (f x) (\<lambda>b. res_bind (serialize_all f xs) (\<lambda>bs. Inr (b # bs)))"

definition rb_publish_tasks :: "rabbit_config \<Rightarrow> 's amqp \<Rightarrow> string \<Rightarrow> task list \<Rightarrow> ('s, 'h, unit) rb" where
  "rb_publish_tasks cfg env q ts =
     and_then (lift_res (map_err RB_Serialization
         (serialize_all (\<lambda>t. res_bind (aq_task_bytes env t) (\<lambda>data. Inr (data, task_priority_u8 t))) ts))) (\<lambda>serialized.
       for_each (\<lambda>(data, priority).
         publish_raw cfg env [] (prefixed_queue q (rc_engine_id cfg)) data MSG_TYPE_TASK priority) serialized)"

definition rb_publish_task_progress :: "rabbit_config \<Rightarrow> 's amqp \<Rightarrow> task \<Rightarrow> ('s, 'h, unit) rb" where
  "rb_publish_task_progress cfg env t = to_queue cfg env QUEUE_PROGRESS (aq_task_bytes env t) MSG_TYPE_TASK 0"

definition rb_publish_heartbeat :: "rabbit_config \<Rightarrow> 's amqp \<Rightarrow> node \<Rightarrow> ('s, 'h, unit) rb" where
  "rb_publish_heartbeat cfg env n = to_queue cfg env QUEUE_HEARTBEAT (aq_node_bytes env n) MSG_TYPE_NODE 0"

definition rb_publish_job :: "rabbit_config \<Rightarrow> 's amqp \<Rightarrow> job \<Rightarrow> ('s, 'h, unit) rb" where
  "rb_publish_job cfg env j = to_queue cfg env QUEUE_JOBS (aq_job_bytes env j) MSG_TYPE_JOB 0"

definition rb_publish_task_log_part :: "rabbit_config \<Rightarrow> 's amqp \<Rightarrow> task_log_part \<Rightarrow> ('s, 'h, unit) rb" where
  "rb_publish_task_log_part cfg env p = to_queue cfg env QUEUE_TASK_LOG_PART (aq_part_bytes env p) MSG_TYPE_TASK_LOG_PART 0"

definition rb_publish_event :: "rabbit_config \<Rightarrow> 's amqp \<Rightarrow> string \<Rightarrow> json \<Rightarrow> ('s, 'h, unit) rb" where
  "rb_publish_event cfg env topic ev =
     and_then (rb_json (aq_json_bytes env ev)) (\<lambda>data. publish_raw cfg env ''amq.topic'' topic data MSG_TYPE_EVENT 0)"

definition rb_subscribe_for_tasks :: "rabbit_config \<Rightarrow> 's amqp \<Rightarrow> string \<Rightarrow> 'h \<Rightarrow> ('s, 'h, unit) rb" where
  "rb_subscribe_for_tasks cfg env q h = subscribe_raw cfg env (prefixed_queue q (rc_engine_id cfg)) (RH_Task h)"

definition rb_subscribe_for_task_progress :: "rabbit_config \<Rightarrow> 's amqp \<Rightarrow> 'h \<Rightarrow> ('s, 'h, unit) rb" where
  "rb_subscribe_for_task_progress cfg env h =
     subscribe_raw cfg env (prefixed_queue QUEUE_PROGRESS (rc_engine_id cfg)) (RH_Task h)"

definition rb_subscribe_for_heartbeats :: "rabbit_config \<Rightarrow> 's amqp \<Rightarrow> 'h \<Rightarrow> ('s, 'h, unit) rb" where
  "rb_subscribe_for_heartbeats cfg env h =
     subscribe_raw cfg env (prefixed_queue QUEUE_HEARTBEAT (rc_engine_id cfg)) (RH_Node h)"

definition rb_subscribe_for_jobs :: "rabbit_config \<Rightarrow> 's amqp \<Rightarrow> 'h \<Rightarrow> ('s, 'h, unit) rb" where
  "rb_subscribe_for_jobs cfg env h = subscribe_raw cfg env (prefixed_queue QUEUE_JOBS (rc_engine_id cfg)) (RH_Job h)"

definition rb_subscribe_for_task_log_part :: "rabbit_config \<Rightarrow> 's amqp \<Rightarrow> 'h \<Rightarrow> ('s, 'h, unit) rb" where
  "rb_subscribe_for_task_log_part cfg env h =
     subscribe_raw cfg env (prefixed_queue QUEUE_TASK_LOG_PART (rc_engine_id cfg)) (RH_LogPart h)"

definition event_queue :: "'s amqp \<Rightarrow> string" where
  "event_queue env = QUEUE_EXCLUSIVE_PREFIX @ ''.'' @ aq_short_uuid env"

definition rb_subscribe_for_events :: "rabbit_config \<Rightarrow> 's amqp \<Rightarrow> string \<Rightarrow> 'h \<Rightarrow> ('s, 'h, unit) rb" where
  "rb_subscribe_for_events cfg env pat h = subscribe_with_binding cfg env ''amq.topic'' pat (event_queue env) (RH_Event h)"

text \<open>The receiver of the channel is the name of its queue.\<close>

definition rb_subscribe :: "rabbit_config \<Rightarrow> 's amqp \<Rightarrow> string \<Rightarrow> ('s, 'h, string) rb" where
  "rb_subscribe cfg env pat =
     and_then (subscribe_with_binding cfg env ''amq.topic'' pat (event_queue env) RH_Typed) (\<lambda>_. ret (event_queue env))"

text \<open>\<open>q["key"]\<close> is null for a missing key.\<close>

definition json_index :: "json \<Rightarrow> string \<Rightarrow> json" where
  "json_index v key = (case Option.bind (as_object v) (\<lambda>kvs. map_of kvs key) of Some x \<Rightarrow> x | None \<Rightarrow> JNull)"

definition extract_i64 :: "json \<Rightarrow> int" where
  "extract_i64 v = (case v of
     JNumber (PosInt n) \<Rightarrow> if int (unat n) \<le> i64_max then int (unat n) else 0
   | JNumber (NegInt i) \<Rightarrow> sint i | _ \<Rightarrow> 0)"

definition clamp_i32 :: "int \<Rightarrow> int" where
  "clamp_i32 v = (if - (2 ^ 31) \<le> v \<and> v < 2 ^ 31 then v else if 0 < v then 2 ^ 31 - 1 else - (2 ^ 31))"

definition extract_i32 :: "json \<Rightarrow> int" where
  "extract_i32 v = clamp_i32 (extract_i64 v)"

definition queue_info_of :: "json \<Rightarrow> queue_info" where
  "queue_info_of q =
     \<lparr>qi_name = (case json_index q ''name'' of JString s \<Rightarrow> s | _ \<Rightarrow> []), qi_size = extract_i32 (json_index q ''messages''),
      qi_subscribers = extract_i32 (json_index q ''consumers''),
      qi_unacked = extract_i32 (json_index q ''messages_unacknowledged'')\<rparr>"

definition management_get :: "'s amqp \<Rightarrow> string \<Rightarrow> ('s, 'h, json) rb" where
  "management_get env url = zoom rb_server (\<lambda>s r. r\<lparr>rb_server := s\<rparr>) (eff_map_err RB_Http (aq_get env url))"

definition rb_queues :: "rabbit_config \<Rightarrow> 's amqp \<Rightarrow> ('s, 'h, queue_info list) rb" where
  "rb_queues cfg env =
     (case rq_management_url (rc_options cfg) of
        None \<Rightarrow> ret []
      | Some url \<Rightarrow> and_then (management_get env (url @ ''/api/queues'')) (\<lambda>v.
          lift_res (ok_or (map_option (map queue_info_of) (as_array v)) (RB_Http ''error decoding response body''))))"

definition rb_queue_info :: "rabbit_config \<Rightarrow> 's amqp \<Rightarrow> string \<Rightarrow> ('s, 'h, queue_info) rb" where
  "rb_queue_info cfg env q =
     (case rq_management_url (rc_options cfg) of
        None \<Rightarrow> ret \<lparr>qi_name = q, qi_size = 0, qi_subscribers = 0, qi_unacked = 0\<rparr>
      | Some url \<Rightarrow> and_then (management_get env (url @ ''/api/queues/%2f/'' @ q)) (\<lambda>v. ret (queue_info_of v)))"

definition rb_delete_queue :: "'s amqp \<Rightarrow> string \<Rightarrow> ('s, 'h, unit) rb" where
  "rb_delete_queue env q =
     and_then (get_connection env) (\<lambda>c.
     and_then (on_server (aq_channel env c)) (\<lambda>_. on_server (aq_delete env q)))"

definition rb_health_check :: "'s amqp \<Rightarrow> ('s, 'h, unit) rb" where
  "rb_health_check env = and_then (get_connection env) (\<lambda>_. ret ())"

definition rb_shutdown :: "('s, 'h, unit) rb" where
  "rb_shutdown = modifies (rb_shutting_down_update (\<lambda>_. True))"

section \<open>Connections\<close>

lemma get_connection_result:
  "fst (get_connection env r) =
     (if \<exists>c < 3. aq_connected env (rb_server r) c
      then Inr (if aq_connected env (rb_server r) (rb_last_conn_idx r mod 3) then rb_last_conn_idx r mod 3
        else the (find (aq_connected env (rb_server r)) [0, 1, 2]))
      else Inl RB_AllConnectionsDown)"
proof -
  let ?up = "aq_connected env (rb_server r)" and ?i = "rb_last_conn_idx r mod 3"
  have i: "find (\<lambda>i. i = ?i) [0, 1, 2] = Some ?i" by (simp; presburger)
  have some: "ok_or (Some x) e = Inr x" for x :: nat and e :: rabbit_error by (simp add: ok_or_def)
  have found: "ok_or (find ?up [0, 1, 2]) RB_AllConnectionsDown =
      (if \<exists>c < 3. ?up c then Inr (the (find ?up [0, 1, 2])) else Inl RB_AllConnectionsDown)"
    by (simp add: ok_or_def numeral_3_eq_3 less_Suc_eq ex_disj_distrib conj_disj_distribR)
      (auto simp: numeral_2_eq_2)
  have "?up ?i \<Longrightarrow> \<exists>c < 3. ?up c" by (rule exI [of _ ?i]) simp
  then show ?thesis
    by (simp add: get_connection_def and_then_def asks_def modifies_def lift_res_def ret_def i some found del: find.simps One_nat_def)
qed

lemma get_connection_server: "rb_server (snd (get_connection env r)) = rb_server r"
  and get_connection_declared: "rb_declared (snd (get_connection env r)) = rb_declared r"
  by (auto simp: get_connection_def eff_simps ok_or_def split: option.split sum.split prod.split)

lemma get_connection_ok:
  assumes "c < 3" "aq_connected env (rb_server r) c"
  obtains c' r1 where "get_connection env r = (Inr c', r1)" "rb_server r1 = rb_server r" "rb_declared r1 = rb_declared r"
proof -
  have "\<exists>c'. fst (get_connection env r) = Inr c'"
    unfolding get_connection_result using assms by (auto intro!: exI [of _ c])
  then show thesis
    using that get_connection_server [of env r] get_connection_declared [of env r] by (cases "get_connection env r") auto
qed

section \<open>Queues that are gone\<close>

lemma publish_declared:
  assumes "c < 3" "aq_connected env (rb_server r) c" "\<And>c s. aq_channel env c s = (Inr (), s)" "key \<in> set (rb_declared r)"
    and "aq_publish env [] key \<lparr>am_data = d, am_kind = k, am_priority = p\<rparr> (rb_server r) = (Inr True, s')"
  obtains r' where "publish_raw cfg env [] key d k p r = (Inr (), r')" "rb_server r' = s'" "rb_declared r' = rb_declared r"
proof -
  obtain c' r1 where r1: "get_connection env r = (Inr c', r1)" "rb_server r1 = rb_server r" "rb_declared r1 = rb_declared r"
    by (rule get_connection_ok [OF assms(1,2)])
  have "publish_raw cfg env [] key d k p r = (Inr (), r1\<lparr>rb_server := s'\<rparr>)"
    using assms(3-5) r1 by (simp add: publish_raw_def declare_queue_def on_server_def eff_simps)
  then show thesis using that r1 by simp
qed

lemma publish_unroutable:
  assumes "c < 3" "\<And>s. aq_connected env s c" "\<And>c s. aq_channel env c s = (Inr (), s)" "key \<in> set (rb_declared r)"
    and "\<And>m. aq_publish env [] key m (rb_server r) = (Inr True, rb_server r)"
  shows "\<exists>r'. for_each (\<lambda>(d, p). publish_raw cfg env [] key d k p) xs r = (Inr (), r') \<and> rb_server r' = rb_server r"
  using assms(4,5)
proof (induction xs arbitrary: r)
  case (Cons x xs)
  obtain d p where x: "x = (d, p)" by (cases x)
  obtain r1 where r1: "publish_raw cfg env [] key d k p r = (Inr (), r1)" "rb_server r1 = rb_server r" "rb_declared r1 = rb_declared r"
    by (rule publish_declared [OF assms(1,2,3) Cons.prems(1) Cons.prems(2)])
  then show ?case using Cons.IH [of r1] Cons.prems x by (simp add: and_then_def)
qed (simp add: ret_def)

lemma delete_runs:
  assumes "c < 3" "\<And>s. aq_connected env s c" "\<And>c s. aq_channel env c s = (Inr (), s)" "aq_delete env key (rb_server r) = (Inr (), s')"
  obtains r' where "rb_delete_queue env key r = (Inr (), r')" "rb_server r' = s'" "rb_declared r' = rb_declared r"
proof -
  obtain c' r1 where r1: "get_connection env r = (Inr c', r1)" "rb_server r1 = rb_server r" "rb_declared r1 = rb_declared r"
    by (rule get_connection_ok [OF assms(1,2)])
  have "rb_delete_queue env key r = (Inr (), r1\<lparr>rb_server := s'\<rparr>)"
    using assms(3,4) r1 by (simp add: rb_delete_queue_def on_server_def eff_simps)
  then show thesis using that r1 by simp
qed

lemma serialize_all_ok: "(\<And>x. x \<in> set xs \<Longrightarrow> \<not> isl (f x)) \<Longrightarrow> \<exists>bs. serialize_all f xs = Inr bs"
  by (induction xs) (fastforce simp: res_bind_def isl_def split: sum.splits)+

text \<open>C31. After a queue is deleted, tasks published to it are lost, and the publisher is told that they were sent: the
  broker remembers that it declared the queue, does not declare it again, and a message for a queue that is not
  there is confirmed and dropped by the server.\<close>

theorem deleted_queue_swallows:
  fixes env :: "'s amqp" and r :: "('s, 'h) rabbit" and there :: "'s \<Rightarrow> string \<Rightarrow> bool"
  assumes up: "c < 3" "\<forall>s. aq_connected env s c" "\<forall>c s. aq_channel env c s = (Inr (), s)"
    and printed: "\<forall>t \<in> set ts. \<not> isl (aq_task_bytes env t)"
    and delete: "\<forall>s. fst (aq_delete env (prefixed_queue q (rc_engine_id cfg)) s) = Inr () \<and>
      \<not> there (snd (aq_delete env (prefixed_queue q (rc_engine_id cfg)) s)) (prefixed_queue q (rc_engine_id cfg))"
    and unroutable: "\<forall>s key m. \<not> there s key \<longrightarrow> aq_publish env [] key m s = (Inr True, s)"
    and declared: "prefixed_queue q (rc_engine_id cfg) \<in> set (rb_declared r)"
  shows "\<exists>r' r''. rb_delete_queue env (prefixed_queue q (rc_engine_id cfg)) r = (Inr (), r') \<and>
    rb_publish_tasks cfg env q ts r' = (Inr (), r'') \<and> rb_server r'' = rb_server r'"
proof -
  let ?key = "prefixed_queue q (rc_engine_id cfg)"
  obtain s' where s': "aq_delete env ?key (rb_server r) = (Inr (), s')" "\<not> there s' ?key"
    using delete by (metis prod.collapse)
  obtain r' where r': "rb_delete_queue env ?key r = (Inr (), r')" "rb_server r' = s'" "rb_declared r' = rb_declared r"
    by (rule delete_runs [of c env, OF up(1) _ _ s'(1)]) (use up in auto)
  obtain bs where bs: "serialize_all (\<lambda>t. res_bind (aq_task_bytes env t) (\<lambda>data. Inr (data, task_priority_u8 t))) ts = Inr bs"
    using serialize_all_ok [of ts "\<lambda>t. res_bind (aq_task_bytes env t) (\<lambda>data. Inr (data, task_priority_u8 t))"] printed
    by (fastforce simp: res_bind_def isl_def split: sum.splits)
  have "\<exists>r''. for_each (\<lambda>(d, p). publish_raw cfg env [] ?key d MSG_TYPE_TASK p) bs r' = (Inr (), r'') \<and> rb_server r'' = rb_server r'"
    by (rule publish_unroutable [of c]) (use up s' r' declared unroutable in auto)
  then show ?thesis using r' bs by (auto simp: rb_publish_tasks_def and_then_def lift_res_def)
qed

text \<open>A server of named queues; a message for a queue that is not there is dropped.\<close>

definition queue_server :: "(string \<times> amqp_message list) list amqp" where
  "queue_server =
     \<lparr>aq_connect = (\<lambda>i url. ret ()), aq_connected = (\<lambda>s c. True), aq_channel = (\<lambda>c. ret ()), aq_exchange = ret (),
      aq_declare = (\<lambda>q d a s. (Inr (), if map_of s q = None then (q, []) # s else s)), aq_bind = (\<lambda>q e k. ret ()),
      aq_qos = (\<lambda>n. ret ()), aq_consume = (\<lambda>q. ret ()),
      aq_publish = (\<lambda>e q m s. (Inr True, if map_of s q = None then s else entry_push q m s)),
      aq_delete = (\<lambda>q s. (Inr (), AList.delete q s)), aq_ack = (\<lambda>n. ret ()), aq_nack = (\<lambda>n b. ret ()),
      aq_get = (\<lambda>u. throw []), aq_from_slice = Inl, aq_task_bytes = (\<lambda>t. Inr ''{}''), aq_job_bytes = (\<lambda>j. Inr ''{}''),
      aq_node_bytes = (\<lambda>n. Inr ''{}''), aq_part_bytes = (\<lambda>p. Inr ''{}''), aq_json_bytes = (\<lambda>v. Inr ''{}''),
      aq_read_task = (\<lambda>v. None), aq_read_job = (\<lambda>v. None), aq_read_node = (\<lambda>v. None), aq_read_part = (\<lambda>v. None),
      aq_short_uuid = ''u1''\<rparr>"

definition sample_config :: rabbit_config where
  "sample_config =
     \<lparr>rc_options = \<lparr>rq_management_url = None, rq_durable_queues = False, rq_queue_type = ''classic'', rq_consumer_timeout = Some 30000\<rparr>,
      rc_engine_id = []\<rparr>"

lemma default_queue: "prefixed_queue ''default'' [] = ''default''"
  by (simp add: prefixed_queue_def trim_def trim_end_def trim_start_def trim_by_fix strip_one_None)

theorem deleted_queue_swallows_witness:
  "\<exists>r' r'' :: ((string \<times> amqp_message list) list, unit) rabbit.
     rb_delete_queue queue_server ''default'' \<lparr>rb_last_conn_idx = 0, rb_shutting_down = False, rb_declared = [''default''],
       rb_consumers = [], rb_channels = [], rb_server = [(''default'', [])]\<rparr> = (Inr (), r') \<and>
     rb_publish_tasks sample_config queue_server ''default'' [Task default_hdr None None None None None None] r' = (Inr (), r'') \<and> rb_server r'' = rb_server r'"
  using deleted_queue_swallows [of 0 queue_server "[Task default_hdr None None None None None None]" "''default''" sample_config
      "\<lambda>s key. map_of s key \<noteq> None"
      "\<lparr>rb_last_conn_idx = 0, rb_shutting_down = False, rb_declared = [''default''], rb_consumers = [], rb_channels = [],
        rb_server = [(''default'', [])]\<rparr>"]
  by (simp add: queue_server_def sample_config_def default_queue ret_def delete_conv')

section \<open>Batches\<close>

lemma for_each_append:
  "for_each f (xs @ ys) = and_then (for_each f xs) (\<lambda>_. for_each f ys)"
  by (induction xs) (simp_all add: and_then_assoc)

text \<open>A batch that the server refuses in the middle has sent what came before; one that cannot be printed, nothing.\<close>

lemma refused_batch_keeps_prefix:
  assumes "\<And>t. t \<in> set (ts @ u # us) \<Longrightarrow> \<not> isl (aq_task_bytes env t)"
    and "rb_publish_tasks cfg env q ts r = (Inr (), r1)" "rb_publish_task cfg env q u r1 = (Inl e, r2)"
  shows "rb_publish_tasks cfg env q (ts @ u # us) r = (Inl e, r2)"
proof -
  let ?f = "\<lambda>t. res_bind (aq_task_bytes env t) (\<lambda>data. Inr (data, task_priority_u8 t))"
  have app: "serialize_all ?f (xs @ ys) = res_bind (serialize_all ?f xs) (\<lambda>a. res_bind (serialize_all ?f ys) (\<lambda>b. Inr (a @ b)))" for xs ys
    by (induction xs) (auto simp: res_bind_def split: sum.splits)
  obtain as bs where "serialize_all ?f ts = Inr as" "serialize_all ?f (u # us) = Inr bs"
    using serialize_all_ok [of ts ?f] serialize_all_ok [of "u # us" ?f] assms(1)
    by (fastforce simp: res_bind_def isl_def split: sum.splits)
  then have all: "serialize_all ?f (ts @ u # us) = Inr (as @ bs)" by (simp only: app) (simp add: res_bind_def del: serialize_all.simps)
  obtain b where b: "?f u = Inr b" "hd bs = b" "bs \<noteq> []"
    using \<open>serialize_all ?f (u # us) = Inr bs\<close> by (auto simp: res_bind_def split: sum.splits)
  then obtain data where data: "aq_task_bytes env u = Inr data" "b = (data, task_priority_u8 u)"
    by (auto simp: res_bind_def split: sum.splits)
  have "bs = b # tl bs" using b by (cases bs) auto
  then show ?thesis
    using assms(2,3) data all \<open>serialize_all ?f ts = Inr as\<close>
    by (cases bs) (auto simp: rb_publish_tasks_def rb_publish_task_def to_queue_def rb_json_def for_each_append and_then_def lift_res_def)
qed

lemma unprintable_batch_sends_nothing:
  "isl (aq_task_bytes env t) \<Longrightarrow> t \<in> set ts \<Longrightarrow> snd (rb_publish_tasks cfg env q ts r) = r"
proof -
  let ?f = "\<lambda>t. res_bind (aq_task_bytes env t) (\<lambda>data. Inr (data, task_priority_u8 t))"
  assume a: "isl (aq_task_bytes env t)" "t \<in> set ts"
  then have "isl (serialize_all ?f ts)"
    by (induction ts) (auto simp: res_bind_def isl_def split: sum.splits)
  then show ?thesis by (auto simp: isl_def rb_publish_tasks_def and_then_def lift_res_def)
qed

section \<open>Deliveries and their settlement\<close>

lemma settle_value: "fst (settle_with env d how r) = Inr (Some how)"
  by (simp add: settle_with_def eff_simps)

text \<open>Outside the queues of workers a message whose handler fails goes back to its queue each time it comes.\<close>

lemma failing_handler_requeues:
  assumes "\<not> is_worker_queue q" "aq_from_slice env (dl_data d) = Inr v" "fst (json_handler env run q handler v r) = Inl e"
  shows "fst (on_delivery cfg env run q handler d r) = Inr (Some Requeued)"
  using assms by (cases "json_handler env run q handler v r") (simp add: on_delivery_def and_then_def to_ok_def settle_value)

text \<open>A message that comes a second time to a queue of workers is not handled there.\<close>

lemma redelivered_not_run:
  "dl_redelivered d \<Longrightarrow> is_worker_queue q \<Longrightarrow> on_delivery cfg env run q handler d = on_delivery cfg env run' q handler' d"
  by (simp add: on_delivery_def)

text \<open>The queue of redeliveries is first declared without the timeout of consumers, and by its publishers and
  subscribers with it; a server may refuse a declaration with other arguments.\<close>

lemma redelivery_arguments_differ:
  "queue_args \<lparr>rc_options = rabbitmq_options_of st, rc_engine_id = i\<rparr> q \<noteq> quorum_args (rabbitmq_options_of st)"
  by (simp add: queue_args_def rabbitmq_options_of_def quorum_args_def Let_def)

end
