(* ===== verification/Webhooks.thy ===== *)
theory Webhooks
  imports Coordinator_Inv
begin

text \<open>
  The calls of webhooks: the rules and the caller of \<open>twerk-core/src/webhook.rs\<close>, and the caller of the coordinator
  (\<open>twerk-app/src/engine/coordinator/webhook.rs\<close>), whose handlers decide which are called (\<open>Coordinator_World\<close>). The
  answers of the server to the attempts are a function of their number: a status, or \<open>None\<close> for an error of the
  connection. What a caller does is a list.
\<close>

section \<open>The rules\<close>

definition WEBHOOK_DEFAULT_MAX_ATTEMPTS :: nat where "WEBHOOK_DEFAULT_MAX_ATTEMPTS = 5"

definition EVENT_JOB_STATE_CHANGE :: string where "EVENT_JOB_STATE_CHANGE = ''job.StateChange''"
definition EVENT_JOB_PROGRESS :: string where "EVENT_JOB_PROGRESS = ''job.Progress''"
definition EVENT_TASK_STATE_CHANGE :: string where "EVENT_TASK_STATE_CHANGE = ''task.StateChange''"
definition EVENT_TASK_PROGRESS :: string where "EVENT_TASK_PROGRESS = ''task.Progress''"
definition EVENT_DEFAULT :: string where "EVENT_DEFAULT = []"

definition RETRYABLE_STATUS_CODES :: "nat list" where
  "RETRYABLE_STATUS_CODES = [429, 500, 502, 503, 504]"

definition is_retryable :: "nat \<Rightarrow> bool" where
  "is_retryable status \<longleftrightarrow> status \<in> set RETRYABLE_STATUS_CODES"

definition is_success :: "nat \<Rightarrow> bool" where
  "is_success status \<longleftrightarrow> 200 \<le> status \<and> status < 300"

datatype webhook_error = WE_SerializationError | WE_ClientBuildError | WE_NonRetryableError string nat
  | WE_MaxAttemptsExceeded string nat

fun webhook_error_display :: "webhook_error \<Rightarrow> string" where
  "webhook_error_display WE_SerializationError = ''[Webhook] error serializing body''"
| "webhook_error_display WE_ClientBuildError = ''[Webhook] failed to build HTTP client''"
| "webhook_error_display (WE_NonRetryableError url status) =
     ''[Webhook] request to '' @ url @ '' failed with non-retryable status '' @ show_nat status"
| "webhook_error_display (WE_MaxAttemptsExceeded url n) =
     ''[Webhook] failed to call webhook '' @ url @ ''. max attempts: '' @ show_nat n @ '')''"

definition should_retry :: "nat option \<Rightarrow> nat \<Rightarrow> bool" where
  "should_retry result remaining =
     (case result of
        Some code \<Rightarrow> \<not> is_success code \<and> is_retryable code \<and> remaining \<noteq> 0
      | None \<Rightarrow> remaining \<noteq> 0)"

definition backoff_duration :: "nat \<Rightarrow> nat" where
  "backoff_duration attempt = 2 * attempt"

section \<open>The callers\<close>

datatype hook_action = HA_Post | HA_Sleep nat

type_synonym 'a hk = "(hook_action list, webhook_error, 'a) eff"

definition act_log :: "hook_action \<Rightarrow> unit hk" where
  "act_log a = modifies (\<lambda>as. as @ [a])"

text \<open>The loop over the attempts that are left. The coordinator goes on after an error of the connection, and the
  caller of the library ends with it (\<open>keep_going\<close>).\<close>

fun attempt_loop :: "bool \<Rightarrow> (nat \<Rightarrow> nat option) \<Rightarrow> string \<Rightarrow> nat list \<Rightarrow> unit hk" where
  "attempt_loop keep_going answer url [] = throw (WE_MaxAttemptsExceeded url WEBHOOK_DEFAULT_MAX_ATTEMPTS)"
| "attempt_loop keep_going answer url (a # attempts) =
     (let current = a + 1; remaining = WEBHOOK_DEFAULT_MAX_ATTEMPTS - current
      in and_then (act_log HA_Post) (\<lambda>_.
         case answer a of
           None \<Rightarrow> if keep_going then attempt_loop keep_going answer url attempts
             else throw (WE_MaxAttemptsExceeded url WEBHOOK_DEFAULT_MAX_ATTEMPTS)
         | Some status \<Rightarrow>
             if is_success status then ret ()
             else if \<not> is_retryable status then throw (WE_NonRetryableError url status)
             else if \<not> should_retry (Some status) remaining then throw (WE_MaxAttemptsExceeded url WEBHOOK_DEFAULT_MAX_ATTEMPTS)
             else and_then (act_log (HA_Sleep (backoff_duration current))) (\<lambda>_. attempt_loop keep_going answer url attempts)))"

definition call_webhook_async :: "(string + unit) \<Rightarrow> (string + unit) \<Rightarrow> (nat \<Rightarrow> nat option) \<Rightarrow> webhook \<Rightarrow> unit hk" where
  "call_webhook_async serialized client answer wh =
     and_then (lift_res (ok_or (wb_url wh) (WE_NonRetryableError ''missing url'' 0))) (\<lambda>url.
     and_then (lift_res (map_err (\<lambda>_. WE_SerializationError) serialized)) (\<lambda>_.
     and_then (lift_res (map_err (\<lambda>_. WE_ClientBuildError) client)) (\<lambda>_.
       attempt_loop True answer url [0..<WEBHOOK_DEFAULT_MAX_ATTEMPTS])))"

definition call_async :: "(string + unit) \<Rightarrow> (nat \<Rightarrow> nat option) \<Rightarrow> webhook \<Rightarrow> unit hk" where
  "call_async serialized answer wh =
     and_then (lift_res (ok_or (wb_url wh) (WE_NonRetryableError ''missing url'' 0))) (\<lambda>url.
     and_then (lift_res (map_err (\<lambda>_. WE_SerializationError) serialized)) (\<lambda>_.
       attempt_loop False answer url [0..<WEBHOOK_DEFAULT_MAX_ATTEMPTS]))"

section \<open>What a call does\<close>

text \<open>An attempt decides the call if it is answered with a success or a status that is not retried.\<close>

definition decides :: "(nat \<Rightarrow> nat option) \<Rightarrow> nat \<Rightarrow> bool" where
  "decides answer a \<longleftrightarrow> (case answer a of None \<Rightarrow> False | Some st \<Rightarrow> is_success st \<or> \<not> is_retryable st)"

text \<open>An undecided attempt that is not the last waits, if it was answered.\<close>

definition waits :: "(nat \<Rightarrow> nat option) \<Rightarrow> nat \<Rightarrow> hook_action list" where
  "waits answer a = (if answer a = None \<or> 4 \<le> a then [] else [HA_Sleep (2 * (a + 1))])"

definition call_outcome :: "(nat \<Rightarrow> nat option) \<Rightarrow> string \<Rightarrow> webhook_error + unit" where
  "call_outcome answer url =
     (case find (decides answer) [0..<5] of
        None \<Rightarrow> Inl (WE_MaxAttemptsExceeded url 5)
      | Some a \<Rightarrow> if is_success (the (answer a)) then Inr () else Inl (WE_NonRetryableError url (the (answer a))))"

definition call_actions :: "(nat \<Rightarrow> nat option) \<Rightarrow> hook_action list" where
  "call_actions answer =
     concat (map (\<lambda>a. HA_Post # waits answer a) (takeWhile (\<lambda>a. \<not> decides answer a) [0..<5])) @
     (if \<exists>a < 5. decides answer a then [HA_Post] else [])"

lemma attempts_spec:
  assumes "attempts = [n..<5]" "n \<le> 5"
  shows "attempt_loop True answer url attempts as =
    ((case find (decides answer) attempts of
        None \<Rightarrow> Inl (WE_MaxAttemptsExceeded url 5)
      | Some a \<Rightarrow> if is_success (the (answer a)) then Inr () else Inl (WE_NonRetryableError url (the (answer a)))),
     as @ concat (map (\<lambda>a. HA_Post # waits answer a) (takeWhile (\<lambda>a. \<not> decides answer a) attempts)) @
       (if \<exists>a \<in> set attempts. decides answer a then [HA_Post] else []))"
  using assms
proof (induction attempts arbitrary: n as)
  case Nil
  then show ?case by (simp add: throw_def WEBHOOK_DEFAULT_MAX_ATTEMPTS_def)
next
  case (Cons a attempts)
  then have n: "n < 5" "a = n" "attempts = [Suc n..<5]"
    using Cons.prems(1) by (cases "n < 5"; simp add: upt_conv_Cons)+
  note IH = Cons.IH [OF n(3)]
  have no_retry: "\<not> should_retry (Some st) (WEBHOOK_DEFAULT_MAX_ATTEMPTS - Suc n) \<longleftrightarrow> n = 4"
    if "is_retryable st" "\<not> is_success st" for st
    using that n(1) by (simp add: should_retry_def WEBHOOK_DEFAULT_MAX_ATTEMPTS_def) linarith
  show ?case
  proof (cases "answer n")
    case None
    then show ?thesis
      using n(1) IH [of "as @ [HA_Post]"]
      by (simp add: n(2) and_then_def act_log_def modifies_def decides_def waits_def)
  next
    case (Some st)
    consider "is_success st" | "\<not> is_success st" "\<not> is_retryable st" | "\<not> is_success st" "is_retryable st" by blast
    then show ?thesis
    proof cases
      case 3
      then show ?thesis
      proof (cases "n = 4")
        case True
        then have "attempts = []" by (simp add: n(3))
        then show ?thesis
          using 3 Some True no_retry [OF 3(2,1)]
          by (simp add: n(2) and_then_def act_log_def modifies_def decides_def waits_def throw_def WEBHOOK_DEFAULT_MAX_ATTEMPTS_def)
      next
        case False
        then show ?thesis
          using 3 Some n(1) no_retry [OF 3(2,1)] IH [of "as @ [HA_Post, HA_Sleep (2 * Suc n)]"]
          by (simp add: n(2) and_then_def act_log_def modifies_def decides_def waits_def backoff_duration_def)
      qed
    qed (use Some in \<open>simp_all add: n(2) and_then_def act_log_def modifies_def decides_def ret_def throw_def\<close>)
  qed
qed

text \<open>C37. A webhook of the coordinator is posted at most five times, until an answer decides it: a status of success
  ends the call well, one that is not retried ends it with that status, and after five undecided attempts it fails.
  An answer that is retried is waited for two seconds more each time, the last one not at all; an error of the connection
  is followed by the next attempt at once.\<close>

theorem webhook_call_spec:
  "call_webhook_async (Inr ()) (Inr ()) answer (wh\<lparr>wb_url := Some url\<rparr>) [] = (call_outcome answer url, call_actions answer)"
  unfolding call_webhook_async_def WEBHOOK_DEFAULT_MAX_ATTEMPTS_def
  using attempts_spec [of "[0..<5]" 0 answer url "[]"]
  by (simp add: and_then_def lift_res_def ok_or_def call_outcome_def call_actions_def del: upt_rec_numeral)

text \<open>The caller of the library ends at the first error of the connection.\<close>

lemma library_gives_up:
  "answer 0 = None \<Longrightarrow> call_async (Inr ()) answer (wh\<lparr>wb_url := Some url\<rparr>) [] = (Inl (WE_MaxAttemptsExceeded url 5), [HA_Post])"
  by (simp add: call_async_def and_then_def lift_res_def ok_or_def WEBHOOK_DEFAULT_MAX_ATTEMPTS_def upt_rec [of 0] act_log_def
      modifies_def throw_def del: upt_rec_numeral)

section \<open>Which webhooks are called\<close>

text \<open>The events of the coordinator.\<close>

definition fired_events :: "string list" where
  "fired_events = [''job.Scheduled'', ''job.Completed'', ''task.Started'', ''task.Completed'', ''task.Failed'', ''task.Error'']"

fun hook_event :: "hook \<Rightarrow> string option" where
  "hook_event (JobHook wh j) = wb_event wh"
| "hook_event (TaskHook wh t) = wb_event wh"

definition hooks_ok :: "world \<Rightarrow> bool" where
  "hooks_ok w \<longleftrightarrow> (\<forall>h \<in> set (w_hooks w). hook_event h \<in> Some ` set fired_events)"

named_theorems hook_intros

lemma keeps_hooks:
  "(\<And>w. w_hooks (snd (m w)) = w_hooks w) \<Longrightarrow> keeps hooks_ok m"
  by (simp add: keeps_def hooks_ok_def)

lemma hooks_plain [hook_intros]:
  "keeps hooks_ok (now_utc env)" "keeps hooks_ok (broker_do env f)" "keeps hooks_ok (modifies (w_bk_update g))"
  "keeps hooks_ok (modifies (w_uuids_update Suc))" "keeps hooks_ok (modifies (w_cron_jobs_update g3))"
  "keeps hooks_ok (modifies (w_cron_calls_update g4))" "keeps hooks_ok (modifies (w_stopped_update g5))"
  "keeps hooks_ok (new_short_uuid env)"
  by (rule keeps_hooks; simp add: now_utc_def broker_do_def modifies_def new_short_uuid_def Let_def split: option.split)+

lemma hooks_ds [hook_intros]:
  "keeps hooks_ok (ds_do m)" "keeps hooks_ok (ds_call m)" "keeps hooks_ok (jh_ds m)"
  by (rule keeps_hooks; simp add: ds_do_run ds_call_run jh_ds_def eff_map_err_def split: prod.splits)+

lemma hooks_publish [hook_intros]:
  "keeps hooks_ok (broker_publish_task env q t)" "keeps hooks_ok (broker_publish_tasks env q ts)"
  "keeps hooks_ok (broker_publish_job env j)" "keeps hooks_ok (broker_publish_event env topic v)"
  by (simp_all add: broker_publish_task_def broker_publish_tasks_def broker_publish_job_def broker_publish_event_def hook_intros)

lemma matching_events: "wh \<in> set (matching_webhooks j ev) \<Longrightarrow> wb_event wh = Some ev"
  by (auto simp: matching_webhooks_def split: option.splits)

lemma hooks_fire [hook_intros]:
  assumes "ev \<in> set fired_events"
  shows "keeps hooks_ok (fire_job_webhooks j ev)" "keeps hooks_ok (fire_task_webhooks t ev)"
proof -
  show "keeps hooks_ok (fire_job_webhooks j ev)"
    using assms matching_events by (fastforce simp: fire_job_webhooks_def keeps_def modifies_def hooks_ok_def)
  have "keeps hooks_ok (modifies (w_hooks_update (\<lambda>hs. hs @ map (\<lambda>wh. TaskHook wh s) (matching_webhooks j ev))))" for s j
    using assms matching_events by (fastforce simp: keeps_def modifies_def hooks_ok_def)
  then show "keeps hooks_ok (fire_task_webhooks t ev)"
    unfolding fire_task_webhooks_def Let_def by (intro keeps_intros hook_intros)
qed

lemma fired_names [hook_intros]:
  "''job.Scheduled'' \<in> set fired_events" "''job.Completed'' \<in> set fired_events" "''task.Started'' \<in> set fired_events"
  "''task.Completed'' \<in> set fired_events" "''task.Failed'' \<in> set fired_events" "''task.Error'' \<in> set fired_events"
  by (simp_all add: fired_events_def)

lemma hooks_collect [hook_intros]: "(\<And>x. keeps hooks_ok (f x)) \<Longrightarrow> keeps hooks_ok (eff_collect f xs)"
  by (induction xs) (auto intro: keeps_intros)

lemma hooks_subtask [hook_intros]: "keeps hooks_ok (build_subtask env c t cx j p now)"
  unfolding build_subtask_def by (intro keeps_intros hook_intros)

lemma hooks_publish_subtasks [hook_intros]: "keeps hooks_ok (create_and_publish_subtasks env ts)"
  unfolding create_and_publish_subtasks_def rollback_failed_publish_def by (intro keeps_intros hook_intros)

lemma hooks_schedule [hook_intros]: "keeps hooks_ok (schedule_task env t)"
proof -
  have "keeps hooks_ok (schedule_parallel_task env t)"
    unfolding schedule_parallel_task_def build_parallel_subtasks_def build_parallel_subtask_def mark_task_running_def Let_def
    by (intro keeps_intros hook_intros keeps_pair)
  moreover have "keeps hooks_ok (schedule_each_task env t)"
    unfolding schedule_each_task_def spawn_each_tasks_def build_subtask_with_base_def mark_each_task_running_def Let_def
    by (intro keeps_intros hook_intros keeps_pair)
  moreover have "keeps hooks_ok (schedule_subjob_task env t)"
    unfolding schedule_subjob_task_def Let_def by (intro keeps_intros hook_intros)
  moreover have "keeps hooks_ok (schedule_regular_task env t)"
    unfolding schedule_regular_task_def Let_def by (intro keeps_intros hook_intros)
  ultimately show ?thesis unfolding schedule_task_def by (intro keeps_intros)
qed

lemma hooks_pending [hook_intros]: "keeps hooks_ok (handle_pending_task env t)"
  unfolding handle_pending_task_def skip_task_def by (intro keeps_intros hook_intros keeps_task_id_of)

lemma hooks_completed [hook_intros]: "keeps hooks_ok (handle_task_completed env t)"
  unfolding handle_task_completed_def persist_completed_task_def route_completed_task_def handle_top_level_task_completed_def
    handle_subtask_completed_def handle_parallel_subtask_completed_def handle_each_subtask_completed_def count_subtask_def Let_def
  by (intro keeps_intros hook_intros keeps_task_id_of)

lemma hooks_fail_up [hook_intros]: "keeps hooks_ok (fail_up n env t)"
proof (induction n arbitrary: t)
  case 0
  then show ?case by (simp add: keeps_intros)
next
  case (Suc n)
  then show ?case
    unfolding fail_up.simps persist_failed_task_def route_failed_task_def handle_subtask_failed_def
      handle_top_level_task_failed_def
    by (intro keeps_intros hook_intros keeps_task_id_of)
qed

lemma hooks_failed [hook_intros]: "keeps hooks_ok (handle_task_failed env t)"
  using hooks_fail_up unfolding handle_task_failed_def keeps_def by blast

lemma hooks_error [hook_intros]: "keeps hooks_ok (handle_error env t)"
  unfolding handle_error_def persist_task_error_def create_retry_task_def Let_def
  by (intro keeps_intros hook_intros keeps_task_id_of)

lemma hooks_started [hook_intros]: "keeps hooks_ok (handle_started env t)"
  unfolding handle_started_def by (intro keeps_intros hook_intros keeps_task_id_of)

lemma hooks_redelivered [hook_intros]: "keeps hooks_ok (handle_redelivered env t)"
  unfolding handle_redelivered_def Let_def by (intro keeps_intros hook_intros keeps_task_id_of)

lemma hooks_progress [hook_intros]: "keeps hooks_ok (handle_task_progress env t)"
  unfolding handle_task_progress_def persist_task_progress_def
  by (cases "tk_state t"; simp; intro keeps_intros hook_intros keeps_task_id_of)

lemma hooks_cancel_tasks [hook_intros]: "keeps hooks_ok (cancel_active_tasks env i)"
  unfolding cancel_active_tasks_def cancel_task_def cancel_task_affinity_def Let_def
  by (intro keeps_intros hook_intros keeps_jh)

lemma hooks_job_event [hook_intros]: "keeps hooks_ok (handle_job_event env j)"
  unfolding handle_job_event_def handle_cancel_def cancel_parent_job_def fail_job_def publish_failed_parent_task_if_present_def
    mark_job_as_running_def complete_job_def job_id_of_def publish_completed_parent_task_def publish_job_completed_event_def
    start_job_def transition_job_to_scheduled_def build_pending_job_task_def restart_job_def Let_def
  by (cases "jb_state j"; simp; intro keeps_intros hook_intros keeps_jh keeps_pair)

lemma hooks_others [hook_intros]:
  "keeps hooks_ok (handle_heartbeat env n)" "keeps hooks_ok (handle_log_part p)" "keeps hooks_ok (submit_job env j)"
  unfolding handle_heartbeat_def handle_log_part_def submit_job_def Let_def
  by (intro keeps_intros hook_intros)+

lemma hooks_scheduled [hook_intros]: "keeps hooks_ok (handle_scheduled_job env sj)"
  unfolding handle_scheduled_job_def handle_active_def handle_paused_def Let_def
  by (cases "sc_state sj"; simp; intro keeps_intros hook_intros)

lemma hooks_handler: "keeps hooks_ok (run_handler env scheduled_of h msg)"
proof -
  have "keeps hooks_ok (case (h, msg) of
          (H_Pending, M_Task t) \<Rightarrow> handle_pending_task env t
        | (H_Completed, M_Task t) \<Rightarrow> handle_task_completed env t
        | (H_Error, M_Task t) \<Rightarrow> handle_error env t
        | (H_Started, M_Task t) \<Rightarrow> handle_started env t
        | (H_Redelivered, M_Task t) \<Rightarrow> handle_redelivered env t
        | (H_Progress, M_Task t) \<Rightarrow> handle_task_progress env t
        | (H_Job, M_Job j) \<Rightarrow> handle_job_event env j
        | (H_Heartbeat, M_Node n) \<Rightarrow> handle_heartbeat env n
        | (H_LogPart, M_LogPart p) \<Rightarrow> handle_log_part p
        | (H_ScheduledJob, M_Event v) \<Rightarrow>
            and_then (lift_res (map_err E_Msg (scheduled_of v))) (handle_scheduled_job env)
        | _ \<Rightarrow> ret ())"
    by (cases h; cases msg; simp; intro keeps_intros hook_intros)
  then show ?thesis unfolding run_handler_def keeps_def by (auto simp: ret_def)
qed

lemma hooks_trigger: "keeps hooks_ok (trigger_scheduled_job env sid)"
proof -
  have lock: "keeps hooks_ok (with_lock k m)" if "keeps hooks_ok m" for k and m :: "unit act"
    unfolding keeps_def
  proof (intro allI impI)
    fix w assume w: "hooks_ok w"
    have frame: "hooks_ok w2 \<Longrightarrow> hooks_ok (w2\<lparr>w_locker := l\<rparr>)" "hooks_ok w2 \<Longrightarrow> hooks_ok (w_locker_update g w2)" for w2 l g
      by (simp_all add: hooks_ok_def)
    obtain r l where al: "acquire_lock k (w_locker w) = (r, l)" by (cases "acquire_lock k (w_locker w)")
    obtain r' w2 where run: "m (w\<lparr>w_locker := l\<rparr>) = (r', w2)" by (cases "m (w\<lparr>w_locker := l\<rparr>)")
    have "hooks_ok w2" by (rule keepsD [OF that frame(1) [OF w] run])
    then show "hooks_ok (snd (with_lock k m w))"
      using al run frame w by (cases r) (simp_all add: with_lock_def)
  qed
  show ?thesis
    unfolding trigger_scheduled_job_def Let_def by (intro keeps_intros hook_intros lock)
qed

lemma hooks_reach: "coord_reach env scheduled_of w \<Longrightarrow> hooks_ok w"
proof (induction rule: coord_reach.induct)
  case start
  have "keeps hooks_ok coordinator_start"
    unfolding coordinator_start_def subscribe_task_handler_def by (intro keeps_intros hook_intros)
  moreover have "hooks_ok new_world" by (simp add: hooks_ok_def new_world_def)
  ultimately show ?case by (simp add: keeps_def)
next
  case (step w w')
  have by_keeps: "hooks_ok (snd (m w))" if "keeps hooks_ok m" for m :: "(world, 'e, 'b) eff"
    using that step.IH by (simp add: keeps_def)
  from step.hyps(2) show ?case
    by cases (use step.IH in \<open>simp_all add: by_keeps hook_intros hooks_handler hooks_trigger coordinator_stop_def\<close>,
      simp_all add: hooks_ok_def)
qed

text \<open>C32. However the handlers of the coordinator run, every webhook it has called was registered for one of the six
  events it fires. A webhook registered for an event that the library documents, or for the default event, is never called.\<close>

theorem documented_events_never_fire:
  "coord_reach env scheduled_of w \<Longrightarrow>
    hook_event ` set (w_hooks w) \<subseteq> Some ` set fired_events \<and>
    hook_event ` set (w_hooks w) \<inter> Some ` {EVENT_JOB_STATE_CHANGE, EVENT_JOB_PROGRESS, EVENT_TASK_STATE_CHANGE,
      EVENT_TASK_PROGRESS, EVENT_DEFAULT} = {}"
proof -
  assume "coord_reach env scheduled_of w"
  then have "hook_event ` set (w_hooks w) \<subseteq> Some ` set fired_events" using hooks_reach by (auto simp: hooks_ok_def)
  then show ?thesis
    by (auto simp: fired_events_def EVENT_JOB_STATE_CHANGE_def EVENT_JOB_PROGRESS_def EVENT_TASK_STATE_CHANGE_def
        EVENT_TASK_PROGRESS_def EVENT_DEFAULT_def)
qed

text \<open>A job with two webhooks is submitted and started: the one that asks for the event of the coordinator is called.\<close>

definition hook_of :: "string \<Rightarrow> webhook" where
  "hook_of ev = \<lparr>wb_url = Some ''http://x'', wb_headers = None, wb_event = Some ev, wb_if = None\<rparr>"

definition hook_job :: job where
  "hook_job = demo_pending\<lparr>jb_webhooks := Some [hook_of EVENT_JOB_STATE_CHANGE, hook_of ''job.Scheduled'']\<rparr>"

definition hook_submitted :: world where
  "hook_submitted = snd (submit_job demo_env hook_job (snd (coordinator_start new_world)))"

definition hook_started :: world where
  "hook_started = snd (run_handler demo_env (\<lambda>_. Inl []) H_Job (M_Job hook_job) hook_submitted)"

lemma hook_submitted_facts:
  "look_job (w_ds hook_submitted) demo_job_id = Some hook_job" "\<not> w_stopped hook_submitted" "w_uuids hook_submitted = 0"
  "bk_spawned (w_bk hook_submitted) = [(H_Job, M_Job hook_job)]"
  by code_simp+

lemma hook_started_reach: "coord_reach demo_env (\<lambda>_. Inl []) hook_started"
  unfolding hook_started_def
  by (rule coord_reach.step [OF coord_reach.step [OF coord_reach.start submit [where j = hook_job]]])
     (use hook_submitted_facts(4) in \<open>auto simp: hook_submitted_def intro: deliver\<close>)

lemma regular_hooks:
  assumes "parallel t = None" "each t = None" "subjob t = None" "\<not> should_skip_task t"
  shows "w_hooks (snd (handle_pending_task env t w)) = w_hooks w"
proof -
  have "keeps (\<lambda>w. w_hooks w = hs) (schedule_regular_task env t)" for hs
    unfolding schedule_regular_task_def Let_def
    by (intro keeps_intros)
       (simp_all add: keeps_def now_utc_def ds_do_run broker_publish_task_def broker_do_def Let_def
         split: prod.split option.split)
  then show ?thesis using assms by (simp add: handle_pending_task_def schedule_task_def keeps_def)
qed

lemma hook_started_hooks: "w_hooks hook_started = w_hooks hook_submitted @ [JobHook (hook_of ''job.Scheduled'') hook_job]"
proof -
  let ?t = "upd_hdr (\<lambda>h. h\<lparr>th_id := Some (short_id demo_env 0), th_job_id := Some demo_job_id, th_state := TS_Pending,
         th_position := 1, th_created_at := Some (ce_now demo_env (w_clock hook_submitted))\<rparr>) demo_task"
  have j: "jb_tasks hook_job = Some [demo_task]" "jb_id hook_job = Some demo_job_id" "jb_state hook_job = JS_Pending"
    "matching_webhooks hook_job ''job.Scheduled'' = [hook_of ''job.Scheduled'']"
    by (simp_all add: hook_job_def demo_pending_def default_job_def matching_webhooks_def hook_of_def EVENT_JOB_STATE_CHANGE_def)
  have t: "parallel ?t = None" "each ?t = None" "subjob ?t = None" "\<not> should_skip_task ?t" "tk_id ?t = Some (short_id demo_env 0)"
    by (simp_all add: demo_task_def should_skip_task_def default_hdr_def)
  let ?w = "hook_submitted\<lparr>w_clock := Suc (w_clock hook_submitted), w_ds := put_job demo_job_id
    (set_job_scheduled (ce_now demo_env (w_clock hook_submitted)) hook_job) (w_ds hook_submitted), w_uuids := 1\<rparr>"
  obtain s where s: "ds_do (create_task ?t) ?w = (Inr (), ?w\<lparr>w_ds := s\<rparr>)"
    by (rule ds_create_task [OF t(5), of ?w])
  let ?fired = "w_hooks_update (\<lambda>hs. hs @ [JobHook (hook_of ''job.Scheduled'') hook_job]) (?w\<lparr>w_ds := s\<rparr>)"
  have "start_job demo_env hook_job hook_submitted = handle_pending_task demo_env ?t ?fired"
    using j s hook_submitted_facts(1,3)
    by (simp add: start_job_def list_get_def run_simps Let_def job_id_of_def transition_job_to_scheduled_def
        build_pending_job_task_def demo_evaluated new_id_run fire_job_webhooks_def)
  then show ?thesis
    using j(3) hook_submitted_facts(2) regular_hooks [OF t(1-4), of demo_env ?fired]
    by (simp add: hook_started_def run_handler_def handle_job_event_def)
qed

theorem documented_events_never_fire_witness:
  "hook_event ` set (w_hooks hook_started) \<subseteq> Some ` set fired_events \<and> w_hooks hook_started \<noteq> []"
  using documented_events_never_fire [OF hook_started_reach] by (simp add: hook_started_hooks)

end
