(* ===== verification/Runtimes.thy ===== *)
theory Runtimes
  imports Docker_Run
begin

text \<open>
  The choice of a runtime (\<open>twerk-app/src/engine/worker/runtime_adapter.rs\<close>), the mounters it registers
  (\<open>infrastructure/src/runtime/mod.rs\<close>, \<open>engine/worker/mounter.rs\<close>), the Podman runtime (\<open>engine/worker/podman.rs\<close>), and the
  registry of endpoints (\<open>engine/endpoints.rs\<close>). What the commands of Podman answer is an argument.
\<close>

section \<open>Mounters\<close>

datatype mounter = MO_Bind mount_policy | MO_Volume | MO_Tmpfs

datatype mount_failure = MF_Mounter mounter_error | MF_DirCreation string string

text \<open>A bind mounter creates the directory it mounts if that is missing; the creation is an argument.\<close>

definition mount_with :: "(string \<Rightarrow> string + unit) \<Rightarrow> mounter \<Rightarrow> mount \<Rightarrow> mount_failure + unit" where
  "mount_with create_dir mo m =
     (case mo of
        MO_Bind policy \<Rightarrow> res_bind (map_err MF_Mounter (bind_mount policy m)) (\<lambda>src. map_err (MF_DirCreation src) (create_dir src))
      | MO_Volume \<Rightarrow> map_err MF_Mounter (volume_mount m)
      | MO_Tmpfs \<Rightarrow> map_err MF_Mounter (tmpfs_mount m))"

text \<open>The name a mounter is registered under is not kept.\<close>

definition register_mounter :: "string \<Rightarrow> mounter \<Rightarrow> mounter list \<Rightarrow> mounter list" where
  "register_mounter name mo ms = ms @ [mo]"

definition multi_mount :: "(string \<Rightarrow> string + unit) \<Rightarrow> mounter list \<Rightarrow> mount \<Rightarrow> mount_failure + unit" where
  "multi_mount create_dir ms m = first_error (map (\<lambda>mo. mount_with create_dir mo m) ms)"

section \<open>The choice of a runtime\<close>

record runtime_config =
  rt_runtime_type :: string
  rt_docker_privileged :: bool
  rt_docker_image_ttl_secs :: nat
  rt_docker_image_verify :: bool
  rt_docker_config :: string
  rt_shell_cmd :: "string list"
  rt_shell_uid :: string
  rt_shell_gid :: string
  rt_podman_privileged :: bool
  rt_podman_host_network :: bool
  rt_bind_allowed :: bool
  rt_bind_sources :: "string list"
  rt_hostenv_vars :: "string list"

record podman_config =
  pc_privileged :: bool
  pc_host_network :: bool
  pc_graceful_timeout :: nat
  pc_force_timeout :: nat
  pc_enable_cleanup :: bool

record container_handle =
  ch_id :: string
  ch_volumes :: "string list"

record podman =
  pd_config :: podman_config
  pd_active :: "(string \<times> container_handle) list"
  pd_commands :: "string list list"

definition read_timeout_env :: "(string \<Rightarrow> string option) \<Rightarrow> string \<Rightarrow> nat \<Rightarrow> nat" where
  "read_timeout_env var key d = (case Option.bind (var key) parse_usize of Some n \<Rightarrow> n | None \<Rightarrow> d)"

definition read_cleanup_env :: "(string \<Rightarrow> string option) \<Rightarrow> string \<Rightarrow> bool \<Rightarrow> bool" where
  "read_cleanup_env var key d =
     (case var key of Some v \<Rightarrow> to_ascii_lowercase v = ''true'' \<or> v = ''1'' | None \<Rightarrow> d)"

definition new_podman :: "(string \<Rightarrow> string option) \<Rightarrow> bool \<Rightarrow> bool \<Rightarrow> podman" where
  "new_podman var privileged host_network =
     \<lparr>pd_config = \<lparr>pc_privileged = privileged, pc_host_network = host_network,
        pc_graceful_timeout = read_timeout_env var ''TASK_STOP_GRACEFUL_TIMEOUT'' 30,
        pc_force_timeout = read_timeout_env var ''TASK_STOP_FORCE_TIMEOUT'' 5,
        pc_enable_cleanup = read_cleanup_env var ''TASK_STOP_ENABLE_CLEANUP'' True\<rparr>,
      pd_active = [], pd_commands = []\<rparr>"

text \<open>The docker adapter keeps its policy on privilege and the life of images, its mounters, and no active task.\<close>

datatype runtime_adapter =
    RA_Docker bool nat "mounter list"
  | RA_Shell "string list" string string
  | RA_Podman podman

datatype runtime_adapter_error = RA_UnknownRuntimeType string

definition docker_mounters :: "runtime_config \<Rightarrow> mounter list" where
  "docker_mounters config =
     register_mounter ''tmpfs'' MO_Tmpfs (register_mounter ''volume'' MO_Volume (register_mounter ''bind''
       (MO_Bind (if rt_bind_allowed config then MP_Allowed (rt_bind_sources config) else MP_Denied)) []))"

definition create_runtime_from_config ::
    "(string \<Rightarrow> string option) \<Rightarrow> runtime_config \<Rightarrow> runtime_adapter_error + runtime_adapter" where
  "create_runtime_from_config var config =
     (if rt_runtime_type config = ''docker'' then
        Inr (RA_Docker (rt_docker_privileged config) (rt_docker_image_ttl_secs config) (docker_mounters config))
      else if rt_runtime_type config = ''shell'' then
        Inr (RA_Shell (if rt_shell_cmd config = [] then [''bash'', ''-c''] else rt_shell_cmd config)
          (rt_shell_uid config) (rt_shell_gid config))
      else if rt_runtime_type config = ''podman'' then
        Inr (RA_Podman (new_podman var (rt_podman_privileged config) (rt_podman_host_network config)))
      else Inl (RA_UnknownRuntimeType (rt_runtime_type config)))"

definition config_u64 :: "config_state option \<Rightarrow> string \<Rightarrow> nat" where
  "config_u64 cfg k = (let v = sint (int_default cfg k 0) in if 0 \<le> v then nat v else 0)"

definition read_runtime_config :: "config_state option \<Rightarrow> runtime_config" where
  "read_runtime_config cfg =
     \<lparr>rt_runtime_type = string_default cfg ''runtime.type'' ''docker'',
      rt_docker_privileged = conf_bool cfg ''runtime.docker.privileged'',
      rt_docker_image_ttl_secs = config_u64 cfg ''runtime.docker.image.ttl'',
      rt_docker_image_verify = conf_bool cfg ''runtime.docker.image.verify'',
      rt_docker_config = conf_string cfg ''runtime.docker.config'',
      rt_shell_cmd = strings_default cfg ''runtime.shell.cmd'' [''bash'', ''-c''],
      rt_shell_uid = string_default cfg ''runtime.shell.uid'' ''-'',
      rt_shell_gid = string_default cfg ''runtime.shell.gid'' ''-'',
      rt_podman_privileged = conf_bool cfg ''runtime.podman.privileged'',
      rt_podman_host_network = conf_bool cfg ''runtime.podman.host.network'',
      rt_bind_allowed = conf_bool cfg ''mounts.bind.allowed'',
      rt_bind_sources = conf_strings cfg ''mounts.bind.sources'',
      rt_hostenv_vars = conf_strings cfg ''middleware.task.hostenv.vars''\<rparr>"

section \<open>Podman\<close>

text \<open>
  A command answers that it could not be started (the text of the error), or whether it succeeded and what it wrote to its
  standard error; a stop or a removal may take longer than its time (\<open>pe_slow\<close>).
\<close>

record podman_env =
  pe_output :: "string list \<Rightarrow> string + bool \<times> string"
  pe_slow :: "string list \<Rightarrow> bool"

datatype podman_error = PO_IdAndImageRequired | PO_ExecutionFailed string | PO_Io string
  | PO_TerminationFailed string | PO_ShutdownTimeout nat

type_synonym 'a po = "(podman, podman_error, 'a) eff"

definition podman_command :: "podman_env \<Rightarrow> string list \<Rightarrow> (string + bool \<times> string) po" where
  "podman_command env args = and_then (modifies (pd_commands_update (\<lambda>cs. cs @ [args]))) (\<lambda>_. ret (pe_output env args))"

text \<open>The variables of the task are those of the process \<open>podman\<close>, and are not among its arguments.\<close>

definition podman_args :: "podman_config \<Rightarrow> task \<Rightarrow> string list" where
  "podman_args config t =
     [''run''] @ (if pc_privileged config then [''--privileged''] else []) @
     (if pc_host_network config then [''--network'', ''host''] else []) @
     [case th_image (hdr t) of Some i \<Rightarrow> i | None \<Rightarrow> []] @
     (case th_cmd (hdr t) of Some cmd \<Rightarrow> cmd | None \<Rightarrow> []) @
     (case th_workdir (hdr t) of Some w \<Rightarrow> [''--workdir'', w] | None \<Rightarrow> [])"

definition podman_run :: "podman_env \<Rightarrow> task \<Rightarrow> string option po" where
  "podman_run env t =
     (if tk_id t \<in> {None, Some []} \<or> th_image (hdr t) \<in> {None, Some []} then throw PO_IdAndImageRequired
      else and_then (asks (\<lambda>p. podman_args (pd_config p) t)) (\<lambda>args.
        and_then (podman_command env args) (\<lambda>out.
          case out of
            Inl e \<Rightarrow> throw (PO_Io e)
          | Inr (success, stderr) \<Rightarrow> if success then ret None else throw (PO_ExecutionFailed stderr))))"

definition force_remove_container :: "podman_env \<Rightarrow> string \<Rightarrow> nat \<Rightarrow> unit po" where
  "force_remove_container env cid timeout =
     (let args = [''rm'', ''--force'', cid]
      in and_then (podman_command env args) (\<lambda>out.
         if pe_slow env args then throw (PO_ShutdownTimeout timeout)
         else case out of
             Inl e \<Rightarrow> throw (PO_TerminationFailed (''failed to execute podman rm: '' @ e))
           | Inr (success, stderr) \<Rightarrow>
               if success then ret () else throw (PO_TerminationFailed (''failed to remove container: '' @ stderr))))"

definition stop_container :: "podman_env \<Rightarrow> container_handle \<Rightarrow> nat \<Rightarrow> nat \<Rightarrow> unit po" where
  "stop_container env handle graceful force =
     (let args = [''stop'', ''--time'', show_nat graceful, ch_id handle]
      in and_then (podman_command env args) (\<lambda>out.
         if \<not> pe_slow env args \<and> (\<exists>stderr. out = Inr (True, stderr)) then ret ()
         else force_remove_container env (ch_id handle) force))"

definition cleanup_volumes :: "podman_env \<Rightarrow> string list \<Rightarrow> unit po" where
  "cleanup_volumes env volumes =
     for_each (\<lambda>v. if v = [] then ret () else ignore (podman_command env [''volume'', ''rm'', v])) volumes"

text \<open>The inner result is that of the stop; a container that cannot be removed is an error outside it.\<close>

definition podman_stop :: "podman_env \<Rightarrow> task \<Rightarrow> (shutdown_error + unit) po" where
  "podman_stop env t =
     (let task_id = (case tk_id t of Some i \<Rightarrow> i | None \<Rightarrow> [])
      in if task_id = [] then ret (Inl (SD_InvalidTaskId task_id))
         else if \<not> is_active (tk_state t) then ret (Inl (SD_TaskNotRunning (tk_state t)))
         else and_then (asks (\<lambda>p. map_of (pd_active p) task_id)) (\<lambda>found.
           case found of
             None \<Rightarrow> ret (Inr ())
           | Some handle \<Rightarrow> and_then (asks pd_config) (\<lambda>config.
               and_then (stop_container env handle (pc_graceful_timeout config) (pc_force_timeout config)) (\<lambda>_.
               and_then (modifies (pd_active_update (AList.delete task_id))) (\<lambda>_.
               and_then (if pc_enable_cleanup config then cleanup_volumes env (ch_volumes handle) else ret ()) (\<lambda>_.
                 ret (Inr ())))))))"

text \<open>Runs and stops in any order.\<close>

inductive podman_reach :: "podman \<Rightarrow> bool" where
  new: "podman_reach (new_podman var privileged host_network)"
| run: "podman_reach p \<Longrightarrow> podman_reach (snd (podman_run env t p))"
| stop: "podman_reach p \<Longrightarrow> podman_reach (snd (podman_stop env t p))"

section \<open>Endpoints\<close>

datatype path_pattern = PP_Param string | PP_Wildcard

record 'h pattern_entry =
  pn_method :: string
  pn_path_pattern :: path_pattern
  pn_path_template :: string
  pn_handler :: 'h

record 'h endpoint_registry =
  er_endpoints :: "(string \<times> 'h) list"
  er_patterns :: "'h pattern_entry list"

definition is_pattern :: "string \<Rightarrow> bool" where
  "is_pattern path \<longleftrightarrow> CHR '':'' \<in> set path \<or> suffix ''*'' path"

fun match_parts :: "string list \<Rightarrow> string list \<Rightarrow> (string \<times> string) list \<Rightarrow> (string \<times> string) list option" where
  "match_parts (t # ts) (p # ps) params =
     (if prefix '':'' t then match_parts ts ps (AList.update (drop 1 t) p params)
      else if t = p then match_parts ts ps params else None)"
| "match_parts _ _ params = Some params"

definition match_pattern :: "string \<Rightarrow> string \<Rightarrow> (string \<times> string) list option" where
  "match_pattern template path =
     (case strip_suffix ''*'' template of
        Some pre \<Rightarrow> if prefix pre path then Some [] else None
      | None \<Rightarrow> (let ts = split_on CHR ''/'' template; ps = split_on CHR ''/'' path
          in if length ts \<noteq> length ps then None else match_parts ts ps []))"

definition endpoint_key :: "string \<Rightarrow> string \<Rightarrow> string" where
  "endpoint_key method path = method @ '' '' @ path"

definition endpoint_register :: "string \<Rightarrow> string \<Rightarrow> 'h \<Rightarrow> 'h endpoint_registry \<Rightarrow> 'h endpoint_registry" where
  "endpoint_register method path handler r =
     (if is_pattern path then
        er_patterns_update (\<lambda>ps. ps @ [\<lparr>pn_method = method,
          pn_path_pattern = (if suffix ''*'' path then PP_Wildcard
            else PP_Param (case split_on CHR '':'' path of _ # p # _ \<Rightarrow> p | _ \<Rightarrow> [])),
          pn_path_template = path, pn_handler = handler\<rparr>]) r
      else er_endpoints_update (AList.update (endpoint_key method path) handler) r)"

definition endpoint_get :: "string \<Rightarrow> string \<Rightarrow> 'h endpoint_registry \<Rightarrow> 'h option" where
  "endpoint_get method path r = map_of (er_endpoints r) (endpoint_key method path)"

fun first_match :: "string \<Rightarrow> string \<Rightarrow> 'h pattern_entry list \<Rightarrow> ('h \<times> (string \<times> string) list) option" where
  "first_match method path [] = None"
| "first_match method path (e # es) =
     (case (if pn_method e = method then match_pattern (pn_path_template e) path else None) of
        Some params \<Rightarrow> Some (pn_handler e, params) | None \<Rightarrow> first_match method path es)"

definition endpoint_get_with_pattern ::
    "string \<Rightarrow> string \<Rightarrow> 'h endpoint_registry \<Rightarrow> ('h \<times> (string \<times> string) list) option" where
  "endpoint_get_with_pattern method path r =
     (case endpoint_get method path r of Some h \<Rightarrow> Some (h, []) | None \<Rightarrow> first_match method path (er_patterns r))"

definition endpoint_contains :: "string \<Rightarrow> string \<Rightarrow> 'h endpoint_registry \<Rightarrow> bool" where
  "endpoint_contains method path r \<longleftrightarrow>
     endpoint_get method path r \<noteq> None \<or>
     list_ex (\<lambda>e. pn_method e = method \<and> match_pattern (pn_path_template e) path \<noteq> None) (er_patterns r)"

section \<open>What the runtimes do\<close>

lemma first_error_ok: "first_error rs = Inr () \<longleftrightarrow> (\<forall>r \<in> set rs. \<not> isl r)"
  by (induction rs rule: first_error.induct) auto

text \<open>C36. The mounters that are registered for the docker runtime are all asked for every mount, whatever its type. A mount
  that all of them grant has an id, a target and no source: no bind mount and no volume with a source could be mounted,
  and nothing at all if bind mounts are not allowed.\<close>

theorem mounters_grant_little:
  "multi_mount create_dir (docker_mounters config) m = Inr () \<Longrightarrow>
    rt_bind_allowed config \<and> mt_source m \<in> {None, Some []} \<and> mt_target m \<notin> {None, Some []} \<and> mt_id m \<notin> {None, Some []}"
  unfolding multi_mount_def first_error_ok
  by (auto simp: docker_mounters_def register_mounter_def mount_with_def bind_mount_def volume_mount_def tmpfs_mount_def
      res_bind_def map_err_def Let_def split: if_splits)

definition open_config :: runtime_config where
  "open_config = (read_runtime_config None)\<lparr>rt_bind_allowed := True\<rparr>"

definition bare_mount :: mount where
  "bare_mount = \<lparr>mt_id = Some ''m1'', mt_type = Some ''tmpfs'', mt_source = None, mt_target = Some ''/tmp'', mt_opts = None\<rparr>"

theorem mounters_grant_little_witness:
  "rt_bind_allowed open_config \<and> mt_source bare_mount \<in> {None, Some []} \<and> mt_target bare_mount \<notin> {None, Some []} \<and>
    mt_id bare_mount \<notin> {None, Some []}"
proof (rule mounters_grant_little)
  show "multi_mount (\<lambda>_. Inr ()) (docker_mounters open_config) bare_mount = Inr ()"
    by (simp add: multi_mount_def docker_mounters_def register_mounter_def mount_with_def bind_mount_def volume_mount_def
        tmpfs_mount_def open_config_def bare_mount_def read_runtime_config_def conf_strings_def res_bind_def)
qed

lemma podman_run_keeps_active: "pd_active (snd (podman_run env t p)) = pd_active p"
  by (simp add: podman_run_def podman_command_def eff_simps split: sum.split prod.split)

lemma podman_never_active: "podman_reach p \<Longrightarrow> pd_active p = []"
proof (induction rule: podman_reach.induct)
  case (stop p env t)
  then show ?case by (simp add: podman_stop_def eff_simps Let_def)
qed (simp_all add: new_podman_def podman_run_keeps_active)

text \<open>C35. However tasks are run and stopped on Podman, a stop of a running task answers with success and does nothing: no
  container is ever registered, and no command to stop or remove one is run.\<close>

theorem podman_never_stops:
  "podman_reach p \<Longrightarrow> tk_id t = Some i \<Longrightarrow> i \<noteq> [] \<Longrightarrow> is_active (tk_state t) \<Longrightarrow> podman_stop env t p = (Inr (Inr ()), p)"
  by (simp add: podman_stop_def podman_never_active eff_simps)

text \<open>After a run.\<close>

definition podman_ran :: podman where
  "podman_ran = snd (podman_run \<lparr>pe_output = \<lambda>_. Inr (True, []), pe_slow = \<lambda>_. False\<rparr> image_task (new_podman (\<lambda>_. None) False False))"

theorem podman_never_stops_witness:
  "podman_stop \<lparr>pe_output = \<lambda>_. Inr (True, []), pe_slow = \<lambda>_. False\<rparr>
     (upd_hdr (\<lambda>h. h\<lparr>th_state := TS_Running\<rparr>) image_task) podman_ran = (Inr (Inr ()), podman_ran)"
  by (rule podman_never_stops [where i = "''t1''"])
     (simp_all add: podman_ran_def podman_reach.run podman_reach.new image_task_def)

text \<open>The working directory comes after the image, where it is an argument of the command in the container.\<close>

lemma workdir_is_argument:
  "th_image (hdr t) = Some i \<Longrightarrow> th_cmd (hdr t) = Some cmd \<Longrightarrow> th_workdir (hdr t) = Some w \<Longrightarrow>
    \<exists>options. podman_args config t = options @ i # cmd @ [''--workdir'', w]"
  by (simp add: podman_args_def)

lemma endpoint_found: "endpoint_contains method path r \<longleftrightarrow> endpoint_get_with_pattern method path r \<noteq> None"
proof -
  have "list_ex (\<lambda>e. pn_method e = method \<and> match_pattern (pn_path_template e) path \<noteq> None) es \<longleftrightarrow> first_match method path es \<noteq> None" for es :: "'a pattern_entry list"
    by (induction es) (auto split: option.splits)
  then show ?thesis by (auto simp: endpoint_contains_def endpoint_get_with_pattern_def split: option.split)
qed

end
