(* ===== verification/Locker_Postgres.thy ===== *)
theory Locker_Postgres
  imports Locker Effects "HOL-Library.AList"
begin

text \<open>
  The locker over PostgreSQL (\<open>twerk-infrastructure/src/locker/postgres.rs\<close>): a pool of connections, and a lock that is an
  advisory lock of an open transaction on a connection taken out of the pool. The server is a state of any type with an
  operation for each call of the client; sessions are numbers. The clock is the first argument of an operation.
\<close>

section \<open>The pool\<close>

record pg_options =
  po_max_open_conns :: "nat option"
  po_max_idle_conns :: "nat option"
  po_conn_max_lifetime :: "nat option"
  po_conn_max_idle_time :: "nat option"

definition default_pg_options :: pg_options where
  "default_pg_options = \<lparr>po_max_open_conns = None, po_max_idle_conns = None, po_conn_max_lifetime = None,
     po_conn_max_idle_time = None\<rparr>"

record 's pg_server =
  ps_connect :: "('s, string, nat) eff"
  ps_begin :: "nat \<Rightarrow> ('s, string, unit) eff"
  ps_try_lock :: "nat \<Rightarrow> i64 \<Rightarrow> ('s, string, bool) eff"
  ps_rollback :: "nat \<Rightarrow> 's \<Rightarrow> 's"
  ps_close :: "nat \<Rightarrow> 's \<Rightarrow> 's"
  ps_sha256 :: "string \<Rightarrow> u8 list"

record idle_connection =
  ic_client :: nat
  ic_created_at :: nat
  ic_last_used :: nat

record 's pg_pool =
  pp_idle :: "idle_connection list"
  pp_open_count :: nat
  pp_server :: 's

record postgres_lock =
  pk_client :: nat
  pk_created_at :: nat

definition max_open :: "pg_options \<Rightarrow> nat" where
  "max_open opts = (case po_max_open_conns opts of Some n \<Rightarrow> n | None \<Rightarrow> 100)"

text \<open>The first eight bytes of the hash, the most significant first.\<close>

definition hash_key :: "'s pg_server \<Rightarrow> string \<Rightarrow> i64" where
  "hash_key env key = word_of_nat (fold (\<lambda>b n. 256 * n + unat b) (take 8 (ps_sha256 env key)) 0)"

definition close_client :: "'s pg_server \<Rightarrow> nat \<Rightarrow> 's pg_pool \<Rightarrow> 's pg_pool" where
  "close_client env c p = p\<lparr>pp_server := ps_close env c (pp_server p)\<rparr>"

definition too_old :: "pg_options \<Rightarrow> nat \<Rightarrow> idle_connection \<Rightarrow> bool" where
  "too_old opts now ic \<longleftrightarrow>
     (case po_conn_max_idle_time opts of Some t \<Rightarrow> t < now - ic_last_used ic | None \<Rightarrow> False) \<or>
     (case po_conn_max_lifetime opts of Some t \<Rightarrow> t < now - ic_created_at ic | None \<Rightarrow> False)"

text \<open>The idle connections, the last one first: those too old are closed, the first that is not is taken.\<close>

fun take_idle :: "pg_options \<Rightarrow> 's pg_server \<Rightarrow> nat \<Rightarrow> idle_connection list \<Rightarrow> 's pg_pool \<Rightarrow> idle_connection option \<times> 's pg_pool" where
  "take_idle opts env now [] p = (None, p\<lparr>pp_idle := []\<rparr>)"
| "take_idle opts env now (ic # ics) p =
     (if too_old opts now ic then
        take_idle opts env now ics ((close_client env (ic_client ic) p)\<lparr>pp_open_count := pp_open_count p - 1\<rparr>)
      else (Some ic, p\<lparr>pp_idle := rev ics\<rparr>))"

text \<open>A connection is counted before it is made.\<close>

definition pool_get :: "pg_options \<Rightarrow> 's pg_server \<Rightarrow> nat \<Rightarrow> ('s pg_pool, lock_error, postgres_lock) eff" where
  "pool_get opts env now p =
     (case take_idle opts env now (rev (pp_idle p)) p of
        (Some ic, p) \<Rightarrow> (Inr \<lparr>pk_client = ic_client ic, pk_created_at = ic_created_at ic\<rparr>, p)
      | (None, p) \<Rightarrow>
          if max_open opts \<le> pp_open_count p
          then (Inl (LockConnection (''pool exhausted: max_open_conns='' @ show_nat (max_open opts) @ '' reached'')), p)
          else (case ps_connect env (pp_server p) of
              (Inl e, s) \<Rightarrow> (Inl (LockConnection e), p\<lparr>pp_open_count := Suc (pp_open_count p), pp_server := s\<rparr>)
            | (Inr c, s) \<Rightarrow> (Inr \<lparr>pk_client = c, pk_created_at = now\<rparr>,
                p\<lparr>pp_open_count := Suc (pp_open_count p), pp_server := s\<rparr>)))"

definition pool_put :: "pg_options \<Rightarrow> 's pg_server \<Rightarrow> nat \<Rightarrow> postgres_lock \<Rightarrow> 's pg_pool \<Rightarrow> 's pg_pool" where
  "pool_put opts env now l p =
     (if (case po_max_idle_conns opts of Some n \<Rightarrow> n \<le> length (pp_idle p) | None \<Rightarrow> False)
      then (close_client env (pk_client l) p)\<lparr>pp_open_count := pp_open_count p - 1\<rparr>
      else p\<lparr>pp_idle := pp_idle p @ [\<lparr>ic_client = pk_client l, ic_created_at = pk_created_at l, ic_last_used = now\<rparr>]\<rparr>)"

section \<open>Locks\<close>

definition on_pg :: "('s, string, 'a) eff \<Rightarrow> ('s pg_pool, string, 'a) eff" where
  "on_pg = zoom pp_server (\<lambda>s p. p\<lparr>pp_server := s\<rparr>)"

text \<open>On an error, and if the lock is not granted, the client goes out of scope, which closes its connection; the
  connections that are open are not counted down.\<close>

definition acquire_advisory_lock ::
    "'s pg_server \<Rightarrow> string \<Rightarrow> i64 \<Rightarrow> postgres_lock \<Rightarrow> ('s pg_pool, lock_error, postgres_lock) eff" where
  "acquire_advisory_lock env key h l =
     (let c = pk_client l; failed = (\<lambda>e. and_then (modifies (close_client env c)) (\<lambda>_. throw e))
      in on_error
        (and_then (eff_map_err (LockTransaction key) (on_pg (ps_begin env c))) (\<lambda>_.
         and_then (eff_map_err (LockTransaction key) (on_pg (ps_try_lock env c h))) (\<lambda>lock_acquired.
           if lock_acquired then ret l
           else and_then (modifies (\<lambda>p. p\<lparr>pp_server := ps_rollback env c (pp_server p)\<rparr>)) (\<lambda>_. throw (AlreadyLocked key)))))
        failed)"

definition pg_acquire_lock :: "pg_options \<Rightarrow> 's pg_server \<Rightarrow> nat \<Rightarrow> string \<Rightarrow> ('s pg_pool, lock_error, postgres_lock) eff" where
  "pg_acquire_lock opts env now key =
     and_then (pool_get opts env now) (\<lambda>l. acquire_advisory_lock env key (hash_key env key) l)"

definition pg_release_lock :: "pg_options \<Rightarrow> 's pg_server \<Rightarrow> nat \<Rightarrow> postgres_lock \<Rightarrow> 's pg_pool \<Rightarrow> 's pg_pool" where
  "pg_release_lock opts env now l p =
     pool_put opts env now l (p\<lparr>pp_server := ps_rollback env (pk_client l) (pp_server p)\<rparr>)"

text \<open>A lock that is dropped puts its connection back as it is.\<close>

definition pg_drop_lock :: "pg_options \<Rightarrow> 's pg_server \<Rightarrow> nat \<Rightarrow> postgres_lock \<Rightarrow> 's pg_pool \<Rightarrow> 's pg_pool" where
  "pg_drop_lock opts env now l p = pool_put opts env now l p"

section \<open>What the server promises\<close>

text \<open>
  Advisory locks of PostgreSQL: \<open>alive s\<close> are the sessions, \<open>holder s h\<close> the one that holds a lock. A session that tries
  gets the lock unless another holds it; its locks go with the end of its transaction or of its connection. \<open>BEGIN\<close>
  inside a transaction changes nothing.
\<close>

definition without :: "nat \<Rightarrow> (i64 \<Rightarrow> nat option) \<Rightarrow> i64 \<Rightarrow> nat option" where
  "without c f h = (if f h = Some c then None else f h)"

definition sessions_open :: "'s pg_server \<Rightarrow> ('s \<Rightarrow> nat set) \<Rightarrow> ('s \<Rightarrow> i64 \<Rightarrow> nat option) \<Rightarrow> bool" where
  "sessions_open env alive holder \<longleftrightarrow> (\<forall>s. \<exists>c s'. ps_connect env s = (Inr c, s') \<and> c \<notin> alive s \<and> alive s' = insert c (alive s) \<and>
     holder s' = holder s)"

definition begins_freely :: "'s pg_server \<Rightarrow> ('s \<Rightarrow> nat set) \<Rightarrow> ('s \<Rightarrow> i64 \<Rightarrow> nat option) \<Rightarrow> bool" where
  "begins_freely env alive holder \<longleftrightarrow> (\<forall>s c. \<exists>s'. ps_begin env c s = (Inr (), s') \<and> alive s' = alive s \<and> holder s' = holder s)"

definition grants_unless_held :: "'s pg_server \<Rightarrow> ('s \<Rightarrow> nat set) \<Rightarrow> ('s \<Rightarrow> i64 \<Rightarrow> nat option) \<Rightarrow> bool" where
  "grants_unless_held env alive holder \<longleftrightarrow> (\<forall>s c h. \<exists>s'. ps_try_lock env c h s = (Inr (holder s h \<in> {None, Some c}), s') \<and>
     alive s' = alive s \<and> holder s' = (if holder s h \<in> {None, Some c} then (holder s)(h := Some c) else holder s))"

definition ends_free :: "'s pg_server \<Rightarrow> ('s \<Rightarrow> nat set) \<Rightarrow> ('s \<Rightarrow> i64 \<Rightarrow> nat option) \<Rightarrow> bool" where
  "ends_free env alive holder \<longleftrightarrow> (\<forall>s c. alive (ps_rollback env c s) = alive s \<and> holder (ps_rollback env c s) = without c (holder s) \<and>
     alive (ps_close env c s) = alive s - {c} \<and> holder (ps_close env c s) = without c (holder s))"

text \<open>All of them: a server that opens every session and transaction it is asked for, and on which no session ends of its
  own accord.\<close>

definition advisory :: "'s pg_server \<Rightarrow> ('s \<Rightarrow> nat set) \<Rightarrow> ('s \<Rightarrow> i64 \<Rightarrow> nat option) \<Rightarrow> bool" where
  "advisory env alive holder \<longleftrightarrow> sessions_open env alive holder \<and> begins_freely env alive holder \<and>
     grants_unless_held env alive holder \<and> ends_free env alive holder"

lemma advisory_connect:
  "advisory env alive holder \<Longrightarrow> \<exists>c s'. ps_connect env s = (Inr c, s') \<and> c \<notin> alive s \<and> alive s' = insert c (alive s) \<and> holder s' = holder s"
  unfolding advisory_def sessions_open_def by blast

lemma advisory_begin:
  "advisory env alive holder \<Longrightarrow> \<exists>s'. ps_begin env c s = (Inr (), s') \<and> alive s' = alive s \<and> holder s' = holder s"
  unfolding advisory_def begins_freely_def by blast

lemma advisory_try:
  "advisory env alive holder \<Longrightarrow> \<exists>s'. ps_try_lock env c h s = (Inr (holder s h \<in> {None, Some c}), s') \<and>
     alive s' = alive s \<and> holder s' = (if holder s h \<in> {None, Some c} then (holder s)(h := Some c) else holder s)"
  unfolding advisory_def grants_unless_held_def by blast

lemma advisory_ends:
  assumes "advisory env alive holder"
  shows "alive (ps_rollback env c s) = alive s" "holder (ps_rollback env c s) = without c (holder s)"
    "alive (ps_close env c s) = alive s - {c}" "holder (ps_close env c s) = without c (holder s)"
  using assms by (simp_all add: advisory_def ends_free_def)

text \<open>The effect of trying on a client.\<close>

lemma try_granted:
  assumes "advisory env alive holder" "holder (pp_server p) h \<in> {None, Some (pk_client l)}"
  obtains s' where "acquire_advisory_lock env key h l p = (Inr l, p\<lparr>pp_server := s'\<rparr>)"
    "alive s' = alive (pp_server p)" "holder s' = (holder (pp_server p))(h := Some (pk_client l))"
proof -
  obtain s1 where s1: "ps_begin env (pk_client l) (pp_server p) = (Inr (), s1)" "alive s1 = alive (pp_server p)" "holder s1 = holder (pp_server p)"
    using advisory_begin [OF assms(1)] by blast
  obtain s2 where s2: "ps_try_lock env (pk_client l) h s1 = (Inr True, s2)" "alive s2 = alive s1" "holder s2 = (holder s1)(h := Some (pk_client l))"
    using advisory_try [OF assms(1), of "pk_client l" h s1] s1(3) assms(2) by auto
  show thesis
    by (rule that [of s2]) (use s1 s2 in \<open>simp_all add: acquire_advisory_lock_def on_pg_def eff_simps Let_def\<close>)
qed

lemma try_refused:
  assumes "advisory env alive holder" "holder (pp_server p) h = Some c" "c \<noteq> pk_client l"
  obtains s' where "acquire_advisory_lock env key h l p = (Inl (AlreadyLocked key), p\<lparr>pp_server := s'\<rparr>)"
    "alive s' = alive (pp_server p) - {pk_client l}" "holder s' = without (pk_client l) (holder (pp_server p))"
proof -
  obtain s1 where s1: "ps_begin env (pk_client l) (pp_server p) = (Inr (), s1)" "alive s1 = alive (pp_server p)" "holder s1 = holder (pp_server p)"
    using advisory_begin [OF assms(1)] by blast
  obtain s2 where s2: "ps_try_lock env (pk_client l) h s1 = (Inr False, s2)" "alive s2 = alive s1" "holder s2 = holder s1"
    using advisory_try [OF assms(1), of "pk_client l" h s1] s1(3) assms(2,3) by auto
  have twice: "without d (without d f) = without d f" for d f by (auto simp: without_def)
  show thesis
    by (rule that [of "ps_close env (pk_client l) (ps_rollback env (pk_client l) s2)"])
      (use s1 s2 in \<open>simp_all add: acquire_advisory_lock_def on_pg_def close_client_def eff_simps Let_def
        advisory_ends [OF assms(1)] twice\<close>)
qed

section \<open>Exclusion\<close>

text \<open>Locks are acquired at any time, and given up by their owners in either way; the list holds those alive, with their keys.\<close>

inductive pg_reach :: "pg_options \<Rightarrow> 's pg_server \<Rightarrow> 's \<Rightarrow> 's pg_pool \<Rightarrow> (string \<times> postgres_lock) list \<Rightarrow> bool"
  for opts env s0 where
  pg_start: "pg_reach opts env s0 \<lparr>pp_idle = [], pp_open_count = 0, pp_server = s0\<rparr> []"
| pg_got: "pg_reach opts env s0 p ls \<Longrightarrow> pg_acquire_lock opts env now key p = (Inr l, p') \<Longrightarrow> pg_reach opts env s0 p' ((key, l) # ls)"
| pg_not_got: "pg_reach opts env s0 p ls \<Longrightarrow> pg_acquire_lock opts env now key p = (Inl e, p') \<Longrightarrow> pg_reach opts env s0 p' ls"
| pg_released: "pg_reach opts env s0 p (as @ (key, l) # bs) \<Longrightarrow> pg_reach opts env s0 (pg_release_lock opts env now l p) (as @ bs)"
| pg_dropped: "pg_reach opts env s0 p (as @ (key, l) # bs) \<Longrightarrow> pg_reach opts env s0 (pg_drop_lock opts env now l p) (as @ bs)"

text \<open>A connection is idle or in one lock; a lock that is alive is held by its connection.\<close>

definition clients :: "idle_connection list \<Rightarrow> (string \<times> postgres_lock) list \<Rightarrow> nat list" where
  "clients ics ls = map ic_client ics @ map (pk_client \<circ> snd) ls"

definition owned ::
    "'s pg_server \<Rightarrow> ('s \<Rightarrow> nat set) \<Rightarrow> ('s \<Rightarrow> i64 \<Rightarrow> nat option) \<Rightarrow> 's pg_pool \<Rightarrow> (string \<times> postgres_lock) list \<Rightarrow> bool" where
  "owned env alive holder p ls \<longleftrightarrow> distinct (clients (pp_idle p) ls) \<and> set (clients (pp_idle p) ls) \<subseteq> alive (pp_server p) \<and>
     (\<forall>(key, l) \<in> set ls. holder (pp_server p) (hash_key env key) = Some (pk_client l))"

lemma clients_Cons:
  "set (clients ics ((key, l) # ls)) = insert (pk_client l) (set (clients ics ls))"
  "distinct (clients ics ((key, l) # ls)) \<longleftrightarrow> pk_client l \<notin> set (clients ics ls) \<and> distinct (clients ics ls)"
  by (auto simp: clients_def)

lemma held_without:
  assumes "c \<notin> set (clients ics ls)" "\<forall>(key, l) \<in> set ls. f (hash_key env key) = Some (pk_client l)"
  shows "\<forall>(key, l) \<in> set ls. without c f (hash_key env key) = Some (pk_client l)"
proof -
  have "pk_client l \<noteq> c" if "(key, l) \<in> set ls" for key l using assms(1) that by (force simp: clients_def)
  then show ?thesis using assms(2) by (fastforce simp: without_def)
qed

lemma close_owned:
  assumes "advisory env alive holder" "c \<notin> set (clients (pp_idle p) ls)" "owned env alive holder p ls"
  shows "owned env alive holder (close_client env c p) ls"
  using assms(2,3) held_without [OF assms(2), of "holder (pp_server p)" env]
  by (auto simp: owned_def close_client_def advisory_ends [OF assms(1)])

lemma rollback_owned:
  assumes "advisory env alive holder" "c \<notin> set (clients (pp_idle p) ls)" "owned env alive holder p ls"
  shows "owned env alive holder (p\<lparr>pp_server := ps_rollback env c (pp_server p)\<rparr>) ls"
  using assms(2,3) held_without [OF assms(2), of "holder (pp_server p)" env]
  by (auto simp: owned_def advisory_ends [OF assms(1)])

lemma take_idle_owned:
  assumes adv: "advisory env alive holder"
  shows "owned env alive holder (p\<lparr>pp_idle := rev ics\<rparr>) ls \<Longrightarrow> take_idle opts env now ics p = (r, p') \<Longrightarrow>
    (case r of None \<Rightarrow> owned env alive holder p' ls
     | Some ic \<Rightarrow> owned env alive holder p' ls \<and> ic_client ic \<notin> set (clients (pp_idle p') ls) \<and> ic_client ic \<in> alive (pp_server p'))"
proof (induction ics arbitrary: p)
  case (Cons ic ics)
  have own: "owned env alive holder (p\<lparr>pp_idle := rev ics\<rparr>) ls" and new: "ic_client ic \<notin> set (clients (rev ics) ls)"
    and alive: "ic_client ic \<in> alive (pp_server p)"
    using Cons.prems(1) by (auto simp: owned_def clients_def)
  show ?case
  proof (cases "too_old opts now ic")
    case True
    let ?p = "(close_client env (ic_client ic) p)\<lparr>pp_open_count := pp_open_count p - 1\<rparr>"
    have "owned env alive holder (close_client env (ic_client ic) (p\<lparr>pp_idle := rev ics\<rparr>)) ls"
      by (rule close_owned [OF adv _ own]) (use new in simp)
    then have "owned env alive holder (?p\<lparr>pp_idle := rev ics\<rparr>) ls" by (simp add: owned_def close_client_def)
    then show ?thesis using Cons.IH Cons.prems(2) True by simp
  next
    case False
    then show ?thesis using Cons.prems(2) own new alive by auto
  qed
qed simp

lemma get_owned:
  assumes adv: "advisory env alive holder" and own: "owned env alive holder p ls" and get: "pool_get opts env now p = (r, p')"
  shows "owned env alive holder p' ls \<and> (case r of Inl e \<Rightarrow> True
    | Inr l \<Rightarrow> pk_client l \<notin> set (clients (pp_idle p') ls) \<and> pk_client l \<in> alive (pp_server p'))"
proof -
  obtain t q where t: "take_idle opts env now (rev (pp_idle p)) p = (t, q)" by (cases "take_idle opts env now (rev (pp_idle p)) p")
  have q: "case t of None \<Rightarrow> owned env alive holder q ls
     | Some ic \<Rightarrow> owned env alive holder q ls \<and> ic_client ic \<notin> set (clients (pp_idle q) ls) \<and> ic_client ic \<in> alive (pp_server q)"
    by (rule take_idle_owned [OF adv _ t]) (use own in simp)
  obtain c s' where c: "ps_connect env (pp_server q) = (Inr c, s')" "c \<notin> alive (pp_server q)" "alive s' = insert c (alive (pp_server q))"
    "holder s' = holder (pp_server q)" using advisory_connect [OF adv] by blast
  show ?thesis
    using get t q c by (cases t) (auto simp: pool_get_def owned_def split: if_splits)
qed

lemma put_owned:
  assumes adv: "advisory env alive holder" and own: "owned env alive holder p ls"
    and new: "pk_client l \<notin> set (clients (pp_idle p) ls)" "pk_client l \<in> alive (pp_server p)"
  shows "owned env alive holder (pool_put opts env now l p) ls"
proof -
  have "owned env alive holder ((close_client env (pk_client l) p)\<lparr>pp_open_count := n\<rparr>) ls" for n
    using close_owned [OF adv new(1) own] by (simp add: owned_def)
  moreover have "owned env alive holder (p\<lparr>pp_idle := pp_idle p @ [\<lparr>ic_client = pk_client l, ic_created_at = a, ic_last_used = now\<rparr>]\<rparr>) ls" for a
    using own new by (auto simp: owned_def clients_def)
  ultimately show ?thesis by (simp add: pool_put_def)
qed

lemma owned_part: "owned env alive holder p (as @ (key, l) # bs) \<Longrightarrow>
  owned env alive holder p (as @ bs) \<and> pk_client l \<notin> set (clients (pp_idle p) (as @ bs)) \<and> pk_client l \<in> alive (pp_server p)"
  by (auto simp: owned_def clients_def)

lemma reach_owned:
  assumes adv: "advisory env alive holder"
  shows "pg_reach opts env s0 p ls \<Longrightarrow> owned env alive holder p ls"
proof (induction rule: pg_reach.induct)
  case pg_start
  show ?case by (simp add: owned_def clients_def)
next
  case (pg_got p ls now key l p')
  obtain l1 q where q: "pool_get opts env now p = (Inr l1, q)"
    using pg_got.hyps(2) by (cases "pool_get opts env now p"; cases "fst (pool_get opts env now p)") (auto simp: pg_acquire_lock_def and_then_def)
  have acq: "acquire_advisory_lock env key (hash_key env key) l1 q = (Inr l, p')"
    using pg_got.hyps(2) q by (simp add: pg_acquire_lock_def and_then_def)
  have own: "owned env alive holder q ls" "pk_client l1 \<notin> set (clients (pp_idle q) ls)" "pk_client l1 \<in> alive (pp_server q)"
    using get_owned [OF adv pg_got.IH q] by auto
  have free: "holder (pp_server q) (hash_key env key) \<in> {None, Some (pk_client l1)}"
  proof (rule ccontr)
    assume "\<not> ?thesis"
    then obtain c where "holder (pp_server q) (hash_key env key) = Some c" "c \<noteq> pk_client l1" by auto
    then show False by (rule try_refused [OF adv, where key = key]) (use acq in simp)
  qed
  obtain s' where s': "acquire_advisory_lock env key (hash_key env key) l1 q = (Inr l1, q\<lparr>pp_server := s'\<rparr>)"
    "alive s' = alive (pp_server q)" "holder s' = (holder (pp_server q))(hash_key env key := Some (pk_client l1))"
    by (rule try_granted [OF adv free])
  have used: "pk_client l2 \<in> set (clients (pp_idle q) ls)" if "(k, l2) \<in> set ls" for k l2
    using that image_eqI [of "pk_client l2" "pk_client \<circ> snd" "(k, l2)"] by (simp add: clients_def)
  have old: "pk_client l2 \<noteq> pk_client l1" "holder (pp_server q) (hash_key env k) = Some (pk_client l2)" if "(k, l2) \<in> set ls" for k l2
    proof -
    show "pk_client l2 \<noteq> pk_client l1" using used [OF that] own(2) by metis
    show "holder (pp_server q) (hash_key env k) = Some (pk_client l2)" using own(1) that by (auto simp: owned_def)
  qed
  have "hash_key env k \<noteq> hash_key env key" if "(k, l2) \<in> set ls" for k l2
    using old [OF that] free by auto
  then have held: "\<forall>(k, l2) \<in> set ls. holder s' (hash_key env k) = Some (pk_client l2)" using s'(3) old(2) by auto
  have "l = l1" "p' = q\<lparr>pp_server := s'\<rparr>" using acq s'(1) by simp_all
  then show ?case using s'(2,3) own held by (simp add: owned_def clients_Cons)
next
  case (pg_not_got p ls now key e p')
  obtain r q where q: "pool_get opts env now p = (r, q)" by (cases "pool_get opts env now p")
  note own = get_owned [OF adv pg_not_got.IH q]
  show ?case
  proof (cases r)
    case (Inl e')
    then show ?thesis using pg_not_got.hyps(2) q own by (simp add: pg_acquire_lock_def and_then_def)
  next
    case (Inr l1)
    have acq: "acquire_advisory_lock env key (hash_key env key) l1 q = (Inl e, p')"
      using pg_not_got.hyps(2) q Inr by (simp add: pg_acquire_lock_def and_then_def)
    obtain c where c: "holder (pp_server q) (hash_key env key) = Some c" "c \<noteq> pk_client l1"
    proof (rule ccontr)
      assume no: "\<not> thesis"
      have "holder (pp_server q) (hash_key env key) \<in> {None, Some (pk_client l1)}" using no that by (cases "holder (pp_server q) (hash_key env key)") auto
      then show False by (rule try_granted [OF adv, where key = key]) (use acq in simp)
    qed
    obtain s' where s': "acquire_advisory_lock env key (hash_key env key) l1 q = (Inl (AlreadyLocked key), q\<lparr>pp_server := s'\<rparr>)"
      "alive s' = alive (pp_server q) - {pk_client l1}" "holder s' = without (pk_client l1) (holder (pp_server q))"
      by (rule try_refused [OF adv c])
    show ?thesis
    proof -
      have p': "p' = close_client env (pk_client l1) q\<lparr>pp_server := s'\<rparr>" using acq s'(1) by (simp add: close_client_def)
      have "owned env alive holder (close_client env (pk_client l1) q) ls"
        by (rule close_owned [OF adv]) (use own Inr in auto)
      then show ?thesis using s'(2,3) p' by (simp add: owned_def close_client_def advisory_ends [OF adv])
    qed
  qed
next
  case (pg_released p as key l bs now)
  let ?q = "p\<lparr>pp_server := ps_rollback env (pk_client l) (pp_server p)\<rparr>"
  note part = owned_part [OF pg_released.IH]
  have "owned env alive holder ?q (as @ bs)"
    using part by (intro rollback_owned [OF adv]) auto
  then show ?case
    unfolding pg_release_lock_def by (rule put_owned [OF adv]) (use part in \<open>simp_all add: advisory_ends [OF adv]\<close>)
next
  case (pg_dropped p as key l bs now)
  then show ?case unfolding pg_drop_lock_def using owned_part put_owned [OF adv] by blast
qed

text \<open>C29. However locks are acquired, released and dropped over one pool, the keys of the locks that are alive have different
  hashes: no key has two locks, if the server grants an advisory lock to one session at a time.\<close>

theorem postgres_exclusion:
  "pg_reach opts env s0 p ls \<Longrightarrow> advisory env alive holder \<Longrightarrow> distinct (map (hash_key env \<circ> fst) ls)"
proof -
  assume "pg_reach opts env s0 p ls" and adv: "advisory env alive holder"
  then have own: "owned env alive holder p ls" by (simp add: reach_owned)
  then have dist: "distinct (map (pk_client \<circ> snd) ls)" by (simp add: owned_def clients_def)
  have held: "holder (pp_server p) (hash_key env (fst x)) = Some (pk_client (snd x))" if "x \<in> set ls" for x
    using own that by (auto simp: owned_def)
  have "inj_on (hash_key env \<circ> fst) (set ls)"
  proof (rule inj_onI)
    fix x y assume "x \<in> set ls" "y \<in> set ls" "(hash_key env \<circ> fst) x = (hash_key env \<circ> fst) y"
    then have "pk_client (snd x) = pk_client (snd y)" using held [of x] held [of y] by simp
    then show "x = y" using dist \<open>x \<in> set ls\<close> \<open>y \<in> set ls\<close> by (auto simp: distinct_map inj_on_def)
  qed
  moreover have "distinct ls" using dist by (simp add: distinct_map)
  ultimately show ?thesis by (simp add: distinct_map)
qed

text \<open>A server that keeps its sessions and the locks.\<close>

definition lock_server :: "(nat list \<times> (i64 \<times> nat) list) pg_server" where
  "lock_server =
     \<lparr>ps_connect = (\<lambda>(ss, hs). let c = Suc (sum_list ss) in (Inr c, (c # ss, hs))),
      ps_begin = (\<lambda>c. ret ()),
      ps_try_lock = (\<lambda>c h (ss, hs). if map_of hs h \<in> {None, Some c} then (Inr True, (ss, (h, c) # hs)) else (Inr False, (ss, hs))),
      ps_rollback = (\<lambda>c (ss, hs). (ss, filter (\<lambda>x. snd x \<noteq> c) (AList.clearjunk hs))),
      ps_close = (\<lambda>c (ss, hs). (removeAll c ss, filter (\<lambda>x. snd x \<noteq> c) (AList.clearjunk hs))),
      ps_sha256 = (\<lambda>k. map (of_char) k)\<rparr>"

lemma map_of_filter_snd: "distinct (map fst hs) \<Longrightarrow> map_of (filter (\<lambda>x. snd x \<noteq> c) hs) h = without c (map_of hs) h"
  by (induction hs) (auto simp: without_def map_of_eq_None_iff[symmetric] dest: map_of_SomeD split: option.splits)

lemma lock_server_advisory: "advisory lock_server (\<lambda>s. set (fst s)) (\<lambda>s. map_of (snd s))"
proof -
  have "Suc (sum_list ss) \<notin> set ss" for ss :: "nat list"
    using member_le_sum_list [of "Suc (sum_list ss)" ss] by auto
  moreover have "map_of (filter (\<lambda>x. snd x \<noteq> c) (AList.clearjunk hs)) = without c (map_of hs)" for c and hs :: "(i64 \<times> nat) list"
    by (rule ext) (simp add: map_of_filter_snd distinct_clearjunk map_of_clearjunk)
  ultimately show ?thesis
    by (simp add: advisory_def sessions_open_def begins_freely_def grants_unless_held_def ends_free_def lock_server_def
        Let_def ret_def split_beta fun_eq_iff set_removeAll)
qed

section \<open>Connections that are lost\<close>

lemma acquire_without_idle:
  assumes "pp_idle p = []" "pp_open_count p < max_open opts" "ps_connect env (pp_server p) = (Inr c, s')"
  shows "pg_acquire_lock opts env now key p =
    acquire_advisory_lock env key (hash_key env key) \<lparr>pk_client = c, pk_created_at = now\<rparr>
      (p\<lparr>pp_open_count := Suc (pp_open_count p), pp_server := s'\<rparr>)"
  using assms by (cases p) (simp add: pg_acquire_lock_def pool_get_def and_then_def)

lemma contended_step:
  assumes adv: "advisory env alive holder" and p: "pp_idle p = []" "pp_open_count p < max_open opts"
    and held: "holder (pp_server p) (hash_key env key) = Some c" "c \<in> alive (pp_server p)"
  obtains p' where "pg_acquire_lock opts env now key p = (Inl (AlreadyLocked key), p')" "pp_idle p' = []"
    "pp_open_count p' = Suc (pp_open_count p)" "holder (pp_server p') (hash_key env key) = Some c" "c \<in> alive (pp_server p')"
proof -
  obtain d s' where d: "ps_connect env (pp_server p) = (Inr d, s')" "d \<notin> alive (pp_server p)"
    "alive s' = insert d (alive (pp_server p))" "holder s' = holder (pp_server p)"
    using advisory_connect [OF adv] by blast
  let ?l = "\<lparr>pk_client = d, pk_created_at = now\<rparr>" and ?q = "p\<lparr>pp_open_count := Suc (pp_open_count p), pp_server := s'\<rparr>"
  have cd: "c \<noteq> d" using d(2) held(2) by auto
  obtain s2 where s2: "acquire_advisory_lock env key (hash_key env key) ?l ?q = (Inl (AlreadyLocked key), ?q\<lparr>pp_server := s2\<rparr>)"
    "alive s2 = alive (pp_server ?q) - {pk_client ?l}" "holder s2 = without (pk_client ?l) (holder (pp_server ?q))"
    by (rule try_refused [OF adv, where p = ?q and l = ?l and c = c and h = "hash_key env key" and key = key]) (use d held cd in simp_all)
  show thesis
    by (rule that [of "?q\<lparr>pp_server := s2\<rparr>"])
      (use p s2 d held cd acquire_without_idle [OF p d(1), where now = now and key = key] in \<open>simp_all add: without_def\<close>)
qed

text \<open>C30. Each attempt at a lock that another session holds uses up a connection of the pool for good: while the other holds
  it, the first attempts, one for each connection that may be open, are told that it is locked, and every attempt after
  them, for any key, that the pool is exhausted.\<close>

theorem contention_exhausts_pool:
  assumes "advisory env alive holder" "holder s (hash_key env key) = Some c" "c \<in> alive s"
    and "attempted = (\<lambda>n. ((\<lambda>p. snd (pg_acquire_lock opts env now key p)) ^^ n) \<lparr>pp_idle = [], pp_open_count = 0, pp_server = s\<rparr>)"
  shows "(\<forall>n < max_open opts. fst (pg_acquire_lock opts env now key (attempted n)) = Inl (AlreadyLocked key)) \<and>
    fst (pg_acquire_lock opts env now' key' (attempted (max_open opts))) =
      Inl (LockConnection (''pool exhausted: max_open_conns='' @ show_nat (max_open opts) @ '' reached''))"
proof -
  have inv: "pp_idle (attempted n) = [] \<and> pp_open_count (attempted n) = n \<and>
      holder (pp_server (attempted n)) (hash_key env key) = Some c \<and> c \<in> alive (pp_server (attempted n))" if "n \<le> max_open opts" for n
    using that
  proof (induction n)
    case 0
    then show ?case using assms(2-4) by simp
  next
    case (Suc n)
    then have p: "pp_idle (attempted n) = []" "pp_open_count (attempted n) < max_open opts"
      "holder (pp_server (attempted n)) (hash_key env key) = Some c" "c \<in> alive (pp_server (attempted n))" by auto
    obtain p' where "pg_acquire_lock opts env now key (attempted n) = (Inl (AlreadyLocked key), p')" "pp_idle p' = []"
      "pp_open_count p' = Suc (pp_open_count (attempted n))" "holder (pp_server p') (hash_key env key) = Some c" "c \<in> alive (pp_server p')"
      by (rule contended_step [OF assms(1) p, where now = now])
    moreover have "attempted (Suc n) = snd (pg_acquire_lock opts env now key (attempted n))" using assms(4) by simp
    ultimately show ?case using Suc by simp
  qed
  have "fst (pg_acquire_lock opts env now key (attempted n)) = Inl (AlreadyLocked key)" if "n < max_open opts" for n
    by (rule contended_step [OF assms(1), where p = "attempted n" and opts = opts and now = now and key = key and c = c])
      (use inv [of n] that in auto)
  then show ?thesis using inv [of "max_open opts"] by (simp add: pg_acquire_lock_def pool_get_def and_then_def)
qed

theorem contention_exhausts_pool_witness:
  "fst (pg_acquire_lock (default_pg_options\<lparr>po_max_open_conns := Some 2\<rparr>) lock_server 9 ''b''
     (((\<lambda>p. snd (pg_acquire_lock (default_pg_options\<lparr>po_max_open_conns := Some 2\<rparr>) lock_server 0 ''a'' p)) ^^ 2)
       \<lparr>pp_idle = [], pp_open_count = 0, pp_server = ([7], [(hash_key lock_server ''a'', 7)])\<rparr>)) =
   Inl (LockConnection (''pool exhausted: max_open_conns='' @ show_nat 2 @ '' reached''))"
  using contention_exhausts_pool [OF lock_server_advisory, where s = "([7], [(hash_key lock_server ''a'', 7)])" and key = "''a''" and
      c = 7 and opts = "default_pg_options\<lparr>po_max_open_conns := Some 2\<rparr>" and now = 0 and now' = 9 and key' = "''b''", OF _ _ refl]
  by (simp add: max_open_def)

theorem postgres_exclusion_witness:
  "distinct (map (hash_key lock_server \<circ> fst) [(''a'', \<lparr>pk_client = 1, pk_created_at = 0\<rparr>)])"
proof (rule postgres_exclusion)
  let ?p = "\<lparr>pp_idle = [], pp_open_count = 0, pp_server = ([], [])\<rparr>"
  show "advisory lock_server (\<lambda>s. set (fst s)) (\<lambda>s. map_of (snd s))" by (rule lock_server_advisory)
  have "pg_acquire_lock default_pg_options lock_server 0 ''a'' ?p =
      (Inr \<lparr>pk_client = 1, pk_created_at = 0\<rparr>, snd (pg_acquire_lock default_pg_options lock_server 0 ''a'' ?p))"
    by (simp add: pg_acquire_lock_def pool_get_def default_pg_options_def max_open_def acquire_advisory_lock_def on_pg_def
        lock_server_def eff_simps Let_def)
  then show "pg_reach default_pg_options lock_server ([], []) (snd (pg_acquire_lock default_pg_options lock_server 0 ''a'' ?p))
      [(''a'', \<lparr>pk_client = 1, pk_created_at = 0\<rparr>)]"
    by (rule pg_got [OF pg_start])
qed

text \<open>The coordinator drops its locks. The lock of a dropped one stays with the idle connection: when that connection is
  used for another key, the first key is refused although no lock of it is alive. After a release it is not.\<close>

lemma dropped_lock_blocks:
  assumes adv: "advisory env alive holder" and free: "holder s = (\<lambda>_. None)" and keys: "hash_key env k1 \<noteq> hash_key env k2"
    and p0: "p0 = \<lparr>pp_idle = [], pp_open_count = 0, pp_server = s\<rparr>"
  shows "\<exists>l1 p1 l2 p2. pg_acquire_lock default_pg_options env now k1 p0 = (Inr l1, p1) \<and>
    pg_acquire_lock default_pg_options env now k2 (pg_drop_lock default_pg_options env now l1 p1) = (Inr l2, p2) \<and>
    fst (pg_acquire_lock default_pg_options env now k1 p2) = Inl (AlreadyLocked k1)"
proof -
  let ?o = default_pg_options
  obtain c s1 where c: "ps_connect env s = (Inr c, s1)" "alive s1 = insert c (alive s)" "holder s1 = holder s"
    using advisory_connect [OF adv] by blast
  let ?l = "\<lparr>pk_client = c, pk_created_at = now\<rparr>"
  obtain s2 where s2: "acquire_advisory_lock env k1 (hash_key env k1) ?l (p0\<lparr>pp_open_count := 1, pp_server := s1\<rparr>) =
      (Inr ?l, p0\<lparr>pp_open_count := 1, pp_server := s2\<rparr>)" "alive s2 = alive s1" "holder s2 = (holder s1)(hash_key env k1 := Some c)"
    by (rule try_granted [OF adv, where p = "p0\<lparr>pp_open_count := 1, pp_server := s1\<rparr>" and l = ?l and h = "hash_key env k1" and key = k1])
      (use c free in simp_all)
  let ?p1 = "p0\<lparr>pp_open_count := 1, pp_server := s2\<rparr>"
  have one: "pg_acquire_lock ?o env now k1 p0 = (Inr ?l, ?p1)"
    using s2(1) acquire_without_idle [of p0 ?o env c s1 now k1] c(1) by (simp add: p0 default_pg_options_def max_open_def)
  let ?d = "pg_drop_lock ?o env now ?l ?p1"
  have got: "pool_get ?o env now ?d = (Inr ?l, ?p1)"
    by (simp add: pg_drop_lock_def pool_put_def pool_get_def too_old_def default_pg_options_def p0)
  obtain s3 where s3: "acquire_advisory_lock env k2 (hash_key env k2) ?l ?p1 = (Inr ?l, ?p1\<lparr>pp_server := s3\<rparr>)"
    "alive s3 = alive (pp_server ?p1)" "holder s3 = (holder (pp_server ?p1))(hash_key env k2 := Some c)"
    by (rule try_granted [OF adv, where p = ?p1 and l = ?l and h = "hash_key env k2" and key = k2]) (use s2 c free keys in simp_all)
  let ?p2 = "?p1\<lparr>pp_server := s3\<rparr>"
  have two: "pg_acquire_lock ?o env now k2 ?d = (Inr ?l, ?p2)" using got s3(1) by (simp add: pg_acquire_lock_def and_then_def)
  have h3: "holder s3 (hash_key env k1) = Some c" "c \<in> alive s3" using s3 s2 c keys by simp_all
  have "fst (pg_acquire_lock ?o env now k1 ?p2) = Inl (AlreadyLocked k1)"
    by (rule contended_step [OF adv, where p = ?p2 and opts = ?o and now = now and key = k1 and c = c])
      (use h3 in \<open>simp_all add: p0 default_pg_options_def max_open_def\<close>)
  then show ?thesis using one two by blast
qed

end
