(* ===== verification/Spec2Isabelle.thy ===== *)
theory Spec2Isabelle
  imports Expr_Vm Asl_Analysis Asl_Dispatch Data_Flow Task_Eval Datastore_Props Broker_Inmemory Coordinator_Inv
    Timer_Wheel Expr_Parser Trigger_Data Trigger_Registry Trigger_Api Validation Redact Config Web_Access Web_System Worker Engine Template
    Repository Cache Proxy Docker_Run Rabbitmq Webhooks Runtimes Locker_Postgres
begin

text \<open>
  This library models the Rust workspace under \<open>src/crates\<close>: a workflow engine that accepts jobs, cuts them
  into tasks, hands the tasks to workers over a broker, reacts to what the workers report, and stores
  everything in a datastore; beside it a language of state machines (ASL) with two small expression VMs,
  a timer service, triggers, and the front end of an expression compiler.

  \<^bold>\<open>How the parts interact.\<close> The coordinator (\<open>twerk-app/src/engine/coordinator\<close>) subscribes handlers to the queues of
  a broker (\<open>twerk-infrastructure/src/broker\<close>). A published task or job starts one invocation per handler; the
  handlers read and update the datastore (\<open>twerk-infrastructure/src/datastore\<close>), evaluate templates
  (\<open>twerk-core/src/eval\<close>) and publish further messages. Scheduled jobs take a lock
  (\<open>twerk-infrastructure/src/locker\<close>) before they start an instance. ASL machines (\<open>twerk-core/src/asl\<close>) are validated,
  analysed and dispatched on their own; Switch states run the VM of \<open>eval/vm.rs\<close>.

  \<^bold>\<open>Conventions.\<close> A struct is a record with a field prefix, an enum a datatype with a constructor prefix, a method a
  function of the same name. \<open>Result<T, E>\<close> is \<open>'e + 'a\<close> with the error on the left, \<open>Option\<close> is \<open>option\<close>. A string is the list
  of its bytes. A \<open>HashMap\<close> or \<open>DashMap\<close> is an association list whose order stands for the unspecified order of
  iteration. \<open>i64\<close> is a 64-bit word where overflow matters and an integer where the code stays far from its
  bounds. Stateful code passes its state explicitly (\<open>Effects\<close>); an error keeps the effects made before it.
  Third-party code, the clock, random ids and what the network answers are fields of an environment
  record that the definitions take as an argument.

  \<^bold>\<open>Theories.\<close>
  \<^item> \<^bold>\<open>Shared:\<close> \<open>Twerk_Prelude\<close> (integers, results, strings), \<open>Effects\<close> (state and errors), \<open>Float64\<close> (IEEE doubles),
    \<open>Json_Value\<close> (\<open>serde_json::Value\<close>), and the contracts \<open>Stack_Interface\<close> (the evaluation stack, met by both VMs)
    and \<open>Store_Interface\<close> (a keyed store, met by the maps of the datastore).
  \<^item> \<^bold>\<open>Expression VMs:\<close> \<open>Expr_Vm\<close> (\<open>twerk-core/src/ir\<close>, which \<open>lib.rs\<close> does not declare): code of a tree evaluates to the meaning of the tree, runs end, the
    stack stays within 64 entries, arithmetic never wraps, jumps land one past their target. \<open>Eval_Vm\<close>
    (\<open>eval/vm.rs\<close>): the same equivalence, and exactly when the code panics.
  \<^item> \<^bold>\<open>Expression compiler:\<close> \<open>Expr_Parser\<close> (\<open>twerk-compiler\<close>): the parser accepts exactly a stated grammar; the nesting
    fuel (one more than the number of tokens) decides every input; places of tokens.
  \<^item> \<^bold>\<open>ASL:\<close> \<open>Asl_Types\<close>, \<open>Asl_Machine\<close> (\<open>asl/*.rs\<close>), \<open>Asl_Analysis\<close> (\<open>asl/validation.rs\<close>: reachability, cycles, dead ends
    against the edge relation, and that without findings its paths are short and end in final states, catchers aside), \<open>Asl_Dispatch\<close>
    (\<open>eval/state_dispatch\<close>), \<open>Data_Flow\<close> (\<open>eval/data_flow.rs\<close>), \<open>Task_Eval\<close> (\<open>eval/task.rs\<close>).
  \<^item> \<^bold>\<open>Jobs and tasks:\<close> \<open>Job_Model\<close> (\<open>job.rs\<close>, \<open>task.rs\<close>, \<open>id/\<close>): records, state tables, life cycle.
  \<^item> \<^bold>\<open>Datastore:\<close> \<open>Datastore_Inmemory\<close>, \<open>Datastore_Props\<close> (\<open>datastore/inmemory.rs\<close>): the indexes agree with the tasks,
    queries are exact, and the whole refines two maps.
  \<^item> \<^bold>\<open>Broker:\<close> \<open>Wildcard\<close> (\<open>wildcard.rs\<close>: the table computes the pattern relation), \<open>Queue_Names\<close> (\<open>queue.rs\<close>,
    \<open>utils.rs\<close>), \<open>Broker_Inmemory\<close> (\<open>broker/inmemory\<close>: every handler of a queue sees every message of it).
  \<^item> \<^bold>\<open>Ids and locks:\<close> \<open>Uuid\<close> (\<open>uuid.rs\<close>), \<open>Locker\<close> (\<open>locker/inmemory.rs\<close>, in any interleaving with its watchers).
  \<^item> \<^bold>\<open>Coordinator:\<close> \<open>Coordinator_World\<close> (the state all handlers share), \<open>Scheduler\<close> (\<open>scheduler/*.rs\<close>), \<open>Handlers\<close> and
    \<open>Job_Handlers\<close> (\<open>handlers/*.rs\<close>), \<open>Coordinator\<close> (\<open>mod.rs\<close>, \<open>schedule.rs\<close>, delivery of invocations in any order);
    \<open>Handler_Props\<close>, \<open>Job_Props\<close>, \<open>Error_Props\<close> (failures climb to the job, completions are counted, jobs
    advance, cancellation, retries, rolled back publications) and \<open>Coordinator_Inv\<close> (in every reachable state
    the datastore is consistent and no task is created twice).
  \<^item> \<^bold>\<open>Timers:\<close> \<open>Timer_Wheel\<close> (\<open>runtime/timer\<close>): entries, the spawned sleep tasks, the bounded channel, recovery; no
    timer fires twice, early or after its cancellation, and none is stuck.
  \<^item> \<^bold>\<open>Values with rules:\<close> \<open>Domain_Types\<close> (\<open>twerk-core/src/domain\<close>: durations, cron expressions, host and queue names, ids),
    \<open>Validation\<close> (\<open>validation\<close>, \<open>types\<close>: what a job may be before it is accepted).
  \<^item> \<^bold>\<open>Triggers:\<close> \<open>Trigger_Data\<close> (\<open>trigger/data\<close>), \<open>Trigger_Registry\<close> (\<open>trigger/in_memory.rs\<close>: an invariant of every reachable
    registry), \<open>Trigger_Api\<close> (\<open>twerk-web/src/api/trigger_api\<close>: one specification of an update, and how two are lost).
  \<^item> \<^bold>\<open>Templates:\<close> \<open>Template\<close> (\<open>eval/template.rs\<close>, \<open>transform.rs\<close>, \<open>context.rs\<close>, \<open>intrinsics.rs\<close>): rendering by the positions of
    the matches is the recursive reference; the functions of a context and their bounds.
  \<^item> \<^bold>\<open>API:\<close> \<open>Web_Access\<close> (authentication, limits and the order of the layers of \<open>engine/coordinator\<close>), \<open>Web_Requests\<close>
    (\<open>twerk-web/src/api\<close>: reading and answering), \<open>Redact\<close> (secrets do not leave it), \<open>Web_Jobs\<close> and \<open>Web_Job_Props\<close>
    (\<open>handlers/*.rs\<close>: what a request makes of jobs and of what the coordinator does afterwards), \<open>Web_System\<close> (requests
    and steps of the coordinator in any order).
  \<^item> \<^bold>\<open>Process:\<close> \<open>Config\<close> (\<open>twerk-common/src/conf\<close>), \<open>Engine\<close> (\<open>engine/engine*.rs\<close>, \<open>run_engine\<close>: starting, signals, ending), \<open>Worker\<close>
    (\<open>engine/worker/mod.rs\<close>, \<open>shell.rs\<close> and the worker of the library), \<open>Proxy\<close> (\<open>engine/datastore\<close>, \<open>broker.rs\<close>, \<open>locker.rs\<close>:
    the proxies of the engine and the factories).
  \<^item> \<^bold>\<open>Containers:\<close> \<open>Docker_Config\<close> and \<open>Docker_Run\<close> (\<open>engine/worker/docker.rs\<close>, \<open>runtime/docker/container\<close>, \<open>helpers.rs\<close>, \<open>pull.rs\<close>):
    what a container is created with, its life from the pull to the removal, and what a run leaves.
  \<^item> \<^bold>\<open>Runtimes:\<close> \<open>Runtimes\<close> (\<open>engine/worker/runtime_adapter.rs\<close>, \<open>podman.rs\<close>, \<open>runtime/mod.rs\<close>, \<open>engine/endpoints.rs\<close>): the
    choice of a runtime, the mounters of a worker, a run under Podman and what its stop leaves running.
  \<^item> \<^bold>\<open>Services:\<close> \<open>Rabbitmq\<close> (\<open>broker/rabbitmq.rs\<close>: queues, publications, the consumers and the settlement of what they
    receive), \<open>Webhooks\<close> (\<open>webhook.rs\<close>, \<open>engine/coordinator/webhook.rs\<close>: both loops of attempts), \<open>Locker_Postgres\<close>
    (\<open>locker/postgres.rs\<close>: advisory locks over a pool of connections; exclusion, and how the pool is used up).
  \<^item> \<^bold>\<open>Other stores:\<close> \<open>Repository\<close> (\<open>repository_inmemory.rs\<close>: pages cover a list exactly), \<open>Cache\<close> (\<open>infrastructure/cache\<close>: the
    janitor is invisible).

  \<^bold>\<open>Bounds and fuel.\<close> \<open>fail_up\<close> recurses through the parents of a task with fuel \<open>Suc (length (ds_tasks ds))\<close>; the
  ancestors of a task are distinct stored tasks, so that it is enough (\<open>failure_climbs\<close>). The nesting fuel of
  the expression parser is enough by \<open>expression_fuel\<close>. All other recursion is structural or has a measure.
  Invocations of handlers run one after the other in any order; where the code lets two of them overlap inside
  one handler this is said (\<open>lost_completion\<close>) and shown on explicit steps.

  \<^bold>\<open>Not modelled, and why.\<close> The PostgreSQL datastore is SQL texts and the copying of rows into records. The container
  runtimes of the library (\<open>runtime/docker/runtime\<close>, \<open>runtime/podman\<close>) are not used by the program, whose worker
  has runtimes of its own. The command line client sends requests and prints the answers. The description of the API,
  the generator of test cases, benchmarks, fuzzing and proof harnesses are not part of the program's logic. The stored
  form of timers, the resolution of registry credentials, the parser of image references and the archives uploaded to
  containers are arguments where they are used. Logging, tracing and metrics are left out everywhere. Expressions are
  evaluated by the crate \<open>evalexpr\<close>, cron expressions by \<open>cron\<close>, JSON and YAML are read by \<open>serde\<close>, RabbitMQ is reached
  through \<open>lapin\<close>, PostgreSQL through \<open>sqlx\<close>, webhooks through \<open>reqwest\<close>: their results are arguments.
\<close>

end
